(* ===== verification/Rofl_Prelude.thy ===== *)
theory Rofl_Prelude
  imports Main "HOL-Library.Word"
begin

text \<open>
  Shared vocabulary of the rofl-common development: machine integers, the exceptions the
  library throws, models of the C++ containers the sources use (\<open>std::set\<close> with a comparator as
  a list sorted by that comparator, \<open>std::map\<close> as an association list sorted by key), the
  \<open>find_if\<close>/\<open>erase\<close> loops over them, and the network byte order conversions.
\<close>

unbundle bit_operations_syntax

section \<open>Machine integers, bytes and exceptions\<close>

type_synonym u8 = "8 word"
type_synonym u16 = "16 word"
type_synonym u32 = "32 word"
type_synonym u64 = "64 word"
type_synonym byte = "8 word"

named_theorems container_simps \<open>membership and lookup after an update of a container model\<close>
named_theorems sorted_intros \<open>operations that keep a container model sorted\<close>

text \<open>
  The exception classes the modelled code throws or catches.  The last three stand for undefined
  behaviour: a read or a write beyond a buffer and the use of a null pointer.
\<close>

datatype rofl_exn =
    EInvalid
  | EBufInval
  | EOutOfRange
  | ESysCall
  | EBadCast
  | EBadRequestBadLen
  | EBadRequestBadType
  | EBadRequestBadStat
  | EBadRequestBadVersion
  | EBadVersion
  | EHelloElemsNotFound
  | ERofQueueFull
  | EThreadInvalid
  | EThreadNotFound
  | ESegmentedMessageInvalid
  | ERofConnInvalid
  | ERofConnNotFound
  | ERofConnNotConnected
  | ERofChanNotFound
  | ERofChanInval
  | ERofChanExhausted
  | EOxmInval
  | EOxmBadLen
  | EBadMatchBadLen
  | EBadMatchBadType
  | EBadMatchBadPrereq
  | EActionInval
  | EActionInvalType
  | EActionNotFound
  | EBadActionBadLen
  | EBadActionBadOutPort
  | EInstructionsInval
  | EInstructionsBadLen
  | EInstructionsNotFound
  | EBadInstBadTableId
  | ERofBaseNotFound
  | ERofBaseNotConnected
  | ERofCtlNotFound
  | ERofDptNotFound
  | EBadRequestIsSlave
  | ERoleRequestBadRole
  | ERoleRequestStale
  | EMemNotFound
  | EPacketInval
  | EPacketOutOfRange
  | EBucketBadLen
  | EBucketsInval
  | EBucketsNotFound
  | EOutOfBoundsRead
  | EOutOfBoundsWrite
  | ENullPointer

type_synonym 'a result = "rofl_exn + 'a"

text \<open>
  A method that may throw after it changed its object: the object as it is left, and the exception
  if there was one.
\<close>

type_synonym 's outcome = "'s \<times> rofl_exn option"

text \<open>The rest of a function after a call that may throw; steps of a function on its local state.\<close>

definition rbind :: "'a result \<Rightarrow> ('a \<Rightarrow> 'b result) \<Rightarrow> 'b result" where
  "rbind r f = (case r of Inl e \<Rightarrow> Inl e | Inr x \<Rightarrow> f x)"

lemma rbind_simps [simp]: "rbind (Inl e) f = Inl e" "rbind (Inr x) f = f x"
  by (simp_all add: rbind_def)

lemma rbind_Inr_iff: "rbind r f = Inr y \<longleftrightarrow> (\<exists>x. r = Inr x \<and> f x = Inr y)"
  by (cases r) simp_all

fun run_steps :: "('s \<Rightarrow> 's result) list \<Rightarrow> 's \<Rightarrow> 's result" where
  "run_steps [] s = Inr s"
| "run_steps (f # fs) s = rbind (f s) (run_steps fs)"

section \<open>Lists\<close>

text \<open>\<open>it = find_if(begin, end, P); erase(it)\<close>: the first match is removed.\<close>

fun erase_first :: "('a \<Rightarrow> bool) \<Rightarrow> 'a list \<Rightarrow> 'a list" where
  "erase_first P [] = []"
| "erase_first P (x # xs) = (if P x then xs else x # erase_first P xs)"

text \<open>\<open>while ((it = find_if(...)) != end) erase(it);\<close>\<close>

function erase_while :: "('a \<Rightarrow> bool) \<Rightarrow> 'a list \<Rightarrow> 'a list" where
  "erase_while P xs = (if list_ex P xs then erase_while P (erase_first P xs) else xs)"
  by pat_completeness auto

lemma length_erase_first: "list_ex P xs \<Longrightarrow> length (erase_first P xs) < length xs"
  by (induction xs) auto

termination erase_while
  by (relation "measure (\<lambda>(P, xs). length xs)") (auto simp: length_erase_first)

declare erase_while.simps [simp del]

lemma set_erase_first_subset: "set (erase_first P xs) \<subseteq> set xs"
  by (induction xs) auto

lemma erase_first_id: "\<not> list_ex P xs \<Longrightarrow> erase_first P xs = xs"
  by (induction xs) auto

lemma erase_first_keeps: "x \<in> set xs \<Longrightarrow> \<not> P x \<Longrightarrow> x \<in> set (erase_first P xs)"
  by (induction xs) auto

lemma sorted_wrt_erase_first [sorted_intros]: "sorted_wrt R xs \<Longrightarrow> sorted_wrt R (erase_first P xs)"
  using set_erase_first_subset by (induction xs) fastforce+

lemma distinct_map_erase_first:
  "distinct (map f xs) \<Longrightarrow> distinct (map f (erase_first P xs))"
  using set_erase_first_subset by (induction xs) fastforce+

lemma filter_erase_first: "filter (\<lambda>x. \<not> P x) (erase_first P xs) = filter (\<lambda>x. \<not> P x) xs"
  by (induction xs) auto

lemma erase_while_filter: "erase_while P xs = filter (\<lambda>x. \<not> P x) xs"
proof (induction P xs rule: erase_while.induct)
  case (1 P xs)
  show ?case
  proof (cases "list_ex P xs")
    case True
    with 1 show ?thesis
      by (simp add: erase_while.simps [of P xs] filter_erase_first)
  next
    case False
    then show ?thesis
      by (simp add: erase_while.simps [of P xs] list_ex_iff filter_id_conv)
  qed
qed

text \<open>
  When at most one element has a given key, erasing the first match erases every match.
\<close>

lemma erase_first_distinct_key:
  assumes "distinct (map f xs)"
  shows "erase_first (\<lambda>x. f x = k) xs = filter (\<lambda>x. f x \<noteq> k) xs"
  using assms
proof (induction xs)
  case Nil
  then show ?case by simp
next
  case (Cons x xs)
  show ?case
  proof (cases "f x = k")
    case True
    with Cons.prems have "\<forall>y \<in> set xs. f y \<noteq> k"
      by (metis distinct.simps(2) image_eqI list.simps(9) set_map)
    with True show ?thesis by (simp add: filter_id_conv)
  next
    case False
    with Cons show ?thesis by simp
  qed
qed

section \<open>\<open>std::set\<close> with a comparator\<close>

text \<open>
  \<open>std::set::emplace\<close>: the element goes to its place in the order; if an equivalent element
  (neither is less than the other) is there already, nothing changes and the flag is \<open>false\<close>.
\<close>

fun set_emplace :: "('a \<Rightarrow> 'a \<Rightarrow> bool) \<Rightarrow> 'a \<Rightarrow> 'a list \<Rightarrow> 'a list \<times> bool" where
  "set_emplace lt x [] = ([x], True)"
| "set_emplace lt x (y # ys) =
     (if lt x y then (x # y # ys, True)
      else if lt y x then (case set_emplace lt x ys of (zs, b) \<Rightarrow> (y # zs, b))
      else (y # ys, False))"

text \<open>What the C++ standard asks of a comparator: a strict weak order.\<close>

locale comparator =
  fixes lt :: "'a \<Rightarrow> 'a \<Rightarrow> bool"
  assumes lt_asym: "lt x y \<Longrightarrow> \<not> lt y x"
    and lt_negtrans: "lt x z \<Longrightarrow> lt x y \<or> lt y z"
begin

definition eqv :: "'a \<Rightarrow> 'a \<Rightarrow> bool" where
  "eqv x y \<longleftrightarrow> \<not> lt x y \<and> \<not> lt y x"

lemma lt_irrefl [simp]: "\<not> lt x x"
  using lt_asym by blast

lemma lt_trans: "lt x y \<Longrightarrow> lt y z \<Longrightarrow> lt x z"
  using lt_negtrans lt_asym by blast

lemma eqv_refl [simp]: "eqv x x"
  by (simp add: eqv_def)

lemma eqv_sym: "eqv x y \<Longrightarrow> eqv y x"
  by (simp add: eqv_def)

lemma eqv_lt: "eqv x y \<Longrightarrow> lt y z \<Longrightarrow> lt x z"
  unfolding eqv_def using lt_negtrans by blast

lemma set_emplace_False:
  "snd (set_emplace lt x xs) = False \<Longrightarrow> fst (set_emplace lt x xs) = xs"
  by (induction xs) (auto split: prod.splits if_splits)

lemma set_emplace_set_True:
  "snd (set_emplace lt x xs) \<Longrightarrow> set (fst (set_emplace lt x xs)) = insert x (set xs)"
  by (induction xs) (auto split: prod.splits if_splits)

lemma set_emplace_set_subset: "set (fst (set_emplace lt x xs)) \<subseteq> insert x (set xs)"
  by (induction xs) (auto split: prod.splits if_splits)

lemma set_emplace_snd:
  "sorted_wrt lt xs \<Longrightarrow> snd (set_emplace lt x xs) \<longleftrightarrow> (\<forall>y \<in> set xs. \<not> eqv x y)"
proof (induction xs)
  case Nil
  then show ?case by simp
next
  case (Cons y ys)
  have "lt x z" if "lt x y" "z \<in> set ys" for z
    using Cons.prems that lt_trans by auto
  with Cons show ?case
    by (auto simp: eqv_def split: prod.splits)
qed

lemma set_emplace_sorted:
  "sorted_wrt lt xs \<Longrightarrow> sorted_wrt lt (fst (set_emplace lt x xs))"
proof (induction xs)
  case Nil
  then show ?case by simp
next
  case (Cons y ys)
  have below: "lt x z" if "lt x y" "z \<in> set ys" for z
    using Cons.prems that lt_trans by auto
  have sub: "set (fst (set_emplace lt x ys)) \<subseteq> insert x (set ys)"
    by (rule set_emplace_set_subset)
  from Cons sub below show ?case
    by (auto split: prod.splits)
qed

lemma set_emplace_mem:
  assumes "sorted_wrt lt xs"
  shows "set (fst (set_emplace lt x xs)) =
    (if \<exists>y \<in> set xs. eqv x y then set xs else insert x (set xs))"
  using set_emplace_snd [OF assms, of x] set_emplace_set_True [of x xs]
    set_emplace_False [of x xs] by auto

lemma sorted_eqv_unique:
  "sorted_wrt lt xs \<Longrightarrow> x \<in> set xs \<Longrightarrow> y \<in> set xs \<Longrightarrow> eqv x y \<Longrightarrow> x = y"
  by (induction xs) (auto simp: eqv_def)

end

section \<open>\<open>std::map\<close> as an association list sorted by key\<close>

fun map_put :: "'k::linorder \<Rightarrow> 'v \<Rightarrow> ('k \<times> 'v) list \<Rightarrow> ('k \<times> 'v) list" where
  "map_put k v [] = [(k, v)]"
| "map_put k v ((k', v') # m) =
     (if k < k' then (k, v) # (k', v') # m
      else if k = k' then (k, v) # m
      else (k', v') # map_put k v m)"

definition map_erase :: "'k \<Rightarrow> ('k \<times> 'v) list \<Rightarrow> ('k \<times> 'v) list" where
  "map_erase k m = filter (\<lambda>p. fst p \<noteq> k) m"

definition map_keys :: "('k \<times> 'v) list \<Rightarrow> 'k list" where
  "map_keys m = map fst m"

definition map_wf :: "('k::linorder \<times> 'v) list \<Rightarrow> bool" where
  "map_wf m \<longleftrightarrow> sorted_wrt (<) (map fst m)"

lemma map_wf_Nil [simp]: "map_wf []"
  by (simp add: map_wf_def)

lemma map_wf_Cons: "map_wf ((k, v) # m) \<longleftrightarrow> (\<forall>k' \<in> fst ` set m. k < k') \<and> map_wf m"
  by (auto simp: map_wf_def)

lemma map_put_keys: "fst ` set (map_put k v m) = insert k (fst ` set m)"
  by (induction m rule: map_put.induct) auto

lemma map_wf_put [sorted_intros]: "map_wf m \<Longrightarrow> map_wf (map_put k v m)"
  by (induction k v m rule: map_put.induct) (auto simp: map_wf_Cons map_put_keys)

lemma map_wf_erase [sorted_intros]: "map_wf m \<Longrightarrow> map_wf (map_erase k m)"
  by (induction m) (auto simp: map_wf_Cons map_erase_def)

lemma map_wf_notin: "map_wf ((k, v) # m) \<Longrightarrow> k' \<le> k \<Longrightarrow> map_of m k' = None"
  by (auto simp: map_wf_Cons map_of_eq_None_iff)

lemma map_of_put [container_simps]:
  "map_wf m \<Longrightarrow> map_of (map_put k v m) = (map_of m)(k \<mapsto> v)"
  by (induction k v m rule: map_put.induct) (auto simp: map_wf_Cons fun_eq_iff)

lemma map_of_erase [container_simps]:
  "map_of (map_erase k m) = (map_of m)(k := None)"
  by (induction m) (auto simp: map_erase_def fun_eq_iff)

lemma map_wf_distinct: "map_wf m \<Longrightarrow> distinct (map fst m)"
  by (simp add: map_wf_def strict_sorted_iff)

lemma map_put_above: "\<forall>k' \<in> fst ` set m. k' < k \<Longrightarrow> map_put k v m = m @ [(k, v)]"
  by (induction m) (auto simp: less_not_sym)

lemma map_snd_lookup: "distinct (map fst m) \<Longrightarrow> map snd m = map (the \<circ> map_of m) (map fst m)"
  by (auto simp: map_of_is_SomeI)

lemma map_wf_ext:
  assumes wf: "map_wf m" "map_wf n" and eq: "map_of m = map_of n"
  shows "m = n"
proof -
  have "dom (map_of m) = dom (map_of n)"
    by (simp add: eq)
  then have "set (map fst m) = set (map fst n)"
    by (simp add: dom_map_of_conv_image_fst)
  with wf have keys: "map fst m = map fst n"
    by (simp add: map_wf_def strict_sorted_equal)
  have "map snd m = map snd n"
    using map_snd_lookup [OF map_wf_distinct [OF wf(1)]]
      map_snd_lookup [OF map_wf_distinct [OF wf(2)]] eq keys by simp
  with keys show ?thesis
    by (metis zip_map_fst_snd)
qed

section \<open>Network byte order\<close>

definition be16 :: "u16 \<Rightarrow> byte list" where
  "be16 w = [ucast (drop_bit 8 w), ucast w]"

definition be32 :: "u32 \<Rightarrow> byte list" where
  "be32 w = [ucast (drop_bit 24 w), ucast (drop_bit 16 w), ucast (drop_bit 8 w), ucast w]"

definition de16 :: "byte \<Rightarrow> byte \<Rightarrow> u16" where
  "de16 a b = push_bit 8 (ucast a) OR ucast b"

definition de32 :: "byte \<Rightarrow> byte \<Rightarrow> byte \<Rightarrow> byte \<Rightarrow> u32" where
  "de32 a b c d = push_bit 24 (ucast a) OR push_bit 16 (ucast b) OR push_bit 8 (ucast c) OR ucast d"

lemma length_be16 [simp]: "length (be16 w) = 2"
  by (simp add: be16_def)

lemma length_be32 [simp]: "length (be32 w) = 4"
  by (simp add: be32_def)

lemma de16_be16 [simp]: "de16 (ucast (drop_bit 8 w)) (ucast w) = w"
  unfolding de16_def by (rule bit_word_eqI) (auto simp: bit_simps)

lemma de32_be32 [simp]:
  "de32 (ucast (drop_bit 24 w)) (ucast (drop_bit 16 w)) (ucast (drop_bit 8 w)) (ucast w) = w"
proof (unfold de32_def, rule bit_word_eqI)
  fix n
  assume "n < LENGTH(32)"
  then consider "n < 8" | "8 \<le> n" "n < 16" | "16 \<le> n" "n < 24" | "24 \<le> n" "n < 32"
    by fastforce
  then show "bit (push_bit 24 (ucast (ucast (drop_bit 24 w) :: byte)) OR
      push_bit 16 (ucast (ucast (drop_bit 16 w) :: byte)) OR
      push_bit 8 (ucast (ucast (drop_bit 8 w) :: byte)) OR ucast (ucast w :: byte) :: u32) n = bit w n"
    by cases (auto simp: bit_simps)
qed

text \<open>The last \<open>n\<close> bytes of a word, most significant first, and the word that bytes stand for.\<close>

fun be_bytes :: "nat \<Rightarrow> 'a::len word \<Rightarrow> byte list" where
  "be_bytes 0 w = []"
| "be_bytes (Suc n) w = be_bytes n (drop_bit 8 w) @ [ucast w]"

definition be_word :: "byte list \<Rightarrow> 'a::len word" where
  "be_word bs = foldl (\<lambda>w b. push_bit 8 w OR ucast b) 0 bs"

lemma length_be_bytes [simp]: "length (be_bytes n w) = n"
  by (induction n w rule: be_bytes.induct) auto

lemma be_word_snoc: "be_word (bs @ [b]) = push_bit 8 (be_word bs) OR ucast b"
  by (simp add: be_word_def)

lemma be_word_be_bytes: "be_word (be_bytes n (w :: 'a::len word)) = take_bit (8 * n) w"
proof (induction n w rule: be_bytes.induct)
  case (1 w)
  then show ?case by (simp add: be_word_def)
next
  case (2 n w)
  show ?case
    by (rule bit_word_eqI) (auto simp: 2 be_word_snoc bit_simps)
qed

lemma be_word_be_bytes_id [simp]: "LENGTH('a) \<le> 8 * n \<Longrightarrow> be_word (be_bytes n (w :: 'a::len word)) = w"
  unfolding be_word_be_bytes by (rule bit_word_eqI) (auto simp: bit_simps)

lemma be_bytes_be_word:
  assumes "8 * length bs \<le> LENGTH('a)"
  shows "be_bytes (length bs) (be_word bs :: 'a::len word) = bs"
  using assms
proof (induction bs rule: rev_induct)
  case Nil
  then show ?case by simp
next
  case (snoc b bs)
  have "drop_bit 8 (be_word (bs @ [b])) = (be_word bs :: 'a word)" if "8 * length bs + 8 \<le> LENGTH('a)"
  proof (rule bit_word_eqI)
    have take: "take_bit (8 * length bs) (be_word bs :: 'a word) = be_word bs"
      using snoc that by (metis be_word_be_bytes add_leD1)
    fix n
    assume "n < LENGTH('a)"
    have high: "n < 8 * length bs" if "bit (be_word bs :: 'a word) n"
      using that by (subst (asm) take [symmetric]) (simp add: bit_simps)
    have byte: "\<not> bit b (8 + n)"
      using bit_imp_le_length [of b "8 + n"] by auto
    show "bit (drop_bit 8 (be_word (bs @ [b]) :: 'a word)) n = bit (be_word bs :: 'a word) n"
      using high byte \<open>8 * length bs + 8 \<le> LENGTH('a)\<close> by (auto simp: be_word_snoc bit_simps)
  qed
  moreover have "ucast (be_word (bs @ [b]) :: 'a word) = b"
    using snoc.prems by (intro bit_word_eqI) (auto simp: be_word_snoc bit_simps)
  ultimately show ?case
    using snoc by simp
qed

section \<open>Sizes\<close>

text \<open>
  A difference of two \<open>size_t\<close> values, on natural numbers below \<open>2 ^ 64\<close>: it wraps around when it would be
  negative.
\<close>

definition size_sub :: "nat \<Rightarrow> nat \<Rightarrow> nat" where
  "size_sub a b = nat ((int a - int b) mod 2 ^ 64)"

lemma size_sub_le: "b \<le> a \<Longrightarrow> a < 2 ^ 64 \<Longrightarrow> size_sub a b = a - b"
  by (simp add: size_sub_def nat_eq_iff flip: of_nat_diff)

lemma size_sub_wraps:
  assumes "a < b" "b - a < 2 ^ 64"
  shows "size_sub a b = 2 ^ 64 - (b - a)"
proof -
  obtain d where "b = a + d" "d < 2 ^ 64" "0 < d"
    using assms less_imp_add_positive [of a b] by auto
  then have d: "0 < int b - int a" "int b - int a < 2 ^ 64"
    by simp_all
  have "(int a - int b) mod 2 ^ 64 = (int a - int b + 2 ^ 64) mod 2 ^ 64"
    by simp
  also have "\<dots> = int a - int b + 2 ^ 64"
    by (rule mod_pos_pos_trivial) (use d in linarith)+
  finally show ?thesis
    using assms by (simp add: size_sub_def)
qed

end
