(* ===== verification/Ctimespec.thy ===== *)
theory Ctimespec
  imports Rofl_Prelude "HOL-Library.Signed_Division"
begin

text \<open>
  \<open>rofl::ctimespec\<close> (\<open>ctimespec.hpp\<close>, \<open>ctimespec.cpp\<close>): absolute points in time as
  \<open>struct timespec\<close>, with saturating subtraction, addition, comparison and deadlines.
  \<open>time_t\<close> and \<open>long\<close> are 64 bit on the supported platforms and signed overflow is undefined, so
  both fields are integers; the narrowing to \<open>int\<close> in \<open>get_relative_timeout\<close> is written out.
  The clock is an argument: \<open>now\<close> is what \<open>clock_gettime\<close> stored.
\<close>

record timespec =
  tv_sec :: int
  tv_nsec :: int

abbreviation ONE_SECOND_NS :: int where
  "ONE_SECOND_NS \<equiv> 1000000000"

definition ts_add :: "timespec \<Rightarrow> timespec \<Rightarrow> timespec" where
  "ts_add a t =
     (let s = tv_sec a + tv_sec t; n = tv_nsec a + tv_nsec t
      in if n > ONE_SECOND_NS then \<lparr>tv_sec = s + 1, tv_nsec = n - ONE_SECOND_NS\<rparr>
         else \<lparr>tv_sec = s, tv_nsec = n\<rparr>)"

definition ts_sub :: "timespec \<Rightarrow> timespec \<Rightarrow> timespec" where
  "ts_sub a t =
     (if tv_sec a > tv_sec t then
        (if tv_nsec t > tv_nsec a
         then \<lparr>tv_sec = tv_sec a - tv_sec t - 1, tv_nsec = tv_nsec a - tv_nsec t + ONE_SECOND_NS\<rparr>
         else \<lparr>tv_sec = tv_sec a - tv_sec t, tv_nsec = tv_nsec a - tv_nsec t\<rparr>)
      else if tv_sec a = tv_sec t then
        (if tv_nsec a > tv_nsec t then \<lparr>tv_sec = 0, tv_nsec = tv_nsec a - tv_nsec t\<rparr>
         else \<lparr>tv_sec = 0, tv_nsec = 0\<rparr>)
      else \<lparr>tv_sec = 0, tv_nsec = 0\<rparr>)"

definition ts_add_assign :: "timespec \<Rightarrow> timespec \<Rightarrow> timespec" where
  "ts_add_assign a t =
     (let b = a\<lparr>tv_sec := tv_sec a + tv_sec t, tv_nsec := tv_nsec a + tv_nsec t\<rparr>
      in if tv_nsec b > ONE_SECOND_NS
         then b\<lparr>tv_sec := tv_sec b + 1, tv_nsec := tv_nsec b - ONE_SECOND_NS\<rparr> else b)"

definition ts_sub_assign :: "timespec \<Rightarrow> timespec \<Rightarrow> timespec" where
  "ts_sub_assign a t =
     (if tv_sec a > tv_sec t then
        (if tv_nsec t > tv_nsec a
         then a\<lparr>tv_nsec := tv_nsec a - tv_nsec t + ONE_SECOND_NS, tv_sec := tv_sec a - tv_sec t - 1\<rparr>
         else a\<lparr>tv_nsec := tv_nsec a - tv_nsec t, tv_sec := tv_sec a - tv_sec t\<rparr>)
      else if tv_sec a = tv_sec t then
        (if tv_nsec a > tv_nsec t then a\<lparr>tv_nsec := tv_nsec a - tv_nsec t, tv_sec := 0\<rparr> else a)
      else a)"

definition ts_eq :: "timespec \<Rightarrow> timespec \<Rightarrow> bool" where
  "ts_eq a t \<longleftrightarrow> tv_sec a = tv_sec t \<and> tv_nsec a = tv_nsec t"

definition ts_neq :: "timespec \<Rightarrow> timespec \<Rightarrow> bool" where
  "ts_neq a t \<longleftrightarrow> \<not> ts_eq a t"

definition ts_less :: "timespec \<Rightarrow> timespec \<Rightarrow> bool" where
  "ts_less a t =
     (if tv_sec a < tv_sec t then True
      else if tv_sec a > tv_sec t then False
      else tv_nsec a < tv_nsec t)"

definition ts_le :: "timespec \<Rightarrow> timespec \<Rightarrow> bool" where
  "ts_le a t \<longleftrightarrow> ts_less a t \<or> ts_eq a t"

definition ts_gt :: "timespec \<Rightarrow> timespec \<Rightarrow> bool" where
  "ts_gt a t =
     (if tv_sec a > tv_sec t then True
      else if tv_sec a < tv_sec t then False
      else tv_nsec a > tv_nsec t)"

definition ts_ge :: "timespec \<Rightarrow> timespec \<Rightarrow> bool" where
  "ts_ge a t \<longleftrightarrow> ts_gt a t \<or> ts_eq a t"

text \<open>\<open>expire_in\<close>: the deadline \<open>sec\<close> seconds and \<open>nsec\<close> nanoseconds from \<open>now\<close> (C division).\<close>

definition ts_expire_in :: "timespec \<Rightarrow> int \<Rightarrow> int \<Rightarrow> timespec" where
  "ts_expire_in now sec nsec =
     (let n = nsec + tv_nsec now
      in \<lparr>tv_sec = tv_sec now + (n sdiv ONE_SECOND_NS + sec), tv_nsec = n smod ONE_SECOND_NS\<rparr>)"

text \<open>The conversion of a \<open>long\<close> to \<open>int\<close>.\<close>

definition to_int32 :: "int \<Rightarrow> int" where
  "to_int32 x = sint (word_of_int x :: 32 word)"

definition ts_get_relative_timeout :: "timespec \<Rightarrow> timespec \<Rightarrow> int" where
  "ts_get_relative_timeout a ref =
     (let delta = ts_sub a ref
      in to_int32 (1000 * tv_sec delta + tv_nsec delta sdiv 1000000))"

definition ts_is_expired :: "timespec \<Rightarrow> timespec \<Rightarrow> bool" where
  "ts_is_expired a ref \<longleftrightarrow> ts_le a ref"

section \<open>Meaning: nanoseconds\<close>

definition ts_ns :: "timespec \<Rightarrow> int" where
  "ts_ns a = tv_sec a * ONE_SECOND_NS + tv_nsec a"

definition ts_norm :: "timespec \<Rightarrow> bool" where
  "ts_norm a \<longleftrightarrow> 0 \<le> tv_nsec a \<and> tv_nsec a < ONE_SECOND_NS"

lemmas ts_defs = ts_add_def ts_sub_def ts_add_assign_def ts_sub_assign_def ts_eq_def ts_neq_def
  ts_less_def ts_le_def ts_gt_def ts_ge_def ts_is_expired_def

lemma ts_less_iff: "ts_less a b \<longleftrightarrow> tv_sec a < tv_sec b \<or> tv_sec a = tv_sec b \<and> tv_nsec a < tv_nsec b"
  by (auto simp: ts_less_def)

lemma ts_eq_iff [simp]: "ts_eq a b \<longleftrightarrow> a = b"
  by (cases a, cases b) (auto simp: ts_eq_def)

text \<open>The comparison of time points is a comparator in the sense of the C++ standard.\<close>

interpretation ts_cmp: comparator ts_less
  by unfold_locales (auto simp: ts_less_iff)

lemma ts_less_total: "ts_less a b \<or> a = b \<or> ts_less b a"
  by (cases a, cases b) (auto simp: ts_less_iff)

lemma ts_less_ns: "ts_norm a \<Longrightarrow> ts_norm b \<Longrightarrow> ts_less a b \<longleftrightarrow> ts_ns a < ts_ns b"
  by (auto simp: ts_less_iff ts_ns_def ts_norm_def)

lemma ts_le_total: "ts_le a b \<longleftrightarrow> \<not> ts_less b a"
  by (cases a, cases b) (auto simp: ts_le_def ts_less_iff)

lemma ts_is_expired_iff: "ts_is_expired a now \<longleftrightarrow> \<not> ts_less now a"
  by (simp add: ts_is_expired_def ts_le_total)

lemma ts_is_expired_mono: "ts_is_expired b now \<Longrightarrow> \<not> ts_less b a \<Longrightarrow> ts_is_expired a now"
  using ts_cmp.lt_negtrans by (fastforce simp: ts_is_expired_iff)

lemma sdiv_pos: "0 \<le> a \<Longrightarrow> 0 < b \<Longrightarrow> a sdiv b = a div (b::int)"
  by (cases "a = 0") (simp_all add: signed_divide_int_def)

lemma ts_less_expire_in: "0 \<le> tv_nsec now \<Longrightarrow> 0 < sec \<Longrightarrow> ts_less now (ts_expire_in now sec 0)"
  by (simp add: ts_less_iff ts_expire_in_def Let_def sdiv_pos add_nonneg_pos pos_imp_zdiv_nonneg_iff)

section \<open>Properties\<close>

text \<open>
  On normalised time points \<open>operator-\<close> is subtraction saturating at zero, exactly as its
  warning comment says, and the difference is normalised again.
\<close>

theorem ts_sub_saturates:
  assumes "ts_norm a" and "ts_norm b"
  shows "ts_ns (ts_sub a b) = max 0 (ts_ns a - ts_ns b) \<and> ts_norm (ts_sub a b)"
  using assms by (auto simp: ts_sub_def ts_ns_def ts_norm_def)

theorem ts_sub_saturates_example:
  "ts_norm \<lparr>tv_sec = 5, tv_nsec = 1\<rparr> \<and> ts_norm \<lparr>tv_sec = 3, tv_nsec = 999999999\<rparr> \<and>
   ts_ns (ts_sub \<lparr>tv_sec = 5, tv_nsec = 1\<rparr> \<lparr>tv_sec = 3, tv_nsec = 999999999\<rparr>) = 1000000002"
  using ts_sub_saturates [of "\<lparr>tv_sec = 5, tv_nsec = 1\<rparr>" "\<lparr>tv_sec = 3, tv_nsec = 999999999\<rparr>"]
  by (simp add: ts_norm_def ts_ns_def)

text \<open>
  \<open>operator+\<close> adds nanosecond counts exactly, and normalises the sum in every case but one:
  the carry test is \<open>>\<close>, so a nanosecond sum of exactly one second is left in \<open>tv_nsec\<close>.
\<close>

theorem ts_add_exact:
  assumes "ts_norm a" and "ts_norm b"
  shows "ts_ns (ts_add a b) = ts_ns a + ts_ns b \<and>
    (ts_norm (ts_add a b) \<longleftrightarrow> tv_nsec a + tv_nsec b \<noteq> ONE_SECOND_NS)"
  using assms by (auto simp: ts_add_def ts_ns_def ts_norm_def Let_def)

theorem ts_add_exact_example:
  "ts_norm \<lparr>tv_sec = 1, tv_nsec = 400000000\<rparr> \<and> ts_norm \<lparr>tv_sec = 2, tv_nsec = 600000000\<rparr> \<and>
   \<not> ts_norm (ts_add \<lparr>tv_sec = 1, tv_nsec = 400000000\<rparr> \<lparr>tv_sec = 2, tv_nsec = 600000000\<rparr>)"
  using ts_add_exact [of "\<lparr>tv_sec = 1, tv_nsec = 400000000\<rparr>" "\<lparr>tv_sec = 2, tv_nsec = 600000000\<rparr>"]
  by (simp add: ts_norm_def)

text \<open>
  \<open>operator-=\<close> agrees with \<open>operator-\<close> exactly when the left operand is later; otherwise
  \<open>operator-\<close> gives zero and \<open>operator-=\<close> leaves its operand as it was.
\<close>

lemma ts_sub_assign_agrees:
  "ts_sub_assign a b = (if ts_less b a then ts_sub a b else a) \<and>
   (\<not> ts_less b a \<longrightarrow> ts_sub a b = \<lparr>tv_sec = 0, tv_nsec = 0\<rparr>)"
  by (cases a, cases b) (auto simp: ts_sub_assign_def ts_sub_def ts_less_iff)

lemma ts_sub_assign_agrees_example:
  "\<not> ts_less \<lparr>tv_sec = 7, tv_nsec = 0\<rparr> \<lparr>tv_sec = 4, tv_nsec = 0\<rparr> \<and>
   ts_sub_assign \<lparr>tv_sec = 4, tv_nsec = 0\<rparr> \<lparr>tv_sec = 7, tv_nsec = 0\<rparr> = \<lparr>tv_sec = 4, tv_nsec = 0\<rparr> \<and>
   ts_sub \<lparr>tv_sec = 4, tv_nsec = 0\<rparr> \<lparr>tv_sec = 7, tv_nsec = 0\<rparr> = \<lparr>tv_sec = 0, tv_nsec = 0\<rparr>"
  using ts_sub_assign_agrees [of "\<lparr>tv_sec = 4, tv_nsec = 0\<rparr>" "\<lparr>tv_sec = 7, tv_nsec = 0\<rparr>"]
  by (simp add: ts_less_iff)

lemma to_int32_id: "- (2 ^ 31) \<le> x \<Longrightarrow> x < 2 ^ 31 \<Longrightarrow> to_int32 x = x"
  unfolding to_int32_def by (subst sint_sbintrunc' ) (simp add: signed_take_bit_int_eq_self)

lemma ts_relative_ms: "0 \<le> n \<Longrightarrow> n < ONE_SECOND_NS \<Longrightarrow>
  1000 * s + n sdiv 1000000 = (s * ONE_SECOND_NS + n) div 1000000"
  by (simp add: sdiv_pos)

text \<open>
  The poll timeout a timer asks for never overshoots its deadline and is the remaining time
  rounded down to milliseconds, as long as the remaining time fits an \<open>int\<close> of milliseconds.
\<close>

lemma ts_relative_timeout_rounds_down:
  assumes "ts_norm a" and "ts_norm now" and "ts_ns a - ts_ns now < 2 ^ 31 * 1000000"
  shows "ts_get_relative_timeout a now = max 0 (ts_ns a - ts_ns now) div 1000000"
proof -
  let ?d = "ts_sub a now"
  have d: "ts_ns ?d = max 0 (ts_ns a - ts_ns now)" "ts_norm ?d"
    using assms(1,2) by (auto simp: ts_sub_def ts_ns_def ts_norm_def)
  have ms: "1000 * tv_sec ?d + tv_nsec ?d sdiv 1000000 = ts_ns ?d div 1000000"
    using d(2) ts_relative_ms by (simp add: ts_ns_def ts_norm_def)
  have "0 \<le> ts_ns ?d div 1000000" "ts_ns ?d div 1000000 < 2 ^ 31"
    using assms(3) d(1) by auto
  then show ?thesis
    using ms d(1) to_int32_id by (simp add: ts_get_relative_timeout_def Let_def)
qed

lemma ts_relative_timeout_rounds_down_example:
  "ts_norm \<lparr>tv_sec = 10, tv_nsec = 1500000\<rparr> \<and> ts_norm \<lparr>tv_sec = 8, tv_nsec = 999999999\<rparr> \<and>
   ts_get_relative_timeout \<lparr>tv_sec = 10, tv_nsec = 1500000\<rparr> \<lparr>tv_sec = 8, tv_nsec = 999999999\<rparr> = 1001"
  using ts_relative_timeout_rounds_down
    [of "\<lparr>tv_sec = 10, tv_nsec = 1500000\<rparr>" "\<lparr>tv_sec = 8, tv_nsec = 999999999\<rparr>"]
  by (simp add: ts_norm_def ts_ns_def)

end
