(* ===== verification/Cthread.thy ===== *)
theory Cthread
  imports Ctimespec "HOL-Library.Stream"
begin

text \<open>
  \<open>rofl::cthread\<close> and \<open>rofl::ctimer\<close> (\<open>cthread.cpp\<close>, \<open>cthread.hpp\<close>, \<open>ctimer.hpp\<close>): the worker
  threads behind sockets, connections and channels.  A thread keeps an ordered set of timers, a
  map of registered file descriptors and a set of environments to wake up; the static part is the
  thread pool with its three round-robin counters.

  Environments (\<open>cthread_env *\<close>) are addresses, modelled as natural numbers; the null pointer is
  \<open>None\<close>.  The identity of the calling thread (\<open>pthread_self()\<close>), the clock and the results of
  \<open>epoll_ctl\<close> and \<open>write\<close> are arguments; where a loop reads the clock again and again, the readings are
  a stream.  The callbacks of environments are arbitrary changes of the thread that return normally.
\<close>

section \<open>Timers\<close>

record ctimer =
  timer_env :: nat
  timer_id :: u32
  tspec :: timespec

definition ctimer_less :: "ctimer \<Rightarrow> ctimer \<Rightarrow> bool" where
  "ctimer_less a t =
     (if ts_eq (tspec a) (tspec t) then timer_id a < timer_id t else ts_less (tspec a) (tspec t))"

definition ctimer_find_by_timer_env :: "nat \<Rightarrow> ctimer \<Rightarrow> bool" where
  "ctimer_find_by_timer_env env t \<longleftrightarrow> timer_env t = env"

definition ctimer_find_by_timer_env_and_id :: "nat \<Rightarrow> u32 \<Rightarrow> ctimer \<Rightarrow> bool" where
  "ctimer_find_by_timer_env_and_id env tid t \<longleftrightarrow> timer_env t = env \<and> timer_id t = tid"

interpretation timer_cmp: comparator ctimer_less
proof
  fix x y z :: ctimer
  show "ctimer_less x y \<Longrightarrow> \<not> ctimer_less y x"
    using ts_cmp.lt_asym by (auto simp: ctimer_less_def split: if_splits)
  show "ctimer_less x z \<Longrightarrow> ctimer_less x y \<or> ctimer_less y z"
    using ts_cmp.lt_negtrans [of "tspec x" "tspec z" "tspec y"] ts_less_total
    by (auto simp: ctimer_less_def split: if_splits)
qed

lemma timer_eqv: "timer_cmp.eqv a b \<longleftrightarrow> tspec a = tspec b \<and> timer_id a = timer_id b"
  using ts_less_total [of "tspec a" "tspec b"]
  by (auto simp: timer_cmp.eqv_def ctimer_less_def split: if_splits)

section \<open>The thread object\<close>

datatype thread_state_t = TH_STATE_IDLE | TH_STATE_RUNNING

record fd_priv_data =
  fd_events :: u32
  fd_env :: nat

record cthread =
  th_state :: thread_state_t
  th_running :: bool
  th_tid :: nat
  th_fds :: "(int \<times> fd_priv_data) list"
  ordered_timers :: "ctimer list"
  th_wakeups :: "nat list"
  th_event_fd :: nat

text \<open>The epoll event bits.\<close>

definition EPOLLIN :: u32 where "EPOLLIN = 0x001"
definition EPOLLOUT :: u32 where "EPOLLOUT = 0x004"
definition EPOLLET :: u32 where "EPOLLET = 0x80000000"

datatype epoll_op = EPOLL_CTL_ADD | EPOLL_CTL_MOD | EPOLL_CTL_DEL

datatype sys_errno = SYS_OK | SYS_EEXIST | SYS_ENOENT | SYS_EAGAIN | SYS_EINTR | SYS_OTHER

type_synonym epoll_ctl = "epoll_op \<Rightarrow> int \<Rightarrow> u32 \<Rightarrow> sys_errno"

subsection \<open>Wake-ups\<close>

text \<open>
  \<open>cthread::wakeup\<close>.  The argument \<open>wr\<close> is what \<open>write\<close> to the event descriptor returned: the
  counter of an event descriptor grows by the value written, \<open>EAGAIN\<close> and \<open>EINTR\<close> are ignored.
\<close>

definition cthread_wakeup_sys :: "sys_errno \<Rightarrow> nat option \<Rightarrow> cthread \<Rightarrow> cthread outcome" where
  "cthread_wakeup_sys wr env th =
     (case th_state th of
        TH_STATE_RUNNING \<Rightarrow>
          (let th1 = (case env of None \<Rightarrow> th
                      | Some e \<Rightarrow> th\<lparr>th_wakeups := fst (set_emplace (<) e (th_wakeups th))\<rparr>)
           in case wr of
                SYS_OK \<Rightarrow> (th1\<lparr>th_event_fd := th_event_fd th1 + 1\<rparr>, None)
              | SYS_EAGAIN \<Rightarrow> (th1, None)
              | SYS_EINTR \<Rightarrow> (th1, None)
              | _ \<Rightarrow> (th1, Some ESysCall))
      | _ \<Rightarrow> (th, None))"

text \<open>The call with a write that succeeds, as every client of a running thread makes it.\<close>

definition cthread_wakeup :: "nat option \<Rightarrow> cthread \<Rightarrow> cthread" where
  "cthread_wakeup env th = fst (cthread_wakeup_sys SYS_OK env th)"

definition cthread_drop_wakeup :: "nat \<Rightarrow> cthread \<Rightarrow> cthread" where
  "cthread_drop_wakeup env th =
     (if env \<in> set (th_wakeups th) then th\<lparr>th_wakeups := erase_first (\<lambda>e. e = env) (th_wakeups th)\<rparr> else th)"

text \<open>
  The calls a thread makes into the environments.  What a call does to the thread itself is a
  parameter \<open>cb\<close> of the definitions below; \<open>registered\<close> is membership in \<open>cthread_env::envs\<close>.
\<close>

datatype th_call =
    Call_timeout nat u32
  | Call_read nat int
  | Call_write nat int
  | Call_wakeup nat

definition cthread_handle_wakeup ::
  "(nat \<Rightarrow> bool) \<Rightarrow> (th_call \<Rightarrow> cthread \<Rightarrow> cthread) \<Rightarrow> cthread \<Rightarrow> cthread \<times> th_call list" where
  "cthread_handle_wakeup registered cb th =
     (let calls = map Call_wakeup (filter registered (th_wakeups th))
      in (fold cb calls (th\<lparr>th_wakeups := []\<rparr>), calls))"

subsection \<open>Starting and stopping\<close>

text \<open>\<open>new_tid\<close> is what \<open>pthread_create\<close> stored; \<open>joined\<close>: \<open>pthread_join\<close> succeeded or was forced.\<close>

definition cthread_start :: "nat \<Rightarrow> cthread \<Rightarrow> cthread" where
  "cthread_start new_tid th =
     (case th_state th of
        TH_STATE_IDLE \<Rightarrow> th\<lparr>th_running := True, th_tid := new_tid, th_state := TH_STATE_RUNNING\<rparr>
      | _ \<Rightarrow> th)"

definition cthread_stop :: "nat \<Rightarrow> cthread \<Rightarrow> cthread" where
  "cthread_stop self th =
     (case th_state th of
        TH_STATE_RUNNING \<Rightarrow>
          (let th1 = cthread_wakeup None (th\<lparr>th_running := False\<rparr>)
           in if self = th_tid th1 then th1 else th1\<lparr>th_state := TH_STATE_IDLE\<rparr>)
      | _ \<Rightarrow> th)"

subsection \<open>Timer operations\<close>

definition cthread_clear_timers :: "cthread \<Rightarrow> cthread" where
  "cthread_clear_timers th = th\<lparr>ordered_timers := []\<rparr>"

definition cthread_add_timer :: "nat \<Rightarrow> nat \<Rightarrow> u32 \<Rightarrow> timespec \<Rightarrow> cthread \<Rightarrow> cthread \<times> bool" where
  "cthread_add_timer self env tid ts th =
     (let do_wakeup = (case ordered_timers th of [] \<Rightarrow> True | t # _ \<Rightarrow> ts_less ts (tspec t));
          found = list_ex (ctimer_find_by_timer_env_and_id env tid) (ordered_timers th);
          rest = (if found then erase_first (ctimer_find_by_timer_env_and_id env tid) (ordered_timers th)
                  else ordered_timers th);
          rv = set_emplace ctimer_less \<lparr>timer_env = env, timer_id = tid, tspec = ts\<rparr> rest;
          th1 = th\<lparr>ordered_timers := fst rv\<rparr>
      in (if do_wakeup \<and> th_tid th1 \<noteq> self then cthread_wakeup None th1 else th1, snd rv))"

definition cthread_get_timer :: "nat \<Rightarrow> u32 \<Rightarrow> cthread \<Rightarrow> ctimer result" where
  "cthread_get_timer env tid th =
     (case List.find (ctimer_find_by_timer_env_and_id env tid) (ordered_timers th) of
        None \<Rightarrow> Inl EThreadNotFound
      | Some t \<Rightarrow> Inr t)"

definition cthread_has_timer :: "nat \<Rightarrow> u32 \<Rightarrow> cthread \<Rightarrow> bool" where
  "cthread_has_timer env tid th = list_ex (ctimer_find_by_timer_env_and_id env tid) (ordered_timers th)"

definition cthread_drop_timer :: "nat \<Rightarrow> nat \<Rightarrow> u32 \<Rightarrow> cthread \<Rightarrow> cthread \<times> bool" where
  "cthread_drop_timer self env tid th =
     (if \<not> list_ex (ctimer_find_by_timer_env_and_id env tid) (ordered_timers th) then (th, False)
      else (let th1 = th\<lparr>ordered_timers :=
                  erase_first (ctimer_find_by_timer_env_and_id env tid) (ordered_timers th)\<rparr>
            in (if th_tid th1 \<noteq> self then cthread_wakeup None th1 else th1, True)))"

definition cthread_drop_timers :: "nat \<Rightarrow> nat \<Rightarrow> cthread \<Rightarrow> cthread" where
  "cthread_drop_timers self env th =
     (let do_wakeup = list_ex (ctimer_find_by_timer_env env) (ordered_timers th);
          th1 = th\<lparr>ordered_timers := erase_while (ctimer_find_by_timer_env env) (ordered_timers th)\<rparr>
      in if do_wakeup \<and> th_tid th1 \<noteq> self then cthread_wakeup None th1 else th1)"

subsection \<open>File descriptors\<close>

definition cthread_add_fd ::
  "epoll_ctl \<Rightarrow> nat option \<Rightarrow> int \<Rightarrow> bool \<Rightarrow> bool \<Rightarrow> cthread \<Rightarrow> cthread outcome" where
  "cthread_add_fd ctl env fd exc edge th =
     (case env of None \<Rightarrow> (th, Some EThreadInvalid)
      | Some e \<Rightarrow>
          if map_of (th_fds th) fd \<noteq> None then (th, None)
          else (let events = (if edge then EPOLLET else 0);
                    th' = th\<lparr>th_fds := map_put fd \<lparr>fd_events = events, fd_env = e\<rparr> (th_fds th)\<rparr>
                in case ctl EPOLL_CTL_ADD fd events of
                     SYS_OK \<Rightarrow> (th', None)
                   | SYS_EEXIST \<Rightarrow> (th', None)
                   | _ \<Rightarrow> if exc then (th, Some ESysCall) else (th', None)))"

definition cthread_drop_fd :: "epoll_ctl \<Rightarrow> int \<Rightarrow> bool \<Rightarrow> cthread \<Rightarrow> cthread outcome" where
  "cthread_drop_fd ctl fd exc th =
     (if map_of (th_fds th) fd = None then (th, None)
      else (let th' = th\<lparr>th_fds := map_erase fd (th_fds th)\<rparr>
            in case ctl EPOLL_CTL_DEL fd 0 of
                 SYS_OK \<Rightarrow> (th', None)
               | SYS_ENOENT \<Rightarrow> (th', None)
               | _ \<Rightarrow> if exc then (th, Some ESysCall) else (th', None)))"

text \<open>
  The common tail of the four read/write registrations: the events of \<open>fd\<close> are updated, then
  \<open>EPOLL_CTL_MOD\<close> is tried and, where the kernel does not know \<open>fd\<close>, \<open>EPOLL_CTL_ADD\<close> (whose
  result is ignored).  \<open>fds[fd]\<close> creates an empty entry where there is none; it always exists in
  the callers below, since \<open>add_fd\<close> ran or the lookup succeeded.
\<close>

definition cthread_mod_fd ::
  "epoll_ctl \<Rightarrow> int \<Rightarrow> (u32 \<Rightarrow> u32) \<Rightarrow> bool \<Rightarrow> cthread \<Rightarrow> cthread outcome" where
  "cthread_mod_fd ctl fd f exc th =
     (case map_of (th_fds th) fd of
        None \<Rightarrow> (th, None)
      | Some d \<Rightarrow>
          (let d' = d\<lparr>fd_events := f (fd_events d)\<rparr>;
               th' = th\<lparr>th_fds := map_put fd d' (th_fds th)\<rparr>
           in case ctl EPOLL_CTL_MOD fd (fd_events d') of
                SYS_OK \<Rightarrow> (th', None)
              | SYS_ENOENT \<Rightarrow> (th', None)
              | _ \<Rightarrow> (th', if exc then Some ESysCall else None)))"

definition cthread_add_read_fd ::
  "epoll_ctl \<Rightarrow> nat option \<Rightarrow> int \<Rightarrow> bool \<Rightarrow> bool \<Rightarrow> cthread \<Rightarrow> cthread outcome" where
  "cthread_add_read_fd ctl env fd exc edge th =
     (case cthread_add_fd ctl env fd exc edge th of
        (th1, Some e) \<Rightarrow> (th1, Some e)
      | (th1, None) \<Rightarrow> cthread_mod_fd ctl fd (\<lambda>ev. ev OR EPOLLIN) exc th1)"

definition cthread_drop_read_fd :: "epoll_ctl \<Rightarrow> int \<Rightarrow> bool \<Rightarrow> cthread \<Rightarrow> cthread outcome" where
  "cthread_drop_read_fd ctl fd exc th =
     (if map_of (th_fds th) fd = None then (th, None)
      else cthread_mod_fd ctl fd (\<lambda>ev. ev AND NOT EPOLLIN) exc th)"

definition cthread_add_write_fd ::
  "epoll_ctl \<Rightarrow> nat option \<Rightarrow> int \<Rightarrow> bool \<Rightarrow> bool \<Rightarrow> cthread \<Rightarrow> cthread outcome" where
  "cthread_add_write_fd ctl env fd exc edge th =
     (case cthread_add_fd ctl env fd exc edge th of
        (th1, Some e) \<Rightarrow> (th1, Some e)
      | (th1, None) \<Rightarrow> cthread_mod_fd ctl fd (\<lambda>ev. ev OR EPOLLOUT) exc th1)"

definition cthread_drop_write_fd :: "epoll_ctl \<Rightarrow> int \<Rightarrow> bool \<Rightarrow> cthread \<Rightarrow> cthread outcome" where
  "cthread_drop_write_fd ctl fd exc th =
     (if map_of (th_fds th) fd = None then (th, None)
      else cthread_mod_fd ctl fd (\<lambda>ev. ev AND NOT EPOLLOUT) exc th)"

definition cthread_drop_fds :: "nat \<Rightarrow> cthread \<Rightarrow> cthread" where
  "cthread_drop_fds env th = th\<lparr>th_fds := erase_while (\<lambda>p. fd_env (snd p) = env) (th_fds th)\<rparr>"

definition cthread_drop :: "nat \<Rightarrow> nat \<Rightarrow> cthread \<Rightarrow> cthread" where
  "cthread_drop self env th =
     cthread_drop_timers self env (cthread_drop_fds env (cthread_drop_wakeup env th))"

text \<open>
  The constructor (\<open>initialize\<close>) and the destructor's \<open>release\<close>.  The Booleans are the success of
  \<open>epoll_create\<close> and \<open>eventfd\<close>, \<open>ctl\<close> is the result of registering or deregistering the event
  descriptor.
\<close>

definition cthread_initialize :: "bool \<Rightarrow> bool \<Rightarrow> sys_errno \<Rightarrow> cthread result" where
  "cthread_initialize epoll_ok eventfd_ok ctl =
     (if \<not> epoll_ok then Inl ESysCall
      else if \<not> eventfd_ok then Inl ESysCall
      else if ctl \<noteq> SYS_OK \<and> ctl \<noteq> SYS_EEXIST then Inl ESysCall
      else Inr \<lparr>th_state = TH_STATE_IDLE, th_running = False, th_tid = 0, th_fds = [],
                ordered_timers = [], th_wakeups = [], th_event_fd = 0\<rparr>)"

definition cthread_release :: "nat \<Rightarrow> sys_errno \<Rightarrow> cthread \<Rightarrow> cthread outcome" where
  "cthread_release self ctl th =
     (let th1 = (cthread_stop self (cthread_clear_timers th))\<lparr>th_fds := []\<rparr>
      in (th1, if ctl \<noteq> SYS_OK \<and> ctl \<noteq> SYS_ENOENT then Some ESysCall else None))"

subsection \<open>The event loop\<close>

text \<open>
  How a pass over the timers or the events ended: it came to its end, the thread was stopped, an
  environment was gone, or it is still going when the turns given to it are used up.
\<close>

datatype loop_end = Loop_done | Loop_stopped | Loop_env_not_found | Loop_going

text \<open>
  The inner loop of \<open>run_loop\<close> that handles expired timers, for a number of turns.  Each turn that finds
  a timer reads the clock anew (\<open>is_expired()\<close> compares with the present time): \<open>clock\<close> are the readings.
  A timer whose environment is gone raises \<open>eThreadNotFound\<close> and leaves the loop.  The result lists the
  timers handled.
\<close>

fun run_timers ::
  "nat \<Rightarrow> timespec stream \<Rightarrow> (nat \<Rightarrow> bool) \<Rightarrow> (th_call \<Rightarrow> cthread \<Rightarrow> cthread) \<Rightarrow> cthread \<Rightarrow>
   cthread \<times> ctimer list \<times> loop_end" where
  "run_timers 0 clock registered cb th = (th, [], Loop_going)"
| "run_timers (Suc turns) clock registered cb th =
     (case ordered_timers th of
        [] \<Rightarrow> (th, [], Loop_done)
      | t # ts \<Rightarrow>
          if \<not> ts_is_expired (tspec t) (shd clock) then (th, [], Loop_done)
          else (let th1 = th\<lparr>ordered_timers := ts\<rparr>
                in if \<not> th_running th1 then (th1, [], Loop_stopped)
                   else if \<not> registered (timer_env t) then (th1, [], Loop_env_not_found)
                   else (case run_timers turns (stl clock) registered cb
                                (cb (Call_timeout (timer_env t) (timer_id t)) th1) of
                           (th2, hs, b) \<Rightarrow> (th2, t # hs, b))))"

text \<open>\<open>cthread::env(int fd)\<close>: the environment of a descriptor, if both are known.\<close>

definition cthread_env_of_fd :: "(nat \<Rightarrow> bool) \<Rightarrow> int \<Rightarrow> cthread \<Rightarrow> nat result" where
  "cthread_env_of_fd registered fd th =
     (case map_of (th_fds th) fd of
        None \<Rightarrow> Inl EThreadNotFound
      | Some d \<Rightarrow> if registered (fd_env d) then Inr (fd_env d) else Inl EThreadNotFound)"

text \<open>
  One entry of the \<open>epoll\<close> result other than the event descriptor: read first, then write; the
  environment is looked up again for the write, and \<open>eThreadNotFound\<close> ends the entry.
\<close>

definition run_fd_event ::
  "(nat \<Rightarrow> bool) \<Rightarrow> (th_call \<Rightarrow> cthread \<Rightarrow> cthread) \<Rightarrow> int \<Rightarrow> u32 \<Rightarrow> cthread \<Rightarrow> cthread \<times> th_call list" where
  "run_fd_event registered cb fd ev th =
     (let wr = (\<lambda>th calls. if ev AND EPOLLOUT \<noteq> 0
          then (case cthread_env_of_fd registered fd th of
                  Inl _ \<Rightarrow> (th, calls)
                | Inr e \<Rightarrow> (cb (Call_write e fd) th, calls @ [Call_write e fd]))
          else (th, calls))
      in if ev AND EPOLLIN \<noteq> 0
         then (case cthread_env_of_fd registered fd th of
                 Inl _ \<Rightarrow> (th, [])
               | Inr e \<Rightarrow> wr (cb (Call_read e fd) th) [Call_read e fd])
         else wr th [])"

fun run_events ::
  "int \<Rightarrow> (nat \<Rightarrow> bool) \<Rightarrow> (th_call \<Rightarrow> cthread \<Rightarrow> cthread) \<Rightarrow> (int \<times> u32) list \<Rightarrow> cthread \<Rightarrow>
   cthread \<times> th_call list \<times> loop_end" where
  "run_events event_fd registered cb [] th = (th, [], Loop_done)"
| "run_events event_fd registered cb ((fd, ev) # evs) th =
     (if \<not> th_running th then (th, [], Loop_stopped)
      else (let (th1, calls) =
              (if fd = event_fd
               then (if ev AND EPOLLIN \<noteq> 0
                     then cthread_handle_wakeup registered cb (th\<lparr>th_event_fd := 0\<rparr>) else (th, []))
               else run_fd_event registered cb fd ev th)
            in case run_events event_fd registered cb evs th1 of
                 (th2, calls', b) \<Rightarrow> (th2, calls @ calls', b)))"

text \<open>
  One iteration of \<open>run_loop\<close> after \<open>epoll_pwait\<close> returned the entries \<open>evs\<close>: expired timers,
  then descriptors.  An exception in the timer loop skips the descriptors.
\<close>

definition run_loop_iteration ::
  "nat \<Rightarrow> timespec stream \<Rightarrow> int \<Rightarrow> (nat \<Rightarrow> bool) \<Rightarrow> (th_call \<Rightarrow> cthread \<Rightarrow> cthread) \<Rightarrow> (int \<times> u32) list \<Rightarrow>
   cthread \<Rightarrow> cthread \<times> th_call list \<times> loop_end" where
  "run_loop_iteration turns clock event_fd registered cb evs th =
     (if \<not> th_running th then (th, [], Loop_stopped)
      else case run_timers turns clock registered cb th of
        (th1, hs, b) \<Rightarrow>
          (let calls = map (\<lambda>t. Call_timeout (timer_env t) (timer_id t)) hs
           in if b \<noteq> Loop_done then (th1, calls, b)
              else if \<not> th_running th1 then (th1, calls, Loop_stopped)
              else (case run_events event_fd registered cb evs th1 of
                      (th2, calls', b') \<Rightarrow> (th2, calls @ calls', b'))))"

text \<open>The \<open>epoll_pwait\<close> timeout in milliseconds.\<close>

definition run_loop_timeout :: "timespec \<Rightarrow> cthread \<Rightarrow> int" where
  "run_loop_timeout now th =
     (case ordered_timers th of [] \<Rightarrow> 3600000 | t # _ \<Rightarrow> ts_get_relative_timeout (tspec t) now)"

section \<open>The thread pool\<close>

record cthread_pool =
  pool_initialized :: bool
  pool_num_mgt_threads :: u32
  pool_num_io_threads :: u32
  pool_num_hnd_threads :: u32
  pool_mgt_loop_index :: u32
  pool_io_loop_index :: u32
  pool_hnd_loop_index :: u32

text \<open>\<open>cthread::pool_initialize(hnd, io, mgt)\<close>: thread counts are fixed up and the counters set.\<close>

definition pool_initialize :: "u32 \<Rightarrow> u32 \<Rightarrow> u32 \<Rightarrow> cthread_pool \<Rightarrow> cthread_pool" where
  "pool_initialize hnd io mgt p =
     (if pool_initialized p then p
      else (let m = (if mgt = 0 then 1 else mgt);
                i0 = (if io = 0 then 2 else io);
                h = (if hnd = 0 then 1 else hnd);
                i = (if i0 mod 2 \<noteq> 0 then i0 + 1 else i0)
            in \<lparr>pool_initialized = True, pool_num_mgt_threads = m, pool_num_io_threads = i,
                pool_num_hnd_threads = h, pool_mgt_loop_index = 0, pool_io_loop_index = m,
                pool_hnd_loop_index = m + i\<rparr>))"

definition pool_terminate :: "cthread_pool \<Rightarrow> cthread_pool" where
  "pool_terminate p = (if \<not> pool_initialized p then p else p\<lparr>pool_initialized := False\<rparr>)"

text \<open>The defaults of the header: 4 handler, 8 I/O and 1 management threads.\<close>

definition pool_ensure :: "cthread_pool \<Rightarrow> cthread_pool" where
  "pool_ensure p = (if \<not> pool_initialized p then pool_initialize 4 8 1 p else p)"

definition get_mgt_thread_num_from_pool :: "cthread_pool \<Rightarrow> cthread_pool \<times> u32" where
  "get_mgt_thread_num_from_pool p0 =
     (let p = pool_ensure p0;
          i = (if pool_mgt_loop_index p < pool_num_mgt_threads p - 1
               then pool_mgt_loop_index p + 1 else 0)
      in (p\<lparr>pool_mgt_loop_index := i\<rparr>, i))"

definition get_io_thread_num_from_pool :: "cthread_pool \<Rightarrow> cthread_pool \<times> u32" where
  "get_io_thread_num_from_pool p0 =
     (let p = pool_ensure p0;
          i = (if pool_io_loop_index p < pool_num_mgt_threads p + pool_num_io_threads p - 1
               then pool_io_loop_index p + 1 else pool_num_mgt_threads p)
      in (p\<lparr>pool_io_loop_index := i\<rparr>, i))"

definition get_hnd_thread_num_from_pool :: "cthread_pool \<Rightarrow> cthread_pool \<times> u32" where
  "get_hnd_thread_num_from_pool p0 =
     (let p = pool_ensure p0;
          i = (if pool_hnd_loop_index p <
                 pool_num_mgt_threads p + pool_num_io_threads p + pool_num_hnd_threads p - 1
               then pool_hnd_loop_index p + 1
               else pool_num_mgt_threads p + pool_num_io_threads p)
      in (p\<lparr>pool_hnd_loop_index := i\<rparr>, i))"

text \<open>
  The keys of \<open>cthread::pool\<close> after the three start loops of \<open>pool_initialize\<close>, and
  \<open>cthread::thread\<close>, which looks a thread number up.
\<close>

definition pool_has_thread :: "cthread_pool \<Rightarrow> u32 \<Rightarrow> bool" where
  "pool_has_thread p n \<longleftrightarrow>
     (let m = pool_num_mgt_threads p; i = pool_num_io_threads p; h = pool_num_hnd_threads p
      in n < m \<or> m \<le> n \<and> n < m + i \<or> m + i \<le> n \<and> n < m + i + h)"

definition cthread_thread :: "u32 \<Rightarrow> cthread_pool \<Rightarrow> cthread_pool \<times> u32 result" where
  "cthread_thread n p0 =
     (let p = pool_ensure p0 in (p, if pool_has_thread p n then Inr n else Inl EThreadNotFound))"

section \<open>Lemmas\<close>

definition timer_key :: "ctimer \<Rightarrow> nat \<times> u32" where
  "timer_key t = (timer_env t, timer_id t)"

lemma find_by_key: "ctimer_find_by_timer_env_and_id env tid = (\<lambda>t. timer_key t = (env, tid))"
  by (auto simp: ctimer_find_by_timer_env_and_id_def timer_key_def fun_eq_iff)

text \<open>The invariant of the timer set: in order, and at most one timer per environment and id.\<close>

definition timers_inv :: "cthread \<Rightarrow> bool" where
  "timers_inv th \<longleftrightarrow> sorted_wrt ctimer_less (ordered_timers th) \<and>
     distinct (map timer_key (ordered_timers th))"

text \<open>A timer of another environment with the same id and deadline: equivalent for the comparator.\<close>

definition timer_clash :: "nat \<Rightarrow> u32 \<Rightarrow> timespec \<Rightarrow> cthread \<Rightarrow> bool" where
  "timer_clash env tid ts th =
     list_ex (\<lambda>t. timer_env t \<noteq> env \<and> timer_id t = tid \<and> tspec t = ts) (ordered_timers th)"

lemma wakeup_frame [simp]:
  "ordered_timers (cthread_wakeup e th) = ordered_timers th"
  "th_fds (cthread_wakeup e th) = th_fds th"
  "th_running (cthread_wakeup e th) = th_running th"
  "th_tid (cthread_wakeup e th) = th_tid th"
  "th_state (cthread_wakeup e th) = th_state th"
  by (auto simp: cthread_wakeup_def cthread_wakeup_sys_def Let_def
      split: thread_state_t.splits option.splits)

lemma add_timer_timers:
  "ordered_timers (fst (cthread_add_timer self env tid ts th)) =
     fst (set_emplace ctimer_less \<lparr>timer_env = env, timer_id = tid, tspec = ts\<rparr>
       (erase_first (\<lambda>t. timer_key t = (env, tid)) (ordered_timers th)))"
  "snd (cthread_add_timer self env tid ts th) =
     snd (set_emplace ctimer_less \<lparr>timer_env = env, timer_id = tid, tspec = ts\<rparr>
       (erase_first (\<lambda>t. timer_key t = (env, tid)) (ordered_timers th)))"
  by (auto simp: cthread_add_timer_def Let_def find_by_key erase_first_id)

lemma add_timer_frame [simp]:
  "th_fds (fst (cthread_add_timer self env tid ts th)) = th_fds th"
  "th_running (fst (cthread_add_timer self env tid ts th)) = th_running th"
  "th_tid (fst (cthread_add_timer self env tid ts th)) = th_tid th"
  by (auto simp: cthread_add_timer_def Let_def)

lemma drop_timer_timers:
  "ordered_timers (fst (cthread_drop_timer self env tid th)) =
     erase_first (\<lambda>t. timer_key t = (env, tid)) (ordered_timers th)"
  by (auto simp: cthread_drop_timer_def Let_def find_by_key erase_first_id)

lemma drop_timers_timers:
  "ordered_timers (cthread_drop_timers self env th) =
     filter (\<lambda>t. timer_env t \<noteq> env) (ordered_timers th)"
  by (auto simp: cthread_drop_timers_def Let_def erase_while_filter ctimer_find_by_timer_env_def)

lemmas timer_ops = add_timer_timers drop_timer_timers drop_timers_timers

lemma erase_key:
  assumes "timers_inv th"
  shows "erase_first (\<lambda>t. timer_key t = k) (ordered_timers th) =
    filter (\<lambda>t. timer_key t \<noteq> k) (ordered_timers th)"
  using assms by (simp add: timers_inv_def erase_first_distinct_key)

lemma has_timer_iff: "cthread_has_timer env tid th \<longleftrightarrow> (env, tid) \<in> timer_key ` set (ordered_timers th)"
  by (auto simp: cthread_has_timer_def find_by_key list_ex_iff image_iff) metis+

lemma add_timer_spec:
  assumes "timers_inv th"
  shows "set (ordered_timers (fst (cthread_add_timer self env tid ts th))) =
      {t \<in> set (ordered_timers th). timer_key t \<noteq> (env, tid)} \<union>
      (if timer_clash env tid ts th then {} else {\<lparr>timer_env = env, timer_id = tid, tspec = ts\<rparr>})"
    and "snd (cthread_add_timer self env tid ts th) = (\<not> timer_clash env tid ts th)"
proof -
  let ?new = "\<lparr>timer_env = env, timer_id = tid, tspec = ts\<rparr>"
  let ?rest = "filter (\<lambda>t. timer_key t \<noteq> (env, tid)) (ordered_timers th)"
  have s: "sorted_wrt ctimer_less ?rest"
    using assms by (simp add: timers_inv_def sorted_wrt_filter)
  have c: "(\<exists>t \<in> set ?rest. timer_cmp.eqv ?new t) = timer_clash env tid ts th"
    by (auto simp: timer_eqv timer_clash_def list_ex_iff timer_key_def)
  show "set (ordered_timers (fst (cthread_add_timer self env tid ts th))) =
      {t \<in> set (ordered_timers th). timer_key t \<noteq> (env, tid)} \<union>
      (if timer_clash env tid ts th then {} else {?new})"
    using timer_cmp.set_emplace_mem [OF s, of ?new] c assms
    by (auto simp: add_timer_timers erase_key)
  show "snd (cthread_add_timer self env tid ts th) = (\<not> timer_clash env tid ts th)"
    using timer_cmp.set_emplace_snd [OF s, of ?new] c assms
    by (auto simp: add_timer_timers erase_key)
qed

lemma distinct_set_emplace:
  assumes "distinct (map f xs)" "f x \<notin> f ` set xs"
  shows "distinct (map f (fst (set_emplace ctimer_less x xs)))"
  using assms
proof (induction xs)
  case (Cons y ys)
  then show ?case
    using timer_cmp.set_emplace_set_subset [of x ys] by (auto split: prod.splits)
qed simp

lemma timers_inv_add: "timers_inv th \<Longrightarrow> timers_inv (fst (cthread_add_timer self env tid ts th))"
proof -
  assume inv: "timers_inv th"
  let ?rest = "filter (\<lambda>t. timer_key t \<noteq> (env, tid)) (ordered_timers th)"
  have "sorted_wrt ctimer_less ?rest" "distinct (map timer_key ?rest)"
    using inv by (auto simp: timers_inv_def sorted_wrt_filter distinct_map_filter)
  moreover have "timer_key \<lparr>timer_env = env, timer_id = tid, tspec = ts\<rparr> \<notin> timer_key ` set ?rest"
    by (auto simp: timer_key_def)
  ultimately show ?thesis
    unfolding timers_inv_def [of "fst _"] add_timer_timers erase_key [OF inv]
    by (simp add: timer_cmp.set_emplace_sorted distinct_set_emplace)
qed

lemma timers_inv_drop: "timers_inv th \<Longrightarrow> timers_inv (fst (cthread_drop_timer self env tid th))"
  by (auto simp: timers_inv_def timer_ops sorted_wrt_erase_first distinct_map_erase_first)

lemma timers_inv_drop_timers: "timers_inv th \<Longrightarrow> timers_inv (cthread_drop_timers self env th)"
  by (auto simp: timers_inv_def timer_ops sorted_wrt_filter distinct_map_filter)

section \<open>The timer service as its clients see it\<close>

locale timer_service =
  fixes inv :: "'s \<Rightarrow> bool"
    and add :: "nat \<Rightarrow> u32 \<Rightarrow> timespec \<Rightarrow> 's \<Rightarrow> 's \<times> bool"
    and drop :: "nat \<Rightarrow> u32 \<Rightarrow> 's \<Rightarrow> 's \<times> bool"
    and drop_all :: "nat \<Rightarrow> 's \<Rightarrow> 's"
    and has :: "nat \<Rightarrow> u32 \<Rightarrow> 's \<Rightarrow> bool"
    and clash :: "nat \<Rightarrow> u32 \<Rightarrow> timespec \<Rightarrow> 's \<Rightarrow> bool"
  assumes has_add: "inv s \<Longrightarrow> has e' i' (fst (add e i t s)) =
      (if e' = e \<and> i' = i then \<not> clash e i t s else has e' i' s)"
    and add_flag: "inv s \<Longrightarrow> snd (add e i t s) = (\<not> clash e i t s)"
    and has_drop: "inv s \<Longrightarrow> has e' i' (fst (drop e i s)) = (has e' i' s \<and> (e', i') \<noteq> (e, i))"
    and has_drop_all: "inv s \<Longrightarrow> has e' i' (drop_all e s) = (has e' i' s \<and> e' \<noteq> e)"
    and inv_add: "inv s \<Longrightarrow> inv (fst (add e i t s))"
    and inv_drop: "inv s \<Longrightarrow> inv (fst (drop e i s))"
    and inv_drop_all: "inv s \<Longrightarrow> inv (drop_all e s)"
begin

lemma drop_after_add: "inv s \<Longrightarrow> has e' i' (fst (drop e i (fst (add e i t s)))) = (has e' i' s \<and> (e', i') \<noteq> (e, i))"
  by (auto simp: has_drop inv_add has_add)

text \<open>Once an environment has left, no call by the others brings a timer of its back.\<close>

lemma left_stays_away:
  assumes "inv s" and "\<not> has e i s" and "\<forall>(e', i', t) \<in> set ops. e' \<noteq> e"
  shows "\<not> has e i (fold (\<lambda>(e', i', t) s. fst (add e' i' t s)) ops s)"
  using assms
  by (induction ops arbitrary: s) (auto simp: has_add inv_add)

lemma dropped_stays_away:
  assumes "inv s" and "\<forall>(e', i', t) \<in> set ops. e' \<noteq> e"
  shows "\<not> has e i (fold (\<lambda>(e', i', t) s. fst (add e' i' t s)) ops (drop_all e s))"
  by (rule left_stays_away) (use assms in \<open>simp_all add: has_drop_all inv_drop_all\<close>)

end

interpretation th_timers: timer_service timers_inv "cthread_add_timer self" "cthread_drop_timer self"
  "cthread_drop_timers self" cthread_has_timer timer_clash for self
proof
  fix s :: cthread and e i t e' i'
  assume inv: "timers_inv s"
  show "cthread_has_timer e' i' (fst (cthread_add_timer self e i t s)) =
      (if e' = e \<and> i' = i then \<not> timer_clash e i t s else cthread_has_timer e' i' s)"
    using add_timer_spec(1) [OF inv, of self e i t]
    by (auto simp: has_timer_iff timer_key_def image_iff)
  show "snd (cthread_add_timer self e i t s) = (\<not> timer_clash e i t s)"
    by (rule add_timer_spec(2) [OF inv])
  show "cthread_has_timer e' i' (fst (cthread_drop_timer self e i s)) =
      (cthread_has_timer e' i' s \<and> (e', i') \<noteq> (e, i))"
    using inv by (auto simp: has_timer_iff timer_ops erase_key)
  show "cthread_has_timer e' i' (cthread_drop_timers self e s) = (cthread_has_timer e' i' s \<and> e' \<noteq> e)"
    by (auto simp: has_timer_iff timer_ops timer_key_def)
qed (auto intro: timers_inv_add timers_inv_drop timers_inv_drop_timers)

section \<open>Expired timers\<close>

definition expired_timers :: "timespec \<Rightarrow> cthread \<Rightarrow> ctimer set" where
  "expired_timers now th = {t \<in> set (ordered_timers th). ts_is_expired (tspec t) now}"

lemma finite_expired [simp]: "finite (expired_timers now th)"
  by (simp add: expired_timers_def)

lemma unexpired_head:
  assumes "timers_inv th" "ordered_timers th = t # ts" "\<not> ts_is_expired (tspec t) now"
  shows "expired_timers now th = {}"
proof -
  have "\<not> ts_is_expired (tspec t') now" if "t' \<in> set ts" for t'
  proof -
    have "ctimer_less t t'"
      using assms(1,2) that by (simp add: timers_inv_def)
    then have "\<not> ts_less (tspec t') (tspec t)"
      by (auto simp: ctimer_less_def ts_cmp.lt_asym split: if_splits)
    then show ?thesis
      using assms(3) ts_is_expired_mono by blast
  qed
  with assms(2,3) show ?thesis
    by (auto simp: expired_timers_def)
qed

lemma pop_timer:
  assumes "timers_inv th" "ordered_timers th = t # ts"
  shows "timers_inv (th\<lparr>ordered_timers := ts\<rparr>)" "t \<notin> set ts" "\<forall>t' \<in> set ts. ctimer_less t t'"
  using assms by (auto simp: timers_inv_def)

text \<open>
  What the timer loop asks of the environments it calls: they keep the timer set in shape (any of the
  thread's own operations does), and, for the loop to end, they set no timer that is due by the time \<open>T\<close>.
\<close>

definition tidy :: "(th_call \<Rightarrow> cthread \<Rightarrow> cthread) \<Rightarrow> bool" where
  "tidy cb \<longleftrightarrow> (\<forall>c th. timers_inv th \<longrightarrow> timers_inv (cb c th))"

definition timely :: "timespec \<Rightarrow> (th_call \<Rightarrow> cthread \<Rightarrow> cthread) \<Rightarrow> bool" where
  "timely T cb \<longleftrightarrow> (\<forall>c th. expired_timers T (cb c th) \<subseteq> expired_timers T th)"

lemma run_timers_safe:
  assumes "tidy cb" "timers_inv th" "run_timers turns clock registered cb th = (th', hs, b)"
  shows "(\<forall>i < length hs. ts_is_expired (tspec (hs ! i)) (clock !! i) \<and> registered (timer_env (hs ! i))) \<and>
    timers_inv th' \<and>
    (b = Loop_done \<longrightarrow> expired_timers (clock !! length hs) th' = {}) \<and>
    (b = Loop_stopped \<longrightarrow> \<not> th_running th') \<and>
    (b = Loop_env_not_found \<longrightarrow> (\<exists>t. ts_is_expired (tspec t) (clock !! length hs) \<and>
       \<not> registered (timer_env t) \<and> t \<notin> set (ordered_timers th'))) \<and>
    (b = Loop_going \<longrightarrow> length hs = turns)"
  using assms(2,3)
proof (induction turns arbitrary: clock th hs)
  case (Suc turns)
  show ?case
  proof (cases "ordered_timers th")
    case Nil
    with Suc.prems show ?thesis by (auto simp: expired_timers_def)
  next
    case (Cons t ts)
    note pop = pop_timer [OF Suc.prems(1) Cons]
    let ?th1 = "th\<lparr>ordered_timers := ts\<rparr>"
    let ?th2 = "cb (Call_timeout (timer_env t) (timer_id t)) ?th1"
    consider (early) "\<not> ts_is_expired (tspec t) (shd clock)"
      | (stopped) "ts_is_expired (tspec t) (shd clock)" "\<not> th_running th"
      | (gone) "ts_is_expired (tspec t) (shd clock)" "th_running th" "\<not> registered (timer_env t)"
      | (call) "ts_is_expired (tspec t) (shd clock)" "th_running th" "registered (timer_env t)"
      by blast
    then show ?thesis
    proof cases
      case early
      with Suc.prems Cons unexpired_head [OF Suc.prems(1) Cons] show ?thesis by auto
    next
      case stopped
      with Suc.prems Cons pop(1) show ?thesis by auto
    next
      case gone
      with Suc.prems Cons pop(1,2) show ?thesis by (auto simp: Let_def)
    next
      case call
      obtain hs3 where rest: "run_timers turns (stl clock) registered cb ?th2 = (th', hs3, b)" and res: "hs = t # hs3"
        using Suc.prems(2) Cons call by (auto simp: Let_def split: prod.splits)
      have "timers_inv ?th2"
        using assms(1) pop(1) by (simp add: tidy_def)
      note ih = Suc.IH [OF this rest]
      have "ts_is_expired (tspec (hs ! i)) (clock !! i) \<and> registered (timer_env (hs ! i))" if "i < length hs" for i
        using that ih call by (cases i) (auto simp: res)
      with ih show ?thesis
        by (simp add: res)
    qed
  qed
qed simp

lemma run_timers_ends:
  assumes "timely T cb" "tidy cb" "timers_inv th" "run_timers turns clock registered cb th = (th', hs, b)"
    and "\<forall>i < turns. \<not> ts_less T (clock !! i)" "card (expired_timers T th) < turns"
  shows "b \<noteq> Loop_going \<and> set hs \<subseteq> expired_timers T th \<and> distinct hs \<and> sorted_wrt ctimer_less hs"
  using assms(3-)
proof (induction turns arbitrary: clock th hs)
  case (Suc turns)
  show ?case
  proof (cases "ordered_timers th")
    case Nil
    with Suc.prems show ?thesis by auto
  next
    case (Cons t ts)
    note pop = pop_timer [OF Suc.prems(1) Cons]
    let ?th1 = "th\<lparr>ordered_timers := ts\<rparr>"
    let ?th2 = "cb (Call_timeout (timer_env t) (timer_id t)) ?th1"
    show ?thesis
    proof (cases "ts_is_expired (tspec t) (shd clock) \<and> th_running th \<and> registered (timer_env t)")
      case False
      then show ?thesis
        using Suc.prems(2) Cons by (auto simp: Let_def split: if_splits)
    next
      case True
      obtain hs3 where rest: "run_timers turns (stl clock) registered cb ?th2 = (th', hs3, b)" and res: "hs = t # hs3"
        using Suc.prems(2) Cons True by (auto simp: Let_def split: prod.splits)
      have "\<not> ts_less T (shd clock)"
        using Suc.prems(3) by (metis snth.simps(1) zero_less_Suc)
      then have "ts_is_expired (tspec t) T"
        using True ts_cmp.lt_negtrans by (fastforce simp: ts_is_expired_iff)
      then have ex: "expired_timers T th = insert t (expired_timers T ?th1)" "t \<notin> expired_timers T ?th1"
        using Cons pop(2) by (auto simp: expired_timers_def)
      have sub: "expired_timers T ?th2 \<subseteq> expired_timers T ?th1"
        using assms(1) by (simp add: timely_def)
      have inv: "timers_inv ?th2"
        using assms(2) pop(1) by (simp add: tidy_def)
      have less: "card (expired_timers T ?th2) < turns"
        using Suc.prems(4) ex card_mono [OF _ sub] by simp
      have "\<forall>i < turns. \<not> ts_less T (stl clock !! i)"
        using Suc.prems(3) by (metis Suc_mono snth.simps(2))
      note ih = Suc.IH [OF inv rest this less]
      have "\<forall>t' \<in> set hs3. t' \<in> set ts"
        using ih sub by (auto simp: expired_timers_def)
      then show ?thesis
        using ih sub ex pop(2,3) by (auto simp: res)
    qed
  qed
qed simp

section \<open>The pool's round robin\<close>

definition pool_wf :: "cthread_pool \<Rightarrow> bool" where
  "pool_wf p \<longleftrightarrow> pool_initialized p \<and>
     0 < unat (pool_num_mgt_threads p) \<and> 2 \<le> unat (pool_num_io_threads p) \<and>
     0 < unat (pool_num_hnd_threads p) \<and>
     unat (pool_num_mgt_threads p) + unat (pool_num_io_threads p) + unat (pool_num_hnd_threads p) < 2 ^ 32 \<and>
     unat (pool_mgt_loop_index p) < unat (pool_num_mgt_threads p) \<and>
     unat (pool_num_mgt_threads p) \<le> unat (pool_io_loop_index p) \<and>
     unat (pool_io_loop_index p) < unat (pool_num_mgt_threads p) + unat (pool_num_io_threads p) \<and>
     unat (pool_num_mgt_threads p) + unat (pool_num_io_threads p) \<le> unat (pool_hnd_loop_index p) \<and>
     unat (pool_hnd_loop_index p) <
       unat (pool_num_mgt_threads p) + unat (pool_num_io_threads p) + unat (pool_num_hnd_threads p)"

text \<open>
  The three counters share one shape: a base, a number of threads and an index that steps through
  \<open>base ..< base + n\<close> and then wraps to the base.
\<close>

lemma unat_add_small: "unat a + unat b < 2 ^ 32 \<Longrightarrow> unat (a + b :: u32) = unat a + unat b"
  by (simp add: unat_word_ariths)

lemma unat_pred: "0 < unat a \<Longrightarrow> unat (a - 1 :: u32) = unat a - 1"
  by (metis less_irrefl unat_0 unat_minus_one)

lemma rr_step:
  fixes base n idx :: u32
  assumes "unat base + unat n < 2 ^ 32" "0 < unat n" "unat base \<le> unat idx" "unat idx < unat base + unat n"
  shows "unat (if idx < base + n - 1 then idx + 1 else base) =
    unat base + (unat idx - unat base + 1) mod unat n"
proof -
  have bn: "unat (base + n - 1) = unat base + unat n - 1"
    using assms by (simp add: unat_add_small unat_pred)
  show ?thesis
  proof (cases "idx < base + n - 1")
    case True
    then have lt: "unat idx < unat base + unat n - 1"
      by (simp add: word_less_nat_alt bn)
    then have "unat (idx + 1) = unat idx + 1"
      using assms(1) by (subst unat_add_small) simp_all
    with True lt assms show ?thesis by simp
  next
    case False
    then have "unat idx = unat base + unat n - 1"
      using assms(4) by (simp add: word_less_nat_alt bn)
    with False assms show ?thesis by simp
  qed
qed

lemma pool_ensure_wf [simp]: "pool_wf p \<Longrightarrow> pool_ensure p = p"
  by (simp add: pool_wf_def pool_ensure_def)

definition io_offset :: "cthread_pool \<Rightarrow> nat" where
  "io_offset p = unat (pool_io_loop_index p) - unat (pool_num_mgt_threads p)"

lemma io_pick:
  assumes "pool_wf p" "get_io_thread_num_from_pool p = (p', n)"
  shows "pool_wf p'" "unat n = unat (pool_num_mgt_threads p) + (io_offset p + 1) mod unat (pool_num_io_threads p)"
    "pool_io_loop_index p' = n" "p' = p\<lparr>pool_io_loop_index := n\<rparr>"
proof -
  have n: "n = (if pool_io_loop_index p < pool_num_mgt_threads p + pool_num_io_threads p - 1
               then pool_io_loop_index p + 1 else pool_num_mgt_threads p)"
    and p': "p' = p\<lparr>pool_io_loop_index := n\<rparr>"
    using assms by (auto simp: get_io_thread_num_from_pool_def Let_def)
  show u: "unat n = unat (pool_num_mgt_threads p) + (io_offset p + 1) mod unat (pool_num_io_threads p)"
    using assms(1) unfolding n io_offset_def pool_wf_def by (intro rr_step) simp_all
  have "(io_offset p + 1) mod unat (pool_num_io_threads p) < unat (pool_num_io_threads p)"
    using assms(1) by (simp add: pool_wf_def)
  then show "pool_wf p'"
    using assms(1) u by (simp add: pool_wf_def p')
  show "pool_io_loop_index p' = n" "p' = p\<lparr>pool_io_loop_index := n\<rparr>"
    by (simp_all add: p')
qed

fun io_picks :: "nat \<Rightarrow> cthread_pool \<Rightarrow> u32 list" where
  "io_picks 0 p = []"
| "io_picks (Suc k) p = (case get_io_thread_num_from_pool p of (p', n) \<Rightarrow> n # io_picks k p')"

lemma io_picks_offsets:
  "pool_wf p \<Longrightarrow> map unat (io_picks k p) =
    map (\<lambda>j. unat (pool_num_mgt_threads p) + (io_offset p + 1 + j) mod unat (pool_num_io_threads p)) [0..<k]"
proof (induction k arbitrary: p)
  case (Suc k)
  obtain p' n where pick: "get_io_thread_num_from_pool p = (p', n)"
    by fastforce
  note io = io_pick [OF Suc.prems pick]
  have "io_offset p' = (io_offset p + 1) mod unat (pool_num_io_threads p)"
    using io by (simp add: io_offset_def)
  moreover have "[0..<Suc k] = 0 # map Suc [0..<k]"
    by (simp add: map_Suc_upt upt_conv_Cons)
  moreover have "(a mod n + 1 + j) mod n = (a + 1 + j) mod n" for a j n :: nat
    by (metis add.assoc mod_add_left_eq)
  ultimately show ?case
    using Suc.IH [OF io(1)] io by (simp add: pick comp_def del: upt_Suc)
qed simp

lemma mod_add_cancel_right_nat: "(a + c) mod n = (b + c) mod n \<Longrightarrow> a mod n = b mod (n::nat)"
proof -
  assume "(a + c) mod n = (b + c) mod n"
  then have "int (a + c) mod int n = int (b + c) mod int n"
    by (metis of_nat_mod)
  then have "int a mod int n = int b mod int n"
    by (simp add: mod_eq_dvd_iff)
  then show ?thesis
    by (metis of_nat_eq_iff of_nat_mod)
qed

lemma io_picks_distinct_pool: "pool_wf p \<Longrightarrow> k \<le> unat (pool_num_io_threads p) \<Longrightarrow> distinct (io_picks k p)"
proof -
  assume wf: "pool_wf p" and k: "k \<le> unat (pool_num_io_threads p)"
  let ?n = "unat (pool_num_io_threads p)"
  have "inj_on (\<lambda>j. unat (pool_num_mgt_threads p) + (io_offset p + 1 + j) mod ?n) {0..<k}"
  proof (rule inj_onI)
    fix i j
    assume ij: "i \<in> {0..<k}" "j \<in> {0..<k}"
      and eq: "unat (pool_num_mgt_threads p) + (io_offset p + 1 + i) mod ?n =
        unat (pool_num_mgt_threads p) + (io_offset p + 1 + j) mod ?n"
    then have "(io_offset p + 1 + i) mod ?n = (io_offset p + 1 + j) mod ?n"
      by simp
    then have "i mod ?n = j mod ?n"
      by (metis add.commute mod_add_cancel_right_nat)
    with ij k show "i = j"
      by simp
  qed
  then have "distinct (map unat (io_picks k p))"
    using wf by (simp add: io_picks_offsets distinct_map)
  then show ?thesis
    by (simp add: distinct_map)
qed

lemma wakeup_None_wakeups [simp]: "th_wakeups (cthread_wakeup None th) = th_wakeups th"
  by (auto simp: cthread_wakeup_def cthread_wakeup_sys_def Let_def split: thread_state_t.splits)

lemma pool_lookup: "pool_wf p \<Longrightarrow>
  unat n < unat (pool_num_mgt_threads p) + unat (pool_num_io_threads p) + unat (pool_num_hnd_threads p) \<Longrightarrow>
  cthread_thread n p = (p, Inr n)"
  by (auto simp: cthread_thread_def pool_has_thread_def Let_def word_less_nat_alt word_le_nat_alt
      unat_add_small pool_wf_def)

lemma mgt_pick_found:
  "pool_wf q \<Longrightarrow> case get_mgt_thread_num_from_pool q of (q', n) \<Rightarrow> pool_wf q' \<and> cthread_thread n q' = (q', Inr n)"
proof -
  assume wf: "pool_wf q"
  obtain q' n where g: "get_mgt_thread_num_from_pool q = (q', n)"
    by fastforce
  have n: "n = (if pool_mgt_loop_index q < 0 + pool_num_mgt_threads q - 1 then pool_mgt_loop_index q + 1 else 0)"
    and q': "q' = q\<lparr>pool_mgt_loop_index := n\<rparr>"
    using g wf by (auto simp: get_mgt_thread_num_from_pool_def Let_def)
  have "unat n = unat (0::u32) + (unat (pool_mgt_loop_index q) - unat (0::u32) + 1) mod unat (pool_num_mgt_threads q)"
    unfolding n using wf by (intro rr_step) (simp_all add: pool_wf_def)
  moreover have "(unat (pool_mgt_loop_index q) + 1) mod unat (pool_num_mgt_threads q) < unat (pool_num_mgt_threads q)"
    using wf by (simp add: pool_wf_def)
  ultimately have "pool_wf q'" "unat n < unat (pool_num_mgt_threads q')"
    using wf by (simp_all add: pool_wf_def q')
  then show ?thesis
    using pool_lookup [of q' n] by (simp add: g)
qed

lemma io_pick_found:
  "pool_wf q \<Longrightarrow> case get_io_thread_num_from_pool q of (q', n) \<Rightarrow> pool_wf q' \<and> cthread_thread n q' = (q', Inr n)"
proof -
  assume wf: "pool_wf q"
  obtain q' n where g: "get_io_thread_num_from_pool q = (q', n)"
    by fastforce
  note io = io_pick [OF wf g]
  have "unat (pool_io_loop_index q') < unat (pool_num_mgt_threads q') + unat (pool_num_io_threads q')"
    using io(1) by (simp add: pool_wf_def)
  then show ?thesis
    using io(1,3) pool_lookup [of q' n] by (simp add: g)
qed

lemma hnd_pick_found:
  "pool_wf q \<Longrightarrow> case get_hnd_thread_num_from_pool q of (q', n) \<Rightarrow> pool_wf q' \<and> cthread_thread n q' = (q', Inr n)"
proof -
  assume wf: "pool_wf q"
  obtain q' n where g: "get_hnd_thread_num_from_pool q = (q', n)"
    by fastforce
  let ?base = "pool_num_mgt_threads q + pool_num_io_threads q"
  have base: "unat ?base = unat (pool_num_mgt_threads q) + unat (pool_num_io_threads q)"
    using wf by (intro unat_add_small) (simp add: pool_wf_def)
  have n: "n = (if pool_hnd_loop_index q < ?base + pool_num_hnd_threads q - 1 then pool_hnd_loop_index q + 1 else ?base)"
    and q': "q' = q\<lparr>pool_hnd_loop_index := n\<rparr>"
    using g wf by (auto simp: get_hnd_thread_num_from_pool_def Let_def)
  have "unat n = unat ?base + (unat (pool_hnd_loop_index q) - unat ?base + 1) mod unat (pool_num_hnd_threads q)"
    unfolding n using wf by (intro rr_step) (simp_all add: pool_wf_def base)
  moreover have "(unat (pool_hnd_loop_index q) - unat ?base + 1) mod unat (pool_num_hnd_threads q) <
      unat (pool_num_hnd_threads q)"
    using wf by (simp add: pool_wf_def)
  ultimately have "pool_wf q'" "unat n < unat (pool_num_mgt_threads q') +
      unat (pool_num_io_threads q') + unat (pool_num_hnd_threads q')"
    using wf base by (simp_all add: pool_wf_def q')
  then show ?thesis
    using pool_lookup [of q' n] by (simp add: g)
qed

lemma unat_mod2: "(i mod 2 \<noteq> (0::u32)) = odd (unat i)"
proof -
  have "unat (i mod 2) = unat i mod 2"
    by (simp add: unat_mod)
  then show ?thesis
    by (metis even_iff_mod_2_eq_zero unat_eq_0)
qed

lemma pool_initialize_wf:
  assumes "\<not> pool_initialized p" "unat hnd + unat io + unat mgt + 4 < 2 ^ 32"
  shows "pool_wf (pool_initialize hnd io mgt p)"
    and "even (unat (pool_num_io_threads (pool_initialize hnd io mgt p)))"
proof -
  define m where "m = (if mgt = 0 then 1 else mgt)"
  define h where "h = (if hnd = 0 then 1 else hnd)"
  define i0 where "i0 = (if io = 0 then 2 else io)"
  define i where "i = (if i0 mod 2 \<noteq> 0 then i0 + 1 else i0)"
  have p: "pool_initialize hnd io mgt p = \<lparr>pool_initialized = True, pool_num_mgt_threads = m,
      pool_num_io_threads = i, pool_num_hnd_threads = h, pool_mgt_loop_index = 0,
      pool_io_loop_index = m, pool_hnd_loop_index = m + i\<rparr>"
    using assms(1) by (simp add: pool_initialize_def Let_def m_def h_def i0_def i_def)
  have m: "0 < unat m" "unat m \<le> unat mgt + 1" and h: "0 < unat h" "unat h \<le> unat hnd + 1"
    by (auto simp: m_def h_def unat_gt_0)
  have i0: "0 < unat i0" "unat i0 \<le> unat io + 2" "io \<noteq> 0 \<longrightarrow> unat i0 = unat io" "io = 0 \<longrightarrow> unat i0 = 2"
    by (auto simp: i0_def unat_gt_0)
  have i: "unat i = unat i0 + (if odd (unat i0) then 1 else 0)"
    using i0 assms(2) unfolding i_def unat_mod2 by (auto simp: unat_add_small)
  show "even (unat (pool_num_io_threads (pool_initialize hnd io mgt p)))"
    by (simp add: p i)
  have "2 \<le> unat i"
    using i i0(1) by (cases "unat i0 = 1") auto
  moreover have "unat m + unat i + unat h < 2 ^ 32"
    using m h i i0 assms(2) by (cases "io = 0") auto
  moreover have "unat (m + i) = unat m + unat i"
    using calculation by (intro unat_add_small) simp
  ultimately show "pool_wf (pool_initialize hnd io mgt p)"
    using m h by (simp add: p pool_wf_def)
qed

section \<open>Properties\<close>

text \<open>
  Setting a timer.  The timer set stays sorted with one timer per environment and id; a new
  timer replaces the one of the same environment and id and is there afterwards, and every other
  timer is untouched - except when another environment holds a timer with the same id and the same
  deadline: then the new timer is refused and the one it was to replace is gone.
\<close>

theorem add_timer_replaces:
  assumes "timers_inv th"
  shows "timers_inv (fst (cthread_add_timer self env tid ts th)) \<and>
    set (ordered_timers (fst (cthread_add_timer self env tid ts th))) =
      {t \<in> set (ordered_timers th). timer_key t \<noteq> (env, tid)} \<union>
      (if timer_clash env tid ts th then {} else {\<lparr>timer_env = env, timer_id = tid, tspec = ts\<rparr>}) \<and>
    snd (cthread_add_timer self env tid ts th) = (\<not> timer_clash env tid ts th)"
  using add_timer_spec [OF assms] th_timers.inv_add [OF assms] by blast

definition clash_thread :: cthread where
  "clash_thread = \<lparr>th_state = TH_STATE_RUNNING, th_running = True, th_tid = 1, th_fds = [],
     ordered_timers = [\<lparr>timer_env = 10, timer_id = 3, tspec = \<lparr>tv_sec = 5, tv_nsec = 0\<rparr>\<rparr>,
                       \<lparr>timer_env = 11, timer_id = 3, tspec = \<lparr>tv_sec = 9, tv_nsec = 0\<rparr>\<rparr>],
     th_wakeups = [], th_event_fd = 0\<rparr>"

lemma clash_thread_sel [simp]:
  "th_state clash_thread = TH_STATE_RUNNING" "th_running clash_thread" "th_tid clash_thread = 1"
  "ordered_timers clash_thread = [\<lparr>timer_env = 10, timer_id = 3, tspec = \<lparr>tv_sec = 5, tv_nsec = 0\<rparr>\<rparr>,
     \<lparr>timer_env = 11, timer_id = 3, tspec = \<lparr>tv_sec = 9, tv_nsec = 0\<rparr>\<rparr>]"
  "th_event_fd clash_thread = 0"
  by (simp_all add: clash_thread_def)

lemma clash_thread_inv [simp]: "timers_inv clash_thread"
  by (simp add: timers_inv_def clash_thread_def ctimer_less_def ts_less_def timer_key_def)

theorem add_timer_replaces_example:
  "timers_inv clash_thread \<and>
   set (ordered_timers (fst (cthread_add_timer 1 11 3 \<lparr>tv_sec = 5, tv_nsec = 0\<rparr> clash_thread))) =
     {\<lparr>timer_env = 10, timer_id = 3, tspec = \<lparr>tv_sec = 5, tv_nsec = 0\<rparr>\<rparr>}"
proof -
  have "timer_clash 11 3 \<lparr>tv_sec = 5, tv_nsec = 0\<rparr> clash_thread"
    by (simp add: timer_clash_def)
  moreover have "{t \<in> set (ordered_timers clash_thread). timer_key t \<noteq> (11, 3)} =
      {\<lparr>timer_env = 10, timer_id = 3, tspec = \<lparr>tv_sec = 5, tv_nsec = 0\<rparr>\<rparr>}"
    by (auto simp: timer_key_def)
  ultimately show ?thesis
    using add_timer_replaces [OF clash_thread_inv, of 1 11 3 "\<lparr>tv_sec = 5, tv_nsec = 0\<rparr>"] by simp
qed

text \<open>
  No lost wake-up.  When another thread sets a timer that makes the earliest deadline of a
  running thread earlier, that thread's event descriptor is signalled, so its poll is cut short.
\<close>

theorem add_timer_wakes_up:
  assumes "timers_inv th" and "th_state th = TH_STATE_RUNNING" and "th_tid th \<noteq> self"
    and "ordered_timers (fst (cthread_add_timer self env tid ts th)) = t' # r'"
    and "\<forall>t r. ordered_timers th = t # r \<longrightarrow> ts_less (tspec t') (tspec t)"
  shows "th_event_fd (fst (cthread_add_timer self env tid ts th)) = th_event_fd th + 1"
proof -
  have "ts_less ts (tspec t)" if old: "ordered_timers th = t # r" for t r
  proof -
    have "t' \<in> set (ordered_timers (fst (cthread_add_timer self env tid ts th)))"
      using assms(4) by simp
    then have "t' \<in> set (ordered_timers th) \<or> tspec t' = ts"
      unfolding add_timer_spec(1) [OF assms(1)] by (auto split: if_splits)
    moreover have "\<not> ts_less (tspec t'') (tspec t)" if "t'' \<in> set (t # r)" for t''
      using pop_timer(3) [OF assms(1) old] that
      by (auto simp: ctimer_less_def ts_cmp.lt_asym split: if_splits)
    ultimately show ?thesis
      using assms(5) old by auto
  qed
  then show ?thesis
    using assms(2,3)
    by (auto simp: cthread_add_timer_def Let_def cthread_wakeup_def cthread_wakeup_sys_def
        split: list.splits)
qed

theorem add_timer_wakes_up_example:
  "timers_inv clash_thread \<and>
   th_event_fd (fst (cthread_add_timer 2 11 3 \<lparr>tv_sec = 4, tv_nsec = 0\<rparr> clash_thread)) = 1"
  using add_timer_wakes_up [OF clash_thread_inv, of 2 11 3 "\<lparr>tv_sec = 4, tv_nsec = 0\<rparr>"
      "\<lparr>timer_env = 11, timer_id = 3, tspec = \<lparr>tv_sec = 4, tv_nsec = 0\<rparr>\<rparr>"
      "[\<lparr>timer_env = 10, timer_id = 3, tspec = \<lparr>tv_sec = 5, tv_nsec = 0\<rparr>\<rparr>]"]
  by (simp add: add_timer_timers timer_key_def ctimer_less_def ts_less_def)

text \<open>
  C34: the timer loop, which reads the clock in every turn.  Whatever the readings are and whatever the
  environments do that are called, as long as they keep the timer set in shape: a timer is handled only
  if its environment is registered and it had expired at the very reading of its turn; if the loop ends
  normally no timer that is left had expired at the last reading; otherwise the thread was stopped, or
  the environment of an expired timer was gone (that timer is lost), or the loop is still going and has
  handled one timer in each of its turns.  The loop ends, by handling each timer that is due by \<open>T\<close> at
  most once and in the order of their deadlines, provided that the clock stays at or below \<open>T\<close> for one
  turn more than there are such timers, and that the environments set no timer that is due by \<open>T\<close>.
  (\<open>rearmed_timer_starves\<close>: without the second condition it may go on for ever.)
\<close>

theorem run_timers_handles_expired:
  assumes "tidy cb" and "timers_inv th" and "run_timers turns clock registered cb th = (th', hs, b)"
  shows "(\<forall>i < length hs. ts_is_expired (tspec (hs ! i)) (clock !! i) \<and> registered (timer_env (hs ! i))) \<and>
    (b = Loop_done \<longrightarrow> expired_timers (clock !! length hs) th' = {}) \<and>
    (b = Loop_stopped \<longrightarrow> \<not> th_running th') \<and>
    (b = Loop_env_not_found \<longrightarrow> (\<exists>t. ts_is_expired (tspec t) (clock !! length hs) \<and>
       \<not> registered (timer_env t) \<and> t \<notin> set (ordered_timers th'))) \<and>
    (b = Loop_going \<longrightarrow> length hs = turns) \<and>
    (timely T cb \<and> (\<forall>i < turns. \<not> ts_less T (clock !! i)) \<and> card (expired_timers T th) < turns \<longrightarrow>
       b \<noteq> Loop_going \<and> set hs \<subseteq> expired_timers T th \<and> distinct hs \<and> sorted_wrt ctimer_less hs)"
  using run_timers_safe [OF assms] run_timers_ends [OF _ assms, of T] by blast

text \<open>Two timers, due at five and six or later; the clock advances by a second between the readings.\<close>

definition advancing_clock :: "timespec stream" where
  "advancing_clock = smap (\<lambda>n. \<lparr>tv_sec = int n, tv_nsec = 0\<rparr>) (fromN 5)"

theorem run_timers_handles_expired_witness:
  "\<exists>th' hs b. run_timers 3 advancing_clock (\<lambda>_. True) (\<lambda>c th. th) clash_thread = (th', hs, b) \<and>
     b \<noteq> Loop_going \<and> set hs \<subseteq> set (ordered_timers clash_thread) \<and> sorted_wrt ctimer_less hs"
proof -
  let ?T = "\<lparr>tv_sec = 7, tv_nsec = 0\<rparr>"
  obtain th' hs b where run: "run_timers 3 advancing_clock (\<lambda>_. True) (\<lambda>c th. th) clash_thread = (th', hs, b)"
    by (metis prod_cases3)
  have "card (expired_timers ?T clash_thread) < 3"
    by (rule le_less_trans [OF card_mono [of "set (ordered_timers clash_thread)"]])
      (auto simp: expired_timers_def card_insert_if)
  moreover have "\<forall>i < 3. \<not> ts_less ?T (advancing_clock !! i)"
    by (auto simp: advancing_clock_def ts_less_def)
  moreover have "tidy (\<lambda>c th. th)" "timely ?T (\<lambda>c th. th)"
    by (simp_all add: tidy_def timely_def)
  ultimately have "b \<noteq> Loop_going \<and> set hs \<subseteq> expired_timers ?T clash_thread \<and> sorted_wrt ctimer_less hs"
    using run_timers_handles_expired [OF _ clash_thread_inv run, of ?T] by blast
  with run show ?thesis
    by (auto simp: expired_timers_def)
qed

text \<open>
  An environment that sets its timer again, due at once, keeps the loop going: no descriptor is served
  any more.
\<close>

definition rearm :: "ctimer \<Rightarrow> th_call \<Rightarrow> cthread \<Rightarrow> cthread" where
  "rearm t c th = (case c of Call_timeout e i \<Rightarrow> th\<lparr>ordered_timers := t # ordered_timers th\<rparr> | _ \<Rightarrow> th)"

theorem rearmed_timer_starves:
  assumes "ordered_timers th = [t]" and "th_running th" and "registered (timer_env t)"
    and "\<forall>i. ts_is_expired (tspec t) (clock !! i)"
  shows "run_loop_iteration turns clock efd registered (rearm t) evs th =
    (th, replicate turns (Call_timeout (timer_env t) (timer_id t)), Loop_going)"
proof -
  have same: "th\<lparr>ordered_timers := [t]\<rparr> = th"
    using assms(1) by simp
  have "run_timers turns clock registered (rearm t) th = (th, replicate turns t, Loop_going)"
    using assms(4)
  proof (induction turns arbitrary: clock)
    case (Suc turns)
    have "ts_is_expired (tspec t) (shd clock)" "\<forall>i. ts_is_expired (tspec t) (stl clock !! i)"
      using Suc.prems by (metis snth.simps(1), metis snth.simps(2))
    with Suc.IH [of "stl clock"] assms(1-3) show ?case
      by (simp add: rearm_def Let_def same)
  qed simp
  then show ?thesis
    using assms(2) by (simp add: run_loop_iteration_def)
qed

text \<open>
  A timer left behind by an environment that is gone costs the iteration its descriptors: the
  exception leaves the timer loop, and the events the (edge triggered) poll returned are dropped.
\<close>

theorem stale_timer_skips_events:
  assumes "th_running th" and "ordered_timers th = t # ts" and "ts_is_expired (tspec t) (shd clock)"
    and "\<not> registered (timer_env t)"
  shows "run_loop_iteration (Suc turns) clock efd registered cb evs th =
    (th\<lparr>ordered_timers := ts\<rparr>, [], Loop_env_not_found)"
  using assms by (simp add: run_loop_iteration_def Let_def)

theorem stale_timer_skips_events_example:
  "th_running clash_thread \<and>
   run_loop_iteration (Suc 0) advancing_clock 3 (\<lambda>e. e = 11) (\<lambda>c th. th) [(7, EPOLLIN)] clash_thread =
   (clash_thread\<lparr>ordered_timers := tl (ordered_timers clash_thread)\<rparr>, [], Loop_env_not_found)"
  using stale_timer_skips_events [of clash_thread "hd (ordered_timers clash_thread)"
      "tl (ordered_timers clash_thread)" advancing_clock "\<lambda>e. e = 11" 0 3 "\<lambda>c th. th"
      "[(7, EPOLLIN)]"]
  by (simp add: ts_is_expired_def ts_le_def ts_less_def advancing_clock_def)

text \<open>
  An environment that leaves a thread (\<open>drop\<close>) leaves nothing behind: no timer, no file
  descriptor and no wake-up names it any more, and those of the others are kept.
\<close>

theorem drop_leaves_nothing:
  assumes "distinct (th_wakeups th)"
  shows "ordered_timers (cthread_drop self env th) = filter (\<lambda>t. timer_env t \<noteq> env) (ordered_timers th) \<and>
    th_fds (cthread_drop self env th) = filter (\<lambda>p. fd_env (snd p) \<noteq> env) (th_fds th) \<and>
    set (th_wakeups (cthread_drop self env th)) = set (th_wakeups th) - {env}"
proof -
  have "set (th_wakeups (cthread_drop_wakeup env th)) = set (th_wakeups th) - {env}"
    using assms erase_first_distinct_key [of "\<lambda>x. x" "th_wakeups th" env]
    by (auto simp: cthread_drop_wakeup_def)
  then show ?thesis
    by (simp add: cthread_drop_def drop_timers_timers cthread_drop_timers_def Let_def
        cthread_drop_fds_def cthread_drop_wakeup_def erase_while_filter wakeup_None_wakeups
        ctimer_find_by_timer_env_def)
qed

theorem drop_leaves_nothing_example:
  "distinct (th_wakeups (clash_thread\<lparr>th_wakeups := [10, 11]\<rparr>)) \<and>
   set (th_wakeups (cthread_drop 1 10 (clash_thread\<lparr>th_wakeups := [10, 11]\<rparr>))) = {11}"
  using drop_leaves_nothing [of "clash_thread\<lparr>th_wakeups := [10, 11]\<rparr>" 1 10] by simp

text \<open>
  The thread pool's round robin is fair.  In an initialised pool, any run of as many picks as
  there are I/O threads picks each of them at most once, every pick is a thread of the pool's I/O
  section, and so the receive and the transmit thread of a socket are always two different ones.
\<close>

lemma io_picks_fair:
  assumes "pool_wf p" and "k \<le> unat (pool_num_io_threads p)"
  shows "distinct (io_picks k p) \<and> length (io_picks k p) = k \<and>
    (\<forall>n \<in> set (io_picks k p). unat (pool_num_mgt_threads p) \<le> unat n \<and>
       unat n < unat (pool_num_mgt_threads p) + unat (pool_num_io_threads p))"
proof -
  have offs: "map unat (io_picks k p) =
      map (\<lambda>j. unat (pool_num_mgt_threads p) + (io_offset p + 1 + j) mod unat (pool_num_io_threads p)) [0..<k]"
    by (rule io_picks_offsets [OF assms(1)])
  have "0 < unat (pool_num_io_threads p)"
    using assms(1) by (simp add: pool_wf_def)
  then have "\<forall>m \<in> set (map unat (io_picks k p)). unat (pool_num_mgt_threads p) \<le> m \<and>
      m < unat (pool_num_mgt_threads p) + unat (pool_num_io_threads p)"
    unfolding offs by auto
  moreover have "length (io_picks k p) = k"
    using arg_cong [OF offs, of length] by simp
  ultimately show ?thesis
    using io_picks_distinct_pool [OF assms] by auto
qed

definition idle_pool :: cthread_pool where
  "idle_pool = \<lparr>pool_initialized = False, pool_num_mgt_threads = 0, pool_num_io_threads = 0,
     pool_num_hnd_threads = 0, pool_mgt_loop_index = 0, pool_io_loop_index = 0, pool_hnd_loop_index = 0\<rparr>"

lemma default_pool: "pool_initialize 4 8 1 idle_pool = \<lparr>pool_initialized = True, pool_num_mgt_threads = 1,
  pool_num_io_threads = 8, pool_num_hnd_threads = 4, pool_mgt_loop_index = 0, pool_io_loop_index = 1,
  pool_hnd_loop_index = 9\<rparr>"
  by (simp add: pool_initialize_def idle_pool_def)

lemma default_pool_wf: "pool_wf (pool_initialize 4 8 1 idle_pool)"
  by (simp add: pool_wf_def pool_initialize_def idle_pool_def Let_def)

lemma io_picks_fair_example:
  "pool_wf (pool_initialize 4 8 1 idle_pool) \<and> distinct (io_picks 2 (pool_initialize 4 8 1 idle_pool)) \<and>
   io_picks 2 (pool_initialize 4 8 1 idle_pool) = [2, 3]"
proof -
  have "io_picks (Suc (Suc 0)) (pool_initialize 4 8 1 idle_pool) = [2, 3]"
    by (simp add: default_pool get_io_thread_num_from_pool_def pool_ensure_def)
  then have "io_picks 2 (pool_initialize 4 8 1 idle_pool) = [2, 3]"
    unfolding numeral_2_eq_2 .
  moreover have "distinct (io_picks 2 (pool_initialize 4 8 1 idle_pool))"
    using io_picks_fair [OF default_pool_wf, of 2] by (simp add: default_pool)
  ultimately show ?thesis
    using default_pool_wf by simp
qed

text \<open>
  \<open>pool_initialize\<close> establishes the pool invariant - at least one thread of each kind, an
  even number of I/O threads, counters inside their sections - for every request whose thread
  count fits 32 bits, and every pick keeps it; so every thread number handed out can be looked up.
\<close>

theorem pool_picks_found:
  assumes "\<not> pool_initialized p" and "unat hnd + unat io + unat mgt + 4 < 2 ^ 32"
  shows "pool_wf (pool_initialize hnd io mgt p) \<and>
    even (unat (pool_num_io_threads (pool_initialize hnd io mgt p))) \<and>
    (\<forall>q. pool_wf q \<longrightarrow>
       (case get_mgt_thread_num_from_pool q of (q', n) \<Rightarrow> pool_wf q' \<and> cthread_thread n q' = (q', Inr n)) \<and>
       (case get_io_thread_num_from_pool q of (q', n) \<Rightarrow> pool_wf q' \<and> cthread_thread n q' = (q', Inr n)) \<and>
       (case get_hnd_thread_num_from_pool q of (q', n) \<Rightarrow> pool_wf q' \<and> cthread_thread n q' = (q', Inr n)))"
  by (intro conjI allI impI pool_initialize_wf [OF assms] mgt_pick_found io_pick_found hnd_pick_found)

theorem pool_picks_found_example:
  "\<not> pool_initialized idle_pool \<and> pool_wf (pool_initialize 1 3 1 idle_pool) \<and>
   even (unat (pool_num_io_threads (pool_initialize 1 3 1 idle_pool)))"
proof -
  have "\<not> pool_initialized idle_pool" "unat (1::u32) + unat (3::u32) + unat (1::u32) + 4 < 2 ^ 32"
    by (simp_all add: idle_pool_def)
  from this(1) pool_picks_found [OF this] show ?thesis
    by (elim conjE) (intro conjI)
qed

end
