(* ===== verification/Crofqueue.thy ===== *)
theory Crofqueue
  imports Rofl_Prelude
begin

text \<open>
  \<open>rofl::crofqueue\<close> (\<open>crofqueue.h\<close>): the bounded queue of message pointers that sockets use per
  transmit class and connections per receive class.  The bound is soft: \<open>store\<close> with \<open>enforce\<close>
  appends regardless.  The queue owns its messages: \<open>clear\<close> deletes them, which the model shows as
  the list of messages handed to \<open>delete\<close>.
\<close>

record 'm crofqueue =
  queue :: "'m list"
  queue_max_size :: nat

abbreviation QUEUE_MAX_SIZE_DEFAULT :: nat where "QUEUE_MAX_SIZE_DEFAULT \<equiv> 128"

definition crofqueue_new :: "'m crofqueue" where
  "crofqueue_new = \<lparr>queue = [], queue_max_size = QUEUE_MAX_SIZE_DEFAULT\<rparr>"

definition crofqueue_empty :: "'m crofqueue \<Rightarrow> bool" where
  "crofqueue_empty q \<longleftrightarrow> queue q = []"

definition crofqueue_size :: "'m crofqueue \<Rightarrow> nat" where
  "crofqueue_size q = length (queue q)"

text \<open>\<open>store\<close> returns the new size, or throws \<open>eRofQueueFull\<close>.\<close>

definition crofqueue_store :: "'m \<Rightarrow> bool \<Rightarrow> 'm crofqueue \<Rightarrow> ('m crofqueue \<times> nat) result" where
  "crofqueue_store msg enforce q =
     (if \<not> enforce \<and> queue_max_size q \<le> length (queue q) then Inl ERofQueueFull
      else (let q' = q\<lparr>queue := queue q @ [msg]\<rparr> in Inr (q', length (queue q'))))"

definition crofqueue_retrieve :: "'m crofqueue \<Rightarrow> 'm crofqueue \<times> 'm option" where
  "crofqueue_retrieve q =
     (case queue q of [] \<Rightarrow> (q, None) | msg # rest \<Rightarrow> (q\<lparr>queue := rest\<rparr>, Some msg))"

definition crofqueue_front :: "'m crofqueue \<Rightarrow> 'm option" where
  "crofqueue_front q = (case queue q of [] \<Rightarrow> None | msg # _ \<Rightarrow> Some msg)"

definition crofqueue_pop :: "'m crofqueue \<Rightarrow> 'm crofqueue" where
  "crofqueue_pop q = (case queue q of [] \<Rightarrow> q | _ # rest \<Rightarrow> q\<lparr>queue := rest\<rparr>)"

definition crofqueue_capacity :: "'m crofqueue \<Rightarrow> nat" where
  "crofqueue_capacity q =
     (if length (queue q) < queue_max_size q then queue_max_size q - length (queue q) else 0)"

definition set_queue_max_size :: "nat \<Rightarrow> 'm crofqueue \<Rightarrow> 'm crofqueue" where
  "set_queue_max_size n q = q\<lparr>queue_max_size := n\<rparr>"

text \<open>\<open>clear\<close>: take the front and delete it until the queue is empty.\<close>

function crofqueue_clear :: "'m crofqueue \<Rightarrow> 'm crofqueue \<times> 'm list" where
  "crofqueue_clear q =
     (case crofqueue_front q of
        None \<Rightarrow> (q, [])
      | Some msg \<Rightarrow> (case crofqueue_clear (crofqueue_pop q) of (q', freed) \<Rightarrow> (q', msg # freed)))"
  by pat_completeness auto

termination crofqueue_clear
  by (relation "measure (\<lambda>q. length (queue q))")
    (auto simp: crofqueue_front_def crofqueue_pop_def split: list.splits)

declare crofqueue_clear.simps [simp del]

lemmas crofqueue_defs = crofqueue_empty_def crofqueue_size_def crofqueue_store_def
  crofqueue_retrieve_def crofqueue_front_def crofqueue_pop_def crofqueue_capacity_def
  set_queue_max_size_def

lemma crofqueue_clear_all: "crofqueue_clear q = (q\<lparr>queue := []\<rparr>, queue q)"
proof (induction q rule: crofqueue_clear.induct)
  case (1 q)
  then show ?case
    by (subst crofqueue_clear.simps) (auto simp: crofqueue_defs split: list.splits)
qed

lemma queue_clear [simp]:
  "queue (fst (crofqueue_clear q)) = []" "snd (crofqueue_clear q) = queue q"
  "queue_max_size (fst (crofqueue_clear q)) = queue_max_size q"
  by (simp_all add: crofqueue_clear_all)

section \<open>The contract: a bounded first-in first-out queue\<close>

text \<open>
  What the scheduler of the socket and the dispatcher of the connection rely on.  \<open>contents\<close> is the
  abstract queue; \<open>push\<close> fails when the queue is full.
\<close>

locale bounded_fifo =
  fixes contents :: "'q \<Rightarrow> 'a list"
    and bound :: "'q \<Rightarrow> nat"
    and push :: "'a \<Rightarrow> 'q \<Rightarrow> 'q option"
    and front :: "'q \<Rightarrow> 'a option"
    and pop :: "'q \<Rightarrow> 'q"
  assumes push_None: "push x q = None \<longleftrightarrow> bound q \<le> length (contents q)"
    and push_Some: "push x q = Some q' \<Longrightarrow> contents q' = contents q @ [x] \<and> bound q' = bound q"
    and front_spec: "front q = (case contents q of [] \<Rightarrow> None | x # _ \<Rightarrow> Some x)"
    and pop_spec: "contents (pop q) = tl (contents q)" "bound (pop q) = bound q"
begin

text \<open>A history of the queue: stores (that may be refused) and retrievals, with what each gave.\<close>

fun history :: "'a option list \<Rightarrow> 'q \<Rightarrow> 'q \<times> 'a list \<times> 'a list" where
  "history [] q = (q, [], [])"
| "history (Some x # ops) q =
     (case push x q of
        None \<Rightarrow> history ops q
      | Some q' \<Rightarrow> (case history ops q' of (q'', ins, outs) \<Rightarrow> (q'', x # ins, outs)))"
| "history (None # ops) q =
     (case front q of
        None \<Rightarrow> history ops q
      | Some x \<Rightarrow> (case history ops (pop q) of (q'', ins, outs) \<Rightarrow> (q'', ins, x # outs)))"

lemma history_fifo: "history ops q = (q', ins, outs) \<Longrightarrow> contents q @ ins = outs @ contents q'"
proof (induction ops q arbitrary: q' ins outs rule: history.induct)
  case (2 x ops q)
  then show ?case
    by (fastforce dest: push_Some split: option.splits prod.splits)
next
  case (3 ops q)
  show ?case
  proof (cases "contents q")
    case Nil
    with 3 show ?thesis by (simp add: front_spec [of q])
  next
    case (Cons y ys)
    then have "front q = Some y"
      by (simp add: front_spec [of q])
    with 3 Cons show ?thesis
      by (fastforce simp: pop_spec split: prod.splits)
  qed
qed simp

lemma push_room: "push x q = Some q' \<Longrightarrow> length (contents q) < bound q"
  using push_None [of x q] by simp

lemma history_bounded:
  "history ops q = (q', ins, outs) \<Longrightarrow> length (contents q) \<le> bound q \<Longrightarrow>
   length (contents q') \<le> bound q' \<and> bound q' = bound q"
proof (induction ops q arbitrary: q' ins outs rule: history.induct)
  case (2 x ops q)
  show ?case
  proof (cases "push x q")
    case None
    with 2 show ?thesis by simp
  next
    case (Some q1)
    with 2 push_Some [OF Some] push_room [OF Some] show ?thesis
      by (fastforce split: prod.splits)
  qed
next
  case (3 ops q)
  show ?case
  proof (cases "contents q")
    case Nil
    with 3 show ?thesis by (simp add: front_spec [of q])
  next
    case (Cons y ys)
    then have "front q = Some y"
      by (simp add: front_spec [of q])
    with 3 Cons show ?thesis
      by (fastforce simp: pop_spec split: prod.splits)
  qed
qed simp

end

definition crofqueue_push :: "'m \<Rightarrow> 'm crofqueue \<Rightarrow> 'm crofqueue option" where
  "crofqueue_push msg q = (case crofqueue_store msg False q of Inl _ \<Rightarrow> None | Inr (q', _) \<Rightarrow> Some q')"

interpretation rofq: bounded_fifo queue queue_max_size crofqueue_push crofqueue_front crofqueue_pop
  by unfold_locales
    (auto simp: crofqueue_push_def crofqueue_defs Let_def split: list.splits if_splits)

section \<open>Properties\<close>

text \<open>
  A message queue is first-in first-out and bounded under every interleaving of stores and
  retrievals: what was in it followed by what was accepted is what was taken out followed by what
  is left, and without \<open>enforce\<close> it never outgrows its bound.
\<close>

lemma crofqueue_fifo:
  assumes "rofq.history ops q = (q', ins, outs)" and "length (queue q) \<le> queue_max_size q"
  shows "queue q @ ins = outs @ queue q' \<and> length (queue q') \<le> queue_max_size q' \<and>
    queue_max_size q' = queue_max_size q"
  using rofq.history_fifo [OF assms(1)] rofq.history_bounded [OF assms] by simp

lemma crofqueue_fifo_example:
  "rofq.history [Some 1, Some 2, None, Some 3, Some 4] (set_queue_max_size 2 crofqueue_new) =
     (\<lparr>queue = [2, 3], queue_max_size = 2\<rparr>, [1::nat, 2, 3], [1]) \<and>
   queue (set_queue_max_size 2 (crofqueue_new :: nat crofqueue)) @ [1, 2, 3] = [1] @ [2, 3]"
proof -
  have h: "rofq.history [Some 1, Some 2, None, Some 3, Some 4] (set_queue_max_size 2 crofqueue_new) =
     (\<lparr>queue = [2, 3], queue_max_size = 2\<rparr>, [1::nat, 2, 3], [1])"
    by (simp add: crofqueue_push_def crofqueue_defs crofqueue_new_def)
  with crofqueue_fifo [OF h] show ?thesis
    by (simp add: crofqueue_new_def set_queue_max_size_def)
qed

text \<open>
  \<open>store\<close> and \<open>capacity\<close> agree: a message is refused exactly when it is not enforced and no
  capacity is left; \<open>clear\<close> deletes every message once, in order, and leaves the queue empty with
  its bound unchanged.
\<close>

lemma crofqueue_store_capacity:
  "(crofqueue_store msg enforce q = Inl ERofQueueFull \<longleftrightarrow> \<not> enforce \<and> crofqueue_capacity q = 0) \<and>
   (\<forall>e. crofqueue_store msg enforce q = Inl e \<longrightarrow> e = ERofQueueFull) \<and>
   (\<forall>q' n. crofqueue_store msg enforce q = Inr (q', n) \<longrightarrow>
      n = crofqueue_size q' \<and> n = crofqueue_size q + 1 \<and> crofqueue_capacity q' = crofqueue_capacity q - 1) \<and>
   crofqueue_clear q = (q\<lparr>queue := []\<rparr>, queue q)"
  by (auto simp: crofqueue_clear_all crofqueue_defs Let_def split: if_splits)

lemma crofqueue_store_capacity_example:
  "crofqueue_store (9::nat) False (set_queue_max_size 1 \<lparr>queue = [8], queue_max_size = 5\<rparr>) = Inl ERofQueueFull"
  using crofqueue_store_capacity [of "9::nat" False "set_queue_max_size 1 \<lparr>queue = [8], queue_max_size = 5\<rparr>"]
  by (simp add: crofqueue_defs)

end
