(* ===== verification/Cbuffer.thy ===== *)
theory Cbuffer
  imports Rofl_Prelude
begin

text \<open>
  \<open>rofl::cbuffer\<close> (\<open>cbuffer.hpp\<close>): the memory block with a write and a read position that sockets
  receive into and send from.  \<open>content\<close> is what is written and not yet read.
\<close>

record cbuffer =
  cb_mem :: "byte list"
  cb_wbytes :: nat
  cb_rbytes :: nat

datatype whence = SEEK_SET | SEEK_CUR

definition cbuffer_new :: "nat \<Rightarrow> cbuffer" where
  "cbuffer_new len = \<lparr>cb_mem = replicate len 0, cb_wbytes = 0, cb_rbytes = 0\<rparr>"

text \<open>\<open>cmemory::resize\<close> to a larger size: new bytes are zero.\<close>

definition cb_resize :: "nat \<Rightarrow> cbuffer \<Rightarrow> cbuffer" where
  "cb_resize len b =
     (if len \<le> length (cb_mem b) then b\<lparr>cb_mem := take len (cb_mem b)\<rparr>
      else b\<lparr>cb_mem := cb_mem b @ replicate (len - length (cb_mem b)) 0\<rparr>)"

definition cb_rseek :: "nat \<Rightarrow> whence \<Rightarrow> cbuffer \<Rightarrow> cbuffer" where
  "cb_rseek offset wh b =
     (case wh of
        SEEK_SET \<Rightarrow> if offset < cb_wbytes b then b\<lparr>cb_rbytes := offset\<rparr> else b\<lparr>cb_rbytes := cb_wbytes b\<rparr>
      | SEEK_CUR \<Rightarrow>
          if cb_rbytes b + offset < cb_wbytes b then b\<lparr>cb_rbytes := cb_rbytes b + offset\<rparr>
          else b\<lparr>cb_rbytes := 0, cb_wbytes := 0\<rparr>)"

definition cb_wseek :: "nat \<Rightarrow> whence \<Rightarrow> cbuffer \<Rightarrow> cbuffer" where
  "cb_wseek offset wh b =
     (case wh of
        SEEK_SET \<Rightarrow>
          (let b1 = (if offset > length (cb_mem b) then cb_resize offset b else b)
           in cb_rseek 0 SEEK_CUR (b1\<lparr>cb_wbytes := offset\<rparr>))
      | SEEK_CUR \<Rightarrow>
          (let b1 = (if cb_wbytes b + offset > length (cb_mem b) then cb_resize (cb_wbytes b + offset) b else b)
           in b1\<lparr>cb_wbytes := cb_wbytes b1 + offset\<rparr>))"

definition cb_reset :: "cbuffer \<Rightarrow> cbuffer" where
  "cb_reset b = cb_rseek 0 SEEK_SET (cb_wseek 0 SEEK_SET b)"

definition cb_rmemlen :: "cbuffer \<Rightarrow> nat" where
  "cb_rmemlen b = cb_wbytes b - cb_rbytes b"

definition cb_wmemlen :: "cbuffer \<Rightarrow> nat" where
  "cb_wmemlen b = length (cb_mem b) - cb_wbytes b"

definition cb_empty :: "cbuffer \<Rightarrow> bool" where
  "cb_empty b \<longleftrightarrow> cb_wbytes b = cb_rbytes b"

text \<open>What a caller stores at \<open>sowmem()\<close>; the write position moves with \<open>wseek\<close> only.\<close>

definition cb_store :: "byte list \<Rightarrow> cbuffer \<Rightarrow> cbuffer" where
  "cb_store bs b =
     b\<lparr>cb_mem := take (cb_wbytes b) (cb_mem b) @ bs @ drop (cb_wbytes b + length bs) (cb_mem b)\<rparr>"

definition cb_content :: "cbuffer \<Rightarrow> byte list" where
  "cb_content b = take (cb_rmemlen b) (drop (cb_rbytes b) (cb_mem b))"

definition cb_wf :: "cbuffer \<Rightarrow> bool" where
  "cb_wf b \<longleftrightarrow> cb_rbytes b \<le> cb_wbytes b \<and> cb_wbytes b \<le> length (cb_mem b)"

lemmas cb_defs = cb_rseek_def cb_wseek_def cb_reset_def cb_rmemlen_def cb_wmemlen_def cb_empty_def
  cb_store_def cb_content_def cb_wf_def cb_resize_def

lemma cb_content_length [simp]: "cb_wf b \<Longrightarrow> length (cb_content b) = cb_rmemlen b"
  by (auto simp: cb_defs)

lemma cb_empty_content: "cb_wf b \<Longrightarrow> cb_empty b \<longleftrightarrow> cb_content b = []"
  by (auto simp: cb_defs)

lemma cb_reset_simps [simp]:
  "cb_wbytes (cb_reset b) = 0" "cb_rbytes (cb_reset b) = 0" "cb_mem (cb_reset b) = cb_mem b"
  "cb_content (cb_reset b) = []" "cb_wf (cb_reset b)"
  by (simp_all add: cb_defs)

lemma cb_new_simps [simp]: "cb_wf (cbuffer_new n)" "cb_content (cbuffer_new n) = []"
  "length (cb_mem (cbuffer_new n)) = n" "cb_rbytes (cbuffer_new n) = 0" "cb_wbytes (cbuffer_new n) = 0"
  by (simp_all add: cb_defs cbuffer_new_def)

lemma cb_write:
  assumes "cb_wf b" "length bs \<le> cb_wmemlen b"
  defines "b' \<equiv> cb_wseek (length bs) SEEK_CUR (cb_store bs b)"
  shows "cb_wf b'" "cb_content b' = cb_content b @ bs" "cb_rbytes b' = cb_rbytes b"
    "length (cb_mem b') = length (cb_mem b)"
  using assms(1,2) by (auto simp: b'_def cb_defs Let_def drop_take)

lemma cb_consume:
  assumes "cb_wf b"
  shows "cb_wf (cb_rseek n SEEK_CUR b)" "cb_content (cb_rseek n SEEK_CUR b) = drop n (cb_content b)"
    "length (cb_mem (cb_rseek n SEEK_CUR b)) = length (cb_mem b)"
  using assms by (auto simp: cb_defs drop_take add.commute)

text \<open>When the content is used up, both positions return to the start of the memory.\<close>

lemma cb_consume_all:
  assumes "cb_wf b" "cb_content (cb_rseek n SEEK_CUR b) = []"
  shows "cb_wbytes (cb_rseek n SEEK_CUR b) = 0" "cb_rbytes (cb_rseek n SEEK_CUR b) = 0"
  using assms by (auto simp: cb_defs split: if_splits)

section \<open>Properties\<close>

text \<open>
  The buffer is a byte queue: data stored at the write position and committed with \<open>wseek\<close> is
  appended to the content as long as it fits, \<open>rseek\<close> removes a prefix, \<open>reset\<close> empties it; all
  keep the buffer well formed and its memory size.
\<close>

theorem cbuffer_is_queue:
  assumes "cb_wf b" and "length bs \<le> cb_wmemlen b"
  shows "cb_content (cb_wseek (length bs) SEEK_CUR (cb_store bs b)) = cb_content b @ bs \<and>
    cb_wf (cb_wseek (length bs) SEEK_CUR (cb_store bs b)) \<and>
    cb_content (cb_rseek n SEEK_CUR b) = drop n (cb_content b) \<and> cb_wf (cb_rseek n SEEK_CUR b) \<and>
    cb_content (cb_reset b) = [] \<and> cb_wmemlen (cb_reset b) = length (cb_mem b)"
  using cb_write [OF assms] cb_consume [OF assms(1), of n] by (simp add: cb_wmemlen_def)

theorem cbuffer_is_queue_example:
  "cb_wf (cbuffer_new 4) \<and>
   cb_content (cb_wseek 2 SEEK_CUR (cb_store [7, 8] (cbuffer_new 4))) = [7, 8]"
  using cbuffer_is_queue [of "cbuffer_new 4" "[7, 8]" 0] by (simp add: cb_wmemlen_def cbuffer_new_def cb_defs)

end
