(* ===== verification/Cofhello.thy ===== *)
theory Cofhello
  imports Rofl_Prelude
begin

text \<open>
  Version negotiation data (\<open>openflow/cofhelloelemversionbitmap.cc\<close>, \<open>cofhelloelem.cc\<close>,
  \<open>cofhelloelems.cc\<close>): the bitmap of supported protocol versions a HELLO message carries, its wire
  format and the list of hello elements.

  A version bitmap element is a header (type and length, kept in the \<open>cmemory\<close> base class) and a
  vector of 32-bit words; version \<open>v\<close> is bit \<open>v mod 32\<close> of word \<open>v div 32\<close>.
\<close>

section \<open>The version bitmap\<close>

abbreviation OFP_VERSION_UNKNOWN :: u8 where "OFP_VERSION_UNKNOWN \<equiv> 0"

definition OFPHET_VERSIONBITMAP :: u16 where "OFPHET_VERSIONBITMAP = 1"

record versionbitmap =
  vb_type :: u16
  vb_length :: u16
  bitmaps :: "u32 list"

definition vb_new :: versionbitmap where
  "vb_new = \<lparr>vb_type = OFPHET_VERSIONBITMAP, vb_length = 0, bitmaps = []\<rparr>"

text \<open>The inherited \<open>cmemory::clear\<close> zeroes the header and leaves the vector alone.\<close>

definition vb_clear :: "versionbitmap \<Rightarrow> versionbitmap" where
  "vb_clear e = e\<lparr>vb_type := 0, vb_length := 0\<rparr>"

definition vb_and :: "versionbitmap \<Rightarrow> versionbitmap \<Rightarrow> versionbitmap" where
  "vb_and e f =
     (let size = (if length (bitmaps e) < length (bitmaps f) then length (bitmaps e) else length (bitmaps f))
      in vb_new\<lparr>bitmaps := map (\<lambda>i. bitmaps e ! i AND bitmaps f ! i) [0..<size]\<rparr>)"

text \<open>\<open>while (bitmaps.size() < n) bitmaps.push_back(0);\<close>\<close>

function vb_grow :: "nat \<Rightarrow> u32 list \<Rightarrow> u32 list" where
  "vb_grow n ws = (if length ws < n then vb_grow n (ws @ [0]) else ws)"
  by pat_completeness auto

termination vb_grow
  by (relation "measure (\<lambda>(n, ws). n - length ws)") auto

declare vb_grow.simps [simp del]

definition vb_add_ofp_version :: "u8 \<Rightarrow> versionbitmap \<Rightarrow> versionbitmap" where
  "vb_add_ofp_version v e =
     (let index = unat v div 32; bitpos = unat v mod 32; ws = vb_grow (index + 1) (bitmaps e)
      in e\<lparr>bitmaps := ws[index := ws ! index OR push_bit bitpos 1]\<rparr>)"

definition vb_drop_ofp_version :: "u8 \<Rightarrow> versionbitmap \<Rightarrow> versionbitmap" where
  "vb_drop_ofp_version v e =
     (let index = unat v div 32; bitpos = unat v mod 32
      in if length (bitmaps e) < index + 1 then e
         else e\<lparr>bitmaps := (bitmaps e)[index := bitmaps e ! index AND NOT (push_bit bitpos 1)]\<rparr>)"

definition vb_has_ofp_version :: "u8 \<Rightarrow> versionbitmap \<Rightarrow> bool" where
  "vb_has_ofp_version v e =
     (let index = unat v div 32; bitpos = unat v mod 32
      in if length (bitmaps e) < index + 1 then False
         else bitmaps e ! index AND push_bit bitpos 1 \<noteq> 0)"

definition vb_clear_ofp_versions :: "versionbitmap \<Rightarrow> versionbitmap" where
  "vb_clear_ofp_versions e = e\<lparr>bitmaps := map (\<lambda>_. 0) (bitmaps e)\<rparr>"

text \<open>The inner loop of \<open>get_highest_ofp_version\<close>: \<open>for (int i = 31; i >= 0; i--)\<close>.\<close>

fun vb_highest_bit :: "u32 \<Rightarrow> nat \<Rightarrow> nat option" where
  "vb_highest_bit w 0 = None"
| "vb_highest_bit w (Suc i) = (if w AND push_bit i 1 \<noteq> 0 then Some i else vb_highest_bit w i)"

text \<open>The outer loop over the words in reverse; the result is cut to \<open>uint8_t\<close>.\<close>

fun vb_highest_rev :: "u32 list \<Rightarrow> u8" where
  "vb_highest_rev [] = OFP_VERSION_UNKNOWN"
| "vb_highest_rev (w # ws) =
     (case vb_highest_bit w 32 of
        Some i \<Rightarrow> word_of_nat (length ws * 32 + i)
      | None \<Rightarrow> vb_highest_rev ws)"

definition vb_get_highest_ofp_version :: "versionbitmap \<Rightarrow> u8" where
  "vb_get_highest_ofp_version e = vb_highest_rev (rev (bitmaps e))"

section \<open>Wire format of the bitmap\<close>

definition pad8 :: "nat \<Rightarrow> nat" where
  "pad8 n = (if n mod 8 \<noteq> 0 then n + (8 - n mod 8) else n)"

definition vb_wire_length :: "versionbitmap \<Rightarrow> nat" where
  "vb_wire_length e = pad8 (4 + length (bitmaps e) * 4)"

text \<open>\<open>buf\<close> is the buffer before the call; bytes that are not written keep their value.\<close>

definition vb_pack :: "versionbitmap \<Rightarrow> byte list \<Rightarrow> (versionbitmap \<times> byte list) result" where
  "vb_pack e buf =
     (if length buf < vb_wire_length e then Inl EInvalid
      else (let e' = e\<lparr>vb_length := word_of_nat (4 + length (bitmaps e) * 4)\<rparr>;
                bytes = be16 (vb_type e') @ be16 (vb_length e') @ concat (map be32 (bitmaps e'))
            in Inr (e', bytes @ drop (length bytes) buf)))"

fun be32_words :: "byte list \<Rightarrow> u32 list" where
  "be32_words (a # b # c # d # rest) = de32 a b c d # be32_words rest"
| "be32_words _ = []"

text \<open>
  \<open>unpack(buf, buflen)\<close> with \<open>buflen\<close> the length of \<open>buf\<close>.  The words are appended to those the
  object has.
\<close>

definition vb_unpack :: "byte list \<Rightarrow> versionbitmap \<Rightarrow> versionbitmap result" where
  "vb_unpack buf e =
     (case buf of
        t0 # t1 # l0 # l1 # rest \<Rightarrow>
          (let len = unat (de16 l0 l1)
           in if length buf < len then Inl EInvalid
              else if len < 4 then Inl EOutOfBoundsRead
              else Inr \<lparr>vb_type = de16 t0 t1, vb_length = de16 l0 l1,
                        bitmaps = bitmaps e @ be32_words (take ((len - 4) div 4 * 4) rest)\<rparr>)
      | _ \<Rightarrow> Inl EInvalid)"

section \<open>The element list\<close>

text \<open>\<open>std::map<uint8_t, cofhello_elem *>\<close>; the only element type the code creates is the bitmap.\<close>

record cofhelloelems =
  hello_elems :: "(u8 \<times> versionbitmap) list"

definition helloelems_clear :: "cofhelloelems \<Rightarrow> cofhelloelems" where
  "helloelems_clear es = es\<lparr>hello_elems := []\<rparr>"

definition helloelems_length :: "cofhelloelems \<Rightarrow> nat" where
  "helloelems_length es = sum_list (map (\<lambda>p. vb_wire_length (snd p)) (hello_elems es))"

fun helloelems_pack_list :: "(u8 \<times> versionbitmap) list \<Rightarrow> byte list \<Rightarrow> ((u8 \<times> versionbitmap) list \<times> byte list) result" where
  "helloelems_pack_list [] buf = Inr ([], buf)"
| "helloelems_pack_list ((k, e) # es) buf =
     (case vb_pack e (take (vb_wire_length e) buf) of
        Inl x \<Rightarrow> Inl x
      | Inr (e', bytes) \<Rightarrow>
          (case helloelems_pack_list es (drop (vb_wire_length e) buf) of
             Inl x \<Rightarrow> Inl x
           | Inr (es', rest) \<Rightarrow> Inr ((k, e') # es', bytes @ rest)))"

definition helloelems_pack :: "cofhelloelems \<Rightarrow> byte list \<Rightarrow> (cofhelloelems \<times> byte list) result" where
  "helloelems_pack es buf =
     (if length buf < helloelems_length es then Inl EInvalid
      else case helloelems_pack_list (hello_elems es) buf of
             Inl x \<Rightarrow> Inl x
           | Inr (l, bytes) \<Rightarrow> Inr (\<lparr>hello_elems = l\<rparr>, bytes))"

definition add_hello_elem_versionbitmap :: "cofhelloelems \<Rightarrow> cofhelloelems" where
  "add_hello_elem_versionbitmap es =
     es\<lparr>hello_elems := map_put (ucast OFPHET_VERSIONBITMAP) vb_new (hello_elems es)\<rparr>"

definition set_hello_elem_versionbitmap :: "(versionbitmap \<Rightarrow> versionbitmap) \<Rightarrow> cofhelloelems \<Rightarrow> cofhelloelems" where
  "set_hello_elem_versionbitmap f es =
     (let k = ucast OFPHET_VERSIONBITMAP;
          e = (case map_of (hello_elems es) k of None \<Rightarrow> vb_new | Some e \<Rightarrow> e)
      in es\<lparr>hello_elems := map_put k (f e) (hello_elems es)\<rparr>)"

definition get_hello_elem_versionbitmap :: "cofhelloelems \<Rightarrow> versionbitmap result" where
  "get_hello_elem_versionbitmap es =
     (case map_of (hello_elems es) (ucast OFPHET_VERSIONBITMAP) of
        None \<Rightarrow> Inl EHelloElemsNotFound | Some e \<Rightarrow> Inr e)"

definition has_hello_elem_versionbitmap :: "cofhelloelems \<Rightarrow> bool" where
  "has_hello_elem_versionbitmap es \<longleftrightarrow> map_of (hello_elems es) (ucast OFPHET_VERSIONBITMAP) \<noteq> None"

definition drop_hello_elem_versionbitmap :: "cofhelloelems \<Rightarrow> cofhelloelems" where
  "drop_hello_elem_versionbitmap es =
     (if \<not> has_hello_elem_versionbitmap es then es
      else es\<lparr>hello_elems := map_erase (ucast OFPHET_VERSIONBITMAP) (hello_elems es)\<rparr>)"

text \<open>
  The loop of \<open>cofhelloelems::unpack\<close>.  \<open>mem\<close> is the readable memory from the current position on,
  \<open>buflen\<close> the remaining length as the code keeps it, a \<open>size_t\<close> that wraps below zero.  A read
  beyond \<open>mem\<close> is \<open>EOutOfBoundsRead\<close>.
\<close>

function helloelems_unpack_loop :: "byte list \<Rightarrow> u64 \<Rightarrow> cofhelloelems \<Rightarrow> cofhelloelems result" where
  "helloelems_unpack_loop mem buflen es =
     (if \<not> 4 < buflen then Inr es
      else if length mem < 4 then Inl EOutOfBoundsRead
      else (let type = de16 (mem ! 0) (mem ! 1); len = unat (de16 (mem ! 2) (mem ! 3))
            in if unat buflen < len \<or> len = 0 then Inr es
               else let step = (\<lambda>es'. helloelems_unpack_loop (drop (pad8 len) mem)
                                  (buflen - word_of_nat (pad8 len)) es')
               in if type = OFPHET_VERSIONBITMAP
                  then (if length mem < len then Inl EOutOfBoundsRead
                        else case vb_unpack (take len mem) vb_new of
                               Inl x \<Rightarrow> Inl x
                             | Inr e \<Rightarrow> step (set_hello_elem_versionbitmap (\<lambda>_. e) (add_hello_elem_versionbitmap es)))
                  else step es))"
  by pat_completeness auto

lemma pad8_ge: "n \<le> pad8 n"
  using mod_less_divisor [of 8 n] by (auto simp: pad8_def)

termination helloelems_unpack_loop
proof (relation "measure (\<lambda>(mem, _, _). length mem)", simp)
qed (use pad8_ge in \<open>auto simp: not_less intro!: diff_less intro: less_le_trans\<close>)

declare helloelems_unpack_loop.simps [simp del]

definition helloelems_unpack :: "byte list \<Rightarrow> u64 \<Rightarrow> cofhelloelems \<Rightarrow> cofhelloelems result" where
  "helloelems_unpack mem buflen es = helloelems_unpack_loop mem buflen (helloelems_clear es)"

section \<open>Lemmas\<close>

lemma vb_grow_pad: "vb_grow n ws = ws @ replicate (n - length ws) 0"
proof (induction n ws rule: vb_grow.induct)
  case (1 n ws)
  then show ?case
    by (subst vb_grow.simps) (auto simp: Suc_diff_Suc [symmetric] replicate_append_same [symmetric])
qed

lemma and_push_bit: "w AND 2 ^ i = 0 \<longleftrightarrow> \<not> bit (w :: u32) i"
  by (simp add: bit_iff_and_push_bit_not_eq_0 push_bit_eq_mult)

lemma vb_has_iff: "vb_has_ofp_version v e \<longleftrightarrow>
  unat v div 32 < length (bitmaps e) \<and> bit (bitmaps e ! (unat v div 32)) (unat v mod 32)"
  by (auto simp: vb_has_ofp_version_def Let_def and_push_bit)

text \<open>The words of a bitmap as a set of version numbers, without the cut to eight bits.\<close>

definition vb_set :: "u32 list \<Rightarrow> nat set" where
  "vb_set ws = {n. n div 32 < length ws \<and> bit (ws ! (n div 32)) (n mod 32)}"

lemma vb_has_set: "vb_has_ofp_version v e \<longleftrightarrow> unat v \<in> vb_set (bitmaps e)"
  by (simp add: vb_has_iff vb_set_def)

lemma div_mod_eq_iff: "(m = n) = (m div k = n div k \<and> m mod k = n mod (k::nat))"
  by (metis div_mult_mod_eq)

lemma vb_set_snoc: "vb_set (ws @ [w]) = vb_set ws \<union> {n. n div 32 = length ws \<and> bit w (n mod 32)}"
  by (auto simp: vb_set_def nth_append less_Suc_eq)

lemma vb_set_bounded: "n \<in> vb_set ws \<Longrightarrow> n < 32 * length ws"
  by (auto simp: vb_set_def less_mult_imp_div_less mult.commute div_less_iff_less_mult)

lemma vb_highest_bit_None: "vb_highest_bit w n = None \<longleftrightarrow> (\<forall>i < n. \<not> bit w i)"
  by (induction n) (auto simp: and_push_bit less_Suc_eq)

lemma vb_highest_bit_Some:
  "vb_highest_bit w n = Some i \<Longrightarrow> i < n \<and> bit w i \<and> (\<forall>j. i < j \<and> j < n \<longrightarrow> \<not> bit w j)"
  by (induction n) (auto simp: and_push_bit less_Suc_eq split: if_splits)

text \<open>The nested loops find the greatest member, as a natural number cut to eight bits.\<close>

lemma vb_highest_rev_spec:
  "vb_highest_rev (rev ws) = (if vb_set ws = {} then 0 else word_of_nat (Max (vb_set ws)))"
proof (induction ws rule: rev_induct)
  case Nil
  then show ?case by (simp add: vb_set_def)
next
  case (snoc w ws)
  show ?case
  proof (cases "vb_highest_bit w 32")
    case None
    then have "vb_set (ws @ [w]) = vb_set ws"
      by (auto simp: vb_set_snoc vb_highest_bit_None)
    with None snoc.IH show ?thesis by simp
  next
    case (Some i)
    note b = vb_highest_bit_Some [OF Some]
    let ?m = "length ws * 32 + i"
    have mem: "?m \<in> vb_set (ws @ [w])"
      using b by (simp add: vb_set_snoc)
    have max: "n \<le> ?m" if "n \<in> vb_set (ws @ [w])" for n
    proof (cases "n div 32 = length ws")
      case True
      with that have "bit w (n mod 32)"
        by (auto simp: vb_set_snoc dest!: vb_set_bounded)
      with b have "n mod 32 \<le> i"
        by (meson linorder_not_le mod_less_divisor zero_less_numeral)
      then show ?thesis
        using div_mult_mod_eq [of n 32] True by simp
    next
      case False
      with that show ?thesis
        by (auto simp: vb_set_snoc dest: vb_set_bounded)
    qed
    have "finite (vb_set (ws @ [w]))"
      by (rule finite_subset [of _ "{..?m}"]) (use max in auto)
    then have "Max (vb_set (ws @ [w])) = ?m"
      using mem max by (intro Max_eqI)
    then show ?thesis
      using Some mem by auto
  qed
qed

lemma finite_vb_set [simp]: "finite (vb_set ws)"
  by (rule finite_subset [of _ "{..<32 * length ws}"]) (auto dest: vb_set_bounded)

lemma vb_highest_max:
  assumes "length (bitmaps e) \<le> 8"
  shows "if \<exists>v. vb_has_ofp_version v e
    then vb_has_ofp_version (vb_get_highest_ofp_version e) e \<and>
      (\<forall>v. vb_has_ofp_version v e \<longrightarrow> v \<le> vb_get_highest_ofp_version e)
    else vb_get_highest_ofp_version e = OFP_VERSION_UNKNOWN"
proof (cases "vb_set (bitmaps e) = {}")
  case True
  then show ?thesis
    by (auto simp: vb_has_set vb_get_highest_ofp_version_def vb_highest_rev_spec)
next
  case False
  let ?m = "Max (vb_set (bitmaps e))"
  have m: "?m \<in> vb_set (bitmaps e)"
    using False by simp
  then have "?m < 256"
    using vb_set_bounded [OF m] assms by simp
  then have u: "unat (vb_get_highest_ofp_version e) = ?m"
    using False by (simp add: vb_get_highest_ofp_version_def vb_highest_rev_spec unat_of_nat)
  with m have "vb_has_ofp_version (vb_get_highest_ofp_version e) e"
    by (simp add: vb_has_set)
  moreover have "v \<le> vb_get_highest_ofp_version e" if "vb_has_ofp_version v e" for v
    using that u by (simp add: vb_has_set word_le_nat_alt)
  ultimately show ?thesis by auto
qed

lemma length_vb_and: "length (bitmaps (vb_and e f)) = min (length (bitmaps e)) (length (bitmaps f))"
  by (simp add: vb_and_def Let_def)

lemma vb_has_and: "vb_has_ofp_version v (vb_and e f) \<longleftrightarrow> vb_has_ofp_version v e \<and> vb_has_ofp_version v f"
  by (auto simp: vb_has_iff vb_and_def Let_def bit_and_iff)

lemma unat_u8: "unat (v :: u8) div 32 < 8"
proof -
  have "unat v < 256"
    using unsigned_less [of v, where 'a = nat] by simp
  then show ?thesis by simp
qed

lemma nth_pad: "i < length ws + k \<Longrightarrow> (ws @ replicate k x) ! i = (if i < length ws then ws ! i else x)"
  by (simp add: nth_append)

lemma vb_has_add: "vb_has_ofp_version v (vb_add_ofp_version v' e) \<longleftrightarrow> v = v' \<or> vb_has_ofp_version v e"
proof -
  have eq: "v = v' \<longleftrightarrow> unat v div 32 = unat v' div 32 \<and> unat v mod 32 = unat v' mod 32"
    by (metis div_mod_eq_iff word_unat_eq_iff)
  show ?thesis
    unfolding vb_has_iff vb_add_ofp_version_def Let_def vb_grow_pad eq
    by (auto simp: nth_list_update nth_pad bit_or_iff bit_exp_iff)
qed

lemma length_vb_add: "length (bitmaps e) \<le> 8 \<Longrightarrow> length (bitmaps (vb_add_ofp_version v e)) \<le> 8"
  using unat_u8 [of v] by (simp add: vb_add_ofp_version_def Let_def vb_grow_pad)

lemma vb_has_drop: "vb_has_ofp_version v (vb_drop_ofp_version v' e) \<longleftrightarrow> v \<noteq> v' \<and> vb_has_ofp_version v e"
proof -
  have eq: "v = v' \<longleftrightarrow> unat v div 32 = unat v' div 32 \<and> unat v mod 32 = unat v' mod 32"
    by (metis div_mod_eq_iff word_unat_eq_iff)
  show ?thesis
    unfolding vb_has_iff vb_drop_ofp_version_def Let_def eq
    by (auto simp: nth_list_update bit_and_iff bit_not_iff bit_exp_iff)
qed

lemma vb_has_new [simp]: "\<not> vb_has_ofp_version v vb_new"
  by (simp add: vb_has_iff vb_new_def)

lemma vb_has_clear_versions [simp]: "\<not> vb_has_ofp_version v (vb_clear_ofp_versions e)"
  by (simp add: vb_has_iff vb_clear_ofp_versions_def)

lemma vb_has_clear [simp]: "vb_has_ofp_version v (vb_clear e) = vb_has_ofp_version v e"
  by (simp add: vb_has_iff vb_clear_def)

section \<open>Round trip\<close>

lemma length_concat_be32 [simp]: "length (concat (map be32 ws)) = 4 * length ws"
  by (induction ws) simp_all

lemma be32_words_concat [simp]: "be32_words (concat (map be32 ws)) = ws"
  by (induction ws) (simp_all add: be32_def)

lemma pad8_mult: "8 dvd n \<Longrightarrow> m \<le> n \<Longrightarrow> pad8 m \<le> n"
  by (auto simp: pad8_def elim!: dvdE) presburger

lemma pad8_dvd: "8 dvd pad8 n"
  by (simp add: pad8_def) presburger

lemma pad8_bound: "pad8 n \<le> n + 7"
  by (simp add: pad8_def) presburger

lemma vb_pack_bytes:
  "vb_pack e buf = Inr (e', bytes) \<Longrightarrow>
   e' = e\<lparr>vb_length := word_of_nat (4 + length (bitmaps e) * 4)\<rparr> \<and> vb_wire_length e \<le> length buf \<and>
   bytes = be16 (vb_type e) @ be16 (vb_length e') @ concat (map be32 (bitmaps e)) @
     drop (4 + 4 * length (bitmaps e)) buf"
  by (auto simp: vb_pack_def Let_def eval_nat_numeral split: if_splits)

lemma unat_of_nat_u16: "n < 2 ^ 16 \<Longrightarrow> w = word_of_nat n \<Longrightarrow> unat (w :: u16) = n"
  by (simp add: unat_of_nat)

lemma vb_unpack_bytes:
  assumes "4 + length (bitmaps e) * 4 < 2 ^ 16" "vb_length e = word_of_nat (4 + length (bitmaps e) * 4)"
  shows "vb_unpack (be16 (vb_type e) @ be16 (vb_length e) @ concat (map be32 (bitmaps e))) vb_new = Inr e"
proof -
  have "unat (vb_length e) = 4 + length (bitmaps e) * 4"
    by (rule unat_of_nat_u16 [OF assms])
  then show ?thesis
    by (cases e) (simp add: vb_unpack_def be16_def vb_new_def Let_def mult.commute)
qed

lemma helloelems_unpack_one:
  assumes len: "4 + length (bitmaps e) * 4 < 2 ^ 15" "vb_length e = word_of_nat (4 + length (bitmaps e) * 4)"
    and type: "vb_type e = OFPHET_VERSIONBITMAP" and ne: "bitmaps e \<noteq> []"
    and mem: "mem = be16 (vb_type e) @ be16 (vb_length e) @ concat (map be32 (bitmaps e)) @ pad"
    and pad: "length mem = vb_wire_length e"
  shows "helloelems_unpack mem (word_of_nat (length mem)) es = Inr \<lparr>hello_elems = [(1, e)]\<rparr>"
proof -
  let ?n = "4 + length (bitmaps e) * 4"
  have un: "unat (vb_length e) = ?n"
    by (rule unat_of_nat_u16 [OF _ len(2)]) (use len(1) in simp)
  have mn: "length mem = pad8 ?n"
    using pad by (simp add: vb_wire_length_def)
  have b: "pad8 ?n < 2 ^ 16" "?n \<le> pad8 ?n"
    using pad8_bound [of ?n] pad8_ge [of ?n] len by simp_all
  have ub: "unat (word_of_nat (length mem) :: u64) = pad8 ?n"
    using b by (simp add: mn unat_of_nat)
  have hd: "de16 (mem ! 0) (mem ! 1) = OFPHET_VERSIONBITMAP" "unat (de16 (mem ! 2) (mem ! 3)) = ?n"
    using un type by (simp_all add: mem be16_def numeral_2_eq_2 numeral_3_eq_3)
  have tk: "take ?n mem = be16 (vb_type e) @ be16 (vb_length e) @ concat (map be32 (bitmaps e))"
    by (simp add: mem)
  have "(4 :: u64) < word_of_nat (length mem)"
    using ub b ne by (cases "bitmaps e") (simp_all add: word_less_nat_alt)
  moreover have "\<not> length mem < ?n" "\<not> length mem < 4"
    using mn b by simp_all
  moreover have "helloelems_unpack_loop [] 0 es' = Inr es'" for es'
    by (simp add: helloelems_unpack_loop.simps)
  ultimately show ?thesis
    unfolding helloelems_unpack_def
    by (subst helloelems_unpack_loop.simps)
      (use vb_unpack_bytes [of e] len ub hd tk mn b in \<open>simp add: Let_def helloelems_clear_def
        set_hello_elem_versionbitmap_def add_hello_elem_versionbitmap_def OFPHET_VERSIONBITMAP_def\<close>)
qed

lemma helloelems_pack_unpack:
  assumes "hello_elems es = [(1, e)]" and "vb_type e = OFPHET_VERSIONBITMAP" and "bitmaps e \<noteq> []"
    and "4 + length (bitmaps e) * 4 < 2 ^ 15" and "length buf = helloelems_length es"
  shows "\<exists>es' bytes. helloelems_pack es buf = Inr (es', bytes) \<and> length bytes = helloelems_length es \<and>
    helloelems_unpack bytes (word_of_nat (length bytes)) es0 = Inr es' \<and>
    hello_elems es' = [(1, e\<lparr>vb_length := word_of_nat (4 + length (bitmaps e) * 4)\<rparr>)]"
proof -
  let ?n = "4 + length (bitmaps e) * 4"
  let ?e = "e\<lparr>vb_length := word_of_nat ?n\<rparr>"
  let ?bytes = "be16 (vb_type ?e) @ be16 (vb_length ?e) @ concat (map be32 (bitmaps ?e)) @ drop ?n buf"
  have lb: "length buf = vb_wire_length e" "?n \<le> length buf"
    using assms(1,5) pad8_ge [of ?n] by (simp_all add: helloelems_length_def vb_wire_length_def)
  then have "helloelems_pack es buf = Inr (\<lparr>hello_elems = [(1, ?e)]\<rparr>, ?bytes)"
    using assms(1) by (simp add: helloelems_pack_def helloelems_length_def vb_pack_def Let_def eval_nat_numeral)
  moreover have len: "length ?bytes = vb_wire_length ?e"
    using lb by (simp add: vb_wire_length_def)
  moreover have "helloelems_unpack ?bytes (word_of_nat (length ?bytes)) es0 = Inr \<lparr>hello_elems = [(1, ?e)]\<rparr>"
    by (rule helloelems_unpack_one [OF _ _ _ _ refl len]) (use assms in simp_all)
  ultimately show ?thesis
    using assms(5) lb by (simp add: vb_wire_length_def)
qed

lemma vb_unpack_total:
  assumes "length mem = n" "len = unat (de16 (mem ! 2) (mem ! 3))" "4 \<le> len" "len \<le> n"
  shows "\<exists>e. vb_unpack (take len mem) vb_new = Inr e"
proof (cases mem rule: be32_words.cases)
  case (1 a b c d rest)
  obtain k where k: "len = Suc (Suc (Suc (Suc k)))"
    using assms(3) by (metis add_2_eq_Suc le_Suc_ex numeral_Bit0 add.assoc numeral_One one_add_one plus_1_eq_Suc)
  have "take len mem = a # b # c # d # take k rest"
    by (simp add: 1 k)
  moreover have "unat (de16 c d) = len"
    using assms(2) by (simp add: 1 numeral_2_eq_2 numeral_3_eq_3)
  moreover have "k \<le> length rest"
    using assms(1,4) by (simp add: 1 k)
  ultimately show ?thesis
    by (simp add: vb_unpack_def Let_def k)
qed (use assms in simp_all)

lemma wrap_below:
  assumes "unat b < p" "p \<le> unat b + 7" "p < 2 ^ 17"
  shows "(4 :: u64) < b - word_of_nat p"
proof -
  have "unat (b - word_of_nat p) = 2 ^ 64 - (p - unat b)"
    using assms by (subst unat_sub_if') (simp add: word_le_nat_alt unat_of_nat)
  then show ?thesis
    using assms by (simp add: word_less_nat_alt)
qed

lemma vb_unpack_short: "length buf < 4 \<Longrightarrow> vb_unpack buf e = Inl EInvalid"
  by (cases buf rule: be32_words.cases) (simp_all add: vb_unpack_def)

lemma vb_unpack_take:
  assumes "unat (de16 (mem ! 2) (mem ! 3)) \<le> length mem"
  shows "vb_unpack (take (unat (de16 (mem ! 2) (mem ! 3))) mem) vb_new \<noteq> Inl EOutOfBoundsRead"
proof (cases "unat (de16 (mem ! 2) (mem ! 3)) < 4")
  case True
  then show ?thesis
    by (subst vb_unpack_short) simp_all
next
  case False
  then show ?thesis
    using vb_unpack_total [OF refl refl, of mem] assms by auto
qed

lemma helloelems_unpack_step:
  assumes "4 < buflen" "unat buflen \<le> length mem" "len = unat (de16 (mem ! 2) (mem ! 3))"
    "len \<le> unat buflen" "0 < len"
  shows "helloelems_unpack_loop mem buflen es =
    (let next = helloelems_unpack_loop (drop (pad8 len) mem) (buflen - word_of_nat (pad8 len))
     in if de16 (mem ! 0) (mem ! 1) = OFPHET_VERSIONBITMAP
        then (case vb_unpack (take len mem) vb_new of Inl x \<Rightarrow> Inl x
              | Inr e \<Rightarrow> next (set_hello_elem_versionbitmap (\<lambda>_. e) (add_hello_elem_versionbitmap es)))
        else next es)"
proof -
  have "4 < unat buflen"
    using assms(1) by (simp add: word_less_nat_alt)
  then have "\<not> length mem < 4" "\<not> length mem < len" "\<not> (unat buflen < len \<or> len = 0)"
    using assms by simp_all
  then show ?thesis
    by (subst helloelems_unpack_loop.simps) (simp add: Let_def assms(1) assms(3) [symmetric])
qed

lemma helloelems_unpack_loop_safe:
  "8 dvd unat buflen \<Longrightarrow> unat buflen \<le> length mem \<Longrightarrow>
   helloelems_unpack_loop mem buflen es \<noteq> Inl EOutOfBoundsRead"
proof (induction mem buflen es rule: helloelems_unpack_loop.induct)
  case (1 mem buflen es)
  let ?len = "unat (de16 (mem ! 2) (mem ! 3))"
  show ?case
  proof (cases "4 < buflen \<and> ?len \<le> unat buflen \<and> 0 < ?len")
    case False
    then show ?thesis
      using 1(3) by (subst helloelems_unpack_loop.simps) (auto simp: Let_def word_less_nat_alt)
  next
    case True
    have pad: "pad8 ?len \<le> unat buflen"
      using pad8_mult [OF 1(2)] True by simp
    then have "unat (word_of_nat (pad8 ?len) :: u64) = pad8 ?len"
      using unsigned_less [of buflen, where 'a = nat] by (simp add: unat_of_nat)
    then have "unat (buflen - word_of_nat (pad8 ?len)) = unat buflen - pad8 ?len"
      using pad by (subst unat_sub) (simp_all add: word_le_nat_alt)
    then have prem: "8 dvd unat (buflen - word_of_nat (pad8 ?len))"
        "unat (buflen - word_of_nat (pad8 ?len)) \<le> length (drop (pad8 ?len) mem)"
      using 1(2,3) pad8_dvd [of ?len] by (simp_all add: dvd_diff_nat)
    have n: "\<not> \<not> 4 < buflen" "\<not> length mem < 4" "\<not> (unat buflen < ?len \<or> ?len = 0)"
      using True 1(3) by (auto simp: word_less_nat_alt)
    have vb: "vb_unpack (take ?len mem) vb_new \<noteq> Inl EOutOfBoundsRead"
      using True 1(3) by (intro vb_unpack_take) simp
    show ?thesis
      unfolding helloelems_unpack_step [OF conjunct1 [OF True] 1(3) refl
          conjunct1 [OF conjunct2 [OF True]] conjunct2 [OF conjunct2 [OF True]]] Let_def
      using vb 1(1) [OF n(1,2) refl refl n(3) prem] by (auto split: sum.splits)
  qed
qed

section \<open>Version sets: the contract negotiation relies on\<close>

text \<open>
  \<open>has\<close> is membership, \<open>inter\<close> the versions two sides share, \<open>highest\<close> the greatest of a set;
  \<open>small\<close> says that every version fits the protocol's eight bits.
\<close>

locale version_set =
  fixes small :: "'s \<Rightarrow> bool"
    and has :: "u8 \<Rightarrow> 's \<Rightarrow> bool"
    and inter :: "'s \<Rightarrow> 's \<Rightarrow> 's"
    and highest :: "'s \<Rightarrow> u8"
  assumes has_inter: "has v (inter a b) = (has v a \<and> has v b)"
    and small_inter: "small a \<or> small b \<Longrightarrow> small (inter a b)"
    and highest_has: "small a \<Longrightarrow> has v a \<Longrightarrow> has (highest a) a"
    and highest_ge: "small a \<Longrightarrow> has v a \<Longrightarrow> v \<le> highest a"
    and highest_none: "small a \<Longrightarrow> (\<And>v. \<not> has v a) \<Longrightarrow> highest a = OFP_VERSION_UNKNOWN"
begin

lemma negotiated_common:
  assumes "small a \<or> small b" "has v a" "has v b"
  shows "has (highest (inter a b)) a" "has (highest (inter a b)) b" "v \<le> highest (inter a b)"
  using highest_has [OF small_inter [OF assms(1)]] highest_ge [OF small_inter [OF assms(1)]] assms
  by (auto simp: has_inter)

lemma negotiated_unknown:
  assumes "small a \<or> small b" "\<And>v. \<not> (has v a \<and> has v b)"
  shows "highest (inter a b) = OFP_VERSION_UNKNOWN"
  using assms highest_none [OF small_inter] by (simp add: has_inter)

text \<open>Both ends of a connection compute the same version.\<close>

lemma negotiated_sym:
  assumes sm: "small a \<or> small b"
  shows "highest (inter a b) = highest (inter b a)"
proof (cases "\<exists>v. has v a \<and> has v b")
  case True
  then obtain v where "has v a" "has v b" by blast
  moreover from sm have sm': "small b \<or> small a" by blast
  ultimately show ?thesis
    using negotiated_common [OF sm] negotiated_common [OF sm'] by (meson order_antisym)
next
  case False
  then have "highest (inter a b) = OFP_VERSION_UNKNOWN" "highest (inter b a) = OFP_VERSION_UNKNOWN"
    using sm by (auto intro!: negotiated_unknown)
  then show ?thesis by simp
qed

end

definition vb_small :: "versionbitmap \<Rightarrow> bool" where
  "vb_small e \<longleftrightarrow> length (bitmaps e) \<le> 8"

interpretation vb: version_set vb_small vb_has_ofp_version vb_and vb_get_highest_ofp_version
proof
  fix a b :: versionbitmap and v
  show "vb_has_ofp_version v (vb_and a b) = (vb_has_ofp_version v a \<and> vb_has_ofp_version v b)"
    by (rule vb_has_and)
  show "vb_small a \<or> vb_small b \<Longrightarrow> vb_small (vb_and a b)"
    by (auto simp: vb_small_def length_vb_and)
  show "vb_small a \<Longrightarrow> vb_has_ofp_version v a \<Longrightarrow> vb_has_ofp_version (vb_get_highest_ofp_version a) a"
    using vb_highest_max [of a] by (auto simp: vb_small_def split: if_splits)
  show "vb_small a \<Longrightarrow> vb_has_ofp_version v a \<Longrightarrow> v \<le> vb_get_highest_ofp_version a"
    using vb_highest_max [of a] by (auto simp: vb_small_def split: if_splits)
  show "vb_small a \<Longrightarrow> (\<And>v. \<not> vb_has_ofp_version v a) \<Longrightarrow> vb_get_highest_ofp_version a = OFP_VERSION_UNKNOWN"
    using vb_highest_max [of a] by (auto simp: vb_small_def split: if_splits)
qed

section \<open>Properties\<close>

text \<open>
  C40: the version bitmap is a set of protocol versions: adding, dropping, intersecting and
  clearing versions have exactly the effect of the set operations on membership; the inherited
  \<open>clear\<close> however removes no version.
\<close>

theorem versionbitmap_is_set:
  "vb_has_ofp_version v (vb_add_ofp_version w e) = (v = w \<or> vb_has_ofp_version v e) \<and>
   vb_has_ofp_version v (vb_drop_ofp_version w e) = (v \<noteq> w \<and> vb_has_ofp_version v e) \<and>
   vb_has_ofp_version v (vb_and e f) = (vb_has_ofp_version v e \<and> vb_has_ofp_version v f) \<and>
   \<not> vb_has_ofp_version v (vb_clear_ofp_versions e) \<and>
   vb_has_ofp_version v (vb_clear e) = vb_has_ofp_version v e"
  by (simp add: vb_has_add vb_has_drop vb_has_and)

text \<open>
  Version negotiation.  If one side's bitmap has at most eight words (every bitmap built with
  \<open>add_ofp_version\<close> has), the highest version of the intersection is the greatest version both
  sides support, it is \<open>OFP_VERSION_UNKNOWN\<close> if they share none, and both sides compute the same.
\<close>

theorem negotiation_highest_common:
  assumes "vb_small a"
  shows "(\<forall>v. vb_has_ofp_version v a \<and> vb_has_ofp_version v b \<longrightarrow>
      vb_has_ofp_version (vb_get_highest_ofp_version (vb_and a b)) a \<and>
      vb_has_ofp_version (vb_get_highest_ofp_version (vb_and a b)) b \<and>
      v \<le> vb_get_highest_ofp_version (vb_and a b)) \<and>
    ((\<nexists>v. vb_has_ofp_version v a \<and> vb_has_ofp_version v b) \<longrightarrow>
      vb_get_highest_ofp_version (vb_and a b) = OFP_VERSION_UNKNOWN) \<and>
    vb_get_highest_ofp_version (vb_and a b) = vb_get_highest_ofp_version (vb_and b a)"
proof -
  from assms have sm: "vb_small a \<or> vb_small b" ..
  show ?thesis
    using vb.negotiated_common [OF sm] vb.negotiated_unknown [OF sm] vb.negotiated_sym [OF sm] by auto
qed

theorem negotiation_highest_common_example:
  "vb_small (vb_add_ofp_version 4 (vb_add_ofp_version 1 vb_new)) \<and>
   vb_get_highest_ofp_version (vb_and (vb_add_ofp_version 4 (vb_add_ofp_version 1 vb_new))
     (vb_add_ofp_version 4 (vb_add_ofp_version 200 vb_new))) \<ge> 4"
proof -
  have "vb_small (vb_add_ofp_version 4 (vb_add_ofp_version 1 vb_new))"
    by (simp add: vb_small_def length_vb_add vb_new_def)
  moreover have "vb_has_ofp_version 4 (vb_add_ofp_version 4 (vb_add_ofp_version 1 vb_new)) \<and>
      vb_has_ofp_version 4 (vb_add_ofp_version 4 (vb_add_ofp_version 200 vb_new))"
    by (simp add: vb_has_add)
  ultimately show ?thesis
    using negotiation_highest_common [of "vb_add_ofp_version 4 (vb_add_ofp_version 1 vb_new)"
        "vb_add_ofp_version 4 (vb_add_ofp_version 200 vb_new)"] by meson
qed

text \<open>
  Round trip of the hello elements: what \<open>pack\<close> writes for a bitmap with at least one word,
  \<open>unpack\<close> reads back, padding included.
\<close>

theorem helloelems_roundtrip:
  assumes "hello_elems es = [(1, e)]" and "vb_type e = OFPHET_VERSIONBITMAP" and "bitmaps e \<noteq> []"
    and "4 + length (bitmaps e) * 4 < 2 ^ 15" and "length buf = helloelems_length es"
  shows "\<exists>es' bytes. helloelems_pack es buf = Inr (es', bytes) \<and> length bytes = helloelems_length es \<and>
    helloelems_unpack bytes (word_of_nat (length bytes)) es0 = Inr es' \<and>
    bitmaps (snd (hd (hello_elems es'))) = bitmaps e"
  using helloelems_pack_unpack [OF assms] by fastforce

theorem helloelems_roundtrip_example:
  "\<exists>es' bytes. helloelems_pack \<lparr>hello_elems = [(1, vb_new\<lparr>bitmaps := [0x12]\<rparr>)]\<rparr> (replicate 8 0) = Inr (es', bytes) \<and>
     helloelems_unpack bytes (word_of_nat (length bytes)) \<lparr>hello_elems = []\<rparr> = Inr es' \<and>
     bitmaps (snd (hd (hello_elems es'))) = [0x12]"
  using helloelems_roundtrip [of "\<lparr>hello_elems = [(1, vb_new\<lparr>bitmaps := [0x12]\<rparr>)]\<rparr>"
      "vb_new\<lparr>bitmaps := [0x12]\<rparr>" "replicate 8 0" "\<lparr>hello_elems = []\<rparr>"]
  by (auto simp: vb_new_def helloelems_length_def vb_wire_length_def pad8_def)

text \<open>
  C32: reading hello elements stays inside the message whenever the remaining length is a multiple
  of eight, whatever the peer sent: no element header and no element body is read beyond it.
\<close>

theorem helloelems_unpack_safe:
  assumes "8 dvd unat buflen" and "unat buflen \<le> length mem"
  shows "helloelems_unpack mem buflen es \<noteq> Inl EOutOfBoundsRead"
  unfolding helloelems_unpack_def by (rule helloelems_unpack_loop_safe [OF assms])

theorem helloelems_unpack_safe_witness:
  "8 dvd unat (8 :: u64) \<and>
   helloelems_unpack [0, 1, 0, 8, 0, 0, 0, 18] 8 \<lparr>hello_elems = []\<rparr> \<noteq> Inl EOutOfBoundsRead"
  using helloelems_unpack_safe [of 8 "[0, 1, 0, 8, 0, 0, 0, 18]" "\<lparr>hello_elems = []\<rparr>"] by simp

text \<open>
  And only then.  An element whose length fits the message but whose padded length does not
  makes the remaining length wrap around below zero, and the loop reads the next element header
  beyond the end of the message.
\<close>

theorem helloelems_unpack_overruns:
  assumes "length mem = unat buflen" and "4 < buflen" and "len = unat (de16 (mem ! 2) (mem ! 3))"
    and "4 \<le> len" and "len \<le> unat buflen" and "unat buflen < pad8 len"
  shows "helloelems_unpack mem buflen es = Inl EOutOfBoundsRead"
proof -
  have n: "4 < unat buflen"
    using assms(2) by (simp add: word_less_nat_alt)
  have pad: "pad8 len \<le> unat buflen + 7"
    using pad8_bound [of len] assms(5) by simp
  have "len < 2 ^ 16"
    using assms(3) unsigned_less [of "de16 (mem ! 2) (mem ! 3)", where 'a = nat] by simp
  then have "pad8 len < 2 ^ 17"
    using pad8_bound [of len] by simp
  then have "(4 :: u64) < buflen - word_of_nat (pad8 len)"
    using wrap_below [OF assms(6) pad] by simp
  then have "helloelems_unpack_loop [] (buflen - word_of_nat (pad8 len)) es' = Inl EOutOfBoundsRead" for es'
    by (subst helloelems_unpack_loop.simps) simp
  moreover obtain e where "vb_unpack (take len mem) vb_new = Inr e"
    using vb_unpack_total [OF assms(1,3,4,5)] by blast
  moreover have "drop (pad8 len) mem = []"
    using assms(1,6) by simp
  moreover have "0 < len" "unat buflen \<le> length mem"
    using assms(1,4) by simp_all
  ultimately show ?thesis
    unfolding helloelems_unpack_def
    by (subst helloelems_unpack_step [OF assms(2) _ assms(3,5)]) (simp_all add: Let_def)
qed

theorem helloelems_unpack_overruns_example:
  "helloelems_unpack [0, 1, 0, 12, 0, 0, 0, 18, 0, 0, 0, 0] 12 \<lparr>hello_elems = []\<rparr> = Inl EOutOfBoundsRead"
proof -
  have "de16 0 12 = (12 :: u16)"
    by (simp add: de16_def)
  then show ?thesis
    by (intro helloelems_unpack_overruns [where len = 12]) (simp_all add: pad8_def numeral_3_eq_3)
qed

end
