(* ===== verification/Cofmsg.thy ===== *)
theory Cofmsg
  imports Cofhello
begin

text \<open>
  OpenFlow messages as the transport layer sees them (\<open>openflow/messages/cofmsg.cc\<close>,
  \<open>cofmsg_stats.cc\<close>, \<open>cofmsg_hello.cc\<close> and the parsers of \<open>crofsock.cc\<close>): the message header, the
  multipart header, HELLO bodies, and the tables by which a received message is given its class.

  A message object is one record.  Its dynamic class is the field \<open>msg_class\<close>; the fields of the
  subclasses that sockets, segments and connections look into are fields of the record: the
  multipart type and flags, the statistics arrays (\<open>'e\<close> is the type of an array entry; queue
  statistics are a map of maps), the hello elements, the error type and code, the auxiliary and
  the datapath id, and the data of error and echo messages.
  \<open>msg_ptr\<close> is the object's address, so that ownership (\<open>delete\<close>) can be followed.
\<close>

section \<open>Versions, message types and classes\<close>

definition OFP10_VERSION :: u8 where "OFP10_VERSION = 1"
definition OFP12_VERSION :: u8 where "OFP12_VERSION = 3"
definition OFP13_VERSION :: u8 where "OFP13_VERSION = 4"

abbreviation OFPT_HELLO :: u8 where "OFPT_HELLO \<equiv> 0"
definition OFPT10_STATS_REQUEST :: u8 where "OFPT10_STATS_REQUEST = 16"
definition OFPT10_STATS_REPLY :: u8 where "OFPT10_STATS_REPLY = 17"
definition OFPT_MULTIPART_REQUEST :: u8 where "OFPT_MULTIPART_REQUEST = 18"
definition OFPT_MULTIPART_REPLY :: u8 where "OFPT_MULTIPART_REPLY = 19"

definition OFPMPF_REQ_MORE :: u16 where "OFPMPF_REQ_MORE = 1"
definition OFPMPF_REPLY_MORE :: u16 where "OFPMPF_REPLY_MORE = 1"

lemmas ofp_constants = OFP10_VERSION_def OFP12_VERSION_def OFP13_VERSION_def
  OFPT10_STATS_REQUEST_def OFPT10_STATS_REPLY_def OFPT_MULTIPART_REQUEST_def OFPT_MULTIPART_REPLY_def
  OFPMPF_REQ_MORE_def OFPMPF_REPLY_MORE_def

text \<open>\<open>Stats_base\<close>: an object of the base class \<open>cofmsg_stats_request\<close> or \<open>cofmsg_stats_reply\<close>.\<close>

datatype stats_kind =
    Stats_desc | Stats_flow | Stats_aggr | Stats_table | Stats_port | Stats_queue | Stats_group
  | Stats_group_desc | Stats_group_features | Stats_meter | Stats_meter_config
  | Stats_meter_features | Stats_table_features | Stats_port_desc | Stats_experimenter | Stats_base

datatype msg_class =
    Cofmsg_hello | Cofmsg_error | Cofmsg_echo_request | Cofmsg_echo_reply | Cofmsg_experimenter
  | Cofmsg_features_request | Cofmsg_features_reply | Cofmsg_get_config_request
  | Cofmsg_get_config_reply | Cofmsg_set_config | Cofmsg_packet_in | Cofmsg_flow_removed
  | Cofmsg_port_status | Cofmsg_packet_out | Cofmsg_flow_mod | Cofmsg_group_mod | Cofmsg_port_mod
  | Cofmsg_table_mod | Cofmsg_stats_request stats_kind | Cofmsg_stats_reply stats_kind
  | Cofmsg_barrier_request | Cofmsg_barrier_reply | Cofmsg_queue_get_config_request
  | Cofmsg_queue_get_config_reply | Cofmsg_role_request | Cofmsg_role_reply
  | Cofmsg_get_async_config_request | Cofmsg_get_async_config_reply | Cofmsg_set_async_config
  | Cofmsg_meter_mod

record 'e cofmsg =
  msg_ptr :: nat
  msg_class :: msg_class
  msg_version :: u8
  msg_type :: u8
  msg_len :: u16
  msg_xid :: u32
  msg_stats_type :: u16
  msg_stats_flags :: u16
  msg_array :: "(u32 \<times> 'e) list"
  msg_queues :: "(u32 \<times> (u32 \<times> 'e) list) list"
  msg_hello :: cofhelloelems
  msg_err_type :: u16
  msg_err_code :: u16
  msg_auxid :: u8
  msg_dpid :: u64
  msg_body :: "byte list"

text \<open>
  The constructors \<open>cofmsg(version, type, xid)\<close> and \<open>cofmsg_error(version, xid, err_type, err_code, data)\<close>;
  \<open>addr\<close> is the address of the new object.
\<close>

definition cofmsg_new :: "nat \<Rightarrow> msg_class \<Rightarrow> u8 \<Rightarrow> u8 \<Rightarrow> u32 \<Rightarrow> 'e cofmsg" where
  "cofmsg_new addr cls v t xid =
     \<lparr>msg_ptr = addr, msg_class = cls, msg_version = v, msg_type = t, msg_len = 8, msg_xid = xid,
      msg_stats_type = 0, msg_stats_flags = 0, msg_array = [], msg_queues = [], msg_hello = \<lparr>hello_elems = []\<rparr>,
      msg_err_type = 0, msg_err_code = 0, msg_auxid = 0, msg_dpid = 0, msg_body = []\<rparr>"

definition cofmsg_error_new :: "nat \<Rightarrow> u8 \<Rightarrow> u32 \<Rightarrow> u16 \<Rightarrow> u16 \<Rightarrow> byte list \<Rightarrow> 'e cofmsg" where
  "cofmsg_error_new addr v xid err_type err_code data =
     (cofmsg_new addr Cofmsg_error v 1 xid)\<lparr>msg_err_type := err_type, msg_err_code := err_code, msg_body := data\<rparr>"

fun is_stats_request :: "msg_class \<Rightarrow> bool" where
  "is_stats_request (Cofmsg_stats_request k) = True"
| "is_stats_request _ = False"

fun is_stats_reply :: "msg_class \<Rightarrow> bool" where
  "is_stats_reply (Cofmsg_stats_reply k) = True"
| "is_stats_reply _ = False"

section \<open>The message header\<close>

definition ofp_header_bytes :: "u8 \<Rightarrow> u8 \<Rightarrow> u16 \<Rightarrow> u32 \<Rightarrow> byte list" where
  "ofp_header_bytes v t len xid = [v, t] @ be16 len @ be32 xid"

text \<open>
  \<open>cofmsg::pack\<close>: \<open>wlen\<close> is the result of the virtual \<open>length()\<close>, \<open>buf\<close> the buffer; an empty buffer
  stands for a null pointer or length zero.
\<close>

definition cofmsg_pack :: "nat \<Rightarrow> 'e cofmsg \<Rightarrow> byte list \<Rightarrow> ('e cofmsg \<times> byte list) result" where
  "cofmsg_pack wlen msg buf =
     (let msg' = msg\<lparr>msg_len := word_of_nat wlen\<rparr>
      in if buf = [] then Inr (msg', [])
         else if length buf < 8 then Inl EInvalid
         else Inr (msg', ofp_header_bytes (msg_version msg') (msg_type msg') (msg_len msg') (msg_xid msg')
                           @ replicate (length buf - 8) 0))"

definition cofmsg_unpack :: "byte list \<Rightarrow> 'e cofmsg \<Rightarrow> 'e cofmsg result" where
  "cofmsg_unpack buf msg =
     (if buf = [] then Inr msg
      else case buf of
        v # t # l0 # l1 # x0 # x1 # x2 # x3 # _ \<Rightarrow>
          (let len = de16 l0 l1
           in if unat len < 8 then Inl EBadRequestBadLen
              else if length buf < unat len then Inl EBadRequestBadLen
              else Inr (msg\<lparr>msg_version := v, msg_type := t, msg_len := len, msg_xid := de32 x0 x1 x2 x3\<rparr>))
      | _ \<Rightarrow> Inl EBadRequestBadLen)"

section \<open>The multipart header\<close>

definition cofmsg_stats_length :: "'e cofmsg \<Rightarrow> nat" where
  "cofmsg_stats_length msg = (if msg_version msg = OFP10_VERSION then 12 else 16)"

definition cofmsg_stats_request_pack :: "nat \<Rightarrow> 'e cofmsg \<Rightarrow> byte list \<Rightarrow> ('e cofmsg \<times> byte list) result" where
  "cofmsg_stats_request_pack wlen msg buf =
     (case cofmsg_pack wlen msg buf of
        Inl e \<Rightarrow> Inl e
      | Inr (msg', bytes) \<Rightarrow>
          if buf = [] then Inr (msg', bytes)
          else if length buf < cofmsg_stats_length msg' then Inl EInvalid
          else Inr (msg', take 8 bytes @ be16 (msg_stats_type msg') @ be16 (msg_stats_flags msg') @ drop 12 bytes))"

definition cofmsg_stats_request_unpack :: "byte list \<Rightarrow> 'e cofmsg \<Rightarrow> 'e cofmsg result" where
  "cofmsg_stats_request_unpack buf msg =
     (case cofmsg_unpack buf msg of
        Inl e \<Rightarrow> Inl e
      | Inr msg1 \<Rightarrow>
          if buf = [] then Inr msg1
          else if length buf < cofmsg_stats_length msg1 then Inl EBadRequestBadLen
          else if msg_type msg1 \<noteq> (if msg_version msg1 = OFP10_VERSION then OFPT10_STATS_REQUEST
                                    else OFPT_MULTIPART_REQUEST) then Inl EBadRequestBadType
          else (let msg2 = msg1\<lparr>msg_stats_type := de16 (buf ! 8) (buf ! 9),
                                msg_stats_flags := de16 (buf ! 10) (buf ! 11)\<rparr>
                in if unat (msg_len msg2) < cofmsg_stats_length msg2 then Inl EBadRequestBadLen
                   else Inr msg2))"

section \<open>HELLO\<close>

definition cofmsg_hello_length :: "'e cofmsg \<Rightarrow> nat" where
  "cofmsg_hello_length msg = 8 + helloelems_length (msg_hello msg)"

definition cofmsg_hello_pack :: "'e cofmsg \<Rightarrow> byte list \<Rightarrow> ('e cofmsg \<times> byte list) result" where
  "cofmsg_hello_pack msg buf =
     (case cofmsg_pack (cofmsg_hello_length msg) msg buf of
        Inl e \<Rightarrow> Inl e
      | Inr (msg', bytes) \<Rightarrow>
          if buf = [] then Inr (msg', bytes)
          else if length buf < unat (msg_len msg') then Inl EInvalid
          else (case helloelems_pack (msg_hello msg') (drop 8 bytes) of
                  Inl e \<Rightarrow> Inl e
                | Inr (es, body) \<Rightarrow> Inr (msg'\<lparr>msg_hello := es\<rparr>, take 8 bytes @ body)))"

text \<open>\<open>buf\<close> is the whole message; nothing beyond it is readable.\<close>

definition cofmsg_hello_unpack :: "byte list \<Rightarrow> 'e cofmsg \<Rightarrow> 'e cofmsg result" where
  "cofmsg_hello_unpack buf msg =
     (case cofmsg_unpack buf msg of
        Inl e \<Rightarrow> Inl e
      | Inr msg1 \<Rightarrow>
          (let msg2 = msg1\<lparr>msg_hello := helloelems_clear (msg_hello msg1)\<rparr>
           in if buf = [] then Inr msg2
              else if length buf < cofmsg_hello_length msg2 then Inr msg2
              else if msg_type msg2 \<noteq> OFPT_HELLO then Inl EBadRequestBadType
              else if length buf > 8 then
                (case helloelems_unpack (drop 8 buf) (word_of_nat (length buf - 8)) (msg_hello msg2) of
                   Inl e \<Rightarrow> Inl e
                 | Inr es \<Rightarrow> Inr (msg2\<lparr>msg_hello := es\<rparr>))
              else Inr msg2))"

section \<open>From bytes to classes\<close>

text \<open>The \<open>switch\<close> statements of \<open>parse_of10_message\<close>, \<open>parse_of12_message\<close>, \<open>parse_of13_message\<close>.\<close>

definition of10_types :: "(u8 \<times> msg_class) list" where
  "of10_types =
     [(0, Cofmsg_hello), (1, Cofmsg_error), (2, Cofmsg_echo_request), (3, Cofmsg_echo_reply),
      (4, Cofmsg_experimenter), (5, Cofmsg_features_request), (6, Cofmsg_features_reply),
      (7, Cofmsg_get_config_request), (8, Cofmsg_get_config_reply), (9, Cofmsg_set_config),
      (13, Cofmsg_packet_out), (10, Cofmsg_packet_in), (14, Cofmsg_flow_mod),
      (11, Cofmsg_flow_removed), (15, Cofmsg_port_mod), (12, Cofmsg_port_status),
      (18, Cofmsg_barrier_request), (19, Cofmsg_barrier_reply),
      (20, Cofmsg_queue_get_config_request), (21, Cofmsg_queue_get_config_reply)]"

definition of10_stats :: "(u16 \<times> stats_kind) list" where
  "of10_stats =
     [(0, Stats_desc), (1, Stats_flow), (2, Stats_aggr), (3, Stats_table), (4, Stats_port),
      (5, Stats_queue), (0xffff, Stats_experimenter)]"

definition of12_types :: "(u8 \<times> msg_class) list" where
  "of12_types =
     [(0, Cofmsg_hello), (1, Cofmsg_error), (2, Cofmsg_echo_request), (3, Cofmsg_echo_reply),
      (4, Cofmsg_experimenter), (5, Cofmsg_features_request), (6, Cofmsg_features_reply),
      (7, Cofmsg_get_config_request), (8, Cofmsg_get_config_reply), (9, Cofmsg_set_config),
      (13, Cofmsg_packet_out), (10, Cofmsg_packet_in), (14, Cofmsg_flow_mod),
      (11, Cofmsg_flow_removed), (15, Cofmsg_group_mod), (16, Cofmsg_port_mod),
      (12, Cofmsg_port_status), (17, Cofmsg_table_mod),
      (20, Cofmsg_barrier_request), (21, Cofmsg_barrier_reply),
      (22, Cofmsg_queue_get_config_request), (23, Cofmsg_queue_get_config_reply),
      (24, Cofmsg_role_request), (25, Cofmsg_role_reply), (26, Cofmsg_get_async_config_request),
      (27, Cofmsg_get_async_config_reply), (28, Cofmsg_set_async_config)]"

definition of12_stats :: "(u16 \<times> stats_kind) list" where
  "of12_stats =
     [(0, Stats_desc), (1, Stats_flow), (2, Stats_aggr), (3, Stats_table), (4, Stats_port),
      (5, Stats_queue), (6, Stats_group), (7, Stats_group_desc), (8, Stats_group_features),
      (0xffff, Stats_experimenter)]"

definition of13_types :: "(u8 \<times> msg_class) list" where
  "of13_types = of12_types @ [(29, Cofmsg_meter_mod)]"

definition of13_stats :: "(u16 \<times> stats_kind) list" where
  "of13_stats =
     [(0, Stats_desc), (1, Stats_flow), (2, Stats_aggr), (3, Stats_table), (4, Stats_port),
      (5, Stats_queue), (6, Stats_group), (7, Stats_group_desc), (8, Stats_group_features),
      (9, Stats_meter), (10, Stats_meter_config), (11, Stats_meter_features),
      (12, Stats_table_features), (13, Stats_port_desc), (0xffff, Stats_experimenter)]"

text \<open>
  The parsers look at \<open>mem\<close>, the memory of the receive buffer: \<open>rxbuffer.length()\<close> is its capacity,
  not the number of bytes received.  \<open>min_stats\<close> is the size of the version's multipart header.
\<close>

definition parse_class_with ::
  "(u8 \<times> msg_class) list \<Rightarrow> (u16 \<times> stats_kind) list \<Rightarrow> u8 \<Rightarrow> u8 \<Rightarrow> nat \<Rightarrow> byte list \<Rightarrow> msg_class result" where
  "parse_class_with types stats req rep min_stats mem =
     (let type = mem ! 1
      in case map_of types type of
           Some c \<Rightarrow> Inr c
         | None \<Rightarrow>
             if type = req \<or> type = rep then
               (if length mem < min_stats then Inl EBadRequestBadLen
                else case map_of stats (de16 (mem ! 8) (mem ! 9)) of
                       Some k \<Rightarrow> Inr (if type = req then Cofmsg_stats_request k else Cofmsg_stats_reply k)
                     | None \<Rightarrow> Inl EBadRequestBadStat)
             else Inl EBadRequestBadType)"

definition parse_of10_message :: "byte list \<Rightarrow> msg_class result" where
  "parse_of10_message = parse_class_with of10_types of10_stats OFPT10_STATS_REQUEST OFPT10_STATS_REPLY 12"

definition parse_of12_message :: "byte list \<Rightarrow> msg_class result" where
  "parse_of12_message = parse_class_with of12_types of12_stats OFPT_MULTIPART_REQUEST OFPT_MULTIPART_REPLY 16"

definition parse_of13_message :: "byte list \<Rightarrow> msg_class result" where
  "parse_of13_message = parse_class_with of13_types of13_stats OFPT_MULTIPART_REQUEST OFPT_MULTIPART_REPLY 16"

definition parse_message_class :: "byte list \<Rightarrow> msg_class result" where
  "parse_message_class mem =
     (if length mem < 8 then Inl EBadRequestBadLen
      else if mem ! 0 = OFP10_VERSION then parse_of10_message mem
      else if mem ! 0 = OFP12_VERSION then parse_of12_message mem
      else if mem ! 0 = OFP13_VERSION then parse_of13_message mem
      else Inl EBadRequestBadVersion)"

section \<open>Lemmas\<close>

lemma length_ofp_header [simp]: "length (ofp_header_bytes v t l x) = 8"
  by (simp add: ofp_header_bytes_def)

lemma helloelems_clear_empty:
  "helloelems_clear es = \<lparr>hello_elems = []\<rparr>" "helloelems_length \<lparr>hello_elems = []\<rparr> = 0"
  by (cases es; simp add: helloelems_clear_def helloelems_length_def)+

lemma header_cases:
  fixes buf :: "byte list"
  assumes "8 \<le> length buf"
  obtains v t l0 l1 x0 x1 x2 x3 rest where "buf = v # t # l0 # l1 # x0 # x1 # x2 # x3 # rest"
proof -
  have "\<exists>v t l0 l1 rest. buf = v # t # l0 # l1 # rest \<and> 4 \<le> length rest"
    using assms by (cases buf rule: be32_words.cases) auto
  then obtain v t l0 l1 r where 1: "buf = v # t # l0 # l1 # r" "4 \<le> length r"
    by blast
  then show ?thesis
    using that by (cases r rule: be32_words.cases) auto
qed

lemma cofmsg_unpack_header:
  assumes "8 \<le> unat len" "unat len \<le> 8 + length rest"
  shows "cofmsg_unpack (ofp_header_bytes v t len x @ rest) msg =
    Inr (msg\<lparr>msg_version := v, msg_type := t, msg_len := len, msg_xid := x\<rparr>)"
  using assms by (simp add: cofmsg_unpack_def ofp_header_bytes_def be16_def be32_def Let_def)

lemma cofmsg_pack_ok:
  "cofmsg_pack wlen msg buf = Inr (msg', bytes) \<Longrightarrow> buf \<noteq> [] \<Longrightarrow>
   msg' = msg\<lparr>msg_len := word_of_nat wlen\<rparr> \<and> 8 \<le> length buf \<and>
   bytes = ofp_header_bytes (msg_version msg) (msg_type msg) (word_of_nat wlen) (msg_xid msg)
     @ replicate (length buf - 8) 0"
  by (auto simp: cofmsg_pack_def Let_def split: if_splits)

text \<open>No two cases of a parser share a code, and no code of the parsers is a multipart type.\<close>

lemma distinct_types:
  "distinct (map fst of10_types)" "distinct (map fst of12_types)" "distinct (map fst of13_types)"
  "distinct (map snd of10_types)" "distinct (map snd of12_types)" "distinct (map snd of13_types)"
  by (simp_all add: of10_types_def of12_types_def of13_types_def)

lemma distinct_stats:
  "distinct (map fst of10_stats)" "distinct (map fst of12_stats)" "distinct (map fst of13_stats)"
  "distinct (map snd of10_stats)" "distinct (map snd of12_stats)" "distinct (map snd of13_stats)"
  by (simp_all add: of10_stats_def of12_stats_def of13_stats_def)

lemma map_of_inj:
  assumes "distinct (map snd m)" "map_of m k = Some v" "map_of m k' = Some v"
  shows "k = k'"
  using assms
  by (metis distinct_map eq_key_imp_eq_value inj_on_def map_of_SomeD prod.sel(2) fst_conv)

text \<open>The classes the parser of a version can give, and the codes that select them.\<close>

definition class_tables :: "u8 \<Rightarrow> ((u8 \<times> msg_class) list \<times> (u16 \<times> stats_kind) list \<times> u8 \<times> u8 \<times> nat) option" where
  "class_tables v =
     (if v = OFP10_VERSION then Some (of10_types, of10_stats, OFPT10_STATS_REQUEST, OFPT10_STATS_REPLY, 12)
      else if v = OFP12_VERSION then Some (of12_types, of12_stats, OFPT_MULTIPART_REQUEST, OFPT_MULTIPART_REPLY, 16)
      else if v = OFP13_VERSION then Some (of13_types, of13_stats, OFPT_MULTIPART_REQUEST, OFPT_MULTIPART_REPLY, 16)
      else None)"

lemma parse_message_class_tables:
  "8 \<le> length mem \<Longrightarrow> parse_message_class mem =
    (case class_tables (mem ! 0) of None \<Rightarrow> Inl EBadRequestBadVersion
     | Some (ts, ss, rq, rp, n) \<Rightarrow> parse_class_with ts ss rq rp n mem)"
  by (simp add: parse_message_class_def class_tables_def parse_of10_message_def parse_of12_message_def
      parse_of13_message_def)

lemma types_no_stats:
  "(t, c) \<in> set of10_types \<Longrightarrow> \<not> is_stats_request c \<and> \<not> is_stats_reply c"
  "(t, c) \<in> set of12_types \<Longrightarrow> \<not> is_stats_request c \<and> \<not> is_stats_reply c"
  "(t, c) \<in> set of13_types \<Longrightarrow> \<not> is_stats_request c \<and> \<not> is_stats_reply c"
  by (auto simp: of10_types_def of12_types_def of13_types_def)

lemma stats_codes_free:
  "map_of of10_types OFPT10_STATS_REQUEST = None" "map_of of10_types OFPT10_STATS_REPLY = None"
  "map_of of12_types OFPT_MULTIPART_REQUEST = None" "map_of of12_types OFPT_MULTIPART_REPLY = None"
  "map_of of13_types OFPT_MULTIPART_REQUEST = None" "map_of of13_types OFPT_MULTIPART_REPLY = None"
  "OFPT10_STATS_REQUEST \<noteq> OFPT10_STATS_REPLY" "OFPT_MULTIPART_REQUEST \<noteq> OFPT_MULTIPART_REPLY"
  by (simp_all add: of10_types_def of12_types_def of13_types_def ofp_constants)

lemma class_tables_wf:
  assumes "class_tables v = Some (ts, ss, rq, rp, n)"
  shows "distinct (map snd ts)" "distinct (map snd ss)" "rq \<noteq> rp" "n \<le> 16"
    "\<And>t c. map_of ts t = Some c \<Longrightarrow> \<not> is_stats_request c \<and> \<not> is_stats_reply c"
    "map_of ts rq = None" "map_of ts rp = None"
proof -
  consider "ts = of10_types" "ss = of10_stats" "rq = OFPT10_STATS_REQUEST" "rp = OFPT10_STATS_REPLY" "n = 12"
    | "ts = of12_types" "ss = of12_stats" "rq = OFPT_MULTIPART_REQUEST" "rp = OFPT_MULTIPART_REPLY" "n = 16"
    | "ts = of13_types" "ss = of13_stats" "rq = OFPT_MULTIPART_REQUEST" "rp = OFPT_MULTIPART_REPLY" "n = 16"
    using assms by (auto simp: class_tables_def split: if_splits)
  then show "distinct (map snd ts)" "distinct (map snd ss)" "rq \<noteq> rp" "n \<le> 16"
    "\<And>t c. map_of ts t = Some c \<Longrightarrow> \<not> is_stats_request c \<and> \<not> is_stats_reply c"
    "map_of ts rq = None" "map_of ts rp = None"
    by (cases; simp add: distinct_types distinct_stats stats_codes_free types_no_stats [OF map_of_SomeD])+
qed

lemma parse_class_with_inj:
  assumes "distinct (map snd ts)" "distinct (map snd ss)" "rq \<noteq> rp" "n \<le> 16"
    "\<And>t c. map_of ts t = Some c \<Longrightarrow> \<not> is_stats_request c \<and> \<not> is_stats_reply c"
    "map_of ts rq = None" "map_of ts rp = None"
    and p: "parse_class_with ts ss rq rp n mem = Inr c" "parse_class_with ts ss rq rp n mem' = Inr c"
  shows "mem ! 1 = mem' ! 1 \<and>
    (is_stats_request c \<or> is_stats_reply c \<longrightarrow> de16 (mem ! 8) (mem ! 9) = de16 (mem' ! 8) (mem' ! 9))"
proof -
  have plain: "(\<not> is_stats_request c \<and> \<not> is_stats_reply c \<and> map_of ts (m ! 1) = Some c) \<or>
      (\<exists>k. map_of ss (de16 (m ! 8) (m ! 9)) = Some k \<and>
        (m ! 1 = rq \<and> c = Cofmsg_stats_request k \<or> m ! 1 = rp \<and> c = Cofmsg_stats_reply k))"
    if "parse_class_with ts ss rq rp n m = Inr c" for m
    using that assms(5) by (auto simp: parse_class_with_def Let_def split: option.splits if_splits)
  from plain [OF p(1)] plain [OF p(2)] show ?thesis
    by (auto dest: map_of_inj [OF assms(1)] map_of_inj [OF assms(2)])
qed

section \<open>Properties\<close>

definition hello_msg_example :: "nat cofmsg" where
  "hello_msg_example = \<lparr>msg_ptr = 1, msg_class = Cofmsg_hello, msg_version = 4, msg_type = 0, msg_len = 0,
     msg_xid = 77, msg_stats_type = 0, msg_stats_flags = 0, msg_array = [], msg_queues = [],
     msg_hello = \<lparr>hello_elems = [(1, vb_new\<lparr>bitmaps := [0x12]\<rparr>)]\<rparr>, msg_err_type = 0,
     msg_err_code = 0, msg_auxid = 0, msg_dpid = 0, msg_body = []\<rparr>"

text \<open>
  Unpacking the message header succeeds exactly on a buffer that holds the header and the
  message length it announces, of at least eight bytes; the header fields are read in network byte
  order and nothing else of the message changes.  Every other non-empty buffer is \<open>BadLen\<close>.
\<close>

lemma cofmsg_unpack_iff:
  assumes "buf \<noteq> []"
  shows "cofmsg_unpack buf msg =
    (if 8 \<le> length buf \<and> 8 \<le> unat (de16 (buf ! 2) (buf ! 3)) \<and> unat (de16 (buf ! 2) (buf ! 3)) \<le> length buf
     then Inr (msg\<lparr>msg_version := buf ! 0, msg_type := buf ! 1, msg_len := de16 (buf ! 2) (buf ! 3),
                   msg_xid := de32 (buf ! 4) (buf ! 5) (buf ! 6) (buf ! 7)\<rparr>)
     else Inl EBadRequestBadLen)"
proof (cases "8 \<le> length buf")
  case True
  then obtain v t l0 l1 x0 x1 x2 x3 rest where "buf = v # t # l0 # l1 # x0 # x1 # x2 # x3 # rest"
    by (rule header_cases)
  then show ?thesis
    by (auto simp: cofmsg_unpack_def Let_def eval_nat_numeral)
next
  case False
  then show ?thesis
    using assms by (auto simp: cofmsg_unpack_def split: list.splits)
qed

lemma cofmsg_unpack_iff_example:
  "cofmsg_unpack [4, 0, 0, 8, 0, 0, 0, 7] hello_msg_example =
     Inr (hello_msg_example\<lparr>msg_version := 4, msg_type := 0, msg_len := 8, msg_xid := 7\<rparr>)"
  using cofmsg_unpack_iff [of "[4, 0, 0, 8, 0, 0, 0, 7]" hello_msg_example]
  by (simp add: de16_def de32_def)

text \<open>
  Round trip of a HELLO message with a version bitmap: what \<open>pack\<close> writes into a buffer of
  the message's length, \<open>unpack\<close> reads back: version, transaction id and the supported versions.
\<close>

theorem cofmsg_hello_roundtrip:
  assumes "msg_type msg = OFPT_HELLO" and "hello_elems (msg_hello msg) = [(1, e)]"
    and "vb_type e = OFPHET_VERSIONBITMAP" and "bitmaps e \<noteq> []" and "length (bitmaps e) \<le> 8"
    and "length buf = cofmsg_hello_length msg"
  shows "\<exists>msg' bytes msg''. cofmsg_hello_pack msg buf = Inr (msg', bytes) \<and>
    cofmsg_hello_unpack bytes msg0 = Inr msg'' \<and> msg_version msg'' = msg_version msg \<and>
    msg_xid msg'' = msg_xid msg \<and> (\<exists>e'. hello_elems (msg_hello msg'') = [(1, e')] \<and> bitmaps e' = bitmaps e)"
proof -
  have el: "helloelems_length (msg_hello msg) = pad8 (4 + length (bitmaps e) * 4)"
    using assms(2) by (simp add: helloelems_length_def vb_wire_length_def)
  have small: "0 < helloelems_length (msg_hello msg)" "helloelems_length (msg_hello msg) \<le> 43"
    unfolding el using pad8_ge [of "4 + length (bitmaps e) * 4"] pad8_bound [of "4 + length (bitmaps e) * 4"] assms(5)
    by simp_all
  let ?wl = "8 + helloelems_length (msg_hello msg)"
  have ul: "unat (word_of_nat ?wl :: u16) = ?wl"
    by (rule unat_of_nat_u16 [OF _ refl]) (use small in simp)
  let ?hdr = "ofp_header_bytes (msg_version msg) (msg_type msg) (word_of_nat ?wl) (msg_xid msg)"
  obtain es' body where pk: "helloelems_pack (msg_hello msg) (replicate (helloelems_length (msg_hello msg)) 0) = Inr (es', body)"
      "length body = helloelems_length (msg_hello msg)"
      "helloelems_unpack body (word_of_nat (length body)) \<lparr>hello_elems = []\<rparr> = Inr es'"
      "hello_elems es' = [(1, e\<lparr>vb_length := word_of_nat (4 + length (bitmaps e) * 4)\<rparr>)]"
    using helloelems_pack_unpack [of "msg_hello msg" e "replicate (helloelems_length (msg_hello msg)) 0" "\<lparr>hello_elems = []\<rparr>"] assms
    by auto
  have "cofmsg_hello_pack msg buf =
      Inr (msg\<lparr>msg_len := word_of_nat ?wl, msg_hello := es'\<rparr>, ?hdr @ body)"
    using assms(6) pk(1) ul small by (auto simp: cofmsg_hello_pack_def cofmsg_pack_def Let_def cofmsg_hello_length_def)
  moreover have "cofmsg_unpack (?hdr @ body) msg0 = Inr (msg0\<lparr>msg_version := msg_version msg,
      msg_type := msg_type msg, msg_len := word_of_nat ?wl, msg_xid := msg_xid msg\<rparr>)"
    by (rule cofmsg_unpack_header) (use ul pk(2) in simp_all)
  moreover have "?hdr @ body \<noteq> []" "body \<noteq> []"
    using pk(2) small by auto
  ultimately show ?thesis
    using pk(2,3,4) assms(1) small(1)
    by (simp add: cofmsg_hello_unpack_def Let_def cofmsg_hello_length_def helloelems_clear_empty)
qed

theorem cofmsg_hello_roundtrip_example:
  "\<exists>msg' bytes msg''. cofmsg_hello_pack hello_msg_example (replicate 16 0) = Inr (msg', bytes) \<and>
    cofmsg_hello_unpack bytes hello_msg_example = Inr msg'' \<and> msg_xid msg'' = 77"
proof -
  have "length (replicate 16 (0::byte)) = cofmsg_hello_length hello_msg_example"
    by (simp add: cofmsg_hello_length_def hello_msg_example_def helloelems_length_def vb_wire_length_def
        pad8_def vb_new_def)
  moreover have "msg_xid hello_msg_example = 77" "msg_type hello_msg_example = OFPT_HELLO"
      "hello_elems (msg_hello hello_msg_example) = [(1, vb_new\<lparr>bitmaps := [0x12]\<rparr>)]"
    by (simp_all add: hello_msg_example_def)
  ultimately show ?thesis
    using cofmsg_hello_roundtrip [of hello_msg_example "vb_new\<lparr>bitmaps := [0x12]\<rparr>" "replicate 16 0" hello_msg_example]
    by (simp add: vb_new_def) blast
qed

text \<open>
  The parsers name a class unambiguously: in one protocol version, two buffers get the same
  class only if they carry the same message type and, for multipart messages, the same multipart
  type; and a class is a multipart request (reply) exactly when the type byte says so.
\<close>

theorem parse_message_class_inj:
  assumes "8 \<le> length mem" and "8 \<le> length mem'" and "mem ! 0 = mem' ! 0"
    and "parse_message_class mem = Inr c" and "parse_message_class mem' = Inr c"
  shows "mem ! 1 = mem' ! 1 \<and>
    (is_stats_request c \<or> is_stats_reply c \<longrightarrow> de16 (mem ! 8) (mem ! 9) = de16 (mem' ! 8) (mem' ! 9))"
proof -
  obtain ts ss rq rp n where tab: "class_tables (mem ! 0) = Some (ts, ss, rq, rp, n)"
    using assms(1,4) by (auto simp: parse_message_class_tables split: option.splits)
  note wf = class_tables_wf [OF tab]
  have p: "parse_class_with ts ss rq rp n mem = Inr c" "parse_class_with ts ss rq rp n mem' = Inr c"
    using assms tab by (simp_all add: parse_message_class_tables)
  show ?thesis
    using parse_class_with_inj [OF wf p] .
qed

theorem parse_message_class_inj_example:
  "parse_message_class ([4, 19, 0, 16, 0, 0, 0, 1, 0, 13] @ replicate 6 0) = Inr (Cofmsg_stats_reply Stats_port_desc) \<and>
   ([4, 19, 0, 16, 0, 0, 0, 1, 0, 13] @ replicate 6 0) ! 1 = ([4, 19, 0, 16, 0, 0, 0, 2, 0, 13] @ replicate 6 (7 :: byte)) ! 1"
proof -
  have p: "parse_message_class ([4, 19, 0, 16, 0, 0, 0, 1, 0, 13] @ replicate 6 0) = Inr (Cofmsg_stats_reply Stats_port_desc)"
      "parse_message_class ([4, 19, 0, 16, 0, 0, 0, 2, 0, 13] @ replicate 6 7) = Inr (Cofmsg_stats_reply Stats_port_desc)"
    by (simp_all add: parse_message_class_def ofp_constants parse_of13_message_def parse_class_with_def of13_types_def
        of12_types_def of13_stats_def de16_def)
  from parse_message_class_inj [OF _ _ _ p] p(1) show ?thesis
    by simp
qed

text \<open>
  The length guards of the parsers compare with the capacity of the receive buffer, so with
  the buffer the socket allocates they never reject a message as too short: whatever the number of
  bytes received, no parser answers \<open>BadLen\<close>, and the multipart type is read even from a message
  that has none.
\<close>

theorem parser_length_guard_vacuous:
  assumes "16 \<le> length mem"
  shows "parse_message_class mem \<noteq> Inl EBadRequestBadLen"
proof -
  have "parse_class_with ts ss rq rp n mem \<noteq> Inl EBadRequestBadLen" if "n \<le> 16" for ts ss rq rp n
    using assms that by (auto simp: parse_class_with_def Let_def split: option.splits)
  then show ?thesis
    using assms class_tables_wf(4) by (auto simp: parse_message_class_tables split: option.splits)
qed

theorem parser_length_guard_vacuous_example:
  "parse_message_class ([4, 18, 0, 8, 0, 0, 0, 1, 0, 1] @ replicate 100 0) \<noteq> Inl EBadRequestBadLen"
  by (rule parser_length_guard_vacuous) simp

end
