(* ===== verification/Crofsock.thy ===== *)
theory Crofsock
  imports Cthread Crofqueue Cbuffer Cofmsg
begin

text \<open>
  \<open>rofl::crofsock\<close> (\<open>crofsock.h\<close>, \<open>crofsock.cc\<close>), part one: the socket's state and its life
  cycle: listening, accepting, connecting, closing, reconnecting with back-off.

  A socket uses two worker threads, one to receive and one to send; their state as far as the
  socket is concerned is part of the socket's record.  System calls are arguments; \<open>epoll_ctl\<close>
  succeeds.  Calls into the owner (\<open>crofsock_env\<close>) are returned as a list of events.  The two
  OpenSSL handshakes \<open>tls_connect\<close> and \<open>tls_accept\<close> are parameters.  \<open>sock_freed\<close> collects the
  addresses of the messages handed to \<open>delete\<close>.
\<close>

section \<open>Types\<close>

datatype socket_state_t =
    STATE_IDLE | STATE_LISTENING | STATE_TCP_CONNECTING | STATE_TLS_CONNECTING
  | STATE_TCP_ACCEPTING | STATE_TLS_ACCEPTING | STATE_TCP_ESTABLISHED | STATE_TLS_ESTABLISHED

text \<open>The code compares states; the order is that of the enumeration.\<close>

primrec state_rank :: "socket_state_t \<Rightarrow> nat" where
  "state_rank STATE_IDLE = 0"
| "state_rank STATE_LISTENING = 1"
| "state_rank STATE_TCP_CONNECTING = 2"
| "state_rank STATE_TLS_CONNECTING = 3"
| "state_rank STATE_TCP_ACCEPTING = 4"
| "state_rank STATE_TLS_ACCEPTING = 5"
| "state_rank STATE_TCP_ESTABLISHED = 6"
| "state_rank STATE_TLS_ESTABLISHED = 7"

instantiation socket_state_t :: linorder
begin

definition less_eq_socket_state_t :: "socket_state_t \<Rightarrow> socket_state_t \<Rightarrow> bool" where
  "less_eq_socket_state_t a b \<longleftrightarrow> state_rank a \<le> state_rank b"

definition less_socket_state_t :: "socket_state_t \<Rightarrow> socket_state_t \<Rightarrow> bool" where
  "less_socket_state_t a b \<longleftrightarrow> state_rank a < state_rank b"

lemma state_rank_inj: "state_rank a = state_rank b \<Longrightarrow> a = b"
  by (cases a; cases b; simp)

instance
  by standard (auto simp: less_eq_socket_state_t_def less_socket_state_t_def intro: state_rank_inj)

end

lemma state_le_idle [simp]: "s \<le> STATE_IDLE \<longleftrightarrow> s = STATE_IDLE"
  by (cases s) (simp_all add: less_eq_socket_state_t_def)

lemma state_lt_established [simp]:
  "s < STATE_TCP_ESTABLISHED \<longleftrightarrow> s \<noteq> STATE_TCP_ESTABLISHED \<and> s \<noteq> STATE_TLS_ESTABLISHED"
  "STATE_TCP_ESTABLISHED \<le> s \<longleftrightarrow> s = STATE_TCP_ESTABLISHED \<or> s = STATE_TLS_ESTABLISHED"
  by (cases s; simp add: less_socket_state_t_def less_eq_socket_state_t_def)+

datatype socket_mode_t = MODE_UNKNOWN | MODE_LISTEN | MODE_CLIENT | MODE_SERVER

datatype crofsock_flag_t =
    FLAG_DELETE_IN_PROGRESS | FLAG_CONGESTED | FLAG_TX_BLOCK_QUEUEING | FLAG_RECONNECT_ON_FAILURE
  | FLAG_TLS_IN_USE | FLAG_CLOSING

datatype msg_result_t =
    MSG_IGNORED | MSG_QUEUED | MSG_QUEUED_CONGESTION | MSG_QUEUEING_FAILED_QUEUE_FULL
  | MSG_QUEUEING_FAILED_NOT_ESTABLISHED | MSG_QUEUEING_FAILED_SHUTDOWN_IN_PROGRESS

definition TIMER_ID_RECONNECT :: u32 where "TIMER_ID_RECONNECT = 1"

text \<open>Queue numbers.\<close>

abbreviation QUEUE_OAM :: nat where "QUEUE_OAM \<equiv> 0"
abbreviation QUEUE_MGMT :: nat where "QUEUE_MGMT \<equiv> 1"
abbreviation QUEUE_FLOW :: nat where "QUEUE_FLOW \<equiv> 2"
abbreviation QUEUE_PKT :: nat where "QUEUE_PKT \<equiv> 3"

record 'e crofsock =
  sock_this :: nat
  sock_state :: socket_state_t
  sock_mode :: socket_mode_t
  sock_flags :: "crofsock_flag_t \<Rightarrow> bool"
  sock_sd :: int
  sock_is_tcp :: bool
  sock_ssl :: bool
  rx_thread :: cthread
  tx_thread :: cthread
  reconnect_backoff_max :: int
  reconnect_backoff_start :: int
  reconnect_backoff_current :: int
  reconnect_counter :: int
  rxbuffer :: cbuffer
  rx_disabled :: bool
  txbuffer :: cbuffer
  tx_disabled :: bool
  tx_is_running :: bool
  txqueue_pending_pkts :: u32
  txqueue_size_congestion_occurred :: u32
  txqueue_size_tx_threshold :: u32
  txqueues :: "'e cofmsg crofqueue list"
  txweights :: "nat list"
  sock_freed :: "nat list"

datatype 'e sock_event =
    Ev_listen | Ev_tcp_connect_refused | Ev_tcp_connect_failed | Ev_tcp_connected | Ev_tcp_accepted
  | Ev_tls_connect_failed | Ev_tls_connected | Ev_tls_accept_failed | Ev_tls_accepted | Ev_closed
  | Ev_recv "'e cofmsg" | Ev_congestion_occurred | Ev_congestion_solved

text \<open>A call's outcome: the socket, the events in order, and the exception if one was thrown.\<close>

type_synonym 'e sock_res = "'e crofsock \<times> 'e sock_event list \<times> rofl_exn option"

text \<open>The constructor, on threads the pool handed out (rx first, then tx).\<close>

definition crofsock_new :: "nat \<Rightarrow> cthread \<Rightarrow> cthread \<Rightarrow> 'e crofsock" where
  "crofsock_new this rx tx =
     \<lparr>sock_this = this, sock_state = STATE_IDLE, sock_mode = MODE_UNKNOWN, sock_flags = (\<lambda>_. False),
      sock_sd = -1, sock_is_tcp = True, sock_ssl = False, rx_thread = rx, tx_thread = tx,
      reconnect_backoff_max = 60, reconnect_backoff_start = 1, reconnect_backoff_current = 1,
      reconnect_counter = 0, rxbuffer = cbuffer_new 65536, rx_disabled = False,
      txbuffer = cbuffer_new 65536, tx_disabled = False, tx_is_running = False,
      txqueue_pending_pkts = 0, txqueue_size_congestion_occurred = 0, txqueue_size_tx_threshold = 0,
      txqueues = [crofqueue_new, crofqueue_new, crofqueue_new, crofqueue_new], txweights = [16, 32, 16, 8], sock_freed = []\<rparr>"

section \<open>Flags, queries, switching directions on and off\<close>

definition flag_set :: "crofsock_flag_t \<Rightarrow> bool \<Rightarrow> 'e crofsock \<Rightarrow> 'e crofsock" where
  "flag_set f v s = s\<lparr>sock_flags := (sock_flags s)(f := v)\<rparr>"

definition flag_test :: "crofsock_flag_t \<Rightarrow> 'e crofsock \<Rightarrow> bool" where
  "flag_test f s = sock_flags s f"

definition delete_in_progress :: "'e crofsock \<Rightarrow> bool" where
  "delete_in_progress s = flag_test FLAG_DELETE_IN_PROGRESS s"

definition sock_is_established :: "'e crofsock \<Rightarrow> bool" where
  "sock_is_established s \<longleftrightarrow> STATE_TCP_ESTABLISHED \<le> sock_state s"

definition sock_is_passive :: "'e crofsock \<Rightarrow> bool" where
  "sock_is_passive s \<longleftrightarrow> sock_mode s = MODE_SERVER"

definition sock_is_congested :: "'e crofsock \<Rightarrow> bool" where
  "sock_is_congested s = flag_test FLAG_CONGESTED s"

definition set_txqueue_max_size :: "u32 \<Rightarrow> 'e crofsock \<Rightarrow> 'e crofsock" where
  "set_txqueue_max_size n s =
     s\<lparr>txqueue_size_congestion_occurred := n, txqueues := map (set_queue_max_size (unat n)) (txqueues s)\<rparr>"

definition epoll_ok :: epoll_ctl where
  "epoll_ok op fd ev = SYS_OK"

definition on_rx :: "(cthread \<Rightarrow> cthread) \<Rightarrow> 'e crofsock \<Rightarrow> 'e crofsock" where
  "on_rx f s = s\<lparr>rx_thread := f (rx_thread s)\<rparr>"

definition on_tx :: "(cthread \<Rightarrow> cthread) \<Rightarrow> 'e crofsock \<Rightarrow> 'e crofsock" where
  "on_tx f s = s\<lparr>tx_thread := f (tx_thread s)\<rparr>"

text \<open>The registrations the socket makes, with an \<open>epoll_ctl\<close> that succeeds.\<close>

definition th_add_read_fd :: "nat \<Rightarrow> int \<Rightarrow> cthread \<Rightarrow> cthread" where
  "th_add_read_fd env fd th = fst (cthread_add_read_fd epoll_ok (Some env) fd True True th)"

definition th_add_write_fd :: "nat \<Rightarrow> int \<Rightarrow> cthread \<Rightarrow> cthread" where
  "th_add_write_fd env fd th = fst (cthread_add_write_fd epoll_ok (Some env) fd True True th)"

definition th_drop_read_fd :: "int \<Rightarrow> cthread \<Rightarrow> cthread" where
  "th_drop_read_fd fd th = fst (cthread_drop_read_fd epoll_ok fd True th)"

definition th_drop_write_fd :: "int \<Rightarrow> cthread \<Rightarrow> cthread" where
  "th_drop_write_fd fd th = fst (cthread_drop_write_fd epoll_ok fd True th)"

definition th_drop_fd :: "int \<Rightarrow> cthread \<Rightarrow> cthread" where
  "th_drop_fd fd th = fst (cthread_drop_fd epoll_ok fd False th)"

definition sock_rx_disable :: "'e crofsock \<Rightarrow> 'e crofsock" where
  "sock_rx_disable s0 =
     (let s = s0\<lparr>rx_disabled := True\<rparr>
      in if sock_state s = STATE_TCP_ESTABLISHED \<or> sock_state s = STATE_TLS_ESTABLISHED
         then on_rx (th_drop_read_fd (sock_sd s)) s else s)"

definition sock_rx_enable :: "'e crofsock \<Rightarrow> 'e crofsock" where
  "sock_rx_enable s0 =
     (let s = s0\<lparr>rx_disabled := False\<rparr>
      in if sock_state s = STATE_TCP_ESTABLISHED \<or> sock_state s = STATE_TLS_ESTABLISHED
         then on_rx (cthread_wakeup (Some (sock_this s))) (on_rx (th_add_read_fd (sock_this s) (sock_sd s)) s)
         else s)"

definition sock_tx_disable :: "'e crofsock \<Rightarrow> 'e crofsock" where
  "sock_tx_disable s = s\<lparr>tx_disabled := True\<rparr>"

definition sock_tx_enable :: "'e crofsock \<Rightarrow> 'e crofsock" where
  "sock_tx_enable s = on_tx (cthread_wakeup (Some (sock_this s))) (s\<lparr>tx_disabled := False\<rparr>)"

section \<open>Closing\<close>

text \<open>
  First part of \<open>close\<close>: TLS is shut down.  Whatever \<open>SSL_shutdown\<close> answers, both directions are
  blocked if there is an SSL session, the session is released and TCP is left established.
\<close>

definition close_tls :: "'e crofsock \<Rightarrow> 'e crofsock" where
  "close_tls s =
     (let term = (\<lambda>s. (flag_set FLAG_TLS_IN_USE False (s\<lparr>sock_ssl := False\<rparr>))\<lparr>sock_state := STATE_TCP_ESTABLISHED\<rparr>)
      in case sock_state s of
           STATE_TLS_CONNECTING \<Rightarrow> term s
         | STATE_TLS_ACCEPTING \<Rightarrow> term s
         | STATE_TLS_ESTABLISHED \<Rightarrow> term (if sock_ssl s then sock_tx_disable (sock_rx_disable s) else s)
         | _ \<Rightarrow> s)"

text \<open>Second part: TCP.\<close>

definition close_tcp :: "nat \<Rightarrow> 'e crofsock \<Rightarrow> 'e crofsock" where
  "close_tcp self s =
     (let sd = sock_sd s;
          drop_fds = (\<lambda>s. on_tx (th_drop_fd sd) (on_rx (th_drop_fd sd) s))
      in case sock_state s of
           STATE_LISTENING \<Rightarrow>
             (if sd > 0 then (drop_fds (on_rx (th_drop_read_fd sd) s))\<lparr>sock_sd := -1\<rparr> else s)\<lparr>sock_state := STATE_IDLE\<rparr>
         | STATE_TCP_CONNECTING \<Rightarrow>
             (let s1 = on_tx (\<lambda>th. fst (cthread_drop_timer self (sock_this s) TIMER_ID_RECONNECT th)) s
              in (if sd > 0 then (drop_fds (on_rx (th_drop_write_fd sd) s1))\<lparr>sock_sd := -1\<rparr> else s1)
                   \<lparr>sock_state := STATE_IDLE\<rparr>)
         | STATE_TCP_ACCEPTING \<Rightarrow>
             (if sd > 0 then
                (let s1 = on_rx (th_drop_read_fd sd) s;
                     s2 = (if flag_test FLAG_CONGESTED s1 then on_tx (th_drop_write_fd sd) s1 else s1)
                 in (drop_fds s2)\<lparr>sock_sd := -1\<rparr>)
              else s)\<lparr>sock_state := STATE_IDLE\<rparr>
         | STATE_TCP_ESTABLISHED \<Rightarrow>
             (let s1 = on_rx (th_drop_read_fd sd) (sock_tx_disable (sock_rx_disable s));
                  s2 = (if flag_test FLAG_CONGESTED s1 then on_tx (th_drop_write_fd sd) s1 else s1)
              in (if sd > 0 then drop_fds s2 else s2)\<lparr>sock_sd := -1, sock_state := STATE_IDLE\<rparr>)
         | _ \<Rightarrow> s)"

definition crofsock_close :: "nat \<Rightarrow> 'e crofsock \<Rightarrow> 'e crofsock" where
  "crofsock_close self s =
     (if flag_test FLAG_CLOSING s then s
      else (let s1 = close_tcp self (close_tls (flag_set FLAG_CLOSING True s))
            in if sock_state s1 = STATE_IDLE
               then flag_set FLAG_CLOSING False (s1\<lparr>rx_disabled := False, tx_disabled := False\<rparr>)
               else s1))"

text \<open>The destructor.\<close>

definition crofsock_destroy :: "nat \<Rightarrow> 'e crofsock \<Rightarrow> 'e crofsock" where
  "crofsock_destroy self s =
     (let s1 = flag_set FLAG_DELETE_IN_PROGRESS True s
      in crofsock_close self (on_rx (cthread_drop self (sock_this s)) (on_tx (cthread_drop self (sock_this s)) s1)))"

section \<open>Reconnecting\<close>

definition backoff_reconnect :: "timespec \<Rightarrow> nat \<Rightarrow> bool \<Rightarrow> 'e crofsock \<Rightarrow> 'e crofsock" where
  "backoff_reconnect now self reset_timeout s =
     (if cthread_has_timer (sock_this s) TIMER_ID_RECONNECT (rx_thread s) then s
      else (let s1 = (if reset_timeout
                      then s\<lparr>reconnect_backoff_current := reconnect_backoff_start s, reconnect_counter := 0\<rparr>
                      else if reconnect_backoff_current s \<ge> reconnect_backoff_max s
                      then s\<lparr>reconnect_backoff_current := reconnect_backoff_max s\<rparr>
                      else s\<lparr>reconnect_backoff_current := reconnect_backoff_current s * 2\<rparr>);
                s2 = on_rx (\<lambda>th. fst (cthread_add_timer self (sock_this s1) TIMER_ID_RECONNECT
                       (ts_expire_in now (reconnect_backoff_current s1) 0) th)) s1
            in s2\<lparr>reconnect_counter := reconnect_counter s2 + 1\<rparr>))"

section \<open>Listening, accepting, connecting\<close>

datatype sock_call =
    Sys_socket | Sys_fcntl_getfl | Sys_fcntl_setfl | Sys_reuseaddr | Sys_nodelay | Sys_rcvlowat
  | Sys_get_nodelay | Sys_bind | Sys_listen | Sys_getsockname | Sys_getpeername | Sys_get_domain
  | Sys_get_type | Sys_get_protocol | Sys_get_linger | Sys_set_linger

text \<open>
  \<open>for (auto queue : txqueues) queue.clear();\<close>: the loop variable is a copy of the queue, so the
  messages are deleted but the socket's queues keep pointing at them.
\<close>

definition clear_txqueue_copies :: "'e crofsock \<Rightarrow> 'e crofsock" where
  "clear_txqueue_copies s =
     s\<lparr>sock_freed := sock_freed s @ concat (map (\<lambda>q. map msg_ptr (snd (crofqueue_clear q))) (txqueues s))\<rparr>"

text \<open>\<open>fd\<close> is what \<open>socket\<close> returned; \<open>sys\<close> tells which of the other calls succeed.\<close>

definition crofsock_listen :: "(sock_call \<Rightarrow> bool) \<Rightarrow> int \<Rightarrow> nat \<Rightarrow> 'e crofsock \<Rightarrow> 'e sock_res" where
  "crofsock_listen sys fd self s0 =
     (let s1 = (if sock_sd s0 \<ge> 0 then crofsock_close self s0 else s0);
          s2 = clear_txqueue_copies s1;
          s3 = on_rx (\<lambda>th. fst (cthread_drop_timer self (sock_this s2) TIMER_ID_RECONNECT th)) s2;
          s4 = flag_set FLAG_RECONNECT_ON_FAILURE False (s3\<lparr>sock_mode := MODE_LISTEN, sock_sd := fd\<rparr>)
      in if fd < 0 then (s4, [], Some ESysCall)
         else if \<not> list_all sys [Sys_fcntl_getfl, Sys_fcntl_setfl] then (s4, [], Some ESysCall)
         else if sock_is_tcp s4 \<and> \<not> list_all sys [Sys_reuseaddr, Sys_nodelay, Sys_rcvlowat, Sys_get_nodelay]
           then (s4, [], Some ESysCall)
         else if \<not> list_all sys [Sys_bind, Sys_listen] then (s4, [], Some ESysCall)
         else (on_rx (th_add_read_fd (sock_this s4) fd) (s4\<lparr>sock_state := STATE_LISTENING\<rparr>), [], None))"

text \<open>
  \<open>accept\<close>: the sockets taken from the listening queue until \<open>accept\<close> answers \<open>EAGAIN\<close>; each answer
  is a descriptor or an error.  With \<open>FLAG_CLOSING\<close> set nothing is returned.
\<close>

fun crofsock_accept :: "bool \<Rightarrow> (int + sys_errno) list \<Rightarrow> int list \<Rightarrow> int list result" where
  "crofsock_accept closing [] acc = Inr (if closing then [] else acc)"
| "crofsock_accept closing (Inl fd # rs) acc =
     (if closing then Inr [] else crofsock_accept closing rs (acc @ [fd]))"
| "crofsock_accept closing (Inr e # rs) acc =
     (if closing then Inr [] else if e = SYS_EAGAIN then Inr acc else Inl ESysCall)"

definition crofsock_tcp_accept ::
  "(sock_call \<Rightarrow> bool) \<Rightarrow> (int \<Rightarrow> 'e crofsock \<Rightarrow> 'e sock_res) \<Rightarrow> int \<Rightarrow> nat \<Rightarrow> 'e crofsock \<Rightarrow> 'e sock_res" where
  "crofsock_tcp_accept sys tls_accept fd self s0 =
     (let s1 = (if sock_state s0 \<noteq> STATE_IDLE then crofsock_close self s0 else s0)\<lparr>sock_sd := fd\<rparr>;
          s2 = clear_txqueue_copies s1;
          s3 = on_rx (\<lambda>th. fst (cthread_drop_timer self (sock_this s2) TIMER_ID_RECONNECT th)) s2;
          s4 = (flag_set FLAG_RECONNECT_ON_FAILURE False (s3\<lparr>sock_mode := MODE_SERVER\<rparr>))
                 \<lparr>sock_state := STATE_TCP_ACCEPTING\<rparr>
      in if \<not> list_all sys [Sys_fcntl_getfl, Sys_fcntl_setfl, Sys_getsockname, Sys_getpeername,
                             Sys_get_domain, Sys_get_type, Sys_get_protocol] then (s4, [], Some ESysCall)
         else if sock_is_tcp s4 \<and> \<not> list_all sys [Sys_reuseaddr, Sys_nodelay] then (s4, [], Some ESysCall)
         else if \<not> list_all sys [Sys_get_linger, Sys_set_linger] then (s4, [], Some ESysCall)
         else (let s5 = on_rx (th_add_read_fd (sock_this s4) fd) (s4\<lparr>sock_state := STATE_TCP_ESTABLISHED\<rparr>);
                   s6 = on_rx (cthread_wakeup (Some (sock_this s5))) s5
               in if flag_test FLAG_TLS_IN_USE s6 then tls_accept fd s6
                  else (s6, [Ev_tcp_accepted], None)))"

datatype connect_result = Conn_ok | Conn_inprogress | Conn_refused | Conn_error

definition crofsock_tcp_connect ::
  "(sock_call \<Rightarrow> bool) \<Rightarrow> connect_result \<Rightarrow> (bool \<Rightarrow> 'e crofsock \<Rightarrow> 'e sock_res) \<Rightarrow> bool \<Rightarrow> int \<Rightarrow> timespec \<Rightarrow>
   nat \<Rightarrow> bool \<Rightarrow> 'e crofsock \<Rightarrow> 'e sock_res" where
  "crofsock_tcp_connect sys conn tls_connect laddr_set fd now self reconnect s0 =
     (let s1 = (if sock_state s0 \<noteq> STATE_IDLE then crofsock_close self s0 else s0);
          s2 = clear_txqueue_copies s1;
          s3 = on_rx (\<lambda>th. fst (cthread_drop_timer self (sock_this s2) TIMER_ID_RECONNECT th)) s2;
          s4 = (flag_set FLAG_RECONNECT_ON_FAILURE reconnect (s3\<lparr>sock_mode := MODE_CLIENT\<rparr>))
                 \<lparr>sock_state := STATE_TCP_CONNECTING, sock_sd := fd\<rparr>;
          retry = (\<lambda>s. if flag_test FLAG_RECONNECT_ON_FAILURE s then backoff_reconnect now self False s else s)
      in if fd < 0 then (s4, [], Some ESysCall)
         else if \<not> list_all sys [Sys_fcntl_getfl, Sys_fcntl_setfl] then (s4, [], Some ESysCall)
         else if sock_is_tcp s4 \<and> \<not> list_all sys [Sys_reuseaddr, Sys_nodelay] then (s4, [], Some ESysCall)
         else if \<not> list_all sys [Sys_get_linger, Sys_set_linger] then (s4, [], Some ESysCall)
         else if laddr_set \<and> \<not> sys Sys_bind then (s4, [], Some ESysCall)
         else case conn of
           Conn_inprogress \<Rightarrow> (on_rx (th_add_write_fd (sock_this s4) fd) s4, [], None)
         | Conn_refused \<Rightarrow> (retry (crofsock_close self s4), [Ev_tcp_connect_refused], None)
         | Conn_error \<Rightarrow> (retry (crofsock_close self s4), [Ev_tcp_connect_failed], None)
         | Conn_ok \<Rightarrow>
             if \<not> list_all sys [Sys_getsockname, Sys_getpeername] then (s4, [], Some ESysCall)
             else (let s5 = on_rx (th_add_read_fd (sock_this s4) fd) (s4\<lparr>sock_state := STATE_TCP_ESTABLISHED\<rparr>);
                       s6 = on_rx (cthread_wakeup (Some (sock_this s5))) s5
                   in if flag_test FLAG_TLS_IN_USE s6
                      then tls_connect (flag_test FLAG_RECONNECT_ON_FAILURE s6) s6
                      else (s6, [Ev_tcp_connected], None)))"

text \<open>\<open>handle_timeout\<close>: the reconnect timer; \<open>tcp_connect\<close> and \<open>tls_connect\<close> are the calls above.\<close>

definition crofsock_handle_timeout ::
  "(bool \<Rightarrow> 'e crofsock \<Rightarrow> 'e sock_res) \<Rightarrow> (bool \<Rightarrow> 'e crofsock \<Rightarrow> 'e sock_res) \<Rightarrow> u32 \<Rightarrow> 'e crofsock \<Rightarrow> 'e sock_res" where
  "crofsock_handle_timeout tcp_connect tls_connect tid s =
     (if delete_in_progress s then (s, [], None)
      else if tid = TIMER_ID_RECONNECT then
        (if flag_test FLAG_TLS_IN_USE s then tls_connect True s else tcp_connect True s)
      else (s, [], None))"

section \<open>Lemmas\<close>

lemma flag_simps [simp]:
  "flag_test f (flag_set g v s) = (if f = g then v else flag_test f s)"
  "sock_state (flag_set g v s) = sock_state s" "rx_disabled (flag_set g v s) = rx_disabled s"
  "tx_disabled (flag_set g v s) = tx_disabled s" "sock_sd (flag_set g v s) = sock_sd s"
  "rx_thread (flag_set g v s) = rx_thread s" "tx_thread (flag_set g v s) = tx_thread s"
  "txqueues (flag_set g v s) = txqueues s" "txbuffer (flag_set g v s) = txbuffer s"
  "rxbuffer (flag_set g v s) = rxbuffer s" "txqueue_pending_pkts (flag_set g v s) = txqueue_pending_pkts s"
  "sock_freed (flag_set g v s) = sock_freed s" "sock_this (flag_set g v s) = sock_this s"
  "sock_ssl (flag_set g v s) = sock_ssl s"
  by (auto simp: flag_set_def flag_test_def)

lemma on_thread_simps [simp]:
  "sock_state (on_rx f s) = sock_state s" "sock_state (on_tx f s) = sock_state s"
  "rx_thread (on_rx f s) = f (rx_thread s)" "tx_thread (on_tx f s) = f (tx_thread s)"
  "rx_thread (on_tx f s) = rx_thread s" "tx_thread (on_rx f s) = tx_thread s"
  "sock_sd (on_rx f s) = sock_sd s" "sock_sd (on_tx f s) = sock_sd s"
  "txqueues (on_rx f s) = txqueues s" "txqueues (on_tx f s) = txqueues s"
  "txbuffer (on_rx f s) = txbuffer s" "txbuffer (on_tx f s) = txbuffer s"
  "rxbuffer (on_rx f s) = rxbuffer s" "rxbuffer (on_tx f s) = rxbuffer s"
  "sock_freed (on_rx f s) = sock_freed s" "sock_freed (on_tx f s) = sock_freed s"
  "sock_this (on_rx f s) = sock_this s" "sock_this (on_tx f s) = sock_this s"
  "txqueue_pending_pkts (on_rx f s) = txqueue_pending_pkts s"
  "txqueue_pending_pkts (on_tx f s) = txqueue_pending_pkts s"
  "flag_test g (on_rx f s) = flag_test g s" "flag_test g (on_tx f s) = flag_test g s"
  "tx_disabled (on_rx f s) = tx_disabled s" "tx_disabled (on_tx f s) = tx_disabled s"
  "rx_disabled (on_rx f s) = rx_disabled s" "rx_disabled (on_tx f s) = rx_disabled s"
  "sock_ssl (on_rx f s) = sock_ssl s" "sock_ssl (on_tx f s) = sock_ssl s"
  by (simp_all add: on_rx_def on_tx_def flag_test_def)

lemma flag_test_update [simp]:
  "flag_test g (s\<lparr>sock_state := x\<rparr>) = flag_test g s" "flag_test g (s\<lparr>sock_sd := y\<rparr>) = flag_test g s"
  "flag_test g (s\<lparr>rx_disabled := b\<rparr>) = flag_test g s" "flag_test g (s\<lparr>tx_disabled := b\<rparr>) = flag_test g s"
  "flag_test g (s\<lparr>sock_ssl := b\<rparr>) = flag_test g s" "flag_test g (s\<lparr>sock_mode := m\<rparr>) = flag_test g s"
  "flag_test g (s\<lparr>sock_freed := fr\<rparr>) = flag_test g s"
  "flag_test g (s\<lparr>txqueue_pending_pkts := n\<rparr>) = flag_test g s"
  "flag_test g (s\<lparr>txqueues := qs\<rparr>) = flag_test g s" "flag_test g (s\<lparr>txbuffer := cb\<rparr>) = flag_test g s"
  "flag_test g (s\<lparr>rxbuffer := cb\<rparr>) = flag_test g s" "flag_test g (s\<lparr>tx_is_running := b\<rparr>) = flag_test g s"
  "flag_test g (s\<lparr>txqueue_size_congestion_occurred := n\<rparr>) = flag_test g s"
  "flag_test g (s\<lparr>txqueue_size_tx_threshold := n\<rparr>) = flag_test g s"
  by (simp_all add: flag_test_def)

text \<open>What the descriptor operations do to a thread.\<close>

lemma th_drop_fd_fds: "th_fds (th_drop_fd fd th) = (if map_of (th_fds th) fd = None then th_fds th else map_erase fd (th_fds th))"
  by (simp add: th_drop_fd_def cthread_drop_fd_def epoll_ok_def Let_def)

lemma th_drop_fd_gone: "map_of (th_fds (th_drop_fd fd th)) fd = None"
  by (simp add: th_drop_fd_fds map_of_erase)

lemma th_fd_timers [simp]:
  "ordered_timers (th_drop_fd fd th) = ordered_timers th"
  "ordered_timers (th_drop_read_fd fd th) = ordered_timers th"
  "ordered_timers (th_drop_write_fd fd th) = ordered_timers th"
  by (auto simp: th_drop_fd_def cthread_drop_fd_def epoll_ok_def Let_def th_drop_read_fd_def
      cthread_drop_read_fd_def cthread_mod_fd_def th_drop_write_fd_def cthread_drop_write_fd_def
      split: option.splits)

lemma has_timer_timers: "ordered_timers th = ordered_timers th' \<Longrightarrow> cthread_has_timer e i th = cthread_has_timer e i th'"
  by (simp add: cthread_has_timer_def)

lemma disable_simps [simp]:
  "sock_state (sock_rx_disable s) = sock_state s" "sock_state (sock_tx_disable s) = sock_state s"
  "sock_sd (sock_rx_disable s) = sock_sd s" "sock_sd (sock_tx_disable s) = sock_sd s"
  "flag_test g (sock_rx_disable s) = flag_test g s" "flag_test g (sock_tx_disable s) = flag_test g s"
  "tx_thread (sock_rx_disable s) = tx_thread s" "tx_thread (sock_tx_disable s) = tx_thread s"
  "rx_thread (sock_tx_disable s) = rx_thread s"
  "ordered_timers (rx_thread (sock_rx_disable s)) = ordered_timers (rx_thread s)"
  "txqueues (sock_rx_disable s) = txqueues s" "txqueues (sock_tx_disable s) = txqueues s"
  "txbuffer (sock_rx_disable s) = txbuffer s" "txbuffer (sock_tx_disable s) = txbuffer s"
  "rxbuffer (sock_rx_disable s) = rxbuffer s" "rxbuffer (sock_tx_disable s) = rxbuffer s"
  "txqueue_pending_pkts (sock_rx_disable s) = txqueue_pending_pkts s"
  "txqueue_pending_pkts (sock_tx_disable s) = txqueue_pending_pkts s"
  "sock_freed (sock_rx_disable s) = sock_freed s" "sock_freed (sock_tx_disable s) = sock_freed s"
  "sock_this (sock_rx_disable s) = sock_this s" "sock_this (sock_tx_disable s) = sock_this s"
  by (auto simp: sock_rx_disable_def sock_tx_disable_def Let_def)

lemma close_tls_simps [simp]:
  "sock_sd (close_tls s) = sock_sd s" "txqueues (close_tls s) = txqueues s"
  "txbuffer (close_tls s) = txbuffer s" "rxbuffer (close_tls s) = rxbuffer s"
  "txqueue_pending_pkts (close_tls s) = txqueue_pending_pkts s" "sock_freed (close_tls s) = sock_freed s"
  "sock_this (close_tls s) = sock_this s"
  "ordered_timers (rx_thread (close_tls s)) = ordered_timers (rx_thread s)"
  "flag_test FLAG_CONGESTED (close_tls s) = flag_test FLAG_CONGESTED s"
  by (auto simp: close_tls_def Let_def split: socket_state_t.splits)

lemma close_tls_state:
  "sock_state (close_tls s) \<in> {STATE_IDLE, STATE_LISTENING, STATE_TCP_CONNECTING, STATE_TCP_ACCEPTING, STATE_TCP_ESTABLISHED}"
  "sock_state (close_tls s) = STATE_IDLE \<longleftrightarrow> sock_state s = STATE_IDLE"
  "sock_state s = STATE_TCP_CONNECTING \<Longrightarrow> close_tls s = s"
  by (cases "sock_state s"; simp add: close_tls_def Let_def)+

lemma close_tcp_simps [simp]:
  "txqueues (close_tcp self s) = txqueues s" "txbuffer (close_tcp self s) = txbuffer s"
  "rxbuffer (close_tcp self s) = rxbuffer s" "txqueue_pending_pkts (close_tcp self s) = txqueue_pending_pkts s"
  "sock_freed (close_tcp self s) = sock_freed s" "sock_this (close_tcp self s) = sock_this s"
  "ordered_timers (rx_thread (close_tcp self s)) = ordered_timers (rx_thread s)"
  by (auto simp: close_tcp_def Let_def split: socket_state_t.splits)

lemma close_tcp_idle:
  "sock_state s \<in> {STATE_IDLE, STATE_LISTENING, STATE_TCP_CONNECTING, STATE_TCP_ACCEPTING, STATE_TCP_ESTABLISHED} \<Longrightarrow>
   sock_state (close_tcp self s) = STATE_IDLE"
  by (cases "sock_state s") (auto simp: close_tcp_def Let_def)

lemma close_tcp_fds:
  assumes "sock_state s \<in> {STATE_LISTENING, STATE_TCP_CONNECTING, STATE_TCP_ACCEPTING, STATE_TCP_ESTABLISHED}"
    "sock_sd s > 0"
  shows "map_of (th_fds (rx_thread (close_tcp self s))) (sock_sd s) = None"
    "map_of (th_fds (tx_thread (close_tcp self s))) (sock_sd s) = None" "sock_sd (close_tcp self s) = -1"
  using assms by (auto simp: close_tcp_def Let_def th_drop_fd_gone)

lemma crofsock_close_simps [simp]:
  "txqueues (crofsock_close self s) = txqueues s" "txbuffer (crofsock_close self s) = txbuffer s"
  "rxbuffer (crofsock_close self s) = rxbuffer s"
  "txqueue_pending_pkts (crofsock_close self s) = txqueue_pending_pkts s"
  "sock_freed (crofsock_close self s) = sock_freed s" "sock_this (crofsock_close self s) = sock_this s"
  "ordered_timers (rx_thread (crofsock_close self s)) = ordered_timers (rx_thread s)"
  by (simp_all add: crofsock_close_def Let_def)

lemma crofsock_close_idle:
  assumes "\<not> flag_test FLAG_CLOSING s"
  shows "sock_state (crofsock_close self s) = STATE_IDLE" "\<not> flag_test FLAG_CLOSING (crofsock_close self s)"
    "\<not> rx_disabled (crofsock_close self s)" "\<not> tx_disabled (crofsock_close self s)"
  using assms close_tcp_idle [OF close_tls_state(1), of self "flag_set FLAG_CLOSING True s"]
  by (simp_all add: crofsock_close_def Let_def)

lemma clear_copies_simps [simp]:
  "txqueues (clear_txqueue_copies s) = txqueues s" "txbuffer (clear_txqueue_copies s) = txbuffer s"
  "rxbuffer (clear_txqueue_copies s) = rxbuffer s" "sock_state (clear_txqueue_copies s) = sock_state s"
  "txqueue_pending_pkts (clear_txqueue_copies s) = txqueue_pending_pkts s"
  "sock_this (clear_txqueue_copies s) = sock_this s"
  by (simp_all add: clear_txqueue_copies_def)

lemma clear_copies_frees:
  "set (sock_freed (clear_txqueue_copies s)) =
     set (sock_freed s) \<union> (\<Union>q \<in> set (txqueues s). msg_ptr ` set (queue q))"
  by (auto simp: clear_txqueue_copies_def)

section \<open>Properties\<close>

text \<open>
  \<open>close\<close> always ends in the idle state with reception and transmission enabled again and the
  closing flag taken back; if the socket was in use, its descriptor is gone from both threads.
\<close>

theorem close_releases:
  assumes "\<not> flag_test FLAG_CLOSING s"
  shows "sock_state (crofsock_close self s) = STATE_IDLE \<and> \<not> flag_test FLAG_CLOSING (crofsock_close self s) \<and>
    \<not> rx_disabled (crofsock_close self s) \<and> \<not> tx_disabled (crofsock_close self s) \<and>
    (sock_state s \<noteq> STATE_IDLE \<and> sock_sd s > 0 \<longrightarrow> sock_sd (crofsock_close self s) = -1 \<and>
       map_of (th_fds (rx_thread (crofsock_close self s))) (sock_sd s) = None \<and>
       map_of (th_fds (tx_thread (crofsock_close self s))) (sock_sd s) = None)"
proof -
  let ?s = "close_tls (flag_set FLAG_CLOSING True s)"
  have "sock_sd (crofsock_close self s) = -1 \<and>
       map_of (th_fds (rx_thread (crofsock_close self s))) (sock_sd s) = None \<and>
       map_of (th_fds (tx_thread (crofsock_close self s))) (sock_sd s) = None"
    if "sock_state s \<noteq> STATE_IDLE" "sock_sd s > 0"
  proof -
    have "sock_state ?s \<in> {STATE_LISTENING, STATE_TCP_CONNECTING, STATE_TCP_ACCEPTING, STATE_TCP_ESTABLISHED}"
      using close_tls_state(1,2) [of "flag_set FLAG_CLOSING True s"] that(1) by auto
    from close_tcp_fds [OF this, of self] show ?thesis
      using assms that(2) close_tcp_idle [OF close_tls_state(1), of self "flag_set FLAG_CLOSING True s"]
      by (simp add: crofsock_close_def Let_def)
  qed
  then show ?thesis
    using crofsock_close_idle [OF assms] by blast
qed

definition idle_thread :: cthread where
  "idle_thread = \<lparr>th_state = TH_STATE_RUNNING, th_running = True, th_tid = 1, th_fds = [],
     ordered_timers = [], th_wakeups = [], th_event_fd = 0\<rparr>"

definition busy_sock :: "nat crofsock" where
  "busy_sock = (crofsock_new 9 idle_thread idle_thread)\<lparr>sock_state := STATE_TLS_ESTABLISHED, sock_sd := 5,
     sock_ssl := True, rx_thread := th_add_read_fd 9 5 idle_thread\<rparr>"

theorem close_releases_example:
  "\<not> flag_test FLAG_CLOSING busy_sock \<and> sock_state (crofsock_close 1 busy_sock) = STATE_IDLE \<and>
   map_of (th_fds (rx_thread (crofsock_close 1 busy_sock))) 5 = None"
proof -
  have b: "\<not> flag_test FLAG_CLOSING busy_sock" "sock_state busy_sock \<noteq> STATE_IDLE" "sock_sd busy_sock = 5"
    by (simp_all add: busy_sock_def flag_test_def crofsock_new_def)
  with close_releases [OF b(1), of 1] show ?thesis by simp
qed

text \<open>
  \<open>close\<close> does not cancel a pending reconnect: the back-off timer lives on the receive thread,
  and \<open>close\<close> drops it from the transmit thread only.
\<close>

lemma close_keeps_reconnect_timer:
  "cthread_has_timer (sock_this s) TIMER_ID_RECONNECT (rx_thread (crofsock_close self s)) =
   cthread_has_timer (sock_this s) TIMER_ID_RECONNECT (rx_thread s)"
  by (rule has_timer_timers) simp

text \<open>
  The reconnect back-off doubles and settles at its maximum, but may exceed it once: the next
  delay is twice the last one as long as that is below the maximum, so it stays below twice the
  maximum, and from any delay at or above the maximum on it is the maximum.
\<close>

theorem backoff_bounded:
  assumes "\<not> cthread_has_timer (sock_this s) TIMER_ID_RECONNECT (rx_thread s)"
    and "0 < reconnect_backoff_current s" and "reconnect_backoff_current s < 2 * reconnect_backoff_max s"
    and "s' = backoff_reconnect now self False s"
  shows "0 < reconnect_backoff_current s' \<and> reconnect_backoff_current s' < 2 * reconnect_backoff_max s' \<and>
    (reconnect_backoff_max s \<le> reconnect_backoff_current s \<longrightarrow> reconnect_backoff_current s' = reconnect_backoff_max s) \<and>
    (reconnect_backoff_current s < reconnect_backoff_max s \<longrightarrow>
       reconnect_backoff_current s' = 2 * reconnect_backoff_current s) \<and>
    (reconnect_backoff_max s < reconnect_backoff_current s' \<longleftrightarrow>
       reconnect_backoff_max s < 2 * reconnect_backoff_current s \<and> reconnect_backoff_current s < reconnect_backoff_max s)"
  using assms(1-3) unfolding assms(4) by (auto simp: backoff_reconnect_def Let_def on_rx_def)

theorem backoff_bounded_example:
  "\<not> cthread_has_timer 9 TIMER_ID_RECONNECT idle_thread \<and>
   reconnect_backoff_current (backoff_reconnect \<lparr>tv_sec = 0, tv_nsec = 0\<rparr> 1 False
     (busy_sock\<lparr>reconnect_backoff_current := 32, rx_thread := idle_thread\<rparr>)) = 64 \<and>
   reconnect_backoff_max busy_sock = 60"
proof -
  let ?s = "busy_sock\<lparr>reconnect_backoff_current := 32, rx_thread := idle_thread\<rparr>"
  have h: "\<not> cthread_has_timer (sock_this ?s) TIMER_ID_RECONNECT (rx_thread ?s)"
      "0 < reconnect_backoff_current ?s" "reconnect_backoff_current ?s < 2 * reconnect_backoff_max ?s"
      "sock_this ?s = 9" "reconnect_backoff_max busy_sock = 60"
    by (simp_all add: busy_sock_def crofsock_new_def cthread_has_timer_def idle_thread_def)
  from backoff_bounded [OF h(1-3) refl, of "\<lparr>tv_sec = 0, tv_nsec = 0\<rparr>" 1] h show ?thesis
    by simp
qed

text \<open>
  Reconnecting leaves dangling pointers.  A connect attempt deletes the messages still queued
  for transmission, but from copies of the queues: afterwards every queue holds the same messages
  as before, all of them deleted, and the half-sent message in the transmit buffer is still there.
\<close>

theorem reconnect_leaves_dangling:
  assumes "fd \<ge> 0" and "\<forall>c. sys c"
    and "s' = fst (crofsock_tcp_connect sys Conn_inprogress tls laddr_set fd now self reconnect s)"
  shows "txqueues s' = txqueues s \<and> txbuffer s' = txbuffer s \<and> txqueue_pending_pkts s' = txqueue_pending_pkts s \<and>
    (\<forall>q \<in> set (txqueues s'). \<forall>m \<in> set (queue q). msg_ptr m \<in> set (sock_freed s'))"
proof -
  have "list_all sys cs" for cs
    using assms(2) by (simp add: list_all_iff)
  then show ?thesis
    using assms(1,2) unfolding assms(3)
    by (auto simp: crofsock_tcp_connect_def Let_def clear_copies_frees)
qed

definition queued_sock :: "nat crofsock" where
  "queued_sock = (busy_sock)\<lparr>sock_state := STATE_IDLE,
     txqueues := [\<lparr>queue = [hello_msg_example], queue_max_size = 128\<rparr>, crofqueue_new, crofqueue_new, crofqueue_new]\<rparr>"

theorem reconnect_leaves_dangling_example:
  "1 \<in> set (sock_freed (fst (crofsock_tcp_connect (\<lambda>_. True) Conn_inprogress (\<lambda>_ s. (s, [], None)) False 7
      \<lparr>tv_sec = 0, tv_nsec = 0\<rparr> 1 True queued_sock)))"
proof -
  have "hd (txqueues queued_sock) \<in> set (txqueues queued_sock)" "hello_msg_example \<in> set (queue (hd (txqueues queued_sock)))"
      "msg_ptr hello_msg_example = 1"
    by (simp_all add: queued_sock_def hello_msg_example_def)
  then show ?thesis
    using reconnect_leaves_dangling [of 7 "\<lambda>_. True" _ "\<lambda>_ s. (s, [], None)" False "\<lparr>tv_sec = 0, tv_nsec = 0\<rparr>" 1 True queued_sock]
    by force
qed

end
