(* ===== verification/Crofsock_Tx.thy ===== *)
theory Crofsock_Tx
  imports Crofsock "HOL-Library.Stream"
begin

text \<open>
  \<open>rofl::crofsock\<close>, part two: transmission.  \<open>send_message\<close> puts a message into one of four queues;
  \<open>send_from_queue\<close>, run by the transmit thread, serves the queues by weighted round robin, packs one
  message at a time into the transmit buffer and hands it to \<open>send\<close> or \<open>SSL_write\<close>, which may take
  any part of it or refuse.

  The packing of a message is a parameter \<open>pk\<close>.  The answers of \<open>send\<close> and \<open>SSL_write\<close> are an endless
  stream, one for every call: the operating system may answer for ever in a way that keeps the loop
  going, and then \<open>send_from_queue\<close> never returns.
\<close>

section \<open>Queueing a message\<close>

definition tx_queue_of :: "u8 \<Rightarrow> u8 \<Rightarrow> nat" where
  "tx_queue_of version type =
     (if version = OFP10_VERSION then
        (if type \<in> {10, 13} then QUEUE_PKT
         else if type \<in> {14, 11, 19, 18} then QUEUE_FLOW
         else if type \<in> {2, 3} then QUEUE_OAM
         else QUEUE_MGMT)
      else
        (if type \<in> {10, 13} then QUEUE_PKT
         else if type \<in> {14, 11, 15, 16, 17, 21, 20} then QUEUE_FLOW
         else if type \<in> {2, 3} then QUEUE_OAM
         else QUEUE_MGMT))"

definition crofsock_send_message :: "'e cofmsg \<Rightarrow> bool \<Rightarrow> 'e crofsock \<Rightarrow> 'e crofsock \<times> msg_result_t" where
  "crofsock_send_message msg enforce0 s =
     (if tx_disabled s
      then (s\<lparr>sock_freed := sock_freed s @ [msg_ptr msg]\<rparr>, MSG_QUEUEING_FAILED_SHUTDOWN_IN_PROGRESS)
      else if sock_state s \<noteq> STATE_TCP_ESTABLISHED \<and> sock_state s \<noteq> STATE_TLS_ESTABLISHED
      then (s\<lparr>sock_freed := sock_freed s @ [msg_ptr msg]\<rparr>, MSG_QUEUEING_FAILED_NOT_ESTABLISHED)
      else (let enforce = (if msg_type msg = 2 \<or> msg_type msg = 3 then True else enforce0);
                qid = tx_queue_of (msg_version msg) (msg_type msg)
            in case crofqueue_store msg enforce (txqueues s ! qid) of
                 Inl _ \<Rightarrow> (s\<lparr>sock_freed := sock_freed s @ [msg_ptr msg]\<rparr>, MSG_QUEUEING_FAILED_QUEUE_FULL)
               | Inr (q, _) \<Rightarrow>
                   (let s1 = s\<lparr>txqueues := (txqueues s)[qid := q], txqueue_pending_pkts := txqueue_pending_pkts s + 1\<rparr>;
                        s2 = (if \<not> tx_is_running s1 then on_tx (cthread_wakeup (Some (sock_this s1))) s1 else s1)
                    in (s2, if flag_test FLAG_TX_BLOCK_QUEUEING s2 then MSG_QUEUED_CONGESTION else MSG_QUEUED))))"

section \<open>Sending from the queues\<close>

datatype ssl_error =
    SSL_ERROR_WANT_READ | SSL_ERROR_WANT_WRITE | SSL_ERROR_WANT_ACCEPT | SSL_ERROR_WANT_CONNECT
  | SSL_ERROR_NONE | SSL_ERROR_SSL | SSL_ERROR_SYSCALL | SSL_ERROR_ZERO_RETURN | SSL_ERROR_OTHER

text \<open>
  An answer of \<open>send\<close> (TCP) or \<open>SSL_write\<close> (TLS).  For TCP, \<open>WANT_WRITE\<close> reads as \<open>EAGAIN\<close> and every
  other error as a failed call.  A return value of zero is \<open>TX_sent 0\<close> also for \<open>SSL_write\<close>, where it means
  a failure: the code asks for an error code but looks at it for negative values only.
\<close>

datatype tx_answer = TX_sent nat | TX_fail ssl_error

text \<open>What is threaded through the loops: the socket, the bytes sent, the events, the answers to come.\<close>

type_synonym 'e tx_st = "'e crofsock \<times> byte list \<times> 'e sock_event list \<times> tx_answer stream"

datatype tx_ctl = TX_next | TX_break | TX_return "rofl_exn option"

text \<open>\<open>pack\<close> zeroes the free part of the buffer, writes the message, and \<open>wseek\<close> commits it.\<close>

definition tx_pack :: "byte list \<Rightarrow> cbuffer \<Rightarrow> cbuffer" where
  "tx_pack bytes b =
     cb_wseek (length bytes) SEEK_CUR (cb_store (bytes @ replicate (cb_wmemlen b - length bytes) 0) b)"

definition tx_congestion :: "'e crofsock \<Rightarrow> 'e crofsock \<times> 'e sock_event list" where
  "tx_congestion s0 =
     (let s1 = on_tx (th_add_write_fd (sock_this s0) (sock_sd s0))
                 (flag_set FLAG_CONGESTED True (s0\<lparr>tx_is_running := False\<rparr>))
      in if \<not> flag_test FLAG_TX_BLOCK_QUEUEING s1
         then ((flag_set FLAG_TX_BLOCK_QUEUEING True s1)
                 \<lparr>txqueue_size_congestion_occurred := txqueue_pending_pkts s1,
                  txqueue_size_tx_threshold := txqueue_pending_pkts s1 div 2\<rparr>, [Ev_congestion_occurred])
         else (s1, []))"

text \<open>\<open>n\<close> bytes of the transmit buffer were taken.\<close>

definition tx_advance :: "nat \<Rightarrow> 'e crofsock \<Rightarrow> 'e crofsock" where
  "tx_advance n s0 =
     (let s1 = flag_set FLAG_CONGESTED False (s0\<lparr>txbuffer := cb_rseek n SEEK_CUR (txbuffer s0)\<rparr>)
      in if cb_empty (txbuffer s1) then s1\<lparr>txqueue_pending_pkts := txqueue_pending_pkts s1 - 1\<rparr> else s1)"

text \<open>The \<open>switch (state)\<close> around \<open>send\<close> and \<open>SSL_write\<close>.\<close>

definition tx_send :: "'e tx_st \<Rightarrow> tx_ctl \<times> 'e tx_st" where
  "tx_send st =
     (case st of (s, out, evs, rs) \<Rightarrow>
        (let ans = shd rs; rs' = stl rs
         in if sock_state s = STATE_TCP_ESTABLISHED \<or> sock_state s = STATE_TLS_ESTABLISHED then
              (case ans of
                 TX_sent n \<Rightarrow> (TX_next, tx_advance n s, out @ take n (cb_content (txbuffer s)), evs, rs')
               | TX_fail e \<Rightarrow>
                   if e = SSL_ERROR_WANT_WRITE then
                     (case tx_congestion s of (s', ev) \<Rightarrow> (TX_return None, s', out, evs @ ev, rs'))
                   else if sock_state s = STATE_TLS_ESTABLISHED \<and> e = SSL_ERROR_WANT_READ then
                     (TX_return None, s, out, evs, rs')
                   else if sock_state s = STATE_TLS_ESTABLISHED \<and> e = SSL_ERROR_NONE then
                     (TX_next, s, out, evs, rs')
                   else (TX_return None, s\<lparr>tx_is_running := False\<rparr>, out, evs, rs'))
            else (TX_next, s, out, evs, rs)))"

text \<open>The body of the innermost loop.\<close>

definition tx_slot :: "('e cofmsg \<Rightarrow> byte list) \<Rightarrow> nat \<Rightarrow> 'e tx_st \<Rightarrow> tx_ctl \<times> 'e tx_st" where
  "tx_slot pk qid st =
     (case st of (s, out, evs, rs) \<Rightarrow>
        if tx_disabled s \<or> sock_state s < STATE_TCP_ESTABLISHED
        then (TX_return None, s\<lparr>tx_is_running := False\<rparr>, out, evs, rs)
        else if cb_empty (txbuffer s) then
          (case crofqueue_retrieve (txqueues s ! qid) of
             (_, None) \<Rightarrow> (TX_break, s, out, evs, rs)
           | (q, Some msg) \<Rightarrow>
               (let s1 = s\<lparr>txqueues := (txqueues s)[qid := q]\<rparr>
                in if cb_wmemlen (txbuffer s) < length (pk msg) then (TX_return (Some EInvalid), s1, out, evs, rs)
                   else tx_send (s1\<lparr>txbuffer := tx_pack (pk msg) (txbuffer s1),
                                    sock_freed := sock_freed s1 @ [msg_ptr msg]\<rparr>, out, evs, rs)))
        else tx_send (s, out, evs, rs))"

text \<open>\<open>for (num = 0; num < txweights[queue_id]; ++num)\<close>\<close>

fun tx_slots :: "('e cofmsg \<Rightarrow> byte list) \<Rightarrow> nat \<Rightarrow> nat \<Rightarrow> 'e tx_st \<Rightarrow> tx_ctl \<times> 'e tx_st" where
  "tx_slots pk qid 0 st = (TX_next, st)"
| "tx_slots pk qid (Suc n) st =
     (case tx_slot pk qid st of
        (TX_next, st') \<Rightarrow> tx_slots pk qid n st'
      | (TX_break, st') \<Rightarrow> (TX_next, st')
      | (TX_return e, st') \<Rightarrow> (TX_return e, st'))"

text \<open>\<open>for (queue_id = 0; queue_id < QUEUE_MAX; ++queue_id)\<close>, with the \<open>reschedule\<close> flag.\<close>

fun tx_queues :: "('e cofmsg \<Rightarrow> byte list) \<Rightarrow> nat list \<Rightarrow> bool \<Rightarrow> 'e tx_st \<Rightarrow> tx_ctl \<times> bool \<times> 'e tx_st" where
  "tx_queues pk [] resched st = (TX_next, resched, st)"
| "tx_queues pk (qid # qids) resched st =
     (case tx_slots pk qid (txweights (fst st) ! qid) st of
        (TX_return e, st') \<Rightarrow> (TX_return e, resched, st')
      | (_, st') \<Rightarrow> tx_queues pk qids (resched \<or> \<not> crofqueue_empty (txqueues (fst st') ! qid)) st')"

definition tx_check_solved :: "'e tx_st \<Rightarrow> 'e tx_st" where
  "tx_check_solved st =
     (case st of (s, out, evs, rs) \<Rightarrow>
        if \<not> flag_test FLAG_CONGESTED s \<and> flag_test FLAG_TX_BLOCK_QUEUEING s \<and>
           txqueue_pending_pkts s \<le> txqueue_size_tx_threshold s
        then (flag_set FLAG_TX_BLOCK_QUEUEING False s, out, evs @ [Ev_congestion_solved], rs)
        else st)"

text \<open>
  How far a run has come: still going when the turns given to it are used up, or finished, with the
  exception it ended with, if any.
\<close>

datatype 'e tx_run = TX_running "'e tx_st" | TX_finished "rofl_exn option" "'e tx_st"

primrec tx_state :: "'e tx_run \<Rightarrow> 'e tx_st" where
  "tx_state (TX_running st) = st"
| "tx_state (TX_finished e st) = st"

text \<open>The \<open>do ... while (reschedule)\<close> loop, for a number of turns.\<close>

fun tx_loop :: "('e cofmsg \<Rightarrow> byte list) \<Rightarrow> nat \<Rightarrow> 'e tx_st \<Rightarrow> 'e tx_run" where
  "tx_loop pk 0 st = TX_running st"
| "tx_loop pk (Suc turns) st =
     (case tx_queues pk [0, 1, 2, 3] False st of
        (TX_return e, _, st') \<Rightarrow> TX_finished e st'
      | (_, resched, st') \<Rightarrow>
          (let st'' = tx_check_solved st'
           in if resched then tx_loop pk turns st''
              else (case st'' of (s, out, evs, rs) \<Rightarrow>
                      (let s1 = s\<lparr>tx_is_running := False\<rparr>;
                           s2 = (if txqueue_pending_pkts s1 > 0 \<and> \<not> flag_test FLAG_TX_BLOCK_QUEUEING s1
                                 then on_tx (cthread_wakeup (Some (sock_this s1))) s1 else s1)
                       in TX_finished None (s2, out, evs, rs)))))"

definition send_from_queue ::
  "('e cofmsg \<Rightarrow> byte list) \<Rightarrow> nat \<Rightarrow> tx_answer stream \<Rightarrow> 'e crofsock \<Rightarrow> 'e tx_run" where
  "send_from_queue pk turns rs s =
     (if sock_state s \<le> STATE_IDLE \<or> delete_in_progress s then TX_finished None (s, [], [], rs)
      else tx_loop pk turns (s\<lparr>tx_is_running := True\<rparr>, [], [], rs))"

text \<open>\<open>handle_write_event\<close> on the transmit thread: the descriptor is writable again.\<close>

definition handle_write_event_tx ::
  "('e cofmsg \<Rightarrow> byte list) \<Rightarrow> nat \<Rightarrow> tx_answer stream \<Rightarrow> 'e crofsock \<Rightarrow> 'e tx_run" where
  "handle_write_event_tx pk turns rs s =
     (if flag_test FLAG_CLOSING s \<or> delete_in_progress s then TX_finished None (s, [], [], rs)
      else send_from_queue pk turns rs (on_tx (th_drop_write_fd (sock_sd s)) (flag_set FLAG_CONGESTED False s)))"

text \<open>\<open>handle_wakeup\<close> on the transmit thread.\<close>

definition handle_wakeup_tx ::
  "('e cofmsg \<Rightarrow> byte list) \<Rightarrow> nat \<Rightarrow> tx_answer stream \<Rightarrow> 'e crofsock \<Rightarrow> 'e tx_run" where
  "handle_wakeup_tx pk turns rs s =
     (if flag_test FLAG_CLOSING s \<or> delete_in_progress s then TX_finished None (s, [], [], rs)
      else send_from_queue pk turns rs s)"

section \<open>The transmit invariant\<close>

definition tx_queued :: "'e crofsock \<Rightarrow> nat" where
  "tx_queued s = sum_list (map (\<lambda>q. length (queue q)) (txqueues s))"

text \<open>
  Four queues with positive weights, a transmit buffer of 65536 bytes that starts at its beginning
  when empty, and a packet counter that counts the queued messages and the one in the buffer.
\<close>

definition tx_inv :: "'e crofsock \<Rightarrow> bool" where
  "tx_inv s \<longleftrightarrow> length (txqueues s) = 4 \<and> length (txweights s) = 4 \<and> (\<forall>w \<in> set (txweights s). 0 < w) \<and>
     cb_wf (txbuffer s) \<and> length (cb_mem (txbuffer s)) = 65536 \<and>
     (cb_content (txbuffer s) = [] \<longrightarrow> cb_wbytes (txbuffer s) = 0) \<and>
     txqueue_pending_pkts s = word_of_nat (tx_queued s + (if cb_content (txbuffer s) = [] then 0 else 1))"

lemma tx_inv_new: "tx_inv (crofsock_new this rx tx)"
  by (simp add: tx_inv_def crofsock_new_def tx_queued_def crofqueue_new_def)

lemma tx_queued_update:
  assumes "qid < length qs" "length (queue (qs ! qid)) = Suc (length (queue q'))"
  shows "sum_list (map (\<lambda>q. length (queue q)) qs) = Suc (sum_list (map (\<lambda>q. length (queue q)) (qs[qid := q'])))"
  using assms
proof (induction qs arbitrary: qid)
  case (Cons q qs)
  then show ?case
    by (cases qid) simp_all
qed simp

lemma tx_pack_write:
  assumes "cb_wf b" "length bytes \<le> cb_wmemlen b"
  shows "cb_wf (tx_pack bytes b)" "cb_content (tx_pack bytes b) = cb_content b @ bytes"
    "length (cb_mem (tx_pack bytes b)) = length (cb_mem b)"
  using assms by (auto simp: tx_pack_def cb_defs Let_def drop_take)

lemmas tx_inv_defs = tx_inv_def tx_queued_def

section \<open>Conservation of messages\<close>

text \<open>
  \<open>tx_rel st st' taken\<close>: between the two states the messages in \<open>taken\<close> (with their queue) were
  taken from the front of the queues, in this order, and the bytes sent plus those left in the buffer
  are the old ones followed by the packed messages.  The answers to come are a suffix of the stream.
\<close>

definition later :: "tx_answer stream \<Rightarrow> tx_answer stream \<Rightarrow> bool" where
  "later rs rs' \<longleftrightarrow> (\<exists>k. rs' = sdrop k rs)"

lemma later_refl [simp]: "later rs rs"
  unfolding later_def by (rule exI [of _ 0]) simp

lemma later_stl [simp]: "later rs (stl rs)"
  unfolding later_def by (rule exI [of _ 1]) simp

lemma later_trans: "later a b \<Longrightarrow> later b c \<Longrightarrow> later a c"
  by (auto simp: later_def sdrop_add)

definition tx_rel ::
  "('e cofmsg \<Rightarrow> byte list) \<Rightarrow> 'e tx_st \<Rightarrow> 'e tx_st \<Rightarrow> (nat \<times> 'e cofmsg) list \<Rightarrow> bool" where
  "tx_rel pk st st' taken \<longleftrightarrow>
     (case st of (s, out, evs, rs) \<Rightarrow> case st' of (s', out', evs', rs') \<Rightarrow>
        out' @ cb_content (txbuffer s') = out @ cb_content (txbuffer s) @ concat (map (\<lambda>qm. pk (snd qm)) taken) \<and>
        (\<forall>q < 4. queue (txqueues s ! q) = map snd (filter (\<lambda>qm. fst qm = q) taken) @ queue (txqueues s' ! q)) \<and>
        (\<forall>qm \<in> set taken. fst qm < 4) \<and> later rs rs')"

lemma tx_rel_refl: "tx_rel pk st st []"
  by (auto simp: tx_rel_def split: prod.splits)

lemma tx_rel_trans: "tx_rel pk a b xs \<Longrightarrow> tx_rel pk b c ys \<Longrightarrow> tx_rel pk a c (xs @ ys)"
  by (auto simp: tx_rel_def intro: later_trans split: prod.splits)

definition pk_ok :: "('e cofmsg \<Rightarrow> byte list) \<Rightarrow> bool" where
  "pk_ok pk \<longleftrightarrow> (\<forall>m. pk m \<noteq> [] \<and> length (pk m) \<le> 65536)"

lemma tx_inv_frame:
  "tx_inv s \<Longrightarrow> txqueues s' = txqueues s \<Longrightarrow> txweights s' = txweights s \<Longrightarrow> txbuffer s' = txbuffer s \<Longrightarrow>
   txqueue_pending_pkts s' = txqueue_pending_pkts s \<Longrightarrow> tx_inv s'"
  by (simp add: tx_inv_defs)

lemma txweights_simps [simp]:
  "txweights (flag_set f v s) = txweights s" "txweights (on_tx g s) = txweights s" "txweights (on_rx g s) = txweights s"
  by (simp_all add: flag_set_def on_tx_def on_rx_def)

lemma tx_congestion_frame:
  assumes "tx_congestion s = (s', ev)"
  shows "txqueues s' = txqueues s" "txweights s' = txweights s" "txbuffer s' = txbuffer s"
    "txqueue_pending_pkts s' = txqueue_pending_pkts s"
  using assms by (auto simp: tx_congestion_def Let_def split: if_splits)

lemma tx_advance_ok:
  assumes "tx_inv s" "cb_content (txbuffer s) \<noteq> []"
  shows "tx_inv (tx_advance n s)" "txqueues (tx_advance n s) = txqueues s"
    "cb_content (txbuffer (tx_advance n s)) = drop n (cb_content (txbuffer s))"
proof -
  let ?b = "cb_rseek n SEEK_CUR (txbuffer s)"
  have wf: "cb_wf (txbuffer s)"
    using assms(1) by (simp add: tx_inv_def)
  note con = cb_consume [OF wf, of n]
  have buf: "txbuffer (tx_advance n s) = ?b" "txqueues (tx_advance n s) = txqueues s"
      "txweights (tx_advance n s) = txweights s"
    by (simp_all add: tx_advance_def Let_def)
  show "cb_content (txbuffer (tx_advance n s)) = drop n (cb_content (txbuffer s))"
      "txqueues (tx_advance n s) = txqueues s"
    by (simp_all add: buf con)
  have e: "cb_empty ?b \<longleftrightarrow> cb_content ?b = []"
    by (rule cb_empty_content [OF con(1)])
  have "txqueue_pending_pkts s = word_of_nat (tx_queued s) + 1"
    using assms by (simp add: tx_inv_def add.commute)
  then have "txqueue_pending_pkts (tx_advance n s) = word_of_nat (tx_queued s + (if cb_content ?b = [] then 0 else 1))"
    using e by (simp add: tx_advance_def Let_def add.commute)
  moreover have "cb_content ?b = [] \<longrightarrow> cb_wbytes ?b = 0"
    using cb_consume_all [OF wf, of n] by blast
  ultimately show "tx_inv (tx_advance n s)"
    using assms(1) con by (simp add: tx_inv_defs buf)
qed

text \<open>The good end of a step: invariant kept, messages accounted for, no exception.\<close>

definition tx_good :: "('e cofmsg \<Rightarrow> byte list) \<Rightarrow> 'e tx_st \<Rightarrow> tx_ctl \<Rightarrow> 'e tx_st \<Rightarrow> bool" where
  "tx_good pk st c st' \<longleftrightarrow> tx_inv (fst st') \<and> (\<exists>taken. tx_rel pk st st' taken) \<and> (\<forall>e. c = TX_return e \<longrightarrow> e = None)"

lemma tx_send_good:
  assumes "tx_inv s" "cb_content (txbuffer s) \<noteq> []" "tx_send (s, out, evs, rs) = (c, st')"
  shows "tx_good pk (s, out, evs, rs) c st'"
proof -
  have same: "tx_good pk (s, out, evs, rs) c' (s', out, evs', rs')"
    if "txqueues s' = txqueues s" "txweights s' = txweights s" "txbuffer s' = txbuffer s"
      "txqueue_pending_pkts s' = txqueue_pending_pkts s" "later rs rs'" "\<forall>e. c' = TX_return e \<longrightarrow> e = None"
    for c' s' evs' rs'
    unfolding tx_good_def using that tx_inv_frame [OF assms(1) that(1-4)]
    by (auto simp: tx_rel_def intro!: exI [of _ "[]"])
  have adv: "tx_good pk (s, out, evs, rs) TX_next (tx_advance n s, out @ take n (cb_content (txbuffer s)), evs, stl rs)" for n
    unfolding tx_good_def using tx_advance_ok [OF assms(1,2), of n]
    by (auto simp: tx_rel_def intro!: exI [of _ "[]"])
  obtain s' ev where cong: "tx_congestion s = (s', ev)"
    by fastforce
  note l = later_stl [of rs] later_refl [of rs]
  show ?thesis
    using assms(3) same [OF tx_congestion_frame [OF cong] l(1), of "TX_return None" "evs @ ev"]
      same [OF refl refl refl refl l(1)] same [OF refl refl refl refl l(2)]
      same [of "s\<lparr>tx_is_running := False\<rparr>" "stl rs" "TX_return None" evs] adv l(1)
    unfolding tx_send_def prod.case Let_def cong
    by (cases "shd rs") (auto split: if_splits)
qed

lemma tx_slot_good:
  assumes "pk_ok pk" "tx_inv s" "qid < 4" "tx_slot pk qid (s, out, evs, rs) = (c, st')"
  shows "tx_good pk (s, out, evs, rs) c st'"
proof -
  have wf: "cb_wf (txbuffer s)" and len: "length (txqueues s) = 4"
    using assms(2) by (simp_all add: tx_inv_def)
  have idle: "tx_good pk (s, out, evs, rs) c' (s', out, evs, rs)"
    if "s' = s \<or> s' = s\<lparr>tx_is_running := False\<rparr>" "\<forall>e. c' = TX_return e \<longrightarrow> e = None" for c' s'
    unfolding tx_good_def using that tx_inv_frame [OF assms(2), of s'] tx_rel_refl [of pk "(s, out, evs, rs)"]
    by (auto simp: tx_rel_def intro!: exI [of _ "[]"])
  show ?thesis
  proof (cases "tx_disabled s \<or> sock_state s < STATE_TCP_ESTABLISHED")
    case True
    with assms(4) idle show ?thesis by (auto simp: tx_slot_def split: if_splits)
  next
    case run: False
    show ?thesis
    proof (cases "cb_empty (txbuffer s)")
      case False
      then have "cb_content (txbuffer s) \<noteq> []"
        using cb_empty_content [OF wf] by simp
      then show ?thesis
        using tx_send_good [OF assms(2), of out evs rs c st'] assms(4) run False
        by (auto simp: tx_slot_def split: if_splits)
    next
      case True
      then have empty: "cb_content (txbuffer s) = []" "cb_wmemlen (txbuffer s) = 65536"
        using cb_empty_content [OF wf] assms(2) by (simp_all add: tx_inv_def cb_wmemlen_def)
      show ?thesis
      proof (cases "queue (txqueues s ! qid)")
        case Nil
        then show ?thesis
          using assms(4) run True idle by (auto simp: tx_slot_def crofqueue_retrieve_def split: if_splits)
      next
        case (Cons msg rest)
        define s1 where "s1 = s\<lparr>txqueues := (txqueues s)[qid := (txqueues s ! qid)\<lparr>queue := rest\<rparr>],
          txbuffer := tx_pack (pk msg) (txbuffer s), sock_freed := sock_freed s @ [msg_ptr msg]\<rparr>"
        have pk: "pk msg \<noteq> []" "length (pk msg) \<le> 65536"
          using assms(1) by (auto simp: pk_ok_def)
        note w = tx_pack_write [OF wf, of "pk msg"]
        have content: "cb_content (txbuffer s1) = pk msg" "cb_wf (txbuffer s1)" "length (cb_mem (txbuffer s1)) = 65536"
          using w pk empty assms(2) by (simp_all add: s1_def tx_inv_def)
        have "tx_queued s = Suc (tx_queued s1)"
          unfolding tx_queued_def s1_def using tx_queued_update [of qid "txqueues s" "(txqueues s ! qid)\<lparr>queue := rest\<rparr>"]
            Cons assms(3) len by simp
        then have inv1: "tx_inv s1"
          using assms(2) content pk empty by (simp add: tx_inv_def s1_def)
        have "tx_send (s1, out, evs, rs) = (c, st')"
          using assms(4) run True Cons pk empty
          by (auto simp: tx_slot_def crofqueue_retrieve_def s1_def Let_def split: if_splits)
        then have good: "tx_good pk (s1, out, evs, rs) c st'"
          using tx_send_good [OF inv1] content pk by simp
        moreover have "tx_rel pk (s, out, evs, rs) (s1, out, evs, rs) [(qid, msg)]"
          using Cons empty content assms(3) len by (auto simp: tx_rel_def s1_def nth_list_update)
        ultimately show ?thesis
          by (auto simp: tx_good_def intro: tx_rel_trans)
      qed
    qed
  qed
qed

lemma tx_good_refl: "tx_inv (fst st) \<Longrightarrow> tx_good pk st TX_next st"
  using tx_rel_refl [of pk st] by (auto simp: tx_good_def)

lemma tx_good_trans: "tx_good pk a c' b \<Longrightarrow> tx_good pk b c d \<Longrightarrow> tx_good pk a c d"
  by (auto simp: tx_good_def intro: tx_rel_trans)

lemma tx_slots_good:
  "pk_ok pk \<Longrightarrow> tx_inv (fst st) \<Longrightarrow> qid < 4 \<Longrightarrow> tx_slots pk qid n st = (c, st') \<Longrightarrow> tx_good pk st c st'"
proof (induction n arbitrary: st)
  case 0
  then show ?case by (simp add: tx_good_refl)
next
  case (Suc n)
  obtain s out evs rs where st: "st = (s, out, evs, rs)"
    by (cases st) auto
  obtain c1 st1 where slot: "tx_slot pk qid st = (c1, st1)"
    by (rule prod.exhaust)
  have good: "tx_good pk st c1 st1"
    using tx_slot_good [of pk s qid out evs rs c1 st1] Suc.prems slot by (simp add: st)
  then have inv: "tx_inv (fst st1)"
    by (simp add: tx_good_def)
  show ?case
  proof (cases c1)
    case TX_next
    then show ?thesis
      using tx_good_trans [OF good Suc.IH [of st1]] inv Suc.prems slot by simp
  next
    case TX_break
    then show ?thesis
      using good Suc.prems slot by (auto simp: tx_good_def)
  next
    case (TX_return e)
    then show ?thesis
      using good Suc.prems slot by simp
  qed
qed

lemma tx_queues_good:
  "pk_ok pk \<Longrightarrow> tx_inv (fst st) \<Longrightarrow> \<forall>q \<in> set qids. q < 4 \<Longrightarrow> tx_queues pk qids r st = (c, r', st') \<Longrightarrow>
   tx_good pk st c st'"
proof (induction qids arbitrary: r st)
  case Nil
  then show ?case by (simp add: tx_good_refl)
next
  case (Cons qid qids)
  obtain c1 st1 where slots: "tx_slots pk qid (txweights (fst st) ! qid) st = (c1, st1)"
    by (rule prod.exhaust)
  have good: "tx_good pk st c1 st1"
    using tx_slots_good [OF _ _ _ slots] Cons.prems by simp
  then have inv: "tx_inv (fst st1)"
    by (simp add: tx_good_def)
  show ?case
  proof (cases c1)
    case (TX_return e)
    with good slots Cons.prems show ?thesis by simp
  qed (use tx_good_trans [OF good Cons.IH [of st1]] inv slots Cons.prems in simp_all)
qed

section \<open>Progress\<close>

text \<open>
  Two answers keep the loop going without any progress: zero bytes taken, and \<open>SSL_ERROR_NONE\<close>.  A
  stream of answers is fair when others keep coming.
\<close>

definition productive :: "tx_answer \<Rightarrow> bool" where
  "productive r \<longleftrightarrow> r \<noteq> TX_sent 0 \<and> r \<noteq> TX_fail SSL_ERROR_NONE"

definition fair_answers :: "tx_answer stream \<Rightarrow> bool" where
  "fair_answers rs \<longleftrightarrow> (\<forall>k. \<exists>i \<ge> k. productive (rs !! i))"

definition tx_wait :: "tx_answer stream \<Rightarrow> nat" where
  "tx_wait rs = (LEAST i. productive (rs !! i))"

lemma fair_later: "fair_answers rs \<Longrightarrow> later rs rs' \<Longrightarrow> fair_answers rs'"
proof -
  assume fair: "fair_answers rs" and "later rs rs'"
  then obtain n where rs': "rs' = sdrop n rs"
    by (auto simp: later_def)
  have "\<exists>i \<ge> k. productive (rs' !! i)" for k
  proof -
    obtain i where "i \<ge> n + k" "productive (rs !! i)"
      using fair by (auto simp: fair_answers_def)
    then show ?thesis
      by (intro exI [of _ "i - n"]) (simp add: rs' sdrop_snth)
  qed
  then show ?thesis
    by (simp add: fair_answers_def)
qed

lemma tx_wait_stl:
  assumes "fair_answers rs" "\<not> productive (shd rs)"
  shows "tx_wait (stl rs) < tx_wait rs"
proof -
  obtain i where "productive (rs !! i)"
    using assms(1) by (auto simp: fair_answers_def)
  then have "tx_wait rs = Suc (LEAST i. productive (rs !! Suc i))"
    unfolding tx_wait_def by (rule Least_Suc) (use assms(2) in simp)
  then show ?thesis
    by (simp add: tx_wait_def)
qed

text \<open>A step makes progress when bytes left, or else the next productive answer came closer.\<close>

definition tx_forward :: "bool \<Rightarrow> 'e tx_st \<Rightarrow> 'e tx_st \<Rightarrow> bool" where
  "tx_forward strict st st' \<longleftrightarrow>
     (case st of (s, out, evs, rs) \<Rightarrow> case st' of (s', out', evs', rs') \<Rightarrow>
        length out < length out' \<or>
        length out = length out' \<and> (if strict then tx_wait rs' < tx_wait rs else tx_wait rs' \<le> tx_wait rs))"

lemma tx_forward_refl: "tx_forward False st st"
  by (auto simp: tx_forward_def split: prod.splits)

lemma tx_forward_trans: "tx_forward x a b \<Longrightarrow> tx_forward y b c \<Longrightarrow> tx_forward (x \<or> y) a c"
  by (auto simp: tx_forward_def split: prod.splits if_splits)

lemma tx_forward_weak: "tx_forward x a b \<Longrightarrow> tx_forward False a b"
  by (auto simp: tx_forward_def split: prod.splits if_splits)

abbreviation tx_answers :: "'e tx_st \<Rightarrow> tx_answer stream" where
  "tx_answers st \<equiv> snd (snd (snd st))"

lemma tx_send_forward:
  assumes "cb_content (txbuffer s) \<noteq> []" "fair_answers rs"
    "sock_state s = STATE_TCP_ESTABLISHED \<or> sock_state s = STATE_TLS_ESTABLISHED"
    "tx_send (s, out, evs, rs) = (TX_next, st')"
  shows "tx_forward True (s, out, evs, rs) st'"
proof (cases "productive (shd rs)")
  case False
  with assms(3,4) tx_wait_stl [OF assms(2) False] show ?thesis
    by (auto simp: tx_send_def Let_def productive_def tx_forward_def split: if_splits prod.splits)
next
  case True
  with assms(1,3,4) show ?thesis
    by (auto simp: tx_send_def Let_def productive_def tx_forward_def split: if_splits tx_answer.splits prod.splits)
qed

lemma tx_send_no_break: "tx_send st \<noteq> (TX_break, st')"
  by (auto simp: tx_send_def Let_def split: if_splits tx_answer.splits prod.splits)

lemma tx_slot_forward:
  assumes "pk_ok pk" "tx_inv s" "fair_answers rs" "tx_slot pk qid (s, out, evs, rs) = (TX_next, st')"
  shows "tx_forward True (s, out, evs, rs) st'"
proof -
  have wf: "cb_wf (txbuffer s)"
    using assms(2) by (simp add: tx_inv_def)
  have est: "sock_state s = STATE_TCP_ESTABLISHED \<or> sock_state s = STATE_TLS_ESTABLISHED"
    using assms(4) by (auto simp: tx_slot_def split: if_splits)
  show ?thesis
  proof (cases "cb_empty (txbuffer s)")
    case False
    then have "cb_content (txbuffer s) \<noteq> []" "tx_send (s, out, evs, rs) = (TX_next, st')"
      using assms(4) cb_empty_content [OF wf] by (auto simp: tx_slot_def split: if_splits)
    with tx_send_forward [OF _ assms(3) est] show ?thesis by blast
  next
    case True
    then obtain q msg where r: "crofqueue_retrieve (txqueues s ! qid) = (q, Some msg)" "length (pk msg) \<le> cb_wmemlen (txbuffer s)"
      using assms(4) by (auto simp: tx_slot_def Let_def not_less split: if_splits option.splits prod.splits)
    define s1 where "s1 = s\<lparr>txqueues := (txqueues s)[qid := q], txbuffer := tx_pack (pk msg) (txbuffer s),
      sock_freed := sock_freed s @ [msg_ptr msg]\<rparr>"
    have "cb_content (txbuffer s1) \<noteq> []"
      using tx_pack_write(2) [OF wf r(2)] assms(1) by (simp add: s1_def pk_ok_def)
    moreover have "sock_state s1 = STATE_TCP_ESTABLISHED \<or> sock_state s1 = STATE_TLS_ESTABLISHED"
      using est by (simp add: s1_def)
    moreover have "tx_send (s1, out, evs, rs) = (TX_next, st')"
      using assms(4) True r by (auto simp: tx_slot_def Let_def s1_def split: if_splits)
    ultimately have "tx_forward True (s1, out, evs, rs) st'"
      using tx_send_forward assms(3) by blast
    then show ?thesis
      by (simp add: tx_forward_def)
  qed
qed

lemma tx_slot_break: "tx_slot pk qid st = (TX_break, st') \<Longrightarrow> st' = st \<and> queue (txqueues (fst st) ! qid) = []"
  by (cases st) (auto simp: tx_slot_def Let_def tx_send_no_break crofqueue_retrieve_def
      split: if_splits prod.splits option.splits list.splits)

lemma tx_good_fair: "tx_good pk st c st' \<Longrightarrow> fair_answers (tx_answers st) \<Longrightarrow> fair_answers (tx_answers st')"
  by (cases st; cases st') (auto simp: tx_good_def tx_rel_def intro: fair_later)

lemma tx_slots_forward:
  "pk_ok pk \<Longrightarrow> tx_inv (fst st) \<Longrightarrow> fair_answers (tx_answers st) \<Longrightarrow> qid < 4 \<Longrightarrow>
   tx_slots pk qid n st = (TX_next, st') \<Longrightarrow>
   tx_forward False st st' \<and> (0 < n \<and> queue (txqueues (fst st') ! qid) \<noteq> [] \<longrightarrow> tx_forward True st st')"
proof (induction n arbitrary: st)
  case 0
  then show ?case by (simp add: tx_forward_refl)
next
  case (Suc n)
  obtain s out evs rs where st: "st = (s, out, evs, rs)"
    by (cases st) auto
  obtain c1 st1 where slot: "tx_slot pk qid st = (c1, st1)"
    by (rule prod.exhaust)
  have good: "tx_good pk st c1 st1"
    using tx_slot_good [of pk s qid out evs rs c1 st1] Suc.prems slot by (simp add: st)
  show ?case
  proof (cases c1)
    case TX_next
    have fwd: "tx_forward True st st1"
      using tx_slot_forward [of pk s rs qid out evs st1] Suc.prems slot TX_next by (simp add: st)
    moreover have "tx_forward False st1 st'"
      using Suc.IH [of st1] Suc.prems slot TX_next good tx_good_fair [OF good] by (simp add: tx_good_def)
    ultimately have "tx_forward True st st'"
      using tx_forward_trans [OF fwd] by fastforce
    then show ?thesis
      using tx_forward_weak by blast
  next
    case TX_break
    then show ?thesis
      using Suc.prems slot tx_slot_break [of pk qid st st1] by (auto simp: tx_forward_refl)
  qed (use Suc.prems slot in simp)
qed

lemma tx_slots_no_break: "tx_slots pk qid n st \<noteq> (TX_break, st')"
  by (induction n arbitrary: st) (auto split: prod.splits tx_ctl.splits)

lemma tx_queues_no_break: "tx_queues pk qids r st \<noteq> (TX_break, r', st')"
  by (induction qids arbitrary: r st) (auto split: prod.splits tx_ctl.splits)

lemma tx_queues_forward:
  "pk_ok pk \<Longrightarrow> tx_inv (fst st) \<Longrightarrow> fair_answers (tx_answers st) \<Longrightarrow> \<forall>q \<in> set qids. q < 4 \<Longrightarrow>
   tx_queues pk qids r st = (TX_next, r', st') \<Longrightarrow>
   tx_forward False st st' \<and> (r' \<and> \<not> r \<longrightarrow> tx_forward True st st')"
proof (induction qids arbitrary: r st)
  case Nil
  then show ?case by (auto simp: tx_forward_refl)
next
  case (Cons qid qids)
  obtain c1 st1 where slots: "tx_slots pk qid (txweights (fst st) ! qid) st = (c1, st1)"
    by (rule prod.exhaust)
  have good: "tx_good pk st c1 st1"
    using tx_slots_good [OF _ _ _ slots] Cons.prems by simp
  have w: "0 < txweights (fst st) ! qid"
    using Cons.prems(2,4) by (auto simp: tx_inv_def)
  have c1: "c1 = TX_next"
    using Cons.prems(5) slots by (cases c1) (auto simp: tx_slots_no_break)
  let ?r = "r \<or> \<not> crofqueue_empty (txqueues (fst st1) ! qid)"
  have one: "tx_forward False st st1" "\<not> crofqueue_empty (txqueues (fst st1) ! qid) \<Longrightarrow> tx_forward True st st1"
    using tx_slots_forward [OF Cons.prems(1,2,3) _ slots [unfolded c1]] w Cons.prems(4)
    by (auto simp: crofqueue_empty_def)
  have rest: "tx_forward False st1 st'" "r' \<Longrightarrow> \<not> ?r \<Longrightarrow> tx_forward True st1 st'"
    using Cons.IH [OF Cons.prems(1) _ tx_good_fair [OF good Cons.prems(3)], of ?r] good Cons.prems(4,5) slots c1
    by (auto simp: tx_good_def)
  show ?case
    using tx_forward_trans [OF one(1) rest(1)] tx_forward_trans [OF one(2) rest(1)] tx_forward_trans [OF one(1) rest(2)]
    by auto
qed

lemma tx_check_solved_good:
  assumes "tx_inv (fst st)"
  shows "tx_good pk st TX_next (tx_check_solved st)" "tx_forward False st (tx_check_solved st)"
proof -
  obtain s out evs rs where st: "st = (s, out, evs, rs)"
    by (cases st) auto
  have "tx_inv (flag_set FLAG_TX_BLOCK_QUEUEING False s)"
    using tx_inv_frame [of s "flag_set FLAG_TX_BLOCK_QUEUEING False s"] assms by (simp add: st)
  then show "tx_good pk st TX_next (tx_check_solved st)"
    using tx_good_refl [OF assms, of pk]
    by (auto simp: st tx_check_solved_def tx_good_def tx_rel_def intro!: exI [of _ "[]"])
  show "tx_forward False st (tx_check_solved st)"
    by (simp add: st tx_check_solved_def tx_forward_def)
qed

text \<open>The last step of \<open>send_from_queue\<close>.\<close>

lemma tx_finish_good:
  assumes "tx_good pk st TX_next (s, out, evs, rs)"
    "txqueues s' = txqueues s" "txweights s' = txweights s" "txbuffer s' = txbuffer s"
    "txqueue_pending_pkts s' = txqueue_pending_pkts s"
  shows "tx_good pk st (TX_return None) (s', out, evs, rs)"
  using assms tx_inv_frame [of s s'] by (auto simp: tx_good_def tx_rel_def split: prod.splits)

section \<open>The loop\<close>

text \<open>Of every state of the loop: the invariant, the account of the messages, no exception.\<close>

lemma tx_loop_good:
  "pk_ok pk \<Longrightarrow> tx_inv (fst st) \<Longrightarrow>
   tx_good pk st TX_next (tx_state (tx_loop pk turns st)) \<and> (\<forall>e st'. tx_loop pk turns st = TX_finished e st' \<longrightarrow> e = None)"
proof (induction turns arbitrary: st)
  case 0
  then show ?case by (simp add: tx_good_refl)
next
  case (Suc turns)
  obtain c r st1 where q: "tx_queues pk [0, 1, 2, 3] False st = (c, r, st1)"
    by (metis prod.exhaust)
  have good: "tx_good pk st c st1"
    by (rule tx_queues_good [OF Suc.prems _ q]) simp
  then have inv: "tx_inv (fst st1)"
    by (simp add: tx_good_def)
  show ?case
  proof (cases c)
    case (TX_return e)
    then show ?thesis
      using good q by (auto simp: tx_good_def)
  next
    case TX_break
    then show ?thesis
      using q tx_queues_no_break [of pk "[0, 1, 2, 3]" False st r st1] by simp
  next
    case TX_next
    have good2: "tx_good pk st TX_next (tx_check_solved st1)"
      using good tx_check_solved_good(1) [OF inv] TX_next by (auto intro: tx_good_trans)
    show ?thesis
    proof (cases r)
      case True
      then show ?thesis
        using Suc.IH [OF Suc.prems(1), of "tx_check_solved st1"] tx_good_trans [OF good2] q TX_next good2
        by (auto simp: tx_good_def [of pk st "TX_next" "tx_check_solved st1"] Let_def)
    next
      case False
      obtain s out evs rs where s: "tx_check_solved st1 = (s, out, evs, rs)"
        by (metis prod.exhaust)
      show ?thesis
        using q TX_next False s tx_finish_good [OF good2 [unfolded s]]
        by (auto simp: Let_def tx_good_def)
    qed
  qed
qed

text \<open>The bytes that are still to be sent, in the buffer and in the queues.\<close>

definition tx_work :: "('e cofmsg \<Rightarrow> byte list) \<Rightarrow> 'e crofsock \<Rightarrow> nat" where
  "tx_work pk s =
     length (cb_content (txbuffer s)) + (\<Sum>q < 4. sum_list (map (\<lambda>m. length (pk m)) (queue (txqueues s ! q))))"

lemma sum_taken:
  fixes taken :: "(nat \<times> 'm) list" and f :: "'m \<Rightarrow> nat"
  assumes "\<forall>qm \<in> set taken. fst qm < 4"
  shows "(\<Sum>q < 4. sum_list (map f (map snd (filter (\<lambda>qm. fst qm = q) taken)))) = sum_list (map (\<lambda>qm. f (snd qm)) taken)"
  using assms
proof (induction taken)
  case (Cons qm taken)
  have "(\<Sum>q < 4. sum_list (map f (map snd (filter (\<lambda>qm. fst qm = q) (qm # taken))))) =
      (\<Sum>q < 4. (if fst qm = q then f (snd qm) else (0 :: nat)) + sum_list (map f (map snd (filter (\<lambda>qm. fst qm = q) taken))))"
    by (rule sum.cong) auto
  with Cons show ?case
    by (simp add: sum.distrib)
qed simp

lemma tx_rel_work:
  assumes "tx_rel pk (s, out, evs, rs) (s', out', evs', rs') taken"
  shows "length out' + tx_work pk s' = length out + tx_work pk s"
proof -
  have bytes: "out' @ cb_content (txbuffer s') = out @ cb_content (txbuffer s) @ concat (map (\<lambda>qm. pk (snd qm)) taken)"
    and queues: "\<forall>q < 4. queue (txqueues s ! q) = map snd (filter (\<lambda>qm. fst qm = q) taken) @ queue (txqueues s' ! q)"
    and range: "\<forall>qm \<in> set taken. fst qm < 4"
    using assms by (auto simp: tx_rel_def)
  let ?len = "\<lambda>m. length (pk m)"
  have "(\<Sum>q < 4. sum_list (map ?len (queue (txqueues s ! q)))) =
      (\<Sum>q < 4. sum_list (map ?len (map snd (filter (\<lambda>qm. fst qm = q) taken)))
        + sum_list (map ?len (queue (txqueues s' ! q))))"
    by (rule sum.cong) (auto simp: queues)
  also have "\<dots> = sum_list (map (\<lambda>qm. ?len (snd qm)) taken) + (\<Sum>q < 4. sum_list (map ?len (queue (txqueues s' ! q))))"
    by (simp add: sum.distrib sum_taken [OF range, of ?len, simplified])
  finally show ?thesis
    using arg_cong [OF bytes, of length] by (simp add: tx_work_def length_concat comp_def)
qed

lemma tx_good_work:
  assumes "tx_good pk st c st'" "tx_forward True st st'"
  shows "(st', st) \<in> measures [\<lambda>st. tx_work pk (fst st), \<lambda>st. tx_wait (tx_answers st)]"
  using assms tx_rel_work by (fastforce simp: tx_good_def tx_forward_def split: prod.splits)

text \<open>With fair answers the loop ends.\<close>

lemma tx_loop_ends:
  assumes "pk_ok pk" "tx_inv (fst st)" "fair_answers (tx_answers st)"
  shows "\<exists>n st'. \<forall>turns \<ge> n. tx_loop pk turns st = TX_finished None st'"
  using assms(2,3)
proof (induction st rule: wf_induct_rule [OF wf_measures, where fs1 = "[\<lambda>st. tx_work pk (fst st), \<lambda>st. tx_wait (tx_answers st)]"])
  case (1 st)
  obtain c r st1 where q: "tx_queues pk [0, 1, 2, 3] False st = (c, r, st1)"
    by (metis prod.exhaust)
  have four: "\<forall>q \<in> set [0, 1, 2, 3 :: nat]. q < 4"
    by simp
  have good: "tx_good pk st c st1"
    by (rule tx_queues_good [OF assms(1) 1(2) four q])
  then have inv: "tx_inv (fst st1)"
    by (simp add: tx_good_def)
  have stop: "\<exists>n st'. \<forall>turns \<ge> n. tx_loop pk turns st = TX_finished None st'"
    if "\<And>k. tx_loop pk (Suc k) st = TX_finished None st'" for st'
    using that by (metis Suc_le_D)
  show ?case
  proof (cases c)
    case (TX_return e)
    then show ?thesis
      using good q by (intro stop [of st1]) (simp add: tx_good_def)
  next
    case TX_break
    then show ?thesis
      using q tx_queues_no_break [of pk "[0, 1, 2, 3]" False st r st1] by simp
  next
    case TX_next
    have good2: "tx_good pk st TX_next (tx_check_solved st1)"
      using good tx_check_solved_good(1) [OF inv] TX_next by (auto intro: tx_good_trans)
    show ?thesis
    proof (cases r)
      case True
      have "tx_forward True st st1"
        using tx_queues_forward [OF assms(1) 1(2,3) four q [unfolded TX_next]] True by simp
      then have "tx_forward True st (tx_check_solved st1)"
        using tx_forward_trans [OF _ tx_check_solved_good(2) [OF inv]] by fastforce
      then obtain n st' where "\<forall>turns \<ge> n. tx_loop pk turns (tx_check_solved st1) = TX_finished None st'"
        using 1(1) [OF tx_good_work [OF good2]] good2 tx_good_fair [OF good2 1(3)] by (auto simp: tx_good_def)
      moreover have "tx_loop pk (Suc k) st = tx_loop pk k (tx_check_solved st1)" for k
        using q TX_next True by (simp add: Let_def)
      ultimately have "\<forall>turns \<ge> Suc n. tx_loop pk turns st = TX_finished None st'"
        by (metis Suc_le_D Suc_le_mono)
      then show ?thesis by blast
    next
      case False
      obtain s out evs rs where s: "tx_check_solved st1 = (s, out, evs, rs)"
        by (metis prod.exhaust)
      show ?thesis
        by (rule stop) (use q TX_next False s in \<open>simp add: Let_def\<close>)
    qed
  qed
qed

section \<open>Congestion indications\<close>

text \<open>
  The congestion indications among a list of events, as an automaton on the blocking flag: occurred
  only when not blocking, solved only when blocking.
\<close>

fun cong_run :: "bool \<Rightarrow> 'e sock_event list \<Rightarrow> bool option" where
  "cong_run b [] = Some b"
| "cong_run b (Ev_congestion_occurred # evs) = (if b then None else cong_run True evs)"
| "cong_run b (Ev_congestion_solved # evs) = (if b then cong_run False evs else None)"
| "cong_run b (_ # evs) = cong_run b evs"

lemma cong_run_append:
  "cong_run b (evs @ evs') = (case cong_run b evs of None \<Rightarrow> None | Some b' \<Rightarrow> cong_run b' evs')"
  by (induction b evs rule: cong_run.induct) simp_all

definition cong_rel :: "'e tx_st \<Rightarrow> 'e tx_st \<Rightarrow> bool" where
  "cong_rel st st' \<longleftrightarrow> (\<exists>new. fst (snd (snd st')) = fst (snd (snd st)) @ new \<and>
     cong_run (flag_test FLAG_TX_BLOCK_QUEUEING (fst st)) new = Some (flag_test FLAG_TX_BLOCK_QUEUEING (fst st')))"

lemma cong_rel_refl: "cong_rel st st"
  by (auto simp: cong_rel_def)

lemma cong_rel_trans: "cong_rel a b \<Longrightarrow> cong_rel b c \<Longrightarrow> cong_rel a c"
  by (auto simp: cong_rel_def cong_run_append)

lemma cong_rel_same:
  "flag_test FLAG_TX_BLOCK_QUEUEING s' = flag_test FLAG_TX_BLOCK_QUEUEING s \<Longrightarrow> cong_rel (s, out, evs, rs) (s', out', evs, rs')"
  by (auto simp: cong_rel_def)

lemma tx_advance_block [simp]:
  "flag_test FLAG_TX_BLOCK_QUEUEING (tx_advance n s) = flag_test FLAG_TX_BLOCK_QUEUEING s"
  by (simp add: tx_advance_def Let_def)

lemma tx_congestion_cong:
  "tx_congestion s = (s', ev) \<Longrightarrow> cong_rel (s, out, evs, rs) (s', out', evs @ ev, rs')"
  by (auto simp: tx_congestion_def cong_rel_def Let_def split: if_splits)

lemma tx_send_cong: "tx_send st = (c, st') \<Longrightarrow> cong_rel st st'"
  by (cases st) (auto simp: tx_send_def Let_def intro: cong_rel_same tx_congestion_cong
      split: if_splits tx_answer.splits prod.splits)

lemma tx_slot_cong: "tx_slot pk qid st = (c, st') \<Longrightarrow> cong_rel st st'"
proof -
  assume a: "tx_slot pk qid st = (c, st')"
  obtain s out evs rs where st: "st = (s, out, evs, rs)"
    by (cases st) auto
  have "cong_rel (s, out, evs, rs) st'" if "tx_send (s1, out, evs, rs) = (c, st')"
      "flag_test FLAG_TX_BLOCK_QUEUEING s1 = flag_test FLAG_TX_BLOCK_QUEUEING s" for s1
    using tx_send_cong [OF that(1)] cong_rel_same [OF that(2), of out evs rs out rs] cong_rel_trans by blast
  then show ?thesis
    using a by (auto simp: st tx_slot_def Let_def intro: cong_rel_same split: if_splits prod.splits option.splits)
qed

lemma tx_slots_cong: "tx_slots pk qid n st = (c, st') \<Longrightarrow> cong_rel st st'"
  by (induction n arbitrary: st)
    (auto simp: cong_rel_refl dest: tx_slot_cong intro: cong_rel_trans split: prod.splits tx_ctl.splits)

lemma tx_queues_cong: "tx_queues pk qids r st = (c, r', st') \<Longrightarrow> cong_rel st st'"
proof (induction qids arbitrary: r st)
  case (Cons qid qids)
  obtain c1 st1 where slots: "tx_slots pk qid (txweights (fst st) ! qid) st = (c1, st1)"
    by (rule prod.exhaust)
  show ?case
    using Cons.prems slots tx_slots_cong [OF slots] Cons.IH [of "r \<or> \<not> crofqueue_empty (txqueues (fst st1) ! qid)" st1]
    by (cases c1) (auto intro: cong_rel_trans)
qed (simp add: cong_rel_refl)

lemma tx_check_solved_cong: "cong_rel st (tx_check_solved st)"
  by (cases st) (auto simp: tx_check_solved_def cong_rel_def)

lemma tx_loop_cong: "cong_rel st (tx_state (tx_loop pk turns st))"
proof (induction turns arbitrary: st)
  case (Suc turns)
  obtain c r st1 where q: "tx_queues pk [0, 1, 2, 3] False st = (c, r, st1)"
    by (metis prod.exhaust)
  have to2: "cong_rel st (tx_check_solved st1)"
    using cong_rel_trans [OF tx_queues_cong [OF q] tx_check_solved_cong] .
  obtain s out evs rs where s: "tx_check_solved st1 = (s, out, evs, rs)"
    by (metis prod.exhaust)
  have fin: "cong_rel st (s', out, evs, rs)" if "flag_test FLAG_TX_BLOCK_QUEUEING s' = flag_test FLAG_TX_BLOCK_QUEUEING s" for s'
    using cong_rel_trans [OF to2 [unfolded s] cong_rel_same [OF that]] .
  show ?case
    using q tx_queues_cong [OF q] cong_rel_trans [OF to2 Suc.IH [of "tx_check_solved st1"]] fin s
    by (cases c; cases r) (auto simp: Let_def)
qed (simp add: cong_rel_refl)

section \<open>Lemmas on queueing\<close>

lemma tx_queue_of_range: "tx_queue_of v t < 4"
  by (simp add: tx_queue_of_def)

lemma sum_store:
  assumes "qid < length qs"
  shows "sum_list (map (\<lambda>q. length (queue q)) (qs[qid := (qs ! qid)\<lparr>queue := queue (qs ! qid) @ [m]\<rparr>])) =
    Suc (sum_list (map (\<lambda>q. length (queue q)) qs))"
  using assms
proof (induction qs arbitrary: qid)
  case (Cons q qs)
  then show ?case
    by (cases qid) simp_all
qed simp

lemma send_message_inv: "tx_inv s \<Longrightarrow> tx_inv (fst (crofsock_send_message m enforce s))"
  using sum_store [of "tx_queue_of (msg_version m) (msg_type m)" "txqueues s" m] tx_queue_of_range [of "msg_version m" "msg_type m"]
  by (auto simp: crofsock_send_message_def Let_def crofqueue_store_def tx_inv_defs add.commute
      split: if_splits)

lemma running_inv: "tx_inv s \<Longrightarrow> tx_inv (s\<lparr>tx_is_running := True\<rparr>)"
  using tx_inv_frame [of s "s\<lparr>tx_is_running := True\<rparr>"] by simp

lemma send_from_queue_good:
  assumes "pk_ok pk" "tx_inv s"
  shows "tx_good pk (s, [], [], rs) TX_next (tx_state (send_from_queue pk turns rs s))"
    "send_from_queue pk turns rs s = TX_finished e st' \<Longrightarrow> e = None"
proof -
  note loop = tx_loop_good [OF assms(1), of "(s\<lparr>tx_is_running := True\<rparr>, [], [], rs)" turns]
  have "tx_good pk (s, [], [], rs) TX_next (s\<lparr>tx_is_running := True\<rparr>, [], [], rs)"
    using running_inv [OF assms(2)] by (auto simp: tx_good_def tx_rel_def intro!: exI [of _ "[]"])
  then show "tx_good pk (s, [], [], rs) TX_next (tx_state (send_from_queue pk turns rs s))"
    using loop running_inv [OF assms(2)] tx_good_refl [of "(s, [], [], rs)" pk] assms(2)
    by (auto simp: send_from_queue_def intro: tx_good_trans)
  have "tx_inv (fst (s\<lparr>tx_is_running := True\<rparr>, [], [], rs))"
    using running_inv [OF assms(2)] by simp
  then show "send_from_queue pk turns rs s = TX_finished e st' \<Longrightarrow> e = None"
    using loop [THEN conjunct2, rule_format, of e st'] unfolding send_from_queue_def by (simp split: if_splits)
qed

lemma send_from_queue_ends:
  assumes "pk_ok pk" "tx_inv s" "fair_answers rs"
  shows "\<exists>n st'. \<forall>turns \<ge> n. send_from_queue pk turns rs s = TX_finished None st'"
proof (cases "sock_state s \<le> STATE_IDLE \<or> delete_in_progress s")
  case True
  then show ?thesis
    unfolding send_from_queue_def by (simp del: state_le_idle split: if_splits)
next
  case False
  then show ?thesis
    using tx_loop_ends [OF assms(1), of "(s\<lparr>tx_is_running := True\<rparr>, [], [], rs)"] running_inv [OF assms(2)] assms(3)
    unfolding send_from_queue_def by (simp only: if_False fst_conv snd_conv)
qed

section \<open>A run that never ends\<close>

text \<open>
  A connection with bytes in the transmit buffer and a message in the queue \<open>q\<close>, on which every call of
  \<open>send\<close> or \<open>SSL_write\<close> takes nothing.
\<close>

definition tx_stuck :: "nat \<Rightarrow> 'e tx_st \<Rightarrow> bool" where
  "tx_stuck q st \<longleftrightarrow>
     (case st of (s, out, evs, rs) \<Rightarrow>
        tx_inv s \<and> sock_is_established s \<and> \<not> tx_disabled s \<and> cb_content (txbuffer s) \<noteq> [] \<and>
        queue (txqueues s ! q) \<noteq> [] \<and> out = [] \<and> rs = sconst (TX_sent 0))"

lemma tx_advance_state:
  "sock_state (tx_advance n s) = sock_state s" "tx_disabled (tx_advance n s) = tx_disabled s"
  by (simp_all add: tx_advance_def Let_def flag_set_def)

lemma tx_slot_stuck:
  assumes "tx_stuck q st"
  shows "\<exists>st'. tx_slot pk qid st = (TX_next, st') \<and> tx_stuck q st'"
proof -
  obtain s evs where st: "st = (s, [], evs, sconst (TX_sent 0))"
    using assms by (cases st) (auto simp: tx_stuck_def)
  have s: "tx_inv s" "cb_content (txbuffer s) \<noteq> []" "\<not> tx_disabled s" "queue (txqueues s ! q) \<noteq> []"
      "sock_state s = STATE_TCP_ESTABLISHED \<or> sock_state s = STATE_TLS_ESTABLISHED"
    using assms by (auto simp: st tx_stuck_def sock_is_established_def)
  have "\<not> cb_empty (txbuffer s)"
    using s(1,2) cb_empty_content by (auto simp: tx_inv_def)
  then have "tx_slot pk qid st = (TX_next, tx_advance 0 s, [], evs, sconst (TX_sent 0))"
    using s(3,5) by (auto simp: st tx_slot_def tx_send_def)
  moreover have "tx_stuck q (tx_advance 0 s, [], evs, sconst (TX_sent 0))"
    using s tx_advance_ok [OF s(1,2), of 0] by (simp add: tx_stuck_def sock_is_established_def tx_advance_state)
  ultimately show ?thesis by blast
qed

lemma tx_slots_stuck: "tx_stuck q st \<Longrightarrow> \<exists>st'. tx_slots pk qid n st = (TX_next, st') \<and> tx_stuck q st'"
proof (induction n arbitrary: st)
  case (Suc n)
  from tx_slot_stuck [OF Suc.prems, of pk qid] obtain st' where "tx_slot pk qid st = (TX_next, st')" "tx_stuck q st'"
    by blast
  with Suc.IH [of st'] show ?case by simp
qed simp

text \<open>In a turn over the four queues nothing moves, and the queue \<open>q\<close> asks for another turn.\<close>

lemma tx_queues_stuck:
  "tx_stuck q st \<Longrightarrow> \<exists>r' st'. tx_queues pk qids r st = (TX_next, r', st') \<and> tx_stuck q st' \<and> (r \<or> q \<in> set qids \<longrightarrow> r')"
proof (induction qids arbitrary: r st)
  case (Cons qid qids)
  from tx_slots_stuck [OF Cons.prems, of pk qid "txweights (fst st) ! qid"] obtain st1
    where st1: "tx_slots pk qid (txweights (fst st) ! qid) st = (TX_next, st1)" "tx_stuck q st1"
    by blast
  then have "queue (txqueues (fst st1) ! q) \<noteq> []"
    by (auto simp: tx_stuck_def)
  with Cons.IH [OF st1(2), of "r \<or> \<not> crofqueue_empty (txqueues (fst st1) ! qid)"] st1(1) show ?case
    by (auto simp: crofqueue_empty_def)
qed simp

lemma tx_check_solved_stuck: "tx_stuck q st \<Longrightarrow> tx_stuck q (tx_check_solved st)"
  using tx_inv_frame [of "fst st" "flag_set FLAG_TX_BLOCK_QUEUEING False (fst st)"]
  by (cases st) (auto simp: tx_stuck_def tx_check_solved_def sock_is_established_def)

lemma tx_loop_stuck: "tx_stuck q st \<Longrightarrow> q < 4 \<Longrightarrow> \<exists>st'. tx_loop pk turns st = TX_running st' \<and> tx_stuck q st'"
proof (induction turns arbitrary: st)
  case (Suc turns)
  have "q \<in> set [0, 1, 2, 3]"
    using Suc.prems(2) by auto
  with tx_queues_stuck [OF Suc.prems(1), of pk "[0, 1, 2, 3]" False] obtain r st1
    where "tx_queues pk [0, 1, 2, 3] False st = (TX_next, r, st1)" "tx_stuck q st1" r
    by blast
  with Suc.IH [OF tx_check_solved_stuck] Suc.prems(2) show ?case
    by (simp add: Let_def)
qed simp

definition tx_sock :: "nat crofsock" where
  "tx_sock = (crofsock_new 9 idle_thread idle_thread)\<lparr>sock_state := STATE_TCP_ESTABLISHED,
     txqueue_pending_pkts := 1,
     txqueues := [\<lparr>queue = [hello_msg_example], queue_max_size = 128\<rparr>, crofqueue_new, crofqueue_new, crofqueue_new]\<rparr>"

lemma tx_sock_facts [simp]:
  "tx_inv tx_sock" "cb_content (txbuffer tx_sock) = []" "flag_test FLAG_TX_BLOCK_QUEUEING tx_sock = False"
  by (simp_all add: tx_sock_def crofsock_new_def flag_test_def tx_inv_defs crofqueue_new_def)

lemma pk_ok_example: "pk_ok (\<lambda>m. [1, 2, 3])"
  by (simp add: pk_ok_def)

section \<open>Properties\<close>

text \<open>
  C4: transmission loses nothing, duplicates nothing and does not interleave messages, whatever the
  operating system answers and however far \<open>send_from_queue\<close> has come: after any number of turns, in
  the middle of the run or at its end, the bytes sent followed by those left in the transmit buffer are
  the bytes left from before followed by whole packed messages, these messages were taken from the front
  of the four queues in order, the packet counter counts what is queued or half sent, and no exception
  was thrown.  The function returns provided the answers are fair: an answer other than zero bytes and
  \<open>SSL_ERROR_NONE\<close> always comes again.  (\<open>zero_answers_spin\<close>: without this it may run for ever.)
\<close>

theorem send_from_queue_conserves:
  assumes "pk_ok pk" and "tx_inv s"
  shows "(\<forall>turns. \<exists>s' out evs rs' taken.
      send_from_queue pk turns rs s \<in> {TX_running (s', out, evs, rs'), TX_finished None (s', out, evs, rs')} \<and>
      tx_inv s' \<and>
      out @ cb_content (txbuffer s') = cb_content (txbuffer s) @ concat (map (\<lambda>qm. pk (snd qm)) taken) \<and>
      (\<forall>qm \<in> set taken. fst qm < 4) \<and>
      (\<forall>q < 4. queue (txqueues s ! q) = map snd (filter (\<lambda>qm. fst qm = q) taken) @ queue (txqueues s' ! q))) \<and>
    (fair_answers rs \<longrightarrow> (\<exists>n st'. \<forall>turns \<ge> n. send_from_queue pk turns rs s = TX_finished None st'))"
proof (intro conjI allI impI)
  fix turns
  obtain s' out evs rs' where st: "tx_state (send_from_queue pk turns rs s) = (s', out, evs, rs')"
    by (metis prod_cases4)
  then have "send_from_queue pk turns rs s \<in> {TX_running (s', out, evs, rs'), TX_finished None (s', out, evs, rs')}"
    using send_from_queue_good(2) [OF assms] by (cases "send_from_queue pk turns rs s") auto
  then show "\<exists>s' out evs rs' taken.
      send_from_queue pk turns rs s \<in> {TX_running (s', out, evs, rs'), TX_finished None (s', out, evs, rs')} \<and>
      tx_inv s' \<and>
      out @ cb_content (txbuffer s') = cb_content (txbuffer s) @ concat (map (\<lambda>qm. pk (snd qm)) taken) \<and>
      (\<forall>qm \<in> set taken. fst qm < 4) \<and>
      (\<forall>q < 4. queue (txqueues s ! q) = map snd (filter (\<lambda>qm. fst qm = q) taken) @ queue (txqueues s' ! q))"
    using send_from_queue_good(1) [OF assms, of rs turns] unfolding st
    by (intro exI [of _ s'] exI [of _ out] exI [of _ evs] exI [of _ rs']) (auto simp: tx_good_def tx_rel_def)
qed (rule send_from_queue_ends [OF assms])

definition answers_example :: "tx_answer stream" where
  "answers_example = TX_sent 2 ## sconst (TX_fail SSL_ERROR_WANT_WRITE)"

lemma answers_example_fair: "fair_answers answers_example"
  unfolding fair_answers_def
proof
  fix k
  show "\<exists>i \<ge> k. productive (answers_example !! i)"
    by (intro exI [of _ "Suc k"]) (simp add: answers_example_def productive_def)
qed

theorem send_from_queue_conserves_witness:
  "pk_ok (\<lambda>m :: nat cofmsg. [1, 2, 3]) \<and> tx_inv tx_sock \<and> fair_answers answers_example \<and>
   (\<exists>n st'. \<forall>turns \<ge> n. send_from_queue (\<lambda>m. [1, 2, 3]) turns answers_example tx_sock = TX_finished None st')"
  using send_from_queue_conserves [OF pk_ok_example tx_sock_facts(1), of answers_example] answers_example_fair
    pk_ok_example tx_sock_facts(1)
  by blast

text \<open>
  Zero bytes are taken for progress.  With bytes in the transmit buffer and a message waiting in a queue,
  the loop goes on for as long as \<open>send\<close> or \<open>SSL_write\<close> returns zero, without sending anything and without
  giving the thread back.  For \<open>SSL_write\<close> zero is a failure (the peer shut the session down), and the code
  fetches its error code but handles it for negative results only.
\<close>

theorem zero_answers_spin:
  assumes "tx_inv s" and "sock_is_established s" and "\<not> tx_disabled s" and "\<not> delete_in_progress s"
    and "cb_content (txbuffer s) \<noteq> []" and "q < 4" and "queue (txqueues s ! q) \<noteq> []"
  shows "\<exists>s' evs. send_from_queue pk turns (sconst (TX_sent 0)) s = TX_running (s', [], evs, sconst (TX_sent 0))"
proof -
  have "tx_stuck q (s\<lparr>tx_is_running := True\<rparr>, [], [], sconst (TX_sent 0))"
    using assms running_inv [OF assms(1)] by (simp add: tx_stuck_def sock_is_established_def)
  from tx_loop_stuck [OF this assms(6), of pk turns] show ?thesis
    using assms(2,4) by (auto simp: send_from_queue_def sock_is_established_def tx_stuck_def)
qed

text \<open>
  C35: congestion indications to the owner alternate: congestion is reported only while the socket
  accepts messages freely, its end only after it was reported, and the blocking flag always says
  which of the two was reported last.  This holds after any number of turns of \<open>send_from_queue\<close>, of a
  run that has ended and of one that goes on or never ends, and for all answers of the operating system.
\<close>

theorem congestion_alternates:
  "case tx_state (send_from_queue pk turns rs s) of (s', out, evs, rs') \<Rightarrow>
     cong_run (flag_test FLAG_TX_BLOCK_QUEUEING s) evs = Some (flag_test FLAG_TX_BLOCK_QUEUEING s')"
  using tx_loop_cong [of "(s\<lparr>tx_is_running := True\<rparr>, [], [], rs)" pk turns]
  by (auto simp: send_from_queue_def cong_rel_def split: prod.splits)

text \<open>A socket that sends two of three bytes and then is congested: one indication.\<close>

theorem congestion_alternates_example:
  "case tx_state (send_from_queue (\<lambda>m. [1, 2, 3]) 1 answers_example tx_sock) of (s', out, evs, rs') \<Rightarrow>
     cong_run False evs = Some (flag_test FLAG_TX_BLOCK_QUEUEING s')"
  using congestion_alternates [of tx_sock "\<lambda>m. [1, 2, 3]" 1 answers_example] by simp

text \<open>
  What \<open>send_message\<close> answers.  A message is deleted exactly when it is not queued, and the
  answer says why: transmission is switched off, no connection is established, or the queue of its
  class is full and neither the caller nor its type (echo) enforces queueing.  A queued message is
  the last of its queue, and the transmit invariant is kept.
\<close>

theorem send_message_spec:
  assumes "tx_inv s"
    and "qid = tx_queue_of (msg_version m) (msg_type m)" and "crofsock_send_message m enforce s = (s', r)"
  shows "tx_inv s' \<and>
    (r \<in> {MSG_QUEUED, MSG_QUEUED_CONGESTION} \<longleftrightarrow>
       \<not> tx_disabled s \<and> sock_is_established s \<and>
       (enforce \<or> msg_type m = 2 \<or> msg_type m = 3 \<or> crofqueue_capacity (txqueues s ! qid) > 0)) \<and>
    (r \<in> {MSG_QUEUED, MSG_QUEUED_CONGESTION} \<longrightarrow>
       queue (txqueues s' ! qid) = queue (txqueues s ! qid) @ [m] \<and> sock_freed s' = sock_freed s) \<and>
    (r \<notin> {MSG_QUEUED, MSG_QUEUED_CONGESTION} \<longrightarrow>
       txqueues s' = txqueues s \<and> sock_freed s' = sock_freed s @ [msg_ptr m])"
proof -
  have len: "qid < length (txqueues s)"
    using assms(1) tx_queue_of_range by (simp add: tx_inv_def assms(2))
  have s': "s' = fst (crofsock_send_message m enforce s)" and r: "r = snd (crofsock_send_message m enforce s)"
    using assms(3) by simp_all
  show ?thesis
    using send_message_inv [OF assms(1), of m enforce] len
    unfolding s' r assms(2)
    by (auto simp: crofsock_send_message_def Let_def crofqueue_store_def crofqueue_capacity_def
        sock_is_established_def)
qed

theorem send_message_spec_example:
  "tx_inv tx_sock \<and> snd (crofsock_send_message hello_msg_example False tx_sock) \<in> {MSG_QUEUED, MSG_QUEUED_CONGESTION}"
proof -
  have inv: "tx_inv tx_sock"
    by (simp add: tx_sock_def crofsock_new_def tx_inv_defs crofqueue_new_def)
  moreover have "\<not> tx_disabled tx_sock" "sock_is_established tx_sock"
      "crofqueue_capacity (txqueues tx_sock ! tx_queue_of (msg_version hello_msg_example) (msg_type hello_msg_example)) > 0"
    by (simp_all add: tx_sock_def crofsock_new_def sock_is_established_def tx_queue_of_def hello_msg_example_def
        crofqueue_capacity_def crofqueue_new_def)
  ultimately show ?thesis
    using send_message_spec [OF inv refl prod.collapse [symmetric], of hello_msg_example False] by blast
qed

text \<open>
  Enforced queueing does not always queue: with transmission switched off or no connection the
  message is still deleted, and the answer is one of two values the comments in \<open>crofconn.cc\<close> rule
  out.
\<close>

lemma enforced_queueing_can_fail:
  "snd (crofsock_send_message m True s) =
     (if tx_disabled s then MSG_QUEUEING_FAILED_SHUTDOWN_IN_PROGRESS
      else if \<not> sock_is_established s then MSG_QUEUEING_FAILED_NOT_ESTABLISHED
      else if flag_test FLAG_TX_BLOCK_QUEUEING s then MSG_QUEUED_CONGESTION else MSG_QUEUED)"
  by (auto simp: crofsock_send_message_def Let_def crofqueue_store_def sock_is_established_def)

end
