(* ===== verification/Crofsock_Rx.thy ===== *)
theory Crofsock_Rx
  imports Crofsock_Tx
begin

text \<open>
  \<open>rofl::crofsock\<close>, part three: reception.  \<open>recv_message\<close>, run by the receive thread, reads the
  eight bytes of a message header, then the rest of the message, and hands the complete message to
  \<open>parse_message\<close>, which chooses the class, unpacks it and calls the owner.

  What the kernel delivers is a list of chunks and errors; a read takes at most what was asked for
  and leaves the rest of the chunk.  When the list is used up the socket would block.  The
  \<open>unpack\<close> of the message classes is a parameter; it gives a message or an exception.
\<close>

section \<open>Reading from the socket\<close>

text \<open>
  \<open>RX_data []\<close> is a return value of zero: for TCP the peer closed the connection, for TLS it is
  reported as \<open>SSL_ERROR_ZERO_RETURN\<close>.  For TCP, \<open>RX_fail SSL_ERROR_WANT_READ\<close> reads as
  \<open>EAGAIN\<close>, every other failure as an error of \<open>recv\<close>.  \<open>recv\<close> with length zero returns zero.
\<close>

datatype rx_answer = RX_data "byte list" | RX_fail ssl_error

definition rx_read :: "bool \<Rightarrow> nat \<Rightarrow> rx_answer list \<Rightarrow> rx_answer \<times> rx_answer list" where
  "rx_read tcp ask rs =
     (if tcp \<and> ask = 0 then (RX_data [], rs)
      else case rs of
        [] \<Rightarrow> (RX_fail SSL_ERROR_WANT_READ, [])
      | RX_fail e # rs' \<Rightarrow> (RX_fail e, rs')
      | RX_data bs # rs' \<Rightarrow>
          (RX_data (take ask bs), if length bs \<le> ask then rs' else RX_data (drop ask bs) # rs'))"

section \<open>Handing over a complete message\<close>

text \<open>The exceptions \<open>parse_message\<close> answers with an error message, and the code it sends.\<close>

fun bad_request_code :: "rofl_exn \<Rightarrow> u16 option" where
  "bad_request_code EBadRequestBadType = Some 1"
| "bad_request_code EBadRequestBadStat = Some 2"
| "bad_request_code EBadRequestBadVersion = Some 0"
| "bad_request_code EBadRequestBadLen = Some 6"
| "bad_request_code _ = None"

text \<open>
  Exceptions that are no \<open>std::runtime_error\<close>, which \<open>parse_message\<close> does not catch; undefined
  behaviour is counted here.
\<close>

definition escapes :: "rofl_exn \<Rightarrow> bool" where
  "escapes e \<longleftrightarrow> e \<in> {EOutOfRange, EBadCast, EOutOfBoundsRead, ENullPointer}"

type_synonym 'e unpacker = "msg_class \<Rightarrow> byte list \<Rightarrow> 'e cofmsg result"

text \<open>\<open>parse_message\<close>; \<open>addr\<close> is the address of an error message it creates.\<close>

definition parse_message :: "'e unpacker \<Rightarrow> nat \<Rightarrow> 'e crofsock \<Rightarrow> 'e sock_res" where
  "parse_message unpack addr s =
     (let mem = cb_mem (rxbuffer s);
          version = mem ! 0;
          xid = de32 (mem ! 4) (mem ! 5) (mem ! 6) (mem ! 7);
          res = (case parse_message_class mem of
                   Inl e \<Rightarrow> Inl e
                 | Inr c \<Rightarrow> unpack c (cb_content (rxbuffer s)))
      in case res of
           Inr msg \<Rightarrow>
             (let s1 = s\<lparr>rxbuffer := cb_reset (rxbuffer s)\<rparr>
              in (s1, if sock_state s1 \<le> STATE_IDLE \<or> delete_in_progress s1 then [] else [Ev_recv msg], None))
         | Inl e \<Rightarrow>
             (case bad_request_code e of
                Some code \<Rightarrow>
                  (fst (crofsock_send_message
                     (cofmsg_error_new addr version xid 1 code (take (min 64 (cb_rmemlen (rxbuffer s))) mem)) False s),
                   [], None)
              | None \<Rightarrow> (s, [], if escapes e then Some e else None)))"

section \<open>The receive loop\<close>

type_synonym 'e rx_st = "'e crofsock \<times> 'e sock_event list \<times> rx_answer list"

datatype rx_ctl = RX_next | RX_return "rofl_exn option" | RX_on_error

definition rx_hdr_len :: "cbuffer \<Rightarrow> nat" where
  "rx_hdr_len b = unat (de16 (cb_mem b ! 2) (cb_mem b ! 3))"

definition rx_msg_len :: "cbuffer \<Rightarrow> nat" where
  "rx_msg_len b = (if cb_rmemlen b < 8 then 8 else rx_hdr_len b)"

text \<open>The number of bytes asked for, an unsigned difference.\<close>

definition rx_ask :: "cbuffer \<Rightarrow> nat" where
  "rx_ask b = unat (word_of_nat (rx_msg_len b) - word_of_nat (cb_rmemlen b) :: u64)"

text \<open>What follows a read: commit the bytes, look whether the message is complete.\<close>

definition rx_commit :: "'e unpacker \<Rightarrow> nat \<Rightarrow> byte list \<Rightarrow> 'e rx_st \<Rightarrow> rx_ctl \<times> 'e rx_st" where
  "rx_commit unpack addr got st =
     (case st of (s, evs, rs) \<Rightarrow>
        (let s1 = s\<lparr>rxbuffer := cb_wseek (length got) SEEK_CUR (cb_store got (rxbuffer s))\<rparr>
         in if 8 \<le> cb_rmemlen (rxbuffer s1) \<and> rx_hdr_len (rxbuffer s1) = cb_rmemlen (rxbuffer s1)
            then (case parse_message unpack addr s1 of
                    (s2, ev, None) \<Rightarrow> (RX_next, s2, evs @ ev, rs)
                  | (s2, ev, Some e) \<Rightarrow> (RX_return (Some e), s2, evs @ ev, rs))
            else (RX_next, s1, evs, rs)))"

text \<open>One turn of \<open>while (not rx_disabled)\<close>.\<close>

definition rx_step :: "'e unpacker \<Rightarrow> nat \<Rightarrow> 'e rx_st \<Rightarrow> rx_ctl \<times> 'e rx_st" where
  "rx_step unpack addr st =
     (case st of (s, evs, rs) \<Rightarrow>
        if rx_disabled s then (RX_return None, st)
        else if sock_state s \<le> STATE_IDLE \<or> delete_in_progress s then (RX_return None, st)
        else if rx_msg_len (rxbuffer s) < 8 then (RX_on_error, st)
        else if sock_state s = STATE_TCP_ESTABLISHED then
          (case rx_read True (rx_ask (rxbuffer s)) rs of
             (RX_data got, rs') \<Rightarrow>
               if got = [] then (RX_on_error, s, evs, rs') else rx_commit unpack addr got (s, evs, rs')
           | (RX_fail e, rs') \<Rightarrow>
               if e = SSL_ERROR_WANT_READ then (RX_return None, s, evs, rs') else (RX_on_error, s, evs, rs'))
        else if sock_state s = STATE_TLS_ESTABLISHED then
          (case rx_read False (rx_ask (rxbuffer s)) rs of
             (RX_data got, rs') \<Rightarrow>
               if got = [] then (RX_on_error, s, evs, rs') else rx_commit unpack addr got (s, evs, rs')
           | (RX_fail e, rs') \<Rightarrow>
               if e = SSL_ERROR_WANT_WRITE
               then (RX_return None, on_tx (th_add_write_fd (sock_this s) (sock_sd s)) s, evs, rs')
               else if e \<in> {SSL_ERROR_SSL, SSL_ERROR_SYSCALL, SSL_ERROR_ZERO_RETURN} then (RX_on_error, s, evs, rs')
               else if e = SSL_ERROR_NONE then rx_commit unpack addr [] (s, evs, rs')
               else (RX_return None, s, evs, rs'))
        else rx_commit unpack addr [] (s, evs, rs))"

text \<open>The label \<open>on_error\<close>.\<close>

definition rx_error :: "timespec \<Rightarrow> nat \<Rightarrow> 'e rx_st \<Rightarrow> 'e rx_st" where
  "rx_error now self st =
     (case st of (s, evs, rs) \<Rightarrow>
        if sock_state s = STATE_TCP_ESTABLISHED \<or> sock_state s = STATE_TLS_ESTABLISHED then
          (let s1 = crofsock_close self s;
               s2 = (if flag_test FLAG_RECONNECT_ON_FAILURE s1 then backoff_reconnect now self True s1 else s1)
           in (s2, evs @ [Ev_closed], rs))
        else st)"

text \<open>The loop; \<open>None\<close>: fuel used up.\<close>

fun rx_loop :: "'e unpacker \<Rightarrow> nat \<Rightarrow> timespec \<Rightarrow> nat \<Rightarrow> nat \<Rightarrow> 'e rx_st \<Rightarrow> (rofl_exn option \<times> 'e rx_st) option" where
  "rx_loop unpack addr now self 0 st = None"
| "rx_loop unpack addr now self (Suc fuel) st =
     (case rx_step unpack addr st of
        (RX_next, st') \<Rightarrow> rx_loop unpack addr now self fuel st'
      | (RX_return e, st') \<Rightarrow> Some (e, st')
      | (RX_on_error, st') \<Rightarrow> Some (None, rx_error now self st'))"

definition recv_message ::
  "'e unpacker \<Rightarrow> nat \<Rightarrow> timespec \<Rightarrow> nat \<Rightarrow> nat \<Rightarrow> rx_answer list \<Rightarrow> 'e crofsock \<Rightarrow> (rofl_exn option \<times> 'e rx_st) option" where
  "recv_message unpack addr now self fuel rs s = rx_loop unpack addr now self fuel (s, [], rs)"

section \<open>Events on the receive thread\<close>

datatype so_error = SO_call_failed | SO_connected | SO_inprogress | SO_refused | SO_other

text \<open>
  \<open>handle_read_event_rxthread\<close>: \<open>so\<close> is the pending error of a connecting socket, \<open>names_ok\<close> whether
  \<open>getsockname\<close> and \<open>getpeername\<close> succeed, \<open>recv\<close> the receive loop above with its parameters.  All
  exceptions are caught here.
\<close>

definition handle_read_event_rxthread ::
  "('e crofsock \<Rightarrow> (rofl_exn option \<times> 'e rx_st) option) \<Rightarrow> (bool \<Rightarrow> 'e crofsock \<Rightarrow> 'e sock_res) \<Rightarrow>
   ('e crofsock \<Rightarrow> 'e sock_res) \<Rightarrow> so_error \<Rightarrow> bool \<Rightarrow> timespec \<Rightarrow> nat \<Rightarrow> 'e crofsock \<Rightarrow>
   ('e crofsock \<times> 'e sock_event list) option" where
  "handle_read_event_rxthread recv tls_connect tls_accept so names_ok now self s =
     (let receive = (\<lambda>s evs. case recv s of None \<Rightarrow> None | Some (_, s', evs', _) \<Rightarrow> Some (s', evs @ evs'));
          failed = (\<lambda>ev. let s1 = crofsock_close self s
                         in Some (if flag_test FLAG_RECONNECT_ON_FAILURE s1 then backoff_reconnect now self False s1 else s1, [ev]))
      in case sock_state s of
           STATE_LISTENING \<Rightarrow> Some (s, [Ev_listen])
         | STATE_TCP_CONNECTING \<Rightarrow>
             (case so of
                SO_call_failed \<Rightarrow> Some (s, [])
              | SO_connected \<Rightarrow>
                  (let s1 = on_rx (th_drop_write_fd (sock_sd s)) s
                   in if \<not> names_ok then Some (s1, [])
                      else (let s2 = on_rx (th_add_read_fd (sock_this s1) (sock_sd s1)) (s1\<lparr>sock_state := STATE_TCP_ESTABLISHED\<rparr>);
                                r = (if flag_test FLAG_TLS_IN_USE s2
                                     then tls_connect (flag_test FLAG_RECONNECT_ON_FAILURE s2) s2
                                     else (s2, [Ev_tcp_connected], None))
                            in case r of
                                 (s3, evs, None) \<Rightarrow> Some (on_rx (cthread_wakeup (Some (sock_this s3))) s3, evs)
                               | (s3, evs, Some e) \<Rightarrow> Some (s3, evs)))
              | SO_inprogress \<Rightarrow> Some (s, [])
              | SO_refused \<Rightarrow> failed Ev_tcp_connect_refused
              | SO_other \<Rightarrow> failed Ev_tcp_connect_failed)
         | STATE_TLS_CONNECTING \<Rightarrow>
             (case tls_connect (flag_test FLAG_RECONNECT_ON_FAILURE s) s of
                (s1, evs, None) \<Rightarrow> if sock_state s1 = STATE_TLS_ESTABLISHED then receive s1 evs else Some (s1, evs)
              | (s1, evs, Some e) \<Rightarrow> Some (s1, evs))
         | STATE_TLS_ACCEPTING \<Rightarrow>
             (case tls_accept s of
                (s1, evs, None) \<Rightarrow> if sock_state s1 = STATE_TLS_ESTABLISHED then receive s1 evs else Some (s1, evs)
              | (s1, evs, Some e) \<Rightarrow> Some (s1, evs))
         | STATE_TCP_ESTABLISHED \<Rightarrow> if flag_test FLAG_TLS_IN_USE s then Some (s, []) else receive s []
         | STATE_TLS_ESTABLISHED \<Rightarrow> if \<not> flag_test FLAG_TLS_IN_USE s then Some (s, []) else receive s []
         | _ \<Rightarrow> Some (s, []))"

text \<open>\<open>handle_read_event\<close>, and \<open>handle_wakeup\<close> and \<open>handle_write_event\<close> on the receive thread.\<close>

definition handle_event_rx ::
  "('e crofsock \<Rightarrow> (rofl_exn option \<times> 'e rx_st) option) \<Rightarrow> (bool \<Rightarrow> 'e crofsock \<Rightarrow> 'e sock_res) \<Rightarrow>
   ('e crofsock \<Rightarrow> 'e sock_res) \<Rightarrow> so_error \<Rightarrow> bool \<Rightarrow> timespec \<Rightarrow> nat \<Rightarrow> 'e crofsock \<Rightarrow>
   ('e crofsock \<times> 'e sock_event list) option" where
  "handle_event_rx recv tls_connect tls_accept so names_ok now self s =
     (if flag_test FLAG_CLOSING s \<or> delete_in_progress s then Some (s, [])
      else handle_read_event_rxthread recv tls_connect tls_accept so names_ok now self s)"

section \<open>The receive buffer\<close>

text \<open>
  Between two turns the buffer starts at its beginning, has its full size, and holds no more than
  the message whose header it holds.
\<close>

definition rxbuf_ok :: "cbuffer \<Rightarrow> bool" where
  "rxbuf_ok b \<longleftrightarrow> cb_wf b \<and> cb_rbytes b = 0 \<and> length (cb_mem b) = 65536 \<and>
     (8 < cb_rmemlen b \<longrightarrow> cb_rmemlen b \<le> rx_hdr_len b)"

text \<open>The length field of a (prefix of a) message.\<close>

definition frame_len :: "byte list \<Rightarrow> nat" where
  "frame_len f = unat (de16 (f ! 2) (f ! 3))"

lemma rx_hdr_len_bound: "rx_hdr_len b < 65536"
  unfolding rx_hdr_len_def using unsigned_less [of "de16 (cb_mem b ! 2) (cb_mem b ! 3)"] by simp

lemma rxbuf_content:
  assumes "rxbuf_ok b"
  shows "cb_rmemlen b = length (cb_content b)" "cb_wbytes b = length (cb_content b)"
    "8 \<le> length (cb_content b) \<Longrightarrow> rx_hdr_len b = frame_len (cb_content b)"
    "cb_mem b = cb_content b @ drop (length (cb_content b)) (cb_mem b)"
  using assms by (auto simp: rxbuf_ok_def cb_defs rx_hdr_len_def frame_len_def)

lemma rx_ask_exact:
  assumes "rxbuf_ok b" "8 \<le> rx_msg_len b"
  shows "rx_ask b = rx_msg_len b - cb_rmemlen b" "cb_rmemlen b \<le> rx_msg_len b" "rx_ask b \<le> cb_wmemlen b"
proof -
  show le: "cb_rmemlen b \<le> rx_msg_len b"
    using assms by (cases "cb_rmemlen b = 8") (auto simp: rxbuf_ok_def rx_msg_len_def)
  have "rx_msg_len b < 65536"
    using rx_hdr_len_bound [of b] by (simp add: rx_msg_len_def)
  with le show a: "rx_ask b = rx_msg_len b - cb_rmemlen b"
    unfolding rx_ask_def by (simp flip: of_nat_diff add: unat_of_nat)
  show "rx_ask b \<le> cb_wmemlen b"
    using a \<open>rx_msg_len b < 65536\<close> assms(1) by (auto simp: rxbuf_ok_def cb_defs)
qed

lemma rx_append:
  assumes "rxbuf_ok b" "8 \<le> rx_msg_len b" "length got \<le> rx_ask b"
  defines "b' \<equiv> cb_wseek (length got) SEEK_CUR (cb_store got b)"
  shows "rxbuf_ok b'" "cb_content b' = cb_content b @ got"
proof -
  note ask = rx_ask_exact [OF assms(1,2)]
  have wf: "cb_wf b" "cb_rbytes b = 0"
    using assms(1) by (simp_all add: rxbuf_ok_def)
  note w = cb_write [OF wf(1), of got, folded b'_def]
  have fit: "length got \<le> cb_wmemlen b"
    using assms(3) ask by simp
  show c: "cb_content b' = cb_content b @ got"
    using w(2) fit by blast
  have len: "cb_rmemlen b' = cb_rmemlen b + length got"
    using c w(1) [OF fit] wf(1) by (metis cb_content_length length_append)
  have hdr: "rx_hdr_len b' = rx_hdr_len b" if "8 \<le> cb_rmemlen b"
    using that wf fit by (auto simp: b'_def rx_hdr_len_def cb_defs Let_def nth_append)
  have "cb_rmemlen b' \<le> rx_hdr_len b'" if "8 < cb_rmemlen b'"
    using that len hdr ask assms(3) by (auto simp: rx_msg_len_def split: if_splits)
  then show "rxbuf_ok b'"
    using w(1,3,4) [OF fit] assms(1) by (simp add: rxbuf_ok_def)
qed

section \<open>Termination and buffer safety\<close>

definition rx_size :: "rx_answer list \<Rightarrow> nat" where
  "rx_size rs = sum_list (map (\<lambda>r. case r of RX_data bs \<Rightarrow> Suc (length bs) | RX_fail e \<Rightarrow> 1) rs)"

definition rx_ready :: "'e crofsock \<Rightarrow> bool" where
  "rx_ready s \<longleftrightarrow> (sock_state s = STATE_TCP_ESTABLISHED \<or> sock_state s = STATE_TLS_ESTABLISHED) \<and> rxbuf_ok (rxbuffer s)"

lemma rx_read_data:
  assumes "rx_read tcp ask rs = (RX_data got, rs')"
  shows "length got \<le> ask" "got \<noteq> [] \<Longrightarrow> rx_size rs' < rx_size rs"
  using assms by (auto simp: rx_read_def rx_size_def split: if_splits list.splits rx_answer.splits)

lemma rx_read_fail:
  assumes "rx_read tcp ask rs = (RX_fail e, rs')"
  shows "rs = [] \<and> e = SSL_ERROR_WANT_READ \<or> rx_size rs' < rx_size rs"
  using assms by (auto simp: rx_read_def rx_size_def split: if_splits list.splits rx_answer.splits)

lemma send_message_rx [simp]:
  "rxbuffer (fst (crofsock_send_message m b s)) = rxbuffer s"
  "sock_state (fst (crofsock_send_message m b s)) = sock_state s"
  "rx_disabled (fst (crofsock_send_message m b s)) = rx_disabled s"
  "flag_test f (fst (crofsock_send_message m b s)) = flag_test f s"
  by (auto simp: crofsock_send_message_def Let_def flag_test_def on_tx_def split: sum.splits)

lemma parse_message_rx:
  assumes "parse_message unpack addr s = (s', ev, e)"
  shows "rxbuffer s' = rxbuffer s \<or> rxbuffer s' = cb_reset (rxbuffer s)" "sock_state s' = sock_state s"
    "rx_disabled s' = rx_disabled s" "flag_test f s' = flag_test f s"
  using assms by (auto simp: parse_message_def Let_def split: sum.splits option.splits if_splits)

lemma rxbuf_ok_reset: "rxbuf_ok b \<Longrightarrow> rxbuf_ok (cb_reset b)"
  by (simp add: rxbuf_ok_def cb_rmemlen_def)

lemma rx_commit_ready:
  assumes "rx_ready s" "8 \<le> rx_msg_len (rxbuffer s)" "length got \<le> rx_ask (rxbuffer s)"
    "rx_commit unpack addr got (s, evs, rs) = (c, s', evs', rs')"
  shows "rx_ready s'" "rs' = rs" "c \<noteq> RX_on_error"
proof -
  let ?s1 = "s\<lparr>rxbuffer := cb_wseek (length got) SEEK_CUR (cb_store got (rxbuffer s))\<rparr>"
  have r1: "rx_ready ?s1"
    using assms rx_append(1) by (auto simp: rx_ready_def)
  have r2: "rx_ready s2" if "parse_message unpack addr ?s1 = (s2, ev, e)" for s2 ev e
    using parse_message_rx(1,2) [OF that] r1 rxbuf_ok_reset by (auto simp: rx_ready_def)
  obtain s2 ev e where p: "parse_message unpack addr ?s1 = (s2, ev, e)"
    by (metis prod.exhaust)
  show "rx_ready s'" "rs' = rs" "c \<noteq> RX_on_error"
    using assms(4) r1 r2 [OF p] by (auto simp: rx_commit_def Let_def p split: if_splits option.splits)
qed

lemma rx_step_ready:
  assumes "rx_ready s" "rx_step unpack addr (s, evs, rs) = (c, s', evs', rs')"
  shows "rx_ready s'" "c = RX_next \<Longrightarrow> rx_size rs' < rx_size rs"
proof -
  have data: "rx_ready s' \<and> (c = RX_next \<longrightarrow> rx_size rs' < rx_size rs)"
    if "8 \<le> rx_msg_len (rxbuffer s)" "rx_read tcp (rx_ask (rxbuffer s)) rs = (RX_data got, rs1)" "got \<noteq> []"
      "rx_commit unpack addr got (s, evs, rs1) = (c, s', evs', rs')" for tcp got rs1
    using rx_commit_ready [OF assms(1) that(1) rx_read_data(1) [OF that(2)] that(4)] rx_read_data(2) [OF that(2,3)]
    by simp
  have none: "rx_ready s' \<and> (c = RX_next \<longrightarrow> rx_size rs' < rx_size rs)"
    if "8 \<le> rx_msg_len (rxbuffer s)" "rx_read tcp (rx_ask (rxbuffer s)) rs = (RX_fail SSL_ERROR_NONE, rs1)"
      "rx_commit unpack addr [] (s, evs, rs1) = (c, s', evs', rs')" for tcp rs1
    using rx_commit_ready [OF assms(1) that(1) _ that(3)] rx_read_fail [OF that(2)] by auto
  have wr: "rx_ready (on_tx f s)" for f
    using assms(1) by (simp add: rx_ready_def)
  have st: "sock_state s = STATE_TCP_ESTABLISHED \<or> sock_state s = STATE_TLS_ESTABLISHED"
    using assms(1) by (simp add: rx_ready_def)
  show "rx_ready s'" "c = RX_next \<Longrightarrow> rx_size rs' < rx_size rs"
    using assms data none wr st
    by (auto simp: rx_step_def split: if_splits prod.splits rx_answer.splits)
qed

lemma rx_loop_total:
  assumes "rx_ready s" "rx_size rs < fuel"
  shows "\<exists>e s' evs' rs'. rx_loop unpack addr now self fuel (s, evs, rs) = Some (e, s', evs', rs') \<and> rxbuf_ok (rxbuffer s')"
  using assms
proof (induction fuel arbitrary: s evs rs)
  case (Suc fuel)
  obtain c s1 evs1 rs1 where step: "rx_step unpack addr (s, evs, rs) = (c, s1, evs1, rs1)"
    by (metis prod.exhaust)
  note ok = rx_step_ready [OF Suc.prems(1) step]
  show ?case
  proof (cases c)
    case RX_next
    with ok Suc.prems(2) have "rx_size rs1 < fuel"
      by simp
    with Suc.IH [OF ok(1) this] RX_next step show ?thesis
      by simp
  next
    case (RX_return e)
    with ok(1) step show ?thesis
      by (simp add: rx_ready_def)
  next
    case RX_on_error
    have "rxbuffer (backoff_reconnect now self r x) = rxbuffer x" for r and x :: "'a crofsock"
      by (simp add: backoff_reconnect_def Let_def)
    with RX_on_error ok(1) step show ?thesis
      by (auto simp: rx_ready_def rx_error_def Let_def)
  qed
qed simp

section \<open>Framing\<close>

text \<open>A message cut off before its end.\<close>

definition incomplete :: "byte list \<Rightarrow> bool" where
  "incomplete f \<longleftrightarrow> length f < 8 \<or> length f < frame_len f"

text \<open>
  The message a complete frame stands for, if it has one: the length field is right, the parsers
  know the class (for a multipart message the frame must reach up to the multipart type), and it
  can be unpacked.
\<close>

definition frame_msg :: "'e unpacker \<Rightarrow> byte list \<Rightarrow> 'e cofmsg option" where
  "frame_msg unpack f =
     (if 8 \<le> length f \<and> frame_len f = length f then
        (case parse_message_class (f @ replicate 16 0) of
           Inl e \<Rightarrow> None
         | Inr c \<Rightarrow>
             if (is_stats_request c \<or> is_stats_reply c) \<and> length f < 10 then None
             else (case unpack c f of Inl e \<Rightarrow> None | Inr m \<Rightarrow> Some m))
      else None)"

lemma frame_len_append: "4 \<le> length f \<Longrightarrow> frame_len (f @ g) = frame_len f"
  by (simp add: frame_len_def nth_append)

text \<open>The parsers look at a frame only, not at what an older message left behind it.\<close>

lemma parse_class_local:
  assumes "8 \<le> length f" "parse_message_class (f @ replicate 16 0) = Inr c"
    "is_stats_request c \<or> is_stats_reply c \<longrightarrow> 10 \<le> length f" "16 \<le> length (f @ rest)"
  shows "parse_message_class (f @ rest) = Inr c"
proof -
  have at: "(f @ g) ! i = f ! i" if "i < 8 \<or> 10 \<le> length f \<and> i < 10" for g i
    using that assms(1) by (auto simp: nth_append)
  obtain ts ss rq rp n where tab: "class_tables (f ! 0) = Some (ts, ss, rq, rp, n)"
    using assms(1,2) by (auto simp: parse_message_class_tables at split: option.splits)
  have "parse_class_with ts ss rq rp n (f @ replicate 16 0) = Inr c"
    using assms(1,2) tab by (simp add: parse_message_class_tables at)
  then have "parse_class_with ts ss rq rp n (f @ rest) = Inr c"
    using assms(3,4) class_tables_wf(4) [OF tab] at
    by (auto simp: parse_class_with_def Let_def split: option.splits if_splits)
  then show ?thesis
    using assms(1) tab by (simp add: parse_message_class_tables at)
qed

lemma parse_message_frame:
  assumes "rxbuf_ok (rxbuffer s)" "frame_msg unpack (cb_content (rxbuffer s)) = Some m"
    "sock_state s \<noteq> STATE_IDLE" "\<not> delete_in_progress s"
  shows "parse_message unpack addr s = (s\<lparr>rxbuffer := cb_reset (rxbuffer s)\<rparr>, [Ev_recv m], None)"
proof -
  let ?b = "rxbuffer s"
  obtain c where c: "8 \<le> length (cb_content ?b)" "parse_message_class (cb_content ?b @ replicate 16 0) = Inr c"
      "is_stats_request c \<or> is_stats_reply c \<longrightarrow> 10 \<le> length (cb_content ?b)" "unpack c (cb_content ?b) = Inr m"
    using assms(2) by (auto simp: frame_msg_def split: if_splits sum.splits)
  have "16 \<le> length (cb_content ?b @ drop (length (cb_content ?b)) (cb_mem ?b))"
    using assms(1) by (simp add: rxbuf_ok_def)
  from parse_class_local [OF c(1-3) this] have "parse_message_class (cb_mem ?b) = Inr c"
    using rxbuf_content(4) [OF assms(1)] by simp
  with c(4) assms(3,4) show ?thesis
    by (simp add: parse_message_def Let_def delete_in_progress_def flag_test_def)
qed

text \<open>One turn on a chunk of data: the part of it that belongs to the current message is taken.\<close>

definition frame_want :: "byte list \<Rightarrow> nat" where
  "frame_want f = (if length f < 8 then 8 else frame_len f) - length f"

lemma rx_step_chunk:
  assumes "rx_ready s" "\<not> rx_disabled s" "\<not> delete_in_progress s" "incomplete (cb_content (rxbuffer s))" "bs \<noteq> []"
  shows "rx_step unpack addr (s, evs, map RX_data (bs # cs)) =
    rx_commit unpack addr (take (frame_want (cb_content (rxbuffer s))) bs) (s, evs, map RX_data
      (if length bs \<le> frame_want (cb_content (rxbuffer s)) then cs else drop (frame_want (cb_content (rxbuffer s))) bs # cs))"
    and "0 < frame_want (cb_content (rxbuffer s))" and "8 \<le> rx_msg_len (rxbuffer s)"
    and "rx_ask (rxbuffer s) = frame_want (cb_content (rxbuffer s))"
proof -
  have b: "rxbuf_ok (rxbuffer s)"
    using assms(1) by (simp add: rx_ready_def)
  note con = rxbuf_content [OF b]
  show len: "8 \<le> rx_msg_len (rxbuffer s)"
    using assms(4) con by (auto simp: rx_msg_len_def incomplete_def)
  show ask: "rx_ask (rxbuffer s) = frame_want (cb_content (rxbuffer s))"
    using rx_ask_exact(1) [OF b len] con by (simp add: frame_want_def rx_msg_len_def)
  show pos: "0 < frame_want (cb_content (rxbuffer s))"
    using assms(4) by (auto simp: frame_want_def incomplete_def)
  show "rx_step unpack addr (s, evs, map RX_data (bs # cs)) =
    rx_commit unpack addr (take (frame_want (cb_content (rxbuffer s))) bs) (s, evs, map RX_data
      (if length bs \<le> frame_want (cb_content (rxbuffer s)) then cs else drop (frame_want (cb_content (rxbuffer s))) bs # cs))"
    using assms len pos unfolding rx_step_def prod.case ask
    by (auto simp: rx_ready_def rx_read_def)
qed

lemma rx_commit_frame:
  assumes "rx_ready s" "8 \<le> rx_msg_len (rxbuffer s)" "length got \<le> rx_ask (rxbuffer s)"
    "\<not> delete_in_progress s" "f = cb_content (rxbuffer s) @ got"
  shows "incomplete f \<Longrightarrow> \<exists>s'. rx_commit unpack addr got (s, evs, rs) = (RX_next, s', evs, rs) \<and> rx_ready s' \<and>
      cb_content (rxbuffer s') = f \<and> rx_disabled s' = rx_disabled s \<and> \<not> delete_in_progress s'"
    and "frame_msg unpack f = Some m \<Longrightarrow> \<exists>s'. rx_commit unpack addr got (s, evs, rs) = (RX_next, s', evs @ [Ev_recv m], rs) \<and>
      rx_ready s' \<and> cb_content (rxbuffer s') = [] \<and> rx_disabled s' = rx_disabled s \<and> \<not> delete_in_progress s'"
proof -
  let ?s1 = "s\<lparr>rxbuffer := cb_wseek (length got) SEEK_CUR (cb_store got (rxbuffer s))\<rparr>"
  have b: "rxbuf_ok (rxbuffer s)" and st: "sock_state s \<noteq> STATE_IDLE"
    using assms(1) by (auto simp: rx_ready_def)
  note ap = rx_append [OF b assms(2,3)]
  have r1: "rx_ready ?s1" "\<not> delete_in_progress ?s1" "cb_content (rxbuffer ?s1) = f"
    using assms ap by (auto simp: rx_ready_def delete_in_progress_def)
  note con = rxbuf_content [OF ap(1)]
  have len: "cb_rmemlen (rxbuffer ?s1) = length f" "8 \<le> length f \<Longrightarrow> rx_hdr_len (rxbuffer ?s1) = frame_len f"
    using con ap(2) assms(5) by simp_all
  {
    assume "incomplete f"
    then show "\<exists>s'. rx_commit unpack addr got (s, evs, rs) = (RX_next, s', evs, rs) \<and> rx_ready s' \<and>
        cb_content (rxbuffer s') = f \<and> rx_disabled s' = rx_disabled s \<and> \<not> delete_in_progress s'"
      using len r1 by (auto simp: rx_commit_def Let_def incomplete_def intro!: exI [of _ ?s1])
  next
    assume m: "frame_msg unpack f = Some m"
    then have full: "8 \<le> length f" "frame_len f = length f"
      by (auto simp: frame_msg_def split: if_splits)
    have "parse_message unpack addr ?s1 = (?s1\<lparr>rxbuffer := cb_reset (rxbuffer ?s1)\<rparr>, [Ev_recv m], None)"
      by (rule parse_message_frame) (use ap m st r1 assms(5) in auto)
    moreover have "rx_ready (?s1\<lparr>rxbuffer := cb_reset (rxbuffer ?s1)\<rparr>)"
      using r1(1) rxbuf_ok_reset by (auto simp: rx_ready_def)
    ultimately show "\<exists>s'. rx_commit unpack addr got (s, evs, rs) = (RX_next, s', evs @ [Ev_recv m], rs) \<and>
        rx_ready s' \<and> cb_content (rxbuffer s') = [] \<and> rx_disabled s' = rx_disabled s \<and> \<not> delete_in_progress s'"
      using full len r1(2) by (auto simp: rx_commit_def Let_def delete_in_progress_def)
  }
qed

text \<open>Reading up to the end of the current message never runs into the next one.\<close>

lemma frame_cut:
  assumes "con @ D = concat fs @ tail" "incomplete con" "incomplete tail"
    "\<forall>f \<in> set fs. 8 \<le> length f \<and> frame_len f = length f" "D = got @ rest" "length got \<le> frame_want con"
  shows "incomplete (con @ got) \<or> (\<exists>fs'. fs = (con @ got) # fs' \<and> rest = concat fs' @ tail)"
proof (cases "length (con @ got) < 8")
  case False
  let ?f = "con @ got"
  have split: "?f @ rest = concat fs @ tail"
    using assms(1,5) by simp
  show ?thesis
  proof (cases fs)
    case Nil
    then have "tail = ?f @ rest"
      using split by simp
    then have "frame_len tail = frame_len ?f" "length ?f \<le> length tail"
      using False frame_len_append [of ?f rest] by simp_all
    then show ?thesis
      using assms(3) False by (auto simp: incomplete_def)
  next
    case (Cons g gs)
    have g: "8 \<le> length g" "frame_len g = length g"
      using assms(4) Cons by auto
    have cat: "?f @ rest = g @ (concat gs @ tail)"
      using split Cons by simp
    have len: "frame_len ?f = length g"
      using frame_len_append [of ?f rest] frame_len_append [of g "concat gs @ tail"] cat g False by simp
    have "length ?f \<le> length g"
      using assms(2,6) False g len frame_len_append [of con got]
      by (cases "length con < 8") (auto simp: frame_want_def incomplete_def)
    then show ?thesis
    proof (cases "length ?f = length g")
      case True
      with cat have "?f = g" "rest = concat gs @ tail"
        by (metis append_eq_append_conv)+
      then show ?thesis
        using Cons by blast
    next
      case False
      with \<open>length ?f \<le> length g\<close> len show ?thesis
        by (simp add: incomplete_def)
    qed
  qed
qed (simp add: incomplete_def)

lemma frame_msg_wf: "frame_msg unpack f = Some m \<Longrightarrow> 8 \<le> length f \<and> frame_len f = length f"
  by (auto simp: frame_msg_def split: if_splits)

lemma frames_wf:
  "map (frame_msg unpack) fs = map Some ms \<Longrightarrow> \<forall>f \<in> set fs. 8 \<le> length f \<and> frame_len f = length f"
proof (induction fs arbitrary: ms)
  case (Cons f fs)
  then obtain m ms' where "ms = m # ms'" "frame_msg unpack f = Some m" "map (frame_msg unpack) fs = map Some ms'"
    by (cases ms) auto
  with Cons.IH [of ms'] frame_msg_wf show ?case
    by auto
qed simp

lemma rx_loop_frames:
  assumes "rx_ready s" "\<not> rx_disabled s" "\<not> delete_in_progress s" "\<forall>c \<in> set cs. c \<noteq> []"
    "cb_content (rxbuffer s) @ concat cs = concat fs @ tail" "incomplete (cb_content (rxbuffer s))" "incomplete tail"
    "map (frame_msg unpack) fs = map Some ms" "rx_size (map RX_data cs) < fuel"
  shows "\<exists>s'. rx_loop unpack addr now self fuel (s, evs, map RX_data cs) = Some (None, s', evs @ map Ev_recv ms, []) \<and>
    cb_content (rxbuffer s') = tail \<and> rx_ready s'"
  using assms
proof (induction fuel arbitrary: s cs fs ms evs)
  case (Suc fuel)
  let ?con = "cb_content (rxbuffer s)"
  note frames = frames_wf [OF Suc.prems(8)]
  have len: "8 \<le> rx_msg_len (rxbuffer s)"
    using Suc.prems(1,6) rxbuf_content [of "rxbuffer s"] by (auto simp: rx_ready_def rx_msg_len_def incomplete_def)
  show ?case
  proof (cases cs)
    case Nil
    have "\<not> fs \<noteq> []"
      using frame_cut [of ?con "[]" fs tail "[]" "[]"] Suc.prems(5-7) frames Nil
      by (cases fs) (auto simp: incomplete_def frame_len_append)
    with Suc.prems(5,8) Nil have "fs = []" "ms = []" "?con = tail"
      by simp_all
    moreover have "rx_ask (rxbuffer s) \<noteq> 0"
      using rx_step_chunk(2,4) [OF Suc.prems(1,2,3,6), of "[0]"] by simp
    ultimately show ?thesis
      using Suc.prems(1-3,6) Nil len by (auto simp: rx_step_def rx_ready_def rx_read_def)
  next
    case (Cons bs cs')
    let ?w = "frame_want ?con"
    let ?cs = "if length bs \<le> ?w then cs' else drop ?w bs # cs'"
    have bs: "bs \<noteq> []" "\<forall>c \<in> set ?cs. c \<noteq> []"
      using Suc.prems(4) Cons by auto
    note step = rx_step_chunk [OF Suc.prems(1-3,6) bs(1)]
    have cat: "concat cs = take ?w bs @ concat ?cs"
      using Cons by auto
    have cut: "incomplete (?con @ take ?w bs) \<or>
        (\<exists>fs'. fs = (?con @ take ?w bs) # fs' \<and> concat ?cs = concat fs' @ tail)"
      by (rule frame_cut [OF Suc.prems(5-7) frames cat]) simp
    have small: "rx_size (map RX_data ?cs) < fuel"
      using Suc.prems(9) Cons bs(1) step(2) by (auto simp: rx_size_def)
    have fit: "length (take ?w bs) \<le> rx_ask (rxbuffer s)"
      by (simp add: step(4))
    note com = rx_commit_frame [OF Suc.prems(1) len fit Suc.prems(3) refl, where unpack = unpack and addr = addr and evs = evs and rs = "map RX_data ?cs"]
    from cut show ?thesis
    proof
      assume "incomplete (?con @ take ?w bs)"
      from com(1) [OF this] obtain s1 where s1: "rx_step unpack addr (s, evs, map RX_data cs) = (RX_next, s1, evs, map RX_data ?cs)"
          "rx_ready s1" "cb_content (rxbuffer s1) = ?con @ take ?w bs" "\<not> rx_disabled s1" "\<not> delete_in_progress s1"
        using step(1) Cons Suc.prems(2) by metis
      show ?thesis
        using Suc.IH [OF s1(2,4,5) bs(2) _ _ Suc.prems(7,8) small, of evs] s1(1,3) Suc.prems(5) cat
          \<open>incomplete (?con @ take ?w bs)\<close> by simp
    next
      assume "\<exists>fs'. fs = (?con @ take ?w bs) # fs' \<and> concat ?cs = concat fs' @ tail"
      then obtain fs' where fs': "fs = (?con @ take ?w bs) # fs'" "concat ?cs = concat fs' @ tail"
        by blast
      then obtain m ms' where ms: "frame_msg unpack (?con @ take ?w bs) = Some m" "map (frame_msg unpack) fs' = map Some ms'"
          "ms = m # ms'"
        using Suc.prems(8) by auto
      from com(2) [OF ms(1)] obtain s1 where s1:
          "rx_step unpack addr (s, evs, map RX_data cs) = (RX_next, s1, evs @ [Ev_recv m], map RX_data ?cs)"
          "rx_ready s1" "cb_content (rxbuffer s1) = []" "\<not> rx_disabled s1" "\<not> delete_in_progress s1"
        using step(1) Cons Suc.prems(2) by metis
      show ?thesis
        using Suc.IH [OF s1(2,4,5) bs(2) _ _ Suc.prems(7) ms(2) small, of "evs @ [Ev_recv m]"] s1(1,3) fs'(2) ms(3)
        by (simp add: incomplete_def)
    qed
  qed
qed simp

section \<open>Messages that cannot be parsed\<close>

definition frame_result :: "'e unpacker \<Rightarrow> byte list \<Rightarrow> 'e cofmsg result" where
  "frame_result unpack f =
     (case parse_message_class (f @ replicate 16 0) of Inl e \<Rightarrow> Inl e | Inr c \<Rightarrow> unpack c f)"

lemma parse_class_ext:
  assumes "10 \<le> length f" "16 \<le> length (f @ rest)"
  shows "parse_message_class (f @ rest) = parse_message_class (f @ replicate 16 0)"
proof -
  have at: "(f @ g) ! i = f ! i" if "i < 10" for g i
    using that assms(1) by (auto simp: nth_append)
  have "parse_class_with ts ss rq rp n (f @ rest) = parse_class_with ts ss rq rp n (f @ replicate 16 0)"
    if "n \<le> 16" for ts ss rq rp n
    using that assms by (auto simp: parse_class_with_def Let_def at split: option.splits)
  then show ?thesis
    using assms(1) class_tables_wf(4) by (auto simp: parse_message_class_tables at split: option.splits)
qed

text \<open>The exception is caught, an error message may be queued, the receive buffer stays as it is.\<close>

lemma parse_message_refuses:
  assumes "rxbuf_ok (rxbuffer s)" "10 \<le> length (cb_content (rxbuffer s))"
    "frame_result unpack (cb_content (rxbuffer s)) = Inl e" "\<not> escapes e" "parse_message unpack addr s = (s', ev, x)"
  shows "rxbuffer s' = rxbuffer s" "ev = []" "x = None"
proof -
  let ?b = "rxbuffer s"
  have "16 \<le> length (cb_content ?b @ drop (length (cb_content ?b)) (cb_mem ?b))"
    using assms(1) by (simp add: rxbuf_ok_def)
  from parse_class_ext [OF assms(2) this]
  have "(case parse_message_class (cb_mem ?b) of Inl e \<Rightarrow> Inl e | Inr c \<Rightarrow> unpack c (cb_content ?b)) = Inl e"
    using assms(3) rxbuf_content(4) [OF assms(1)] by (simp add: frame_result_def)
  with assms(4,5) show "rxbuffer s' = rxbuffer s" "ev = []" "x = None"
    by (auto simp: parse_message_def Let_def split: option.splits if_splits)
qed

lemma rx_full_buffer_closes:
  assumes "rx_ready s" "sock_state s = STATE_TCP_ESTABLISHED" "\<not> rx_disabled s" "\<not> delete_in_progress s"
    "f = cb_content (rxbuffer s)" "8 \<le> length f" "frame_len f = length f"
  shows "rx_step unpack addr (s, evs, rs) = (RX_on_error, s, evs, rs)"
proof -
  have b: "rxbuf_ok (rxbuffer s)"
    using assms(1) by (simp add: rx_ready_def)
  note con = rxbuf_content [OF b]
  have len: "rx_msg_len (rxbuffer s) = length f"
    using con assms(5-7) by (simp add: rx_msg_len_def)
  with rx_ask_exact(1) [OF b] con(1) assms(5,6) have "rx_ask (rxbuffer s) = 0"
    by simp
  then show ?thesis
    using assms(2-4,6) len by (simp add: rx_step_def rx_read_def)
qed

lemma backoff_rx [simp]:
  "rxbuffer (backoff_reconnect now self r s) = rxbuffer s" "sock_state (backoff_reconnect now self r s) = sock_state s"
  by (simp_all add: backoff_reconnect_def Let_def)

section \<open>Properties\<close>

definition echo_unpack :: "nat unpacker" where
  "echo_unpack c f = (if c = Cofmsg_echo_request
     then Inr ((cofmsg_new 0 c (f ! 0) (f ! 1) 0)\<lparr>msg_body := drop 8 f\<rparr>) else Inl EBadRequestBadLen)"

definition rx_sock :: "nat crofsock" where
  "rx_sock = (crofsock_new 9 idle_thread idle_thread)\<lparr>sock_state := STATE_TCP_ESTABLISHED, sock_sd := 5\<rparr>"

lemma rx_sock_facts [simp]:
  "rx_ready rx_sock" "\<not> rx_disabled rx_sock" "\<not> delete_in_progress rx_sock" "cb_content (rxbuffer rx_sock) = []"
  "sock_state rx_sock = STATE_TCP_ESTABLISHED" "\<not> flag_test FLAG_CLOSING rx_sock"
  by (simp_all add: rx_sock_def rx_ready_def rxbuf_ok_def crofsock_new_def delete_in_progress_def flag_test_def
      cb_rmemlen_def)

text \<open>
  C5: the byte stream is cut into messages the same way however the network cuts it.  Whatever
  chunks the stream arrives in, if it consists of well-formed messages followed by the beginning of
  another one, the owner is handed exactly those messages, in order, the receive buffer then holds
  exactly the beginning of the next one, and the receive loop ends.
\<close>

theorem framing_any_chunking:
  assumes "rx_ready s" and "\<not> rx_disabled s" and "\<not> delete_in_progress s" and "\<forall>c \<in> set cs. c \<noteq> []"
    and "cb_content (rxbuffer s) @ concat cs = concat fs @ tail"
    and "incomplete (cb_content (rxbuffer s))" and "incomplete tail"
    and "map (frame_msg unpack) fs = map Some ms" and "rx_size (map RX_data cs) < fuel"
  shows "\<exists>s'. recv_message unpack addr now self fuel (map RX_data cs) s = Some (None, s', map Ev_recv ms, []) \<and>
    cb_content (rxbuffer s') = tail \<and> rx_ready s'"
  using rx_loop_frames [OF assms, of addr now self "[]"] by (simp add: recv_message_def)

theorem framing_any_chunking_witness:
  "\<exists>s'. recv_message echo_unpack 7 \<lparr>tv_sec = 0, tv_nsec = 0\<rparr> 1 30 (map RX_data [[4, 2, 0, 9, 0], [0, 0, 0, 5, 4, 2], [0]]) rx_sock =
     Some (None, s', [Ev_recv ((cofmsg_new 0 Cofmsg_echo_request 4 2 0)\<lparr>msg_body := [5]\<rparr>)], []) \<and>
   cb_content (rxbuffer s') = [4, 2, 0]"
proof -
  have "frame_msg echo_unpack [4, 2, 0, 9, 0, 0, 0, 0, 5] =
      Some ((cofmsg_new 0 Cofmsg_echo_request 4 2 0)\<lparr>msg_body := [5]\<rparr>)"
    by (simp add: frame_msg_def frame_len_def de16_def parse_message_class_def ofp_constants parse_of13_message_def
        parse_class_with_def of13_types_def of12_types_def echo_unpack_def)
  then show ?thesis
    using framing_any_chunking [of rx_sock "[[4, 2, 0, 9, 0], [0, 0, 0, 5, 4, 2], [0]]" "[[4, 2, 0, 9, 0, 0, 0, 0, 5]]"
        "[4, 2, 0]" echo_unpack "[(cofmsg_new 0 Cofmsg_echo_request 4 2 0)\<lparr>msg_body := [5]\<rparr>]" 30 7
        "\<lparr>tv_sec = 0, tv_nsec = 0\<rparr>" 1]
    by (auto simp: incomplete_def rx_size_def)
qed

text \<open>
  C33: reception is memory safe and ends: for all data and errors the kernel delivers and whatever
  the unpacking of messages does, the receive loop returns, never stores beyond the 65536 bytes of
  the receive buffer, and leaves the buffer fit for the next call.
\<close>

theorem recv_message_safe:
  assumes "rx_ready s" and "rx_size rs < fuel"
  shows "\<exists>e s' evs' rs'. recv_message unpack addr now self fuel rs s = Some (e, s', evs', rs') \<and>
    length (cb_mem (rxbuffer s')) = 65536 \<and> rxbuf_ok (rxbuffer s')"
  using rx_loop_total [OF assms, of unpack addr now self "[]"] by (auto simp: recv_message_def rxbuf_ok_def)

theorem recv_message_safe_witness:
  "\<exists>e s' evs' rs'. recv_message echo_unpack 7 \<lparr>tv_sec = 0, tv_nsec = 0\<rparr> 1 30
      [RX_data [4, 99, 255, 255, 0, 0], RX_fail SSL_ERROR_SYSCALL] rx_sock = Some (e, s', evs', rs') \<and>
    length (cb_mem (rxbuffer s')) = 65536"
  using recv_message_safe [of rx_sock "[RX_data [4, 99, 255, 255, 0, 0], RX_fail SSL_ERROR_SYSCALL]" 30 echo_unpack 7
      "\<lparr>tv_sec = 0, tv_nsec = 0\<rparr>" 1] by (auto simp: rx_size_def)

text \<open>
  A message that cannot be parsed ends a TCP connection.  When the read that completes a
  message is followed by a parse failure (the failure is caught and at most an error message is
  queued), the buffer is not reset; the loop then asks for zero bytes, takes the answer for a
  shutdown by the peer and closes, and the refused message is still in the buffer afterwards.
\<close>

theorem parse_failure_closes:
  assumes "rx_ready s" and "sock_state s = STATE_TCP_ESTABLISHED" and "\<not> rx_disabled s"
    and "\<not> delete_in_progress s" and "\<not> flag_test FLAG_CLOSING s" and "incomplete (cb_content (rxbuffer s))"
    and "f = cb_content (rxbuffer s) @ bs" and "bs \<noteq> []" and "length bs = frame_want (cb_content (rxbuffer s))"
    and "10 \<le> length f" and "frame_len f = length f" and "frame_result unpack f = Inl e" and "\<not> escapes e"
  shows "\<exists>s'. recv_message unpack addr now self (Suc (Suc fuel)) (RX_data bs # rs) s = Some (None, s', [Ev_closed], rs) \<and>
    sock_state s' = STATE_IDLE \<and> cb_content (rxbuffer s') = f"
proof -
  let ?s1 = "s\<lparr>rxbuffer := cb_wseek (length bs) SEEK_CUR (cb_store bs (rxbuffer s))\<rparr>"
  note chunk = rx_step_chunk [OF assms(1,3,4,6,8)]
  have b: "rxbuf_ok (rxbuffer s)"
    using assms(1) by (simp add: rx_ready_def)
  have fit: "length bs \<le> rx_ask (rxbuffer s)"
    using chunk(4) assms(9) by simp
  note ap = rx_append [OF b chunk(3) fit]
  have c1: "cb_content (rxbuffer ?s1) = f"
    using ap(2) assms(7) by simp
  obtain s2 ev x where p: "parse_message unpack addr ?s1 = (s2, ev, x)"
    by (metis prod.exhaust)
  have r: "frame_result unpack (cb_content (rxbuffer ?s1)) = Inl e" "10 \<le> length (cb_content (rxbuffer ?s1))" "rxbuf_ok (rxbuffer ?s1)"
    using c1 assms(10,12) ap(1) by simp_all
  note ref = parse_message_refuses [OF r(3,2,1) assms(13) p]
  note keep = parse_message_rx [OF p]
  have s2: "rx_ready s2" "sock_state s2 = STATE_TCP_ESTABLISHED" "\<not> rx_disabled s2" "\<not> delete_in_progress s2"
      "\<not> flag_test FLAG_CLOSING s2" "cb_content (rxbuffer s2) = f"
    using ref(1) keep(2-4) assms(2-5) ap(1) c1 by (simp_all add: rx_ready_def delete_in_progress_def)
  have "rx_commit unpack addr bs (s, [], rs) = (RX_next, s2, [], rs)"
    using rxbuf_content [OF ap(1)] ap(2) assms(7,10,11) p ref(2,3) by (simp add: rx_commit_def Let_def)
  moreover have "rx_step unpack addr (s, [], RX_data bs # rs) = rx_commit unpack addr bs (s, [], rs)"
    using assms(2-4,8,9) chunk(2-4) by (simp add: rx_step_def rx_read_def)
  moreover have "rx_step unpack addr (s2, [], rs) = (RX_on_error, s2, [], rs)"
    using rx_full_buffer_closes [OF s2(1-4) s2(6) [symmetric]] assms(10,11) by simp
  ultimately show ?thesis
    using s2(2,6) crofsock_close_idle(1) [OF s2(5)] by (simp add: recv_message_def rx_error_def Let_def)
qed

definition bad_header :: "byte list" where
  "bad_header = [4, 99, 0, 10, 0, 0, 0, 1]"

definition half_sock :: "nat crofsock" where
  "half_sock = rx_sock\<lparr>rxbuffer := cb_wseek (length bad_header) SEEK_CUR (cb_store bad_header (rxbuffer rx_sock))\<rparr>"

lemma half_sock_buffer: "rxbuf_ok (rxbuffer half_sock)" "cb_content (rxbuffer half_sock) = bad_header"
proof -
  have ok: "rxbuf_ok (rxbuffer rx_sock)" "8 \<le> rx_msg_len (rxbuffer rx_sock)" "rx_ask (rxbuffer rx_sock) = 8"
    using rx_sock_facts(1) by (simp_all add: rx_ready_def rx_sock_def crofsock_new_def rx_msg_len_def rx_ask_def cb_rmemlen_def)
  have "length bad_header \<le> rx_ask (rxbuffer rx_sock)"
    by (simp add: ok(3) bad_header_def)
  from rx_append [OF ok(1,2) this] show "rxbuf_ok (rxbuffer half_sock)" "cb_content (rxbuffer half_sock) = bad_header"
    by (simp_all add: half_sock_def)
qed

lemma bad_header_frame:
  "incomplete bad_header" "frame_want bad_header = 2" "frame_len (bad_header @ [0, 0]) = 10"
  "frame_result echo_unpack (bad_header @ [0, 0]) = Inl EBadRequestBadType"
  by (simp_all add: bad_header_def incomplete_def frame_want_def frame_len_def de16_def frame_result_def
      parse_message_class_def ofp_constants parse_of13_message_def parse_class_with_def of13_types_def of12_types_def)

theorem parse_failure_closes_example:
  "\<exists>s'. recv_message echo_unpack 7 \<lparr>tv_sec = 0, tv_nsec = 0\<rparr> 1 (Suc (Suc 0)) [RX_data [0, 0]] half_sock =
     Some (None, s', [Ev_closed], []) \<and> sock_state s' = STATE_IDLE \<and> cb_content (rxbuffer s') = bad_header @ [0, 0]"
  by (rule parse_failure_closes [where e = EBadRequestBadType])
    (use half_sock_buffer bad_header_frame rx_sock_facts in
      \<open>simp_all add: rx_ready_def half_sock_def delete_in_progress_def escapes_def bad_header_def\<close>)

end
