(* ===== verification/Csegment.thy ===== *)
theory Csegment
  imports Cofmsg Ctimespec
begin

text \<open>
  Reassembly of multipart messages (\<open>csegment.cpp\<close>, \<open>csegment.hpp\<close> and \<open>operator+=\<close> of the
  statistics arrays under \<open>openflow/\<close>).  A segment collects the parts of one message: the first
  part is cloned, the arrays of later parts are merged into it.

  The arrays are \<open>std::map\<close>s and come in three kinds: flow statistics are appended and renumbered;
  meters go to the first free index; the others override by key (table, port, group; queue
  statistics by port and queue).
\<close>

section \<open>Merging arrays\<close>

type_synonym 'e sarray = "(u32 \<times> 'e) list"

text \<open>\<open>cofflowstatsarray::operator+=\<close>: continue after the last key.\<close>

fun put_from :: "u32 \<Rightarrow> 'e list \<Rightarrow> 'e sarray \<Rightarrow> 'e sarray" where
  "put_from i [] a = a"
| "put_from i (e # es) a = put_from (i + 1) es (map_put i e a)"

definition flowstats_append :: "'e sarray \<Rightarrow> 'e sarray \<Rightarrow> 'e sarray" where
  "flowstats_append a b = put_from (if a = [] then 0 else fst (last a) + 1) (map snd b) a"

text \<open>\<open>this->array[it->first] = it->second\<close> for every entry.\<close>

definition keyed_override :: "'e sarray \<Rightarrow> 'e sarray \<Rightarrow> 'e sarray" where
  "keyed_override a b = foldl (\<lambda>m (k, e). map_put k e m) a b"

text \<open>\<open>this->array[port][queue] = ...\<close> for every entry; \<open>array[port]\<close> is created when missing.\<close>

definition put_queue :: "u32 \<Rightarrow> (u32 \<times> 'e sarray) list \<Rightarrow> u32 \<times> 'e \<Rightarrow> (u32 \<times> 'e sarray) list" where
  "put_queue p m qe =
     map_put p (map_put (fst qe) (snd qe) (case map_of m p of None \<Rightarrow> [] | Some x \<Rightarrow> x)) m"

definition queuestats_override ::
  "(u32 \<times> 'e sarray) list \<Rightarrow> (u32 \<times> 'e sarray) list \<Rightarrow> (u32 \<times> 'e sarray) list" where
  "queuestats_override a b = foldl (\<lambda>m pqs. foldl (put_queue (fst pqs)) m (snd pqs)) a b"

text \<open>
  \<open>while (array.find(index) != array.end()) index++;\<close>: at most as many steps as there are keys
  (\<open>next_free_free\<close> below).
\<close>

fun next_free :: "nat \<Rightarrow> u32 \<Rightarrow> u32 list \<Rightarrow> u32" where
  "next_free 0 i ks = i"
| "next_free (Suc n) i ks = (if i \<in> set ks then next_free n (i + 1) ks else i)"

fun fill_from :: "u32 \<Rightarrow> 'e list \<Rightarrow> 'e sarray \<Rightarrow> 'e sarray" where
  "fill_from i [] a = a"
| "fill_from i (e # es) a =
     (let j = next_free (length a) i (map fst a) in fill_from j es (map_put j e a))"

definition meters_fill :: "'e sarray \<Rightarrow> 'e sarray \<Rightarrow> 'e sarray" where
  "meters_fill a b = fill_from 0 (map snd b) a"

section \<open>The segment\<close>

record 'e csegment =
  seg_tspec :: timespec
  seg_xid :: u32
  seg_msg :: "'e cofmsg option"
  seg_msg_type :: u8
  seg_msg_multipart_type :: u16

definition csegment_new :: "u32 \<Rightarrow> timespec \<Rightarrow> u8 \<Rightarrow> u16 \<Rightarrow> 'e csegment" where
  "csegment_new xid ts type mptype =
     \<lparr>seg_tspec = ts, seg_xid = xid, seg_msg = None, seg_msg_type = type, seg_msg_multipart_type = mptype\<rparr>"

definition csegment_is_expired :: "timespec \<Rightarrow> 'e csegment \<Rightarrow> bool" where
  "csegment_is_expired now s = ts_is_expired (seg_tspec s) now"

definition csegment_get_msg :: "'e csegment \<Rightarrow> 'e cofmsg result" where
  "csegment_get_msg s = (case seg_msg s of None \<Rightarrow> Inl EInvalid | Some m \<Rightarrow> Inr m)"

text \<open>
  The class a multipart type stands for in \<open>clone\<close>; types the switch does not name are copied as
  an object of the base class, which has no array.
\<close>

definition clone_kind :: "u16 \<Rightarrow> stats_kind" where
  "clone_kind st =
     (case map_of of13_stats st of
        Some k \<Rightarrow> if k = Stats_experimenter then Stats_base else k
      | None \<Rightarrow> Stats_base)"

text \<open>
  \<open>csegment::clone\<close> into an empty segment; \<open>addr\<close> is the address of the new object.  A cast to a
  class the message does not have raises \<open>std::bad_cast\<close>.
\<close>

definition csegment_clone :: "nat \<Rightarrow> 'e cofmsg \<Rightarrow> 'e cofmsg option result" where
  "csegment_clone addr msg =
     (let st = (if is_stats_request (msg_class msg) \<or> is_stats_reply (msg_class msg) then msg_stats_type msg else 0);
          copy = msg\<lparr>msg_ptr := addr, msg_stats_flags := msg_stats_flags msg AND NOT OFPMPF_REQ_MORE\<rparr>;
          base = copy\<lparr>msg_array := [], msg_queues := []\<rparr>
      in if msg_type msg = OFPT_MULTIPART_REQUEST then
           (if clone_kind st = Stats_base then
              (if is_stats_request (msg_class msg)
               then Inr (Some (base\<lparr>msg_class := Cofmsg_stats_request Stats_base\<rparr>)) else Inl EBadCast)
            else if msg_class msg = Cofmsg_stats_request (clone_kind st) then Inr (Some copy)
            else Inl EBadCast)
         else if msg_type msg = OFPT_MULTIPART_REPLY then
           (if clone_kind st = Stats_base then
              (if is_stats_reply (msg_class msg)
               then Inr (Some (base\<lparr>msg_class := Cofmsg_stats_reply Stats_base\<rparr>)) else Inl EBadCast)
            else if msg_class msg = Cofmsg_stats_reply (clone_kind st) then Inr (Some copy)
            else Inl EBadCast)
         else Inr None)"

text \<open>The \<open>+=\<close> that a kind of reply uses.\<close>

fun merge_arrays :: "stats_kind \<Rightarrow> 'e cofmsg \<Rightarrow> 'e cofmsg \<Rightarrow> 'e cofmsg" where
  "merge_arrays Stats_flow m s = m\<lparr>msg_array := flowstats_append (msg_array m) (msg_array s)\<rparr>"
| "merge_arrays Stats_table m s = m\<lparr>msg_array := keyed_override (msg_array m) (msg_array s)\<rparr>"
| "merge_arrays Stats_port m s = m\<lparr>msg_array := keyed_override (msg_array m) (msg_array s)\<rparr>"
| "merge_arrays Stats_queue m s = m\<lparr>msg_queues := queuestats_override (msg_queues m) (msg_queues s)\<rparr>"
| "merge_arrays Stats_group m s = m\<lparr>msg_array := keyed_override (msg_array m) (msg_array s)\<rparr>"
| "merge_arrays Stats_group_desc m s = m\<lparr>msg_array := keyed_override (msg_array m) (msg_array s)\<rparr>"
| "merge_arrays Stats_meter m s = m\<lparr>msg_array := meters_fill (msg_array m) (msg_array s)\<rparr>"
| "merge_arrays Stats_meter_config m s = m\<lparr>msg_array := meters_fill (msg_array m) (msg_array s)\<rparr>"
| "merge_arrays Stats_table_features m s = m\<lparr>msg_array := keyed_override (msg_array m) (msg_array s)\<rparr>"
| "merge_arrays Stats_port_desc m s = m\<lparr>msg_array := keyed_override (msg_array m) (msg_array s)\<rparr>"
| "merge_arrays _ m s = m"

text \<open>Which replies the \<open>switch\<close> of \<open>store_and_merge_msg\<close> merges; the others are ignored.\<close>

definition mergeable_reply :: "u16 \<Rightarrow> stats_kind option" where
  "mergeable_reply st =
     (case clone_kind st of
        Stats_desc \<Rightarrow> None | Stats_aggr \<Rightarrow> None | Stats_group_features \<Rightarrow> None
      | Stats_meter_features \<Rightarrow> None | Stats_base \<Rightarrow> None | Stats_experimenter \<Rightarrow> None
      | k \<Rightarrow> Some k)"

definition mergeable_request :: "u16 \<Rightarrow> stats_kind option" where
  "mergeable_request st = (if st = 12 then Some Stats_table_features else None)"

text \<open>
  The common shape of the merge cases: the stored object is cast as a pointer, the new part as a
  reference; a failing cast of the part raises, one of the stored object gives a null pointer.
\<close>

definition merge_cast ::
  "(stats_kind \<Rightarrow> msg_class) \<Rightarrow> stats_kind \<Rightarrow> 'e cofmsg \<Rightarrow> 'e cofmsg \<Rightarrow> 'e cofmsg result" where
  "merge_cast cls k m s =
     (if msg_class s \<noteq> cls k then Inl EBadCast
      else if msg_class m \<noteq> cls k then Inl ENullPointer
      else Inr (merge_arrays k m s))"

definition store_and_merge_msg :: "nat \<Rightarrow> 'e cofmsg \<Rightarrow> 'e csegment \<Rightarrow> 'e csegment result" where
  "store_and_merge_msg addr msg s =
     (case seg_msg s of
        None \<Rightarrow> (case csegment_clone addr msg of
                   Inl e \<Rightarrow> Inl e
                 | Inr m \<Rightarrow> Inr (s\<lparr>seg_msg := m\<rparr>))
      | Some m \<Rightarrow>
          if seg_msg_type s \<noteq> msg_type msg then Inl ESegmentedMessageInvalid
          else if is_stats_request (msg_class msg) \<and> seg_msg_multipart_type s \<noteq> msg_stats_type msg
            then Inl ESegmentedMessageInvalid
          else if is_stats_reply (msg_class msg) \<and> seg_msg_multipart_type s \<noteq> msg_stats_type msg
            then Inl ESegmentedMessageInvalid
          else (let kind = (if seg_msg_type s = OFPT_MULTIPART_REQUEST then mergeable_request (seg_msg_multipart_type s)
                            else if seg_msg_type s = OFPT_MULTIPART_REPLY then mergeable_reply (seg_msg_multipart_type s)
                            else None);
                    cls = (if seg_msg_type s = OFPT_MULTIPART_REQUEST then Cofmsg_stats_request else Cofmsg_stats_reply)
                in case kind of
                     None \<Rightarrow> Inr s
                   | Some k \<Rightarrow> (case merge_cast cls k m msg of
                                  Inl e \<Rightarrow> Inl e
                                | Inr m' \<Rightarrow> Inr (s\<lparr>seg_msg := Some m'\<rparr>))))"

definition retrieve_and_detach_msg :: "'e csegment \<Rightarrow> 'e csegment \<times> 'e cofmsg option" where
  "retrieve_and_detach_msg s = (s\<lparr>seg_msg := None\<rparr>, seg_msg s)"

section \<open>Lemmas on the arrays\<close>

text \<open>An array as the parser fills it: keys \<open>0, 1, 2, ...\<close>.\<close>

definition seq_array :: "'e sarray \<Rightarrow> bool" where
  "seq_array a \<longleftrightarrow> map fst a = map word_of_nat [0..<length a]"

definition mk_seq :: "'e list \<Rightarrow> 'e sarray" where
  "mk_seq es = zip (map word_of_nat [0..<length es]) es"

lemma seq_array_iff: "seq_array a \<longleftrightarrow> a = mk_seq (map snd a)"
  by (metis length_map length_upt map_snd_zip mk_seq_def seq_array_def diff_zero map_fst_zip zip_map_fst_snd)

lemma mk_seq_sel [simp]: "map snd (mk_seq es) = es" "length (mk_seq es) = length es" "seq_array (mk_seq es)"
  by (simp_all add: mk_seq_def seq_array_def)

lemma mk_seq_snoc: "mk_seq (es @ [e]) = mk_seq es @ [(word_of_nat (length es), e)]"
  by (simp add: mk_seq_def zip_append1 upt_add_eq_append)

lemma mk_seq_keys: "fst ` set (mk_seq es) = word_of_nat ` {..<length es}"
proof -
  have "fst ` set (mk_seq es) = set (map fst (mk_seq es))"
    by simp
  also have "\<dots> = word_of_nat ` {..<length es}"
    unfolding mk_seq_def by (simp add: atLeast0LessThan)
  finally show ?thesis .
qed

lemma of_nat_less_u32: "i < n \<Longrightarrow> n < 2 ^ 32 \<Longrightarrow> (word_of_nat i :: u32) < word_of_nat n"
  by (simp add: word_less_nat_alt unat_of_nat)

lemma put_above_seq:
  assumes "length es < 2 ^ 32"
  shows "map_put (word_of_nat (length es)) e (mk_seq es) = mk_seq (es @ [e])"
  using assms by (subst map_put_above) (auto simp: mk_seq_snoc mk_seq_keys intro: of_nat_less_u32)

lemma put_from_seq:
  "length es + length fs \<le> 2 ^ 32 \<Longrightarrow> put_from (word_of_nat (length es)) fs (mk_seq es) = mk_seq (es @ fs)"
proof (induction fs arbitrary: es)
  case (Cons f fs)
  then have "put_from (word_of_nat (length (es @ [f]))) fs (mk_seq (es @ [f])) = mk_seq ((es @ [f]) @ fs)"
    by (intro Cons.IH) simp
  then show ?case
    using Cons.prems put_above_seq [of es f] by (simp add: add.commute)
qed simp

lemma flowstats_append_seq:
  assumes "length es + length b \<le> 2 ^ 32"
  shows "flowstats_append (mk_seq es) b = mk_seq (es @ map snd b)"
proof (cases es rule: rev_cases)
  case Nil
  then show ?thesis
    using assms put_from_seq [of "[]" "map snd b"] by (simp add: flowstats_append_def mk_seq_def)
next
  case (snoc fs f)
  then have "mk_seq es \<noteq> []" "fst (last (mk_seq es)) + 1 = word_of_nat (length es)"
    by (simp_all add: mk_seq_snoc add.commute)
  then show ?thesis
    using assms put_from_seq [of es "map snd b"] by (simp add: flowstats_append_def)
qed

text \<open>The search for a free index succeeds within as many steps as there are keys.\<close>

lemma next_free_seq:
  "i + n = length es \<Longrightarrow> length es < 2 ^ 32 \<Longrightarrow>
   next_free n (word_of_nat i) (map fst (mk_seq es)) = word_of_nat (length es)"
proof (induction n arbitrary: i)
  case (Suc n)
  then have "(word_of_nat i :: u32) \<in> set (map fst (mk_seq es))"
    by (simp add: mk_seq_keys)
  then show ?case
    using Suc.IH [of "Suc i"] Suc.prems by (simp add: add.commute)
qed simp

lemma next_free_after:
  "length es < 2 ^ 32 \<Longrightarrow> next_free n (word_of_nat (length es)) (map fst (mk_seq es)) = word_of_nat (length es)"
proof -
  assume l: "length es < 2 ^ 32"
  then have "(word_of_nat (length es) :: u32) \<notin> fst ` set (mk_seq es)"
    by (auto simp: mk_seq_keys dest: of_nat_less_u32)
  then show ?thesis
    by (cases n) simp_all
qed

lemma next_free_last:
  assumes "length (es @ [e]) < 2 ^ 32"
  shows "next_free (length (mk_seq (es @ [e]))) (word_of_nat (length es)) (map fst (mk_seq (es @ [e]))) =
    word_of_nat (length (es @ [e]))"
proof -
  have "(word_of_nat (length es) :: u32) \<in> set (map fst (mk_seq (es @ [e])))"
    by (simp add: mk_seq_keys)
  then show ?thesis
    using next_free_after [OF assms, of "length es"] by (simp add: add.commute)
qed

lemma fill_from_seq:
  "length es + length fs \<le> 2 ^ 32 \<Longrightarrow> next_free (length es) i (map fst (mk_seq es)) = word_of_nat (length es) \<or> fs = [] \<Longrightarrow>
   fill_from i fs (mk_seq es) = mk_seq (es @ fs)"
proof (induction fs arbitrary: i es)
  case (Cons f fs)
  have step: "fill_from i (f # fs) (mk_seq es) = fill_from (word_of_nat (length es)) fs (mk_seq (es @ [f]))"
    using Cons.prems put_above_seq [of es f] by simp
  have "next_free (length (es @ [f])) (word_of_nat (length es)) (map fst (mk_seq (es @ [f]))) =
      word_of_nat (length (es @ [f])) \<or> fs = []"
    using next_free_last [of es f] Cons.prems(1) by (cases fs) simp_all
  then show ?case
    unfolding step using Cons.IH [of "es @ [f]"] Cons.prems(1) by simp
qed simp

lemma meters_fill_seq:
  assumes "length es + length b \<le> 2 ^ 32"
  shows "meters_fill (mk_seq es) b = mk_seq (es @ map snd b)"
proof (cases "b = []")
  case False
  then have "length es < 2 ^ 32"
    using assms by (cases b) simp_all
  then show ?thesis
    using next_free_seq [of 0 "length es" es] assms
    by (simp add: meters_fill_def fill_from_seq)
qed (simp add: meters_fill_def)

lemma keyed_override_map:
  "map_wf a \<Longrightarrow> map_wf b \<Longrightarrow> map_wf (keyed_override a b) \<and> map_of (keyed_override a b) = map_of a ++ map_of b"
proof (induction b arbitrary: a)
  case Nil
  then show ?case by (simp add: keyed_override_def)
next
  case (Cons p b)
  obtain k e where p: "p = (k, e)" by fastforce
  have wf: "map_wf b" "map_of b k = None"
    using Cons.prems(2) map_wf_notin [of k e b k] by (simp_all add: p map_wf_Cons)
  have "map_wf (map_put k e a)"
    using Cons.prems(1) by (rule map_wf_put)
  from Cons.IH [OF this wf(1)] show ?case
    using Cons.prems(1) wf(2)
    by (auto simp: keyed_override_def p map_of_put fun_eq_iff map_add_def split: option.splits)
qed

subsection \<open>Queue statistics\<close>

definition queues_wf :: "(u32 \<times> 'e sarray) list \<Rightarrow> bool" where
  "queues_wf m \<longleftrightarrow> map_wf m \<and> (\<forall>x \<in> ran (map_of m). map_wf x)"

definition queue_lookup :: "(u32 \<times> 'e sarray) list \<Rightarrow> u32 \<times> u32 \<rightharpoonup> 'e" where
  "queue_lookup m = (\<lambda>(p, q). case map_of m p of None \<Rightarrow> None | Some x \<Rightarrow> map_of x q)"

lemma queues_wf_get: "queues_wf m \<Longrightarrow> map_wf (case map_of m p of None \<Rightarrow> [] | Some x \<Rightarrow> x)"
  by (auto simp: queues_wf_def ran_def split: option.splits)

lemma put_queue_spec:
  assumes "queues_wf m"
  shows "queues_wf (put_queue p m (q, e))" "queue_lookup (put_queue p m (q, e)) = (queue_lookup m)((p, q) \<mapsto> e)"
proof -
  let ?x = "case map_of m p of None \<Rightarrow> [] | Some x \<Rightarrow> x"
  have wf: "map_wf m" and wfx: "map_wf ?x"
    using assms queues_wf_get by (auto simp: queues_wf_def)
  have m': "map_of (put_queue p m (q, e)) = (map_of m)(p \<mapsto> map_put q e ?x)"
    unfolding put_queue_def by (simp add: map_of_put [OF wf])
  have "map_wf (put_queue p m (q, e))"
    using wf by (simp add: put_queue_def map_wf_put)
  then show "queues_wf (put_queue p m (q, e))"
    using assms map_wf_put [OF wfx, of q e] unfolding queues_wf_def m'
    by (auto simp: ran_def)
  show "queue_lookup (put_queue p m (q, e)) = (queue_lookup m)((p, q) \<mapsto> e)"
    using map_of_put [OF wfx]
    by (auto simp: queue_lookup_def m' fun_eq_iff split: option.splits)
qed

lemma queues_override_port:
  "queues_wf m \<Longrightarrow> map_wf qs \<Longrightarrow> queues_wf (foldl (put_queue p) m qs) \<and> queue_lookup (foldl (put_queue p) m qs) =
    (\<lambda>(p', q). if p' = p then (case map_of qs q of Some e \<Rightarrow> Some e | None \<Rightarrow> queue_lookup m (p', q)) else queue_lookup m (p', q))"
proof (induction qs arbitrary: m)
  case Nil
  then show ?case by (auto simp: fun_eq_iff)
next
  case (Cons x qs)
  obtain q e where x: "x = (q, e)" by fastforce
  have wf: "map_wf qs" "map_of qs q = None"
    using Cons.prems(2) map_wf_notin [of q e qs q] by (simp_all add: x map_wf_Cons)
  note q = put_queue_spec [OF Cons.prems(1), of p q e]
  from Cons.IH [OF q(1) wf(1)] wf(2) show ?case
    by (simp add: x q(2) fun_eq_iff split: option.splits)
qed

lemma queues_wf_Cons:
  assumes "queues_wf ((p, qs) # b)"
  shows "queues_wf b" "map_wf qs" "map_of b p = None"
proof -
  show none: "map_of b p = None"
    using assms map_wf_notin [of p qs b p] by (simp add: queues_wf_def)
  then have "ran (map_of ((p, qs) # b)) = insert qs (ran (map_of b))"
    by (simp add: ran_map_upd)
  then show "queues_wf b" "map_wf qs"
    using assms by (auto simp: queues_wf_def map_wf_Cons)
qed

lemma queuestats_override_map:
  "queues_wf a \<Longrightarrow> queues_wf b \<Longrightarrow>
   queues_wf (queuestats_override a b) \<and> queue_lookup (queuestats_override a b) = queue_lookup a ++ queue_lookup b"
proof (induction b arbitrary: a)
  case Nil
  then show ?case by (simp add: queuestats_override_def queue_lookup_def map_add_def fun_eq_iff)
next
  case (Cons x b)
  obtain p qs where x: "x = (p, qs)" by fastforce
  note b = queues_wf_Cons [OF Cons.prems(2) [unfolded x]]
  note port = queues_override_port [OF Cons.prems(1) b(2), of p]
  from Cons.IH [OF conjunct1 [OF port] b(1)] b(3) show ?case
    using conjunct2 [OF port]
    by (auto simp: queuestats_override_def x queue_lookup_def map_add_def fun_eq_iff split: option.splits)
qed

section \<open>The contract of \<open>operator+=\<close>\<close>

text \<open>
  Merging is homomorphic: the abstract value of a merge is the combination of the abstract values.
  \<open>size\<close> and \<open>lim\<close> bound the number of entries where keys could wrap around.
\<close>

locale array_merge =
  fixes ok :: "'a \<Rightarrow> bool" and abs :: "'a \<Rightarrow> 'b" and merge :: "'a \<Rightarrow> 'a \<Rightarrow> 'a"
    and comb :: "'b \<Rightarrow> 'b \<Rightarrow> 'b" and size :: "'a \<Rightarrow> nat" and lim :: nat
  assumes merge_abs: "ok a \<Longrightarrow> ok b \<Longrightarrow> size a + size b \<le> lim \<Longrightarrow> abs (merge a b) = comb (abs a) (abs b)"
    and merge_ok: "ok a \<Longrightarrow> ok b \<Longrightarrow> size a + size b \<le> lim \<Longrightarrow> ok (merge a b)"
    and merge_size: "ok a \<Longrightarrow> ok b \<Longrightarrow> size a + size b \<le> lim \<Longrightarrow> size (merge a b) \<le> size a + size b"
begin

lemma fold_merge:
  "ok a \<Longrightarrow> (\<forall>b \<in> set bs. ok b) \<Longrightarrow> size a + sum_list (map size bs) \<le> lim \<Longrightarrow>
   ok (foldl merge a bs) \<and> abs (foldl merge a bs) = foldl comb (abs a) (map abs bs)"
proof (induction bs arbitrary: a)
  case (Cons b bs)
  have le: "size a + size b \<le> lim"
    using Cons.prems by simp
  have "size (merge a b) + sum_list (map size bs) \<le> lim"
    using merge_size [of a b] Cons.prems le by simp
  then show ?case
    using Cons.IH [of "merge a b"] Cons.prems merge_abs [of a b] merge_ok [of a b] le by simp
qed simp

end

lemma seq_arrayE: "seq_array a \<Longrightarrow> (\<And>es. a = mk_seq es \<Longrightarrow> P) \<Longrightarrow> P"
  using seq_array_iff by blast

interpretation flow_array: array_merge seq_array "map snd" flowstats_append "(@)" length "2 ^ 32"
  by unfold_locales (auto elim!: seq_arrayE simp: flowstats_append_seq)

interpretation meter_array: array_merge seq_array "map snd" meters_fill "(@)" length "2 ^ 32"
  by unfold_locales (auto elim!: seq_arrayE simp: meters_fill_seq)

interpretation keyed_array: array_merge map_wf map_of keyed_override map_add "\<lambda>_. 0" 0
  by unfold_locales (auto simp: keyed_override_map)

interpretation queue_array: array_merge queues_wf queue_lookup queuestats_override map_add "\<lambda>_. 0" 0
  by unfold_locales (auto simp: queuestats_override_map)

section \<open>Reassembly\<close>

text \<open>The parts of a message, stored one after the other.\<close>

fun reassemble :: "nat \<Rightarrow> 'e cofmsg list \<Rightarrow> 'e csegment \<Rightarrow> 'e csegment result" where
  "reassemble addr [] s = Inr s"
| "reassemble addr (m # ms) s =
     (case store_and_merge_msg addr m s of Inl e \<Rightarrow> Inl e | Inr s' \<Rightarrow> reassemble addr ms s')"

definition reply_part :: "stats_kind \<Rightarrow> u16 \<Rightarrow> 'e cofmsg \<Rightarrow> bool" where
  "reply_part k st m \<longleftrightarrow> msg_class m = Cofmsg_stats_reply k \<and> msg_type m = OFPT_MULTIPART_REPLY \<and>
     msg_stats_type m = st \<and> mergeable_reply st = Some k"

definition part_clone :: "nat \<Rightarrow> 'e cofmsg \<Rightarrow> 'e cofmsg" where
  "part_clone addr m = m\<lparr>msg_ptr := addr, msg_stats_flags := msg_stats_flags m AND NOT OFPMPF_REQ_MORE\<rparr>"

lemma mergeable_reply_kind: "mergeable_reply st = Some k \<Longrightarrow> clone_kind st = k \<and> k \<noteq> Stats_base"
  by (auto simp: mergeable_reply_def split: stats_kind.splits)

lemma merge_arrays_frame [simp]:
  "msg_class (merge_arrays k m s) = msg_class m" "msg_type (merge_arrays k m s) = msg_type m"
  "msg_xid (merge_arrays k m s) = msg_xid m" "msg_version (merge_arrays k m s) = msg_version m"
  "msg_stats_flags (merge_arrays k m s) = msg_stats_flags m" "msg_ptr (merge_arrays k m s) = msg_ptr m"
  by (cases k; simp)+

lemma store_first:
  assumes "reply_part k st m" "seg_msg s = None"
  shows "store_and_merge_msg addr m s = Inr (s\<lparr>seg_msg := Some (part_clone addr m)\<rparr>)"
  using assms mergeable_reply_kind [of st k]
  by (simp add: reply_part_def store_and_merge_msg_def csegment_clone_def Let_def ofp_constants part_clone_def)

lemma store_next:
  assumes "reply_part k st p" "seg_msg s = Some m" "msg_class m = Cofmsg_stats_reply k"
    "seg_msg_type s = OFPT_MULTIPART_REPLY" "seg_msg_multipart_type s = st"
  shows "store_and_merge_msg addr p s = Inr (s\<lparr>seg_msg := Some (merge_arrays k m p)\<rparr>)"
  using assms by (simp add: reply_part_def store_and_merge_msg_def Let_def ofp_constants merge_cast_def)

lemma reassemble_rest:
  "seg_msg s = Some m \<Longrightarrow> msg_class m = Cofmsg_stats_reply k \<Longrightarrow> seg_msg_type s = OFPT_MULTIPART_REPLY \<Longrightarrow>
   seg_msg_multipart_type s = st \<Longrightarrow> (\<forall>p \<in> set ps. reply_part k st p) \<Longrightarrow>
   reassemble addr ps s = Inr (s\<lparr>seg_msg := Some (foldl (merge_arrays k) m ps)\<rparr>)"
proof (induction ps arbitrary: s m)
  case (Cons p ps)
  then show ?case
    using store_next [of k st p s m addr] by simp
qed simp

lemma reassemble_reply:
  assumes "\<forall>q \<in> set (p # ps). reply_part k st q"
  shows "reassemble addr (p # ps) (csegment_new xid ts OFPT_MULTIPART_REPLY st) =
    Inr (csegment_new xid ts OFPT_MULTIPART_REPLY st\<lparr>seg_msg := Some (foldl (merge_arrays k) (part_clone addr p) ps)\<rparr>)"
proof -
  have "msg_class (part_clone addr p) = Cofmsg_stats_reply k"
    using assms by (simp add: reply_part_def part_clone_def)
  then show ?thesis
    using assms store_first [of k st p "csegment_new xid ts OFPT_MULTIPART_REPLY st" addr]
    by (simp add: reassemble_rest csegment_new_def)
qed

lemma foldl_merge_frame:
  "msg_xid (foldl (merge_arrays k) m ps) = msg_xid m" "msg_version (foldl (merge_arrays k) m ps) = msg_version m"
  "msg_stats_flags (foldl (merge_arrays k) m ps) = msg_stats_flags m"
  by (induction ps arbitrary: m) simp_all

lemma foldl_merge_array:
  assumes "\<And>m s. msg_array (merge_arrays k m s) = f (msg_array m) (msg_array s)"
  shows "msg_array (foldl (merge_arrays k) m ps) = foldl f (msg_array m) (map msg_array ps)"
  by (induction ps arbitrary: m) (simp_all add: assms)

lemma foldl_merge_queues:
  "msg_queues (foldl (merge_arrays Stats_queue) m ps) = foldl queuestats_override (msg_queues m) (map msg_queues ps)"
  by (induction ps arbitrary: m) simp_all

lemma foldl_append_concat: "foldl (@) xs yss = xs @ concat yss"
  by (induction yss arbitrary: xs) simp_all

section \<open>Properties\<close>

text \<open>
  Merging meters and merging flows are the same operation on arrays as the parser fills them:
  the search for the first free index and the renumbering after the last one both append.
\<close>

lemma meters_fill_is_append:
  assumes "seq_array a" and "length a + length b \<le> 2 ^ 32"
  shows "meters_fill a b = flowstats_append a b \<and> map snd (meters_fill a b) = map snd a @ map snd b \<and>
    seq_array (meters_fill a b)"
  using assms by (auto elim!: seq_arrayE simp: meters_fill_seq flowstats_append_seq)

lemma meters_fill_is_append_example:
  "seq_array [(0, ''a''), (1, ''b'')] \<and> map snd (meters_fill [(0, ''a''), (1, ''b'')] [(0, ''c'')]) = [''a'', ''b'', ''c'']"
proof -
  have seq: "seq_array [(0, ''a''), (1, ''b'')]"
    by (simp add: seq_array_def)
  have "map snd (meters_fill [(0, ''a''), (1, ''b'')] [(0, ''c'')]) = map snd [(0::u32, ''a''), (1, ''b'')] @ map snd [(0::u32, ''c'')]"
    by (rule conjunct1 [OF conjunct2 [OF meters_fill_is_append [OF seq]]]) simp
  with seq show ?thesis by simp
qed

text \<open>
  Reassembly of a multipart reply whose entries are numbered (flow, meter and meter
  configuration statistics): storing all parts succeeds, and the resulting message has the first
  part's header without the MORE flag and all entries of all parts, in order.
\<close>

lemma reassemble_numbered:
  assumes "k = Stats_flow \<or> k = Stats_meter \<or> k = Stats_meter_config"
    and "\<forall>q \<in> set (p # ps). reply_part k st q \<and> seq_array (msg_array q)"
    and "sum_list (map (\<lambda>q. length (msg_array q)) (p # ps)) \<le> 2 ^ 32"
  shows "\<exists>s m. reassemble addr (p # ps) (csegment_new xid ts OFPT_MULTIPART_REPLY st) = Inr s \<and>
    seg_msg s = Some m \<and> map snd (msg_array m) = concat (map (\<lambda>q. map snd (msg_array q)) (p # ps)) \<and>
    seq_array (msg_array m) \<and> msg_xid m = msg_xid p \<and> msg_version m = msg_version p \<and>
    msg_stats_flags m = msg_stats_flags p AND NOT OFPMPF_REPLY_MORE"
proof -
  let ?m = "foldl (merge_arrays k) (part_clone addr p) ps"
  have parts: "\<forall>q \<in> set (p # ps). reply_part k st q"
    using assms(2) by blast
  obtain f where f: "\<And>m s. msg_array (merge_arrays k m s) = f (msg_array m) (msg_array s)"
    and fold: "seq_array (foldl f (msg_array p) (map msg_array ps)) \<and>
      map snd (foldl f (msg_array p) (map msg_array ps)) =
      foldl (@) (map snd (msg_array p)) (map (map snd) (map msg_array ps))"
  proof (cases "k = Stats_flow")
    case True
    show thesis
      by (rule that [of flowstats_append], simp add: True,
          rule flow_array.fold_merge) (use assms(2,3) in \<open>simp_all add: comp_def\<close>)
  next
    case False
    show thesis
      by (rule that [of meters_fill], use False assms(1) in force,
          rule meter_array.fold_merge) (use assms(2,3) in \<open>simp_all add: comp_def\<close>)
  qed
  have "msg_array ?m = foldl f (msg_array p) (map msg_array ps)"
    using foldl_merge_array [OF f, of "part_clone addr p" ps] by (simp add: part_clone_def)
  with fold have "map snd (msg_array ?m) = concat (map (\<lambda>q. map snd (msg_array q)) (p # ps))"
      and "seq_array (msg_array ?m)"
    by (simp_all add: foldl_append_concat comp_def)
  then show ?thesis
    using reassemble_reply [OF parts, of addr xid ts]
    by (simp add: foldl_merge_frame part_clone_def ofp_constants)
qed

definition flow_part :: "u16 \<Rightarrow> (u32 \<times> string) list \<Rightarrow> string cofmsg" where
  "flow_part flags es = \<lparr>msg_ptr = 0, msg_class = Cofmsg_stats_reply Stats_flow, msg_version = 4, msg_type = 19,
     msg_len = 0, msg_xid = 9, msg_stats_type = 1, msg_stats_flags = flags, msg_array = es, msg_queues = [],
     msg_hello = \<lparr>hello_elems = []\<rparr>, msg_err_type = 0, msg_err_code = 0, msg_auxid = 0, msg_dpid = 0, msg_body = []\<rparr>"

lemma flow_part_reply: "reply_part Stats_flow 1 (flow_part flags es)"
  by (simp add: reply_part_def flow_part_def ofp_constants mergeable_reply_def clone_kind_def of13_stats_def)

lemma reassemble_numbered_example:
  "\<exists>s m. reassemble 5 [flow_part 1 [(0, ''a''), (1, ''b'')], flow_part 0 [(0, ''c'')]]
     (csegment_new 9 \<lparr>tv_sec = 0, tv_nsec = 0\<rparr> OFPT_MULTIPART_REPLY 1) = Inr s \<and>
   seg_msg s = Some m \<and> map snd (msg_array m) = [''a'', ''b'', ''c'']"
proof -
  have "\<forall>q \<in> set [flow_part 1 [(0, ''a''), (1, ''b'')], flow_part 0 [(0, ''c'')]].
      reply_part Stats_flow 1 q \<and> seq_array (msg_array q)"
    using flow_part_reply by (auto simp: seq_array_def flow_part_def)
  from reassemble_numbered [OF _ this, of 5 9 "\<lparr>tv_sec = 0, tv_nsec = 0\<rparr>"] show ?thesis
    by (auto simp: flow_part_def)
qed

text \<open>
  Reassembly of a multipart reply whose entries have keys (table, port, group, group
  description, table features and port description statistics; queue statistics by port and queue):
  storing all parts succeeds, and a key's entry is the one of the last part that has it.
\<close>

lemma reassemble_keyed:
  assumes "k \<in> {Stats_table, Stats_port, Stats_group, Stats_group_desc, Stats_table_features, Stats_port_desc, Stats_queue}"
    and "\<forall>q \<in> set (p # ps). reply_part k st q \<and> map_wf (msg_array q) \<and> queues_wf (msg_queues q)"
  shows "\<exists>s m. reassemble addr (p # ps) (csegment_new xid ts OFPT_MULTIPART_REPLY st) = Inr s \<and>
    seg_msg s = Some m \<and>
    (if k = Stats_queue
     then queue_lookup (msg_queues m) = foldl (++) (queue_lookup (msg_queues p)) (map (\<lambda>q. queue_lookup (msg_queues q)) ps)
     else map_of (msg_array m) = foldl (++) (map_of (msg_array p)) (map (\<lambda>q. map_of (msg_array q)) ps))"
proof -
  let ?m = "foldl (merge_arrays k) (part_clone addr p) ps"
  have parts: "\<forall>q \<in> set (p # ps). reply_part k st q"
    using assms(2) by blast
  have "map_of (msg_array ?m) = foldl (++) (map_of (msg_array p)) (map (\<lambda>q. map_of (msg_array q)) ps)"
    if "k \<noteq> Stats_queue"
  proof -
    have f: "msg_array (merge_arrays k m s) = keyed_override (msg_array m) (msg_array s)" for m s :: "'a cofmsg"
      using assms(1) that by auto
    show ?thesis
      using keyed_array.fold_merge [of "msg_array p" "map msg_array ps"] assms(2)
        foldl_merge_array [OF f, of "part_clone addr p" ps]
      by (simp add: part_clone_def comp_def)
  qed
  moreover have "queue_lookup (msg_queues ?m) =
      foldl (++) (queue_lookup (msg_queues p)) (map (\<lambda>q. queue_lookup (msg_queues q)) ps)" if "k = Stats_queue"
    using queue_array.fold_merge [of "msg_queues p" "map msg_queues ps"] assms(2) that
      foldl_merge_queues [of "part_clone addr p" ps]
    by (simp add: part_clone_def comp_def)
  ultimately show ?thesis
    using reassemble_reply [OF parts, of addr xid ts] by simp
qed

definition port_part :: "(u32 \<times> string) list \<Rightarrow> string cofmsg" where
  "port_part es = (flow_part 0 es)\<lparr>msg_class := Cofmsg_stats_reply Stats_port_desc, msg_stats_type := 13\<rparr>"

lemma reassemble_keyed_example:
  "\<exists>s m. reassemble 5 [port_part [(7, ''a'')], port_part [(3, ''b''), (7, ''c'')]]
     (csegment_new 9 \<lparr>tv_sec = 0, tv_nsec = 0\<rparr> OFPT_MULTIPART_REPLY 13) = Inr s \<and>
   seg_msg s = Some m \<and> map_of (msg_array m) 7 = Some ''c''"
proof -
  have "\<forall>q \<in> set [port_part [(7, ''a'')], port_part [(3, ''b''), (7, ''c'')]].
      reply_part Stats_port_desc 13 q \<and> map_wf (msg_array q) \<and> queues_wf (msg_queues q)"
    by (simp add: port_part_def flow_part_def reply_part_def ofp_constants mergeable_reply_def clone_kind_def
        of13_stats_def map_wf_def queues_wf_def)
  from reassemble_keyed [OF _ this, of 5 9 "\<lparr>tv_sec = 0, tv_nsec = 0\<rparr>"] show ?thesis
    by (auto simp: port_part_def flow_part_def)
qed

text \<open>
  A part that does not belong to the segment is refused: another message type or another
  multipart type than the segment was opened with raises \<open>eSegmentedMessageInvalid\<close>.
\<close>

lemma foreign_part_refused:
  assumes "seg_msg s = Some m"
    and "msg_type p \<noteq> seg_msg_type s \<or>
      ((is_stats_request (msg_class p) \<or> is_stats_reply (msg_class p)) \<and> msg_stats_type p \<noteq> seg_msg_multipart_type s)"
  shows "store_and_merge_msg addr p s = Inl ESegmentedMessageInvalid"
  using assms by (auto simp: store_and_merge_msg_def)

lemma foreign_part_refused_example:
  "store_and_merge_msg 5 (port_part []) (csegment_new 9 \<lparr>tv_sec = 0, tv_nsec = 0\<rparr> 19 1\<lparr>seg_msg := Some (flow_part 1 [])\<rparr>) =
   Inl ESegmentedMessageInvalid"
  using foreign_part_refused [of "csegment_new 9 \<lparr>tv_sec = 0, tv_nsec = 0\<rparr> 19 1\<lparr>seg_msg := Some (flow_part 1 [])\<rparr>"
      "flow_part 1 []" "port_part []" 5]
  by (simp add: port_part_def csegment_new_def)

end
