(* ===== verification/Crofconn_Tx.thy ===== *)
theory Crofconn_Tx
  imports Crofsock_Tx Csegment
begin

text \<open>
  Segmentation of large multipart messages (\<open>segment_and_send_message\<close> and the \<open>segment_...\<close>
  methods of \<open>crofconn.cc\<close>): a message beyond the threshold is split into messages of about 64000
  bytes that share its transaction id; all but the last carry the MORE flag.

  \<open>elen\<close> is the wire length of an array entry and \<open>wlen\<close> that of a message (the virtual \<open>length()\<close>
  methods of the message classes); \<open>addr\<close> is the address of the first object created.
\<close>

section \<open>Splitting an array\<close>

definition MAX_LENGTH :: nat where "MAX_LENGTH = 64000"

text \<open>\<open>length()\<close> of the arrays: the sum over the entries.\<close>

definition array_length :: "('x \<Rightarrow> nat) \<Rightarrow> (u32 \<times> 'x) list \<Rightarrow> nat" where
  "array_length len a = sum_list (map (\<lambda>kx. len (snd kx)) a)"

text \<open>
  The inner loop: entries move from the front of the key list to the new array as long as it is
  below the limit.  The entries of the original are listed in the order of its keys.
\<close>

fun take_entries :: "('x \<Rightarrow> nat) \<Rightarrow> (u32 \<times> 'x) list \<Rightarrow> (u32 \<times> 'x) list \<Rightarrow> (u32 \<times> 'x) list \<times> (u32 \<times> 'x) list" where
  "take_entries len a [] = (a, [])"
| "take_entries len a ((k, x) # xs) =
     (if array_length len a < MAX_LENGTH then take_entries len (map_put k x a) xs else (a, (k, x) # xs))"

lemma take_entries_length: "length (snd (take_entries len a xs)) \<le> length xs"
  by (induction len a xs rule: take_entries.induct) auto

lemma take_entries_rest:
  "xs \<noteq> [] \<Longrightarrow> length (snd (take_entries len [] xs)) < length xs"
  using take_entries_length [of len "map_put (fst (hd xs)) (snd (hd xs)) []" "tl xs"]
  by (cases xs) (auto simp: array_length_def MAX_LENGTH_def)

text \<open>The outer loop.\<close>

function split_array :: "('x \<Rightarrow> nat) \<Rightarrow> (u32 \<times> 'x) list \<Rightarrow> (u32 \<times> 'x) list list" where
  "split_array len xs =
     (if xs = [] then []
      else (case take_entries len [] xs of (a, rest) \<Rightarrow> a # split_array len rest))"
  by pat_completeness auto

termination split_array
  by (relation "measure (\<lambda>(len, xs). length xs)") (auto dest: take_entries_rest [where len = len for len] simp: prod_eq_iff)

declare split_array.simps [simp del]

section \<open>Creating and sending the segments\<close>

text \<open>A new message of the class of \<open>msg\<close> with its version, transaction id and flags.\<close>

definition new_segment :: "nat \<Rightarrow> 'e cofmsg \<Rightarrow> 'e sarray \<Rightarrow> (u32 \<times> 'e sarray) list \<Rightarrow> 'e cofmsg" where
  "new_segment addr msg a qs =
     (cofmsg_new addr (msg_class msg) (msg_version msg) (msg_type msg) (msg_xid msg))
       \<lparr>msg_stats_type := msg_stats_type msg, msg_stats_flags := msg_stats_flags msg, msg_array := a, msg_queues := qs\<rparr>"

fun number_from :: "nat \<Rightarrow> 'a list \<Rightarrow> (nat \<times> 'a) list" where
  "number_from n [] = []"
| "number_from n (x # xs) = (n, x) # number_from (Suc n) xs"

definition array_segments :: "('e \<Rightarrow> nat) \<Rightarrow> nat \<Rightarrow> 'e cofmsg \<Rightarrow> 'e cofmsg list" where
  "array_segments elen addr msg =
     map (\<lambda>(n, a). new_segment n msg a []) (number_from addr (split_array elen (msg_array msg)))"

text \<open>Queue statistics are split between ports; a port without queues is in no segment.\<close>

definition queue_segments :: "('e \<Rightarrow> nat) \<Rightarrow> nat \<Rightarrow> 'e cofmsg \<Rightarrow> 'e cofmsg list" where
  "queue_segments elen addr msg =
     map (\<lambda>(n, qs). new_segment n msg [] (filter (\<lambda>pq. snd pq \<noteq> []) qs))
       (number_from addr (split_array (array_length elen) (msg_queues msg)))"

text \<open>The MORE flag on all segments except the last one.\<close>

fun set_more :: "'e cofmsg list \<Rightarrow> 'e cofmsg list" where
  "set_more [] = []"
| "set_more [m] = [m]"
| "set_more (m # n # ms) = m\<lparr>msg_stats_flags := msg_stats_flags m OR OFPMPF_REPLY_MORE\<rparr> # set_more (n # ms)"

text \<open>The sending loop; the result is that of the last segment.\<close>

fun send_segments :: "'e cofmsg list \<Rightarrow> msg_result_t \<Rightarrow> 'e crofsock \<Rightarrow> 'e crofsock \<times> msg_result_t" where
  "send_segments [] r s = (s, r)"
| "send_segments (m # ms) r s =
     (case crofsock_send_message m True s of (s', r') \<Rightarrow> send_segments ms r' s')"

text \<open>The common shape of the \<open>segment_...\<close> methods; a failed \<open>dynamic_cast\<close> is a null pointer.\<close>

definition segment_with ::
  "msg_class \<Rightarrow> ('e \<Rightarrow> nat) \<Rightarrow> nat \<Rightarrow> 'e cofmsg \<Rightarrow> 'e crofsock \<Rightarrow> ('e crofsock \<times> msg_result_t) result" where
  "segment_with cls elen addr msg s =
     (if msg_class msg \<noteq> cls then Inl ENullPointer
      else Inr (send_segments (set_more (array_segments elen addr msg)) MSG_QUEUED
                  (s\<lparr>sock_freed := sock_freed s @ [msg_ptr msg]\<rparr>)))"

definition segment_table_features_stats_request ::
  "('e \<Rightarrow> nat) \<Rightarrow> nat \<Rightarrow> 'e cofmsg \<Rightarrow> 'e crofsock \<Rightarrow> ('e crofsock \<times> msg_result_t) result" where
  "segment_table_features_stats_request = segment_with (Cofmsg_stats_request Stats_table_features)"

definition segment_table_features_stats_reply ::
  "('e \<Rightarrow> nat) \<Rightarrow> nat \<Rightarrow> 'e cofmsg \<Rightarrow> 'e crofsock \<Rightarrow> ('e crofsock \<times> msg_result_t) result" where
  "segment_table_features_stats_reply = segment_with (Cofmsg_stats_reply Stats_table_features)"

definition segment_flow_stats_reply ::
  "('e \<Rightarrow> nat) \<Rightarrow> nat \<Rightarrow> 'e cofmsg \<Rightarrow> 'e crofsock \<Rightarrow> ('e crofsock \<times> msg_result_t) result" where
  "segment_flow_stats_reply = segment_with (Cofmsg_stats_reply Stats_flow)"

definition segment_group_desc_stats_reply ::
  "('e \<Rightarrow> nat) \<Rightarrow> nat \<Rightarrow> 'e cofmsg \<Rightarrow> 'e crofsock \<Rightarrow> ('e crofsock \<times> msg_result_t) result" where
  "segment_group_desc_stats_reply = segment_with (Cofmsg_stats_reply Stats_group_desc)"

definition segment_group_stats_reply ::
  "('e \<Rightarrow> nat) \<Rightarrow> nat \<Rightarrow> 'e cofmsg \<Rightarrow> 'e crofsock \<Rightarrow> ('e crofsock \<times> msg_result_t) result" where
  "segment_group_stats_reply = segment_with (Cofmsg_stats_reply Stats_group)"

definition segment_table_stats_reply ::
  "('e \<Rightarrow> nat) \<Rightarrow> nat \<Rightarrow> 'e cofmsg \<Rightarrow> 'e crofsock \<Rightarrow> ('e crofsock \<times> msg_result_t) result" where
  "segment_table_stats_reply = segment_with (Cofmsg_stats_reply Stats_table)"

definition segment_port_stats_reply ::
  "('e \<Rightarrow> nat) \<Rightarrow> nat \<Rightarrow> 'e cofmsg \<Rightarrow> 'e crofsock \<Rightarrow> ('e crofsock \<times> msg_result_t) result" where
  "segment_port_stats_reply = segment_with (Cofmsg_stats_reply Stats_port)"

definition segment_port_desc_stats_reply ::
  "('e \<Rightarrow> nat) \<Rightarrow> nat \<Rightarrow> 'e cofmsg \<Rightarrow> 'e crofsock \<Rightarrow> ('e crofsock \<times> msg_result_t) result" where
  "segment_port_desc_stats_reply = segment_with (Cofmsg_stats_reply Stats_port_desc)"

definition segment_meter_stats_reply ::
  "('e \<Rightarrow> nat) \<Rightarrow> nat \<Rightarrow> 'e cofmsg \<Rightarrow> 'e crofsock \<Rightarrow> ('e crofsock \<times> msg_result_t) result" where
  "segment_meter_stats_reply = segment_with (Cofmsg_stats_reply Stats_meter)"

definition segment_meter_config_stats_reply ::
  "('e \<Rightarrow> nat) \<Rightarrow> nat \<Rightarrow> 'e cofmsg \<Rightarrow> 'e crofsock \<Rightarrow> ('e crofsock \<times> msg_result_t) result" where
  "segment_meter_config_stats_reply = segment_with (Cofmsg_stats_reply Stats_meter_config)"

definition segment_queue_stats_reply ::
  "('e \<Rightarrow> nat) \<Rightarrow> nat \<Rightarrow> 'e cofmsg \<Rightarrow> 'e crofsock \<Rightarrow> ('e crofsock \<times> msg_result_t) result" where
  "segment_queue_stats_reply elen addr msg s =
     (if msg_class msg \<noteq> Cofmsg_stats_reply Stats_queue then Inl ENullPointer
      else Inr (send_segments (set_more (queue_segments elen addr msg)) MSG_QUEUED
                  (s\<lparr>sock_freed := sock_freed s @ [msg_ptr msg]\<rparr>)))"

lemmas segment_defs = segment_table_features_stats_request_def segment_table_features_stats_reply_def
  segment_flow_stats_reply_def segment_group_desc_stats_reply_def segment_group_stats_reply_def
  segment_table_stats_reply_def segment_port_stats_reply_def segment_port_desc_stats_reply_def
  segment_meter_stats_reply_def segment_meter_config_stats_reply_def

section \<open>The dispatcher\<close>

definition segment_of12_reply ::
  "('e \<Rightarrow> nat) \<Rightarrow> nat \<Rightarrow> 'e cofmsg \<Rightarrow> 'e crofsock \<Rightarrow> ('e crofsock \<times> msg_result_t) result" where
  "segment_of12_reply elen addr msg s =
     (if \<not> is_stats_reply (msg_class msg) then Inl ENullPointer
      else if msg_stats_type msg = 1 then segment_flow_stats_reply elen addr msg s
      else if msg_stats_type msg = 3 then segment_table_stats_reply elen addr msg s
      else if msg_stats_type msg = 5 then segment_queue_stats_reply elen addr msg s
      else if msg_stats_type msg = 6 then segment_group_stats_reply elen addr msg s
      else if msg_stats_type msg = 7 then segment_group_desc_stats_reply elen addr msg s
      else Inr (s, MSG_IGNORED))"

definition segment_of13_request ::
  "('e \<Rightarrow> nat) \<Rightarrow> nat \<Rightarrow> 'e cofmsg \<Rightarrow> 'e crofsock \<Rightarrow> ('e crofsock \<times> msg_result_t) result" where
  "segment_of13_request elen addr msg s =
     (if \<not> is_stats_request (msg_class msg) then Inl ENullPointer
      else if msg_stats_type msg = 12 then segment_table_features_stats_request elen addr msg s
      else Inr (s, MSG_IGNORED))"

definition segment_of13_reply ::
  "('e \<Rightarrow> nat) \<Rightarrow> nat \<Rightarrow> 'e cofmsg \<Rightarrow> 'e crofsock \<Rightarrow> ('e crofsock \<times> msg_result_t) result" where
  "segment_of13_reply elen addr msg s =
     (if \<not> is_stats_reply (msg_class msg) then Inl ENullPointer
      else if msg_stats_type msg = 1 then segment_flow_stats_reply elen addr msg s
      else if msg_stats_type msg = 3 then segment_table_stats_reply elen addr msg s
      else if msg_stats_type msg = 4 then segment_port_stats_reply elen addr msg s
      else if msg_stats_type msg = 5 then segment_queue_stats_reply elen addr msg s
      else if msg_stats_type msg = 6 then segment_group_stats_reply elen addr msg s
      else if msg_stats_type msg = 7 then segment_group_desc_stats_reply elen addr msg s
      else if msg_stats_type msg = 12 then segment_table_features_stats_reply elen addr msg s
      else if msg_stats_type msg = 13 then segment_port_desc_stats_reply elen addr msg s
      else if msg_stats_type msg = 9 then segment_meter_stats_reply elen addr msg s
      else if msg_stats_type msg = 10 then segment_meter_config_stats_reply elen addr msg s
      else if msg_stats_type msg = 11 then Inr (crofsock_send_message msg False s)
      else Inr (s, MSG_IGNORED))"

definition segment_and_send_message ::
  "('e cofmsg \<Rightarrow> nat) \<Rightarrow> ('e \<Rightarrow> nat) \<Rightarrow> nat \<Rightarrow> nat \<Rightarrow> 'e cofmsg \<Rightarrow> 'e crofsock \<Rightarrow> ('e crofsock \<times> msg_result_t) result" where
  "segment_and_send_message wlen elen threshold addr msg s =
     (if wlen msg \<le> threshold then Inr (crofsock_send_message msg False s)
      else if msg_version msg = OFP12_VERSION \<and> msg_type msg = OFPT_MULTIPART_REPLY
        then segment_of12_reply elen addr msg s
      else if msg_version msg = OFP13_VERSION \<and> msg_type msg = OFPT_MULTIPART_REQUEST
        then segment_of13_request elen addr msg s
      else if msg_version msg = OFP13_VERSION \<and> msg_type msg = OFPT_MULTIPART_REPLY
        then segment_of13_reply elen addr msg s
      else Inr (s, MSG_IGNORED))"

section \<open>Lemmas: splitting\<close>

lemma array_length_simps [simp]:
  "array_length len [] = 0" "array_length len (kx # a) = len (snd kx) + array_length len a"
  "array_length len (a @ b) = array_length len a + array_length len b"
  by (simp_all add: array_length_def)

lemma map_wf_append: "map_wf (a @ b) \<longleftrightarrow> map_wf a \<and> map_wf b \<and> (\<forall>k \<in> fst ` set a. \<forall>k' \<in> fst ` set b. k < k')"
  by (auto simp: map_wf_def sorted_wrt_append)

lemma take_entries_split:
  assumes "map_wf (a @ xs)"
  shows "\<exists>ys zs. take_entries len a xs = (a @ ys, zs) \<and> xs = ys @ zs \<and>
    (zs \<noteq> [] \<longrightarrow> MAX_LENGTH \<le> array_length len (a @ ys)) \<and>
    (ys \<noteq> [] \<longrightarrow> array_length len (a @ butlast ys) < MAX_LENGTH)"
  using assms
proof (induction len a xs rule: take_entries.induct)
  case (2 len a k x xs)
  show ?case
  proof (cases "array_length len a < MAX_LENGTH")
    case True
    have put: "map_put k x a = a @ [(k, x)]"
      using 2(2) by (intro map_put_above) (auto simp: map_wf_append)
    then obtain ys zs where ys: "take_entries len (a @ [(k, x)]) xs = ((a @ [(k, x)]) @ ys, zs)" "xs = ys @ zs"
        "zs \<noteq> [] \<longrightarrow> MAX_LENGTH \<le> array_length len ((a @ [(k, x)]) @ ys)"
        "ys \<noteq> [] \<longrightarrow> array_length len ((a @ [(k, x)]) @ butlast ys) < MAX_LENGTH"
      using 2(1) [OF True] 2(2) by auto
    show ?thesis
      by (rule exI [of _ "(k, x) # ys"], rule exI [of _ zs]) (use True put ys in simp)
  next
    case False
    then show ?thesis
      by auto
  qed
qed simp

text \<open>
  The segments: nothing lost, no segment empty, each below the limit without its last entry, and
  every segment but the last has reached the limit.
\<close>

definition well_split :: "('x \<Rightarrow> nat) \<Rightarrow> (u32 \<times> 'x) list \<Rightarrow> (u32 \<times> 'x) list list \<Rightarrow> bool" where
  "well_split len xs ps \<longleftrightarrow> concat ps = xs \<and>
     (\<forall>p \<in> set ps. p \<noteq> [] \<and> array_length len (butlast p) < MAX_LENGTH) \<and>
     (\<forall>p \<in> set (butlast ps). MAX_LENGTH \<le> array_length len p)"

lemma split_array_well: "map_wf xs \<Longrightarrow> well_split len xs (split_array len xs)"
proof (induction len xs rule: split_array.induct)
  case (1 len xs)
  show ?case
  proof (cases "xs = []")
    case False
    obtain ys zs where ys: "take_entries len [] xs = (ys, zs)" "xs = ys @ zs"
        "zs \<noteq> [] \<longrightarrow> MAX_LENGTH \<le> array_length len ys" "ys \<noteq> [] \<longrightarrow> array_length len (butlast ys) < MAX_LENGTH"
      using take_entries_split [of "[]" xs len] 1(2) by auto
    have "ys \<noteq> []"
      using take_entries_rest [OF False, of len] ys(1,2) by auto
    have wf: "map_wf zs"
      using 1(2) ys(2) by (simp add: map_wf_append)
    have ih: "well_split len zs (split_array len zs)"
      using 1(1) [OF False ys(1) [symmetric] wf] .
    have "split_array len xs = ys # split_array len zs"
      using False ys(1) by (simp add: split_array.simps [of len xs])
    moreover have "split_array len zs = [] \<longleftrightarrow> zs = []"
      by (simp add: split_array.simps [of len zs] split: prod.split)
    ultimately show ?thesis
      using ih ys \<open>ys \<noteq> []\<close> by (auto simp: well_split_def)
  qed (simp add: well_split_def split_array.simps)
qed

lemma map_wf_concat_part: "map_wf (concat ps) \<Longrightarrow> p \<in> set ps \<Longrightarrow> map_wf p"
  by (induction ps) (auto simp: map_wf_append)

lemma set_more_length [simp]: "length (set_more ms) = length ms"
  by (induction ms rule: set_more.induct) auto

lemma set_more_map:
  assumes "\<And>m fl. f (m\<lparr>msg_stats_flags := fl\<rparr>) = f m"
  shows "map f (set_more ms) = map f ms"
  using assms by (induction ms rule: set_more.induct) auto

lemma number_from_snd [simp]: "map snd (number_from n xs) = xs"
  by (induction xs arbitrary: n) auto

lemma map_number_from: "map (\<lambda>nx. f (snd nx)) (number_from n xs) = map f xs"
  by (induction xs arbitrary: n) auto

lemma array_segments_arrays: "map msg_array (array_segments elen addr msg) = split_array elen (msg_array msg)"
  using map_number_from [of "\<lambda>a. a" addr "split_array elen (msg_array msg)"]
  by (simp add: array_segments_def new_segment_def cofmsg_new_def comp_def split_beta)

lemma queue_segments_queues:
  "map msg_queues (queue_segments elen addr msg) =
    map (filter (\<lambda>pq. snd pq \<noteq> [])) (split_array (array_length elen) (msg_queues msg))"
  using map_number_from [of "filter (\<lambda>pq. snd pq \<noteq> [])" addr "split_array (array_length elen) (msg_queues msg)"]
  by (simp add: queue_segments_def new_segment_def cofmsg_new_def comp_def split_beta)

section \<open>Lemmas: sending\<close>

text \<open>The socket accepts messages and has its four queues.\<close>

definition tx_open :: "'e crofsock \<Rightarrow> bool" where
  "tx_open s \<longleftrightarrow> \<not> tx_disabled s \<and> (sock_state s = STATE_TCP_ESTABLISHED \<or> sock_state s = STATE_TLS_ESTABLISHED) \<and>
     length (txqueues s) = 4"

lemma send_enforced:
  assumes "tx_open s" "tx_queue_of (msg_version m) (msg_type m) = q" "q < 4"
  shows "\<exists>s' r. crofsock_send_message m True s = (s', r) \<and> tx_open s' \<and> (r = MSG_QUEUED \<or> r = MSG_QUEUED_CONGESTION) \<and>
    queue (txqueues s' ! q) = queue (txqueues s ! q) @ [m] \<and>
    (\<forall>j. j \<noteq> q \<longrightarrow> txqueues s' ! j = txqueues s ! j) \<and> sock_freed s' = sock_freed s \<and>
    flag_test FLAG_TX_BLOCK_QUEUEING s' = flag_test FLAG_TX_BLOCK_QUEUEING s"
  using assms by (auto simp: crofsock_send_message_def crofqueue_store_def Let_def tx_open_def on_tx_def flag_test_def)

lemma send_segments_queued:
  assumes "tx_open s" "\<forall>m \<in> set ms. tx_queue_of (msg_version m) (msg_type m) = q" "q < 4" "r = MSG_QUEUED \<or> r = MSG_QUEUED_CONGESTION"
  shows "\<exists>s' r'. send_segments ms r s = (s', r') \<and> tx_open s' \<and> (r' = MSG_QUEUED \<or> r' = MSG_QUEUED_CONGESTION) \<and>
    queue (txqueues s' ! q) = queue (txqueues s ! q) @ ms \<and> (\<forall>j. j \<noteq> q \<longrightarrow> txqueues s' ! j = txqueues s ! j) \<and>
    sock_freed s' = sock_freed s"
  using assms
proof (induction ms arbitrary: s r)
  case (Cons m ms)
  obtain s1 r1 where s1: "crofsock_send_message m True s = (s1, r1)" "tx_open s1" "r1 = MSG_QUEUED \<or> r1 = MSG_QUEUED_CONGESTION"
      "queue (txqueues s1 ! q) = queue (txqueues s ! q) @ [m]" "\<forall>j. j \<noteq> q \<longrightarrow> txqueues s1 ! j = txqueues s ! j"
      "sock_freed s1 = sock_freed s"
    using send_enforced [of s m q] Cons.prems by auto
  show ?case
    using Cons.IH [OF s1(2) _ Cons.prems(3) s1(3)] Cons.prems(2) s1 by fastforce
qed auto

text \<open>Every multipart type that can be merged on reception is segmented on transmission (OpenFlow 1.3).\<close>

lemma mergeable_reply_codes:
  assumes "mergeable_reply st = Some k"
  shows "(st, k) \<in> {(1, Stats_flow), (3, Stats_table), (4, Stats_port), (5, Stats_queue), (6, Stats_group),
    (7, Stats_group_desc), (9, Stats_meter), (10, Stats_meter_config), (12, Stats_table_features), (13, Stats_port_desc)}"
proof -
  have c: "clone_kind st = k" "k \<notin> {Stats_desc, Stats_aggr, Stats_group_features, Stats_meter_features, Stats_base, Stats_experimenter}"
    using assms by (auto simp: mergeable_reply_def split: stats_kind.splits)
  then have "map_of of13_stats st = Some k"
    by (auto simp: clone_kind_def split: option.splits if_splits)
  then have "(st, k) \<in> set of13_stats"
    by (rule map_of_SomeD)
  then show ?thesis
    using c(2) by (auto simp: of13_stats_def)
qed

lemma segment_dispatch:
  assumes "reply_part k st msg" "msg_version msg = OFP13_VERSION" "\<not> wlen msg \<le> threshold"
  shows "segment_and_send_message wlen elen threshold addr msg s =
    Inr (send_segments (set_more (if k = Stats_queue then queue_segments elen addr msg else array_segments elen addr msg))
      MSG_QUEUED (s\<lparr>sock_freed := sock_freed s @ [msg_ptr msg]\<rparr>))"
proof -
  have r: "msg_class msg = Cofmsg_stats_reply k" "msg_stats_type msg = st" "msg_type msg = OFPT_MULTIPART_REPLY"
    using assms(1) by (simp_all add: reply_part_def)
  have "segment_and_send_message wlen elen threshold addr msg s = segment_of13_reply elen addr msg s"
    using assms(2,3) r(3) by (simp add: segment_and_send_message_def ofp_constants)
  then show ?thesis
    using mergeable_reply_codes [of st k] assms(1) r
    by (auto simp: reply_part_def segment_of13_reply_def segment_defs segment_with_def segment_queue_stats_reply_def)
qed

text \<open>What a segment has in common with the message it is a part of.\<close>

definition msg_header :: "'e cofmsg \<Rightarrow> u8 \<times> u8 \<times> msg_class \<times> u32 \<times> u16" where
  "msg_header m = (msg_version m, msg_type m, msg_class m, msg_xid m, msg_stats_type m)"

lemma msg_header_flags [simp]: "msg_header (m\<lparr>msg_stats_flags := fl\<rparr>) = msg_header m"
  by (simp add: msg_header_def)

lemma msg_header_new_segment [simp]: "msg_header (new_segment n msg a qs) = msg_header msg"
  by (simp add: msg_header_def new_segment_def cofmsg_new_def)

lemma set_more_headers: "msg_header ` set (set_more ms) = msg_header ` set ms"
  using set_more_map [of msg_header ms] by (metis list.set_map msg_header_flags)

lemma segment_headers:
  assumes "m \<in> set (set_more (array_segments elen addr msg)) \<or> m \<in> set (set_more (queue_segments elen addr msg))"
  shows "msg_header m = msg_header msg"
proof -
  have "msg_header x = msg_header msg" if "x \<in> set (array_segments elen addr msg) \<or> x \<in> set (queue_segments elen addr msg)" for x
    using that by (auto simp: array_segments_def queue_segments_def)
  moreover have "msg_header m \<in> msg_header ` (set (array_segments elen addr msg) \<union> set (queue_segments elen addr msg))"
    using assms set_more_headers [of "array_segments elen addr msg"] set_more_headers [of "queue_segments elen addr msg"]
    by (metis UnCI imageI image_Un)
  ultimately show ?thesis
    by auto
qed

section \<open>Properties\<close>

text \<open>
  C30: how a large array is cut.  The segments hold the entries of the original in order, none
  is empty, none but the last could have taken another entry, and if no entry is longer than 1519
  bytes every segment with its 16 byte header fits the 16-bit length field.
\<close>

theorem segmentation_partition:
  assumes "map_wf (msg_array msg)" and "\<forall>e \<in> snd ` set (msg_array msg). elen e \<le> 1519"
    and "ps = map msg_array (array_segments elen addr msg)"
  shows "concat ps = msg_array msg \<and> (\<forall>p \<in> set ps. p \<noteq> [] \<and> 16 + array_length elen p \<le> 65535) \<and>
    (\<forall>p \<in> set (butlast ps). 64000 \<le> array_length elen p)"
proof -
  have ps: "ps = split_array elen (msg_array msg)"
    unfolding assms(3) by (rule array_segments_arrays)
  have w: "well_split elen (msg_array msg) ps"
    unfolding ps by (rule split_array_well [OF assms(1)])
  have "16 + array_length elen p \<le> 65535" if "p \<in> set ps" for p
  proof -
    have p: "p \<noteq> []" "array_length elen (butlast p) < MAX_LENGTH" "concat ps = msg_array msg"
      using that w by (auto simp: well_split_def)
    have "last p \<in> set (msg_array msg)"
      unfolding p(3) [symmetric] using that last_in_set [OF p(1)] by auto
    moreover from p(1) have "array_length elen p = array_length elen (butlast p) + elen (snd (last p))"
      by (metis append_butlast_last_id array_length_simps add_0_right)
    ultimately show ?thesis
      using p(2) assms(2) by (force simp: MAX_LENGTH_def)
  qed
  with w show ?thesis
    by (auto simp: well_split_def MAX_LENGTH_def)
qed

definition part_example :: "string cofmsg" where
  "part_example = flow_part 0 [(0, ''a''), (1, ''b''), (2, ''c'')]"

theorem segmentation_partition_witness:
  "map_wf (msg_array part_example) \<and>
   concat (map msg_array (array_segments (\<lambda>e. 1500) 7 part_example)) = msg_array part_example"
proof -
  have w: "map_wf (msg_array part_example)"
    by (simp add: part_example_def flow_part_def map_wf_def)
  from segmentation_partition [OF w _ refl, of "\<lambda>e. 1500" 7] w show ?thesis
    by simp
qed

text \<open>
  Sending a large multipart reply (OpenFlow 1.3): for every multipart type the receiving side
  can merge, on an open connection all segments are appended to one transmit queue in order,
  beyond its capacity if need be, the original is deleted, and the result says queued.
\<close>

lemma segments_queued_in_order:
  assumes "reply_part k st msg" and "msg_version msg = OFP13_VERSION" and "threshold < wlen msg" and "tx_open s"
  shows "\<exists>s' r. segment_and_send_message wlen elen threshold addr msg s = Inr (s', r) \<and>
    (r = MSG_QUEUED \<or> r = MSG_QUEUED_CONGESTION) \<and>
    queue (txqueues s' ! QUEUE_MGMT) = queue (txqueues s ! QUEUE_MGMT) @
      set_more (if k = Stats_queue then queue_segments elen addr msg else array_segments elen addr msg) \<and>
    sock_freed s' = sock_freed s @ [msg_ptr msg]"
proof -
  let ?ms = "set_more (if k = Stats_queue then queue_segments elen addr msg else array_segments elen addr msg)"
  let ?s = "s\<lparr>sock_freed := sock_freed s @ [msg_ptr msg]\<rparr>"
  have "msg_header m = msg_header msg" if "m \<in> set ?ms" for m
    by (rule segment_headers [of m elen addr]) (use that in \<open>auto split: if_splits\<close>)
  then have "\<forall>m \<in> set ?ms. tx_queue_of (msg_version m) (msg_type m) = QUEUE_MGMT"
    using assms(1,2) by (auto simp: msg_header_def reply_part_def tx_queue_of_def ofp_constants)
  moreover have "tx_open ?s"
    using assms(4) by (simp add: tx_open_def)
  ultimately obtain s' r where "send_segments ?ms MSG_QUEUED ?s = (s', r)" "r = MSG_QUEUED \<or> r = MSG_QUEUED_CONGESTION"
      "queue (txqueues s' ! QUEUE_MGMT) = queue (txqueues ?s ! QUEUE_MGMT) @ ?ms" "sock_freed s' = sock_freed ?s"
    using send_segments_queued [of ?s ?ms QUEUE_MGMT MSG_QUEUED] by auto
  then show ?thesis
    using segment_dispatch [OF assms(1,2), of wlen threshold elen addr s] assms(3) by simp
qed

lemma segments_queued_in_order_example:
  "\<exists>s' r. segment_and_send_message (\<lambda>_. 70000) (\<lambda>_. 40000) 65535 7 part_example
      ((crofsock_new 9 idle_thread idle_thread)\<lparr>sock_state := STATE_TCP_ESTABLISHED\<rparr>) = Inr (s', r) \<and>
    map msg_array (queue (txqueues s' ! QUEUE_MGMT)) = [[(0, ''a''), (1, ''b'')], [(2, ''c'')]] \<and>
    map msg_stats_flags (queue (txqueues s' ! QUEUE_MGMT)) = [1, 0]"
proof -
  let ?s = "(crofsock_new 9 idle_thread idle_thread)\<lparr>sock_state := STATE_TCP_ESTABLISHED\<rparr> :: string crofsock"
  have h: "reply_part Stats_flow 1 part_example" "msg_version part_example = OFP13_VERSION" "tx_open ?s"
      "queue (txqueues ?s ! QUEUE_MGMT) = []"
    using flow_part_reply by (simp_all add: part_example_def flow_part_def ofp_constants tx_open_def crofsock_new_def crofqueue_new_def)
  have "array_segments (\<lambda>_. 40000) 7 part_example =
      [new_segment 7 part_example [(0, ''a''), (1, ''b'')] [], new_segment 8 part_example [(2, ''c'')] []]"
    by (simp add: array_segments_def part_example_def flow_part_def split_array.simps array_length_def MAX_LENGTH_def)
  then show ?thesis
    using segments_queued_in_order [OF h(1,2) _ h(3), of 65535 "\<lambda>_. 70000" "\<lambda>_. 40000" 7] h(4)
    by (auto simp: new_segment_def cofmsg_new_def part_example_def flow_part_def ofp_constants)
qed

text \<open>
  A message beyond the threshold for which there is no segmentation is dropped without a
  trace: it is neither queued nor deleted, and the result is \<open>MSG_IGNORED\<close>.  This concerns every
  OpenFlow 1.0 message, and port statistics of OpenFlow 1.2.
\<close>

lemma oversized_ignored:
  assumes "threshold < wlen msg"
    and "msg_version msg \<noteq> OFP12_VERSION \<and> msg_version msg \<noteq> OFP13_VERSION \<or>
      msg_version msg = OFP12_VERSION \<and> msg_type msg = OFPT_MULTIPART_REPLY \<and>
        msg_class msg = Cofmsg_stats_reply Stats_port \<and> msg_stats_type msg = 4"
  shows "segment_and_send_message wlen elen threshold addr msg s = Inr (s, MSG_IGNORED)"
  using assms by (auto simp: segment_and_send_message_def segment_of12_reply_def ofp_constants)

lemma oversized_ignored_example:
  "segment_and_send_message (\<lambda>_. 70000) (\<lambda>_. 100) 65535 7 (part_example\<lparr>msg_version := 1\<rparr>)
     (crofsock_new 9 idle_thread idle_thread) = Inr (crofsock_new 9 idle_thread idle_thread, MSG_IGNORED)"
  by (rule oversized_ignored) (simp_all add: ofp_constants)

end
