(* ===== verification/Crofconn.thy ===== *)
theory Crofconn
  imports Crofconn_Tx
begin

text \<open>
  \<open>rofl::crofconn\<close> (\<open>crofconn.h\<close>, \<open>crofconn.cc\<close>): one OpenFlow connection on a socket: the state
  machine of its life, version negotiation by HELLO, the FEATURES request of the controller side,
  life checks by ECHO, the receive queues, pending requests with their timeouts.  Reassembly of
  multipart messages and the dispatcher of received messages are in \<open>Crofconn_Rx\<close>.

  Calls into the owner (\<open>crofconn_env\<close>) are returned as events, in order.  What an operation reads
  from its surroundings is a record: the clock, the calling thread, the address of an object it
  creates; \<open>pk\<close> packs a message.  The random numbers of the constructor are arguments.  The worker
  thread of the connection is part of its record, as in \<open>Crofsock\<close>; no exception of the threads or
  of \<open>new\<close> is modelled, so the handlers around them that would fail a negotiation are not reached.
\<close>

section \<open>Types\<close>

datatype crofconn_state_t =
    STATE_NEGOTIATION_FAILED | STATE_CLOSING | STATE_DISCONNECTED | STATE_CONNECT_PENDING
  | STATE_CONNECT_REFUSED | STATE_CONNECT_FAILED | STATE_ACCEPT_PENDING | STATE_ACCEPT_REFUSED
  | STATE_ACCEPT_FAILED | STATE_NEGOTIATING | STATE_NEGOTIATING2 | STATE_ESTABLISHED

datatype crofconn_mode_t = CONN_MODE_UNKNOWN | MODE_CONTROLLER | MODE_DATAPATH

definition TIMER_ID_WAIT_FOR_HELLO :: u32 where "TIMER_ID_WAIT_FOR_HELLO = 0"
definition TIMER_ID_WAIT_FOR_FEATURES :: u32 where "TIMER_ID_WAIT_FOR_FEATURES = 1"
definition TIMER_ID_WAIT_FOR_ECHO :: u32 where "TIMER_ID_WAIT_FOR_ECHO = 2"
definition TIMER_ID_NEED_LIFE_CHECK :: u32 where "TIMER_ID_NEED_LIFE_CHECK = 3"
definition TIMER_ID_PENDING_REQUESTS :: u32 where "TIMER_ID_PENDING_REQUESTS = 5"
definition TIMER_ID_PENDING_SEGMENTS :: u32 where "TIMER_ID_PENDING_SEGMENTS = 6"

lemmas conn_timer_ids = TIMER_ID_WAIT_FOR_HELLO_def TIMER_ID_WAIT_FOR_FEATURES_def TIMER_ID_WAIT_FOR_ECHO_def
  TIMER_ID_NEED_LIFE_CHECK_def TIMER_ID_PENDING_REQUESTS_def TIMER_ID_PENDING_SEGMENTS_def

text \<open>A pending request.\<close>

record ctransaction =
  ta_xid :: u32
  ta_tspec :: timespec
  ta_type :: u8
  ta_subtype :: u16

text \<open>\<open>ctransaction::operator<\<close> looks at the deadline only.\<close>

definition ctransaction_less :: "ctransaction \<Rightarrow> ctransaction \<Rightarrow> bool" where
  "ctransaction_less a b = ts_less (ta_tspec a) (ta_tspec b)"

record 'e crofconn =
  conn_this :: nat
  conn_deleting :: bool
  conn_thread :: cthread
  conn_sock :: "'e crofsock"
  conn_dpid :: u64
  conn_auxid :: u8
  conn_versionbitmap :: versionbitmap
  conn_versionbitmap_peer :: versionbitmap
  conn_ofp_version :: u8
  conn_mode :: crofconn_mode_t
  conn_state :: crofconn_state_t
  flag_hello_sent :: bool
  flag_hello_rcvd :: bool
  rxweights :: "nat list"
  rxqueues :: "'e cofmsg crofqueue list"
  rx_thread_working :: bool
  rx_thread_scheduled :: bool
  segmentation_threshold :: nat
  timeout_hello :: int
  timeout_features :: int
  timeout_echo :: int
  timeout_lifecheck :: int
  xid_hello_last :: u32
  xid_features_request_last :: u32
  xid_echo_request_last :: u32
  pending_requests :: "ctransaction list"
  pending_segments :: "(u32 \<times> 'e csegment) list"
  timeout_segments :: int
  pending_segments_max :: nat
  conn_freed :: "nat list"

datatype 'e conn_event =
    CE_negotiation_failed | CE_established u8 | CE_closed | CE_connect_refused | CE_connect_failed
  | CE_accept_failed | CE_recv "'e cofmsg" | CE_congestion_occurred | CE_congestion_solved
  | CE_transaction_timeout u32 u8 u16

record conn_rt =
  rt_now :: timespec
  rt_self :: nat
  rt_addr :: nat

type_synonym 'e conn_res = "'e crofconn \<times> 'e conn_event list"

text \<open>The constructor; \<open>x1\<close>, \<open>x2\<close>, \<open>x3\<close> are the random numbers it draws.\<close>

definition crofconn_new :: "nat \<Rightarrow> cthread \<Rightarrow> 'e crofsock \<Rightarrow> u32 \<Rightarrow> u32 \<Rightarrow> u32 \<Rightarrow> 'e crofconn" where
  "crofconn_new this th sock x1 x2 x3 =
     \<lparr>conn_this = this, conn_deleting = False, conn_thread = th, conn_sock = sock, conn_dpid = 0, conn_auxid = 0,
      conn_versionbitmap = vb_new, conn_versionbitmap_peer = vb_new, conn_ofp_version = OFP_VERSION_UNKNOWN,
      conn_mode = CONN_MODE_UNKNOWN, conn_state = STATE_DISCONNECTED, flag_hello_sent = False, flag_hello_rcvd = False,
      rxweights = [16, 32, 16, 8], rxqueues = replicate 4 (set_queue_max_size 128 crofqueue_new),
      rx_thread_working = False, rx_thread_scheduled = False, segmentation_threshold = 65535,
      timeout_hello = 3, timeout_features = 5, timeout_echo = 3, timeout_lifecheck = 1,
      xid_hello_last = x1, xid_features_request_last = x2, xid_echo_request_last = x3,
      pending_requests = [], pending_segments = [], timeout_segments = 60, pending_segments_max = 256, conn_freed = []\<rparr>"

section \<open>Helpers\<close>

definition conn_add_timer :: "conn_rt \<Rightarrow> u32 \<Rightarrow> timespec \<Rightarrow> 'e crofconn \<Rightarrow> 'e crofconn" where
  "conn_add_timer rt tid ts c =
     c\<lparr>conn_thread := fst (cthread_add_timer (rt_self rt) (conn_this c) tid ts (conn_thread c))\<rparr>"

text \<open>\<open>add_timer(this, tid, ctimespec().expire_in(secs))\<close>\<close>

definition conn_start_timer :: "conn_rt \<Rightarrow> u32 \<Rightarrow> int \<Rightarrow> 'e crofconn \<Rightarrow> 'e crofconn" where
  "conn_start_timer rt tid secs c = conn_add_timer rt tid (ts_expire_in (rt_now rt) secs 0) c"

definition conn_drop_timer :: "conn_rt \<Rightarrow> u32 \<Rightarrow> 'e crofconn \<Rightarrow> 'e crofconn" where
  "conn_drop_timer rt tid c =
     c\<lparr>conn_thread := fst (cthread_drop_timer (rt_self rt) (conn_this c) tid (conn_thread c))\<rparr>"

definition conn_drop_timers :: "conn_rt \<Rightarrow> 'e crofconn \<Rightarrow> 'e crofconn" where
  "conn_drop_timers rt c = c\<lparr>conn_thread := cthread_drop_timers (rt_self rt) (conn_this c) (conn_thread c)\<rparr>"

definition conn_wakeup :: "'e crofconn \<Rightarrow> 'e crofconn" where
  "conn_wakeup c = c\<lparr>conn_thread := cthread_wakeup (Some (conn_this c)) (conn_thread c)\<rparr>"

text \<open>\<open>rofsock.send_message(msg)\<close>\<close>

definition sock_send :: "'e cofmsg \<Rightarrow> 'e crofconn \<Rightarrow> 'e crofconn" where
  "sock_send msg c = c\<lparr>conn_sock := fst (crofsock_send_message msg False (conn_sock c))\<rparr>"

text \<open>\<open>delete msg\<close>\<close>

definition free_msg :: "'e cofmsg \<Rightarrow> 'e crofconn \<Rightarrow> 'e crofconn" where
  "free_msg msg c = c\<lparr>conn_freed := conn_freed c @ [msg_ptr msg]\<rparr>"

section \<open>Pending requests\<close>

definition clear_pending_requests :: "conn_rt \<Rightarrow> 'e crofconn \<Rightarrow> 'e crofconn" where
  "clear_pending_requests rt c = conn_drop_timer rt TIMER_ID_PENDING_REQUESTS (c\<lparr>pending_requests := []\<rparr>)"

definition add_pending_request :: "conn_rt \<Rightarrow> u32 \<Rightarrow> timespec \<Rightarrow> u8 \<Rightarrow> u16 \<Rightarrow> 'e crofconn \<Rightarrow> 'e crofconn" where
  "add_pending_request rt xid ts type sub c =
     (let ta = \<lparr>ta_xid = xid, ta_tspec = ts, ta_type = type, ta_subtype = sub\<rparr>;
          c1 = c\<lparr>pending_requests := fst (set_emplace ctransaction_less ta (pending_requests c))\<rparr>
      in case pending_requests c of
           [] \<Rightarrow> conn_add_timer rt TIMER_ID_PENDING_REQUESTS (ta_tspec (hd (pending_requests c1))) c1
         | first # _ \<Rightarrow>
             if ta_xid first \<noteq> ta_xid (hd (pending_requests c1))
             then conn_add_timer rt TIMER_ID_PENDING_REQUESTS (ta_tspec (hd (pending_requests c1))) c1
             else c1)"

definition drop_pending_request :: "u32 \<Rightarrow> 'e crofconn \<Rightarrow> 'e crofconn" where
  "drop_pending_request xid c = c\<lparr>pending_requests := erase_while (\<lambda>ta. ta_xid ta = xid) (pending_requests c)\<rparr>"

definition has_pending_request :: "u32 \<Rightarrow> 'e crofconn \<Rightarrow> bool" where
  "has_pending_request xid c = list_ex (\<lambda>ta. ta_xid ta = xid) (pending_requests c)"

definition has_pending_barrier_request :: "'e crofconn \<Rightarrow> bool" where
  "has_pending_barrier_request c =
     (let type = (if conn_ofp_version c = OFP12_VERSION \<or> conn_ofp_version c = OFP13_VERSION \<or> conn_ofp_version c = 5
                  then 20 else 18)
      in list_ex (\<lambda>ta. ta_type ta = type) (pending_requests c))"

text \<open>The loop of \<open>check_pending_requests\<close> on the set, which shrinks in every turn.\<close>

fun expired_requests :: "timespec \<Rightarrow> ctransaction list \<Rightarrow> ctransaction list \<times> ctransaction list" where
  "expired_requests now [] = ([], [])"
| "expired_requests now (ta # tas) =
     (if \<not> ts_is_expired (ta_tspec ta) now then ([], ta # tas)
      else (case expired_requests now tas of (gone, rest) \<Rightarrow> (ta # gone, rest)))"

definition check_pending_requests :: "conn_rt \<Rightarrow> 'e crofconn \<Rightarrow> 'e conn_res" where
  "check_pending_requests rt c =
     (case expired_requests (rt_now rt) (pending_requests c) of (gone, rest) \<Rightarrow>
        (let c1 = c\<lparr>pending_requests := rest\<rparr>;
             c2 = (case rest of [] \<Rightarrow> c1 | ta # _ \<Rightarrow> conn_add_timer rt TIMER_ID_PENDING_REQUESTS (ta_tspec ta) c1)
         in (c2, map (\<lambda>ta. CE_transaction_timeout (ta_xid ta) (ta_type ta) (ta_subtype ta)) gone)))"

section \<open>Pending segments\<close>

definition clear_pending_segments :: "conn_rt \<Rightarrow> 'e crofconn \<Rightarrow> 'e crofconn" where
  "clear_pending_segments rt c = conn_drop_timer rt TIMER_ID_PENDING_SEGMENTS (c\<lparr>pending_segments := []\<rparr>)"

text \<open>The timer part the three methods below share.\<close>

definition segment_timer :: "conn_rt \<Rightarrow> 'e crofconn \<Rightarrow> 'e crofconn" where
  "segment_timer rt c =
     (if \<not> cthread_has_timer (conn_this c) TIMER_ID_PENDING_SEGMENTS (conn_thread c)
      then conn_start_timer rt TIMER_ID_PENDING_SEGMENTS (timeout_segments c) c else c)"

definition new_pending_segment :: "conn_rt \<Rightarrow> u32 \<Rightarrow> u8 \<Rightarrow> u16 \<Rightarrow> 'e crofconn \<Rightarrow> 'e crofconn" where
  "new_pending_segment rt xid type mptype c =
     c\<lparr>pending_segments := map_put xid (csegment_new xid (ts_expire_in (rt_now rt) (timeout_segments c) 0) type mptype)
         (pending_segments c)\<rparr>"

definition add_pending_segment :: "conn_rt \<Rightarrow> u32 \<Rightarrow> u8 \<Rightarrow> u16 \<Rightarrow> 'e crofconn \<Rightarrow> 'e crofconn result" where
  "add_pending_segment rt xid type mptype c =
     (if \<not> length (pending_segments c) < pending_segments_max c then Inl ERofConnInvalid
      else Inr (segment_timer rt (new_pending_segment rt xid type mptype c)))"

definition set_pending_segment :: "conn_rt \<Rightarrow> u32 \<Rightarrow> u8 \<Rightarrow> u16 \<Rightarrow> 'e crofconn \<Rightarrow> 'e crofconn result" where
  "set_pending_segment rt xid type mptype c =
     (if \<not> length (pending_segments c) < pending_segments_max c then Inl ERofConnInvalid
      else Inr (segment_timer rt
        (if map_of (pending_segments c) xid = None then new_pending_segment rt xid type mptype c else c)))"

text \<open>\<open>set_pending_segment(xid)\<close>: the segment must exist.\<close>

definition set_pending_segment_xid :: "conn_rt \<Rightarrow> u32 \<Rightarrow> 'e crofconn \<Rightarrow> 'e crofconn result" where
  "set_pending_segment_xid rt xid c =
     (if \<not> length (pending_segments c) < pending_segments_max c then Inl ERofConnInvalid
      else if map_of (pending_segments c) xid = None then Inl ERofConnNotFound
      else Inr (segment_timer rt c))"

definition get_pending_segment :: "u32 \<Rightarrow> 'e crofconn \<Rightarrow> 'e csegment result" where
  "get_pending_segment xid c =
     (case map_of (pending_segments c) xid of None \<Rightarrow> Inl ERofConnNotFound | Some s \<Rightarrow> Inr s)"

definition drop_pending_segment :: "u32 \<Rightarrow> 'e crofconn \<Rightarrow> 'e crofconn \<times> bool" where
  "drop_pending_segment xid c =
     (if map_of (pending_segments c) xid = None then (c, False)
      else (c\<lparr>pending_segments := map_erase xid (pending_segments c)\<rparr>, True))"

definition has_pending_segment :: "u32 \<Rightarrow> 'e crofconn \<Rightarrow> bool" where
  "has_pending_segment xid c \<longleftrightarrow> map_of (pending_segments c) xid \<noteq> None"

definition check_pending_segments :: "conn_rt \<Rightarrow> 'e crofconn \<Rightarrow> 'e crofconn" where
  "check_pending_segments rt c =
     (let c1 = c\<lparr>pending_segments := erase_while (\<lambda>xs. csegment_is_expired (rt_now rt) (snd xs)) (pending_segments c)\<rparr>
      in if pending_segments c1 \<noteq> []
         then conn_start_timer rt TIMER_ID_PENDING_SEGMENTS (timeout_segments c1) c1 else c1)"

section \<open>The state machine\<close>

text \<open>\<open>send_hello_message\<close>\<close>

definition send_hello_message :: "conn_rt \<Rightarrow> 'e crofconn \<Rightarrow> 'e crofconn" where
  "send_hello_message rt c =
     (if flag_hello_sent c then c
      else (let c1 = c\<lparr>flag_hello_sent := True, xid_hello_last := xid_hello_last c + 1\<rparr>;
                ies = set_hello_elem_versionbitmap (\<lambda>_. conn_versionbitmap c1)
                        (add_hello_elem_versionbitmap \<lparr>hello_elems = []\<rparr>);
                msg = (cofmsg_new (rt_addr rt) Cofmsg_hello (vb_get_highest_ofp_version (conn_versionbitmap c1))
                         OFPT_HELLO (xid_hello_last c1))\<lparr>msg_hello := ies\<rparr>
            in sock_send msg c1))"

text \<open>\<open>send_features_request\<close>\<close>

definition send_features_request :: "conn_rt \<Rightarrow> 'e crofconn \<Rightarrow> 'e crofconn" where
  "send_features_request rt c =
     (let c1 = conn_start_timer rt TIMER_ID_WAIT_FOR_FEATURES (timeout_features c) c;
          c2 = c1\<lparr>xid_features_request_last := xid_features_request_last c1 + 1\<rparr>
      in sock_send (cofmsg_new (rt_addr rt) Cofmsg_features_request (conn_ofp_version c2) 5
                      (xid_features_request_last c2)) c2)"

text \<open>The loop \<open>for (auto rxqueue : rxqueues) rxqueue.clear()\<close> works on copies of the queues.\<close>

definition clear_rxqueue_copies :: "'e crofconn \<Rightarrow> 'e crofconn" where
  "clear_rxqueue_copies c =
     c\<lparr>conn_freed := conn_freed c @ concat (map (\<lambda>q. map msg_ptr (snd (crofqueue_clear q))) (rxqueues c))\<rparr>"

definition fsm_disconnected :: "conn_rt \<Rightarrow> 'e crofconn \<Rightarrow> 'e crofconn" where
  "fsm_disconnected rt c =
     (let c1 = clear_pending_segments rt (clear_pending_requests rt (conn_drop_timers rt c))
      in c1\<lparr>conn_versionbitmap_peer := vb_clear (conn_versionbitmap_peer c1),
            conn_ofp_version := OFP_VERSION_UNKNOWN, flag_hello_sent := False, flag_hello_rcvd := False\<rparr>)"

definition fsm_closing :: "conn_rt \<Rightarrow> 'e crofconn \<Rightarrow> 'e crofconn" where
  "fsm_closing rt c =
     fsm_disconnected rt (c\<lparr>conn_sock := crofsock_close (rt_self rt) (conn_sock c), conn_state := STATE_DISCONNECTED\<rparr>)"

definition fsm_pending :: "'e crofconn \<Rightarrow> 'e crofconn" where
  "fsm_pending c =
     clear_rxqueue_copies (c\<lparr>conn_versionbitmap_peer := vb_clear (conn_versionbitmap_peer c),
                             conn_ofp_version := OFP_VERSION_UNKNOWN\<rparr>)"

text \<open>The \<open>switch\<close>, entered with the new state set: the connection and the calls to make.\<close>

fun fsm_body :: "conn_rt \<Rightarrow> crofconn_state_t \<Rightarrow> 'e crofconn \<Rightarrow> 'e crofconn \<times> crofconn_state_t list" where
  "fsm_body rt STATE_NEGOTIATION_FAILED c =
     (fsm_closing rt (c\<lparr>conn_state := STATE_CLOSING\<rparr>), [STATE_NEGOTIATION_FAILED, STATE_DISCONNECTED])"
| "fsm_body rt STATE_CLOSING c = (fsm_closing rt c, [STATE_DISCONNECTED])"
| "fsm_body rt STATE_DISCONNECTED c = (fsm_disconnected rt c, [STATE_DISCONNECTED])"
| "fsm_body rt STATE_CONNECT_PENDING c = (fsm_pending c, [])"
| "fsm_body rt STATE_CONNECT_FAILED c = (c\<lparr>conn_state := STATE_DISCONNECTED\<rparr>, [STATE_CONNECT_FAILED])"
| "fsm_body rt STATE_CONNECT_REFUSED c = (c\<lparr>conn_state := STATE_DISCONNECTED\<rparr>, [STATE_CONNECT_REFUSED])"
| "fsm_body rt STATE_ACCEPT_PENDING c = (fsm_pending c, [])"
| "fsm_body rt STATE_ACCEPT_FAILED c = (c\<lparr>conn_state := STATE_DISCONNECTED\<rparr>, [STATE_ACCEPT_FAILED])"
| "fsm_body rt STATE_ACCEPT_REFUSED c = (c\<lparr>conn_state := STATE_DISCONNECTED\<rparr>, [STATE_ACCEPT_REFUSED])"
| "fsm_body rt STATE_NEGOTIATING c =
     (let c1 = (if \<not> flag_hello_rcvd c then conn_start_timer rt TIMER_ID_WAIT_FOR_HELLO (timeout_hello c) c else c);
          c2 = (if \<not> flag_hello_sent c1 then send_hello_message rt c1 else c1)
      in (c2, []))"
| "fsm_body rt STATE_NEGOTIATING2 c =
     (send_features_request rt (conn_drop_timer rt TIMER_ID_WAIT_FOR_HELLO c), [])"
| "fsm_body rt STATE_ESTABLISHED c =
     (conn_start_timer rt TIMER_ID_NEED_LIFE_CHECK (timeout_lifecheck c) (conn_drop_timer rt TIMER_ID_WAIT_FOR_HELLO c),
      [STATE_ESTABLISHED])"

text \<open>The callbacks; a refused accept is reported as a failed one, as the code says.\<close>

fun fsm_call :: "u8 \<Rightarrow> crofconn_state_t \<Rightarrow> 'e conn_event list" where
  "fsm_call v STATE_NEGOTIATION_FAILED = [CE_negotiation_failed]"
| "fsm_call v STATE_ESTABLISHED = [CE_established v]"
| "fsm_call v STATE_DISCONNECTED = [CE_closed]"
| "fsm_call v STATE_CONNECT_REFUSED = [CE_connect_refused]"
| "fsm_call v STATE_CONNECT_FAILED = [CE_connect_failed]"
| "fsm_call v STATE_ACCEPT_REFUSED = [CE_accept_failed]"
| "fsm_call v STATE_ACCEPT_FAILED = [CE_accept_failed]"
| "fsm_call v _ = []"

definition run_finite_state_machine :: "conn_rt \<Rightarrow> crofconn_state_t \<Rightarrow> 'e crofconn \<Rightarrow> 'e conn_res" where
  "run_finite_state_machine rt new c =
     (if conn_deleting c \<or> conn_state c = new then (c, [])
      else (case fsm_body rt new (c\<lparr>conn_state := new\<rparr>) of
              (c1, calls) \<Rightarrow> (c1, concat (map (fsm_call (conn_ofp_version c1)) calls))))"

section \<open>Opening and closing\<close>

definition crofconn_destroy :: "conn_rt \<Rightarrow> 'e crofconn \<Rightarrow> 'e crofconn" where
  "crofconn_destroy rt c =
     (let c1 = c\<lparr>conn_deleting := True\<rparr>
      in c1\<lparr>conn_thread := cthread_drop (rt_self rt) (conn_this c1) (conn_thread c1)\<rparr>)"

definition crofconn_close :: "conn_rt \<Rightarrow> 'e crofconn \<Rightarrow> 'e conn_res" where
  "crofconn_close rt c = run_finite_state_machine rt STATE_CLOSING c"

definition set_versionbitmap :: "versionbitmap \<Rightarrow> 'e crofconn \<Rightarrow> 'e crofconn result" where
  "set_versionbitmap vb c =
     (if vb_get_highest_ofp_version vb = OFP_VERSION_UNKNOWN then Inl ERofConnInvalid
      else Inr (c\<lparr>conn_versionbitmap := vb\<rparr>))"

text \<open>
  \<open>tcp_accept\<close>, \<open>tcp_connect\<close>, \<open>tls_accept\<close>, \<open>tls_connect\<close> up to the call of the socket, which is
  the parameter \<open>sock_open\<close>; the socket's events come back through the handlers below.
\<close>

definition conn_open ::
  "conn_rt \<Rightarrow> ('e crofsock \<Rightarrow> 'e sock_res) \<Rightarrow> crofconn_state_t \<Rightarrow> versionbitmap \<Rightarrow> crofconn_mode_t \<Rightarrow> 'e crofconn \<Rightarrow>
   'e crofconn \<times> 'e conn_event list \<times> 'e sock_event list \<times> rofl_exn option" where
  "conn_open rt sock_open pending vb mode c =
     (case set_versionbitmap vb c of
        Inl e \<Rightarrow> (c, [], [], Some e)
      | Inr c1 \<Rightarrow>
          (case run_finite_state_machine rt pending (c1\<lparr>conn_mode := mode\<rparr>) of
             (c2, evs) \<Rightarrow>
               (case sock_open (conn_sock c2) of (s, sevs, e) \<Rightarrow> (c2\<lparr>conn_sock := s\<rparr>, evs, sevs, e))))"

definition conn_tcp_accept ::
  "conn_rt \<Rightarrow> ('e crofsock \<Rightarrow> 'e sock_res) \<Rightarrow> versionbitmap \<Rightarrow> crofconn_mode_t \<Rightarrow> 'e crofconn \<Rightarrow>
   'e crofconn \<times> 'e conn_event list \<times> 'e sock_event list \<times> rofl_exn option" where
  "conn_tcp_accept rt tcp_accept = conn_open rt tcp_accept STATE_ACCEPT_PENDING"

definition conn_tcp_connect ::
  "conn_rt \<Rightarrow> ('e crofsock \<Rightarrow> 'e sock_res) \<Rightarrow> versionbitmap \<Rightarrow> crofconn_mode_t \<Rightarrow> 'e crofconn \<Rightarrow>
   'e crofconn \<times> 'e conn_event list \<times> 'e sock_event list \<times> rofl_exn option" where
  "conn_tcp_connect rt tcp_connect = conn_open rt tcp_connect STATE_CONNECT_PENDING"

section \<open>HELLO, FEATURES, ECHO, ERROR\<close>

text \<open>The error message sent when the versions do not fit, with the head of the offending HELLO.\<close>

definition hello_failed_msg :: "('e cofmsg \<Rightarrow> byte list) \<Rightarrow> conn_rt \<Rightarrow> 'e cofmsg \<Rightarrow> 'e cofmsg" where
  "hello_failed_msg pk rt msg = cofmsg_error_new (rt_addr rt) (msg_version msg) (msg_xid msg) 0 0 (take 64 (pk msg))"

text \<open>Step 1 of \<open>hello_rcvd\<close>: the versions the peer offers, on top of what \<open>clear()\<close> left.\<close>

definition hello_peer_versions :: "'e cofmsg \<Rightarrow> versionbitmap \<Rightarrow> versionbitmap" where
  "hello_peer_versions msg peer =
     (let peer1 = vb_clear peer
      in if msg_version msg = OFP10_VERSION \<or> msg_version msg = OFP12_VERSION
         then vb_add_ofp_version (msg_version msg) peer1
         else (case get_hello_elem_versionbitmap (msg_hello msg) of
                 Inl e \<Rightarrow> vb_add_ofp_version (msg_version msg) peer1
               | Inr vb \<Rightarrow> vb))"

text \<open>The part before the versions are compared: answer with a HELLO, stop waiting, note the offer.\<close>

definition hello_prepare :: "conn_rt \<Rightarrow> 'e cofmsg \<Rightarrow> 'e crofconn \<Rightarrow> 'e crofconn" where
  "hello_prepare rt msg c =
     (let c1 = (if \<not> flag_hello_sent c then send_hello_message rt c else c);
          c2 = conn_drop_timer rt TIMER_ID_WAIT_FOR_HELLO (c1\<lparr>flag_hello_rcvd := True\<rparr>)
      in c2\<lparr>conn_versionbitmap_peer := hello_peer_versions msg (conn_versionbitmap_peer c2)\<rparr>)"

definition hello_rcvd :: "('e cofmsg \<Rightarrow> byte list) \<Rightarrow> conn_rt \<Rightarrow> 'e cofmsg \<Rightarrow> 'e crofconn \<Rightarrow> 'e conn_res" where
  "hello_rcvd pk rt msg c =
     (if msg_class msg \<noteq> Cofmsg_hello then (c, [])
      else
        (let c3 = hello_prepare rt msg c;
             common = vb_and (conn_versionbitmap c3) (conn_versionbitmap_peer c3);
             v = vb_get_highest_ofp_version common
         in if v = OFP_VERSION_UNKNOWN then
              (case run_finite_state_machine rt STATE_NEGOTIATION_FAILED (sock_send (hello_failed_msg pk rt msg) c3) of
                 (c4, evs) \<Rightarrow> (free_msg msg c4, evs))
            else
              (let c4 = c3\<lparr>conn_ofp_version := v\<rparr>
               in case conn_mode c4 of
                    MODE_CONTROLLER \<Rightarrow>
                      (case run_finite_state_machine rt
                              (if OFP13_VERSION \<le> v then STATE_NEGOTIATING2 else STATE_ESTABLISHED) c4 of
                         (c5, evs) \<Rightarrow> (free_msg msg c5, evs))
                  | MODE_DATAPATH \<Rightarrow>
                      (case run_finite_state_machine rt STATE_ESTABLISHED c4 of (c5, evs) \<Rightarrow> (free_msg msg c5, evs))
                  | CONN_MODE_UNKNOWN \<Rightarrow> run_finite_state_machine rt STATE_CLOSING c4)))"

definition hello_expired :: "conn_rt \<Rightarrow> 'e crofconn \<Rightarrow> 'e conn_res" where
  "hello_expired rt c =
     (if conn_state c = STATE_ESTABLISHED then (c, [])
      else if flag_hello_rcvd c then (c, [])
      else run_finite_state_machine rt STATE_NEGOTIATION_FAILED c)"

definition error_rcvd :: "conn_rt \<Rightarrow> 'e cofmsg \<Rightarrow> 'e crofconn \<Rightarrow> 'e conn_res" where
  "error_rcvd rt msg c =
     (if msg_class msg \<noteq> Cofmsg_error then (c, [])
      else
        (let c1 = conn_drop_timer rt TIMER_ID_WAIT_FOR_HELLO c
         in case (if conn_state c1 = STATE_NEGOTIATING \<and> msg_err_type msg = 0 \<or>
                     conn_state c1 = STATE_NEGOTIATING2 \<and> msg_err_type msg = 1
                  then run_finite_state_machine rt STATE_NEGOTIATION_FAILED c1 else (c1, [])) of
              (c2, evs) \<Rightarrow> (free_msg msg c2, evs)))"

definition features_reply_rcvd :: "conn_rt \<Rightarrow> 'e cofmsg \<Rightarrow> 'e crofconn \<Rightarrow> 'e conn_res" where
  "features_reply_rcvd rt msg c =
     (if msg_class msg \<noteq> Cofmsg_features_reply then (c, [])
      else
        (let c1 = (conn_drop_timer rt TIMER_ID_WAIT_FOR_FEATURES c)
                    \<lparr>conn_dpid := msg_dpid msg,
                     conn_auxid := (if OFP13_VERSION \<le> conn_ofp_version c then msg_auxid msg else 0)\<rparr>
         in case run_finite_state_machine rt STATE_ESTABLISHED c1 of (c2, evs) \<Rightarrow> (free_msg msg c2, evs)))"

definition features_request_expired :: "conn_rt \<Rightarrow> 'e crofconn \<Rightarrow> 'e conn_res" where
  "features_request_expired rt c = run_finite_state_machine rt STATE_NEGOTIATION_FAILED c"

definition send_echo_request :: "conn_rt \<Rightarrow> 'e crofconn \<Rightarrow> 'e crofconn" where
  "send_echo_request rt c =
     (if sock_is_congested (conn_sock c) \<or> has_pending_barrier_request c
      then conn_start_timer rt TIMER_ID_NEED_LIFE_CHECK (timeout_lifecheck c) c
      else (let c1 = conn_start_timer rt TIMER_ID_WAIT_FOR_ECHO (timeout_echo c) c;
                c2 = c1\<lparr>xid_echo_request_last := xid_echo_request_last c1 + 1\<rparr>
            in sock_send (cofmsg_new (rt_addr rt) Cofmsg_echo_request (conn_ofp_version c2) 2 (xid_echo_request_last c2)) c2))"

text \<open>The cast of the reply is asserted by the code.\<close>

definition echo_reply_rcvd :: "conn_rt \<Rightarrow> 'e cofmsg \<Rightarrow> 'e crofconn \<Rightarrow> 'e crofconn" where
  "echo_reply_rcvd rt msg c =
     (let c1 = free_msg msg (conn_drop_timer rt TIMER_ID_WAIT_FOR_ECHO c)
      in conn_start_timer rt TIMER_ID_NEED_LIFE_CHECK (timeout_lifecheck c1) c1)"

definition conn_handle_closed :: "conn_rt \<Rightarrow> 'e crofconn \<Rightarrow> 'e conn_res" where
  "conn_handle_closed rt c =
     (if conn_deleting c then (c, []) else run_finite_state_machine rt STATE_DISCONNECTED c)"

definition echo_request_expired :: "conn_rt \<Rightarrow> 'e crofconn \<Rightarrow> 'e conn_res" where
  "echo_request_expired rt c =
     (case run_finite_state_machine rt STATE_CLOSING c of
        (c1, evs) \<Rightarrow> (case conn_handle_closed rt c1 of (c2, evs2) \<Rightarrow> (c2, evs @ evs2)))"

definition echo_request_rcvd :: "conn_rt \<Rightarrow> 'e cofmsg \<Rightarrow> 'e crofconn \<Rightarrow> 'e crofconn" where
  "echo_request_rcvd rt msg c =
     (if msg_class msg \<noteq> Cofmsg_echo_request then c
      else free_msg msg (sock_send ((cofmsg_new (rt_addr rt) Cofmsg_echo_reply (msg_version msg) 3 (msg_xid msg))
                                      \<lparr>msg_body := msg_body msg\<rparr>) c))"

section \<open>Timers and socket events\<close>

definition conn_handle_timeout :: "conn_rt \<Rightarrow> u32 \<Rightarrow> 'e crofconn \<Rightarrow> 'e conn_res" where
  "conn_handle_timeout rt tid c =
     (if conn_deleting c then (c, [])
      else if tid = TIMER_ID_NEED_LIFE_CHECK then (send_echo_request rt c, [])
      else if tid = TIMER_ID_WAIT_FOR_HELLO then hello_expired rt c
      else if tid = TIMER_ID_WAIT_FOR_ECHO then echo_request_expired rt c
      else if tid = TIMER_ID_WAIT_FOR_FEATURES then features_request_expired rt c
      else if tid = TIMER_ID_PENDING_REQUESTS then check_pending_requests rt c
      else if tid = TIMER_ID_PENDING_SEGMENTS then (check_pending_segments rt c, [])
      else (c, []))"

text \<open>The handlers the socket calls, except reception.\<close>

fun conn_sock_event :: "conn_rt \<Rightarrow> 'e sock_event \<Rightarrow> 'e crofconn \<Rightarrow> 'e conn_res" where
  "conn_sock_event rt Ev_tcp_connect_refused c = run_finite_state_machine rt STATE_CONNECT_REFUSED c"
| "conn_sock_event rt Ev_tcp_connect_failed c = run_finite_state_machine rt STATE_CONNECT_FAILED c"
| "conn_sock_event rt Ev_tcp_connected c = run_finite_state_machine rt STATE_NEGOTIATING c"
| "conn_sock_event rt Ev_tcp_accepted c = run_finite_state_machine rt STATE_NEGOTIATING c"
| "conn_sock_event rt Ev_tls_connect_failed c =
     (case run_finite_state_machine rt STATE_DISCONNECTED c of (c1, evs) \<Rightarrow> (c1, evs @ [CE_connect_failed]))"
| "conn_sock_event rt Ev_tls_connected c = run_finite_state_machine rt STATE_NEGOTIATING c"
| "conn_sock_event rt Ev_tls_accept_failed c =
     (case run_finite_state_machine rt STATE_DISCONNECTED c of (c1, evs) \<Rightarrow> (c1, evs @ [CE_accept_failed]))"
| "conn_sock_event rt Ev_tls_accepted c = run_finite_state_machine rt STATE_NEGOTIATING c"
| "conn_sock_event rt Ev_closed c = conn_handle_closed rt c"
| "conn_sock_event rt Ev_congestion_occurred c = (c, if conn_deleting c then [] else [CE_congestion_occurred])"
| "conn_sock_event rt Ev_congestion_solved c = (c, if conn_deleting c then [] else [CE_congestion_solved])"
| "conn_sock_event rt Ev_listen c = (c, [])"
| "conn_sock_event rt (Ev_recv msg) c = (c, [])"

section \<open>Frame lemmas\<close>

text \<open>Timers and transmission leave the rest of the connection alone.\<close>

lemma conn_timer_frame [simp]:
  "conn_state (conn_add_timer rt i ts c) = conn_state c"
  "conn_state (conn_start_timer rt i n c) = conn_state c"
  "conn_state (conn_drop_timer rt i c) = conn_state c" "conn_state (conn_drop_timers rt c) = conn_state c"
  "conn_state (conn_wakeup c) = conn_state c"
  "conn_ofp_version (conn_add_timer rt i ts c) = conn_ofp_version c"
  "conn_ofp_version (conn_start_timer rt i n c) = conn_ofp_version c"
  "conn_ofp_version (conn_drop_timer rt i c) = conn_ofp_version c"
  "conn_ofp_version (conn_drop_timers rt c) = conn_ofp_version c"
  "conn_ofp_version (conn_wakeup c) = conn_ofp_version c"
  "conn_versionbitmap (conn_add_timer rt i ts c) = conn_versionbitmap c"
  "conn_versionbitmap (conn_start_timer rt i n c) = conn_versionbitmap c"
  "conn_versionbitmap (conn_drop_timer rt i c) = conn_versionbitmap c"
  "conn_versionbitmap (conn_drop_timers rt c) = conn_versionbitmap c"
  "conn_versionbitmap (conn_wakeup c) = conn_versionbitmap c"
  "conn_versionbitmap_peer (conn_add_timer rt i ts c) = conn_versionbitmap_peer c"
  "conn_versionbitmap_peer (conn_start_timer rt i n c) = conn_versionbitmap_peer c"
  "conn_versionbitmap_peer (conn_drop_timer rt i c) = conn_versionbitmap_peer c"
  "conn_versionbitmap_peer (conn_drop_timers rt c) = conn_versionbitmap_peer c"
  "conn_versionbitmap_peer (conn_wakeup c) = conn_versionbitmap_peer c"
  "conn_deleting (conn_add_timer rt i ts c) = conn_deleting c"
  "conn_deleting (conn_start_timer rt i n c) = conn_deleting c"
  "conn_deleting (conn_drop_timer rt i c) = conn_deleting c"
  "conn_deleting (conn_drop_timers rt c) = conn_deleting c"
  "conn_deleting (conn_wakeup c) = conn_deleting c" "conn_this (conn_add_timer rt i ts c) = conn_this c"
  "conn_this (conn_start_timer rt i n c) = conn_this c" "conn_this (conn_drop_timer rt i c) = conn_this c"
  "conn_this (conn_drop_timers rt c) = conn_this c" "conn_this (conn_wakeup c) = conn_this c"
  "conn_mode (conn_add_timer rt i ts c) = conn_mode c" "conn_mode (conn_start_timer rt i n c) = conn_mode c"
  "conn_mode (conn_drop_timer rt i c) = conn_mode c" "conn_mode (conn_drop_timers rt c) = conn_mode c"
  "conn_mode (conn_wakeup c) = conn_mode c" "rxqueues (conn_add_timer rt i ts c) = rxqueues c"
  "rxqueues (conn_start_timer rt i n c) = rxqueues c" "rxqueues (conn_drop_timer rt i c) = rxqueues c"
  "rxqueues (conn_drop_timers rt c) = rxqueues c" "rxqueues (conn_wakeup c) = rxqueues c"
  "rxweights (conn_add_timer rt i ts c) = rxweights c" "rxweights (conn_start_timer rt i n c) = rxweights c"
  "rxweights (conn_drop_timer rt i c) = rxweights c" "rxweights (conn_drop_timers rt c) = rxweights c"
  "rxweights (conn_wakeup c) = rxweights c"
  "pending_requests (conn_add_timer rt i ts c) = pending_requests c"
  "pending_requests (conn_start_timer rt i n c) = pending_requests c"
  "pending_requests (conn_drop_timer rt i c) = pending_requests c"
  "pending_requests (conn_drop_timers rt c) = pending_requests c"
  "pending_requests (conn_wakeup c) = pending_requests c"
  "pending_segments (conn_add_timer rt i ts c) = pending_segments c"
  "pending_segments (conn_start_timer rt i n c) = pending_segments c"
  "pending_segments (conn_drop_timer rt i c) = pending_segments c"
  "pending_segments (conn_drop_timers rt c) = pending_segments c"
  "pending_segments (conn_wakeup c) = pending_segments c"
  "flag_hello_rcvd (conn_add_timer rt i ts c) = flag_hello_rcvd c"
  "flag_hello_rcvd (conn_start_timer rt i n c) = flag_hello_rcvd c"
  "flag_hello_rcvd (conn_drop_timer rt i c) = flag_hello_rcvd c"
  "flag_hello_rcvd (conn_drop_timers rt c) = flag_hello_rcvd c"
  "flag_hello_rcvd (conn_wakeup c) = flag_hello_rcvd c"
  "flag_hello_sent (conn_add_timer rt i ts c) = flag_hello_sent c"
  "flag_hello_sent (conn_start_timer rt i n c) = flag_hello_sent c"
  "flag_hello_sent (conn_drop_timer rt i c) = flag_hello_sent c"
  "flag_hello_sent (conn_drop_timers rt c) = flag_hello_sent c"
  "flag_hello_sent (conn_wakeup c) = flag_hello_sent c"
  "rx_thread_working (conn_add_timer rt i ts c) = rx_thread_working c"
  "rx_thread_working (conn_start_timer rt i n c) = rx_thread_working c"
  "rx_thread_working (conn_drop_timer rt i c) = rx_thread_working c"
  "rx_thread_working (conn_drop_timers rt c) = rx_thread_working c"
  "rx_thread_working (conn_wakeup c) = rx_thread_working c"
  "pending_segments_max (conn_add_timer rt i ts c) = pending_segments_max c"
  "pending_segments_max (conn_start_timer rt i n c) = pending_segments_max c"
  "pending_segments_max (conn_drop_timer rt i c) = pending_segments_max c"
  "pending_segments_max (conn_drop_timers rt c) = pending_segments_max c"
  "pending_segments_max (conn_wakeup c) = pending_segments_max c"
  "segmentation_threshold (conn_add_timer rt i ts c) = segmentation_threshold c"
  "segmentation_threshold (conn_start_timer rt i n c) = segmentation_threshold c"
  "segmentation_threshold (conn_drop_timer rt i c) = segmentation_threshold c"
  "segmentation_threshold (conn_drop_timers rt c) = segmentation_threshold c"
  "segmentation_threshold (conn_wakeup c) = segmentation_threshold c"
  "conn_freed (conn_add_timer rt i ts c) = conn_freed c"
  "conn_freed (conn_start_timer rt i n c) = conn_freed c"
  "conn_freed (conn_drop_timer rt i c) = conn_freed c" "conn_freed (conn_drop_timers rt c) = conn_freed c"
  "conn_freed (conn_wakeup c) = conn_freed c" "conn_sock (conn_add_timer rt i ts c) = conn_sock c"
  "conn_sock (conn_start_timer rt i n c) = conn_sock c" "conn_sock (conn_drop_timer rt i c) = conn_sock c"
  "conn_sock (conn_drop_timers rt c) = conn_sock c" "conn_sock (conn_wakeup c) = conn_sock c"
  by (simp_all add: conn_add_timer_def conn_start_timer_def conn_drop_timer_def conn_drop_timers_def conn_wakeup_def)

lemma sock_send_frame [simp]:
  "conn_state (sock_send m c) = conn_state c" "conn_ofp_version (sock_send m c) = conn_ofp_version c"
  "conn_versionbitmap (sock_send m c) = conn_versionbitmap c"
  "conn_versionbitmap_peer (sock_send m c) = conn_versionbitmap_peer c"
  "conn_deleting (sock_send m c) = conn_deleting c" "conn_this (sock_send m c) = conn_this c"
  "conn_mode (sock_send m c) = conn_mode c" "rxqueues (sock_send m c) = rxqueues c"
  "rxweights (sock_send m c) = rxweights c" "pending_requests (sock_send m c) = pending_requests c"
  "pending_segments (sock_send m c) = pending_segments c"
  "flag_hello_rcvd (sock_send m c) = flag_hello_rcvd c"
  "flag_hello_sent (sock_send m c) = flag_hello_sent c"
  "rx_thread_working (sock_send m c) = rx_thread_working c"
  "pending_segments_max (sock_send m c) = pending_segments_max c"
  "segmentation_threshold (sock_send m c) = segmentation_threshold c"
  "conn_freed (sock_send m c) = conn_freed c" "conn_thread (sock_send m c) = conn_thread c"
  by (simp_all add: sock_send_def)

lemma free_msg_frame [simp]:
  "conn_state (free_msg m c) = conn_state c" "conn_ofp_version (free_msg m c) = conn_ofp_version c"
  "conn_versionbitmap (free_msg m c) = conn_versionbitmap c"
  "conn_versionbitmap_peer (free_msg m c) = conn_versionbitmap_peer c"
  "conn_deleting (free_msg m c) = conn_deleting c" "conn_this (free_msg m c) = conn_this c"
  "conn_mode (free_msg m c) = conn_mode c" "rxqueues (free_msg m c) = rxqueues c"
  "rxweights (free_msg m c) = rxweights c" "pending_requests (free_msg m c) = pending_requests c"
  "pending_segments (free_msg m c) = pending_segments c"
  "flag_hello_rcvd (free_msg m c) = flag_hello_rcvd c" "flag_hello_sent (free_msg m c) = flag_hello_sent c"
  "rx_thread_working (free_msg m c) = rx_thread_working c"
  "pending_segments_max (free_msg m c) = pending_segments_max c"
  "segmentation_threshold (free_msg m c) = segmentation_threshold c"
  "conn_thread (free_msg m c) = conn_thread c" "conn_sock (free_msg m c) = conn_sock c"
  by (simp_all add: free_msg_def)

lemma send_hello_frame [simp]:
  "conn_state (send_hello_message rt c) = conn_state c"
  "conn_ofp_version (send_hello_message rt c) = conn_ofp_version c"
  "conn_versionbitmap (send_hello_message rt c) = conn_versionbitmap c"
  "conn_versionbitmap_peer (send_hello_message rt c) = conn_versionbitmap_peer c"
  "conn_deleting (send_hello_message rt c) = conn_deleting c"
  "conn_this (send_hello_message rt c) = conn_this c" "conn_mode (send_hello_message rt c) = conn_mode c"
  "rxqueues (send_hello_message rt c) = rxqueues c" "rxweights (send_hello_message rt c) = rxweights c"
  "pending_requests (send_hello_message rt c) = pending_requests c"
  "pending_segments (send_hello_message rt c) = pending_segments c"
  "flag_hello_rcvd (send_hello_message rt c) = flag_hello_rcvd c"
  "rx_thread_working (send_hello_message rt c) = rx_thread_working c"
  "pending_segments_max (send_hello_message rt c) = pending_segments_max c"
  "segmentation_threshold (send_hello_message rt c) = segmentation_threshold c"
  "conn_freed (send_hello_message rt c) = conn_freed c"
  "conn_thread (send_hello_message rt c) = conn_thread c"
  by (simp_all add: send_hello_message_def Let_def)

lemma send_features_frame [simp]:
  "conn_state (send_features_request rt c) = conn_state c"
  "conn_ofp_version (send_features_request rt c) = conn_ofp_version c"
  "conn_versionbitmap (send_features_request rt c) = conn_versionbitmap c"
  "conn_versionbitmap_peer (send_features_request rt c) = conn_versionbitmap_peer c"
  "conn_deleting (send_features_request rt c) = conn_deleting c"
  "conn_this (send_features_request rt c) = conn_this c"
  "conn_mode (send_features_request rt c) = conn_mode c"
  "rxqueues (send_features_request rt c) = rxqueues c"
  "rxweights (send_features_request rt c) = rxweights c"
  "pending_requests (send_features_request rt c) = pending_requests c"
  "pending_segments (send_features_request rt c) = pending_segments c"
  "flag_hello_rcvd (send_features_request rt c) = flag_hello_rcvd c"
  "flag_hello_sent (send_features_request rt c) = flag_hello_sent c"
  "rx_thread_working (send_features_request rt c) = rx_thread_working c"
  "pending_segments_max (send_features_request rt c) = pending_segments_max c"
  "segmentation_threshold (send_features_request rt c) = segmentation_threshold c"
  "conn_freed (send_features_request rt c) = conn_freed c"
  by (simp_all add: send_features_request_def Let_def)

lemma pending_frame [simp]:
  "conn_state (clear_pending_requests rt c) = conn_state c"
  "conn_state (add_pending_request rt x ts ty st c) = conn_state c"
  "conn_state (drop_pending_request x c) = conn_state c"
  "conn_ofp_version (clear_pending_requests rt c) = conn_ofp_version c"
  "conn_ofp_version (add_pending_request rt x ts ty st c) = conn_ofp_version c"
  "conn_ofp_version (drop_pending_request x c) = conn_ofp_version c"
  "conn_versionbitmap (clear_pending_requests rt c) = conn_versionbitmap c"
  "conn_versionbitmap (add_pending_request rt x ts ty st c) = conn_versionbitmap c"
  "conn_versionbitmap (drop_pending_request x c) = conn_versionbitmap c"
  "conn_versionbitmap_peer (clear_pending_requests rt c) = conn_versionbitmap_peer c"
  "conn_versionbitmap_peer (add_pending_request rt x ts ty st c) = conn_versionbitmap_peer c"
  "conn_versionbitmap_peer (drop_pending_request x c) = conn_versionbitmap_peer c"
  "conn_deleting (clear_pending_requests rt c) = conn_deleting c"
  "conn_deleting (add_pending_request rt x ts ty st c) = conn_deleting c"
  "conn_deleting (drop_pending_request x c) = conn_deleting c"
  "conn_this (clear_pending_requests rt c) = conn_this c"
  "conn_this (add_pending_request rt x ts ty st c) = conn_this c"
  "conn_this (drop_pending_request x c) = conn_this c"
  "conn_mode (clear_pending_requests rt c) = conn_mode c"
  "conn_mode (add_pending_request rt x ts ty st c) = conn_mode c"
  "conn_mode (drop_pending_request x c) = conn_mode c" "rxqueues (clear_pending_requests rt c) = rxqueues c"
  "rxqueues (add_pending_request rt x ts ty st c) = rxqueues c"
  "rxqueues (drop_pending_request x c) = rxqueues c" "rxweights (clear_pending_requests rt c) = rxweights c"
  "rxweights (add_pending_request rt x ts ty st c) = rxweights c"
  "rxweights (drop_pending_request x c) = rxweights c"
  "pending_segments (clear_pending_requests rt c) = pending_segments c"
  "pending_segments (add_pending_request rt x ts ty st c) = pending_segments c"
  "pending_segments (drop_pending_request x c) = pending_segments c"
  "flag_hello_rcvd (clear_pending_requests rt c) = flag_hello_rcvd c"
  "flag_hello_rcvd (add_pending_request rt x ts ty st c) = flag_hello_rcvd c"
  "flag_hello_rcvd (drop_pending_request x c) = flag_hello_rcvd c"
  "flag_hello_sent (clear_pending_requests rt c) = flag_hello_sent c"
  "flag_hello_sent (add_pending_request rt x ts ty st c) = flag_hello_sent c"
  "flag_hello_sent (drop_pending_request x c) = flag_hello_sent c"
  "rx_thread_working (clear_pending_requests rt c) = rx_thread_working c"
  "rx_thread_working (add_pending_request rt x ts ty st c) = rx_thread_working c"
  "rx_thread_working (drop_pending_request x c) = rx_thread_working c"
  "pending_segments_max (clear_pending_requests rt c) = pending_segments_max c"
  "pending_segments_max (add_pending_request rt x ts ty st c) = pending_segments_max c"
  "pending_segments_max (drop_pending_request x c) = pending_segments_max c"
  "segmentation_threshold (clear_pending_requests rt c) = segmentation_threshold c"
  "segmentation_threshold (add_pending_request rt x ts ty st c) = segmentation_threshold c"
  "segmentation_threshold (drop_pending_request x c) = segmentation_threshold c"
  "conn_freed (clear_pending_requests rt c) = conn_freed c"
  "conn_freed (add_pending_request rt x ts ty st c) = conn_freed c"
  "conn_freed (drop_pending_request x c) = conn_freed c"
  "conn_sock (clear_pending_requests rt c) = conn_sock c"
  "conn_sock (add_pending_request rt x ts ty st c) = conn_sock c"
  "conn_sock (drop_pending_request x c) = conn_sock c"
  by (auto simp: clear_pending_requests_def add_pending_request_def drop_pending_request_def Let_def split: list.splits)

lemma segment_frame [simp]:
  "conn_state (clear_pending_segments rt c) = conn_state c"
  "conn_state (new_pending_segment rt x ty st c) = conn_state c"
  "conn_state (check_pending_segments rt c) = conn_state c"
  "conn_ofp_version (clear_pending_segments rt c) = conn_ofp_version c"
  "conn_ofp_version (new_pending_segment rt x ty st c) = conn_ofp_version c"
  "conn_ofp_version (check_pending_segments rt c) = conn_ofp_version c"
  "conn_versionbitmap (clear_pending_segments rt c) = conn_versionbitmap c"
  "conn_versionbitmap (new_pending_segment rt x ty st c) = conn_versionbitmap c"
  "conn_versionbitmap (check_pending_segments rt c) = conn_versionbitmap c"
  "conn_versionbitmap_peer (clear_pending_segments rt c) = conn_versionbitmap_peer c"
  "conn_versionbitmap_peer (new_pending_segment rt x ty st c) = conn_versionbitmap_peer c"
  "conn_versionbitmap_peer (check_pending_segments rt c) = conn_versionbitmap_peer c"
  "conn_deleting (clear_pending_segments rt c) = conn_deleting c"
  "conn_deleting (new_pending_segment rt x ty st c) = conn_deleting c"
  "conn_deleting (check_pending_segments rt c) = conn_deleting c"
  "conn_this (clear_pending_segments rt c) = conn_this c"
  "conn_this (new_pending_segment rt x ty st c) = conn_this c"
  "conn_this (check_pending_segments rt c) = conn_this c"
  "conn_mode (clear_pending_segments rt c) = conn_mode c"
  "conn_mode (new_pending_segment rt x ty st c) = conn_mode c"
  "conn_mode (check_pending_segments rt c) = conn_mode c"
  "rxqueues (clear_pending_segments rt c) = rxqueues c"
  "rxqueues (new_pending_segment rt x ty st c) = rxqueues c"
  "rxqueues (check_pending_segments rt c) = rxqueues c"
  "rxweights (clear_pending_segments rt c) = rxweights c"
  "rxweights (new_pending_segment rt x ty st c) = rxweights c"
  "rxweights (check_pending_segments rt c) = rxweights c"
  "pending_requests (clear_pending_segments rt c) = pending_requests c"
  "pending_requests (new_pending_segment rt x ty st c) = pending_requests c"
  "pending_requests (check_pending_segments rt c) = pending_requests c"
  "flag_hello_rcvd (clear_pending_segments rt c) = flag_hello_rcvd c"
  "flag_hello_rcvd (new_pending_segment rt x ty st c) = flag_hello_rcvd c"
  "flag_hello_rcvd (check_pending_segments rt c) = flag_hello_rcvd c"
  "flag_hello_sent (clear_pending_segments rt c) = flag_hello_sent c"
  "flag_hello_sent (new_pending_segment rt x ty st c) = flag_hello_sent c"
  "flag_hello_sent (check_pending_segments rt c) = flag_hello_sent c"
  "rx_thread_working (clear_pending_segments rt c) = rx_thread_working c"
  "rx_thread_working (new_pending_segment rt x ty st c) = rx_thread_working c"
  "rx_thread_working (check_pending_segments rt c) = rx_thread_working c"
  "pending_segments_max (clear_pending_segments rt c) = pending_segments_max c"
  "pending_segments_max (new_pending_segment rt x ty st c) = pending_segments_max c"
  "pending_segments_max (check_pending_segments rt c) = pending_segments_max c"
  "segmentation_threshold (clear_pending_segments rt c) = segmentation_threshold c"
  "segmentation_threshold (new_pending_segment rt x ty st c) = segmentation_threshold c"
  "segmentation_threshold (check_pending_segments rt c) = segmentation_threshold c"
  "conn_freed (clear_pending_segments rt c) = conn_freed c"
  "conn_freed (new_pending_segment rt x ty st c) = conn_freed c"
  "conn_freed (check_pending_segments rt c) = conn_freed c"
  "conn_sock (clear_pending_segments rt c) = conn_sock c"
  "conn_sock (new_pending_segment rt x ty st c) = conn_sock c"
  "conn_sock (check_pending_segments rt c) = conn_sock c"
  by (auto simp: clear_pending_segments_def new_pending_segment_def check_pending_segments_def Let_def)

lemma segment_timer_frame [simp]:
  "conn_state (segment_timer rt c) = conn_state c"
  "conn_ofp_version (segment_timer rt c) = conn_ofp_version c"
  "conn_versionbitmap (segment_timer rt c) = conn_versionbitmap c"
  "conn_versionbitmap_peer (segment_timer rt c) = conn_versionbitmap_peer c"
  "conn_deleting (segment_timer rt c) = conn_deleting c" "conn_this (segment_timer rt c) = conn_this c"
  "conn_mode (segment_timer rt c) = conn_mode c" "rxqueues (segment_timer rt c) = rxqueues c"
  "rxweights (segment_timer rt c) = rxweights c"
  "pending_requests (segment_timer rt c) = pending_requests c"
  "pending_segments (segment_timer rt c) = pending_segments c"
  "flag_hello_rcvd (segment_timer rt c) = flag_hello_rcvd c"
  "flag_hello_sent (segment_timer rt c) = flag_hello_sent c"
  "rx_thread_working (segment_timer rt c) = rx_thread_working c"
  "pending_segments_max (segment_timer rt c) = pending_segments_max c"
  "segmentation_threshold (segment_timer rt c) = segmentation_threshold c"
  "conn_freed (segment_timer rt c) = conn_freed c" "conn_sock (segment_timer rt c) = conn_sock c"
  by (simp_all add: segment_timer_def)

lemma echo_frame [simp]:
  "conn_state (send_echo_request rt c) = conn_state c"
  "conn_state (echo_request_rcvd rt m c) = conn_state c"
  "conn_state (echo_reply_rcvd rt m c) = conn_state c"
  "conn_ofp_version (send_echo_request rt c) = conn_ofp_version c"
  "conn_ofp_version (echo_request_rcvd rt m c) = conn_ofp_version c"
  "conn_ofp_version (echo_reply_rcvd rt m c) = conn_ofp_version c"
  "conn_versionbitmap (send_echo_request rt c) = conn_versionbitmap c"
  "conn_versionbitmap (echo_request_rcvd rt m c) = conn_versionbitmap c"
  "conn_versionbitmap (echo_reply_rcvd rt m c) = conn_versionbitmap c"
  "conn_versionbitmap_peer (send_echo_request rt c) = conn_versionbitmap_peer c"
  "conn_versionbitmap_peer (echo_request_rcvd rt m c) = conn_versionbitmap_peer c"
  "conn_versionbitmap_peer (echo_reply_rcvd rt m c) = conn_versionbitmap_peer c"
  "conn_deleting (send_echo_request rt c) = conn_deleting c"
  "conn_deleting (echo_request_rcvd rt m c) = conn_deleting c"
  "conn_deleting (echo_reply_rcvd rt m c) = conn_deleting c"
  "conn_this (send_echo_request rt c) = conn_this c" "conn_this (echo_request_rcvd rt m c) = conn_this c"
  "conn_this (echo_reply_rcvd rt m c) = conn_this c" "conn_mode (send_echo_request rt c) = conn_mode c"
  "conn_mode (echo_request_rcvd rt m c) = conn_mode c" "conn_mode (echo_reply_rcvd rt m c) = conn_mode c"
  "rxqueues (send_echo_request rt c) = rxqueues c" "rxqueues (echo_request_rcvd rt m c) = rxqueues c"
  "rxqueues (echo_reply_rcvd rt m c) = rxqueues c" "rxweights (send_echo_request rt c) = rxweights c"
  "rxweights (echo_request_rcvd rt m c) = rxweights c" "rxweights (echo_reply_rcvd rt m c) = rxweights c"
  "pending_requests (send_echo_request rt c) = pending_requests c"
  "pending_requests (echo_request_rcvd rt m c) = pending_requests c"
  "pending_requests (echo_reply_rcvd rt m c) = pending_requests c"
  "pending_segments (send_echo_request rt c) = pending_segments c"
  "pending_segments (echo_request_rcvd rt m c) = pending_segments c"
  "pending_segments (echo_reply_rcvd rt m c) = pending_segments c"
  "flag_hello_rcvd (send_echo_request rt c) = flag_hello_rcvd c"
  "flag_hello_rcvd (echo_request_rcvd rt m c) = flag_hello_rcvd c"
  "flag_hello_rcvd (echo_reply_rcvd rt m c) = flag_hello_rcvd c"
  "flag_hello_sent (send_echo_request rt c) = flag_hello_sent c"
  "flag_hello_sent (echo_request_rcvd rt m c) = flag_hello_sent c"
  "flag_hello_sent (echo_reply_rcvd rt m c) = flag_hello_sent c"
  "rx_thread_working (send_echo_request rt c) = rx_thread_working c"
  "rx_thread_working (echo_request_rcvd rt m c) = rx_thread_working c"
  "rx_thread_working (echo_reply_rcvd rt m c) = rx_thread_working c"
  "pending_segments_max (send_echo_request rt c) = pending_segments_max c"
  "pending_segments_max (echo_request_rcvd rt m c) = pending_segments_max c"
  "pending_segments_max (echo_reply_rcvd rt m c) = pending_segments_max c"
  "segmentation_threshold (send_echo_request rt c) = segmentation_threshold c"
  "segmentation_threshold (echo_request_rcvd rt m c) = segmentation_threshold c"
  "segmentation_threshold (echo_reply_rcvd rt m c) = segmentation_threshold c"
  by (simp_all add: send_echo_request_def echo_request_rcvd_def echo_reply_rcvd_def Let_def)

section \<open>What the state machine keeps\<close>

lemma fsm_disconnected_frame [simp]:
  "conn_state (fsm_disconnected rt c) = conn_state c" "conn_versionbitmap (fsm_disconnected rt c) = conn_versionbitmap c"
  "conn_deleting (fsm_disconnected rt c) = conn_deleting c" "conn_ofp_version (fsm_disconnected rt c) = OFP_VERSION_UNKNOWN"
  "vb_has_ofp_version v (conn_versionbitmap_peer (fsm_disconnected rt c)) = vb_has_ofp_version v (conn_versionbitmap_peer c)"
  "pending_requests (fsm_disconnected rt c) = []" "pending_segments (fsm_disconnected rt c) = []"
  "rxqueues (fsm_disconnected rt c) = rxqueues c" "conn_sock (fsm_disconnected rt c) = conn_sock c"
  "conn_this (fsm_disconnected rt c) = conn_this c" "rxweights (fsm_disconnected rt c) = rxweights c"
  by (simp_all add: fsm_disconnected_def Let_def clear_pending_segments_def clear_pending_requests_def)

lemma fsm_closing_frame [simp]:
  "conn_state (fsm_closing rt c) = STATE_DISCONNECTED" "conn_versionbitmap (fsm_closing rt c) = conn_versionbitmap c"
  "conn_deleting (fsm_closing rt c) = conn_deleting c" "conn_ofp_version (fsm_closing rt c) = OFP_VERSION_UNKNOWN"
  "vb_has_ofp_version v (conn_versionbitmap_peer (fsm_closing rt c)) = vb_has_ofp_version v (conn_versionbitmap_peer c)"
  "rxqueues (fsm_closing rt c) = rxqueues c" "conn_this (fsm_closing rt c) = conn_this c"
  "rxweights (fsm_closing rt c) = rxweights c"
  by (simp_all add: fsm_closing_def)

lemma fsm_pending_frame [simp]:
  "conn_state (fsm_pending c) = conn_state c" "conn_versionbitmap (fsm_pending c) = conn_versionbitmap c"
  "conn_deleting (fsm_pending c) = conn_deleting c" "conn_ofp_version (fsm_pending c) = OFP_VERSION_UNKNOWN"
  "vb_has_ofp_version v (conn_versionbitmap_peer (fsm_pending c)) = vb_has_ofp_version v (conn_versionbitmap_peer c)"
  "rxqueues (fsm_pending c) = rxqueues c" "conn_this (fsm_pending c) = conn_this c" "rxweights (fsm_pending c) = rxweights c"
  by (simp_all add: fsm_pending_def clear_rxqueue_copies_def)

text \<open>The state a transition ends in, and what it does to the version.\<close>

definition fsm_target :: "crofconn_state_t \<Rightarrow> crofconn_state_t" where
  "fsm_target new =
     (if new \<in> {STATE_CONNECT_PENDING, STATE_ACCEPT_PENDING, STATE_NEGOTIATING, STATE_NEGOTIATING2, STATE_ESTABLISHED}
      then new else STATE_DISCONNECTED)"

lemma fsm_body_frame:
  assumes "fsm_body rt new (c\<lparr>conn_state := new\<rparr>) = (c1, calls)"
  shows "conn_state c1 = fsm_target new" "conn_versionbitmap c1 = conn_versionbitmap c" "conn_deleting c1 = conn_deleting c"
    "vb_has_ofp_version v (conn_versionbitmap_peer c1) = vb_has_ofp_version v (conn_versionbitmap_peer c)"
    "rxqueues c1 = rxqueues c" "conn_this c1 = conn_this c" "rxweights c1 = rxweights c"
    "new \<in> {STATE_NEGOTIATING, STATE_NEGOTIATING2, STATE_ESTABLISHED} \<Longrightarrow> conn_ofp_version c1 = conn_ofp_version c"
    "new \<in> {STATE_NEGOTIATION_FAILED, STATE_CLOSING, STATE_DISCONNECTED, STATE_CONNECT_PENDING, STATE_ACCEPT_PENDING} \<Longrightarrow>
      conn_ofp_version c1 = OFP_VERSION_UNKNOWN"
  using assms by (cases new; auto simp: fsm_target_def Let_def split: if_splits)+

lemma run_fsm_frame [simp]:
  "conn_versionbitmap (fst (run_finite_state_machine rt new c)) = conn_versionbitmap c"
  "conn_deleting (fst (run_finite_state_machine rt new c)) = conn_deleting c"
  "vb_has_ofp_version v (conn_versionbitmap_peer (fst (run_finite_state_machine rt new c))) =
     vb_has_ofp_version v (conn_versionbitmap_peer c)"
  "rxqueues (fst (run_finite_state_machine rt new c)) = rxqueues c"
  "rxweights (fst (run_finite_state_machine rt new c)) = rxweights c"
  "conn_this (fst (run_finite_state_machine rt new c)) = conn_this c"
  by (auto simp: run_finite_state_machine_def fsm_body_frame split: prod.split)

lemma run_fsm_state:
  assumes "\<not> conn_deleting c" "conn_state c \<noteq> new"
  shows "conn_state (fst (run_finite_state_machine rt new c)) = fsm_target new"
  using assms by (auto simp: run_finite_state_machine_def fsm_body_frame(1) split: prod.split)

lemma run_fsm_version:
  assumes "new \<in> {STATE_NEGOTIATING, STATE_NEGOTIATING2, STATE_ESTABLISHED}"
  shows "conn_ofp_version (fst (run_finite_state_machine rt new c)) = conn_ofp_version c"
  using fsm_body_frame(8) [OF _ assms, of rt c] by (auto simp: run_finite_state_machine_def split: prod.split)

text \<open>
  The invariant of a connection that is not being deleted: it rests only in states that last, and
  once a version is negotiated both sides support it.
\<close>

definition versions_agreed :: "'e crofconn \<Rightarrow> bool" where
  "versions_agreed c \<longleftrightarrow> conn_ofp_version c \<noteq> OFP_VERSION_UNKNOWN \<and>
     vb_has_ofp_version (conn_ofp_version c) (conn_versionbitmap c) \<and>
     vb_has_ofp_version (conn_ofp_version c) (conn_versionbitmap_peer c)"

definition conn_ok :: "'e crofconn \<Rightarrow> bool" where
  "conn_ok c \<longleftrightarrow> vb_small (conn_versionbitmap c) \<and>
     (\<not> conn_deleting c \<longrightarrow> conn_state c = fsm_target (conn_state c) \<and>
       (conn_state c \<in> {STATE_NEGOTIATING2, STATE_ESTABLISHED} \<longrightarrow> versions_agreed c))"

lemma conn_ok_new: "conn_ok (crofconn_new this th sock x1 x2 x3)"
  by (simp add: conn_ok_def crofconn_new_def fsm_target_def vb_small_def vb_new_def)

lemma conn_ok_cong:
  "conn_ok c \<Longrightarrow> conn_versionbitmap c' = conn_versionbitmap c \<Longrightarrow> conn_deleting c' = conn_deleting c \<Longrightarrow>
   conn_state c' = conn_state c \<Longrightarrow> conn_ofp_version c' = conn_ofp_version c \<Longrightarrow>
   conn_versionbitmap_peer c' = conn_versionbitmap_peer c \<Longrightarrow> conn_ok c'"
  by (simp add: conn_ok_def versions_agreed_def)

lemma fsm_target_idem [simp]: "fsm_target (fsm_target s) = fsm_target s"
  by (simp add: fsm_target_def)

lemma run_fsm_ok:
  assumes "conn_ok c" "new \<in> {STATE_NEGOTIATING2, STATE_ESTABLISHED} \<longrightarrow> versions_agreed c"
  shows "conn_ok (fst (run_finite_state_machine rt new c))"
proof (cases "conn_deleting c \<or> conn_state c = new")
  case True
  then show ?thesis
    using assms(1) by (simp add: run_finite_state_machine_def)
next
  case False
  then have "conn_state (fst (run_finite_state_machine rt new c)) = fsm_target new"
    by (simp add: run_fsm_state)
  then show ?thesis
    using assms run_fsm_version [of new rt c]
    by (auto simp: conn_ok_def versions_agreed_def fsm_target_def split: if_splits)
qed

text \<open>A connection that leaves its state may have lost its version for the moment.\<close>

lemma run_fsm_ok_weak:
  assumes "vb_small (conn_versionbitmap c)" "conn_state c \<noteq> new"
    "new \<in> {STATE_NEGOTIATING2, STATE_ESTABLISHED} \<longrightarrow> versions_agreed c"
  shows "conn_ok (fst (run_finite_state_machine rt new c))"
proof (cases "conn_deleting c")
  case True
  then show ?thesis
    using assms(1) by (simp add: run_finite_state_machine_def conn_ok_def)
next
  case False
  then have "conn_state (fst (run_finite_state_machine rt new c)) = fsm_target new"
    using assms(2) by (simp add: run_fsm_state)
  then show ?thesis
    using assms(1,3) run_fsm_version [of new rt c]
    by (auto simp: conn_ok_def versions_agreed_def fsm_target_def split: if_splits)
qed

lemma common_agreed:
  assumes "vb_small (conn_versionbitmap c)" "conn_ofp_version c \<noteq> OFP_VERSION_UNKNOWN"
    "conn_ofp_version c = vb_get_highest_ofp_version (vb_and (conn_versionbitmap c) (conn_versionbitmap_peer c))"
  shows "versions_agreed c"
proof -
  have sm: "vb_small (conn_versionbitmap c) \<or> vb_small (conn_versionbitmap_peer c)"
    using assms(1) ..
  obtain v where "vb_has_ofp_version v (conn_versionbitmap c)" "vb_has_ofp_version v (conn_versionbitmap_peer c)"
    using vb.negotiated_unknown [OF sm] assms(2,3) by auto
  then show ?thesis
    using vb.negotiated_common [OF sm] assms(2,3) by (auto simp: versions_agreed_def)
qed

section \<open>The handlers keep the invariant\<close>

lemma hello_prepare_frame [simp]:
  "conn_state (hello_prepare rt msg c) = conn_state c" "conn_versionbitmap (hello_prepare rt msg c) = conn_versionbitmap c"
  "conn_deleting (hello_prepare rt msg c) = conn_deleting c" "conn_mode (hello_prepare rt msg c) = conn_mode c"
  "conn_ofp_version (hello_prepare rt msg c) = conn_ofp_version c" "rxqueues (hello_prepare rt msg c) = rxqueues c"
  "conn_versionbitmap_peer (hello_prepare rt msg c) = hello_peer_versions msg (conn_versionbitmap_peer c)"
  by (simp_all add: hello_prepare_def Let_def)

text \<open>The states in which a HELLO is processed.\<close>

abbreviation negotiating_states :: "crofconn_state_t set" where
  "negotiating_states \<equiv> {STATE_CONNECT_PENDING, STATE_ACCEPT_PENDING, STATE_NEGOTIATING}"

lemma free_msg_ok: "conn_ok c \<Longrightarrow> conn_ok (free_msg m c)"
  by (rule conn_ok_cong) simp_all

lemma hello_rcvd_ok:
  assumes "conn_ok c" "conn_state c \<in> negotiating_states"
  shows "conn_ok (fst (hello_rcvd pk rt msg c))"
proof -
  let ?c3 = "hello_prepare rt msg c"
  let ?v = "vb_get_highest_ofp_version (vb_and (conn_versionbitmap ?c3) (conn_versionbitmap_peer ?c3))"
  let ?c4 = "?c3\<lparr>conn_ofp_version := ?v\<rparr>"
  have sm: "vb_small (conn_versionbitmap c)"
    using assms(1) by (simp add: conn_ok_def)
  have fail: "conn_ok (fst (run_finite_state_machine rt STATE_NEGOTIATION_FAILED (sock_send m ?c3)))" for m
    by (rule run_fsm_ok_weak) (use sm assms(2) in auto)
  have closing: "conn_ok (fst (run_finite_state_machine rt STATE_CLOSING ?c4))"
    by (rule run_fsm_ok_weak) (use sm assms(2) in auto)
  have agreed: "versions_agreed ?c4" if "?v \<noteq> OFP_VERSION_UNKNOWN"
    using common_agreed [of ?c4] sm that by simp
  have go: "conn_ok (fst (run_finite_state_machine rt new ?c4))"
    if "?v \<noteq> OFP_VERSION_UNKNOWN" "new \<in> {STATE_NEGOTIATING2, STATE_ESTABLISHED}" for new
    by (rule run_fsm_ok_weak) (use sm assms(2) that agreed in auto)
  show ?thesis
    using assms(1) fail closing go
    by (auto simp: hello_rcvd_def Let_def split_beta split: crofconn_mode_t.split intro!: free_msg_ok)
qed

lemma error_rcvd_ok: "conn_ok c \<Longrightarrow> conn_ok (fst (error_rcvd rt msg c))"
proof -
  assume ok: "conn_ok c"
  have drop: "conn_ok (conn_drop_timer rt i c)" for i
    by (rule conn_ok_cong [OF ok]) simp_all
  then show ?thesis
    using ok run_fsm_ok [OF drop, of STATE_NEGOTIATION_FAILED TIMER_ID_WAIT_FOR_HELLO rt]
    by (auto simp: error_rcvd_def Let_def split_beta intro!: free_msg_ok)
qed

lemma features_reply_rcvd_ok:
  assumes "conn_ok c" "conn_state c = STATE_NEGOTIATING2"
  shows "conn_ok (fst (features_reply_rcvd rt msg c))"
proof -
  let ?c1 = "(conn_drop_timer rt TIMER_ID_WAIT_FOR_FEATURES c)
      \<lparr>conn_dpid := msg_dpid msg, conn_auxid := (if OFP13_VERSION \<le> conn_ofp_version c then msg_auxid msg else 0)\<rparr>"
  have ok1: "conn_ok ?c1"
    by (rule conn_ok_cong [OF assms(1)]) simp_all
  have "conn_ok (fst (run_finite_state_machine rt STATE_ESTABLISHED ?c1))"
  proof (cases "conn_deleting c")
    case True
    then show ?thesis
      using ok1 by (simp add: run_finite_state_machine_def)
  next
    case False
    have "versions_agreed ?c1"
      using assms False by (simp add: conn_ok_def versions_agreed_def)
    then show ?thesis
      by (intro run_fsm_ok [OF ok1]) simp
  qed
  then show ?thesis
    using assms(1) by (auto simp: features_reply_rcvd_def Let_def split_beta intro!: free_msg_ok)
qed

lemma check_pending_requests_frame [simp]:
  "conn_state (fst (check_pending_requests rt c)) = conn_state c"
  "conn_versionbitmap (fst (check_pending_requests rt c)) = conn_versionbitmap c"
  "conn_versionbitmap_peer (fst (check_pending_requests rt c)) = conn_versionbitmap_peer c"
  "conn_deleting (fst (check_pending_requests rt c)) = conn_deleting c"
  "conn_ofp_version (fst (check_pending_requests rt c)) = conn_ofp_version c"
  by (auto simp: check_pending_requests_def Let_def split: prod.split list.split)

lemma conn_handle_timeout_ok: "conn_ok c \<Longrightarrow> conn_ok (fst (conn_handle_timeout rt tid c))"
proof -
  assume ok: "conn_ok c"
  have "conn_ok (send_echo_request rt c)" "conn_ok (check_pending_segments rt c)" "conn_ok (fst (check_pending_requests rt c))"
    by (rule conn_ok_cong [OF ok]; simp)+
  moreover have "conn_ok (fst (run_finite_state_machine rt s c))" if "s \<notin> {STATE_NEGOTIATING2, STATE_ESTABLISHED}" for s
    using run_fsm_ok [OF ok] that by blast
  moreover have "conn_ok (fst (echo_request_expired rt c))"
    using run_fsm_ok [OF ok, of STATE_CLOSING rt] run_fsm_ok [of _ STATE_DISCONNECTED rt]
    by (auto simp: echo_request_expired_def conn_handle_closed_def split_beta)
  ultimately show ?thesis
    using ok by (simp add: conn_handle_timeout_def hello_expired_def features_request_expired_def)
qed

lemma conn_sock_event_ok: "conn_ok c \<Longrightarrow> conn_ok (fst (conn_sock_event rt ev c))"
proof -
  assume ok: "conn_ok c"
  have "conn_ok (fst (run_finite_state_machine rt s c))" if "s \<notin> {STATE_NEGOTIATING2, STATE_ESTABLISHED}" for s
    using run_fsm_ok [OF ok] that by blast
  then show ?thesis
    using ok by (cases ev) (simp_all add: conn_handle_closed_def split_beta)
qed

lemma conn_open_ok:
  assumes "conn_ok c" "vb_small vb" "pending \<in> {STATE_CONNECT_PENDING, STATE_ACCEPT_PENDING}"
  shows "conn_ok (fst (conn_open rt sock_open pending vb mode c))"
proof -
  let ?c1 = "c\<lparr>conn_versionbitmap := vb, conn_mode := mode\<rparr>"
  have "conn_ok (fst (run_finite_state_machine rt pending ?c1))"
  proof (cases "conn_state c = pending")
    case True
    then show ?thesis
      using assms by (auto simp: run_finite_state_machine_def conn_ok_def)
  next
    case False
    then show ?thesis
      using assms(2,3) by (intro run_fsm_ok_weak) auto
  qed
  then have "conn_ok ((fst (run_finite_state_machine rt pending ?c1))\<lparr>conn_sock := s\<rparr>)" for s
    by (rule conn_ok_cong) simp_all
  then show ?thesis
    using assms(1) by (auto simp: conn_open_def set_versionbitmap_def split: prod.split)
qed

section \<open>Pending requests\<close>

interpretation ta_order: comparator ctransaction_less
  by unfold_locales (auto simp: ctransaction_less_def ts_less_def split: if_splits)

lemma expired_requests_split:
  "expired_requests now tas = (gone, rest) \<Longrightarrow>
   tas = gone @ rest \<and> (\<forall>ta \<in> set gone. ts_is_expired (ta_tspec ta) now) \<and>
   (rest \<noteq> [] \<longrightarrow> \<not> ts_is_expired (ta_tspec (hd rest)) now)"
  by (induction now tas arbitrary: gone rule: expired_requests.induct) (auto split: if_splits prod.splits)

text \<open>In order of deadlines, what follows a request that is not expired is not expired.\<close>

lemma not_expired_mono:
  "ctransaction_less a b \<Longrightarrow> \<not> ts_is_expired (ta_tspec a) now \<Longrightarrow> \<not> ts_is_expired (ta_tspec b) now"
  by (auto simp: ctransaction_less_def ts_is_expired_def ts_le_def ts_gt_def ts_less_def split: if_splits)

end
