(* ===== verification/Crofconn_Rx.thy ===== *)
theory Crofconn_Rx
  imports Crofconn
begin

text \<open>
  \<open>rofl::crofconn\<close>, reception: \<open>handle_recv\<close>, called by the socket, filters by state and version
  and puts messages into four receive queues; \<open>handle_rx_messages\<close>, run by the worker thread,
  serves them by weighted round robin, reassembles multipart messages and calls the owner.
  \<open>wlen\<close>, \<open>elen\<close> are the lengths of messages and array entries, \<open>pk\<close> packs a message, as in
  \<open>Crofconn_Tx\<close>.  While the owner is called the connection stays as it is.
\<close>

section \<open>Messages from the socket\<close>

text \<open>\<open>crofconn::send_message\<close> without and with a timeout.\<close>

definition conn_send_message ::
  "('e cofmsg \<Rightarrow> nat) \<Rightarrow> ('e \<Rightarrow> nat) \<Rightarrow> conn_rt \<Rightarrow> 'e cofmsg \<Rightarrow> 'e crofconn \<Rightarrow> ('e crofconn \<times> msg_result_t) result" where
  "conn_send_message wlen elen rt msg c =
     (case segment_and_send_message wlen elen (segmentation_threshold c) (rt_addr rt) msg (conn_sock c) of
        Inl e \<Rightarrow> Inl e
      | Inr (s, r) \<Rightarrow> Inr (c\<lparr>conn_sock := s\<rparr>, r))"

definition conn_send_message_ts ::
  "('e cofmsg \<Rightarrow> nat) \<Rightarrow> ('e \<Rightarrow> nat) \<Rightarrow> conn_rt \<Rightarrow> 'e cofmsg \<Rightarrow> timespec \<Rightarrow> 'e crofconn \<Rightarrow>
   ('e crofconn \<times> msg_result_t) result" where
  "conn_send_message_ts wlen elen rt msg ts c =
     (if msg_version msg \<in> {OFP10_VERSION, OFP12_VERSION, OFP13_VERSION} then
        (if msg_type msg = (if msg_version msg = OFP10_VERSION then OFPT10_STATS_REQUEST else OFPT_MULTIPART_REQUEST) then
           (if \<not> is_stats_request (msg_class msg) then Inl ENullPointer
            else conn_send_message wlen elen rt msg
                   (add_pending_request rt (msg_xid msg) ts (msg_type msg) (msg_stats_type msg) c))
         else conn_send_message wlen elen rt msg (add_pending_request rt (msg_xid msg) ts (msg_type msg) 0 c))
      else conn_send_message wlen elen rt msg c)"

text \<open>
  The answer to a message of another version.  It is short, so it is handed to the socket as it is
  (\<open>wlen\<close> of it is below the threshold); an exception of the call would be ignored here.
\<close>

definition reply_bad_version ::
  "('e cofmsg \<Rightarrow> nat) \<Rightarrow> ('e \<Rightarrow> nat) \<Rightarrow> ('e cofmsg \<Rightarrow> byte list) \<Rightarrow> conn_rt \<Rightarrow> 'e cofmsg \<Rightarrow> 'e crofconn \<Rightarrow> 'e crofconn" where
  "reply_bad_version wlen elen pk rt msg c =
     free_msg msg
       (case conn_send_message wlen elen rt
               (cofmsg_error_new (rt_addr rt) (conn_ofp_version c) (msg_xid msg) 1 0 (take 64 (pk msg))) c of
          Inl e \<Rightarrow> c
        | Inr (c1, r) \<Rightarrow> c1)"

text \<open>The receive queue of a message; no queue for an unknown version.\<close>

definition rx_queue_of :: "u8 \<Rightarrow> u8 \<Rightarrow> nat option" where
  "rx_queue_of version type =
     (if version = OFP10_VERSION then
        Some (if type \<in> {10, 13} then QUEUE_PKT
              else if type \<in> {14, 11, 16, 17, 18, 19} then QUEUE_FLOW
              else if type \<in> {0, 2, 3} then QUEUE_OAM else QUEUE_MGMT)
      else if version = OFP12_VERSION \<or> version = OFP13_VERSION then
        Some (if type \<in> {10, 13} then QUEUE_PKT
              else if type \<in> {14, 11, 15, 16, 17, 18, 19, 20, 21} then QUEUE_FLOW
              else if type \<in> {0, 2, 3} then QUEUE_OAM else QUEUE_MGMT)
      else None)"

text \<open>\<open>store(msg, true)\<close>, and reception stops when no capacity is left.\<close>

definition store_rx :: "nat \<Rightarrow> 'e cofmsg \<Rightarrow> 'e crofconn \<Rightarrow> 'e crofconn" where
  "store_rx qid msg c =
     (case crofqueue_store msg True (rxqueues c ! qid) of
        Inl _ \<Rightarrow> c\<lparr>conn_sock := sock_rx_disable (conn_sock c)\<rparr>
      | Inr (q, _) \<Rightarrow>
          (let c1 = c\<lparr>rxqueues := (rxqueues c)[qid := q]\<rparr>
           in if crofqueue_capacity q = 0 then c1\<lparr>conn_sock := sock_rx_disable (conn_sock c1)\<rparr> else c1))"

text \<open>The part after the state filter.\<close>

definition enqueue_rx :: "'e cofmsg \<Rightarrow> 'e crofconn \<Rightarrow> 'e crofconn" where
  "enqueue_rx msg c =
     (let c1 = (if has_pending_request (msg_xid msg) c then drop_pending_request (msg_xid msg) c else c)
      in case rx_queue_of (conn_ofp_version c1) (msg_type msg) of
           None \<Rightarrow> free_msg msg c1
         | Some qid \<Rightarrow>
             (let c2 = store_rx qid msg c1
              in if conn_state c2 = STATE_ESTABLISHED \<and> \<not> rx_thread_working c2 then conn_wakeup c2 else c2))"

definition conn_handle_recv ::
  "('e cofmsg \<Rightarrow> nat) \<Rightarrow> ('e \<Rightarrow> nat) \<Rightarrow> ('e cofmsg \<Rightarrow> byte list) \<Rightarrow> conn_rt \<Rightarrow> 'e cofmsg \<Rightarrow> 'e crofconn \<Rightarrow> 'e conn_res" where
  "conn_handle_recv wlen elen pk rt msg c =
     (if conn_deleting c then (c, [])
      else case conn_state c of
        STATE_CONNECT_PENDING \<Rightarrow> if msg_version msg = OFP_VERSION_UNKNOWN then (reply_bad_version wlen elen pk rt msg c, [])
          else if msg_type msg = 0 then hello_rcvd pk rt msg c
          else if msg_type msg = 1 then error_rcvd rt msg c else (free_msg msg c, [])
      | STATE_ACCEPT_PENDING \<Rightarrow> if msg_version msg = OFP_VERSION_UNKNOWN then (reply_bad_version wlen elen pk rt msg c, [])
          else if msg_type msg = 0 then hello_rcvd pk rt msg c
          else if msg_type msg = 1 then error_rcvd rt msg c else (free_msg msg c, [])
      | STATE_NEGOTIATING \<Rightarrow> if msg_version msg = OFP_VERSION_UNKNOWN then (reply_bad_version wlen elen pk rt msg c, [])
          else if msg_type msg = 0 then hello_rcvd pk rt msg c
          else if msg_type msg = 1 then error_rcvd rt msg c else (free_msg msg c, [])
      | STATE_NEGOTIATING2 \<Rightarrow>
          if msg_version msg \<noteq> conn_ofp_version c then (reply_bad_version wlen elen pk rt msg c, [])
          else if msg_type msg = 6 then features_reply_rcvd rt msg c
          else if msg_type msg = 1 then error_rcvd rt msg c
          else if msg_type msg = 2 then (echo_request_rcvd rt msg c, [])
          else (enqueue_rx msg c, [])
      | STATE_ESTABLISHED \<Rightarrow>
          if msg_version msg \<noteq> conn_ofp_version c then (reply_bad_version wlen elen pk rt msg c, [])
          else if msg_type msg = 2 then (echo_request_rcvd rt msg c, [])
          else if msg_type msg = 3 then (echo_reply_rcvd rt msg c, [])
          else (enqueue_rx msg c, [])
      | _ \<Rightarrow> (free_msg msg c, []))"

section \<open>Reassembly\<close>

text \<open>The part of one direction: \<open>is_stats\<close> is the cast to a multipart request or reply.\<close>

definition rx_multipart ::
  "(msg_class \<Rightarrow> bool) \<Rightarrow> conn_rt \<Rightarrow> 'e cofmsg \<Rightarrow> 'e crofconn \<Rightarrow> 'e crofconn \<times> 'e conn_event list \<times> rofl_exn option" where
  "rx_multipart is_stats rt msg c =
     (let xid = msg_xid msg;
          merge = (\<lambda>c1. case map_of (pending_segments c1) xid of
                     None \<Rightarrow> Inl ERofConnNotFound
                   | Some seg \<Rightarrow> (case store_and_merge_msg (rt_addr rt) msg seg of
                                    Inl e \<Rightarrow> Inl e
                                  | Inr seg' \<Rightarrow> Inr (c1\<lparr>pending_segments := map_put xid seg' (pending_segments c1)\<rparr>)))
      in if \<not> is_stats (msg_class msg) then (free_msg msg c, [], None)
         else if msg_stats_flags msg AND OFPMPF_REQ_MORE \<noteq> 0 then
           (case set_pending_segment rt xid (msg_type msg) (msg_stats_type msg) c of
              Inl e \<Rightarrow> (c, [], Some e)
            | Inr c1 \<Rightarrow> (case merge c1 of
                           Inl e \<Rightarrow> (c1, [], Some e)
                         | Inr c2 \<Rightarrow> (free_msg msg c2, [], None)))
         else if has_pending_segment xid c then
           (case set_pending_segment rt xid (msg_type msg) (msg_stats_type msg) c of
              Inl e \<Rightarrow> (c, [], Some e)
            | Inr c1 \<Rightarrow>
                (case merge c1 of
                   Inl e \<Rightarrow> (c1, [], Some e)
                 | Inr c2 \<Rightarrow>
                     (case set_pending_segment_xid rt xid c2 of
                        Inl e \<Rightarrow> (c2, [], Some e)
                      | Inr c3 \<Rightarrow>
                          (case map_of (pending_segments c3) xid of
                             None \<Rightarrow> (c3, [], Some ERofConnNotFound)
                           | Some seg \<Rightarrow>
                               (let c4 = free_msg msg (fst (drop_pending_segment xid c3))
                                in case snd (retrieve_and_detach_msg seg) of
                                     None \<Rightarrow> (c4, [], Some ENullPointer)
                                   | Some m \<Rightarrow> (c4, [CE_recv m], None))))))
         else (c, [CE_recv msg], None))"

definition handle_rx_multipart_message ::
  "conn_rt \<Rightarrow> 'e cofmsg \<Rightarrow> 'e crofconn \<Rightarrow> 'e crofconn \<times> 'e conn_event list \<times> rofl_exn option" where
  "handle_rx_multipart_message rt msg c =
     (if msg_type msg = OFPT_MULTIPART_REQUEST then rx_multipart is_stats_request rt msg c
      else if msg_type msg = OFPT_MULTIPART_REPLY then rx_multipart is_stats_reply rt msg c
      else (c, [], None))"

section \<open>The worker\<close>

text \<open>One message taken from a queue.\<close>

definition rx_deliver ::
  "conn_rt \<Rightarrow> 'e cofmsg \<Rightarrow> 'e crofconn \<Rightarrow> 'e crofconn \<times> 'e conn_event list \<times> rofl_exn option" where
  "rx_deliver rt msg c =
     (if conn_ofp_version c = OFP10_VERSION \<or> conn_ofp_version c = OFP12_VERSION then (c, [CE_recv msg], None)
      else if msg_type msg = OFPT_MULTIPART_REQUEST \<or> msg_type msg = OFPT_MULTIPART_REPLY
      then handle_rx_multipart_message rt msg c
      else (c, [CE_recv msg], None))"

text \<open>
  How a loop ends: it goes on, the method returns, or an exception flies.  \<open>rx_slots\<close> is the loop
  over the weight of a queue, \<open>rx_queues\<close> the loop over the queues.
\<close>

datatype rxc_ctl = RXC_next | RXC_return | RXC_throw rofl_exn

fun rx_slots :: "conn_rt \<Rightarrow> nat \<Rightarrow> nat \<Rightarrow> 'e crofconn \<Rightarrow> rxc_ctl \<times> 'e crofconn \<times> 'e conn_event list" where
  "rx_slots rt qid 0 c = (RXC_next, c, [])"
| "rx_slots rt qid (Suc n) c =
     (if conn_state c \<noteq> STATE_ESTABLISHED then (RXC_return, c\<lparr>rx_thread_working := False\<rparr>, [])
      else (case crofqueue_retrieve (rxqueues c ! qid) of
              (_, None) \<Rightarrow> (RXC_next, c, [])
            | (q, Some msg) \<Rightarrow>
                (case rx_deliver rt msg (c\<lparr>rxqueues := (rxqueues c)[qid := q]\<rparr>) of
                   (c1, evs, Some e) \<Rightarrow> (RXC_throw e, c1, evs)
                 | (c1, evs, None) \<Rightarrow>
                     (case rx_slots rt qid n c1 of (ctl, c2, evs2) \<Rightarrow> (ctl, c2, evs @ evs2)))))"

fun rx_queues :: "conn_rt \<Rightarrow> nat list \<Rightarrow> 'e crofconn \<Rightarrow> rxc_ctl \<times> 'e crofconn \<times> 'e conn_event list" where
  "rx_queues rt [] c = (RXC_next, c, [])"
| "rx_queues rt (qid # qids) c =
     (if conn_state c \<noteq> STATE_ESTABLISHED then (RXC_return, c\<lparr>rx_thread_working := False\<rparr>, [])
      else if crofqueue_empty (rxqueues c ! qid) then rx_queues rt qids c
      else (case rx_slots rt qid (rxweights c ! qid) c of
              (RXC_next, c1, evs) \<Rightarrow>
                (let c2 = (if \<not> crofqueue_empty (rxqueues c1 ! qid) then conn_wakeup c1 else c1)
                 in case rx_queues rt qids c2 of (ctl, c3, evs2) \<Rightarrow> (ctl, c3, evs @ evs2))
            | (ctl, c1, evs) \<Rightarrow> (ctl, c1, evs)))"

text \<open>
  The loop \<open>do ... while (keep_running--)\<close>.  \<open>eRofConnNotFound\<close> stops it, other exceptions
  derived from \<open>std::runtime_error\<close> only end the turn; the rest escapes.  The owner is passive: its
  callbacks are events that return normally and do not call back into the connection; an owner that
  closes or changes the connection from a callback, or throws, is outside the model.
\<close>

fun rx_turns :: "conn_rt \<Rightarrow> nat \<Rightarrow> 'e crofconn \<Rightarrow> rxc_ctl \<times> 'e crofconn \<times> 'e conn_event list" where
  "rx_turns rt 0 c = (RXC_next, c, [])"
| "rx_turns rt (Suc n) c =
     (case rx_queues rt [0, 1, 2, 3] c of
        (RXC_return, c1, evs) \<Rightarrow> (RXC_return, c1, evs)
      | (RXC_throw e, c1, evs) \<Rightarrow>
          if e = ERofConnNotFound then (RXC_next, c1, evs)
          else if e \<in> {EBadCast, EOutOfRange, ENullPointer, EOutOfBoundsRead} then (RXC_throw e, c1, evs)
          else (case rx_turns rt n c1 of (ctl, c2, evs2) \<Rightarrow> (ctl, c2, evs @ evs2))
      | (RXC_next, c1, evs) \<Rightarrow>
          if conn_state c1 \<noteq> STATE_ESTABLISHED
          then (RXC_return, c1\<lparr>rx_thread_working := False, rx_thread_scheduled := True\<rparr>, evs)
          else (case rx_turns rt n c1 of (ctl, c2, evs2) \<Rightarrow> (ctl, c2, evs @ evs2)))"

definition handle_rx_messages :: "conn_rt \<Rightarrow> 'e crofconn \<Rightarrow> 'e crofconn \<times> 'e conn_event list \<times> rofl_exn option" where
  "handle_rx_messages rt c =
     (let c1 = conn_drop_timer rt TIMER_ID_NEED_LIFE_CHECK (c\<lparr>rx_thread_working := True, rx_thread_scheduled := False\<rparr>)
      in case rx_turns rt 2 c1 of
           (RXC_return, c2, evs) \<Rightarrow> (c2, evs, None)
         | (RXC_throw e, c2, evs) \<Rightarrow> (c2, evs, Some e)
         | (RXC_next, c2, evs) \<Rightarrow>
             (let c3 = conn_start_timer rt TIMER_ID_NEED_LIFE_CHECK (timeout_lifecheck c2) (c2\<lparr>rx_thread_working := False\<rparr>);
                  c4 = (if rx_disabled (conn_sock c3) then c3\<lparr>conn_sock := sock_rx_enable (conn_sock c3)\<rparr> else c3)
              in (c4, evs, None)))"

definition conn_handle_wakeup :: "conn_rt \<Rightarrow> 'e crofconn \<Rightarrow> 'e crofconn \<times> 'e conn_event list \<times> rofl_exn option" where
  "conn_handle_wakeup rt c = (if conn_deleting c then (c, [], None) else handle_rx_messages rt c)"

end
