(* ===== verification/Crofconn_Negotiation.thy ===== *)
theory Crofconn_Negotiation
  imports Crofconn
begin

text \<open>
  What a connection promises about version negotiation (\<open>crofconn::hello_rcvd\<close>) and about pending
  requests (\<open>add_pending_request\<close>, \<open>check_pending_requests\<close>).
\<close>

section \<open>The versions both sides support\<close>

definition common_versions :: "'e cofmsg \<Rightarrow> 'e crofconn \<Rightarrow> u8 set" where
  "common_versions msg c = {v. vb_has_ofp_version v (conn_versionbitmap c) \<and>
     vb_has_ofp_version v (hello_peer_versions msg (conn_versionbitmap_peer c))}"

definition negotiated_version :: "'e cofmsg \<Rightarrow> 'e crofconn \<Rightarrow> u8" where
  "negotiated_version msg c =
     vb_get_highest_ofp_version (vb_and (conn_versionbitmap c) (hello_peer_versions msg (conn_versionbitmap_peer c)))"

lemma negotiated_version_Max:
  assumes "vb_small (conn_versionbitmap c)" "common_versions msg c \<noteq> {}"
  shows "negotiated_version msg c = Max (common_versions msg c)"
proof -
  have sm: "vb_small (conn_versionbitmap c) \<or> vb_small (hello_peer_versions msg (conn_versionbitmap_peer c))"
    using assms(1) ..
  obtain v where "v \<in> common_versions msg c"
    using assms(2) by blast
  then have "negotiated_version msg c \<in> common_versions msg c"
    using vb.negotiated_common(1,2) [OF sm] by (auto simp: common_versions_def negotiated_version_def)
  moreover have "w \<le> negotiated_version msg c" if "w \<in> common_versions msg c" for w
    using vb.negotiated_common(3) [OF sm] that by (simp add: common_versions_def negotiated_version_def)
  ultimately show ?thesis
    by (intro Max_eqI [symmetric]) simp_all
qed

lemma negotiated_version_unknown:
  assumes "vb_small (conn_versionbitmap c)"
  shows "negotiated_version msg c = OFP_VERSION_UNKNOWN \<longleftrightarrow> common_versions msg c \<subseteq> {OFP_VERSION_UNKNOWN}"
proof (cases "common_versions msg c = {}")
  case True
  then have "negotiated_version msg c = OFP_VERSION_UNKNOWN"
    unfolding negotiated_version_def using assms
    by (intro vb.negotiated_unknown) (auto simp: common_versions_def)
  then show ?thesis
    using True by simp
next
  case False
  have in_common: "Max (common_versions msg c) \<in> common_versions msg c"
    using False by (intro Max_in) simp_all
  have le_Max: "v \<le> Max (common_versions msg c)" if "v \<in> common_versions msg c" for v
    using that by (intro Max_ge) simp_all
  have "Max (common_versions msg c) = 0 \<longleftrightarrow> common_versions msg c \<subseteq> {0}"
  proof
    assume "Max (common_versions msg c) = 0"
    with le_Max show "common_versions msg c \<subseteq> {0}"
      by fastforce
  next
    assume "common_versions msg c \<subseteq> {0}"
    with in_common show "Max (common_versions msg c) = 0"
      by blast
  qed
  then show ?thesis
    using negotiated_version_Max [OF assms False] by simp
qed

lemma run_fsm_negotiation_failed:
  assumes "\<not> conn_deleting c" "conn_state c \<noteq> STATE_NEGOTIATION_FAILED"
  shows "snd (run_finite_state_machine rt STATE_NEGOTIATION_FAILED c) = [CE_negotiation_failed, CE_closed]"
    "conn_state (fst (run_finite_state_machine rt STATE_NEGOTIATION_FAILED c)) = STATE_DISCONNECTED"
    "conn_ofp_version (fst (run_finite_state_machine rt STATE_NEGOTIATION_FAILED c)) = OFP_VERSION_UNKNOWN"
  using assms by (simp_all add: run_finite_state_machine_def)

lemma run_fsm_negotiated:
  assumes "\<not> conn_deleting c" "conn_state c \<noteq> s" "s \<in> {STATE_NEGOTIATING2, STATE_ESTABLISHED}"
  shows "snd (run_finite_state_machine rt s c) = (if s = STATE_ESTABLISHED then [CE_established (conn_ofp_version c)] else [])"
    "conn_state (fst (run_finite_state_machine rt s c)) = s"
    "conn_ofp_version (fst (run_finite_state_machine rt s c)) = conn_ofp_version c"
  using assms by (auto simp: run_finite_state_machine_def send_features_request_def Let_def)

lemma hello_negotiates_exact:
  assumes "\<not> conn_deleting c" and "conn_state c \<in> negotiating_states" and "msg_class msg = Cofmsg_hello"
    and "vb_small (conn_versionbitmap c)" and "conn_mode c \<noteq> CONN_MODE_UNKNOWN"
    and "hello_rcvd pk rt msg c = (c', evs)"
  shows "if common_versions msg c \<subseteq> {OFP_VERSION_UNKNOWN}
    then conn_state c' = STATE_DISCONNECTED \<and> conn_ofp_version c' = OFP_VERSION_UNKNOWN \<and>
         evs = [CE_negotiation_failed, CE_closed] \<and> msg_ptr msg \<in> set (conn_freed c')
    else conn_ofp_version c' = Max (common_versions msg c) \<and> msg_ptr msg \<in> set (conn_freed c') \<and>
         (if conn_mode c = MODE_CONTROLLER \<and> OFP13_VERSION \<le> Max (common_versions msg c)
          then conn_state c' = STATE_NEGOTIATING2 \<and> evs = []
          else conn_state c' = STATE_ESTABLISHED \<and> evs = [CE_established (Max (common_versions msg c))])"
proof -
  have v: "vb_get_highest_ofp_version (vb_and (conn_versionbitmap c) (hello_peer_versions msg (conn_versionbitmap_peer c)))
      = negotiated_version msg c"
    by (simp add: negotiated_version_def)
  have freed: "msg_ptr msg \<in> set (conn_freed (free_msg msg d))" for d
    by (simp add: free_msg_def)
  show ?thesis
  proof (cases "common_versions msg c \<subseteq> {OFP_VERSION_UNKNOWN}")
    case True
    then have "negotiated_version msg c = OFP_VERSION_UNKNOWN"
      using negotiated_version_unknown [OF assms(4)] by blast
    with True assms show ?thesis
      by (auto simp: hello_rcvd_def Let_def split_beta v run_fsm_negotiation_failed freed)
  next
    case False
    then have "negotiated_version msg c = Max (common_versions msg c)" "negotiated_version msg c \<noteq> OFP_VERSION_UNKNOWN"
      using negotiated_version_unknown [OF assms(4), of msg] negotiated_version_Max [OF assms(4), of msg] by auto
    with False assms show ?thesis
      by (cases "conn_mode c") (auto simp: hello_rcvd_def Let_def split_beta v run_fsm_negotiated freed)
  qed
qed

text \<open>
  C6: version negotiation as the two sides see it.  A HELLO that arrives while the version is open
  picks the greatest version that both bitmaps have; a datapath, and a controller below OpenFlow
  1.3, is then established, a controller from 1.3 on asks for the features first.  If the sides
  share no version the connection ends disconnected and the owner hears of the failure and of the
  closing, in this order.  The HELLO is deleted in all cases.
\<close>

theorem hello_negotiates:
  assumes "\<not> conn_deleting c" and "conn_state c \<in> negotiating_states" and "msg_class msg = Cofmsg_hello"
    and "vb_small (conn_versionbitmap c)" and "conn_mode c \<noteq> CONN_MODE_UNKNOWN"
    and "hello_rcvd pk rt msg c = (c', evs)"
  shows "if common_versions msg c \<subseteq> {OFP_VERSION_UNKNOWN}
    then conn_state c' = STATE_DISCONNECTED \<and> conn_ofp_version c' = OFP_VERSION_UNKNOWN \<and>
         evs = [CE_negotiation_failed, CE_closed] \<and> msg_ptr msg \<in> set (conn_freed c')
    else conn_ofp_version c' = Max (common_versions msg c) \<and> msg_ptr msg \<in> set (conn_freed c') \<and>
         (if conn_mode c = MODE_CONTROLLER \<and> OFP13_VERSION \<le> Max (common_versions msg c)
          then conn_state c' = STATE_NEGOTIATING2 \<and> evs = []
          else conn_state c' = STATE_ESTABLISHED \<and> evs = [CE_established (Max (common_versions msg c))])"
  by (rule hello_negotiates_exact [OF assms])

definition conn_example :: "string crofconn" where
  "conn_example = (crofconn_new 1 idle_thread (crofsock_new 9 idle_thread idle_thread) 0 0 0)
     \<lparr>conn_versionbitmap := vb_add_ofp_version 4 (vb_add_ofp_version 1 vb_new), conn_mode := MODE_CONTROLLER,
      conn_state := STATE_NEGOTIATING\<rparr>"

definition rt_example :: conn_rt where
  "rt_example = \<lparr>rt_now = \<lparr>tv_sec = 10, tv_nsec = 0\<rparr>, rt_self = 0, rt_addr = 77\<rparr>"

text \<open>A HELLO of OpenFlow 1.0, which has no elements.\<close>

definition hello10 :: "string cofmsg" where
  "hello10 = cofmsg_new 3 Cofmsg_hello OFP10_VERSION OFPT_HELLO 5"

lemma conn_example_simps [simp]:
  "conn_versionbitmap conn_example = vb_add_ofp_version 4 (vb_add_ofp_version 1 vb_new)"
  "conn_mode conn_example = MODE_CONTROLLER" "conn_state conn_example = STATE_NEGOTIATING"
  "\<not> conn_deleting conn_example" "conn_versionbitmap_peer conn_example = vb_new"
  "vb_small (vb_add_ofp_version 4 (vb_add_ofp_version 1 vb_new))"
  by (simp_all add: conn_example_def crofconn_new_def vb_small_def length_vb_add) (simp_all add: vb_new_def length_vb_add)

lemma hello10_simps [simp]: "msg_class hello10 = Cofmsg_hello" "msg_version hello10 = OFP10_VERSION"
  by (simp_all add: hello10_def cofmsg_new_def)

theorem hello_negotiates_witness:
  "conn_ofp_version (fst (hello_rcvd (\<lambda>_. []) rt_example hello10 conn_example)) = 1 \<and>
   conn_state (fst (hello_rcvd (\<lambda>_. []) rt_example hello10 conn_example)) = STATE_ESTABLISHED \<and>
   snd (hello_rcvd (\<lambda>_. []) rt_example hello10 conn_example) = [CE_established 1]"
proof -
  have "common_versions hello10 conn_example = {1}"
    by (auto simp: common_versions_def hello_peer_versions_def vb_has_add ofp_constants)
  then show ?thesis
    using hello_negotiates [of conn_example hello10 "\<lambda>_. []" rt_example] by (simp add: ofp_constants prod_eq_iff word_le_nat_alt)
qed

text \<open>
  What an earlier peer offered survives the end of the connection: \<open>clear()\<close> on the peer's
  bitmap keeps its versions.  A connection that was established with some version, is closed and
  opened again with the same versions, then negotiates at least that version with a peer whose
  HELLO says OpenFlow 1.0 only.
\<close>

theorem stale_versions_negotiated:
  assumes "conn_ok c" and "\<not> conn_deleting c" and "conn_state c = STATE_ESTABLISHED"
    and "mode \<noteq> CONN_MODE_UNKNOWN" and "msg_class msg = Cofmsg_hello" and "msg_version msg = OFP10_VERSION"
    and "c1 = fst (crofconn_close rt c)"
    and "c2 = fst (conn_tcp_connect rt sock_open (conn_versionbitmap c) mode c1)"
    and "c3 = fst (conn_sock_event rt Ev_tcp_connected c2)"
  shows "conn_ofp_version c \<le> conn_ofp_version (fst (hello_rcvd pk rt msg c3))"
proof -
  let ?v = "conn_ofp_version c"
  have ok: "vb_small (conn_versionbitmap c)" "versions_agreed c"
    using assms(1-3) by (simp_all add: conn_ok_def)
  then have v: "?v \<noteq> 0" "vb_has_ofp_version ?v (conn_versionbitmap c)" "vb_has_ofp_version ?v (conn_versionbitmap_peer c)"
    by (simp_all add: versions_agreed_def)
  have "vb_get_highest_ofp_version (conn_versionbitmap c) \<noteq> OFP_VERSION_UNKNOWN"
    using vb.highest_ge [OF ok(1) v(2)] v(1) by auto
  then have c1: "set_versionbitmap (conn_versionbitmap c) c1 = Inr (c1\<lparr>conn_versionbitmap := conn_versionbitmap c\<rparr>)"
    by (simp add: set_versionbitmap_def)
  have s1: "conn_state c1 = STATE_DISCONNECTED" "\<not> conn_deleting c1"
    using assms(2,3,7) by (simp_all add: crofconn_close_def run_fsm_state fsm_target_def)
  have p1: "vb_has_ofp_version ?v (conn_versionbitmap_peer c1)"
    using v(3) assms(7) by (simp add: crofconn_close_def)
  have s2: "conn_state c2 = STATE_CONNECT_PENDING" "\<not> conn_deleting c2" "conn_mode c2 = mode"
      "conn_versionbitmap c2 = conn_versionbitmap c" "vb_has_ofp_version ?v (conn_versionbitmap_peer c2)"
    using assms(8) c1 s1 p1
    by (auto simp: conn_tcp_connect_def conn_open_def run_finite_state_machine_def fsm_pending_def clear_rxqueue_copies_def
      split: prod.splits)
  have s3: "conn_state c3 = STATE_NEGOTIATING" "\<not> conn_deleting c3" "conn_mode c3 = mode"
      "conn_versionbitmap c3 = conn_versionbitmap c" "vb_has_ofp_version ?v (conn_versionbitmap_peer c3)"
    using assms(9) s2 by (simp_all add: run_finite_state_machine_def Let_def)
  then have m: "?v \<in> common_versions msg c3"
    using v(2) assms(6) by (simp add: common_versions_def hello_peer_versions_def vb_has_add)
  then have "\<not> common_versions msg c3 \<subseteq> {OFP_VERSION_UNKNOWN}" "?v \<le> Max (common_versions msg c3)"
    using v(1) by (auto intro: Max_ge)
  then show ?thesis
    using hello_negotiates_exact [of c3 msg pk rt] s3 assms(4,5) ok(1) by (auto simp: prod_eq_iff)
qed

definition conn_established :: "string crofconn" where
  "conn_established = conn_example\<lparr>conn_state := STATE_ESTABLISHED, conn_ofp_version := 4,
     conn_versionbitmap_peer := vb_add_ofp_version 4 vb_new\<rparr>"

lemma conn_established_simps [simp]:
  "conn_ok conn_established" "\<not> conn_deleting conn_established" "conn_state conn_established = STATE_ESTABLISHED"
  "conn_ofp_version conn_established = 4"
  by (simp_all add: conn_established_def conn_ok_def versions_agreed_def vb_has_add fsm_target_def)

theorem stale_versions_negotiated_example:
  "4 \<le> conn_ofp_version (fst (hello_rcvd (\<lambda>_. []) rt_example hello10
     (fst (conn_sock_event rt_example Ev_tcp_connected
       (fst (conn_tcp_connect rt_example (\<lambda>s. (s, [], None)) (conn_versionbitmap conn_established) MODE_CONTROLLER
         (fst (crofconn_close rt_example conn_established))))))))"
  using stale_versions_negotiated [OF _ _ _ _ _ _ refl refl refl,
      of conn_established MODE_CONTROLLER hello10 "\<lambda>_. []" rt_example "\<lambda>s. (s, [], None)"] by simp

section \<open>Pending requests\<close>

text \<open>The set of pending requests is kept in order of deadlines.\<close>

definition requests_ok :: "'e crofconn \<Rightarrow> bool" where
  "requests_ok c \<longleftrightarrow> sorted_wrt ctransaction_less (pending_requests c)"

lemma pending_requests_add:
  "pending_requests (add_pending_request rt xid ts type sub c) =
   fst (set_emplace ctransaction_less \<lparr>ta_xid = xid, ta_tspec = ts, ta_type = type, ta_subtype = sub\<rparr> (pending_requests c))"
  by (auto simp: add_pending_request_def Let_def split: list.split)

text \<open>
  A request with a timeout is kept in order of deadlines, unless another pending request has
  exactly the same deadline: then it is not stored at all, and its timeout will never be reported.
\<close>

theorem add_pending_request_spec:
  assumes "requests_ok c" and "c' = add_pending_request rt xid ts type sub c"
  shows "requests_ok c' \<and> set (pending_requests c') =
    (if \<exists>ta \<in> set (pending_requests c). \<not> ts_less (ta_tspec ta) ts \<and> \<not> ts_less ts (ta_tspec ta)
     then set (pending_requests c)
     else insert \<lparr>ta_xid = xid, ta_tspec = ts, ta_type = type, ta_subtype = sub\<rparr> (set (pending_requests c)))"
proof -
  let ?ta = "\<lparr>ta_xid = xid, ta_tspec = ts, ta_type = type, ta_subtype = sub\<rparr>"
  have "ta_order.eqv ?ta ta \<longleftrightarrow> \<not> ts_less (ta_tspec ta) ts \<and> \<not> ts_less ts (ta_tspec ta)" for ta
    by (auto simp: ta_order.eqv_def ctransaction_less_def)
  then show ?thesis
    using assms ta_order.set_emplace_sorted ta_order.set_emplace_mem [of "pending_requests c" ?ta]
    by (simp add: requests_ok_def pending_requests_add)
qed

lemma check_pending_requests_exact:
  assumes "requests_ok c" and "check_pending_requests rt c = (c', evs)"
  shows "requests_ok c' \<and>
    pending_requests c' = filter (\<lambda>ta. \<not> ts_is_expired (ta_tspec ta) (rt_now rt)) (pending_requests c) \<and>
    evs = map (\<lambda>ta. CE_transaction_timeout (ta_xid ta) (ta_type ta) (ta_subtype ta))
            (filter (\<lambda>ta. ts_is_expired (ta_tspec ta) (rt_now rt)) (pending_requests c))"
proof -
  obtain gone rest where gr: "expired_requests (rt_now rt) (pending_requests c) = (gone, rest)"
    by fastforce
  then have p: "pending_requests c = gone @ rest" "\<forall>ta \<in> set gone. ts_is_expired (ta_tspec ta) (rt_now rt)"
      "rest \<noteq> [] \<longrightarrow> \<not> ts_is_expired (ta_tspec (hd rest)) (rt_now rt)"
    using expired_requests_split by blast+
  have so: "sorted_wrt ctransaction_less rest"
    using assms(1) p(1) by (simp add: requests_ok_def sorted_wrt_append)
  have "\<not> ts_is_expired (ta_tspec ta) (rt_now rt)" if "ta \<in> set rest" for ta
    using that so p(3) not_expired_mono by (cases rest) auto
  then have "filter (\<lambda>ta. \<not> ts_is_expired (ta_tspec ta) (rt_now rt)) (pending_requests c) = rest"
      "filter (\<lambda>ta. ts_is_expired (ta_tspec ta) (rt_now rt)) (pending_requests c) = gone"
    using p(2) by (simp_all add: p(1))
  then show ?thesis
    using assms(2) so gr by (auto simp: check_pending_requests_def requests_ok_def Let_def split: list.splits)
qed

lemma check_pending_requests_ok: "requests_ok c \<Longrightarrow> requests_ok (fst (check_pending_requests rt c))"
  using check_pending_requests_exact [OF _ surjective_pairing] by blast

text \<open>
  When the request timer fires, exactly the expired requests are reported to the owner, in
  order of their deadlines, each once, and exactly the others stay.
\<close>

theorem check_pending_requests_spec:
  assumes "requests_ok c" and "check_pending_requests rt c = (c', evs)"
  shows "requests_ok c' \<and>
    pending_requests c' = filter (\<lambda>ta. \<not> ts_is_expired (ta_tspec ta) (rt_now rt)) (pending_requests c) \<and>
    evs = map (\<lambda>ta. CE_transaction_timeout (ta_xid ta) (ta_type ta) (ta_subtype ta))
            (filter (\<lambda>ta. ts_is_expired (ta_tspec ta) (rt_now rt)) (pending_requests c))"
  by (rule check_pending_requests_exact [OF assms])

definition requests_example :: "string crofconn" where
  "requests_example = conn_example\<lparr>pending_requests :=
     [\<lparr>ta_xid = 1, ta_tspec = \<lparr>tv_sec = 5, tv_nsec = 0\<rparr>, ta_type = 5, ta_subtype = 0\<rparr>,
      \<lparr>ta_xid = 2, ta_tspec = \<lparr>tv_sec = 20, tv_nsec = 0\<rparr>, ta_type = 5, ta_subtype = 0\<rparr>]\<rparr>"

lemma requests_example_ok: "requests_ok requests_example"
  by (simp add: requests_example_def requests_ok_def ctransaction_less_def ts_less_def)

theorem add_pending_request_spec_example:
  "set (pending_requests (add_pending_request rt_example 9 \<lparr>tv_sec = 20, tv_nsec = 0\<rparr> 5 0 requests_example)) =
   set (pending_requests requests_example)"
  using add_pending_request_spec [OF requests_example_ok refl, of rt_example 9 "\<lparr>tv_sec = 20, tv_nsec = 0\<rparr>" 5 0]
  by (simp add: requests_example_def ts_less_def)

theorem check_pending_requests_spec_example:
  "map ta_xid (pending_requests (fst (check_pending_requests rt_example requests_example))) = [2] \<and>
   snd (check_pending_requests rt_example requests_example) = [CE_transaction_timeout 1 5 0]"
  using check_pending_requests_spec [OF requests_example_ok surjective_pairing, of rt_example]
  by (simp add: requests_example_def rt_example_def ts_is_expired_def ts_le_def ts_less_def)

end
