(* ===== verification/Crofconn_Delivery.thy ===== *)
theory Crofconn_Delivery
  imports Crofconn_Rx Crofconn_Negotiation
begin

text \<open>
  What the dispatcher of received messages (\<open>crofconn::handle_rx_messages\<close>) promises: which
  messages a run delivers and in which order, that nothing is stranded, and the invariant of a
  connection over all its entry points, as a transition system.
\<close>

section \<open>One run of the dispatcher\<close>

text \<open>Messages that are handed to the owner as they are.\<close>

definition plain_rx :: "u8 \<Rightarrow> 'e cofmsg \<Rightarrow> bool" where
  "plain_rx v msg \<longleftrightarrow> v = OFP10_VERSION \<or> v = OFP12_VERSION \<or>
     (msg_type msg \<noteq> OFPT_MULTIPART_REQUEST \<and> msg_type msg \<noteq> OFPT_MULTIPART_REPLY)"

lemma rx_deliver_plain: "plain_rx (conn_ofp_version c) msg \<Longrightarrow> rx_deliver rt msg c = (c, [CE_recv msg], None)"
  by (auto simp: rx_deliver_def plain_rx_def)

text \<open>The reference: \<open>n\<close> messages leave the front of a queue.\<close>

definition serve_queue :: "nat \<Rightarrow> 'm crofqueue \<Rightarrow> 'm crofqueue" where
  "serve_queue n q = q\<lparr>queue := drop n (queue q)\<rparr>"

lemma queue_serve [simp]: "queue (serve_queue n q) = drop n (queue q)"
  by (simp add: serve_queue_def)

lemma serve_queue_id: "queue q = [] \<Longrightarrow> serve_queue n q = q" "serve_queue 0 q = q"
  by (simp_all add: serve_queue_def)

lemma rx_slots_plain:
  assumes "conn_state c = STATE_ESTABLISHED" "qid < length (rxqueues c)"
    "\<forall>msg \<in> set (queue (rxqueues c ! qid)). plain_rx (conn_ofp_version c) msg"
  shows "rx_slots rt qid n c =
    (RXC_next, c\<lparr>rxqueues := (rxqueues c)[qid := serve_queue n (rxqueues c ! qid)]\<rparr>,
     map CE_recv (take n (queue (rxqueues c ! qid))))"
  using assms
proof (induction n arbitrary: c)
  case 0
  then show ?case
    by (simp add: serve_queue_id)
next
  case (Suc n)
  show ?case
  proof (cases "queue (rxqueues c ! qid)")
    case Nil
    with Suc.prems show ?thesis
      by (simp add: crofqueue_retrieve_def serve_queue_id)
  next
    case (Cons msg rest)
    let ?c = "c\<lparr>rxqueues := (rxqueues c)[qid := (rxqueues c ! qid)\<lparr>queue := rest\<rparr>]\<rparr>"
    have "rx_slots rt qid n ?c = (RXC_next, ?c\<lparr>rxqueues := (rxqueues ?c)[qid := serve_queue n (rxqueues ?c ! qid)]\<rparr>,
       map CE_recv (take n (queue (rxqueues ?c ! qid))))"
      using Suc.prems Cons by (intro Suc.IH) auto
    moreover have "serve_queue n ((rxqueues c ! qid)\<lparr>queue := rest\<rparr>) = serve_queue (Suc n) (rxqueues c ! qid)"
      by (simp add: serve_queue_def Cons)
    ultimately show ?thesis
      using Suc.prems Cons by (simp add: crofqueue_retrieve_def rx_deliver_plain)
  qed
qed

text \<open>What stays of a connection while queues are served.\<close>

definition same_conn :: "'e crofconn \<Rightarrow> 'e crofconn \<Rightarrow> bool" where
  "same_conn c c' \<longleftrightarrow> conn_state c' = conn_state c \<and> conn_ofp_version c' = conn_ofp_version c \<and>
     rxweights c' = rxweights c \<and> conn_this c' = conn_this c \<and> length (rxqueues c') = length (rxqueues c) \<and>
     set (th_wakeups (conn_thread c)) \<subseteq> set (th_wakeups (conn_thread c')) \<and>
     th_state (conn_thread c') = th_state (conn_thread c)"

lemma set_emplace_nat: "set (fst (set_emplace (<) e xs)) = insert e (set xs)" for xs :: "nat list"
proof (induction xs)
  case (Cons x xs)
  then show ?case
    by (cases e x rule: linorder_cases) (simp_all add: split_beta insert_commute)
qed simp

lemma wakeups_grow: "set (th_wakeups th) \<subseteq> set (th_wakeups (cthread_wakeup (Some e) th))"
  by (cases "th_state th") (auto simp: cthread_wakeup_def cthread_wakeup_sys_def set_emplace_nat)

lemma wakeup_in: "th_state th = TH_STATE_RUNNING \<Longrightarrow> e \<in> set (th_wakeups (cthread_wakeup (Some e) th))"
  by (simp add: cthread_wakeup_def cthread_wakeup_sys_def set_emplace_nat)

text \<open>The queues after one turn, and who is woken.\<close>

definition stranded :: "'e crofconn \<Rightarrow> nat set" where
  "stranded c = {q. q < length (rxqueues c) \<and> queue (rxqueues c ! q) \<noteq> []}"

definition will_run :: "'e crofconn \<Rightarrow> bool" where
  "will_run c \<longleftrightarrow> conn_this c \<in> set (th_wakeups (conn_thread c))"

lemma rx_queues_plain:
  assumes "conn_state c = STATE_ESTABLISHED" "\<forall>q \<in> set qids. q < length (rxqueues c)" "distinct qids"
    "\<forall>q \<in> set qids. \<forall>msg \<in> set (queue (rxqueues c ! q)). plain_rx (conn_ofp_version c) msg"
    "th_state (conn_thread c) = TH_STATE_RUNNING"
  shows "\<exists>c'. rx_queues rt qids c =
      (RXC_next, c', map CE_recv (concat (map (\<lambda>q. take (rxweights c ! q) (queue (rxqueues c ! q))) qids))) \<and>
    same_conn c c' \<and> (stranded c' \<inter> set qids \<noteq> {} \<longrightarrow> will_run c') \<and>
    (\<forall>q < length (rxqueues c). rxqueues c' ! q =
      (if q \<in> set qids then serve_queue (rxweights c ! q) (rxqueues c ! q) else rxqueues c ! q))"
  using assms
proof (induction qids arbitrary: c)
  case Nil
  then show ?case
    by (simp add: same_conn_def)
next
  case (Cons qid qids)
  let ?w = "rxweights c ! qid" and ?q = "rxqueues c ! qid"
  let ?c1 = "c\<lparr>rxqueues := (rxqueues c)[qid := serve_queue ?w ?q]\<rparr>"
  define c2 where "c2 = (if queue (serve_queue ?w ?q) \<noteq> [] then conn_wakeup ?c1 else ?c1)"
  have one: "rx_slots rt qid ?w c = (RXC_next, ?c1, map CE_recv (take ?w (queue ?q)))"
    using Cons.prems by (intro rx_slots_plain) auto
  have fr: "conn_state c2 = conn_state c" "conn_ofp_version c2 = conn_ofp_version c" "rxweights c2 = rxweights c"
    "rxqueues c2 = (rxqueues c)[qid := serve_queue ?w ?q]" "conn_this c2 = conn_this c"
    by (simp_all add: c2_def)
  have th: "th_state (conn_thread c2) = th_state (conn_thread c)"
      "set (th_wakeups (conn_thread c)) \<subseteq> set (th_wakeups (conn_thread c2))"
    using wakeups_grow by (auto simp: c2_def conn_wakeup_def)
  have wk: "will_run c2" if "queue (serve_queue ?w ?q) \<noteq> []"
    using that Cons.prems(5) by (simp add: c2_def will_run_def conn_wakeup_def wakeup_in)
  have qn: "(rxqueues c)[qid := serve_queue ?w ?q] ! q = rxqueues c ! q" if "q \<in> set qids" for q
    using that Cons.prems(3) by (cases "q = qid") auto
  have "\<exists>c'. rx_queues rt qids c2 =
      (RXC_next, c', map CE_recv (concat (map (\<lambda>q. take (rxweights c2 ! q) (queue (rxqueues c2 ! q))) qids))) \<and>
    same_conn c2 c' \<and> (stranded c' \<inter> set qids \<noteq> {} \<longrightarrow> will_run c') \<and>
    (\<forall>q < length (rxqueues c2). rxqueues c' ! q =
      (if q \<in> set qids then serve_queue (rxweights c2 ! q) (rxqueues c2 ! q) else rxqueues c2 ! q))"
    using Cons.prems th(1) by (intro Cons.IH) (auto simp: fr qn)
  note ih = this
  have ev: "map (\<lambda>q. take (rxweights c2 ! q) (queue (rxqueues c2 ! q))) qids =
      map (\<lambda>q. take (rxweights c ! q) (queue (rxqueues c ! q))) qids"
    by (simp add: fr qn)
  from ih [unfolded ev] obtain c' where c': "rx_queues rt qids c2 =
      (RXC_next, c', map CE_recv (concat (map (\<lambda>q. take (rxweights c ! q) (queue (rxqueues c ! q))) qids)))"
      "same_conn c2 c'" "stranded c' \<inter> set qids \<noteq> {} \<longrightarrow> will_run c'"
      "\<forall>q < length (rxqueues c2). rxqueues c' ! q =
        (if q \<in> set qids then serve_queue (rxweights c2 ! q) (rxqueues c2 ! q) else rxqueues c2 ! q)"
    by blast
  note c'4 = c'(4) [unfolded fr length_list_update]
  have "rx_queues rt (qid # qids) c = (RXC_next, c',
      map CE_recv (concat (map (\<lambda>q. take (rxweights c ! q) (queue (rxqueues c ! q))) (qid # qids))))"
    using Cons.prems(1) c'(1) one Cons.prems(2)
    by (cases "queue ?q = []") (auto simp: crofqueue_empty_def serve_queue_id c2_def)
  moreover have "same_conn c c'"
    using c'(2) th by (auto simp: same_conn_def fr)
  moreover have "\<forall>q < length (rxqueues c). rxqueues c' ! q =
      (if q \<in> set (qid # qids) then serve_queue (rxweights c ! q) (rxqueues c ! q) else rxqueues c ! q)"
    using c'4 Cons.prems(3) qn by (auto simp: nth_list_update)
  moreover have "will_run c'" if "qid \<in> stranded c'"
  proof -
    have "rxqueues c' ! qid = serve_queue ?w ?q"
      using c'4 Cons.prems(2,3) by simp
    with that have "will_run c2"
      by (intro wk) (simp add: stranded_def)
    then show ?thesis
      using c'(2) by (auto simp: will_run_def same_conn_def)
  qed
  ultimately show ?case
    using c'(3) by (intro exI [of _ c']) auto
qed

text \<open>The reference schedule: the messages of turn \<open>k\<close>, queue after queue.\<close>

definition rx_turn :: "nat \<Rightarrow> 'e crofconn \<Rightarrow> 'e cofmsg list" where
  "rx_turn k c = concat (map (\<lambda>q. take (rxweights c ! q) (drop (k * rxweights c ! q) (queue (rxqueues c ! q)))) [0, 1, 2, 3])"

lemma timer_wakeups [simp]:
  "th_wakeups (conn_thread (conn_start_timer rt i n c)) = th_wakeups (conn_thread c)"
  "th_wakeups (conn_thread (conn_drop_timer rt i c)) = th_wakeups (conn_thread c)"
  "th_state (conn_thread (conn_start_timer rt i n c)) = th_state (conn_thread c)"
  "th_state (conn_thread (conn_drop_timer rt i c)) = th_state (conn_thread c)"
  by (auto simp: conn_start_timer_def conn_add_timer_def conn_drop_timer_def cthread_add_timer_def cthread_drop_timer_def
    Let_def split: prod.split list.split)

lemma rx_turn_plain:
  assumes "conn_state c = STATE_ESTABLISHED" "length (rxqueues c) = 4"
    "\<forall>q < 4. \<forall>msg \<in> set (queue (rxqueues c ! q)). plain_rx (conn_ofp_version c) msg"
    "th_state (conn_thread c) = TH_STATE_RUNNING"
  obtains c' where "rx_queues rt [0, 1, 2, 3] c = (RXC_next, c', map CE_recv (rx_turn 0 c))" "same_conn c c'"
    "stranded c' \<noteq> {} \<Longrightarrow> will_run c'"
    "\<And>q. q < 4 \<Longrightarrow> rxqueues c' ! q = serve_queue (rxweights c ! q) (rxqueues c ! q)"
proof -
  define qs where "qs = [0, 1, 2, 3 :: nat]"
  have qs: "q \<in> set qs \<longleftrightarrow> q < 4" "distinct qs" for q
    by (auto simp: qs_def)
  have "\<exists>c'. rx_queues rt qs c =
      (RXC_next, c', map CE_recv (concat (map (\<lambda>q. take (rxweights c ! q) (queue (rxqueues c ! q))) qs))) \<and>
    same_conn c c' \<and> (stranded c' \<inter> set qs \<noteq> {} \<longrightarrow> will_run c') \<and>
    (\<forall>q < length (rxqueues c). rxqueues c' ! q =
      (if q \<in> set qs then serve_queue (rxweights c ! q) (rxqueues c ! q) else rxqueues c ! q))"
    using assms by (intro rx_queues_plain) (auto simp: qs)
  then obtain c' where c': "rx_queues rt qs c =
      (RXC_next, c', map CE_recv (concat (map (\<lambda>q. take (rxweights c ! q) (queue (rxqueues c ! q))) qs)))"
    "same_conn c c'" "stranded c' \<inter> set qs \<noteq> {} \<longrightarrow> will_run c'"
    "\<forall>q < length (rxqueues c). rxqueues c' ! q =
      (if q \<in> set qs then serve_queue (rxweights c ! q) (rxqueues c ! q) else rxqueues c ! q)"
    by blast
  have "stranded c' \<inter> set qs = stranded c'"
    using c'(2) assms(2) by (auto simp: stranded_def same_conn_def qs(1))
  moreover have turn: "rx_turn 0 c = concat (map (\<lambda>q. take (rxweights c ! q) (queue (rxqueues c ! q))) qs)"
    by (simp add: rx_turn_def qs_def)
  have "rx_queues rt [0, 1, 2, 3] c = (RXC_next, c', map CE_recv (rx_turn 0 c))"
    using c'(1) unfolding turn by (simp only: qs_def)
  ultimately show ?thesis
    using c'(2-4) assms(2) by (intro that [of c']) (simp_all add: qs(1) del: rx_queues.simps)
qed

lemma rx_turns_Suc_next:
  "rx_queues rt [0, 1, 2, 3] c = (RXC_next, c1, evs) \<Longrightarrow> conn_state c1 = STATE_ESTABLISHED \<Longrightarrow>
   rx_turns rt (Suc n) c = (case rx_turns rt n c1 of (ctl, c2, evs2) \<Rightarrow> (ctl, c2, evs @ evs2))"
  by (simp del: rx_queues.simps)

lemma rx_schedule_exact:
  assumes "conn_state c = STATE_ESTABLISHED" and "length (rxqueues c) = 4"
    and "\<forall>q < 4. \<forall>msg \<in> set (queue (rxqueues c ! q)). plain_rx (conn_ofp_version c) msg"
    and "th_state (conn_thread c) = TH_STATE_RUNNING"
    and "handle_rx_messages rt c = (c', evs, e)"
  shows "e = None \<and> evs = map CE_recv (rx_turn 0 c @ rx_turn 1 c) \<and>
    (\<forall>q < 4. queue (rxqueues c' ! q) = drop (2 * rxweights c ! q) (queue (rxqueues c ! q))) \<and>
    (\<forall>q < 4. queue (rxqueues c' ! q) \<noteq> [] \<longrightarrow> will_run c')"
proof -
  define c1 where "c1 = conn_drop_timer rt TIMER_ID_NEED_LIFE_CHECK (c\<lparr>rx_thread_working := True, rx_thread_scheduled := False\<rparr>)"
  have c1: "conn_state c1 = STATE_ESTABLISHED" "rxqueues c1 = rxqueues c" "rxweights c1 = rxweights c"
      "conn_ofp_version c1 = conn_ofp_version c" "th_state (conn_thread c1) = TH_STATE_RUNNING"
    using assms by (simp_all add: c1_def)
  obtain c2 where c2: "rx_queues rt [0, 1, 2, 3] c1 = (RXC_next, c2, map CE_recv (rx_turn 0 c1))" "same_conn c1 c2"
      "\<And>q. q < 4 \<Longrightarrow> rxqueues c2 ! q = serve_queue (rxweights c1 ! q) (rxqueues c1 ! q)"
    using rx_turn_plain [of c1 rt] assms(2,3) c1 by metis
  have s2: "conn_state c2 = STATE_ESTABLISHED" "length (rxqueues c2) = 4" "rxweights c2 = rxweights c"
      "conn_ofp_version c2 = conn_ofp_version c" "th_state (conn_thread c2) = TH_STATE_RUNNING"
    using c2(2) c1 assms(2) by (simp_all add: same_conn_def)
  have pl: "\<forall>q < 4. \<forall>msg \<in> set (queue (rxqueues c2 ! q)). plain_rx (conn_ofp_version c2) msg"
    using assms(3) c2(3) s2(4) c1 by (auto dest: in_set_dropD)
  obtain c3 where c3: "rx_queues rt [0, 1, 2, 3] c2 = (RXC_next, c3, map CE_recv (rx_turn 0 c2))" "same_conn c2 c3"
      "stranded c3 \<noteq> {} \<Longrightarrow> will_run c3"
      "\<And>q. q < 4 \<Longrightarrow> rxqueues c3 ! q = serve_queue (rxweights c2 ! q) (rxqueues c2 ! q)"
    using rx_turn_plain [OF s2(1,2) pl s2(5), of rt] by metis
  have t0: "rx_turn 0 c1 = rx_turn 0 c" and t1: "rx_turn 0 c2 = rx_turn 1 c"
    by (simp_all add: rx_turn_def c1 c2(3) s2(3))
  have "conn_state c3 = STATE_ESTABLISHED"
    using c3(2) s2(1) by (simp add: same_conn_def)
  then have run: "rx_turns rt 2 c1 = (RXC_next, c3, map CE_recv (rx_turn 0 c) @ map CE_recv (rx_turn 1 c))"
    using rx_turns_Suc_next [OF c2(1) s2(1)] rx_turns_Suc_next [OF c3(1)] by (simp add: t0 t1 numeral_2_eq_2 del: rx_turns.simps(2))
  have q3: "queue (rxqueues c3 ! q) = drop (2 * rxweights c ! q) (queue (rxqueues c ! q))" if "q < 4" for q
    using that by (simp add: c3(4) c2(3) c1 s2(3) mult_2 drop_drop)
  have fin: "rxqueues c' = rxqueues c3" "conn_this c' = conn_this c3" "th_wakeups (conn_thread c') = th_wakeups (conn_thread c3)"
      "e = None" "evs = map CE_recv (rx_turn 0 c) @ map CE_recv (rx_turn 1 c)"
    using assms(5) by (auto simp: handle_rx_messages_def run Let_def simp flip: c1_def split: if_splits)
  have "length (rxqueues c3) = 4"
    using c3(2) s2(2) by (simp add: same_conn_def)
  then have "will_run c'" if "q < 4" "queue (rxqueues c' ! q) \<noteq> []" for q
    using that c3(3) fin by (auto simp: stranded_def will_run_def)
  with q3 fin show ?thesis
    by simp
qed

text \<open>
  C20: one run of the dispatcher of an established connection, under two conditions: every queued message
  is handed on as it is (\<open>plain_rx\<close>: with OpenFlow 1.0 and 1.2 every message, with the other versions, 1.3
  among them, every message that is not a multipart request or reply), and the owner's callbacks return
  normally and leave the connection alone (the model's owner is passive).  Then the run takes exactly two
  turns: in each it delivers, from each of the four queues in turn, as many messages as the weight of the
  queue allows, in the order of arrival; of the queued messages none is lost, duplicated or delivered out
  of the order of its queue, and if one stays behind the worker is woken again.  Multipart messages, which
  may be merged, held back or dropped, are the subject of the theory \<open>Multipart_Path\<close>.
\<close>

theorem rx_schedule:
  assumes "conn_state c = STATE_ESTABLISHED" and "length (rxqueues c) = 4"
    and "\<forall>q < 4. \<forall>msg \<in> set (queue (rxqueues c ! q)). plain_rx (conn_ofp_version c) msg"
    and "th_state (conn_thread c) = TH_STATE_RUNNING"
    and "handle_rx_messages rt c = (c', evs, e)"
  shows "e = None \<and> evs = map CE_recv (rx_turn 0 c @ rx_turn 1 c) \<and>
    (\<forall>q < 4. queue (rxqueues c' ! q) = drop (2 * rxweights c ! q) (queue (rxqueues c ! q))) \<and>
    (\<forall>q < 4. queue (rxqueues c' ! q) \<noteq> [] \<longrightarrow> will_run c')"
  by (rule rx_schedule_exact [OF assms])

definition rx_example :: "string crofconn" where
  "rx_example = conn_established\<lparr>conn_thread := idle_thread\<lparr>th_state := TH_STATE_RUNNING\<rparr>,
     rxqueues := [crofqueue_new, crofqueue_new, crofqueue_new\<lparr>queue := [cofmsg_new 1 Cofmsg_barrier_request 4 20 1]\<rparr>,
       crofqueue_new\<lparr>queue := [cofmsg_new 2 Cofmsg_packet_in 4 10 2, cofmsg_new 3 Cofmsg_packet_in 4 10 3]\<rparr>]\<rparr>"

lemma rx_example_simps:
  "conn_state rx_example = STATE_ESTABLISHED" "length (rxqueues rx_example) = 4"
  "th_state (conn_thread rx_example) = TH_STATE_RUNNING" "rxweights rx_example = [16, 32, 16, 8]" "\<not> conn_deleting rx_example"
  by (simp_all add: rx_example_def conn_established_def conn_example_def crofconn_new_def)

lemma rx_example_plain: "\<forall>q < 4. \<forall>msg \<in> set (queue (rxqueues rx_example ! q)). plain_rx (conn_ofp_version rx_example) msg"
proof (intro allI impI ballI)
  fix q msg
  assume q: "q < (4 :: nat)" and msg: "msg \<in> set (queue (rxqueues rx_example ! q))"
  from q consider "q = 0" | "q = 1" | "q = 2" | "q = 3"
    by linarith
  then show "plain_rx (conn_ofp_version rx_example) msg"
    using msg by cases (auto simp: rx_example_def crofqueue_new_def plain_rx_def cofmsg_new_def ofp_constants)
qed

lemma rx_example_turns:
  "rx_turn 0 rx_example @ rx_turn 1 rx_example =
   [cofmsg_new 1 Cofmsg_barrier_request 4 20 1, cofmsg_new 2 Cofmsg_packet_in 4 10 2, cofmsg_new 3 Cofmsg_packet_in 4 10 3]"
  by (simp add: rx_turn_def rx_example_simps(4)) (simp add: rx_example_def crofqueue_new_def)

theorem rx_schedule_witness:
  "fst (snd (handle_rx_messages rt_example rx_example)) =
   [CE_recv (cofmsg_new 1 Cofmsg_barrier_request 4 20 1), CE_recv (cofmsg_new 2 Cofmsg_packet_in 4 10 2),
    CE_recv (cofmsg_new 3 Cofmsg_packet_in 4 10 3)]"
  using rx_schedule [OF rx_example_simps(1,2) rx_example_plain rx_example_simps(3)] rx_example_turns
  by (metis (no_types, lifting) list.simps(8,9) prod.collapse)

section \<open>The connection as a transition system\<close>

text \<open>
  The entry points of a connection: opening, the socket's events and messages, timers, wake-ups of
  the worker, sending, closing, deletion.  \<open>wlen\<close>, \<open>elen\<close>, \<open>pk\<close> are as above; the socket may have
  changed on its own between two steps.
\<close>

inductive conn_step ::
  "('e cofmsg \<Rightarrow> nat) \<Rightarrow> ('e \<Rightarrow> nat) \<Rightarrow> ('e cofmsg \<Rightarrow> byte list) \<Rightarrow> 'e crofconn \<Rightarrow> 'e conn_event list \<Rightarrow> 'e crofconn \<Rightarrow> bool"
  for wlen elen pk where
  Step_open: "vb_small vb \<Longrightarrow> pending \<in> {STATE_CONNECT_PENDING, STATE_ACCEPT_PENDING} \<Longrightarrow>
    conn_open rt sock_open pending vb mode c = (c', evs, sevs, e) \<Longrightarrow> conn_step wlen elen pk c evs c'"
| Step_sock: "conn_step wlen elen pk c [] (c\<lparr>conn_sock := s\<rparr>)"
| Step_sock_event: "conn_sock_event rt ev c = (c', evs) \<Longrightarrow> conn_step wlen elen pk c evs c'"
| Step_recv: "conn_handle_recv wlen elen pk rt msg c = (c', evs) \<Longrightarrow> conn_step wlen elen pk c evs c'"
| Step_timeout: "conn_handle_timeout rt tid c = (c', evs) \<Longrightarrow> conn_step wlen elen pk c evs c'"
| Step_wakeup: "conn_handle_wakeup rt c = (c', evs, e) \<Longrightarrow> conn_step wlen elen pk c evs c'"
| Step_send: "conn_send_message wlen elen rt msg c = Inr (c', r) \<Longrightarrow> conn_step wlen elen pk c [] c'"
| Step_send_ts: "conn_send_message_ts wlen elen rt msg ts c = Inr (c', r) \<Longrightarrow> conn_step wlen elen pk c [] c'"
| Step_close: "crofconn_close rt c = (c', evs) \<Longrightarrow> conn_step wlen elen pk c evs c'"
| Step_destroy: "conn_step wlen elen pk c [] (crofconn_destroy rt c)"

inductive conn_reach ::
  "('e cofmsg \<Rightarrow> nat) \<Rightarrow> ('e \<Rightarrow> nat) \<Rightarrow> ('e cofmsg \<Rightarrow> byte list) \<Rightarrow> 'e crofconn \<Rightarrow> 'e conn_event list \<Rightarrow> bool"
  for wlen elen pk where
  Reach_new: "conn_reach wlen elen pk (crofconn_new this th sock x1 x2 x3) []"
| Reach_step: "conn_reach wlen elen pk c tr \<Longrightarrow> conn_step wlen elen pk c evs c' \<Longrightarrow> conn_reach wlen elen pk c' (tr @ evs)"

text \<open>
  The well-formedness of the connection's data: four queues with their weights, requests in order
  of deadlines, segments in order of transaction ids, no more of them than allowed.
\<close>

definition conn_wf :: "'e crofconn \<Rightarrow> bool" where
  "conn_wf c \<longleftrightarrow> length (rxqueues c) = 4 \<and> length (rxweights c) = 4 \<and> requests_ok c \<and> map_wf (pending_segments c) \<and>
     length (pending_segments c) \<le> pending_segments_max c"

lemma conn_wf_new: "conn_wf (crofconn_new this th sock x1 x2 x3)"
  by (simp add: conn_wf_def crofconn_new_def requests_ok_def)

lemma conn_wf_cong:
  "conn_wf c \<Longrightarrow> length (rxqueues c') = length (rxqueues c) \<Longrightarrow> rxweights c' = rxweights c \<Longrightarrow>
   pending_requests c' = pending_requests c \<Longrightarrow> pending_segments c' = pending_segments c \<Longrightarrow>
   pending_segments_max c' = pending_segments_max c \<Longrightarrow> conn_wf c'"
  by (simp add: conn_wf_def requests_ok_def)

lemma fsm_max_frame [simp]:
  "pending_segments_max (fsm_disconnected rt c) = pending_segments_max c"
  "pending_segments_max (fsm_closing rt c) = pending_segments_max c"
  "pending_requests (fsm_closing rt c) = []" "pending_segments (fsm_closing rt c) = []"
  "pending_segments_max (fsm_pending c) = pending_segments_max c"
  "pending_requests (fsm_pending c) = pending_requests c" "pending_segments (fsm_pending c) = pending_segments c"
  by (simp_all add: fsm_disconnected_def fsm_closing_def fsm_pending_def clear_rxqueue_copies_def Let_def
    clear_pending_requests_def clear_pending_segments_def)

lemma run_fsm_wf: "conn_wf c \<Longrightarrow> conn_wf (fst (run_finite_state_machine rt new c))"
  by (cases new) (auto simp: run_finite_state_machine_def conn_wf_def requests_ok_def Let_def)

lemma hello_prepare_wf: "conn_wf c \<Longrightarrow> conn_wf (hello_prepare rt msg c)"
  by (erule conn_wf_cong) (simp_all add: hello_prepare_def Let_def)

lemma conn_wf_updates [intro]:
  "conn_wf c \<Longrightarrow> conn_wf (c\<lparr>conn_ofp_version := v\<rparr>)" "conn_wf c \<Longrightarrow> conn_wf (sock_send m c)"
  "conn_wf c \<Longrightarrow> conn_wf (free_msg m c)" "conn_wf c \<Longrightarrow> conn_wf (conn_drop_timer rt i c)"
  "conn_wf c \<Longrightarrow> conn_wf (conn_start_timer rt i n c)" "conn_wf c \<Longrightarrow> conn_wf (c\<lparr>conn_sock := s\<rparr>)"
  "conn_wf c \<Longrightarrow> conn_wf (conn_wakeup c)"
  by (erule conn_wf_cong; simp)+

lemma handler_wf:
  assumes "conn_wf c"
  shows "conn_wf (fst (hello_rcvd pk rt msg c))" "conn_wf (fst (error_rcvd rt msg c))"
    "conn_wf (fst (features_reply_rcvd rt msg c))" "conn_wf (fst (conn_handle_closed rt c))"
    "conn_wf (echo_request_rcvd rt msg c)" "conn_wf (echo_reply_rcvd rt msg c)" "conn_wf (send_echo_request rt c)"
proof -
  show "conn_wf (fst (hello_rcvd pk rt msg c))"
    using assms by (auto simp: hello_rcvd_def Let_def split_beta split: crofconn_mode_t.split
      intro!: run_fsm_wf hello_prepare_wf)
  show "conn_wf (fst (error_rcvd rt msg c))"
    using assms by (auto simp: error_rcvd_def Let_def split_beta intro!: run_fsm_wf)
  have "conn_wf ((conn_drop_timer rt TIMER_ID_WAIT_FOR_FEATURES c)\<lparr>conn_dpid := d, conn_auxid := a\<rparr>)" for d a
    by (rule conn_wf_cong [OF assms]) simp_all
  then show "conn_wf (fst (features_reply_rcvd rt msg c))"
    using assms by (auto simp: features_reply_rcvd_def Let_def split_beta intro!: run_fsm_wf)
  show "conn_wf (fst (conn_handle_closed rt c))"
    using assms by (simp add: conn_handle_closed_def run_fsm_wf)
  show "conn_wf (echo_request_rcvd rt msg c)" "conn_wf (echo_reply_rcvd rt msg c)" "conn_wf (send_echo_request rt c)"
    by (rule conn_wf_cong [OF assms]; simp)+
qed

lemma sorted_wrt_filter_wf: "map_wf m \<Longrightarrow> map_wf (filter P m)"
  by (simp add: map_wf_def sorted_wrt_map sorted_wrt_filter)

lemma requests_ok_filter: "requests_ok c \<Longrightarrow> sorted_wrt ctransaction_less (filter P (pending_requests c))"
  by (simp add: requests_ok_def sorted_wrt_filter)

lemma check_pending_wf:
  assumes "conn_wf c"
  shows "conn_wf (check_pending_segments rt c)" "conn_wf (fst (check_pending_requests rt c))"
proof -
  show "conn_wf (check_pending_segments rt c)"
    using assms by (auto simp: conn_wf_def requests_ok_def check_pending_segments_def Let_def erase_while_filter
      sorted_wrt_filter_wf intro: order_trans [OF length_filter_le])
  have "requests_ok (fst (check_pending_requests rt c))"
    using check_pending_requests_ok assms by (auto simp: conn_wf_def)
  moreover have "rxqueues (fst (check_pending_requests rt c)) = rxqueues c" "rxweights (fst (check_pending_requests rt c)) = rxweights c"
      "pending_segments (fst (check_pending_requests rt c)) = pending_segments c"
      "pending_segments_max (fst (check_pending_requests rt c)) = pending_segments_max c"
    by (auto simp: check_pending_requests_def Let_def split: prod.split list.split)
  ultimately show "conn_wf (fst (check_pending_requests rt c))"
    using assms by (simp add: conn_wf_def)
qed

lemma conn_handle_timeout_wf: "conn_wf c \<Longrightarrow> conn_wf (fst (conn_handle_timeout rt tid c))"
  by (auto simp: conn_handle_timeout_def hello_expired_def echo_request_expired_def features_request_expired_def split_beta
    intro!: run_fsm_wf check_pending_wf handler_wf)

lemma conn_sock_event_wf: "conn_wf c \<Longrightarrow> conn_wf (fst (conn_sock_event rt ev c))"
  by (cases ev) (auto simp: split_beta intro!: run_fsm_wf handler_wf)

lemma conn_open_wf: "conn_wf c \<Longrightarrow> conn_wf (fst (conn_open rt sock_open pending vb mode c))"
proof -
  assume wf: "conn_wf c"
  have "conn_wf (c\<lparr>conn_versionbitmap := vb, conn_mode := mode\<rparr>)"
    by (rule conn_wf_cong [OF wf]) simp_all
  then have "conn_wf (fst (run_finite_state_machine rt pending (c\<lparr>conn_versionbitmap := vb, conn_mode := mode\<rparr>)))"
    by (rule run_fsm_wf)
  with wf show ?thesis
    by (auto simp: conn_open_def set_versionbitmap_def split: prod.split)
qed

text \<open>Both invariants, and what they need of a step that touches neither state nor versions.\<close>

definition conn_inv :: "'e crofconn \<Rightarrow> bool" where
  "conn_inv c \<longleftrightarrow> conn_ok c \<and> conn_wf c"

definition same_mode :: "'e crofconn \<Rightarrow> 'e crofconn \<Rightarrow> bool" where
  "same_mode c c' \<longleftrightarrow> conn_state c' = conn_state c \<and> conn_deleting c' = conn_deleting c \<and>
     conn_ofp_version c' = conn_ofp_version c \<and> conn_versionbitmap c' = conn_versionbitmap c \<and>
     conn_versionbitmap_peer c' = conn_versionbitmap_peer c \<and> rxweights c' = rxweights c"

lemma same_mode_inv: "same_mode c c' \<Longrightarrow> conn_inv c \<Longrightarrow> conn_wf c' \<Longrightarrow> conn_inv c'"
  by (auto simp: same_mode_def conn_inv_def intro: conn_ok_cong)

lemma same_mode_refl [simp]: "same_mode c c"
  by (simp add: same_mode_def)

lemma same_mode_trans: "same_mode a b \<Longrightarrow> same_mode b c \<Longrightarrow> same_mode a c"
  by (simp add: same_mode_def)

lemma add_pending_request_wf: "conn_wf c \<Longrightarrow> conn_wf (add_pending_request rt x ts ty st c)"
  by (simp add: conn_wf_def requests_ok_def pending_requests_add ta_order.set_emplace_sorted)

lemma drop_pending_request_wf: "conn_wf c \<Longrightarrow> conn_wf (drop_pending_request x c)"
  by (simp add: conn_wf_def requests_ok_def drop_pending_request_def erase_while_filter sorted_wrt_filter)

lemma store_rx_frame [simp]:
  "conn_state (store_rx qid msg c) = conn_state c" "conn_deleting (store_rx qid msg c) = conn_deleting c"
  "conn_ofp_version (store_rx qid msg c) = conn_ofp_version c" "conn_versionbitmap (store_rx qid msg c) = conn_versionbitmap c"
  "conn_versionbitmap_peer (store_rx qid msg c) = conn_versionbitmap_peer c" "rxweights (store_rx qid msg c) = rxweights c"
  by (auto simp: store_rx_def Let_def split: sum.split)

lemma store_rx_wf: "conn_wf c \<Longrightarrow> conn_wf (store_rx qid msg c)"
  by (erule conn_wf_cong) (auto simp: store_rx_def Let_def split: sum.split)

lemma enqueue_rx_mode: "same_mode c (enqueue_rx msg c)"
  by (simp add: same_mode_def enqueue_rx_def Let_def split: option.split)

lemma enqueue_rx_wf: "conn_wf c \<Longrightarrow> conn_wf (enqueue_rx msg c)"
  by (auto simp: enqueue_rx_def Let_def split: option.split intro!: store_rx_wf drop_pending_request_wf)

lemma conn_send_message_sock: "conn_send_message wlen elen rt msg c = Inr (c', r) \<Longrightarrow> \<exists>s. c' = c\<lparr>conn_sock := s\<rparr>"
  by (auto simp: conn_send_message_def split: sum.splits)

lemma sock_mode [simp]: "same_mode c (c\<lparr>conn_sock := s\<rparr>)"
  by (simp add: same_mode_def)

lemma conn_send_message_inv:
  "conn_send_message wlen elen rt msg c = Inr (c', r) \<Longrightarrow> conn_inv c \<Longrightarrow> conn_inv c'"
  using same_mode_inv [OF sock_mode] by (auto dest!: conn_send_message_sock simp: conn_inv_def)

lemma conn_send_message_ts_inv:
  assumes "conn_send_message_ts wlen elen rt msg ts c = Inr (c', r)" "conn_inv c"
  shows "conn_inv c'"
proof -
  have "conn_inv (add_pending_request rt x ts ty st c)" for x ty st
  proof (rule same_mode_inv)
    show "same_mode c (add_pending_request rt x ts ty st c)"
      by (simp add: same_mode_def)
    show "conn_inv c" "conn_wf (add_pending_request rt x ts ty st c)"
      using assms(2) by (auto simp: conn_inv_def intro: add_pending_request_wf)
  qed
  moreover obtain c1 where "conn_send_message wlen elen rt msg c1 = Inr (c', r)"
      "c1 = c \<or> (\<exists>x ty st. c1 = add_pending_request rt x ts ty st c)"
    using assms(1) unfolding conn_send_message_ts_def by (auto split: if_splits)
  ultimately show ?thesis
    using assms(2) conn_send_message_inv by blast
qed

lemma reply_bad_version_inv: "conn_inv c \<Longrightarrow> conn_inv (reply_bad_version wlen elen pk rt msg c)"
proof (rule same_mode_inv)
  let ?m = "cofmsg_error_new (rt_addr rt) (conn_ofp_version c) (msg_xid msg) 1 0 (take 64 (pk msg))"
  have "\<exists>s. reply_bad_version wlen elen pk rt msg c = free_msg msg (c\<lparr>conn_sock := s\<rparr>)"
  proof (cases "conn_send_message wlen elen rt ?m c")
    case (Inl e)
    then have "reply_bad_version wlen elen pk rt msg c = free_msg msg (c\<lparr>conn_sock := conn_sock c\<rparr>)"
      by (simp add: reply_bad_version_def)
    then show ?thesis ..
  next
    case (Inr cr)
    then obtain s where "fst cr = c\<lparr>conn_sock := s\<rparr>"
      using conn_send_message_sock [of wlen elen rt ?m c "fst cr" "snd cr"] by auto
    with Inr show ?thesis
      by (auto simp: reply_bad_version_def split_beta)
  qed
  then obtain s where s: "reply_bad_version wlen elen pk rt msg c = free_msg msg (c\<lparr>conn_sock := s\<rparr>)"
    by blast
  show "same_mode c (reply_bad_version wlen elen pk rt msg c)"
    by (simp add: s same_mode_def)
  show "conn_inv c \<Longrightarrow> conn_wf (reply_bad_version wlen elen pk rt msg c)"
    by (auto simp: s conn_inv_def)
qed simp

lemma hello_rcvd_inv: "conn_inv c \<Longrightarrow> conn_state c \<in> negotiating_states \<Longrightarrow> conn_inv (fst (hello_rcvd pk rt msg c))"
  by (auto simp only: conn_inv_def intro!: hello_rcvd_ok handler_wf)

lemma error_rcvd_inv: "conn_inv c \<Longrightarrow> conn_inv (fst (error_rcvd rt msg c))"
  by (auto simp only: conn_inv_def intro!: error_rcvd_ok handler_wf)

lemma conn_handle_recv_inv:
  assumes "conn_inv c"
  shows "conn_inv (fst (conn_handle_recv wlen elen pk rt msg c))"
proof -
  have wf: "conn_wf c"
    using assms by (simp add: conn_inv_def)
  have "conn_inv (echo_request_rcvd rt msg c)" "conn_inv (echo_reply_rcvd rt msg c)" "conn_inv (free_msg msg c)"
    by (rule same_mode_inv [OF _ assms], simp add: same_mode_def, blast intro: wf handler_wf conn_wf_updates)+
  moreover have "conn_inv (enqueue_rx msg c)"
    by (rule same_mode_inv [OF enqueue_rx_mode assms enqueue_rx_wf [OF wf]])
  moreover have "conn_inv (fst (features_reply_rcvd rt msg c))" if "conn_state c = STATE_NEGOTIATING2"
    using assms that by (simp add: conn_inv_def features_reply_rcvd_ok handler_wf)
  ultimately show ?thesis
    using assms hello_rcvd_inv [OF assms, of pk rt msg] error_rcvd_inv [OF assms, of rt msg]
      reply_bad_version_inv [OF assms, of wlen elen pk rt msg]
    by (cases "conn_state c") (simp_all add: conn_handle_recv_def)
qed

lemma length_map_put:
  "map_wf m \<Longrightarrow> length (map_put k v m) = (if map_of m k = None then Suc (length m) else length m)"
proof (induction k v m rule: map_put.induct)
  case (2 k v k' v' m)
  then show ?case
    using map_wf_notin [of k' v' m k] by (auto simp: map_wf_Cons)
qed simp

text \<open>A step of the reassembly keeps everything but segments, timers and freed messages.\<close>

definition segment_step :: "'e crofconn \<Rightarrow> 'e crofconn \<Rightarrow> bool" where
  "segment_step c c' \<longleftrightarrow> same_mode c c' \<and> rxqueues c' = rxqueues c \<and> (conn_wf c \<longrightarrow> conn_wf c')"

lemma segment_step_refl [simp]: "segment_step c c"
  by (simp add: segment_step_def)

lemma segment_step_trans: "segment_step a b \<Longrightarrow> segment_step b c \<Longrightarrow> segment_step a c"
  by (auto simp: segment_step_def intro: same_mode_trans)

lemma segment_step_free [simp]: "segment_step c (free_msg msg c)"
  by (auto simp: segment_step_def same_mode_def)

lemma segment_step_timer: "segment_step c (segment_timer rt c)"
  unfolding segment_step_def
proof (intro conjI impI)
  show "conn_wf c \<Longrightarrow> conn_wf (segment_timer rt c)"
    by (erule conn_wf_cong) simp_all
qed (simp_all add: same_mode_def)

lemma segment_step_set:
  assumes "set_pending_segment rt xid ty st c = Inr c'"
  shows "segment_step c c'"
proof -
  have "segment_step c (new_pending_segment rt xid ty st c)" if "map_of (pending_segments c) xid = None"
      "length (pending_segments c) < pending_segments_max c"
    using that by (auto simp: segment_step_def same_mode_def conn_wf_def requests_ok_def length_map_put map_wf_put
      new_pending_segment_def)
  with assms segment_step_timer show ?thesis
    by (fastforce simp: set_pending_segment_def split: if_splits intro: segment_step_trans)
qed

lemma segment_step_xid: "set_pending_segment_xid rt xid c = Inr c' \<Longrightarrow> segment_step c c'"
  by (auto simp: set_pending_segment_xid_def split: if_splits intro: segment_step_timer)

lemma segment_step_merge:
  "map_of (pending_segments c) xid = Some seg \<Longrightarrow>
   segment_step c (c\<lparr>pending_segments := map_put xid seg' (pending_segments c)\<rparr>)"
  by (auto simp: segment_step_def same_mode_def conn_wf_def requests_ok_def length_map_put map_wf_put)

lemma segment_step_drop: "segment_step c (fst (drop_pending_segment xid c))"
  by (auto simp: segment_step_def same_mode_def conn_wf_def requests_ok_def drop_pending_segment_def sorted_wrt_filter_wf
    map_erase_def intro: order_trans [OF length_filter_le])

text \<open>The local function of the code that stores one part.\<close>

definition merge_part :: "conn_rt \<Rightarrow> 'e cofmsg \<Rightarrow> 'e crofconn \<Rightarrow> 'e crofconn result" where
  "merge_part rt msg c1 =
     (case map_of (pending_segments c1) (msg_xid msg) of
        None \<Rightarrow> Inl ERofConnNotFound
      | Some seg \<Rightarrow> (case store_and_merge_msg (rt_addr rt) msg seg of
                       Inl e \<Rightarrow> Inl e
                     | Inr seg' \<Rightarrow> Inr (c1\<lparr>pending_segments := map_put (msg_xid msg) seg' (pending_segments c1)\<rparr>)))"

lemma segment_step_part: "merge_part rt msg c = Inr c' \<Longrightarrow> segment_step c c'"
  by (auto simp: merge_part_def split: option.splits sum.splits intro: segment_step_merge)

lemma rx_multipart_step: "segment_step c (fst (rx_multipart is rt msg c))"
proof -
  let ?set = "set_pending_segment rt (msg_xid msg) (msg_type msg) (msg_stats_type msg) c"
  have part: "segment_step c c2" if "?set = Inr c1" "merge_part rt msg c1 = Inr c2" for c1 c2
    using segment_step_trans [OF segment_step_set [OF that(1)] segment_step_part [OF that(2)]] .
  have fin: "segment_step c c3" if "?set = Inr c1" "merge_part rt msg c1 = Inr c2"
      "set_pending_segment_xid rt (msg_xid msg) c2 = Inr c3" for c1 c2 c3
    using segment_step_trans [OF part [OF that(1,2)] segment_step_xid [OF that(3)]] .
  have drop: "segment_step d (free_msg msg (fst (drop_pending_segment x d)))" for d x
    by (rule segment_step_trans [OF segment_step_drop segment_step_free])
  note steps = segment_step_set part fin segment_step_trans [OF fin drop] segment_step_trans [OF part segment_step_free]
  show ?thesis
    unfolding rx_multipart_def Let_def merge_part_def [symmetric]
    by (auto split: sum.split option.split intro: steps)
qed

lemma rx_deliver_step: "segment_step c (fst (rx_deliver rt msg c))"
  by (simp add: rx_deliver_def handle_rx_multipart_message_def rx_multipart_step)

lemma segment_step_inv: "segment_step c c' \<Longrightarrow> conn_inv c \<Longrightarrow> conn_inv c'"
  by (auto simp: segment_step_def conn_inv_def intro: same_mode_inv [unfolded conn_inv_def, THEN conjunct1])

lemma queue_update_inv: "conn_inv c \<Longrightarrow> conn_inv (c\<lparr>rxqueues := (rxqueues c)[qid := q]\<rparr>)"
  by (rule same_mode_inv) (auto simp: same_mode_def conn_inv_def conn_wf_def requests_ok_def)

lemma flag_update_inv [simp]:
  "conn_inv (c\<lparr>rx_thread_working := b\<rparr>) = conn_inv c" "conn_inv (c\<lparr>rx_thread_scheduled := b\<rparr>) = conn_inv c"
  "conn_inv (conn_wakeup c) = conn_inv c" "conn_inv (conn_drop_timer rt i c) = conn_inv c"
  "conn_inv (conn_start_timer rt i n c) = conn_inv c" "conn_inv (c\<lparr>conn_sock := s\<rparr>) = conn_inv c"
  by (simp_all add: conn_inv_def conn_ok_def versions_agreed_def conn_wf_def requests_ok_def)

lemma rx_slots_inv: "conn_inv c \<Longrightarrow> conn_inv (fst (snd (rx_slots rt qid n c)))"
proof (induction n arbitrary: c)
  case (Suc n)
  have "conn_inv (fst (rx_deliver rt msg (c\<lparr>rxqueues := (rxqueues c)[qid := q]\<rparr>)))" for msg q
    using segment_step_inv [OF rx_deliver_step] queue_update_inv [OF Suc.prems] .
  with Suc show ?case
    by (auto split: prod.split option.split) (metis fst_conv snd_conv)+
qed simp

lemma rx_queues_inv: "conn_inv c \<Longrightarrow> conn_inv (fst (snd (rx_queues rt qids c)))"
proof (induction qids arbitrary: c)
  case (Cons qid qids)
  obtain ctl c1 evs where s: "rx_slots rt qid (rxweights c ! qid) c = (ctl, c1, evs)"
    by (metis prod_cases3)
  then have "conn_inv c1"
    using rx_slots_inv [OF Cons.prems, of rt qid "rxweights c ! qid"] by simp
  with Cons s show ?case
    by (cases ctl) (auto simp: split_beta Let_def)
qed simp

lemma rx_turns_inv: "conn_inv c \<Longrightarrow> conn_inv (fst (snd (rx_turns rt n c)))"
proof (induction n arbitrary: c)
  case (Suc n)
  obtain ctl c1 evs where s: "rx_queues rt [0, 1, 2, 3] c = (ctl, c1, evs)"
    by (metis prod_cases3)
  then have "conn_inv c1"
    using rx_queues_inv [OF Suc.prems, of rt "[0, 1, 2, 3]"] by (simp del: rx_queues.simps)
  with Suc.IH s show ?case
    by (cases ctl) (auto simp: split_beta simp del: rx_queues.simps)
qed simp

lemma conn_handle_wakeup_inv: "conn_inv c \<Longrightarrow> conn_inv (fst (conn_handle_wakeup rt c))"
proof -
  assume inv: "conn_inv c"
  let ?c1 = "conn_drop_timer rt TIMER_ID_NEED_LIFE_CHECK (c\<lparr>rx_thread_working := True, rx_thread_scheduled := False\<rparr>)"
  obtain ctl c2 evs where s: "rx_turns rt 2 ?c1 = (ctl, c2, evs)"
    by (metis prod_cases3)
  then have "conn_inv c2"
    using rx_turns_inv [of ?c1 rt 2] inv by simp
  with inv s show ?thesis
    by (cases ctl) (simp_all add: conn_handle_wakeup_def handle_rx_messages_def Let_def)
qed

lemma conn_step_inv: "conn_step wlen elen pk c evs c' \<Longrightarrow> conn_inv c \<Longrightarrow> conn_inv c'"
proof (induction rule: conn_step.induct)
  case (Step_open vb pending rt sock_open mode c c' evs sevs e)
  then show ?case
    using conn_open_ok [of c vb pending rt sock_open mode] conn_open_wf [of c rt sock_open pending vb mode]
    by (simp add: conn_inv_def)
next
  case (Step_sock_event rt ev c c' evs)
  then show ?case
    using conn_sock_event_ok [of c rt ev] conn_sock_event_wf [of c rt ev] by (simp add: conn_inv_def)
next
  case (Step_recv rt msg c c' evs)
  then show ?case
    using conn_handle_recv_inv [of c wlen elen pk rt msg] by simp
next
  case (Step_timeout rt tid c c' evs)
  then show ?case
    using conn_handle_timeout_ok [of c rt tid] conn_handle_timeout_wf [of c rt tid] by (simp add: conn_inv_def)
next
  case (Step_wakeup rt c c' evs e)
  then show ?case
    using conn_handle_wakeup_inv [of c rt] by simp
next
  case (Step_close rt c c' evs)
  then show ?case
    using run_fsm_ok [of c STATE_CLOSING rt] run_fsm_wf [of c rt STATE_CLOSING]
    by (simp add: crofconn_close_def conn_inv_def)
next
  case (Step_destroy c rt)
  then show ?case
    by (simp add: crofconn_destroy_def conn_inv_def conn_ok_def conn_wf_def requests_ok_def)
qed (auto intro: conn_send_message_inv conn_send_message_ts_inv)

lemma conn_reach_inv: "conn_reach wlen elen pk c tr \<Longrightarrow> conn_inv c"
  by (induction rule: conn_reach.induct) (auto simp: conn_inv_def conn_ok_new conn_wf_new dest: conn_step_inv)

section \<open>Properties of reachable connections\<close>

text \<open>
  C31: the data of a connection is well formed at all times, whatever the order of openings, socket
  events, messages, timers, wake-ups, calls and closings: four receive queues with their weights,
  requests ordered by strictly increasing deadlines, segments ordered by transaction id, and never
  more segments than the limit.
\<close>

theorem reachable_well_formed:
  assumes "conn_reach wlen elen pk c tr"
  shows "conn_wf c"
  using conn_reach_inv [OF assms] by (simp add: conn_inv_def)

text \<open>
  C22: a reachable connection that is not being deleted rests in one of six states only, and from the end
  of negotiation on its protocol version is one that this side announces and one that is in its record of
  the versions peers announced (\<open>versionbitmap_peer\<close>).  The record is only ever added to: its \<open>clear()\<close> does
  nothing, so after a reconnection it holds the versions of earlier peers, too, and the property does not
  say that the present peer announced the version (\<open>stale_versions_negotiated\<close> shows a case where it did not).
\<close>

theorem resting_state_and_version:
  assumes "conn_reach wlen elen pk c tr" and "\<not> conn_deleting c"
  shows "conn_state c \<in> {STATE_DISCONNECTED, STATE_CONNECT_PENDING, STATE_ACCEPT_PENDING, STATE_NEGOTIATING,
      STATE_NEGOTIATING2, STATE_ESTABLISHED} \<and>
    (conn_state c \<in> {STATE_NEGOTIATING2, STATE_ESTABLISHED} \<longrightarrow>
      conn_ofp_version c \<noteq> OFP_VERSION_UNKNOWN \<and>
      vb_has_ofp_version (conn_ofp_version c) (conn_versionbitmap c) \<and>
      vb_has_ofp_version (conn_ofp_version c) (conn_versionbitmap_peer c))"
proof -
  have ok: "conn_ok c"
    using conn_reach_inv [OF assms(1)] by (simp add: conn_inv_def)
  with assms(2) have "conn_state c = fsm_target (conn_state c)"
    by (simp add: conn_ok_def)
  then have "conn_state c \<in> {STATE_DISCONNECTED, STATE_CONNECT_PENDING, STATE_ACCEPT_PENDING, STATE_NEGOTIATING,
      STATE_NEGOTIATING2, STATE_ESTABLISHED}"
    by (cases "conn_state c") (simp_all add: fsm_target_def)
  with ok assms(2) show ?thesis
    by (simp add: conn_ok_def versions_agreed_def)
qed

text \<open>A life of a connection: connect, connected, HELLO.\<close>

definition life0 :: "string crofconn" where
  "life0 = crofconn_new 1 idle_thread (crofsock_new 9 idle_thread idle_thread) 0 0 0"

definition life1 :: "string crofconn" where
  "life1 = fst (conn_open rt_example (\<lambda>s. (s, [], None)) STATE_CONNECT_PENDING
     (vb_add_ofp_version 4 (vb_add_ofp_version 1 vb_new)) MODE_DATAPATH life0)"

definition life2 :: "string crofconn" where
  "life2 = fst (conn_sock_event rt_example Ev_tcp_connected life1)"

definition life3 :: "string crofconn" where
  "life3 = fst (conn_handle_recv (\<lambda>_. 8) (\<lambda>_. 0) (\<lambda>_. []) rt_example hello10 life2)"

lemma life1_simps:
  "conn_state life1 = STATE_CONNECT_PENDING" "\<not> conn_deleting life1" "conn_mode life1 = MODE_DATAPATH"
  "conn_versionbitmap life1 = vb_add_ofp_version 4 (vb_add_ofp_version 1 vb_new)"
  "\<not> vb_has_ofp_version v (conn_versionbitmap_peer life1)"
proof -
  let ?vb = "vb_add_ofp_version 4 (vb_add_ofp_version 1 vb_new)"
  have sm: "vb_small ?vb" "vb_has_ofp_version 1 ?vb"
    by (simp_all add: vb_has_add)
  have nz: "vb_get_highest_ofp_version ?vb \<noteq> OFP_VERSION_UNKNOWN"
    using vb.highest_ge [OF sm] by auto
  show "conn_state life1 = STATE_CONNECT_PENDING" "\<not> conn_deleting life1" "conn_mode life1 = MODE_DATAPATH"
    "conn_versionbitmap life1 = ?vb" "\<not> vb_has_ofp_version v (conn_versionbitmap_peer life1)"
    using nz
    by (simp_all add: life1_def life0_def conn_open_def set_versionbitmap_def run_finite_state_machine_def crofconn_new_def
      fsm_pending_def clear_rxqueue_copies_def vb_has_clear)
qed

lemma life2_simps:
  "conn_state life2 = STATE_NEGOTIATING" "\<not> conn_deleting life2" "conn_mode life2 = MODE_DATAPATH"
  "conn_versionbitmap life2 = vb_add_ofp_version 4 (vb_add_ofp_version 1 vb_new)"
  "\<not> vb_has_ofp_version v (conn_versionbitmap_peer life2)"
  using life1_simps by (simp_all add: life2_def run_finite_state_machine_def Let_def)

lemma hello_rcvd_deleting [simp]: "conn_deleting (fst (hello_rcvd pk rt msg c)) = conn_deleting c"
  by (auto simp: hello_rcvd_def Let_def split_beta split: crofconn_mode_t.split)

lemma life3_simps: "conn_state life3 = STATE_ESTABLISHED" "\<not> conn_deleting life3"
proof -
  have "common_versions hello10 life2 = {1}"
    by (auto simp: common_versions_def hello_peer_versions_def life2_simps vb_has_add ofp_constants)
  then have "conn_state (fst (hello_rcvd (\<lambda>_. []) rt_example hello10 life2)) = STATE_ESTABLISHED"
    using hello_negotiates_exact [of life2 hello10 "\<lambda>_. []" rt_example] by (simp add: life2_simps prod_eq_iff)
  moreover have "\<not> conn_deleting (fst (hello_rcvd (\<lambda>_. []) rt_example hello10 life2))"
    using life2_simps(2) by simp
  moreover have l: "life3 = fst (hello_rcvd (\<lambda>_. []) rt_example hello10 life2)"
    by (simp add: life3_def conn_handle_recv_def life2_simps) (simp add: hello10_def cofmsg_new_def ofp_constants)
  ultimately show "conn_state life3 = STATE_ESTABLISHED" "\<not> conn_deleting life3"
    unfolding l by simp_all
qed

lemma life_reach: "\<exists>tr. conn_reach (\<lambda>_. 8) (\<lambda>_. 0) (\<lambda>_. []) life3 tr"
proof -
  let ?step = "conn_step (\<lambda>_. 8) (\<lambda>_. 0) (\<lambda>_. [])" and ?reach = "conn_reach (\<lambda>_. 8) (\<lambda>_. 0) (\<lambda>_. [])"
  let ?vb = "vb_add_ofp_version 4 (vb_add_ofp_version 1 vb_new)"
  obtain evs sevs e where o: "conn_open rt_example (\<lambda>s. (s, [], None)) STATE_CONNECT_PENDING ?vb MODE_DATAPATH life0 =
      (life1, evs, sevs, e)"
    unfolding life1_def by (metis prod.collapse)
  have "?reach life0 []"
    unfolding life0_def by (rule Reach_new)
  moreover have "?step life0 evs life1"
    by (rule Step_open [OF _ _ o]) simp_all
  ultimately have "?reach life1 ([] @ evs)"
    by (rule Reach_step)
  moreover have "?step life1 (snd (conn_sock_event rt_example Ev_tcp_connected life1)) life2"
    unfolding life2_def by (rule Step_sock_event) (rule surjective_pairing)
  ultimately have "?reach life2 (([] @ evs) @ snd (conn_sock_event rt_example Ev_tcp_connected life1))"
    by (rule Reach_step)
  moreover have "?step life2 (snd (conn_handle_recv (\<lambda>_. 8) (\<lambda>_. 0) (\<lambda>_. []) rt_example hello10 life2)) life3"
    unfolding life3_def by (rule Step_recv) (rule surjective_pairing)
  ultimately show ?thesis
    using Reach_step by (intro exI) (rule Reach_step)
qed

theorem reachable_well_formed_witness: "length (rxqueues life3) = 4 \<and> conn_wf life3"
  using life_reach reachable_well_formed conn_wf_def by blast

theorem resting_state_and_version_witness:
  "conn_state life3 = STATE_ESTABLISHED \<and> vb_has_ofp_version (conn_ofp_version life3) (conn_versionbitmap life3)"
  using life_reach resting_state_and_version life3_simps by blast

lemma recv_from_fsm: "CE_recv m \<notin> set (snd (run_finite_state_machine rt new c))"
  by (cases new) (auto simp: run_finite_state_machine_def Let_def)

lemma recv_from_fsm_pair: "run_finite_state_machine rt new c = (c', evs) \<Longrightarrow> CE_recv m \<notin> set evs"
  using recv_from_fsm [of m rt new c] by simp

lemma wakeup_not_established:
  "conn_state c \<noteq> STATE_ESTABLISHED \<Longrightarrow> fst (snd (conn_handle_wakeup rt c)) = []"
  by (simp add: conn_handle_wakeup_def handle_rx_messages_def Let_def numeral_2_eq_2)

text \<open>
  Messages reach the owner only while the connection is established: no other entry point and
  no other state delivers one.
\<close>

lemma recv_only_established:
  assumes "conn_step wlen elen pk c evs c'" and "CE_recv m \<in> set evs"
  shows "conn_state c = STATE_ESTABLISHED \<and> \<not> conn_deleting c"
  using assms
proof (induction rule: conn_step.induct)
  case (Step_open vb pending rt sock_open mode c c' evs sevs e)
  then show ?case
    by (auto simp: conn_open_def set_versionbitmap_def split: if_splits prod.splits dest: recv_from_fsm_pair)
next
  case (Step_sock_event rt ev c c' evs)
  then show ?case
    by (cases ev) (auto simp: recv_from_fsm conn_handle_closed_def split_beta split: if_splits dest: recv_from_fsm_pair)
next
  case (Step_recv rt msg c c' evs)
  then show ?case
    by (auto simp: recv_from_fsm conn_handle_recv_def hello_rcvd_def error_rcvd_def features_reply_rcvd_def Let_def split_beta
        split: if_splits crofconn_state_t.splits crofconn_mode_t.splits dest: recv_from_fsm_pair)
next
  case (Step_timeout rt tid c c' evs)
  then show ?case
    by (auto simp: recv_from_fsm conn_handle_timeout_def hello_expired_def echo_request_expired_def features_request_expired_def
        conn_handle_closed_def check_pending_requests_def Let_def split_beta split: if_splits dest: recv_from_fsm_pair)
next
  case (Step_wakeup rt c c' evs e)
  then show ?case
    using wakeup_not_established [of c rt] by (cases "conn_deleting c"; cases "conn_state c = STATE_ESTABLISHED") (auto simp: conn_handle_wakeup_def)
next
  case (Step_close rt c c' evs)
  then show ?case
    by (auto simp: crofconn_close_def dest: recv_from_fsm_pair)
qed simp_all

lemma recv_only_established_example:
  "conn_state rx_example = STATE_ESTABLISHED \<and>
   CE_recv (cofmsg_new 1 Cofmsg_barrier_request 4 20 1) \<in> set (fst (snd (conn_handle_wakeup rt_example rx_example)))"
proof -
  have "conn_handle_wakeup rt_example rx_example = handle_rx_messages rt_example rx_example"
    using rx_example_simps(5) by (simp add: conn_handle_wakeup_def)
  moreover have "fst (snd (handle_rx_messages rt_example rx_example)) = map CE_recv (rx_turn 0 rx_example @ rx_turn 1 rx_example)"
    using rx_schedule_exact [OF rx_example_simps(1,2) rx_example_plain rx_example_simps(3)] by (metis prod.collapse)
  ultimately have "CE_recv (cofmsg_new 1 Cofmsg_barrier_request 4 20 1) \<in> set (fst (snd (conn_handle_wakeup rt_example rx_example)))"
    unfolding rx_example_turns by simp
  moreover have "conn_step (\<lambda>_. 8) (\<lambda>_. 0) (\<lambda>_. []) rx_example (fst (snd (conn_handle_wakeup rt_example rx_example)))
      (fst (conn_handle_wakeup rt_example rx_example))"
    by (rule Step_wakeup [of rt_example _ _ _ "snd (snd (conn_handle_wakeup rt_example rx_example))"]) simp
  ultimately show ?thesis
    using recv_only_established by blast
qed

end
