(* ===== verification/Multipart_Path.thy ===== *)
theory Multipart_Path
  imports Crofconn_Delivery
begin

text \<open>
  The way of a large multipart reply through two connections: \<open>segment_and_send_message\<close> of the
  sender splits it (\<open>Crofconn_Tx\<close>), \<open>handle_rx_messages\<close> of the receiver puts the parts together
  (\<open>Crofconn_Rx\<close>, \<open>Csegment\<close>).  In between lie the packing and parsing of the parts, which are not
  modelled for statistics; \<open>part_received\<close> says what the parser produces: the same header, flags
  and entries, where flow and meter entries, which have no key on the wire, are numbered from zero.
\<close>

section \<open>A part on its way\<close>

definition numbered_kind :: "stats_kind \<Rightarrow> bool" where
  "numbered_kind k \<longleftrightarrow> k = Stats_flow \<or> k = Stats_meter \<or> k = Stats_meter_config"

definition keyed_kind :: "stats_kind \<Rightarrow> bool" where
  "keyed_kind k \<longleftrightarrow> k \<in> {Stats_table, Stats_port, Stats_group, Stats_group_desc, Stats_table_features, Stats_port_desc}"

definition part_received :: "stats_kind \<Rightarrow> 'e cofmsg \<Rightarrow> 'e cofmsg \<Rightarrow> bool" where
  "part_received k p r \<longleftrightarrow> msg_header r = msg_header p \<and> msg_stats_flags r = msg_stats_flags p \<and> msg_queues r = msg_queues p \<and>
     msg_array r = (if numbered_kind k then mk_seq (map snd (msg_array p)) else msg_array p)"

text \<open>The dispatcher, message after message, until an exception flies.\<close>

fun rx_feed :: "conn_rt \<Rightarrow> 'e cofmsg list \<Rightarrow> 'e crofconn \<Rightarrow> 'e crofconn \<times> 'e conn_event list \<times> rofl_exn option" where
  "rx_feed rt [] c = (c, [], None)"
| "rx_feed rt (m # ms) c =
     (case rx_deliver rt m c of
        (c1, evs, Some e) \<Rightarrow> (c1, evs, Some e)
      | (c1, evs, None) \<Rightarrow> (case rx_feed rt ms c1 of (c2, evs2, e) \<Rightarrow> (c2, evs @ evs2, e)))"

section \<open>One step of the reassembly\<close>

lemma map_put_same: "map_put k v (map_put k w m) = map_put k v m"
  by (induction m) auto

lemma map_erase_put: "map_of m k = None \<Longrightarrow> map_erase k (map_put k v m) = m"
  by (induction m) (auto simp: map_erase_def filter_id_conv map_of_eq_None_iff rev_image_eqI split: if_splits)

text \<open>What a run of the reassembly leaves alone.\<close>

definition same_limits :: "'e crofconn \<Rightarrow> 'e crofconn \<Rightarrow> bool" where
  "same_limits c c' \<longleftrightarrow> conn_ofp_version c' = conn_ofp_version c \<and> pending_segments_max c' = pending_segments_max c \<and>
     rxqueues c' = rxqueues c"

lemma same_limits_trans: "same_limits a b \<Longrightarrow> same_limits b c \<Longrightarrow> same_limits a c"
  by (simp add: same_limits_def)

definition open_segment :: "conn_rt \<Rightarrow> 'e cofmsg \<Rightarrow> 'e crofconn \<Rightarrow> 'e csegment" where
  "open_segment rt m c =
     (case map_of (pending_segments c) (msg_xid m) of
        Some s \<Rightarrow> s
      | None \<Rightarrow> csegment_new (msg_xid m) (ts_expire_in (rt_now rt) (timeout_segments c) 0) (msg_type m) (msg_stats_type m))"

lemma set_pending_open:
  assumes "length (pending_segments c) < pending_segments_max c" "map_wf (pending_segments c)"
  shows "\<exists>c1. set_pending_segment rt (msg_xid m) (msg_type m) (msg_stats_type m) c = Inr c1 \<and>
    map_of (pending_segments c1) (msg_xid m) = Some (open_segment rt m c) \<and>
    map_put (msg_xid m) s (pending_segments c1) = map_put (msg_xid m) s (pending_segments c) \<and> same_limits c c1"
  using assms
  by (auto simp: set_pending_segment_def open_segment_def new_pending_segment_def map_of_put map_put_same same_limits_def
    split: option.split)

lemma rx_part_more:
  assumes "conn_ofp_version c = OFP13_VERSION" "reply_part k st r" "msg_stats_flags r AND OFPMPF_REQ_MORE \<noteq> 0"
    "length (pending_segments c) < pending_segments_max c" "map_wf (pending_segments c)"
    "store_and_merge_msg (rt_addr rt) r (open_segment rt r c) = Inr s"
  shows "\<exists>c'. rx_deliver rt r c = (c', [], None) \<and>
    pending_segments c' = map_put (msg_xid r) s (pending_segments c) \<and> same_limits c c'"
proof -
  obtain c1 where c1: "set_pending_segment rt (msg_xid r) (msg_type r) (msg_stats_type r) c = Inr c1"
      "map_of (pending_segments c1) (msg_xid r) = Some (open_segment rt r c)"
      "map_put (msg_xid r) s (pending_segments c1) = map_put (msg_xid r) s (pending_segments c)" "same_limits c c1"
    using set_pending_open [OF assms(4,5), of rt r s] by blast
  have "rx_deliver rt r c = rx_multipart is_stats_reply rt r c" "is_stats_reply (msg_class r)"
    using assms(1,2) by (simp_all add: rx_deliver_def handle_rx_multipart_message_def reply_part_def ofp_constants)
  then show ?thesis
    using c1 assms(3,6) by (simp add: rx_multipart_def Let_def same_limits_def)
qed

lemma rx_part_last:
  assumes "conn_ofp_version c = OFP13_VERSION" "reply_part k st r" "msg_stats_flags r AND OFPMPF_REQ_MORE = 0"
    "length (pending_segments c) < pending_segments_max c" "map_wf (pending_segments c)"
    "map_of (pending_segments c) (msg_xid r) = Some seg" "store_and_merge_msg (rt_addr rt) r seg = Inr s" "seg_msg s = Some m"
  shows "\<exists>c'. rx_deliver rt r c = (c', [CE_recv m], None) \<and>
    pending_segments c' = map_erase (msg_xid r) (map_put (msg_xid r) s (pending_segments c)) \<and> same_limits c c'"
proof -
  obtain c1 where c1: "set_pending_segment rt (msg_xid r) (msg_type r) (msg_stats_type r) c = Inr c1"
      "map_of (pending_segments c1) (msg_xid r) = Some (open_segment rt r c)"
      "map_put (msg_xid r) s (pending_segments c1) = map_put (msg_xid r) s (pending_segments c)" "same_limits c c1"
    using set_pending_open [OF assms(4,5), of rt r s] by blast
  have op: "open_segment rt r c = seg"
    using assms(6) by (simp add: open_segment_def)
  let ?ps = "map_put (msg_xid r) s (pending_segments c)"
  have ps: "length ?ps = length (pending_segments c)" "map_of ?ps (msg_xid r) = Some s"
    using assms(5,6) by (simp_all add: length_map_put map_of_put)
  have d: "rx_deliver rt r c = rx_multipart is_stats_reply rt r c" "is_stats_reply (msg_class r)"
    using assms(1,2) by (simp_all add: rx_deliver_def handle_rx_multipart_message_def reply_part_def ofp_constants)
  have has: "has_pending_segment (msg_xid r) c"
    using assms(6) by (simp add: has_pending_segment_def)
  show ?thesis
    unfolding d(1) using c1 assms(3,4,7,8) ps has d(2)
    by (auto simp: rx_multipart_def Let_def op set_pending_segment_xid_def drop_pending_segment_def
      retrieve_and_detach_msg_def same_limits_def)
qed

section \<open>All parts\<close>

lemma reassemble_append:
  "reassemble addr (xs @ ys) s = (case reassemble addr xs s of Inl e \<Rightarrow> Inl e | Inr s' \<Rightarrow> reassemble addr ys s')"
  by (induction addr xs s rule: reassemble.induct) (auto split: sum.split)

lemma rx_feed_append:
  "rx_feed rt xs c = (c1, evs, None) \<Longrightarrow>
   rx_feed rt (xs @ ys) c = (case rx_feed rt ys c1 of (c2, evs2, e) \<Rightarrow> (c2, evs @ evs2, e))"
  by (induction rt xs c arbitrary: evs rule: rx_feed.induct) (auto split: prod.splits option.splits)

text \<open>The parts before the last one: they collect in the segment of their transaction id.\<close>

lemma rx_feed_more:
  assumes "\<forall>r \<in> set rs. reply_part k st r \<and> msg_stats_flags r AND OFPMPF_REQ_MORE \<noteq> 0 \<and> msg_xid r = xid"
    "conn_ofp_version c = OFP13_VERSION" "map_wf (pending_segments c)" "map_of (pending_segments c) xid = Some s"
    "length (pending_segments c) < pending_segments_max c" "reassemble (rt_addr rt) rs s = Inr s'"
  shows "\<exists>c'. rx_feed rt rs c = (c', [], None) \<and> pending_segments c' = map_put xid s' (pending_segments c) \<and> same_limits c c'"
  using assms
proof (induction rs arbitrary: c s)
  case Nil
  have "map_put xid s ps = ps" if "map_wf ps" "map_of ps xid = Some s" for ps :: "(u32 \<times> 'a csegment) list"
    using that by (intro map_wf_ext) (auto simp: map_wf_put map_of_put)
  with Nil show ?case
    by (simp add: same_limits_def)
next
  case (Cons r rs)
  obtain s1 where s1: "store_and_merge_msg (rt_addr rt) r s = Inr s1" "reassemble (rt_addr rt) rs s1 = Inr s'"
    using Cons.prems(6) by (auto split: sum.splits)
  have r: "reply_part k st r" "msg_stats_flags r AND OFPMPF_REQ_MORE \<noteq> 0" "msg_xid r = xid" "open_segment rt r c = s"
    using Cons.prems(1,4) by (simp_all add: open_segment_def)
  obtain c1 where c1: "rx_deliver rt r c = (c1, [], None)" "pending_segments c1 = map_put xid s1 (pending_segments c)"
      "same_limits c c1"
    using rx_part_more [OF Cons.prems(2) r(1,2) Cons.prems(5,3)] s1(1) r(3,4) by auto
  have p1: "map_wf (pending_segments c1)" "map_of (pending_segments c1) xid = Some s1"
      "length (pending_segments c1) < pending_segments_max c1" "conn_ofp_version c1 = OFP13_VERSION"
    using c1 Cons.prems(2-5) by (simp_all add: map_wf_put map_of_put length_map_put same_limits_def)
  obtain c2 where "rx_feed rt rs c1 = (c2, [], None)" "pending_segments c2 = map_put xid s' (pending_segments c1)"
      "same_limits c1 c2"
    using Cons.IH [OF _ p1(4,1,2,3) s1(2)] Cons.prems(1) by auto
  with c1 show ?case
    by (auto simp: map_put_same intro: same_limits_trans)
qed

text \<open>
  The parts of one message, the last one without the MORE flag, at a connection without a segment of
  this transaction id and with room for one more segment besides.
\<close>

lemma rx_feed_parts:
  assumes parts: "\<forall>r \<in> set (r1 # rs @ [rl]). reply_part k st r \<and> msg_xid r = xid"
    and more: "\<forall>r \<in> set (r1 # rs). msg_stats_flags r AND OFPMPF_REQ_MORE \<noteq> 0" "msg_stats_flags rl AND OFPMPF_REQ_MORE = 0"
    and c: "conn_ofp_version c = OFP13_VERSION" "map_wf (pending_segments c)" "map_of (pending_segments c) xid = None"
      "Suc (length (pending_segments c)) < pending_segments_max c"
    and re: "reassemble (rt_addr rt) (r1 # rs @ [rl])
        (csegment_new xid (ts_expire_in (rt_now rt) (timeout_segments c) 0) OFPT_MULTIPART_REPLY st) = Inr s" "seg_msg s = Some m"
  shows "\<exists>c'. rx_feed rt (r1 # rs @ [rl]) c = (c', [CE_recv m], None) \<and> pending_segments c' = pending_segments c"
proof -
  let ?s0 = "csegment_new xid (ts_expire_in (rt_now rt) (timeout_segments c) 0) OFPT_MULTIPART_REPLY st"
  have r1: "reply_part k st r1" "msg_xid r1 = xid" "msg_stats_flags r1 AND OFPMPF_REQ_MORE \<noteq> 0"
    using parts more(1) by simp_all
  have op: "open_segment rt r1 c = ?s0"
    using r1 c(3) by (simp add: open_segment_def reply_part_def)
  obtain s1 s2 where s: "store_and_merge_msg (rt_addr rt) r1 ?s0 = Inr s1" "reassemble (rt_addr rt) rs s1 = Inr s2"
      "store_and_merge_msg (rt_addr rt) rl s2 = Inr s"
    using re(1) by (auto simp: reassemble_append split: sum.splits)
  obtain c1 where c1: "rx_deliver rt r1 c = (c1, [], None)" "pending_segments c1 = map_put xid s1 (pending_segments c)"
      "same_limits c c1"
    using rx_part_more [OF c(1) r1(1,3) Suc_lessD [OF c(4)] c(2), where rt = rt and s = s1] s(1) op r1(2) by auto
  have p1: "conn_ofp_version c1 = OFP13_VERSION" "map_wf (pending_segments c1)" "map_of (pending_segments c1) xid = Some s1"
      "length (pending_segments c1) < pending_segments_max c1"
    using c1 c by (simp_all add: map_wf_put map_of_put length_map_put same_limits_def)
  obtain c2 where c2: "rx_feed rt rs c1 = (c2, [], None)" "pending_segments c2 = map_put xid s2 (pending_segments c1)"
      "same_limits c1 c2"
    using rx_feed_more [OF _ p1 s(2), where k = k and st = st] parts more(1) by auto
  have p2: "conn_ofp_version c2 = OFP13_VERSION" "map_wf (pending_segments c2)" "map_of (pending_segments c2) xid = Some s2"
      "length (pending_segments c2) < pending_segments_max c2"
    using c2 p1 by (simp_all add: map_wf_put map_of_put length_map_put same_limits_def)
  have rl: "reply_part k st rl" "msg_xid rl = xid"
    using parts by simp_all
  obtain c3 where c3: "rx_deliver rt rl c2 = (c3, [CE_recv m], None)"
      "pending_segments c3 = map_erase xid (map_put xid s (pending_segments c2))"
    using rx_part_last [OF p2(1) rl(1) more(2) p2(4,2) _ s(3) re(2)] p2(3) rl(2) by auto
  have "pending_segments c3 = pending_segments c"
    using c3(2) c2(2) c1(2) c(3) by (simp add: map_put_same map_erase_put)
  moreover have "rx_feed rt (r1 # rs @ [rl]) c = (c3, [CE_recv m], None)"
    using c1(1) rx_feed_append [OF c2(1), of "[rl]"] c3(1) by simp
  ultimately show ?thesis
    by blast
qed

section \<open>The arrays\<close>

lemma keyed_override_append: "map_wf (a @ b) \<Longrightarrow> keyed_override a b = a @ b"
proof (induction b arbitrary: a)
  case (Cons ke b)
  obtain k e where ke: "ke = (k, e)"
    by fastforce
  have "map_put k e a = a @ [(k, e)]"
    using Cons.prems by (intro map_put_above) (auto simp: ke map_wf_def sorted_wrt_append)
  then show ?case
    using Cons.IH [of "a @ [(k, e)]"] Cons.prems by (simp add: keyed_override_def ke)
qed (simp add: keyed_override_def)

lemma map_wf_append1: "map_wf (a @ b) \<Longrightarrow> map_wf a"
  by (simp add: map_wf_def sorted_wrt_append)

lemma keyed_override_concat: "map_wf (a @ concat bs) \<Longrightarrow> foldl keyed_override a bs = a @ concat bs"
proof (induction bs arbitrary: a)
  case (Cons b bs)
  then have "keyed_override a b = a @ b"
    using map_wf_append1 [of "a @ b" "concat bs"] by (simp add: keyed_override_append)
  with Cons show ?case
    by simp
qed simp

lemma set_more_split:
  "ms \<noteq> [] \<Longrightarrow> set_more ms =
   map (\<lambda>m. m\<lparr>msg_stats_flags := msg_stats_flags m OR OFPMPF_REPLY_MORE\<rparr>) (butlast ms) @ [last ms]"
  by (induction ms rule: set_more.induct) auto

lemma more_flag:
  fixes f :: u16
  shows "(f OR OFPMPF_REPLY_MORE) AND OFPMPF_REQ_MORE \<noteq> 0"
    "f AND OFPMPF_REPLY_MORE = 0 \<Longrightarrow> (f OR OFPMPF_REPLY_MORE) AND NOT OFPMPF_REQ_MORE = f"
    "f AND OFPMPF_REPLY_MORE = 0 \<Longrightarrow> f AND NOT OFPMPF_REQ_MORE = f"
proof -
  have "bit ((f OR 1) AND 1) 0"
    by (simp add: bit_simps)
  then show "(f OR OFPMPF_REPLY_MORE) AND OFPMPF_REQ_MORE \<noteq> 0"
    by (auto simp: ofp_constants)
  assume "f AND OFPMPF_REPLY_MORE = 0"
  then have "\<not> bit (f AND 1) 0"
    by (simp add: ofp_constants)
  then have "\<not> bit f 0"
    by (simp add: bit_simps)
  then show "(f OR OFPMPF_REPLY_MORE) AND NOT OFPMPF_REQ_MORE = f" "f AND NOT OFPMPF_REQ_MORE = f"
    by (auto simp: ofp_constants bit_simps intro!: bit_word_eqI) (metis gr0I)+
qed

section \<open>The parts of a message as they arrive\<close>

lemma list_all2_same_map: "list_all2 (\<lambda>p r. f r = g p) ps rs \<Longrightarrow> map f rs = map g ps"
  by (induction ps rs rule: list_all2_induct) simp_all

definition parts_arrived :: "stats_kind \<Rightarrow> ('e \<Rightarrow> nat) \<Rightarrow> nat \<Rightarrow> 'e cofmsg \<Rightarrow> 'e cofmsg list \<Rightarrow> bool" where
  "parts_arrived k elen addr msg rs \<longleftrightarrow> list_all2 (part_received k) (set_more (array_segments elen addr msg)) rs"

lemma map_flags_set_more:
  "segs \<noteq> [] \<Longrightarrow> map f (set_more segs) =
   map (\<lambda>m. f (m\<lparr>msg_stats_flags := msg_stats_flags m OR OFPMPF_REPLY_MORE\<rparr>)) (butlast segs) @ [f (last segs)]"
  by (simp add: set_more_split)

lemma array_segments_flags: "m \<in> set (array_segments elen addr msg) \<Longrightarrow> msg_stats_flags m = msg_stats_flags msg"
  by (auto simp: array_segments_def new_segment_def)

lemma array_segments_nonempty: "msg_array msg \<noteq> [] \<Longrightarrow> array_segments elen addr msg \<noteq> []"
  using arg_cong [OF array_segments_arrays [of elen addr msg], of length]
  by (auto simp: split_array.simps [of elen "msg_array msg"] split: prod.splits)

lemma parts_arrivedD:
  assumes "parts_arrived k elen addr msg rs" "msg_array msg \<noteq> []" "map_wf (msg_array msg)"
  shows "\<And>r. r \<in> set rs \<Longrightarrow> msg_header r = msg_header msg" "rs \<noteq> []"
    "\<And>r. r \<in> set (butlast rs) \<Longrightarrow> msg_stats_flags r = msg_stats_flags msg OR OFPMPF_REPLY_MORE"
    "msg_stats_flags (last rs) = msg_stats_flags msg"
    "concat (map (\<lambda>r. map snd (msg_array r)) rs) = map snd (msg_array msg)"
    "\<not> numbered_kind k \<Longrightarrow> concat (map msg_array rs) = msg_array msg"
    "\<And>r. r \<in> set rs \<Longrightarrow> numbered_kind k \<Longrightarrow> seq_array (msg_array r)"
proof -
  let ?segs = "array_segments elen addr msg" and ?fl = "msg_stats_flags msg"
  have ne: "?segs \<noteq> []"
    by (rule array_segments_nonempty [OF assms(2)])
  have l2: "list_all2 (part_received k) (set_more ?segs) rs"
    using assms(1) by (simp add: parts_arrived_def)
  have hd: "map msg_header rs = map msg_header (set_more ?segs)"
    by (rule list_all2_same_map) (rule list_all2_mono [OF l2], simp add: part_received_def)
  have sub: "set (map msg_header (set_more ?segs)) \<subseteq> {msg_header msg}"
    using segment_headers [of _ elen addr msg] by auto
  show "msg_header r = msg_header msg" if "r \<in> set rs" for r
  proof -
    have "msg_header r \<in> set (map msg_header rs)"
      using that by simp
    with sub show ?thesis
      unfolding hd by blast
  qed
  have "length rs = length ?segs"
    using list_all2_lengthD [OF l2] ne by (simp add: set_more_split)
  then show rne: "rs \<noteq> []"
    using ne by auto
  have "map msg_stats_flags rs = map msg_stats_flags (set_more ?segs)"
    by (rule list_all2_same_map) (rule list_all2_mono [OF l2], simp add: part_received_def)
  also have "\<dots> = map (\<lambda>m. ?fl OR OFPMPF_REPLY_MORE) (butlast ?segs) @ [?fl]"
    using array_segments_flags [of _ elen addr msg] ne
    by (auto simp: map_flags_set_more dest: in_set_butlastD)
  finally have fl: "map msg_stats_flags (butlast rs @ [last rs]) = map (\<lambda>m. ?fl OR OFPMPF_REPLY_MORE) (butlast ?segs) @ [?fl]"
    using rne by simp
  then show "msg_stats_flags (last rs) = ?fl"
    by simp
  from fl have "set (map msg_stats_flags (butlast rs)) \<subseteq> {?fl OR OFPMPF_REPLY_MORE}"
    by auto
  then show "msg_stats_flags r = ?fl OR OFPMPF_REPLY_MORE" if "r \<in> set (butlast rs)" for r
    using that by auto
  have arr: "map msg_array (set_more ?segs) = split_array elen (msg_array msg)"
    unfolding array_segments_arrays [of elen addr msg, symmetric] using ne
    by (simp add: map_flags_set_more) (metis append_butlast_last_id list.simps(8,9) map_append)
  have cc: "concat (split_array elen (msg_array msg)) = msg_array msg"
    using split_array_well [OF assms(3), of elen] by (simp add: well_split_def)
  have "map (\<lambda>r. map snd (msg_array r)) rs = map (\<lambda>r. map snd (msg_array r)) (set_more ?segs)"
    by (rule list_all2_same_map) (rule list_all2_mono [OF l2], simp add: part_received_def)
  also have "\<dots> = map (map snd) (split_array elen (msg_array msg))"
    by (simp flip: arr)
  finally show "concat (map (\<lambda>r. map snd (msg_array r)) rs) = map snd (msg_array msg)"
    by (simp add: cc flip: map_concat)
  have "map msg_array rs = map msg_array (set_more ?segs)" if "\<not> numbered_kind k"
    by (rule list_all2_same_map) (rule list_all2_mono [OF l2], use that in \<open>simp add: part_received_def\<close>)
  then show "\<not> numbered_kind k \<Longrightarrow> concat (map msg_array rs) = msg_array msg"
    using arr cc by simp
  show "seq_array (msg_array r)" if r: "r \<in> set rs" and num: "numbered_kind k" for r
  proof -
    obtain i where "i < length rs" "rs ! i = r"
      using r by (auto simp: in_set_conv_nth)
    then have "part_received k (set_more ?segs ! i) r"
      using list_all2_nthD2 [OF l2] by blast
    then show ?thesis
      using num by (simp add: part_received_def)
  qed
qed

text \<open>What merging the received parts gives.\<close>

lemma parts_merged:
  assumes "parts_arrived k elen addr msg (p # ps)" "msg_array msg \<noteq> []" "map_wf (msg_array msg)" "reply_part k st msg"
    "numbered_kind k \<and> seq_array (msg_array msg) \<and> length (msg_array msg) \<le> 2 ^ 32 \<or> keyed_kind k"
  shows "\<exists>s m. reassemble a (p # ps) (csegment_new xid ts OFPT_MULTIPART_REPLY st) = Inr s \<and> seg_msg s = Some m \<and>
    msg_array m = msg_array msg \<and> msg_xid m = msg_xid p \<and> msg_version m = msg_version p \<and>
    msg_stats_flags m = msg_stats_flags p AND NOT OFPMPF_REPLY_MORE"
proof -
  note d = parts_arrivedD [OF assms(1-3)]
  have parts: "\<forall>q \<in> set (p # ps). reply_part k st q"
    using d(1) assms(4) by (auto simp: msg_header_def reply_part_def)
  let ?m = "foldl (merge_arrays k) (part_clone a p) ps"
  show ?thesis
  proof (cases "numbered_kind k")
    case True
    then have k: "k = Stats_flow \<or> k = Stats_meter \<or> k = Stats_meter_config"
      by (simp add: numbered_kind_def)
    have sq: "seq_array (msg_array msg)" "length (msg_array msg) \<le> 2 ^ 32"
      using assms(5) True by (auto simp: numbered_kind_def keyed_kind_def)
    have "sum_list (map (\<lambda>q. length (msg_array q)) (p # ps)) = length (concat (map (\<lambda>r. map snd (msg_array r)) (p # ps)))"
      by (simp add: length_concat comp_def)
    also have "\<dots> = length (msg_array msg)"
      unfolding d(5) by simp
    finally have len: "sum_list (map (\<lambda>q. length (msg_array q)) (p # ps)) \<le> 2 ^ 32"
      using sq(2) by simp
    obtain s m where sm: "reassemble a (p # ps) (csegment_new xid ts OFPT_MULTIPART_REPLY st) = Inr s" "seg_msg s = Some m"
        "map snd (msg_array m) = concat (map (\<lambda>q. map snd (msg_array q)) (p # ps))" "seq_array (msg_array m)"
        "msg_xid m = msg_xid p" "msg_version m = msg_version p" "msg_stats_flags m = msg_stats_flags p AND NOT OFPMPF_REPLY_MORE"
      using reassemble_numbered [OF k _ len, of st a xid ts] parts d(7) True by blast
    have "msg_array m = msg_array msg"
      using sm(3,4) sq(1) d(5) by (simp add: seq_array_iff)
    with sm show ?thesis
      by blast
  next
    case False
    then have f: "msg_array (merge_arrays k m s) = keyed_override (msg_array m) (msg_array s)" for m s :: "'a cofmsg"
      using assms(5) by (auto simp: keyed_kind_def)
    have cc: "msg_array p @ concat (map msg_array ps) = msg_array msg"
      using d(6) [OF False] by simp
    then have "msg_array ?m = msg_array msg"
      using foldl_merge_array [OF f, of "part_clone a p" ps] keyed_override_concat [of "msg_array p" "map msg_array ps"]
        assms(3) by (simp add: part_clone_def)
    then show ?thesis
      using reassemble_reply [OF parts, of a xid ts]
      by (simp add: foldl_merge_frame part_clone_def ofp_constants)
  qed
qed

section \<open>From sender to receiver\<close>

text \<open>
  C2: a multipart reply of OpenFlow 1.3 beyond the segmentation threshold reaches the owner on the
  other side as one message.  Whatever the number of segments, the receiver's dispatcher hands over
  exactly one message; it has the version, transaction id, flags and all entries of the original in
  their order, and nothing of it stays in the table of pending segments.  The receiver must have no
  segment of this transaction id and room for one more besides.
\<close>

theorem multipart_end_to_end:
  assumes "reply_part k st msg" and "msg_version msg = OFP13_VERSION" and "msg_stats_flags msg AND OFPMPF_REPLY_MORE = 0"
    and "map_wf (msg_array msg)" and "msg_array msg \<noteq> []"
    and "numbered_kind k \<and> seq_array (msg_array msg) \<and> length (msg_array msg) \<le> 2 ^ 32 \<or> keyed_kind k"
    and "parts_arrived k elen addr msg rs"
    and "conn_ofp_version c = OFP13_VERSION" and "map_wf (pending_segments c)"
    and "map_of (pending_segments c) (msg_xid msg) = None" and "Suc (length (pending_segments c)) < pending_segments_max c"
  shows "\<exists>c' m. rx_feed rt rs c = (c', [CE_recv m], None) \<and> pending_segments c' = pending_segments c \<and>
    msg_array m = msg_array msg \<and> msg_xid m = msg_xid msg \<and> msg_version m = msg_version msg \<and>
    msg_stats_flags m = msg_stats_flags msg"
proof -
  note d = parts_arrivedD [OF assms(7,5,4)]
  have hd: "reply_part k st r \<and> msg_xid r = msg_xid msg \<and> msg_version r = msg_version msg" if "r \<in> set rs" for r
    using d(1) [OF that] assms(1) by (simp add: msg_header_def reply_part_def)
  obtain r1 where r1: "rs = r1 # tl rs"
    using d(2) by (metis list.collapse)
  show ?thesis
  proof (cases "tl rs = []")
    case True
    then have one: "rs = [r1]"
      using r1 by simp
    have "rx_deliver rt r1 c = (c, [CE_recv r1], None)"
      using hd [of r1] d(4) assms(3,8,10) one
      by (simp add: rx_deliver_def handle_rx_multipart_message_def rx_multipart_def Let_def reply_part_def
        ofp_constants has_pending_segment_def)
    moreover have "msg_array r1 = msg_array msg"
    proof (cases "numbered_kind k")
      case True
      then show ?thesis
        using d(5) d(7) [of r1] assms(6) one by (auto simp: seq_array_iff numbered_kind_def keyed_kind_def)
    next
      case False
      then show ?thesis
        using d(6) one by simp
    qed
    ultimately show ?thesis
      using hd [of r1] d(4) one by simp
  next
    case False
    then obtain mid rl where rs: "rs = r1 # mid @ [rl]"
      using r1 by (metis append_butlast_last_id)
    have b: "butlast rs = r1 # mid" "last rs = rl"
      by (simp_all add: rs)
    obtain s m where sm: "reassemble (rt_addr rt) rs
        (csegment_new (msg_xid msg) (ts_expire_in (rt_now rt) (timeout_segments c) 0) OFPT_MULTIPART_REPLY st) = Inr s"
        "seg_msg s = Some m" "msg_array m = msg_array msg" "msg_xid m = msg_xid r1" "msg_version m = msg_version r1"
        "msg_stats_flags m = msg_stats_flags r1 AND NOT OFPMPF_REPLY_MORE"
      using parts_merged [OF _ assms(5,4,1,6), of elen addr r1 "tl rs" "rt_addr rt" "msg_xid msg"] assms(7) r1 by metis
    have fl: "msg_stats_flags r = msg_stats_flags msg OR OFPMPF_REPLY_MORE" if "r \<in> set (r1 # mid)" for r
      using d(3) that unfolding b .
    have "\<forall>r \<in> set (r1 # mid @ [rl]). reply_part k st r \<and> msg_xid r = msg_xid msg"
      using hd unfolding rs [symmetric] by blast
    moreover have "\<forall>r \<in> set (r1 # mid). msg_stats_flags r AND OFPMPF_REQ_MORE \<noteq> 0"
      using fl more_flag(1) by metis
    moreover have "msg_stats_flags rl AND OFPMPF_REQ_MORE = 0"
      using d(4) assms(3) b(2) by (simp add: ofp_constants)
    ultimately have "\<exists>c'. rx_feed rt rs c = (c', [CE_recv m], None) \<and> pending_segments c' = pending_segments c"
      using rx_feed_parts [OF _ _ _ assms(8-11) sm(1) [unfolded rs] sm(2)] unfolding rs [symmetric] by blast
    moreover have "r1 \<in> set rs"
      using r1 by (metis list.set_intros(1))
    ultimately show ?thesis
      using sm hd [of r1] fl [of r1] more_flag(2) [OF assms(3)] by (auto simp: ofp_constants)
  qed
qed

text \<open>Three flow entries of 40000 bytes each travel in two segments.\<close>

definition parts_example :: "string cofmsg list" where
  "parts_example = map (\<lambda>p. p\<lparr>msg_array := mk_seq (map snd (msg_array p))\<rparr>)
     (set_more (array_segments (\<lambda>_. 40000) 7 part_example))"

lemma parts_example_arrived: "parts_arrived Stats_flow (\<lambda>_. 40000) 7 part_example parts_example"
  by (simp add: parts_arrived_def parts_example_def list_all2_map2 part_received_def numbered_kind_def msg_header_def
    list_all2_same)

theorem multipart_end_to_end_witness:
  "length parts_example = 2 \<and>
   (\<exists>c' m. rx_feed rt_example parts_example conn_established = (c', [CE_recv m], None) \<and>
     msg_array m = [(0, ''a''), (1, ''b''), (2, ''c'')])"
proof
  show "length parts_example = 2"
    by (simp add: parts_example_def array_segments_def part_example_def flow_part_def split_array.simps array_length_def
      MAX_LENGTH_def)
  have "reply_part Stats_flow 1 part_example" "msg_version part_example = OFP13_VERSION"
      "msg_array part_example = [(0, ''a''), (1, ''b''), (2, ''c'')]" "msg_stats_flags part_example = 0"
    using flow_part_reply by (simp_all add: part_example_def flow_part_def ofp_constants)
  moreover have "conn_ofp_version conn_established = OFP13_VERSION" "pending_segments conn_established = []"
      "pending_segments_max conn_established = 256"
    by (simp_all add: conn_established_def conn_example_def crofconn_new_def ofp_constants)
  ultimately show "\<exists>c' m. rx_feed rt_example parts_example conn_established = (c', [CE_recv m], None) \<and>
     msg_array m = [(0, ''a''), (1, ''b''), (2, ''c'')]"
    using multipart_end_to_end [OF _ _ _ _ _ _ parts_example_arrived, of 1 conn_established rt_example]
    by (force simp: map_wf_def seq_array_def numbered_kind_def)
qed

end
