(* ===== verification/Crofchan.thy ===== *)
theory Crofchan
  imports Crofconn_Rx
begin

text \<open>
  \<open>rofl::crofchan\<close> (\<open>crofchan.h\<close>, \<open>crofchan.cc\<close>): a control channel, that is the main connection
  (auxiliary id 0) and the auxiliary connections to one peer.  The channel owns its connections
  through pointers, so the model has a store from addresses to connections; \<open>chan_owner\<close> says whose
  environment pointer leads to the channel.  Deleting twice or using a deleted connection is the
  outcome \<open>CH_dangling\<close>.

  \<open>conns_rwlock\<close> is not recursive: the model counts the read locks the calling thread holds, and
  asking for the write lock meanwhile blocks for ever (\<open>CH_blocked\<close>).  Calls to the owner of the
  channel are events; \<open>chan_env\<close> says whether it is registered, otherwise a call throws
  \<open>eRofChanNotFound\<close>.
\<close>

section \<open>Types\<close>

datatype crofchan_state_t =
    CHAN_DISCONNECTED | CHAN_CONNECTING | CHAN_ESTABLISHED | CHAN_DISCONNECTING | CHAN_DELETE_IN_PROGRESS

definition TIMER_ID_ROFCONN_DESTROY :: u32 where "TIMER_ID_ROFCONN_DESTROY = 0"

record 'e crofchan =
  chan_this :: nat
  chan_env :: bool
  chan_thread :: cthread
  chan_state :: crofchan_state_t
  chan_conns :: "(u8 \<times> nat) list"
  chan_read_locks :: nat
  last_auxid :: u8
  chan_ofp_version :: u8
  conns_deletion :: "nat list"
  chan_heap :: "nat \<Rightarrow> 'e crofconn option"
  chan_owner :: "nat \<Rightarrow> bool"

datatype 'e chan_event =
    Chan_established u8 | Chan_closed | Chan_conn nat "'e conn_event"

text \<open>How a method may end other than by returning.\<close>

datatype chan_halt = CH_throw rofl_exn | CH_blocked | CH_dangling | CH_fuel

type_synonym ('e, 'v) chan_res = "'e crofchan \<times> 'e chan_event list \<times> (chan_halt + 'v)"

definition crofchan_new :: "nat \<Rightarrow> cthread \<Rightarrow> 'e crofchan" where
  "crofchan_new this th =
     \<lparr>chan_this = this, chan_env = True, chan_thread = th, chan_state = CHAN_DISCONNECTED, chan_conns = [],
      chan_read_locks = 0, last_auxid = 0, chan_ofp_version = OFP_VERSION_UNKNOWN, conns_deletion = [],
      chan_heap = (\<lambda>_. None), chan_owner = (\<lambda>_. False)\<rparr>"

section \<open>Helpers\<close>

definition chan_deleting :: "'e crofchan \<Rightarrow> bool" where
  "chan_deleting c \<longleftrightarrow> chan_state c = CHAN_DELETE_IN_PROGRESS"

text \<open>\<open>if (not has_timer(...)) add_timer(this, TIMER_ID_ROFCONN_DESTROY, expire_in(secs))\<close>\<close>

definition start_destroy_timer :: "conn_rt \<Rightarrow> int \<Rightarrow> 'e crofchan \<Rightarrow> 'e crofchan" where
  "start_destroy_timer rt secs c =
     (if \<not> cthread_has_timer (chan_this c) TIMER_ID_ROFCONN_DESTROY (chan_thread c)
      then c\<lparr>chan_thread := fst (cthread_add_timer (rt_self rt) (chan_this c) TIMER_ID_ROFCONN_DESTROY
                                    (ts_expire_in (rt_now rt) secs 0) (chan_thread c))\<rparr>
      else c)"

text \<open>\<open>call_env(env)\<close> followed by the call.\<close>

definition call_owner :: "'e chan_event list \<Rightarrow> 'e crofchan \<Rightarrow> ('e, unit) chan_res" where
  "call_owner evs c = (if chan_env c then (c, evs, Inr ()) else (c, [], Inl (CH_throw ERofChanNotFound)))"

text \<open>\<open>conn->set_env(nullptr); conns_deletion.insert(conn)\<close>\<close>

definition schedule_deletion :: "nat \<Rightarrow> 'e crofchan \<Rightarrow> 'e crofchan" where
  "schedule_deletion p c =
     c\<lparr>chan_owner := (chan_owner c)(p := False), conns_deletion := fst (set_emplace (<) p (conns_deletion c))\<rparr>"

text \<open>\<open>delete conn\<close>: the destructor of a connection makes no calls.\<close>

definition delete_conn :: "nat \<Rightarrow> 'e crofchan \<Rightarrow> 'e crofchan \<times> chan_halt option" where
  "delete_conn p c =
     (if chan_heap c p = None then (c, Some CH_dangling)
      else (c\<lparr>chan_heap := (chan_heap c)(p := None)\<rparr>, None))"

fun delete_conns :: "nat list \<Rightarrow> 'e crofchan \<Rightarrow> 'e crofchan \<times> chan_halt option" where
  "delete_conns [] c = (c, None)"
| "delete_conns (p # ps) c =
     (case delete_conn p c of (c1, Some h) \<Rightarrow> (c1, Some h) | (c1, None) \<Rightarrow> delete_conns ps c1)"

text \<open>\<open>set_env(nullptr)\<close>, \<open>close()\<close> and the entry in \<open>conns_deletion\<close>: no callback reaches the channel.\<close>

definition detach_conn :: "conn_rt \<Rightarrow> nat \<Rightarrow> 'e crofchan \<Rightarrow> 'e crofchan \<times> chan_halt option" where
  "detach_conn rt p c =
     (case chan_heap c p of
        None \<Rightarrow> (c, Some CH_dangling)
      | Some k \<Rightarrow> (schedule_deletion p (c\<lparr>chan_heap := (chan_heap c)(p \<mapsto> fst (crofconn_close rt k))\<rparr>), None))"

fun detach_conns :: "conn_rt \<Rightarrow> nat list \<Rightarrow> 'e crofchan \<Rightarrow> 'e crofchan \<times> chan_halt option" where
  "detach_conns rt [] c = (c, None)"
| "detach_conns rt (p # ps) c =
     (case detach_conn rt p c of (c1, Some h) \<Rightarrow> (c1, Some h) | (c1, None) \<Rightarrow> detach_conns rt ps c1)"

text \<open>The write lock around a method.\<close>

definition with_write_lock :: "('e crofchan \<Rightarrow> ('e, 'v) chan_res) \<Rightarrow> 'e crofchan \<Rightarrow> ('e, 'v) chan_res" where
  "with_write_lock f c = (if 0 < chan_read_locks c then (c, [], Inl CH_blocked) else f c)"

section \<open>Queries\<close>

definition chan_size :: "'e crofchan \<Rightarrow> nat" where
  "chan_size c = length (chan_conns c)"

definition chan_keys :: "'e crofchan \<Rightarrow> u8 list" where
  "chan_keys c = map fst (chan_conns c)"

definition has_conn :: "u8 \<Rightarrow> 'e crofchan \<Rightarrow> bool" where
  "has_conn auxid c \<longleftrightarrow> map_of (chan_conns c) auxid \<noteq> None"

definition get_conn :: "u8 \<Rightarrow> 'e crofchan \<Rightarrow> nat result" where
  "get_conn auxid c = (case map_of (chan_conns c) auxid of None \<Rightarrow> Inl ERofChanNotFound | Some p \<Rightarrow> Inr p)"

definition is_conn_established :: "nat \<Rightarrow> 'e crofchan \<Rightarrow> chan_halt + bool" where
  "is_conn_established p c =
     (case chan_heap c p of None \<Rightarrow> Inl CH_dangling | Some k \<Rightarrow> Inr (conn_state k = STATE_ESTABLISHED))"

text \<open>\<open>conns.at(cauxid(0))\<close> throws \<open>std::out_of_range\<close> when there is no main connection.\<close>

definition chan_is_established :: "'e crofchan \<Rightarrow> chan_halt + bool" where
  "chan_is_established c =
     (if chan_conns c = [] then Inr False
      else (case map_of (chan_conns c) 0 of
              None \<Rightarrow> Inl (CH_throw EOutOfRange)
            | Some p \<Rightarrow> is_conn_established p c))"

section \<open>Adding connections\<close>

text \<open>
  \<open>while ((cnt--) && (conns.find(last_auxid) != conns.end()))\<close>, from \<open>cnt = n\<close>: the id it stops at
  and the value \<open>cnt\<close> is left with, which wraps around when the test fails at zero.
\<close>

fun probe_auxid :: "nat \<Rightarrow> u8 \<Rightarrow> (u8 \<times> nat) list \<Rightarrow> u8 \<times> u32" where
  "probe_auxid 0 auxid m = (auxid, 0 - 1)"
| "probe_auxid (Suc n) auxid m =
     (if map_of m auxid \<noteq> None then probe_auxid n (if auxid = 255 then 0 else auxid + 1) m
      else (auxid, word_of_nat n))"

text \<open>\<open>conns[auxid] = new crofconn(this)\<close>; \<open>k\<close> is the new object, at address \<open>rt_addr rt\<close>.\<close>

definition put_new_conn :: "conn_rt \<Rightarrow> u8 \<Rightarrow> 'e crofconn \<Rightarrow> 'e crofchan \<Rightarrow> ('e, nat) chan_res" where
  "put_new_conn rt auxid k c =
     (c\<lparr>chan_conns := map_put auxid (rt_addr rt) (chan_conns c),
        chan_heap := (chan_heap c)(rt_addr rt \<mapsto> k\<lparr>conn_auxid := auxid\<rparr>),
        chan_owner := (chan_owner c)(rt_addr rt := True)\<rparr>, [], Inr (rt_addr rt))"

definition add_conn :: "conn_rt \<Rightarrow> 'e crofconn \<Rightarrow> 'e crofchan \<Rightarrow> ('e, nat) chan_res" where
  "add_conn rt k = with_write_lock (\<lambda>c.
     case probe_auxid 256 (last_auxid c) (chan_conns c) of (auxid, cnt) \<Rightarrow>
       (let c1 = c\<lparr>last_auxid := auxid\<rparr>
        in if cnt = 0 then (c1, [], Inl (CH_throw ERofChanExhausted)) else put_new_conn rt auxid k c1))"

definition add_conn_auxid :: "conn_rt \<Rightarrow> u8 \<Rightarrow> 'e crofconn \<Rightarrow> 'e crofchan \<Rightarrow> ('e, nat) chan_res" where
  "add_conn_auxid rt auxid k = with_write_lock (\<lambda>c.
     case (case map_of (chan_conns c) auxid of None \<Rightarrow> (c, None) | Some p \<Rightarrow> delete_conn p c) of
       (c1, Some h) \<Rightarrow> (c1, [], Inl h)
     | (c1, None) \<Rightarrow> put_new_conn rt auxid k c1)"

text \<open>\<open>add_conn(crofconn *)\<close>: \<open>p\<close> is the pointer, \<open>None\<close> the null pointer.\<close>

definition add_conn_ptr :: "conn_rt \<Rightarrow> nat option \<Rightarrow> 'e crofchan \<Rightarrow> ('e, nat) chan_res" where
  "add_conn_ptr rt ptr c =
     (case ptr of
        None \<Rightarrow> (c, [], Inl (CH_throw ERofChanInval))
      | Some p \<Rightarrow> with_write_lock (\<lambda>c.
          case chan_heap c p of
            None \<Rightarrow> (c, [], Inl CH_dangling)
          | Some k \<Rightarrow>
              (let auxid = conn_auxid k
               in case (case map_of (chan_conns c) auxid of
                          None \<Rightarrow> (c, [], Inr ())
                        | Some old \<Rightarrow>
                            (case call_owner [Chan_conn old CE_closed] c of
                               (c1, evs, Inl h) \<Rightarrow> (c1, evs, Inl h)
                             | (c1, evs, Inr _) \<Rightarrow>
                                 (start_destroy_timer rt 8 (schedule_deletion old c1), evs, Inr ()))) of
                    (c1, evs, Inl h) \<Rightarrow> (c1, evs, Inl h)
                  | (c1, evs, Inr _) \<Rightarrow>
                      (let c2 = c1\<lparr>chan_conns := map_put auxid p (chan_conns c1),
                                   chan_owner := (chan_owner c1)(p := True)\<rparr>;
                           c3 = (if auxid = 0 then c2\<lparr>chan_ofp_version := conn_ofp_version k\<rparr> else c2)
                       in (c3, evs, Inr p)))) c)"

definition set_conn :: "conn_rt \<Rightarrow> u8 \<Rightarrow> 'e crofconn \<Rightarrow> 'e crofchan \<Rightarrow> ('e, nat) chan_res" where
  "set_conn rt auxid k = with_write_lock (\<lambda>c.
     case map_of (chan_conns c) auxid of
       None \<Rightarrow> put_new_conn rt auxid k c
     | Some p \<Rightarrow> (c, [], Inr p))"

section \<open>Dropping connections\<close>

text \<open>\<open>clear()\<close>, which \<open>close()\<close> calls.\<close>

definition chan_clear :: "conn_rt \<Rightarrow> 'e crofchan \<Rightarrow> ('e, unit) chan_res" where
  "chan_clear rt = with_write_lock (\<lambda>c.
     case detach_conns rt (map snd (chan_conns c)) (c\<lparr>chan_state := CHAN_DISCONNECTING\<rparr>) of
       (c1, Some h) \<Rightarrow> (c1, [], Inl h)
     | (c1, None) \<Rightarrow>
         ((start_destroy_timer rt 8 (c1\<lparr>chan_conns := []\<rparr>))\<lparr>chan_state := CHAN_DISCONNECTED\<rparr>, [], Inr ()))"

definition chan_close :: "conn_rt \<Rightarrow> 'e crofchan \<Rightarrow> ('e, unit) chan_res" where
  "chan_close = chan_clear"

definition drop_conn :: "conn_rt \<Rightarrow> u8 \<Rightarrow> 'e crofchan \<Rightarrow> ('e, bool) chan_res" where
  "drop_conn rt auxid = with_write_lock (\<lambda>c.
     if auxid = 0 then
       (case detach_conns rt (map snd (chan_conns c)) (c\<lparr>chan_state := CHAN_DISCONNECTING\<rparr>) of
          (c1, Some h) \<Rightarrow> (c1, [], Inl h)
        | (c1, None) \<Rightarrow>
            (start_destroy_timer rt 8 (c1\<lparr>chan_conns := [], chan_state := CHAN_DISCONNECTED\<rparr>), [], Inr True))
     else
       (case map_of (chan_conns c) auxid of
          None \<Rightarrow> (c, [], Inr False)
        | Some p \<Rightarrow>
            (case detach_conn rt p c of
               (c1, Some h) \<Rightarrow> (c1, [], Inl h)
             | (c1, None) \<Rightarrow>
                 (start_destroy_timer rt 8 (c1\<lparr>chan_conns := map_erase auxid (chan_conns c1)\<rparr>), [], Inr True))))"

text \<open>\<open>__drop_conn\<close>, \<open>__drop_conns\<close>, \<open>__drop_conns_deletion\<close> delete at once.\<close>

definition drop_conn_now :: "u8 \<Rightarrow> 'e crofchan \<Rightarrow> ('e, bool) chan_res" where
  "drop_conn_now auxid = with_write_lock (\<lambda>c.
     if auxid = 0 then
       (case delete_conns (map snd (chan_conns c)) (c\<lparr>chan_state := CHAN_DISCONNECTING\<rparr>) of
          (c1, Some h) \<Rightarrow> (c1, [], Inl h)
        | (c1, None) \<Rightarrow> (c1\<lparr>chan_conns := [], chan_state := CHAN_DISCONNECTED\<rparr>, [], Inr True))
     else
       (case map_of (chan_conns c) auxid of
          None \<Rightarrow> (c, [], Inr False)
        | Some p \<Rightarrow>
            (case delete_conn p c of
               (c1, Some h) \<Rightarrow> (c1, [], Inl h)
             | (c1, None) \<Rightarrow>
                 (c1\<lparr>chan_conns := map_erase auxid (chan_conns c1), chan_state := CHAN_ESTABLISHED\<rparr>, [], Inr True))))"

definition drop_conns_now :: "'e crofchan \<Rightarrow> ('e, unit) chan_res" where
  "drop_conns_now = with_write_lock (\<lambda>c.
     case delete_conns (map snd (chan_conns c)) (c\<lparr>chan_state := CHAN_DISCONNECTING\<rparr>) of
       (c1, Some h) \<Rightarrow> (c1, [], Inl h)
     | (c1, None) \<Rightarrow> (c1\<lparr>chan_conns := [], chan_state := CHAN_DISCONNECTED\<rparr>, [], Inr ()))"

definition drop_conns_deletion :: "'e crofchan \<Rightarrow> ('e, unit) chan_res" where
  "drop_conns_deletion c =
     (case delete_conns (conns_deletion c) c of
        (c1, Some h) \<Rightarrow> (c1, [], Inl h)
      | (c1, None) \<Rightarrow> (c1\<lparr>conns_deletion := []\<rparr>, [], Inr ()))"

text \<open>The destructor.\<close>

definition crofchan_destroy :: "conn_rt \<Rightarrow> 'e crofchan \<Rightarrow> ('e, unit) chan_res" where
  "crofchan_destroy rt c =
     (let c1 = c\<lparr>chan_state := CHAN_DELETE_IN_PROGRESS\<rparr>;
          c2 = c1\<lparr>chan_thread := cthread_drop (rt_self rt) (chan_this c1) (chan_thread c1)\<rparr>
      in case drop_conns_deletion c2 of
           (c3, evs, Inl h) \<Rightarrow> (c3, evs, Inl h)
         | (c3, evs, Inr _) \<Rightarrow> drop_conns_now c3)"

section \<open>Callbacks of the connections\<close>

text \<open>\<open>handle_established\<close>; \<open>eRofChanNotFound\<close> is caught.\<close>

definition chan_handle_established :: "nat \<Rightarrow> u8 \<Rightarrow> 'e crofchan \<Rightarrow> ('e, unit) chan_res" where
  "chan_handle_established p v c =
     (if chan_deleting c then (c, [], Inr ())
      else case chan_heap c p of
        None \<Rightarrow> (c, [], Inl CH_dangling)
      | Some k \<Rightarrow>
          (let c1 = (if conn_auxid k = 0 then c\<lparr>chan_ofp_version := v\<rparr> else c)
           in if chan_env c
              then (c1, (if conn_auxid k = 0 then [Chan_established v] else []) @ [Chan_conn p (CE_established v)], Inr ())
              else (c1, [], Inr ())))"

text \<open>
  \<open>it.second->close()\<close> on a connection that still leads to this channel.  The only callback of
  \<open>close()\<close> is \<open>handle_closed\<close> (\<open>close_events\<close> below); \<open>closed\<close> is that handler.
\<close>

definition close_attached ::
  "(nat \<Rightarrow> 'e crofchan \<Rightarrow> ('e, unit) chan_res) \<Rightarrow> conn_rt \<Rightarrow> nat \<Rightarrow> 'e crofchan \<Rightarrow> ('e, unit) chan_res" where
  "close_attached closed rt p c =
     (case chan_heap c p of
        None \<Rightarrow> (c, [], Inl CH_dangling)
      | Some k \<Rightarrow>
          (case crofconn_close rt k of
             (k', evs) \<Rightarrow>
               (let c1 = c\<lparr>chan_heap := (chan_heap c)(p \<mapsto> k')\<rparr>
                in if evs \<noteq> [] \<and> chan_owner c p then closed p c1 else (c1, [], Inr ()))))"

text \<open>
  The loop over the connections when the main one has closed: the others are closed, passive ones
  are scheduled for deletion; the last component is \<open>to_be_removed\<close>.
\<close>

fun close_others ::
  "(nat \<Rightarrow> 'e crofchan \<Rightarrow> ('e, unit) chan_res) \<Rightarrow> conn_rt \<Rightarrow> u8 \<Rightarrow> (u8 \<times> nat) list \<Rightarrow> 'e crofchan \<Rightarrow> ('e, u8 list) chan_res"
where
  "close_others closed rt main [] c = (c, [], Inr [])"
| "close_others closed rt main ((auxid, p) # xs) c =
     (case (if auxid \<noteq> main then close_attached closed rt p c else (c, [], Inr ())) of
        (c1, evs, Inl h) \<Rightarrow> (c1, evs, Inl h)
      | (c1, evs, Inr _) \<Rightarrow>
          (case chan_heap c1 p of
             None \<Rightarrow> (c1, evs, Inl CH_dangling)
           | Some k \<Rightarrow>
               (let passive = sock_is_passive (conn_sock k);
                    c2 = (if passive then schedule_deletion p c1 else c1)
                in case close_others closed rt main xs c2 of
                     (c3, evs2, Inl h) \<Rightarrow> (c3, evs @ evs2, Inl h)
                   | (c3, evs2, Inr rm) \<Rightarrow> (c3, evs @ evs2, Inr ((if passive then [auxid] else []) @ rm)))))"

text \<open>
  \<open>handle_closed\<close>; the first argument bounds the depth of the recursion through
  \<open>close()\<close>, which is two when the connections know their auxiliary ids.  The exception of
  \<open>call_env\<close> is not caught here.
\<close>

primrec chan_handle_closed :: "nat \<Rightarrow> conn_rt \<Rightarrow> nat \<Rightarrow> 'e crofchan \<Rightarrow> ('e, unit) chan_res" where
  "chan_handle_closed 0 rt p c = (c, [], Inl CH_fuel)"
| "chan_handle_closed (Suc n) rt p c =
     (if chan_deleting c then (c, [], Inr ())
      else case chan_heap c p of
        None \<Rightarrow> (c, [], Inl CH_dangling)
      | Some k \<Rightarrow>
          if conn_auxid k = 0 then
            (case close_others (chan_handle_closed n rt) rt (conn_auxid k) (chan_conns c)
                    (c\<lparr>chan_read_locks := Suc (chan_read_locks c)\<rparr>) of
               (c1, evs, Inl h) \<Rightarrow> (c1\<lparr>chan_read_locks := chan_read_locks c\<rparr>, evs, Inl h)
             | (c1, evs, Inr rm) \<Rightarrow>
                 (let c2 = (if rm \<noteq> [] then start_destroy_timer rt 60 c1 else c1);
                      c3 = c2\<lparr>chan_conns := fold map_erase rm (chan_conns c2), chan_read_locks := chan_read_locks c\<rparr>
                  in case call_owner [Chan_closed] c3 of (c4, evs2, r) \<Rightarrow> (c4, evs @ evs2, r)))
          else if sock_is_passive (conn_sock k) then
            with_write_lock (\<lambda>c.
              if map_of (chan_conns c) (conn_auxid k) = None then (c, [], Inr ())
              else call_owner [Chan_conn p CE_closed]
                     (start_destroy_timer rt 60
                       (schedule_deletion p (c\<lparr>chan_conns := map_erase (conn_auxid k) (chan_conns c)\<rparr>)))) c
          else call_owner [Chan_conn p CE_closed] c)"

declare chan_handle_closed.simps [simp del]

text \<open>The remaining handlers pass the call on; \<open>eRofChanNotFound\<close> is caught.\<close>

definition chan_forward :: "nat \<Rightarrow> 'e conn_event \<Rightarrow> 'e crofchan \<Rightarrow> ('e, unit) chan_res" where
  "chan_forward p ev c =
     (if chan_deleting c then (c, [], Inr ())
      else (c, if chan_env c then [Chan_conn p ev] else [], Inr ()))"

text \<open>A callback of the connection at \<open>p\<close>, which goes nowhere when its environment is another one.\<close>

definition chan_conn_event :: "nat \<Rightarrow> conn_rt \<Rightarrow> nat \<Rightarrow> 'e conn_event \<Rightarrow> 'e crofchan \<Rightarrow> ('e, unit) chan_res" where
  "chan_conn_event n rt p ev c =
     (if \<not> chan_owner c p then (c, [], Inr ())
      else case ev of
        CE_established v \<Rightarrow> chan_handle_established p v c
      | CE_closed \<Rightarrow> chan_handle_closed n rt p c
      | _ \<Rightarrow> chan_forward p ev c)"

definition chan_handle_timeout :: "u32 \<Rightarrow> 'e crofchan \<Rightarrow> ('e, unit) chan_res" where
  "chan_handle_timeout tid c =
     (if chan_deleting c then (c, [], Inr ())
      else if tid = TIMER_ID_ROFCONN_DESTROY then drop_conns_deletion c
      else (c, [], Inr ()))"

section \<open>Sending\<close>

text \<open>What both \<open>send_message\<close> methods check: the connection to use, if it may be used.\<close>

definition chan_sendable :: "u8 \<Rightarrow> 'e crofchan \<Rightarrow> chan_halt + nat" where
  "chan_sendable auxid c =
     (case chan_is_established c of
        Inl h \<Rightarrow> Inl h
      | Inr False \<Rightarrow> Inl (CH_throw ERofConnNotConnected)
      | Inr True \<Rightarrow>
          (case map_of (chan_conns c) auxid of
             None \<Rightarrow> Inl (CH_throw ERofConnNotConnected)
           | Some p \<Rightarrow>
               (case is_conn_established p c of
                  Inl h \<Rightarrow> Inl h
                | Inr False \<Rightarrow> Inl (CH_throw ERofConnNotConnected)
                | Inr True \<Rightarrow> Inr p)))"

text \<open>\<open>send\<close> is \<open>crofconn::send_message\<close>, with or without a timeout.\<close>

definition chan_send_with ::
  "('e crofconn \<Rightarrow> ('e crofconn \<times> msg_result_t) result) \<Rightarrow> u8 \<Rightarrow> 'e crofchan \<Rightarrow> ('e, msg_result_t) chan_res" where
  "chan_send_with send auxid c =
     (case chan_sendable auxid c of
        Inl h \<Rightarrow> (c, [], Inl h)
      | Inr p \<Rightarrow>
          (case chan_heap c p of
             None \<Rightarrow> (c, [], Inl CH_dangling)
           | Some k \<Rightarrow>
               (case send k of
                  Inl e \<Rightarrow> (c, [], Inl (CH_throw e))
                | Inr (k', r) \<Rightarrow> (c\<lparr>chan_heap := (chan_heap c)(p \<mapsto> k')\<rparr>, [], Inr r))))"

definition chan_send_message ::
  "('e cofmsg \<Rightarrow> nat) \<Rightarrow> ('e \<Rightarrow> nat) \<Rightarrow> conn_rt \<Rightarrow> u8 \<Rightarrow> 'e cofmsg \<Rightarrow> 'e crofchan \<Rightarrow> ('e, msg_result_t) chan_res" where
  "chan_send_message wlen elen rt auxid msg = chan_send_with (conn_send_message wlen elen rt msg) auxid"

definition chan_send_message_ts ::
  "('e cofmsg \<Rightarrow> nat) \<Rightarrow> ('e \<Rightarrow> nat) \<Rightarrow> conn_rt \<Rightarrow> u8 \<Rightarrow> 'e cofmsg \<Rightarrow> timespec \<Rightarrow> 'e crofchan \<Rightarrow> ('e, msg_result_t) chan_res"
where
  "chan_send_message_ts wlen elen rt auxid msg ts = chan_send_with (conn_send_message_ts wlen elen rt msg ts) auxid"

section \<open>Choosing an auxiliary id\<close>

lemma next_auxid: "(if a = 255 then 0 else a + 1) = (a + 1 :: u8)"
  by simp

lemma probe_auxid_used: "map_of m a \<noteq> None \<Longrightarrow> probe_auxid (Suc n) a m = probe_auxid n (a + 1) m"
  by (simp add: next_auxid)

lemma used_shift:
  fixes a :: u8
  assumes "\<forall>i < Suc n. map_of m (a + word_of_nat i) \<noteq> None"
  shows "map_of m a \<noteq> None" "\<forall>i < n. map_of m (a + 1 + word_of_nat i) \<noteq> None"
proof -
  show "map_of m a \<noteq> None"
    using assms [rule_format, of 0] by simp
  show "\<forall>i < n. map_of m (a + 1 + word_of_nat i) \<noteq> None"
  proof (intro allI impI)
    fix i
    assume "i < n"
    then show "map_of m (a + 1 + word_of_nat i) \<noteq> None"
      using assms [rule_format, of "Suc i"] by (simp add: add.assoc)
  qed
qed

lemma probe_auxid_free:
  "k < n \<Longrightarrow> map_of m (a + word_of_nat k) = None \<Longrightarrow> (\<forall>i < k. map_of m (a + word_of_nat i) \<noteq> None) \<Longrightarrow>
   probe_auxid n a m = (a + word_of_nat k, word_of_nat (n - 1 - k))"
proof (induction k arbitrary: n a)
  case 0
  then show ?case
    by (cases n) simp_all
next
  case (Suc k)
  then obtain n' where n: "n = Suc n'" "k < n'"
    by (cases n) simp_all
  note u = used_shift [OF Suc.prems(3)]
  have "probe_auxid n' (a + 1) m = (a + 1 + word_of_nat k, word_of_nat (n' - 1 - k))"
    using Suc.IH [OF n(2) _ u(2)] Suc.prems(2) by (simp add: add.assoc)
  then show ?case
    using probe_auxid_used [OF u(1), of n'] n(1) by (simp add: add.assoc)
qed

lemma probe_auxid_full:
  "(\<forall>i < n. map_of m (a + word_of_nat i) \<noteq> None) \<Longrightarrow> probe_auxid n a m = (a + word_of_nat n, 0 - 1)"
proof (induction n arbitrary: a)
  case (Suc n)
  note u = used_shift [OF Suc.prems]
  show ?case
    using Suc.IH [OF u(2)] probe_auxid_used [OF u(1), of n] by (simp add: add.assoc)
qed simp

section \<open>Ownership\<close>

text \<open>
  The connections a channel refers to exist, each is referred to once, and the connections in the
  map are not being deleted and know their auxiliary id.
\<close>

definition entry_ok :: "'e crofchan \<Rightarrow> u8 \<Rightarrow> nat \<Rightarrow> bool" where
  "entry_ok c a p \<longleftrightarrow> (\<exists>k. chan_heap c p = Some k \<and> conn_auxid k = a \<and> \<not> conn_deleting k \<and> conn_state k \<noteq> STATE_CLOSING)"

definition chan_ok :: "'e crofchan \<Rightarrow> bool" where
  "chan_ok c \<longleftrightarrow> map_wf (chan_conns c) \<and> distinct (map snd (chan_conns c)) \<and> distinct (conns_deletion c) \<and>
     sorted (conns_deletion c) \<and> snd ` set (chan_conns c) \<inter> set (conns_deletion c) = {} \<and>
     (\<forall>(a, p) \<in> set (chan_conns c). entry_ok c a p) \<and> (\<forall>p \<in> set (conns_deletion c). chan_heap c p \<noteq> None)"

interpretation ptr_order: comparator "(<) :: nat \<Rightarrow> nat \<Rightarrow> bool"
  by unfold_locales auto

lemma sock_mode_close [simp]: "sock_mode (crofsock_close self s) = sock_mode s"
proof -
  have d: "sock_mode (flag_set f v s) = sock_mode s" "sock_mode (on_rx g s) = sock_mode s"
    "sock_mode (on_tx g s) = sock_mode s" "sock_mode (sock_rx_disable s) = sock_mode s"
    "sock_mode (sock_tx_disable s) = sock_mode s" for s :: "'a crofsock" and f v g
    by (simp_all add: flag_set_def on_rx_def on_tx_def sock_rx_disable_def sock_tx_disable_def Let_def)
  have "sock_mode (close_tls s) = sock_mode s" for s :: "'a crofsock"
    by (cases "sock_state s") (simp_all add: close_tls_def d)
  moreover have "sock_mode (close_tcp self s) = sock_mode s" for s :: "'a crofsock"
    by (cases "sock_state s") (simp_all add: close_tcp_def Let_def d)
  ultimately show ?thesis
    by (simp add: crofsock_close_def Let_def d)
qed

lemma close_frame [simp]:
  "conn_auxid (fst (crofconn_close rt k)) = conn_auxid k" "conn_deleting (fst (crofconn_close rt k)) = conn_deleting k"
  "sock_is_passive (conn_sock (fst (crofconn_close rt k))) = sock_is_passive (conn_sock k)"
  by (simp_all add: crofconn_close_def run_finite_state_machine_def fsm_closing_def fsm_disconnected_def Let_def
    clear_pending_segments_def clear_pending_requests_def conn_drop_timers_def conn_drop_timer_def sock_is_passive_def)

lemma close_state: "conn_state k \<noteq> STATE_CLOSING \<Longrightarrow> conn_state (fst (crofconn_close rt k)) \<noteq> STATE_CLOSING"
  "\<not> conn_deleting k \<Longrightarrow> conn_state k \<noteq> STATE_CLOSING \<Longrightarrow>
   snd (crofconn_close rt k) = [CE_closed] \<and> conn_state (fst (crofconn_close rt k)) = STATE_DISCONNECTED"
  by (auto simp: crofconn_close_def run_finite_state_machine_def)

lemma close_events: "snd (crofconn_close rt k) = [] \<or> snd (crofconn_close rt k) = [CE_closed]"
  by (simp add: crofconn_close_def run_finite_state_machine_def)

lemma schedule_frame [simp]:
  "chan_conns (schedule_deletion p c) = chan_conns c" "chan_heap (schedule_deletion p c) = chan_heap c"
  "chan_env (schedule_deletion p c) = chan_env c" "chan_state (schedule_deletion p c) = chan_state c"
  "chan_read_locks (schedule_deletion p c) = chan_read_locks c"
  "chan_owner (schedule_deletion p c) = (chan_owner c)(p := False)"
  by (simp_all add: schedule_deletion_def)

lemma emplace_ptr: "set (fst (set_emplace (<) p ps)) = insert (p :: nat) (set ps)"
proof (induction ps)
  case (Cons x xs)
  then show ?case
    by (cases p x rule: linorder_cases) (simp_all add: split_beta insert_commute)
qed simp

lemma emplace_ptr_sorted:
  assumes "sorted ps" "distinct ps"
  shows "sorted (fst (set_emplace (<) p ps)) \<and> distinct (fst (set_emplace (<) (p :: nat) ps))"
  using ptr_order.set_emplace_sorted [of ps p] assms unfolding strict_sorted_iff by simp

lemma schedule_set [simp]: "set (conns_deletion (schedule_deletion p c)) = insert p (set (conns_deletion c))"
  by (simp add: schedule_deletion_def emplace_ptr)

lemma schedule_sorted:
  "sorted (conns_deletion c) \<Longrightarrow> distinct (conns_deletion c) \<Longrightarrow>
   sorted (conns_deletion (schedule_deletion p c)) \<and> distinct (conns_deletion (schedule_deletion p c))"
  by (simp add: schedule_deletion_def emplace_ptr_sorted)

lemma timer_frame [simp]:
  "chan_conns (start_destroy_timer rt n c) = chan_conns c" "chan_heap (start_destroy_timer rt n c) = chan_heap c"
  "conns_deletion (start_destroy_timer rt n c) = conns_deletion c" "chan_env (start_destroy_timer rt n c) = chan_env c"
  "chan_owner (start_destroy_timer rt n c) = chan_owner c" "chan_state (start_destroy_timer rt n c) = chan_state c"
  "chan_read_locks (start_destroy_timer rt n c) = chan_read_locks c"
  by (simp_all add: start_destroy_timer_def)

text \<open>Detaching: the connections stay in the store, closed, and are scheduled.\<close>

lemma detach_conns_spec:
  assumes "\<forall>p \<in> set ps. chan_heap c p \<noteq> None" "sorted (conns_deletion c)" "distinct (conns_deletion c)"
  shows "\<exists>c'. detach_conns rt ps c = (c', None) \<and> chan_conns c' = chan_conns c \<and>
    set (conns_deletion c') = set ps \<union> set (conns_deletion c) \<and> sorted (conns_deletion c') \<and> distinct (conns_deletion c') \<and>
    (distinct ps \<longrightarrow> (\<forall>p \<in> set ps. chan_heap c' p = map_option (\<lambda>k. fst (crofconn_close rt k)) (chan_heap c p))) \<and>
    (\<forall>p. p \<notin> set ps \<longrightarrow> chan_heap c' p = chan_heap c p \<and> chan_owner c' p = chan_owner c p) \<and>
    (\<forall>p. (chan_heap c' p = None) = (chan_heap c p = None)) \<and> (\<forall>p \<in> set ps. \<not> chan_owner c' p) \<and>
    chan_state c' = chan_state c \<and> chan_read_locks c' = chan_read_locks c \<and> chan_env c' = chan_env c"
  using assms
proof (induction ps arbitrary: c)
  case (Cons p ps)
  obtain k where k: "chan_heap c p = Some k"
    using Cons.prems(1) by auto
  define c1 where "c1 = schedule_deletion p (c\<lparr>chan_heap := (chan_heap c)(p \<mapsto> fst (crofconn_close rt k))\<rparr>)"
  have d: "detach_conn rt p c = (c1, None)"
    by (simp add: detach_conn_def k c1_def)
  have c1: "chan_conns c1 = chan_conns c" "set (conns_deletion c1) = insert p (set (conns_deletion c))"
      "sorted (conns_deletion c1)" "distinct (conns_deletion c1)" "chan_heap c1 = (chan_heap c)(p \<mapsto> fst (crofconn_close rt k))"
      "chan_owner c1 = (chan_owner c)(p := False)" "chan_state c1 = chan_state c" "chan_read_locks c1 = chan_read_locks c"
      "chan_env c1 = chan_env c"
    using schedule_sorted [of "c\<lparr>chan_heap := (chan_heap c)(p \<mapsto> fst (crofconn_close rt k))\<rparr>" p] Cons.prems(2,3)
    by (simp_all add: c1_def)
  have "\<forall>q \<in> set ps. chan_heap c1 q \<noteq> None"
    using Cons.prems(1) by (simp add: c1)
  then obtain c' where c': "detach_conns rt ps c1 = (c', None)" "chan_conns c' = chan_conns c1"
    "set (conns_deletion c') = set ps \<union> set (conns_deletion c1)" "sorted (conns_deletion c')" "distinct (conns_deletion c')"
    "distinct ps \<longrightarrow> (\<forall>p \<in> set ps. chan_heap c' p = map_option (\<lambda>k. fst (crofconn_close rt k)) (chan_heap c1 p))"
    "\<forall>p. p \<notin> set ps \<longrightarrow> chan_heap c' p = chan_heap c1 p \<and> chan_owner c' p = chan_owner c1 p"
    "\<forall>p. (chan_heap c' p = None) = (chan_heap c1 p = None)" "\<forall>p \<in> set ps. \<not> chan_owner c' p"
    "chan_state c' = chan_state c1" "chan_read_locks c' = chan_read_locks c1" "chan_env c' = chan_env c1"
    using Cons.IH [of c1] c1(3,4) by blast
  have "chan_heap c' q = map_option (\<lambda>k. fst (crofconn_close rt k)) (chan_heap c q)"
    if "q \<in> set (p # ps)" "distinct (p # ps)" for q
    using that c'(6,7) k by (cases "q = p") (auto simp: c1)
  moreover have "\<not> chan_owner c' p"
    using c'(7,9) by (cases "p \<in> set ps") (auto simp: c1)
  ultimately show ?case
    using d c' k by (intro exI [of _ c']) (auto simp: c1)
qed (simp_all)

lemma delete_conns_spec:
  "distinct ps \<Longrightarrow> (\<forall>p \<in> set ps. chan_heap c p \<noteq> None) \<Longrightarrow>
   delete_conns ps c = (c\<lparr>chan_heap := (\<lambda>p. if p \<in> set ps then None else chan_heap c p)\<rparr>, None)"
proof (induction ps arbitrary: c)
  case (Cons p ps)
  let ?c1 = "c\<lparr>chan_heap := (chan_heap c)(p := None)\<rparr>"
  have "delete_conns ps ?c1 = (?c1\<lparr>chan_heap := (\<lambda>q. if q \<in> set ps then None else chan_heap ?c1 q)\<rparr>, None)"
    using Cons.prems by (intro Cons.IH) auto
  then show ?case
    using Cons.prems by (auto simp: delete_conn_def fun_eq_iff)
qed simp

end
