(* ===== verification/Crofchan_Ownership.thy ===== *)
theory Crofchan_Ownership
  imports Crofchan Crofconn_Negotiation
begin

text \<open>
  What a channel promises: who owns its connections, which auxiliary ids it hands out, what happens
  when the main connection closes, and when a message may be sent.
\<close>

section \<open>Closing the other connections\<close>

definition passive_conn :: "'e crofchan \<Rightarrow> nat \<Rightarrow> bool" where
  "passive_conn c p \<longleftrightarrow> (case chan_heap c p of None \<Rightarrow> False | Some k \<Rightarrow> sock_is_passive (conn_sock k))"

definition entries_ok :: "'e crofchan \<Rightarrow> (u8 \<times> nat) list \<Rightarrow> bool" where
  "entries_ok c xs \<longleftrightarrow> distinct (map snd xs) \<and> (\<forall>(a, p) \<in> set xs. entry_ok c a p)"

text \<open>What the loop keeps.\<close>

definition loop_frame :: "'e crofchan \<Rightarrow> 'e crofchan \<Rightarrow> bool" where
  "loop_frame c c' \<longleftrightarrow> chan_conns c' = chan_conns c \<and> chan_read_locks c' = chan_read_locks c \<and> chan_env c' = chan_env c \<and>
     chan_state c' = chan_state c \<and> (\<forall>a p. entry_ok c a p \<longrightarrow> entry_ok c' a p) \<and>
     (\<forall>p. (chan_heap c' p = None) = (chan_heap c p = None)) \<and> (\<forall>p. passive_conn c' p = passive_conn c p)"

lemma loop_frame_refl [simp]: "loop_frame c c"
  by (simp add: loop_frame_def)

lemma loop_frame_trans: "loop_frame a b \<Longrightarrow> loop_frame b c \<Longrightarrow> loop_frame a c"
  by (simp add: loop_frame_def)

lemma loop_frame_schedule [simp]: "loop_frame c (schedule_deletion p c)"
  by (simp add: loop_frame_def entry_ok_def passive_conn_def)

lemma loop_frame_close:
  "chan_heap c p = Some k \<Longrightarrow> loop_frame c (c\<lparr>chan_heap := (chan_heap c)(p \<mapsto> fst (crofconn_close rt k))\<rparr>)"
  by (auto simp: loop_frame_def entry_ok_def passive_conn_def dest: close_state(1))

text \<open>
  Closing one of the other connections while the read lock is held: a passive one blocks, unless its
  callbacks no longer come here.
\<close>

lemma close_attached_aux:
  assumes "entry_ok c a p" "a \<noteq> 0" "chan_env c" "\<not> chan_deleting c" "0 < chan_read_locks c"
  shows "(chan_owner c p \<and> passive_conn c p \<longrightarrow>
      snd (snd (close_attached (chan_handle_closed (Suc n) rt) rt p c)) = Inl CH_blocked) \<and>
    (\<not> (chan_owner c p \<and> passive_conn c p) \<longrightarrow>
      (\<exists>c'. close_attached (chan_handle_closed (Suc n) rt) rt p c =
          (c', if chan_owner c p then [Chan_conn p CE_closed] else [], Inr ()) \<and>
        loop_frame c c' \<and> conns_deletion c' = conns_deletion c \<and> chan_owner c' = chan_owner c \<and>
        (\<forall>q. q \<noteq> p \<longrightarrow> chan_heap c' q = chan_heap c q) \<and>
        (\<exists>k. chan_heap c' p = Some k \<and> conn_state k = STATE_DISCONNECTED)))"
proof -
  obtain k where k: "chan_heap c p = Some k" "conn_auxid k = a" "\<not> conn_deleting k" "conn_state k \<noteq> STATE_CLOSING"
    using assms(1) by (auto simp: entry_ok_def)
  let ?c1 = "c\<lparr>chan_heap := (chan_heap c)(p \<mapsto> fst (crofconn_close rt k))\<rparr>"
  have cl: "crofconn_close rt k = (fst (crofconn_close rt k), [CE_closed])"
    "conn_state (fst (crofconn_close rt k)) = STATE_DISCONNECTED"
    using close_state(2) [OF k(3,4), of rt] by (simp_all add: prod_eq_iff)
  have p: "passive_conn c p = sock_is_passive (conn_sock k)"
    by (simp add: passive_conn_def k(1))
  have att: "close_attached (chan_handle_closed (Suc n) rt) rt p c =
      (if chan_owner c p then chan_handle_closed (Suc n) rt p ?c1 else (?c1, [], Inr ()))"
    by (subst close_attached_def, subst k(1), simp only: option.case, subst cl(1)) (simp add: Let_def)
  have hc: "chan_handle_closed (Suc n) rt p ?c1 =
      (if sock_is_passive (conn_sock k) then (?c1, [], Inl CH_blocked) else (?c1, [Chan_conn p CE_closed], Inr ()))"
    using assms(2-5) k(2) by (simp add: chan_handle_closed.simps chan_deleting_def with_write_lock_def call_owner_def)
  show ?thesis
    unfolding att hc p using cl(2) loop_frame_close [OF k(1), of rt] by simp
qed

definition blocks :: "'e crofchan \<Rightarrow> (u8 \<times> nat) list \<Rightarrow> bool" where
  "blocks c xs \<longleftrightarrow> (\<exists>(a, p) \<in> set xs. a \<noteq> 0 \<and> chan_owner c p \<and> passive_conn c p)"

definition closing_events :: "'e crofchan \<Rightarrow> (u8 \<times> nat) list \<Rightarrow> 'e chan_event list" where
  "closing_events c xs = map (\<lambda>ap. Chan_conn (snd ap) CE_closed) (filter (\<lambda>ap. fst ap \<noteq> 0 \<and> chan_owner c (snd ap)) xs)"

definition passives :: "'e crofchan \<Rightarrow> (u8 \<times> nat) list \<Rightarrow> (u8 \<times> nat) list" where
  "passives c xs = filter (\<lambda>ap. passive_conn c (snd ap)) xs"

definition ptrs_ok :: "nat list \<Rightarrow> bool" where
  "ptrs_ok ps \<longleftrightarrow> sorted ps \<and> distinct ps"

lemma ptrs_ok_schedule: "ptrs_ok (conns_deletion c) \<Longrightarrow> ptrs_ok (conns_deletion (schedule_deletion p c))"
  using schedule_sorted by (auto simp: ptrs_ok_def)

lemma entries_ok_step:
  assumes "entries_ok c ((a, p) # xs)" "loop_frame c c'"
  shows "entries_ok c' xs" "entry_ok c a p" "p \<notin> snd ` set xs"
  using assms by (auto simp: entries_ok_def loop_frame_def)

lemma same_on_xs:
  assumes "p \<notin> snd ` set xs" "\<And>q. q \<noteq> p \<Longrightarrow> chan_owner c' q = chan_owner c q" "loop_frame c c'"
  shows "blocks c' xs = blocks c xs" "closing_events c' xs = closing_events c xs" "passives c' xs = passives c xs"
proof -
  have o: "chan_owner c' (snd ap) = chan_owner c (snd ap)" if "ap \<in> set xs" for ap
    using assms(1,2) that by (metis imageI)
  have pa: "passive_conn c' q = passive_conn c q" for q
    using assms(3) by (simp add: loop_frame_def)
  show "blocks c' xs = blocks c xs"
    using o by (force simp: blocks_def pa)
  show "closing_events c' xs = closing_events c xs"
    unfolding closing_events_def by (rule arg_cong [of _ _ "map _"], rule filter_cong) (simp_all add: o)
  show "passives c' xs = passives c xs"
    by (simp add: passives_def pa)
qed

text \<open>After the first half of a turn: the passive connection is scheduled.\<close>

lemma schedule_if:
  assumes "ptrs_ok (conns_deletion c)" "c2 = (if b then schedule_deletion p c else c)"
  shows "loop_frame c c2" "chan_heap c2 = chan_heap c" "ptrs_ok (conns_deletion c2)"
    "\<And>q. q \<noteq> p \<Longrightarrow> chan_owner c2 q = chan_owner c q" "chan_state c2 = chan_state c"
    "set (conns_deletion c2) = (if b then {p} else {}) \<union> set (conns_deletion c)"
  using assms(1) by (auto simp: assms(2) ptrs_ok_schedule)

definition loop_result :: "'e crofchan \<Rightarrow> (u8 \<times> nat) list \<Rightarrow> 'e crofchan \<Rightarrow> bool" where
  "loop_result c xs c' \<longleftrightarrow> loop_frame c c' \<and> ptrs_ok (conns_deletion c') \<and>
     set (conns_deletion c') = snd ` set (passives c xs) \<union> set (conns_deletion c) \<and>
     (\<forall>q. q \<notin> snd ` set xs \<longrightarrow> chan_heap c' q = chan_heap c q) \<and>
     (\<forall>(a, p) \<in> set xs. a \<noteq> 0 \<longrightarrow> (\<exists>k. chan_heap c' p = Some k \<and> conn_state k = STATE_DISCONNECTED))"

lemma close_others_spec:
  assumes "entries_ok c xs" "chan_env c" "\<not> chan_deleting c" "0 < chan_read_locks c" "ptrs_ok (conns_deletion c)"
  shows "(blocks c xs \<longrightarrow> snd (snd (close_others (chan_handle_closed (Suc n) rt) rt 0 xs c)) = Inl CH_blocked) \<and>
    (\<not> blocks c xs \<longrightarrow> (\<exists>c'. close_others (chan_handle_closed (Suc n) rt) rt 0 xs c =
       (c', closing_events c xs, Inr (map fst (passives c xs))) \<and> loop_result c xs c'))"
  using assms
proof (induction xs arbitrary: c)
  case Nil
  then show ?case
    by (simp add: blocks_def closing_events_def passives_def loop_result_def)
next
  case (Cons ap xs)
  obtain a p where ap: "ap = (a, p)"
    by fastforce
  let ?H = "chan_handle_closed (Suc n) rt"
  note e = entries_ok_step [OF Cons.prems(1) [unfolded ap] loop_frame_refl]
  show ?case
  proof (cases "a \<noteq> 0 \<and> chan_owner c p \<and> passive_conn c p")
    case True
    then have "snd (snd (close_attached ?H rt p c)) = Inl CH_blocked"
      using close_attached_aux [OF e(2) _ Cons.prems(2-4), of n rt] by blast
    with True show ?thesis
      by (auto simp: ap blocks_def split: prod.splits sum.splits)
  next
    case False
    obtain c1 evs where c1: "(if a \<noteq> 0 then close_attached ?H rt p c else (c, [], Inr ())) = (c1, evs, Inr ())"
      "evs = (if a \<noteq> 0 \<and> chan_owner c p then [Chan_conn p CE_closed] else [])" "loop_frame c c1"
      "conns_deletion c1 = conns_deletion c" "chan_owner c1 = chan_owner c" "\<forall>q. q \<noteq> p \<longrightarrow> chan_heap c1 q = chan_heap c q"
      "a \<noteq> 0 \<longrightarrow> (\<exists>k. chan_heap c1 p = Some k \<and> conn_state k = STATE_DISCONNECTED)"
    proof (cases "a = 0")
      case True
      then show thesis
        by (intro that [of c "[]"]) simp_all
    next
      case a: False
      then obtain c1 where "close_attached ?H rt p c = (c1, if chan_owner c p then [Chan_conn p CE_closed] else [], Inr ())"
        "loop_frame c c1" "conns_deletion c1 = conns_deletion c" "chan_owner c1 = chan_owner c"
        "\<forall>q. q \<noteq> p \<longrightarrow> chan_heap c1 q = chan_heap c q" "\<exists>k. chan_heap c1 p = Some k \<and> conn_state k = STATE_DISCONNECTED"
        using close_attached_aux [OF e(2) a Cons.prems(2-4), of n rt] False by blast
      then show thesis
        by (intro that [of c1 "if chan_owner c p then [Chan_conn p CE_closed] else []"]) (simp_all add: a)
    qed
    have "entry_ok c1 a p"
      using c1(3) e(2) by (simp add: loop_frame_def)
    then obtain k1 where k1: "chan_heap c1 p = Some k1"
      by (auto simp: entry_ok_def)
    have pas: "sock_is_passive (conn_sock k1) = passive_conn c p"
      using c1(3) k1 by (metis loop_frame_def passive_conn_def option.case(2))
    define c2 where "c2 = (if passive_conn c p then schedule_deletion p c1 else c1)"
    have pd: "ptrs_ok (conns_deletion c1)"
      using Cons.prems(5) c1(4) by simp
    note s = schedule_if [OF pd c2_def]
    have fr: "loop_frame c c2"
      by (rule loop_frame_trans [OF c1(3) s(1)])
    have own: "chan_owner c2 q = chan_owner c q" if "q \<noteq> p" for q
      using s(4) that c1(5) by simp
    note same = same_on_xs [OF e(3) own fr]
    have pre: "entries_ok c2 xs" "chan_env c2" "\<not> chan_deleting c2" "0 < chan_read_locks c2" "ptrs_ok (conns_deletion c2)"
      using entries_ok_step(1) [OF Cons.prems(1) [unfolded ap] fr] fr Cons.prems(2-4) s(3)
      by (simp_all add: loop_frame_def chan_deleting_def)
    have step: "close_others ?H rt 0 (ap # xs) c =
        (case close_others ?H rt 0 xs c2 of
           (c3, evs2, Inl h) \<Rightarrow> (c3, evs @ evs2, Inl h)
         | (c3, evs2, Inr rm) \<Rightarrow> (c3, evs @ evs2, Inr ((if passive_conn c p then [a] else []) @ rm)))"
      unfolding ap close_others.simps c1(1) by (simp add: k1 pas c2_def Let_def)
    have bl: "blocks c (ap # xs) = blocks c2 xs"
      using False same(1) by (auto simp: ap blocks_def)
    have "closing_events c (ap # xs) = evs @ closing_events c xs"
      by (simp add: c1(2) ap closing_events_def)
    then have ev: "evs @ closing_events c2 xs = closing_events c (ap # xs)"
      by (simp add: same(2))
    have "map fst (passives c (ap # xs)) = (if passive_conn c p then [a] else []) @ map fst (passives c xs)"
      by (simp add: ap passives_def)
    then have rm: "(if passive_conn c p then [a] else []) @ map fst (passives c2 xs) = map fst (passives c (ap # xs))"
      by (simp add: same(3))
    note ih = Cons.IH [OF pre]
    show ?thesis
    proof (cases "blocks c2 xs")
      case True
      then show ?thesis
        using ih bl unfolding step by (auto split: prod.splits sum.splits)
    next
      case nb: False
      then obtain c3 where c3: "close_others ?H rt 0 xs c2 = (c3, closing_events c2 xs, Inr (map fst (passives c2 xs)))"
          "loop_result c2 xs c3"
        using ih by blast
      have p3: "chan_heap c3 p = chan_heap c1 p"
        using c3(2) e(3) s(2) by (simp add: loop_result_def)
      have "passives c (ap # xs) = (if passive_conn c p then [ap] else []) @ passives c xs"
        by (simp add: ap passives_def)
      then have "passives c (ap # xs) = (if passive_conn c p then [ap] else []) @ passives c2 xs"
        by (simp add: same(3))
      then have "snd ` set (passives c (ap # xs)) = (if passive_conn c p then {p} else {}) \<union> snd ` set (passives c2 xs)"
        by (simp add: ap)
      then have "set (conns_deletion c3) = snd ` set (passives c (ap # xs)) \<union> set (conns_deletion c)"
        using c3(2) s(6) c1(4) by (auto simp: loop_result_def)
      moreover have "loop_frame c c3" "ptrs_ok (conns_deletion c3)"
        using c3(2) fr by (auto simp: loop_result_def intro: loop_frame_trans)
      moreover have "\<forall>q. q \<notin> snd ` set (ap # xs) \<longrightarrow> chan_heap c3 q = chan_heap c q"
        using c3(2) s(2) c1(6) by (simp add: loop_result_def ap)
      moreover have "\<forall>(a, p) \<in> set (ap # xs). a \<noteq> 0 \<longrightarrow> (\<exists>k. chan_heap c3 p = Some k \<and> conn_state k = STATE_DISCONNECTED)"
        using c3(2) c1(7) by (simp add: loop_result_def ap p3)
      ultimately have "loop_result c (ap # xs) c3"
        unfolding loop_result_def by blast
      then show ?thesis
        using nb bl ev rm c3(1) unfolding step by simp
    qed
  qed
qed

section \<open>The main connection closes\<close>

lemma fold_erase: "fold map_erase ks m = filter (\<lambda>kx. fst kx \<notin> set ks) m"
  by (induction ks arbitrary: m) (auto simp: map_erase_def intro!: filter_cong)

lemma erase_passives:
  assumes "distinct (map fst m)"
  shows "filter (\<lambda>kx. fst kx \<notin> set (map fst (passives c m))) m = filter (\<lambda>kx. \<not> passive_conn c (snd kx)) m"
proof (rule filter_cong [OF refl])
  fix kx
  assume m: "kx \<in> set m"
  have "fst kx \<in> set (map fst (passives c m)) \<longleftrightarrow> passive_conn c (snd kx)"
  proof
    assume "fst kx \<in> set (map fst (passives c m))"
    then obtain ky where "ky \<in> set m" "passive_conn c (snd ky)" "fst ky = fst kx"
      by (auto simp: passives_def)
    then show "passive_conn c (snd kx)"
      using m assms by (metis eq_key_imp_eq_value prod.collapse)
  next
    assume "passive_conn c (snd kx)"
    with m show "fst kx \<in> set (map fst (passives c m))"
      by (auto simp: passives_def)
  qed
  then show "fst kx \<notin> set (map fst (passives c m)) \<longleftrightarrow> \<not> passive_conn c (snd kx)"
    by blast
qed

text \<open>The connections that stay when the main connection closes.\<close>

definition remaining :: "'e crofchan \<Rightarrow> (u8 \<times> nat) list" where
  "remaining c = filter (\<lambda>ap. \<not> passive_conn c (snd ap)) (chan_conns c)"

definition main_closed_result :: "'e crofchan \<Rightarrow> 'e crofchan \<Rightarrow> bool" where
  "main_closed_result c c' \<longleftrightarrow> chan_conns c' = remaining c \<and>
     set (conns_deletion c') = snd ` set (passives c (chan_conns c)) \<union> set (conns_deletion c) \<and>
     (\<forall>(a, p) \<in> set (chan_conns c). a \<noteq> 0 \<longrightarrow> (\<exists>k. chan_heap c' p = Some k \<and> conn_state k = STATE_DISCONNECTED)) \<and>
     chan_ok c' \<and> chan_read_locks c' = chan_read_locks c \<and> chan_env c'"

lemma chan_ok_remaining:
  assumes "chan_ok c" "loop_result c (chan_conns c) c1" "chan_conns c' = remaining c" "chan_heap c' = chan_heap c1"
    "conns_deletion c' = conns_deletion c1"
  shows "chan_ok c'"
proof -
  have fr: "loop_frame c c1" "ptrs_ok (conns_deletion c1)"
    "set (conns_deletion c1) = snd ` set (passives c (chan_conns c)) \<union> set (conns_deletion c)"
    using assms(2) by (simp_all add: loop_result_def)
  have wf: "map_wf (remaining c)" "distinct (map snd (remaining c))"
    using assms(1) by (simp_all add: chan_ok_def remaining_def map_wf_def sorted_wrt_map sorted_wrt_filter distinct_map_filter)
  have dis: "distinct (map snd (chan_conns c))"
    using assms(1) by (simp add: chan_ok_def)
  have "snd ap \<notin> set (conns_deletion c1)" if "ap \<in> set (remaining c)" for ap
  proof
    assume "snd ap \<in> set (conns_deletion c1)"
    moreover have "ap \<in> set (chan_conns c)" "\<not> passive_conn c (snd ap)"
      using that by (simp_all add: remaining_def)
    ultimately have "snd ap \<in> set (conns_deletion c)"
      using fr(3) by (auto simp: passives_def)
    with \<open>ap \<in> set (chan_conns c)\<close> show False
      using assms(1) by (auto simp: chan_ok_def)
  qed
  moreover have "\<forall>(a, p) \<in> set (remaining c). entry_ok c1 a p"
    using assms(1) fr(1) by (auto simp: chan_ok_def loop_frame_def remaining_def)
  moreover have "\<forall>p \<in> set (conns_deletion c1). chan_heap c1 p \<noteq> None"
  proof
    fix p
    assume "p \<in> set (conns_deletion c1)"
    then consider "p \<in> set (conns_deletion c)" | a where "(a, p) \<in> set (chan_conns c)"
      using fr(3) by (auto simp: passives_def)
    then have "chan_heap c p \<noteq> None"
      using assms(1) by cases (auto simp: chan_ok_def entry_ok_def)
    then show "chan_heap c1 p \<noteq> None"
      using fr(1) by (simp add: loop_frame_def)
  qed
  ultimately show ?thesis
    using wf fr(2) assms(3-5) by (auto simp: chan_ok_def ptrs_ok_def entry_ok_def)
qed

lemma main_closed:
  assumes "chan_ok c" "chan_env c" "\<not> chan_deleting c" "chan_heap c p = Some k" "conn_auxid k = 0"
  shows "(blocks c (chan_conns c) \<longrightarrow> snd (snd (chan_handle_closed (Suc (Suc n)) rt p c)) = Inl CH_blocked) \<and>
    (\<not> blocks c (chan_conns c) \<longrightarrow> (\<exists>c'. chan_handle_closed (Suc (Suc n)) rt p c =
       (c', closing_events c (chan_conns c) @ [Chan_closed], Inr ()) \<and> main_closed_result c c'))"
proof -
  let ?c0 = "c\<lparr>chan_read_locks := Suc (chan_read_locks c)\<rparr>"
  let ?xs = "chan_conns c"
  have e0: "entry_ok ?c0 = entry_ok c" "passive_conn ?c0 = passive_conn c"
    by (simp_all add: entry_ok_def passive_conn_def fun_eq_iff)
  have same: "blocks ?c0 ?xs = blocks c ?xs" "closing_events ?c0 ?xs = closing_events c ?xs" "passives ?c0 ?xs = passives c ?xs"
    by (simp_all add: blocks_def closing_events_def passives_def e0)
  have pre: "entries_ok ?c0 ?xs" "chan_env ?c0" "\<not> chan_deleting ?c0" "0 < chan_read_locks ?c0" "ptrs_ok (conns_deletion ?c0)"
    using assms(1-3) by (simp_all add: entries_ok_def e0 chan_ok_def chan_deleting_def ptrs_ok_def)
  note loop = close_others_spec [OF pre, of n rt, unfolded same]
  have dist: "distinct (map fst ?xs)"
    using assms(1) by (simp add: chan_ok_def map_wf_distinct)
  show ?thesis
  proof (cases "blocks c ?xs")
    case True
    then have "snd (snd (close_others (chan_handle_closed (Suc n) rt) rt 0 ?xs ?c0)) = Inl CH_blocked"
      using loop by blast
    then have "snd (snd (chan_handle_closed (Suc (Suc n)) rt p c)) = Inl CH_blocked"
      using assms(3-5) unfolding chan_handle_closed.simps(2) [of "Suc n"]
      by (auto split: prod.splits sum.splits)
    with True show ?thesis by simp
  next
    case False
    then obtain c1 where c1: "close_others (chan_handle_closed (Suc n) rt) rt 0 ?xs ?c0 =
        (c1, closing_events c ?xs, Inr (map fst (passives c ?xs)))" "loop_result ?c0 ?xs c1"
      using loop by blast
    let ?c2 = "if map fst (passives c ?xs) \<noteq> [] then start_destroy_timer rt 60 c1 else c1"
    let ?c3 = "?c2\<lparr>chan_conns := fold map_erase (map fst (passives c ?xs)) (chan_conns ?c2), chan_read_locks := chan_read_locks c\<rparr>"
    have fr: "chan_conns c1 = ?xs" "chan_env c1"
      using c1(2) assms(2) by (simp_all add: loop_result_def loop_frame_def)
    have run: "chan_handle_closed (Suc (Suc n)) rt p c = (?c3, closing_events c ?xs @ [Chan_closed], Inr ())"
      using assms(3-5) fr unfolding chan_handle_closed.simps(2) [of "Suc n"] by (simp add: c1(1) Let_def call_owner_def)
    have "chan_conns ?c3 = fold map_erase (map fst (passives c ?xs)) ?xs"
      by (simp add: fr(1))
    also have "\<dots> = remaining c"
      unfolding fold_erase remaining_def by (rule erase_passives [OF dist])
    finally have rem: "chan_conns ?c3 = remaining ?c0"
      by (simp add: remaining_def e0)
    have "chan_ok ?c0"
      using assms(1) by (simp add: chan_ok_def e0)
    then have "chan_ok ?c3"
      by (rule chan_ok_remaining [of _ c1]) (use c1(2) rem in simp_all)
    then have "main_closed_result c ?c3"
      using c1(2) rem fr same(3) by (simp add: main_closed_result_def loop_result_def remaining_def e0)
    then show ?thesis
      using False run by blast
  qed
qed

section \<open>The channel as a transition system\<close>

fun halt_of :: "chan_halt + 'v \<Rightarrow> chan_halt option" where
  "halt_of (Inl h) = Some h"
| "halt_of (Inr v) = None"

text \<open>A connection that may be handed to a channel, and what a connection's own steps keep.\<close>

definition usable :: "'e crofconn \<Rightarrow> bool" where
  "usable k \<longleftrightarrow> \<not> conn_deleting k \<and> conn_state k \<noteq> STATE_CLOSING"

definition same_conn_id :: "'e crofconn \<Rightarrow> 'e crofconn \<Rightarrow> bool" where
  "same_conn_id k k' \<longleftrightarrow> conn_auxid k' = conn_auxid k \<and> usable k'"

text \<open>
  The steps: new connections at fresh addresses, the methods of the channel, the callbacks of its
  connections, and steps the connections make on their own.  The second component says how the method
  ended.  Two things are left out: a connection that is already owned does not change its auxiliary
  identifier (\<open>crofconn::features_reply_rcvd\<close> takes the one of the peer's reply; in the model it has it
  before it is handed to the channel), and the channel's environment is registered throughout, so that no
  callback to it throws.
\<close>

inductive chan_step :: "'e crofchan \<Rightarrow> 'e chan_event list \<Rightarrow> chan_halt option \<Rightarrow> 'e crofchan \<Rightarrow> bool" where
  Cs_alloc: "chan_heap c p = None \<Longrightarrow> usable k \<Longrightarrow> chan_step c [] None (c\<lparr>chan_heap := (chan_heap c)(p \<mapsto> k)\<rparr>)"
| Cs_conn: "chan_heap c p = Some k \<Longrightarrow> same_conn_id k k' \<Longrightarrow> chan_step c [] None (c\<lparr>chan_heap := (chan_heap c)(p \<mapsto> k')\<rparr>)"
| Cs_add: "chan_heap c (rt_addr rt) = None \<Longrightarrow> usable k \<Longrightarrow> add_conn rt k c = (c', evs, r) \<Longrightarrow>
    chan_step c evs (halt_of r) c'"
| Cs_add_auxid: "chan_heap c (rt_addr rt) = None \<Longrightarrow> usable k \<Longrightarrow> add_conn_auxid rt a k c = (c', evs, r) \<Longrightarrow>
    chan_step c evs (halt_of r) c'"
| Cs_set: "chan_heap c (rt_addr rt) = None \<Longrightarrow> usable k \<Longrightarrow> set_conn rt a k c = (c', evs, r) \<Longrightarrow>
    chan_step c evs (halt_of r) c'"
| Cs_add_ptr: "chan_heap c p = Some k \<Longrightarrow> usable k \<Longrightarrow> p \<notin> snd ` set (chan_conns c) \<Longrightarrow> p \<notin> set (conns_deletion c) \<Longrightarrow>
    add_conn_ptr rt (Some p) c = (c', evs, r) \<Longrightarrow> chan_step c evs (halt_of r) c'"
| Cs_add_null: "add_conn_ptr rt None c = (c', evs, r) \<Longrightarrow> chan_step c evs (halt_of r) c'"
| Cs_clear: "chan_clear rt c = (c', evs, r) \<Longrightarrow> chan_step c evs (halt_of r) c'"
| Cs_drop: "drop_conn rt a c = (c', evs, r) \<Longrightarrow> chan_step c evs (halt_of r) c'"
| Cs_event: "chan_heap c p \<noteq> None \<Longrightarrow> chan_conn_event (Suc (Suc n)) rt p ev c = (c', evs, r) \<Longrightarrow>
    chan_step c evs (halt_of r) c'"
| Cs_timeout: "chan_handle_timeout tid c = (c', evs, r) \<Longrightarrow> chan_step c evs (halt_of r) c'"
| Cs_send: "(\<And>k k' x. send k = Inr (k', x) \<Longrightarrow> usable k \<Longrightarrow> same_conn_id k k') \<Longrightarrow>
    chan_send_with send a c = (c', evs, r) \<Longrightarrow> chan_step c evs (halt_of r) c'"

text \<open>A thread that blocks for ever makes no further step.\<close>

inductive chan_reach :: "'e crofchan \<Rightarrow> bool" where
  Cr_new: "chan_reach (crofchan_new this th)"
| Cr_step: "chan_reach c \<Longrightarrow> chan_step c evs h c' \<Longrightarrow> h \<noteq> Some CH_blocked \<Longrightarrow> chan_reach c'"

definition chan_inv :: "'e crofchan \<Rightarrow> bool" where
  "chan_inv c \<longleftrightarrow> chan_ok c \<and> chan_env c \<and> chan_read_locks c = 0"

text \<open>A step is sound if it neither dangles nor runs out of fuel and keeps the invariant.\<close>

definition sound :: "'e crofchan \<Rightarrow> chan_halt option \<Rightarrow> bool" where
  "sound c' h \<longleftrightarrow> h \<noteq> Some CH_dangling \<and> h \<noteq> Some CH_fuel \<and> (h \<noteq> Some CH_blocked \<longrightarrow> chan_inv c')"

lemma set_map_put: "map_wf m \<Longrightarrow> set (map_put k v m) = insert (k, v) {x \<in> set m. fst x \<noteq> k}"
  by (induction k v m rule: map_put.induct) (auto simp: map_wf_Cons)

lemma distinct_snd_put: "distinct (map snd m) \<Longrightarrow> v \<notin> snd ` set m \<Longrightarrow> distinct (map snd (map_put k v m))"
proof (induction k v m rule: map_put.induct)
  case (2 k v k' v' m)
  have "snd ` set (map_put k v m) \<subseteq> insert v (snd ` set m)"
    by (induction k v m rule: map_put.induct) auto
  with 2 show ?case
    by auto
qed simp

lemma snd_unique: "distinct (map snd m) \<Longrightarrow> (a, q) \<in> set m \<Longrightarrow> (b, q) \<in> set m \<Longrightarrow> a = b"
  by (induction m) (auto simp: rev_image_eqI)

lemma chan_ok_put:
  assumes ok: "chan_ok c" and conns: "chan_conns c' = map_put a p (chan_conns c)" and p: "p \<notin> snd ` set (chan_conns c)"
    "p \<notin> set (conns_deletion c')" "entry_ok c' a p" and del: "ptrs_ok (conns_deletion c')"
    "set (conns_deletion c') \<subseteq> set (conns_deletion c) \<union> {q. map_of (chan_conns c) a = Some q}"
    "\<forall>q \<in> set (conns_deletion c'). chan_heap c' q \<noteq> None"
    and heap: "\<And>q. q \<noteq> p \<Longrightarrow> map_of (chan_conns c) a \<noteq> Some q \<Longrightarrow> chan_heap c' q = chan_heap c q"
  shows "chan_ok c'"
proof -
  have wf: "map_wf (chan_conns c)" "distinct (map snd (chan_conns c))"
    using ok by (simp_all add: chan_ok_def)
  have old: "map_of (chan_conns c) a \<noteq> Some q" "q \<noteq> p" "q \<notin> set (conns_deletion c')" "entry_ok c' b q"
    if bq: "(b, q) \<in> set (chan_conns c)" "b \<noteq> a" for b q
  proof -
    show n: "map_of (chan_conns c) a \<noteq> Some q"
    proof
      assume "map_of (chan_conns c) a = Some q"
      then have "(a, q) \<in> set (chan_conns c)"
        by (rule map_of_SomeD)
      with bq show False
        using snd_unique [OF wf(2)] by blast
    qed
    show np: "q \<noteq> p"
      using bq(1) p(1) by force
    have "q \<notin> set (conns_deletion c)"
      using ok bq(1) by (force simp: chan_ok_def)
    with n del(2) show "q \<notin> set (conns_deletion c')"
      by auto
    have "entry_ok c b q"
      using ok bq(1) by (auto simp: chan_ok_def)
    then show "entry_ok c' b q"
      using heap [OF np n] by (simp add: entry_ok_def)
  qed
  have "snd ` set (chan_conns c') \<inter> set (conns_deletion c') = {}"
    using old(3) p(2) by (auto simp: conns set_map_put [OF wf(1)])
  moreover have "\<forall>(b, q) \<in> set (chan_conns c'). entry_ok c' b q"
    using old(4) p(3) by (auto simp: conns set_map_put [OF wf(1)])
  ultimately show ?thesis
    using wf p(1) del by (auto simp: chan_ok_def conns map_wf_put distinct_snd_put ptrs_ok_def)
qed

lemma put_new_sound:
  assumes "chan_inv c" "chan_heap c (rt_addr rt) = None" "usable k"
    and c1: "chan_conns c1 = chan_conns c" "conns_deletion c1 = conns_deletion c" "chan_env c1 = chan_env c"
      "chan_read_locks c1 = chan_read_locks c"
      "\<And>q. map_of (chan_conns c) a \<noteq> Some q \<Longrightarrow> chan_heap c1 q = chan_heap c q"
  shows "\<exists>c'. put_new_conn rt a k c1 = (c', [], Inr (rt_addr rt)) \<and> chan_inv c'"
proof -
  let ?p = "rt_addr rt"
  let ?c' = "c1\<lparr>chan_conns := map_put a ?p (chan_conns c1), chan_heap := (chan_heap c1)(?p \<mapsto> k\<lparr>conn_auxid := a\<rparr>),
      chan_owner := (chan_owner c1)(?p := True)\<rparr>"
  have ok: "chan_ok c" "chan_env c" "chan_read_locks c = 0"
    using assms(1) by (simp_all add: chan_inv_def)
  have fresh: "?p \<notin> snd ` set (chan_conns c)" "?p \<notin> set (conns_deletion c)"
    using ok(1) assms(2) by (auto simp: chan_ok_def entry_ok_def)
  have del: "chan_heap c1 q \<noteq> None" if "q \<in> set (conns_deletion c)" for q
  proof -
    have "map_of (chan_conns c) a \<noteq> Some q"
    proof
      assume "map_of (chan_conns c) a = Some q"
      then have "q \<in> snd ` set (chan_conns c)"
        by (force dest: map_of_SomeD)
      with that ok(1) show False
        by (auto simp: chan_ok_def)
    qed
    then show ?thesis
      using c1(5) that ok(1) by (auto simp: chan_ok_def)
  qed
  have "chan_ok ?c'"
  proof (rule chan_ok_put [OF ok(1), of _ a ?p])
    show "ptrs_ok (conns_deletion ?c')"
      using ok(1) c1(2) by (simp add: chan_ok_def ptrs_ok_def)
    show "entry_ok ?c' a ?p"
      using assms(3) by (simp add: entry_ok_def usable_def)
  qed (use fresh del c1 in auto)
  then show ?thesis
    using ok c1 by (simp add: put_new_conn_def chan_inv_def)
qed

lemma add_conn_sound:
  assumes "chan_inv c" "chan_heap c (rt_addr rt) = None" "usable k" "add_conn rt k c = (c', evs, r)"
  shows "sound c' (halt_of r)"
proof -
  obtain a cnt where pr: "probe_auxid 256 (last_auxid c) (chan_conns c) = (a, cnt)"
    by fastforce
  obtain c2 where "put_new_conn rt a k (c\<lparr>last_auxid := a\<rparr>) = (c2, [], Inr (rt_addr rt))" "chan_inv c2"
    using put_new_sound [OF assms(1-3), of "c\<lparr>last_auxid := a\<rparr>" a] by auto
  moreover have "chan_inv (c\<lparr>last_auxid := a\<rparr>)"
    using assms(1) by (simp add: chan_inv_def chan_ok_def entry_ok_def)
  ultimately show ?thesis
    using assms(1,4) pr
    by (auto simp: add_conn_def with_write_lock_def sound_def chan_inv_def Let_def split: if_splits)
qed

lemma add_conn_auxid_sound:
  assumes "chan_inv c" "chan_heap c (rt_addr rt) = None" "usable k" "add_conn_auxid rt a k c = (c', evs, r)"
  shows "sound c' (halt_of r)"
proof -
  have lk: "chan_read_locks c = 0"
    using assms(1) by (simp add: chan_inv_def)
  have "chan_heap c p \<noteq> None" if "map_of (chan_conns c) a = Some p" for p
    using that assms(1) by (force simp: chan_inv_def chan_ok_def entry_ok_def dest: map_of_SomeD)
  then obtain c1 where c1: "(case map_of (chan_conns c) a of None \<Rightarrow> (c, None) | Some p \<Rightarrow> delete_conn p c) = (c1, None)"
    "chan_conns c1 = chan_conns c" "conns_deletion c1 = conns_deletion c" "chan_env c1 = chan_env c"
    "chan_read_locks c1 = chan_read_locks c" "\<And>q. map_of (chan_conns c) a \<noteq> Some q \<Longrightarrow> chan_heap c1 q = chan_heap c q"
    by (cases "map_of (chan_conns c) a") (force simp: delete_conn_def)+
  obtain c2 where "put_new_conn rt a k c1 = (c2, [], Inr (rt_addr rt))" "chan_inv c2"
    using put_new_sound [OF assms(1-3) c1(2-6)] by blast
  then show ?thesis
    using assms(4) lk c1(1) by (auto simp: add_conn_auxid_def with_write_lock_def sound_def)
qed

lemma set_conn_sound:
  assumes "chan_inv c" "chan_heap c (rt_addr rt) = None" "usable k" "set_conn rt a k c = (c', evs, r)"
  shows "sound c' (halt_of r)"
proof -
  obtain c2 where "put_new_conn rt a k c = (c2, [], Inr (rt_addr rt))" "chan_inv c2"
    using put_new_sound [OF assms(1-3), of c a] by auto
  then show ?thesis
    using assms(1,4) by (auto simp: set_conn_def with_write_lock_def sound_def chan_inv_def split: option.splits)
qed

lemma add_conn_ptr_sound:
  assumes "chan_inv c" "chan_heap c p = Some k" "usable k" "p \<notin> snd ` set (chan_conns c)" "p \<notin> set (conns_deletion c)"
    "add_conn_ptr rt (Some p) c = (c', evs, r)"
  shows "sound c' (halt_of r)"
proof -
  have ok: "chan_ok c" "chan_env c" "chan_read_locks c = 0"
    using assms(1) by (simp_all add: chan_inv_def)
  let ?a = "conn_auxid k"
  have main: "chan_ok d" if "chan_conns d = map_put ?a p (chan_conns c)" "chan_heap d = chan_heap c"
      "ptrs_ok (conns_deletion d)"
      "set (conns_deletion d) = set (conns_deletion c) \<union> {q. map_of (chan_conns c) ?a = Some q}" for d :: "'a crofchan"
  proof (rule chan_ok_put [OF ok(1) that(1) assms(4)])
    have "q \<in> snd ` set (chan_conns c)" "chan_heap c q \<noteq> None" if "map_of (chan_conns c) ?a = Some q" for q
      using that ok(1) by (force simp: chan_ok_def entry_ok_def dest: map_of_SomeD)+
    then show "p \<notin> set (conns_deletion d)" "\<forall>q \<in> set (conns_deletion d). chan_heap d q \<noteq> None"
      using assms(4,5) ok(1) that(2,4) by (auto simp: chan_ok_def)
    show "entry_ok d ?a p"
      using assms(2,3) that(2) by (simp add: entry_ok_def usable_def)
  qed (use that in auto)
  have pd: "ptrs_ok (conns_deletion c)"
    using ok(1) by (simp add: chan_ok_def ptrs_ok_def)
  let ?put = "\<lambda>d. d\<lparr>chan_conns := map_put ?a p (chan_conns d), chan_owner := (chan_owner d)(p := True)\<rparr>"
  let ?fin = "\<lambda>d. if ?a = 0 then d\<lparr>chan_ofp_version := conn_ofp_version k\<rparr> else d"
  show ?thesis
  proof (cases "map_of (chan_conns c) ?a")
    case None
    then have "c' = ?fin (?put c)" "r = Inr p"
      using assms(2,6) ok(3) by (auto simp: add_conn_ptr_def with_write_lock_def Let_def)
    moreover have "chan_ok (?fin (?put c))"
      by (rule main) (use None pd in auto)
    ultimately show ?thesis
      using ok by (auto simp: sound_def chan_inv_def)
  next
    case (Some old)
    let ?d = "start_destroy_timer rt 8 (schedule_deletion old c)"
    have "c' = ?fin (?put ?d)" "r = Inr p"
      using assms(2,6) ok(2,3) Some by (auto simp: add_conn_ptr_def with_write_lock_def call_owner_def Let_def)
    moreover have "chan_ok (?fin (?put ?d))"
      by (rule main) (use Some ptrs_ok_schedule [OF pd] in auto)
    ultimately show ?thesis
      using ok by (auto simp: sound_def chan_inv_def)
  qed
qed

text \<open>Detaching some connections and taking their entries out.\<close>

lemma detach_ok:
  assumes ok: "chan_ok c" and ps: "set ps \<subseteq> snd ` set (chan_conns c)"
    and rest: "set m \<subseteq> {ap \<in> set (chan_conns c). snd ap \<notin> set ps}" "map_wf m" "distinct (map snd m)"
    and c0: "chan_heap c0 = chan_heap c" "conns_deletion c0 = conns_deletion c" "chan_read_locks c0 = chan_read_locks c"
      "chan_env c0 = chan_env c"
  shows "\<exists>c1. detach_conns rt ps c0 = (c1, None) \<and> chan_read_locks c1 = chan_read_locks c \<and> chan_env c1 = chan_env c \<and>
    chan_conns c1 = chan_conns c0 \<and> chan_state c1 = chan_state c0 \<and>
    (\<forall>c2. chan_conns c2 = m \<and> chan_heap c2 = chan_heap c1 \<and> conns_deletion c2 = conns_deletion c1 \<longrightarrow> chan_ok c2)"
proof -
  have ex: "chan_heap c q \<noteq> None" if "q \<in> snd ` set (chan_conns c) \<union> set (conns_deletion c)" for q
    using that ok by (auto simp: chan_ok_def entry_ok_def)
  then have pre: "\<forall>p \<in> set ps. chan_heap c0 p \<noteq> None"
    using ps unfolding c0(1) by blast
  have pre2: "sorted (conns_deletion c0)" "distinct (conns_deletion c0)"
    using ok c0(2) by (simp_all add: chan_ok_def)
  obtain c1 where c1: "detach_conns rt ps c0 = (c1, None)" "chan_conns c1 = chan_conns c0"
    "set (conns_deletion c1) = set ps \<union> set (conns_deletion c0)" "sorted (conns_deletion c1)" "distinct (conns_deletion c1)"
    "\<forall>p. p \<notin> set ps \<longrightarrow> chan_heap c1 p = chan_heap c0 p \<and> chan_owner c1 p = chan_owner c0 p"
    "\<forall>p. (chan_heap c1 p = None) = (chan_heap c0 p = None)" "chan_read_locks c1 = chan_read_locks c0"
    "chan_env c1 = chan_env c0" "chan_state c1 = chan_state c0"
    using detach_conns_spec [OF pre pre2, of rt] by blast
  have "chan_ok c2" if "chan_conns c2 = m" "chan_heap c2 = chan_heap c1" "conns_deletion c2 = conns_deletion c1" for c2 :: "'a crofchan"
  proof -
    have "entry_ok c2 a q" if aq: "(a, q) \<in> set m" for a q
    proof -
      have "(a, q) \<in> set (chan_conns c)" "q \<notin> set ps"
        using aq rest(1) by auto
      moreover from this have "chan_heap c2 q = chan_heap c q"
        using c1(6) c0(1) \<open>chan_heap c2 = chan_heap c1\<close> by simp
      ultimately show ?thesis
        using ok by (auto simp: chan_ok_def entry_ok_def)
    qed
    moreover have "chan_heap c2 q \<noteq> None" if q: "q \<in> set (conns_deletion c2)" for q
    proof -
      have "q \<in> snd ` set (chan_conns c) \<union> set (conns_deletion c)"
        using q ps c1(3) c0(2) \<open>conns_deletion c2 = conns_deletion c1\<close> by auto
      from ex [OF this] show ?thesis
        using c1(7) c0(1) \<open>chan_heap c2 = chan_heap c1\<close> by simp
    qed
    moreover have "snd ` set m \<inter> set (conns_deletion c1) = {}"
      using rest(1) ok c1(3) c0(2) by (auto simp: chan_ok_def)
    ultimately show ?thesis
      using that rest(2,3) c1(4,5) by (auto simp: chan_ok_def)
  qed
  then show ?thesis
    using c1 c0(3,4) by auto
qed

lemma chan_clear_sound:
  assumes "chan_inv c" "chan_clear rt c = (c', evs, r)"
  shows "sound c' (halt_of r)"
proof -
  have ok: "chan_ok c" "chan_env c" "chan_read_locks c = 0"
    using assms(1) by (simp_all add: chan_inv_def)
  let ?c0 = "c\<lparr>chan_state := CHAN_DISCONNECTING\<rparr>"
  obtain c1 where c1: "detach_conns rt (map snd (chan_conns c)) ?c0 = (c1, None)" "chan_read_locks c1 = 0" "chan_env c1"
    "\<forall>c2. chan_conns c2 = [] \<and> chan_heap c2 = chan_heap c1 \<and> conns_deletion c2 = conns_deletion c1 \<longrightarrow> chan_ok c2"
    using detach_ok [OF ok(1), of "map snd (chan_conns c)" "[]" ?c0 rt] ok(2,3) by auto
  then show ?thesis
    using assms(2) ok(3) by (auto simp: chan_clear_def with_write_lock_def sound_def chan_inv_def)
qed

lemma drop_conn_sound:
  assumes "chan_inv c" "drop_conn rt a c = (c', evs, r)"
  shows "sound c' (halt_of r)"
proof -
  have ok: "chan_ok c" "chan_env c" "chan_read_locks c = 0"
    using assms(1) by (simp_all add: chan_inv_def)
  let ?c0 = "c\<lparr>chan_state := CHAN_DISCONNECTING\<rparr>"
  consider "a = 0" | "a \<noteq> 0" "map_of (chan_conns c) a = None" | p where "a \<noteq> 0" "map_of (chan_conns c) a = Some p"
    by blast
  then show ?thesis
  proof cases
    case 1
    obtain c1 where c1: "detach_conns rt (map snd (chan_conns c)) ?c0 = (c1, None)" "chan_read_locks c1 = 0" "chan_env c1"
      "\<forall>c2. chan_conns c2 = [] \<and> chan_heap c2 = chan_heap c1 \<and> conns_deletion c2 = conns_deletion c1 \<longrightarrow> chan_ok c2"
      using detach_ok [OF ok(1), of "map snd (chan_conns c)" "[]" ?c0 rt] ok(2,3) by auto
    then show ?thesis
      using assms(2) ok(3) 1 by (auto simp: drop_conn_def with_write_lock_def sound_def chan_inv_def)
  next
    case 2
    then show ?thesis
      using assms ok(3) by (auto simp: drop_conn_def with_write_lock_def sound_def)
  next
    case 3
    let ?m = "map_erase a (chan_conns c)"
    have p: "(a, p) \<in> set (chan_conns c)"
      using 3(2) by (rule map_of_SomeD)
    have "snd ap \<noteq> p" if "ap \<in> set (chan_conns c)" "fst ap \<noteq> a" for ap
      using that p snd_unique [of "chan_conns c" a p "fst ap"] ok(1) by (cases ap) (auto simp: chan_ok_def)
    then have m: "set ?m \<subseteq> {ap \<in> set (chan_conns c). snd ap \<notin> set [p]}" "map_wf ?m" "distinct (map snd ?m)"
      using ok(1) by (auto simp: map_erase_def chan_ok_def map_wf_def sorted_wrt_map sorted_wrt_filter distinct_map_filter)
    obtain c1 where c1: "detach_conns rt [p] c = (c1, None)" "chan_read_locks c1 = 0" "chan_env c1" "chan_conns c1 = chan_conns c"
      "\<forall>c2. chan_conns c2 = ?m \<and> chan_heap c2 = chan_heap c1 \<and> conns_deletion c2 = conns_deletion c1 \<longrightarrow> chan_ok c2"
      using detach_ok [OF ok(1) _ m refl refl refl refl, of rt] ok(2,3) p by (force simp del: detach_conns.simps)
    have "detach_conn rt p c = (c1, None)"
      using c1(1) by (auto split: prod.splits option.splits)
    then show ?thesis
      using assms(2) ok(3) 3 c1(2-5) by (auto simp: drop_conn_def with_write_lock_def sound_def chan_inv_def)
  qed
qed

lemma chan_timeout_sound:
  assumes "chan_inv c" "chan_handle_timeout tid c = (c', evs, r)"
  shows "sound c' (halt_of r)"
proof -
  have ok: "chan_ok c" "chan_env c" "chan_read_locks c = 0"
    using assms(1) by (simp_all add: chan_inv_def)
  let ?c1 = "c\<lparr>chan_heap := (\<lambda>p. if p \<in> set (conns_deletion c) then None else chan_heap c p)\<rparr>"
  have del: "delete_conns (conns_deletion c) c = (?c1, None)"
    using ok(1) by (intro delete_conns_spec) (auto simp: chan_ok_def)
  have "chan_ok (?c1\<lparr>conns_deletion := []\<rparr>)"
    using ok(1) by (force simp: chan_ok_def entry_ok_def)
  then show ?thesis
    using assms ok by (auto simp: chan_handle_timeout_def drop_conns_deletion_def del sound_def chan_inv_def split: if_splits)
qed

lemma heap_update_ok:
  assumes "chan_ok c" "chan_heap c p = Some k" "same_conn_id k k'"
  shows "chan_ok (c\<lparr>chan_heap := (chan_heap c)(p \<mapsto> k')\<rparr>)"
proof -
  have "entry_ok (c\<lparr>chan_heap := (chan_heap c)(p \<mapsto> k')\<rparr>) a q" if "entry_ok c a q" for a q
    using that assms(2,3) by (auto simp: entry_ok_def same_conn_id_def usable_def)
  then show ?thesis
    using assms(1) by (auto simp: chan_ok_def)
qed

lemma chan_sendable_found:
  "chan_sendable a c = Inr p \<Longrightarrow> map_of (chan_conns c) a = Some p"
  "chan_ok c \<Longrightarrow> chan_sendable a c \<noteq> Inl CH_dangling \<and> chan_sendable a c \<noteq> Inl CH_fuel \<and> chan_sendable a c \<noteq> Inl CH_blocked"
proof -
  show "chan_sendable a c = Inr p \<Longrightarrow> map_of (chan_conns c) a = Some p"
    by (auto simp: chan_sendable_def split: sum.splits bool.splits option.splits)
  assume ok: "chan_ok c"
  have found: "\<exists>v. is_conn_established q c = Inr v" if "map_of (chan_conns c) b = Some q" for b q
  proof -
    have "entry_ok c b q"
      using map_of_SomeD [OF that] ok by (auto simp: chan_ok_def)
    then show ?thesis
      by (auto simp: entry_ok_def is_conn_established_def)
  qed
  have "chan_is_established c = Inl (CH_throw EOutOfRange) \<or> (\<exists>v. chan_is_established c = Inr v)"
    using found [of 0] by (auto simp: chan_is_established_def split: option.split)
  then show "chan_sendable a c \<noteq> Inl CH_dangling \<and> chan_sendable a c \<noteq> Inl CH_fuel \<and> chan_sendable a c \<noteq> Inl CH_blocked"
    using found [of a] by (auto simp: chan_sendable_def split: option.split bool.split sum.split)
qed

lemma chan_send_sound:
  assumes "chan_inv c" "chan_send_with send a c = (c', evs, r)"
    "\<And>k k' x. send k = Inr (k', x) \<Longrightarrow> usable k \<Longrightarrow> same_conn_id k k'"
  shows "sound c' (halt_of r)"
proof -
  have ok: "chan_ok c" "chan_env c" "chan_read_locks c = 0"
    using assms(1) by (simp_all add: chan_inv_def)
  show ?thesis
  proof (cases "chan_sendable a c")
    case (Inl h)
    then show ?thesis
      using assms(1,2) chan_sendable_found(2) [OF ok(1), of a] by (auto simp: chan_send_with_def sound_def)
  next
    case (Inr p)
    have "(a, p) \<in> set (chan_conns c)"
      by (rule map_of_SomeD [OF chan_sendable_found(1) [OF Inr]])
    then obtain k where k: "chan_heap c p = Some k" "usable k"
      using ok(1) by (auto simp: chan_ok_def entry_ok_def usable_def)
    show ?thesis
    proof (cases "send k")
      case Inl
      then show ?thesis
        using assms(1,2) Inr k by (auto simp: chan_send_with_def sound_def)
    next
      case (Inr kx)
      then have "chan_ok (c\<lparr>chan_heap := (chan_heap c)(p \<mapsto> fst kx)\<rparr>)"
        using heap_update_ok [OF ok(1) k(1)] assms(3) [of k "fst kx" "snd kx"] k(2) by simp
      then show ?thesis
        using assms(2) \<open>chan_sendable a c = Inr p\<close> k Inr ok
        by (auto simp: chan_send_with_def sound_def chan_inv_def split_beta)
    qed
  qed
qed

lemma aux_closed_sound:
  assumes "chan_inv c" "chan_heap c p = Some k" "conn_auxid k \<noteq> 0" "chan_handle_closed (Suc n) rt p c = (c', evs, r)"
  shows "sound c' (halt_of r)"
proof -
  have ok: "chan_ok c" "chan_env c" "chan_read_locks c = 0"
    using assms(1) by (simp_all add: chan_inv_def)
  let ?a = "conn_auxid k"
  let ?c1 = "start_destroy_timer rt 60 (schedule_deletion p (c\<lparr>chan_conns := map_erase ?a (chan_conns c)\<rparr>))"
  have del: "ptrs_ok (conns_deletion ?c1)" "set (conns_deletion ?c1) = insert p (set (conns_deletion c))"
    using ok(1) ptrs_ok_schedule [of "c\<lparr>chan_conns := map_erase ?a (chan_conns c)\<rparr>" p] by (simp_all add: chan_ok_def ptrs_ok_def)
  have sub: "x \<in> set (map_erase ?a (chan_conns c)) \<Longrightarrow> x \<in> set (chan_conns c) \<and> fst x \<noteq> ?a" for x
    by (simp add: map_erase_def)
  have "p \<notin> snd ` set (map_erase ?a (chan_conns c))"
  proof
    assume "p \<in> snd ` set (map_erase ?a (chan_conns c))"
    then obtain b where b: "(b, p) \<in> set (chan_conns c)" "b \<noteq> ?a"
      using sub by fastforce
    then have "entry_ok c b p"
      using ok(1) by (auto simp: chan_ok_def)
    with assms(2) b(2) show False
      by (simp add: entry_ok_def)
  qed
  moreover have "entry_ok ?c1 b q" if "(b, q) \<in> set (map_erase ?a (chan_conns c))" for b q
    using sub [OF that] ok(1) by (auto simp: chan_ok_def entry_ok_def)
  moreover have "snd ` set (map_erase ?a (chan_conns c)) \<inter> set (conns_deletion c) = {}"
    using ok(1) sub by (auto simp: chan_ok_def)
  moreover have "map_wf (map_erase ?a (chan_conns c))" "distinct (map snd (map_erase ?a (chan_conns c)))"
    using ok(1) by (auto simp: map_erase_def chan_ok_def map_wf_def sorted_wrt_map sorted_wrt_filter distinct_map_filter)
  moreover have "\<forall>q \<in> set (conns_deletion ?c1). chan_heap ?c1 q \<noteq> None"
    using ok(1) assms(2) del(2) by (auto simp: chan_ok_def)
  ultimately have "chan_ok ?c1"
    using del by (auto simp: chan_ok_def ptrs_ok_def)
  then have "chan_inv ?c1"
    using ok by (simp add: chan_inv_def)
  then show ?thesis
    using assms ok
    by (auto simp: chan_handle_closed.simps with_write_lock_def call_owner_def sound_def split: if_splits)
qed

lemma main_closed_sound:
  assumes "chan_inv c" "\<not> chan_deleting c" "chan_heap c p = Some k" "conn_auxid k = 0"
    "chan_handle_closed (Suc (Suc n)) rt p c = (c', evs, r)"
  shows "sound c' (halt_of r)"
proof -
  have ok: "chan_ok c" "chan_env c" "chan_read_locks c = 0"
    using assms(1) by (simp_all add: chan_inv_def)
  show ?thesis
    using main_closed [OF ok(1,2) assms(2-4), of n rt] assms(5) ok(3)
    by (cases "blocks c (chan_conns c)") (auto simp: sound_def main_closed_result_def chan_inv_def)
qed

lemma chan_event_sound:
  assumes "chan_inv c" "chan_heap c p \<noteq> None" "chan_conn_event (Suc (Suc n)) rt p ev c = (c', evs, r)"
  shows "sound c' (halt_of r)"
proof -
  obtain k where k: "chan_heap c p = Some k"
    using assms(2) by blast
  have est: "chan_inv (c\<lparr>chan_ofp_version := v\<rparr>)" for v
    using assms(1) by (simp add: chan_inv_def chan_ok_def entry_ok_def)
  have fwd: "sound c' (halt_of r)" if "chan_forward p ev c = (c', evs, r)"
    using that assms(1) by (auto simp: chan_forward_def sound_def split: if_splits)
  have closed: "sound c' (halt_of r)" if h: "chan_handle_closed (Suc (Suc n)) rt p c = (c', evs, r)"
  proof (cases "chan_deleting c")
    case True
    then show ?thesis
      using h assms(1) by (auto simp: chan_handle_closed.simps sound_def)
  next
    case False
    then show ?thesis
      using main_closed_sound [OF assms(1) False k _ h] aux_closed_sound [OF assms(1) k _ h] by blast
  qed
  show ?thesis
  proof (cases "chan_owner c p")
    case False
    then show ?thesis
      using assms(1,3) by (auto simp: chan_conn_event_def sound_def)
  next
    case True
    have "sound c' (halt_of r)" if "chan_handle_established p v c = (c', evs, r)" for v
      using that assms(1) k est by (auto simp: chan_handle_established_def sound_def Let_def split: if_splits)
    then show ?thesis
      using assms(3) True fwd closed by (cases ev) (simp_all add: chan_conn_event_def)
  qed
qed

lemma chan_step_sound: "chan_step c evs h c' \<Longrightarrow> chan_inv c \<Longrightarrow> sound c' h"
proof (induction rule: chan_step.induct)
  case (Cs_alloc c p k)
  then have "chan_ok (c\<lparr>chan_heap := (chan_heap c)(p \<mapsto> k)\<rparr>)"
    by (force simp: chan_inv_def chan_ok_def entry_ok_def)
  with Cs_alloc show ?case
    by (simp add: sound_def chan_inv_def)
next
  case (Cs_conn c p k k')
  then show ?case
    using heap_update_ok [of c p k k'] by (simp add: sound_def chan_inv_def)
next
  case (Cs_add_null rt c c' evs r)
  then show ?case
    by (auto simp: add_conn_ptr_def sound_def)
qed (blast intro: add_conn_sound add_conn_auxid_sound set_conn_sound add_conn_ptr_sound chan_clear_sound drop_conn_sound
  chan_event_sound chan_timeout_sound chan_send_sound)+

lemma chan_reach_inv: "chan_reach c \<Longrightarrow> chan_inv c"
proof (induction rule: chan_reach.induct)
  case (Cr_new this th)
  show ?case
    by (simp add: chan_inv_def chan_ok_def crofchan_new_def)
next
  case (Cr_step c evs h c')
  then show ?case
    using chan_step_sound by (fastforce simp: sound_def)
qed

section \<open>Properties\<close>

text \<open>
  C3: ownership.  Whatever sequence of methods, callbacks and time-outs a channel sees, it refers to
  each connection once, either as an active one or as one scheduled for deletion, and every one it
  refers to exists; no method uses or deletes a connection that has been deleted.
\<close>

theorem channel_ownership:
  assumes "chan_reach c" and "chan_step c evs h c'"
  shows "distinct (map snd (chan_conns c) @ conns_deletion c) \<and>
    (\<forall>p \<in> set (map snd (chan_conns c) @ conns_deletion c). chan_heap c p \<noteq> None) \<and>
    h \<noteq> Some CH_dangling \<and> h \<noteq> Some CH_fuel"
proof -
  have inv: "chan_inv c"
    by (rule chan_reach_inv [OF assms(1)])
  then have "h \<noteq> Some CH_dangling \<and> h \<noteq> Some CH_fuel"
    using chan_step_sound [OF assms(2)] by (simp add: sound_def)
  moreover have "distinct (map snd (chan_conns c) @ conns_deletion c)"
    using inv by (auto simp: chan_inv_def chan_ok_def)
  moreover have "\<forall>p \<in> set (map snd (chan_conns c) @ conns_deletion c). chan_heap c p \<noteq> None"
    using inv by (auto simp: chan_inv_def chan_ok_def entry_ok_def)
  ultimately show ?thesis
    by blast
qed

text \<open>
  C29: the main connection of a channel closes and one of its auxiliary connections was accepted from
  a listening socket: \<open>handle_closed\<close> holds the read lock of the map while it closes the auxiliary
  connection, whose own \<open>handle_closed\<close> asks for the write lock.  The thread blocks for ever.
\<close>

theorem main_close_deadlocks:
  assumes "chan_ok c" and "chan_env c" and "\<not> chan_deleting c"
    and "chan_heap c p = Some k" and "conn_auxid k = 0"
    and "(a, q) \<in> set (chan_conns c)" and "a \<noteq> 0" and "chan_owner c q" and "passive_conn c q"
  shows "snd (snd (chan_handle_closed (Suc (Suc n)) rt p c)) = Inl CH_blocked"
proof -
  have "blocks c (chan_conns c)"
    using assms(6-9) by (auto simp: blocks_def)
  then show ?thesis
    using main_closed [OF assms(1-5), of n rt] by blast
qed

text \<open>
  Otherwise, the owner hears of the closing of every auxiliary connection, in the order of their
  ids, and then of the channel; the auxiliary connections are disconnected, passive connections leave
  the channel and are scheduled for deletion, active ones stay, so that they can reconnect.
\<close>

theorem main_close_spec:
  assumes "chan_ok c" and "chan_env c" and "\<not> chan_deleting c"
    and "chan_heap c p = Some k" and "conn_auxid k = 0"
    and "\<forall>(a, q) \<in> set (chan_conns c). a \<noteq> 0 \<longrightarrow> chan_owner c q \<and> \<not> passive_conn c q"
    and "chan_handle_closed (Suc (Suc n)) rt p c = (c', evs, r)"
  shows "r = Inr () \<and>
    evs = map (\<lambda>ap. Chan_conn (snd ap) CE_closed) (filter (\<lambda>ap. fst ap \<noteq> 0) (chan_conns c)) @ [Chan_closed] \<and>
    (\<forall>(a, q) \<in> set (chan_conns c). a \<noteq> 0 \<longrightarrow> (\<exists>k. chan_heap c' q = Some k \<and> conn_state k = STATE_DISCONNECTED)) \<and>
    chan_conns c' = filter (\<lambda>ap. \<not> passive_conn c (snd ap)) (chan_conns c) \<and>
    (\<forall>(a, q) \<in> set (chan_conns c). passive_conn c q \<longrightarrow> q \<in> set (conns_deletion c'))"
proof -
  have "\<not> blocks c (chan_conns c)"
    using assms(6) by (auto simp: blocks_def)
  then obtain c2 where c2: "chan_handle_closed (Suc (Suc n)) rt p c = (c2, closing_events c (chan_conns c) @ [Chan_closed], Inr ())"
      "main_closed_result c c2"
    using main_closed [OF assms(1-5), of n rt] by blast
  have "closing_events c (chan_conns c) =
      map (\<lambda>ap. Chan_conn (snd ap) CE_closed) (filter (\<lambda>ap. fst ap \<noteq> 0) (chan_conns c))"
    unfolding closing_events_def
    by (rule arg_cong [of _ _ "map _"], rule filter_cong [OF refl]) (use assms(6) in auto)
  moreover have "\<forall>(a, q) \<in> set (chan_conns c). passive_conn c q \<longrightarrow> q \<in> set (conns_deletion c2)"
    using c2(2) by (force simp: main_closed_result_def passives_def)
  ultimately show ?thesis
    using assms(7) c2 by (simp add: main_closed_result_def remaining_def)
qed

lemma word_of_small_nonzero: "0 < n \<Longrightarrow> n < 2 ^ 32 \<Longrightarrow> (word_of_nat n :: u32) \<noteq> 0"
  by (auto simp: word_of_nat_eq_0_iff dest: dvd_imp_le)

text \<open>
  \<open>add_conn()\<close> without an id takes the first free id from the last one on, going around, but
  its count is off by one: it reports exhaustion when the one free id is the last it looks at, and
  when all 256 ids are taken it does not notice and replaces a connection, which nobody owns then.
\<close>

theorem add_conn_auxids:
  assumes "chan_read_locks c = 0" and "add_conn rt k c = (c', evs, r)"
  shows "(\<forall>i < 255. map_of (chan_conns c) (last_auxid c + word_of_nat i) = None \<and>
      (\<forall>j < i. map_of (chan_conns c) (last_auxid c + word_of_nat j) \<noteq> None) \<longrightarrow>
      r = Inr (rt_addr rt) \<and> chan_conns c' = map_put (last_auxid c + word_of_nat i) (rt_addr rt) (chan_conns c)) \<and>
    (map_of (chan_conns c) (last_auxid c + 255) = None \<and>
      (\<forall>j < 255. map_of (chan_conns c) (last_auxid c + word_of_nat j) \<noteq> None) \<longrightarrow>
      r = Inl (CH_throw ERofChanExhausted) \<and> chan_conns c' = chan_conns c) \<and>
    ((\<forall>j < 256. map_of (chan_conns c) (last_auxid c + word_of_nat j) \<noteq> None) \<longrightarrow>
      r = Inr (rt_addr rt) \<and> chan_conns c' = map_put (last_auxid c) (rt_addr rt) (chan_conns c) \<and>
      conns_deletion c' = conns_deletion c)"
proof (intro conjI impI allI)
  let ?m = "chan_conns c" and ?l = "last_auxid c"
  have run: "r = Inr (rt_addr rt) \<and> chan_conns c' = map_put a (rt_addr rt) ?m \<and> conns_deletion c' = conns_deletion c"
    if "probe_auxid 256 ?l ?m = (a, cnt)" "cnt \<noteq> 0" for a cnt
    using assms that by (auto simp: add_conn_def with_write_lock_def put_new_conn_def)
  {
    fix i
    assume i: "i < 255" "map_of ?m (?l + word_of_nat i) = None \<and> (\<forall>j < i. map_of ?m (?l + word_of_nat j) \<noteq> None)"
    then have "probe_auxid 256 ?l ?m = (?l + word_of_nat i, word_of_nat (256 - 1 - i))"
      by (intro probe_auxid_free) auto
    moreover have "word_of_nat (256 - 1 - i) \<noteq> (0 :: u32)"
      using i(1) by (intro word_of_small_nonzero) simp_all
    ultimately have "r = Inr (rt_addr rt) \<and> chan_conns c' = map_put (?l + word_of_nat i) (rt_addr rt) ?m"
      using run by blast
    then show "r = Inr (rt_addr rt)" "chan_conns c' = map_put (?l + word_of_nat i) (rt_addr rt) ?m"
      by simp_all
  }
  {
    assume "map_of ?m (?l + 255) = None \<and> (\<forall>j < 255. map_of ?m (?l + word_of_nat j) \<noteq> None)"
    then have "probe_auxid 256 ?l ?m = (?l + word_of_nat 255, word_of_nat (256 - 1 - 255))"
      by (intro probe_auxid_free) auto
    then show "r = Inl (CH_throw ERofChanExhausted)" "chan_conns c' = ?m"
      using assms by (auto simp: add_conn_def with_write_lock_def)
  }
  {
    assume "\<forall>j < 256. map_of ?m (?l + word_of_nat j) \<noteq> None"
    then have "probe_auxid 256 ?l ?m = (?l + word_of_nat 256, 0 - 1)"
      by (rule probe_auxid_full)
    moreover have "?l + word_of_nat 256 = ?l" "(0 - 1 :: u32) \<noteq> 0"
      by simp_all
    ultimately show "r = Inr (rt_addr rt)" "chan_conns c' = map_put ?l (rt_addr rt) ?m" "conns_deletion c' = conns_deletion c"
      using run by metis+
  }
qed

lemma chan_sendable_eq:
  assumes "map_of (chan_conns c) 0 = Some p" "chan_heap c p = Some k"
  shows "chan_sendable a c =
    (if conn_state k \<noteq> STATE_ESTABLISHED then Inl (CH_throw ERofConnNotConnected)
     else case map_of (chan_conns c) a of
       None \<Rightarrow> Inl (CH_throw ERofConnNotConnected)
     | Some q \<Rightarrow> (case chan_heap c q of
                   None \<Rightarrow> Inl CH_dangling
                 | Some k2 \<Rightarrow> if conn_state k2 = STATE_ESTABLISHED then Inr q else Inl (CH_throw ERofConnNotConnected)))"
proof -
  have "chan_conns c \<noteq> []"
    using assms(1) by auto
  then have est: "chan_is_established c = Inr (conn_state k = STATE_ESTABLISHED)"
    using assms by (simp add: chan_is_established_def is_conn_established_def)
  show ?thesis
    by (auto simp: chan_sendable_def est is_conn_established_def split: option.split)
qed

text \<open>
  When a channel sends.  A message goes out on an auxiliary connection only if the main
  connection and that connection are established; otherwise \<open>eRofConnNotConnected\<close> is thrown and
  nothing changes, except that a channel with auxiliary connections only throws
  \<open>std::out_of_range\<close> from the look-up of its main connection.
\<close>

theorem channel_send_conditions:
  assumes "chan_ok c" and "chan_send_message wlen elen rt a msg c = (c', evs, r)"
  shows "evs = [] \<and>
    (if chan_conns c \<noteq> [] \<and> map_of (chan_conns c) 0 = None then c' = c \<and> r = Inl (CH_throw EOutOfRange)
     else if (\<exists>p k. map_of (chan_conns c) 0 = Some p \<and> chan_heap c p = Some k \<and> conn_state k = STATE_ESTABLISHED) \<and>
             (\<exists>q k. map_of (chan_conns c) a = Some q \<and> chan_heap c q = Some k \<and> conn_state k = STATE_ESTABLISHED)
     then \<exists>q k. map_of (chan_conns c) a = Some q \<and> chan_heap c q = Some k \<and>
       (case conn_send_message wlen elen rt msg k of
          Inl e \<Rightarrow> c' = c \<and> r = Inl (CH_throw e)
        | Inr (k', x) \<Rightarrow> c' = c\<lparr>chan_heap := (chan_heap c)(q \<mapsto> k')\<rparr> \<and> r = Inr x)
     else c' = c \<and> r = Inl (CH_throw ERofConnNotConnected))"
proof -
  have ex: "\<exists>k. chan_heap c q = Some k" if "map_of (chan_conns c) b = Some q" for b q
    using map_of_SomeD [OF that] assms(1) by (force simp: chan_ok_def entry_ok_def)
  show ?thesis
  proof (cases "map_of (chan_conns c) 0")
    case None
    then show ?thesis
      using assms(2)
      by (auto simp: chan_send_message_def chan_send_with_def chan_sendable_def chan_is_established_def)
  next
    case (Some p)
    obtain k where k: "chan_heap c p = Some k"
      using ex [OF Some] ..
    note se = chan_sendable_eq [OF Some k, of a]
    show ?thesis
    proof (cases "conn_state k = STATE_ESTABLISHED \<and> map_of (chan_conns c) a \<noteq> None")
      case False
      then have "chan_sendable a c = Inl (CH_throw ERofConnNotConnected)"
        by (auto simp: se)
      with False show ?thesis
        using assms(2) Some k by (auto simp: chan_send_message_def chan_send_with_def)
    next
      case True
      then obtain q k2 where q: "map_of (chan_conns c) a = Some q" "chan_heap c q = Some k2"
        using ex by blast
      show ?thesis
      proof (cases "conn_state k2 = STATE_ESTABLISHED")
        case st: True
        have se: "chan_sendable a c = Inr q"
          using True q st by (simp add: se)
        show ?thesis
          using assms(2) Some k True q st
          by (cases "conn_send_message wlen elen rt msg k2") (auto simp: chan_send_message_def chan_send_with_def se)
      next
        case False
        then have "chan_sendable a c = Inl (CH_throw ERofConnNotConnected)"
          using q by (simp add: se)
        with False show ?thesis
          using assms(2) Some k True q by (auto simp: chan_send_message_def chan_send_with_def)
      qed
    qed
  qed
qed

text \<open>A channel on the controller's side: a main connection and an auxiliary one, both accepted.\<close>

definition passive_sock :: "string crofsock" where
  "passive_sock = (crofsock_new 9 idle_thread idle_thread)\<lparr>sock_mode := MODE_SERVER\<rparr>"

definition chan_with :: "(u8 \<times> nat) list \<Rightarrow> (nat \<Rightarrow> string crofconn option) \<Rightarrow> string crofchan" where
  "chan_with m h = (crofchan_new 1 idle_thread)\<lparr>chan_conns := m, chan_heap := h, chan_owner := (\<lambda>_. True)\<rparr>"

definition conn_with :: "string crofsock \<Rightarrow> u8 \<Rightarrow> string crofconn" where
  "conn_with s a = (crofconn_new 1 idle_thread s 0 0 0)\<lparr>conn_auxid := a, conn_state := STATE_ESTABLISHED, conn_ofp_version := 4\<rparr>"

definition server_chan :: "string crofchan" where
  "server_chan = chan_with [(0, 10), (1, 11)] [10 \<mapsto> conn_with passive_sock 0, 11 \<mapsto> conn_with passive_sock 1]"

definition client_chan :: "string crofchan" where
  "client_chan = chan_with [(0, 10), (1, 11)]
     [10 \<mapsto> conn_with (crofsock_new 9 idle_thread idle_thread) 0, 11 \<mapsto> conn_with (crofsock_new 9 idle_thread idle_thread) 1]"

lemma conn_with_simps [simp]:
  "conn_auxid (conn_with s a) = a" "\<not> conn_deleting (conn_with s a)" "conn_state (conn_with s a) = STATE_ESTABLISHED"
  "conn_sock (conn_with s a) = s"
  by (simp_all add: conn_with_def crofconn_new_def)

lemma chan_with_simps [simp]:
  "chan_conns (chan_with m h) = m" "chan_heap (chan_with m h) = h" "chan_owner (chan_with m h) q" "chan_env (chan_with m h)"
  "\<not> chan_deleting (chan_with m h)" "conns_deletion (chan_with m h) = []" "chan_read_locks (chan_with m h) = 0"
  "last_auxid (chan_with m h) = 0"
  by (simp_all add: chan_with_def crofchan_new_def chan_deleting_def)

lemma example_chan_ok: "chan_ok server_chan" "chan_ok client_chan"
  by (simp_all add: chan_ok_def server_chan_def client_chan_def entry_ok_def map_wf_def)

theorem main_close_deadlocks_witness:
  "snd (snd (chan_handle_closed (Suc (Suc 0)) rt_example 10 server_chan)) = Inl CH_blocked"
  by (rule main_close_deadlocks [OF example_chan_ok(1), where k = "conn_with passive_sock 0" and a = 1 and q = 11])
    (simp_all add: server_chan_def passive_conn_def passive_sock_def sock_is_passive_def)

theorem main_close_spec_example:
  "fst (snd (chan_handle_closed (Suc (Suc 0)) rt_example 10 client_chan)) = [Chan_conn 11 CE_closed, Chan_closed]"
proof -
  have "\<forall>(a, q) \<in> set (chan_conns client_chan). a \<noteq> 0 \<longrightarrow> chan_owner client_chan q \<and> \<not> passive_conn client_chan q"
    by (simp add: client_chan_def passive_conn_def sock_is_passive_def crofsock_new_def)
  moreover have "chan_heap client_chan 10 = Some (conn_with (crofsock_new 9 idle_thread idle_thread) 0)"
      "chan_env client_chan" "\<not> chan_deleting client_chan"
    by (simp_all add: client_chan_def)
  ultimately show ?thesis
    using main_close_spec [OF example_chan_ok(2), of 10 "conn_with (crofsock_new 9 idle_thread idle_thread) 0" 0 rt_example]
    by (cases "chan_handle_closed (Suc (Suc 0)) rt_example 10 client_chan") (simp add: client_chan_def)
qed

theorem add_conn_auxids_example:
  "chan_conns (fst (add_conn rt_example (conn_with passive_sock 0) client_chan)) = [(0, 10), (1, 11), (2, 77)]"
proof -
  obtain c' evs r where e: "add_conn rt_example (conn_with passive_sock 0) client_chan = (c', evs, r)"
    by (metis prod_cases3)
  have "map_of (chan_conns client_chan) (last_auxid client_chan + word_of_nat 2) = None \<and>
      (\<forall>j < 2. map_of (chan_conns client_chan) (last_auxid client_chan + word_of_nat j) \<noteq> None)"
    by (auto simp: client_chan_def less_2_cases_iff)
  then have "chan_conns c' = map_put (last_auxid client_chan + word_of_nat 2) (rt_addr rt_example) (chan_conns client_chan)"
    using conjunct1 [OF add_conn_auxids [OF _ e], THEN spec, of 2] by (simp add: client_chan_def)
  then have "chan_conns c' = [(0, 10), (1, 11), (2, 77)]"
    by (simp add: client_chan_def rt_example_def)
  then show ?thesis
    by (simp add: e)
qed

theorem channel_send_conditions_example:
  "snd (snd (chan_send_message (\<lambda>_. 8) (\<lambda>_. 0) rt_example 7 hello10 client_chan)) = Inl (CH_throw ERofConnNotConnected)"
  using channel_send_conditions [OF example_chan_ok(2), of "\<lambda>_. 8" "\<lambda>_. 0" rt_example 7 hello10]
  by (cases "chan_send_message (\<lambda>_. 8) (\<lambda>_. 0) rt_example 7 hello10 client_chan") (simp add: client_chan_def)

theorem channel_ownership_witness:
  "snd (snd (add_conn rt_example (conn_with passive_sock 0) (crofchan_new 1 idle_thread))) \<noteq> Inl CH_dangling"
proof -
  obtain c' evs r where e: "add_conn rt_example (conn_with passive_sock 0) (crofchan_new 1 idle_thread) = (c', evs, r)"
    by (metis prod_cases3)
  have "chan_step (crofchan_new 1 idle_thread) evs (halt_of r) c'"
    by (rule Cs_add [OF _ _ e]) (simp_all add: crofchan_new_def usable_def)
  then have "halt_of r \<noteq> Some CH_dangling"
    using channel_ownership [OF Cr_new] by blast
  then show ?thesis
    using e by auto
qed

end
