(* ===== verification/Coxmatch.thy ===== *)
theory Coxmatch
  imports Rofl_Prelude
begin

text \<open>
  Flow match fields (\<open>openflow/coxmatch.h\<close>): the type-length-value elements of an OpenFlow match.

  The header of an element is one 32 bit word: class, field, mask flag, length.  The base classes
  \<open>coxmatch_8\<close> to \<open>coxmatch_128\<close> differ in the width of value and mask only; they are one
  record over the type of the value, and one packer and unpacker over a codec (the number of bytes
  and the conversion).  The contract of a codec is the locale \<open>oxm_codec\<close>; its lemmas hold for
  every width by interpretation.  \<open>coxmatch_exp\<close> (experimenter elements) keeps value and mask as
  memory blocks of any length.
\<close>

section \<open>The header word\<close>

definition get_oxm_type :: "u32 \<Rightarrow> u32" where
  "get_oxm_type oxm_id = oxm_id AND 0xfffffe00"

definition set_oxm_type :: "u32 \<Rightarrow> u32 \<Rightarrow> u32" where
  "set_oxm_type oxm_type oxm_id = (oxm_id AND 0x000001ff) OR oxm_type"

definition get_oxm_class :: "u32 \<Rightarrow> u16" where
  "get_oxm_class oxm_id = ucast (drop_bit 16 (oxm_id AND 0xffff0000))"

definition set_oxm_class :: "u16 \<Rightarrow> u32 \<Rightarrow> u32" where
  "set_oxm_class oxm_class oxm_id = (oxm_id AND 0x0000ffff) OR push_bit 16 (ucast oxm_class)"

definition get_oxm_field :: "u32 \<Rightarrow> u8" where
  "get_oxm_field oxm_id = ucast (drop_bit 9 (oxm_id AND 0x0000fe00))"

definition set_oxm_field :: "u8 \<Rightarrow> u32 \<Rightarrow> u32" where
  "set_oxm_field oxm_field oxm_id = (oxm_id AND 0xffff01ff) OR push_bit 9 (ucast oxm_field)"

definition get_oxm_hasmask :: "u32 \<Rightarrow> bool" where
  "get_oxm_hasmask oxm_id \<longleftrightarrow> drop_bit 8 (oxm_id AND 0x00000100) \<noteq> 0"

definition set_oxm_hasmask :: "bool \<Rightarrow> u32 \<Rightarrow> u32" where
  "set_oxm_hasmask hasmask oxm_id = (oxm_id AND 0xfffffeff) OR push_bit 8 (of_bool hasmask)"

definition get_oxm_length :: "u32 \<Rightarrow> u8" where
  "get_oxm_length oxm_id = ucast (oxm_id AND 0x000000ff)"

definition set_oxm_length :: "u8 \<Rightarrow> u32 \<Rightarrow> u32" where
  "set_oxm_length oxm_len oxm_id = (oxm_id AND 0xffffff00) OR ucast oxm_len"

text \<open>The same over \<open>mask\<close>, for reasoning bit by bit.\<close>

lemma oxm_masks:
  "(0xfffffe00 :: u32) = NOT (mask 9)" "(0x000001ff :: u32) = mask 9" "(0x000000ff :: u32) = mask 8"
  "(0xffffff00 :: u32) = NOT (mask 8)" "(0x0000ffff :: u32) = mask 16" "(0xffff0000 :: u32) = NOT (mask 16)"
  "(0x00000100 :: u32) = mask 9 AND NOT (mask 8)" "(0xfffffeff :: u32) = NOT (mask 9 AND NOT (mask 8))"
  by (simp_all add: mask_eq_exp_minus_1)

lemmas oxm_header_defs = get_oxm_type_def [unfolded oxm_masks] set_oxm_type_def [unfolded oxm_masks]
  get_oxm_class_def [unfolded oxm_masks] set_oxm_length_def [unfolded oxm_masks]
  get_oxm_length_def [unfolded oxm_masks] set_oxm_hasmask_def [unfolded oxm_masks]

lemma hasmask_bit: "get_oxm_hasmask oxm_id \<longleftrightarrow> bit oxm_id 8"
proof -
  have "oxm_id AND 0x100 = push_bit 8 (of_bool (bit oxm_id 8))"
  proof (rule bit_word_eqI)
    fix n
    show "bit (oxm_id AND 0x100) n = bit (push_bit 8 (of_bool (bit oxm_id 8)) :: u32) n"
      unfolding oxm_masks by (cases "n = 8") (auto simp: bit_simps bit_1_iff)
  qed
  then show ?thesis
    by (simp add: get_oxm_hasmask_def)
qed

text \<open>The length and the mask flag are independent of the type and of each other.\<close>

lemma oxm_type_length [simp]: "get_oxm_type (set_oxm_length len oxm_id) = get_oxm_type oxm_id"
  unfolding oxm_header_defs by (rule bit_word_eqI) (auto simp: bit_simps dest: bit_imp_le_length)

lemma oxm_hasmask_length [simp]: "get_oxm_hasmask (set_oxm_length len oxm_id) = get_oxm_hasmask oxm_id"
  unfolding oxm_header_defs hasmask_bit by (auto simp: bit_simps dest: bit_imp_le_length)

lemma oxm_length_length [simp]: "get_oxm_length (set_oxm_length len oxm_id) = len"
  unfolding oxm_header_defs by (rule bit_word_eqI) (auto simp: bit_simps)

lemma oxm_set_length_id: "set_oxm_length (get_oxm_length oxm_id) oxm_id = oxm_id"
  unfolding oxm_header_defs by (rule bit_word_eqI) (auto simp: bit_simps)

lemma oxm_length_set_twice [simp]: "set_oxm_length l (set_oxm_length k oxm_id) = set_oxm_length l oxm_id"
  unfolding oxm_header_defs by (rule bit_word_eqI) (auto simp: bit_simps dest: bit_imp_le_length)

lemma oxm_type_hasmask [simp]: "get_oxm_type (set_oxm_hasmask b oxm_id) = get_oxm_type oxm_id"
  unfolding oxm_header_defs by (rule bit_word_eqI) (auto simp: bit_simps bit_1_iff)

lemma oxm_hasmask_hasmask [simp]: "get_oxm_hasmask (set_oxm_hasmask b oxm_id) = b"
  unfolding oxm_header_defs hasmask_bit by (auto simp: bit_simps bit_1_iff)

lemma oxm_length_hasmask [simp]: "get_oxm_length (set_oxm_hasmask b oxm_id) = get_oxm_length oxm_id"
  unfolding oxm_header_defs by (rule bit_word_eqI) (auto simp: bit_simps bit_1_iff)

lemma oxm_length_ucast: "get_oxm_length oxm_id = ucast oxm_id"
  unfolding oxm_header_defs by (rule bit_word_eqI) (auto simp: bit_simps)

lemma oxm_class_of_type: "get_oxm_class oxm_id = get_oxm_class (get_oxm_type oxm_id)"
  unfolding oxm_header_defs by (rule bit_word_eqI) (auto simp: bit_simps)

section \<open>Elements with a value and a mask of fixed width\<close>

text \<open>The data members of \<open>coxmatch_8\<close> to \<open>coxmatch_128\<close>, and their constructors.\<close>

record 'v oxm =
  oxm_id :: u32
  oxm_value :: 'v
  oxm_mask :: 'v

definition oxm_new :: "'v \<Rightarrow> u32 \<Rightarrow> 'v \<Rightarrow> 'v oxm" where
  "oxm_new ones i value = \<lparr>oxm_id = i, oxm_value = value, oxm_mask = ones\<rparr>"

definition oxm_new_masked :: "u32 \<Rightarrow> 'v \<Rightarrow> 'v \<Rightarrow> 'v oxm" where
  "oxm_new_masked i value m = \<lparr>oxm_id = set_oxm_hasmask True i, oxm_value = value, oxm_mask = m\<rparr>"

definition oxm_set_value :: "'v \<Rightarrow> 'v oxm \<Rightarrow> 'v oxm" where
  "oxm_set_value value m = m\<lparr>oxm_value := value\<rparr>"

definition oxm_set_mask :: "'v \<Rightarrow> 'v oxm \<Rightarrow> 'v oxm" where
  "oxm_set_mask k m = m\<lparr>oxm_mask := k, oxm_id := set_oxm_hasmask True (oxm_id m)\<rparr>"

definition oxm_length :: "nat \<Rightarrow> 'v oxm \<Rightarrow> nat" where
  "oxm_length n m = 4 + (if get_oxm_hasmask (oxm_id m) then 2 * n else 1 * n)"

definition adjust_oxm_length :: "nat \<Rightarrow> 'v oxm \<Rightarrow> 'v oxm" where
  "adjust_oxm_length n m =
     m\<lparr>oxm_id := set_oxm_length (word_of_nat (if get_oxm_hasmask (oxm_id m) then 2 * n else 1 * n)) (oxm_id m)\<rparr>"

text \<open>The base class: the header.\<close>

definition coxmatch_header_unpack :: "byte list \<Rightarrow> ('v, 'x) oxm_scheme \<Rightarrow> ('v, 'x) oxm_scheme outcome" where
  "coxmatch_header_unpack buf m =
     (if length buf < 4 then (m, Some EOxmBadLen)
      else (m\<lparr>oxm_id := de32 (buf ! 0) (buf ! 1) (buf ! 2) (buf ! 3)\<rparr>, None))"

text \<open>\<open>pack\<close> returns the object, whose length field it sets, and the bytes it writes.\<close>

definition oxm_pack :: "nat \<Rightarrow> ('v \<Rightarrow> byte list) \<Rightarrow> nat \<Rightarrow> 'v oxm \<Rightarrow> 'v oxm \<times> byte list result" where
  "oxm_pack n enc buflen m =
     (let m' = adjust_oxm_length n m
      in (m', if buflen < oxm_length n m' then Inl EOxmBadLen
              else Inr (be32 (oxm_id m') @ enc (oxm_value m') @
                        (if get_oxm_hasmask (oxm_id m') then enc (oxm_mask m') else []))))"

text \<open>\<open>nomask\<close> is what becomes of the mask when the element has none.\<close>

definition oxm_unpack ::
  "nat \<Rightarrow> (byte list \<Rightarrow> 'v) \<Rightarrow> ('v \<Rightarrow> 'v) \<Rightarrow> byte list \<Rightarrow> 'v oxm \<Rightarrow> 'v oxm outcome"
where
  "oxm_unpack n dec nomask buf m =
     (case coxmatch_header_unpack buf m of
        (m1, Some e) \<Rightarrow> (m1, Some e)
      | (m1, None) \<Rightarrow>
          if length buf < oxm_length n m1 then (m1, Some EOxmBadLen)
          else (m1\<lparr>oxm_value := dec (take n (drop 4 buf)),
                   oxm_mask := (if get_oxm_hasmask (oxm_id m1) then dec (take n (drop (4 + n) buf))
                                else nomask (oxm_mask m1))\<rparr>, None))"

text \<open>The value after packing and unpacking.\<close>

definition oxm_canon :: "nat \<Rightarrow> ('v \<Rightarrow> 'v) \<Rightarrow> 'v \<Rightarrow> 'v oxm \<Rightarrow> 'v oxm" where
  "oxm_canon n nomask m0 m =
     (let m' = adjust_oxm_length n m
      in if get_oxm_hasmask (oxm_id m') then m' else m'\<lparr>oxm_mask := nomask m0\<rparr>)"

lemma adjust_oxm_simps [simp]:
  "oxm_value (adjust_oxm_length n m) = oxm_value m" "oxm_mask (adjust_oxm_length n m) = oxm_mask m"
  "get_oxm_hasmask (oxm_id (adjust_oxm_length n m)) = get_oxm_hasmask (oxm_id m)"
  "get_oxm_type (oxm_id (adjust_oxm_length n m)) = get_oxm_type (oxm_id m)"
  "oxm_length n (adjust_oxm_length n m) = oxm_length n m"
  by (simp_all add: adjust_oxm_length_def oxm_length_def)

text \<open>
  What the transport of a value asks of the width: \<open>enc\<close> writes \<open>n\<close> bytes, \<open>dec\<close> reads them back
  (for values inside the width), and two values fit the length field.
\<close>

locale oxm_codec =
  fixes n :: nat
    and enc :: "'v \<Rightarrow> byte list"
    and dec :: "byte list \<Rightarrow> 'v"
    and fits :: "'v \<Rightarrow> bool"
  assumes enc_length: "fits v \<Longrightarrow> length (enc v) = n"
    and dec_enc: "fits v \<Longrightarrow> dec (enc v) = v"
    and width: "2 * n < 256"
begin

lemma pack_bytes:
  assumes "fits (oxm_value m)" "get_oxm_hasmask (oxm_id m) \<Longrightarrow> fits (oxm_mask m)" "oxm_length n m \<le> buflen"
  obtains bytes where "oxm_pack n enc buflen m = (adjust_oxm_length n m, Inr bytes)"
    "length bytes = oxm_length n m"
    "take 4 bytes = be32 (oxm_id (adjust_oxm_length n m))"
proof -
  let ?b = "be32 (oxm_id (adjust_oxm_length n m)) @ enc (oxm_value m) @
    (if get_oxm_hasmask (oxm_id m) then enc (oxm_mask m) else [])"
  have "oxm_pack n enc buflen m = (adjust_oxm_length n m, Inr ?b)"
    using assms(3) by (simp add: oxm_pack_def Let_def)
  moreover have "length ?b = oxm_length n m"
    using assms by (simp add: enc_length oxm_length_def)
  ultimately show ?thesis
    by (intro that [of ?b]) simp_all
qed

lemma unpack_pack:
  assumes "fits (oxm_value m)" "get_oxm_hasmask (oxm_id m) \<Longrightarrow> fits (oxm_mask m)"
    and "oxm_pack n enc buflen m = (m', Inr bytes)"
  shows "oxm_unpack n dec nomask (bytes @ rest) m0 = (oxm_canon n nomask (oxm_mask m0) m, None)"
proof -
  let ?h = "oxm_id (adjust_oxm_length n m)"
  have b: "bytes = be32 ?h @ enc (oxm_value m) @ (if get_oxm_hasmask (oxm_id m) then enc (oxm_mask m) else [])"
    using assms(3) by (auto simp: oxm_pack_def Let_def split: if_splits)
  have u: "coxmatch_header_unpack (bytes @ rest) m0 = (m0\<lparr>oxm_id := ?h\<rparr>, None)"
    by (simp add: coxmatch_header_unpack_def b be32_def)
  have l: "\<not> length (bytes @ rest) < oxm_length n (m0\<lparr>oxm_id := ?h\<rparr>)"
    using assms(1,2) by (simp add: b oxm_length_def enc_length)
  have v: "take n (drop 4 (bytes @ rest)) = enc (oxm_value m)"
    using assms(1) by (simp add: b be32_def enc_length)
  have k: "take n (drop (4 + n) (bytes @ rest)) = enc (oxm_mask m)" if "get_oxm_hasmask (oxm_id m)"
  proof -
    have "drop (4 + n) (bytes @ rest) = drop n (drop 4 (bytes @ rest))"
      by (simp only: drop_drop add.commute)
    then show ?thesis
      using assms(1,2) that by (simp add: b be32_def enc_length)
  qed
  show ?thesis
    using u l v k assms(1,2)
    by (cases m, cases m0) (simp add: oxm_unpack_def oxm_canon_def Let_def dec_enc adjust_oxm_length_def)
qed

lemma wire_length:
  assumes "oxm_pack n enc buflen m = (m', Inr bytes)"
  shows "unat (bytes ! 3) + 4 = oxm_length n m" "take 4 bytes = be32 (oxm_id m')" "m' = adjust_oxm_length n m"
proof -
  let ?h = "oxm_id (adjust_oxm_length n m)"
  have "bytes ! 3 = get_oxm_length ?h"
    using assms by (auto simp: oxm_pack_def be32_def Let_def oxm_length_ucast split: if_splits)
  moreover have "get_oxm_length ?h = word_of_nat (if get_oxm_hasmask (oxm_id m) then 2 * n else n)"
    by (simp add: adjust_oxm_length_def)
  ultimately show "unat (bytes ! 3) + 4 = oxm_length n m"
    using width by (simp add: oxm_length_def unat_of_nat)
  show "take 4 bytes = be32 (oxm_id m')" "m' = adjust_oxm_length n m"
    using assms by (auto simp: oxm_pack_def Let_def split: if_splits)
qed

lemma pack_facts:
  assumes "oxm_pack n enc buflen m = (m', Inr bytes)"
    and "fits (oxm_value m)" "get_oxm_hasmask (oxm_id m) \<Longrightarrow> fits (oxm_mask m)"
  shows "take 4 bytes = be32 (oxm_id m') \<and> get_oxm_type (oxm_id m') = get_oxm_type (oxm_id m) \<and>
    unat (bytes ! 3) + 4 = length bytes \<and> oxm_length n m = length bytes"
proof -
  have "length bytes = oxm_length n m"
    using assms by (auto simp: oxm_pack_def Let_def enc_length oxm_length_def split: if_splits)
  then show ?thesis
    using wire_length [OF assms(1)] by simp
qed

end

interpretation oxm8: oxm_codec 1 "be_bytes 1 :: u8 \<Rightarrow> byte list" be_word "\<lambda>_. True"
  by unfold_locales (simp_all add: be_word_def)

interpretation oxm16: oxm_codec 2 "be_bytes 2 :: u16 \<Rightarrow> byte list" be_word "\<lambda>_. True"
  by unfold_locales simp_all

interpretation oxm24: oxm_codec 3 "be_bytes 3 :: u32 \<Rightarrow> byte list" be_word "\<lambda>v. take_bit 24 v = v"
  by unfold_locales (simp_all add: be_word_be_bytes)

interpretation oxm32: oxm_codec 4 "be_bytes 4 :: u32 \<Rightarrow> byte list" be_word "\<lambda>_. True"
  by unfold_locales simp_all

interpretation oxm48: oxm_codec 6 "be_bytes 6 :: u64 \<Rightarrow> byte list" be_word "\<lambda>v. take_bit 48 v = v"
  by unfold_locales (simp_all add: be_word_be_bytes)

interpretation oxm64: oxm_codec 8 "be_bytes 8 :: u64 \<Rightarrow> byte list" be_word "\<lambda>_. True"
  by unfold_locales simp_all

interpretation oxm128: oxm_codec 16 "\<lambda>v :: byte list. v" "\<lambda>b. b" "\<lambda>v. length v = 16"
  by unfold_locales simp_all

section \<open>The classes\<close>

definition coxmatch_8_length :: "u8 oxm \<Rightarrow> nat" where
  "coxmatch_8_length = oxm_length 1"

definition coxmatch_8_pack :: "nat \<Rightarrow> u8 oxm \<Rightarrow> u8 oxm \<times> byte list result" where
  "coxmatch_8_pack = oxm_pack 1 (be_bytes 1)"

definition coxmatch_8_unpack :: "byte list \<Rightarrow> u8 oxm \<Rightarrow> u8 oxm outcome" where
  "coxmatch_8_unpack = oxm_unpack 1 be_word (\<lambda>_. 0xff)"

definition coxmatch_16_length :: "u16 oxm \<Rightarrow> nat" where
  "coxmatch_16_length = oxm_length 2"

definition coxmatch_16_pack :: "nat \<Rightarrow> u16 oxm \<Rightarrow> u16 oxm \<times> byte list result" where
  "coxmatch_16_pack = oxm_pack 2 (be_bytes 2)"

definition coxmatch_16_unpack :: "byte list \<Rightarrow> u16 oxm \<Rightarrow> u16 oxm outcome" where
  "coxmatch_16_unpack = oxm_unpack 2 be_word (\<lambda>_. 0xffff)"

definition coxmatch_24_length :: "u32 oxm \<Rightarrow> nat" where
  "coxmatch_24_length = oxm_length 3"

definition coxmatch_24_pack :: "nat \<Rightarrow> u32 oxm \<Rightarrow> u32 oxm \<times> byte list result" where
  "coxmatch_24_pack = oxm_pack 3 (be_bytes 3)"

definition coxmatch_24_unpack :: "byte list \<Rightarrow> u32 oxm \<Rightarrow> u32 oxm outcome" where
  "coxmatch_24_unpack = oxm_unpack 3 be_word (\<lambda>_. 0xffffff)"

definition coxmatch_32_length :: "u32 oxm \<Rightarrow> nat" where
  "coxmatch_32_length = oxm_length 4"

definition coxmatch_32_pack :: "nat \<Rightarrow> u32 oxm \<Rightarrow> u32 oxm \<times> byte list result" where
  "coxmatch_32_pack = oxm_pack 4 (be_bytes 4)"

definition coxmatch_32_unpack :: "byte list \<Rightarrow> u32 oxm \<Rightarrow> u32 oxm outcome" where
  "coxmatch_32_unpack = oxm_unpack 4 be_word (\<lambda>_. 0xffffffff)"

definition coxmatch_48_length :: "u64 oxm \<Rightarrow> nat" where
  "coxmatch_48_length = oxm_length 6"

definition coxmatch_48_pack :: "nat \<Rightarrow> u64 oxm \<Rightarrow> u64 oxm \<times> byte list result" where
  "coxmatch_48_pack = oxm_pack 6 (be_bytes 6)"

definition coxmatch_48_unpack :: "byte list \<Rightarrow> u64 oxm \<Rightarrow> u64 oxm outcome" where
  "coxmatch_48_unpack = oxm_unpack 6 be_word (\<lambda>_. 0xffffffffffffffff)"

definition coxmatch_64_length :: "u64 oxm \<Rightarrow> nat" where
  "coxmatch_64_length = oxm_length 8"

definition coxmatch_64_pack :: "nat \<Rightarrow> u64 oxm \<Rightarrow> u64 oxm \<times> byte list result" where
  "coxmatch_64_pack = oxm_pack 8 (be_bytes 8)"

definition coxmatch_64_unpack :: "byte list \<Rightarrow> u64 oxm \<Rightarrow> u64 oxm outcome" where
  "coxmatch_64_unpack = oxm_unpack 8 be_word (\<lambda>_. 0xffffffffffffffff)"

definition coxmatch_128_length :: "(byte list) oxm \<Rightarrow> nat" where
  "coxmatch_128_length = oxm_length 16"

definition coxmatch_128_pack :: "nat \<Rightarrow> (byte list) oxm \<Rightarrow> (byte list) oxm \<times> byte list result" where
  "coxmatch_128_pack = oxm_pack 16 (\<lambda>v. v)"

definition coxmatch_128_unpack :: "byte list \<Rightarrow> (byte list) oxm \<Rightarrow> (byte list) oxm outcome" where
  "coxmatch_128_unpack = oxm_unpack 16 (\<lambda>b. b) (\<lambda>mask. mask)"

lemmas coxmatch_class_defs =
  coxmatch_8_length_def coxmatch_8_pack_def coxmatch_8_unpack_def
  coxmatch_16_length_def coxmatch_16_pack_def coxmatch_16_unpack_def
  coxmatch_24_length_def coxmatch_24_pack_def coxmatch_24_unpack_def
  coxmatch_32_length_def coxmatch_32_pack_def coxmatch_32_unpack_def
  coxmatch_48_length_def coxmatch_48_pack_def coxmatch_48_unpack_def
  coxmatch_64_length_def coxmatch_64_pack_def coxmatch_64_unpack_def
  coxmatch_128_length_def coxmatch_128_pack_def coxmatch_128_unpack_def

section \<open>Experimenter elements\<close>

record oxm_exp = "byte list oxm" +
  oxm_exp_id :: u32

definition exp_new :: "u32 \<Rightarrow> u32 \<Rightarrow> oxm_exp" where
  "exp_new i exp = \<lparr>oxm_id = i, oxm_value = [], oxm_mask = [], oxm_exp_id = exp\<rparr>"

definition exp_adjust_oxm_length :: "oxm_exp \<Rightarrow> oxm_exp" where
  "exp_adjust_oxm_length m =
     (if get_oxm_hasmask (oxm_id m)
      then m\<lparr>oxm_id := set_oxm_length (word_of_nat (4 + length (oxm_value m) + length (oxm_mask m))) (oxm_id m)\<rparr>
      else m\<lparr>oxm_id := set_oxm_length (word_of_nat (4 + length (oxm_value m))) (oxm_id m)\<rparr>)"

text \<open>\<open>set_value\<close>, \<open>set_u8value\<close> to \<open>set_u64value\<close>; and the setters of the mask.\<close>

definition exp_set_value :: "byte list \<Rightarrow> oxm_exp \<Rightarrow> oxm_exp" where
  "exp_set_value bytes m = exp_adjust_oxm_length (m\<lparr>oxm_value := bytes\<rparr>)"

definition exp_set_mask :: "byte list \<Rightarrow> oxm_exp \<Rightarrow> oxm_exp" where
  "exp_set_mask bytes m =
     exp_adjust_oxm_length (m\<lparr>oxm_mask := bytes, oxm_id := set_oxm_hasmask True (oxm_id m)\<rparr>)"

text \<open>\<open>get_u8value\<close> to \<open>get_u64value\<close>, \<open>n\<close> bytes wide; and the getters of the mask.\<close>

definition exp_get_value :: "nat \<Rightarrow> oxm_exp \<Rightarrow> 'a::len word result" where
  "exp_get_value n m =
     (if length (oxm_value m) < n then Inl EOxmInval else Inr (be_word (take n (oxm_value m))))"

definition exp_get_mask :: "nat \<Rightarrow> oxm_exp \<Rightarrow> 'a::len word" where
  "exp_get_mask n m =
     (if length (oxm_mask m) < n then Bit_Operations.mask (8 * n) else be_word (take n (oxm_mask m)))"

definition exp_length :: "oxm_exp \<Rightarrow> nat result" where
  "exp_length m =
     (if get_oxm_hasmask (oxm_id m) \<and> length (oxm_value m) \<noteq> length (oxm_mask m) then Inl EOxmInval
      else Inr (8 + length (oxm_value m) + length (oxm_mask m)))"

text \<open>The mask is written only when the flag is set, although its length always counts.\<close>

definition exp_pack :: "nat \<Rightarrow> oxm_exp \<Rightarrow> byte list result" where
  "exp_pack buflen m =
     (case exp_length m of
        Inl e \<Rightarrow> Inl e
      | Inr len \<Rightarrow>
          if buflen < len then Inl EOxmBadLen
          else Inr (be32 (oxm_id m) @ be32 (oxm_exp_id m) @ oxm_value m @
                    (if get_oxm_hasmask (oxm_id m) then oxm_mask m else [])))"

text \<open>
  \<open>unpack\<close>.  \<open>cmemory::clear\<close> zeroes the blocks and keeps their size.  The body length is an
  unsigned difference; no block of \<open>alloc_limit\<close> bytes can be allocated, so that a wrapped length ends
  in the exception of \<open>cmemory::resize\<close>.
\<close>

definition alloc_limit :: nat where "alloc_limit = 2 ^ 47"

definition exp_bodylen :: "byte \<Rightarrow> nat" where
  "exp_bodylen len = (unat len + (2 ^ 64 - 4)) mod 2 ^ 64"

definition exp_unpack :: "byte list \<Rightarrow> oxm_exp \<Rightarrow> oxm_exp outcome" where
  "exp_unpack buf m =
     (let m0 = m\<lparr>oxm_value := replicate (length (oxm_value m)) 0, oxm_mask := replicate (length (oxm_mask m)) 0\<rparr>
      in case coxmatch_header_unpack buf m0 of
           (m1, Some e) \<Rightarrow> (m1, Some e)
         | (m1, None) \<Rightarrow>
             if length buf < 8 then (m1, Some EOxmBadLen)
             else (let m2 = m1\<lparr>oxm_exp_id := de32 (buf ! 4) (buf ! 5) (buf ! 6) (buf ! 7)\<rparr>
                   in if length buf < 4 + unat (buf ! 3) then (m2, Some EOxmBadLen)
                      else (let bodylen = exp_bodylen (buf ! 3)
                            in if \<not> get_oxm_hasmask (oxm_id m2) then
                                 (if alloc_limit \<le> bodylen then (m2, Some ESysCall)
                                  else (m2\<lparr>oxm_value := take bodylen (drop 8 buf)\<rparr>, None))
                               else if odd bodylen then (m2, Some EOxmBadLen)
                               else if alloc_limit \<le> bodylen div 2 then (m2, Some ESysCall)
                               else (m2\<lparr>oxm_value := take (bodylen div 2) (drop 8 buf),
                                        oxm_mask := take (bodylen div 2) (drop (8 + bodylen div 2) buf)\<rparr>, None))))"

text \<open>An element as its setters leave it.\<close>

definition exp_ok :: "oxm_exp \<Rightarrow> bool" where
  "exp_ok m \<longleftrightarrow>
     (if get_oxm_hasmask (oxm_id m) then length (oxm_value m) = length (oxm_mask m) else oxm_mask m = []) \<and>
     4 + length (oxm_value m) + length (oxm_mask m) < 256 \<and>
     unat (get_oxm_length (oxm_id m)) = 4 + length (oxm_value m) + length (oxm_mask m)"

lemma exp_unpack_pack:
  assumes "exp_ok m" "exp_pack buflen m = Inr bytes"
  shows "exp_unpack (bytes @ rest) m0 =
    (m\<lparr>oxm_mask := (if get_oxm_hasmask (oxm_id m) then oxm_mask m else replicate (length (oxm_mask m0)) 0)\<rparr>, None)"
    and "unat (bytes ! 3) + 4 = length bytes" "exp_length m = Inr (length bytes)"
proof -
  let ?k = "if get_oxm_hasmask (oxm_id m) then oxm_mask m else []"
  have b: "bytes = be32 (oxm_id m) @ be32 (oxm_exp_id m) @ oxm_value m @ ?k"
    using assms by (auto simp: exp_pack_def exp_length_def split: if_splits)
  have k: "?k = oxm_mask m"
    using assms(1) by (auto simp: exp_ok_def)
  have len: "unat (bytes ! 3) = 4 + length (oxm_value m) + length (oxm_mask m)"
    using assms(1) by (simp add: b be32_def exp_ok_def oxm_length_ucast)
  then have body: "exp_bodylen (bytes ! 3) = length (oxm_value m) + length (oxm_mask m)"
    using assms(1) by (simp add: exp_bodylen_def exp_ok_def)
  have limit: "\<not> alloc_limit \<le> length (oxm_value m) + length (oxm_mask m)"
    using assms(1) by (simp add: exp_ok_def alloc_limit_def)
  define buf where "buf = bytes @ rest"
  have nth3: "buf ! 3 = bytes ! 3"
    by (simp add: b be32_def buf_def)
  have u: "coxmatch_header_unpack buf x = (x\<lparr>oxm_id := oxm_id m\<rparr>, None)" for x :: oxm_exp
    by (simp add: coxmatch_header_unpack_def b be32_def buf_def)
  have d8: "drop 8 buf = oxm_value m @ oxm_mask m @ rest"
    by (simp only: b k buf_def) (simp add: be32_def)
  have e: "de32 (buf ! 4) (buf ! 5) (buf ! 6) (buf ! 7) = oxm_exp_id m"
    by (simp add: b be32_def buf_def)
  have L: "length bytes = 8 + length (oxm_value m) + length (oxm_mask m)"
    by (simp only: b k) simp
  have Lbuf: "\<not> length buf < 8" "\<not> length buf < 4 + unat (buf ! 3)"
    using L len nth3 by (simp_all add: buf_def)
  have "exp_unpack buf m0 =
    (m\<lparr>oxm_mask := (if get_oxm_hasmask (oxm_id m) then oxm_mask m else replicate (length (oxm_mask m0)) 0)\<rparr>, None)"
  proof (cases "get_oxm_hasmask (oxm_id m)")
    case True
    let ?n = "length (oxm_value m)"
    have eq: "length (oxm_mask m) = ?n"
      using assms(1) True by (simp add: exp_ok_def)
    have body2: "exp_bodylen (buf ! 3) = 2 * ?n"
      using body eq nth3 by simp
    have "drop (8 + ?n) buf = oxm_mask m @ rest"
      using d8 by (simp only: drop_drop [of ?n 8, symmetric] add.commute [of 8]) simp
    with d8 have t: "take ?n (drop 8 buf) = oxm_value m" "take ?n (drop (8 + ?n) buf) = oxm_mask m"
      using eq by simp_all
    have "\<not> alloc_limit \<le> ?n"
      using limit by simp
    then show ?thesis
      using True Lbuf t by (simp add: exp_unpack_def Let_def u e body2)
  next
    case False
    have "exp_bodylen (buf ! 3) = length (oxm_value m)" "oxm_mask m = []"
      using body nth3 False assms(1) by (simp_all add: exp_ok_def)
    then show ?thesis
      using False Lbuf limit by (simp add: exp_unpack_def Let_def u e d8)
  qed
  then show "exp_unpack (bytes @ rest) m0 =
    (m\<lparr>oxm_mask := (if get_oxm_hasmask (oxm_id m) then oxm_mask m else replicate (length (oxm_mask m0)) 0)\<rparr>, None)"
    by (simp add: buf_def)
  show "unat (bytes ! 3) + 4 = length bytes"
    using len L by simp
  show "exp_length m = Inr (length bytes)"
    using assms(1) L by (auto simp: exp_length_def exp_ok_def)
qed

end
