(* ===== verification/Coxmatches.thy ===== *)
theory Coxmatches
  imports Coxmatch
begin

text \<open>
  Lists of flow match fields (\<open>openflow/coxmatches.h\<close>, \<open>coxmatches.cc\<close>).  The C++ class of an element
  is a tag: one of the classes \<open>coxmatch_ofb_...\<close> and \<open>coxmatch_ofx_...\<close> (the type \<open>oxm_field\<close>), the
  base class \<open>coxmatch_exp\<close>, or a packet register.  The container is \<open>std::map<uint64_t, coxmatch *>\<close>; its
  pointers are never shared, so that the map holds the objects.  The accessors \<open>add_\<close>, \<open>set_\<close>,
  \<open>get_\<close>, \<open>drop_\<close> and \<open>has_\<close>, which the header spells out for every class, take the class as an argument.
\<close>

section \<open>The fields\<close>

datatype oxm_field =
    OFB_IN_PORT | OFB_IN_PHY_PORT | OFB_METADATA | OFB_ETH_DST | OFB_ETH_SRC | OFB_ETH_TYPE
  | OFB_VLAN_VID | OFB_VLAN_PCP | OFB_IP_DSCP | OFB_IP_ECN | OFB_IP_PROTO | OFB_IPV4_SRC
  | OFB_IPV4_DST | OFB_TCP_SRC | OFB_TCP_DST | OFB_UDP_SRC | OFB_UDP_DST | OFB_SCTP_SRC
  | OFB_SCTP_DST | OFB_ICMPV4_TYPE | OFB_ICMPV4_CODE | OFB_ARP_OP | OFB_ARP_SPA | OFB_ARP_TPA
  | OFB_ARP_SHA | OFB_ARP_THA | OFB_IPV6_SRC | OFB_IPV6_DST | OFB_IPV6_FLABEL | OFB_ICMPV6_TYPE
  | OFB_ICMPV6_CODE | OFB_IPV6_ND_TARGET | OFB_IPV6_ND_SLL | OFB_IPV6_ND_TLL | OFB_MPLS_LABEL
  | OFB_MPLS_TC | OFB_MPLS_BOS | OFB_PBB_ISID | OFB_TUNNEL_ID | OFB_IPV6_EXTHDR | OFX_NW_SRC
  | OFX_NW_DST | OFX_NW_PROTO | OFX_NW_TOS | OFX_TP_SRC | OFX_TP_DST

definition OXM_TLV_BASIC :: "u32 \<Rightarrow> u32 \<Rightarrow> u32" where
  "OXM_TLV_BASIC field len = push_bit 16 0x8000 OR push_bit 9 field OR len"

definition OXM_TLV_EXPR :: "u32 \<Rightarrow> u32 \<Rightarrow> u32" where
  "OXM_TLV_EXPR field len = push_bit 16 0xffff OR push_bit 9 field OR len"

definition HAS_MASK_FLAG :: u32 where "HAS_MASK_FLAG = 0x100"

text \<open>\<open>enum oxm_tlv_match_fields\<close>.\<close>

primrec oxm_tlv :: "oxm_field \<Rightarrow> u32" where
  "oxm_tlv OFB_IN_PORT = OXM_TLV_BASIC 0 4"
| "oxm_tlv OFB_IN_PHY_PORT = OXM_TLV_BASIC 1 4"
| "oxm_tlv OFB_METADATA = OXM_TLV_BASIC 2 8"
| "oxm_tlv OFB_ETH_DST = OXM_TLV_BASIC 3 6"
| "oxm_tlv OFB_ETH_SRC = OXM_TLV_BASIC 4 6"
| "oxm_tlv OFB_ETH_TYPE = OXM_TLV_BASIC 5 2"
| "oxm_tlv OFB_VLAN_VID = OXM_TLV_BASIC 6 2"
| "oxm_tlv OFB_VLAN_PCP = OXM_TLV_BASIC 7 1"
| "oxm_tlv OFB_IP_DSCP = OXM_TLV_BASIC 8 1"
| "oxm_tlv OFB_IP_ECN = OXM_TLV_BASIC 9 1"
| "oxm_tlv OFB_IP_PROTO = OXM_TLV_BASIC 10 1"
| "oxm_tlv OFB_IPV4_SRC = OXM_TLV_BASIC 11 4"
| "oxm_tlv OFB_IPV4_DST = OXM_TLV_BASIC 12 4"
| "oxm_tlv OFB_TCP_SRC = OXM_TLV_BASIC 13 2"
| "oxm_tlv OFB_TCP_DST = OXM_TLV_BASIC 14 2"
| "oxm_tlv OFB_UDP_SRC = OXM_TLV_BASIC 15 2"
| "oxm_tlv OFB_UDP_DST = OXM_TLV_BASIC 16 2"
| "oxm_tlv OFB_SCTP_SRC = OXM_TLV_BASIC 17 2"
| "oxm_tlv OFB_SCTP_DST = OXM_TLV_BASIC 18 2"
| "oxm_tlv OFB_ICMPV4_TYPE = OXM_TLV_BASIC 19 1"
| "oxm_tlv OFB_ICMPV4_CODE = OXM_TLV_BASIC 20 1"
| "oxm_tlv OFB_ARP_OP = OXM_TLV_BASIC 21 2"
| "oxm_tlv OFB_ARP_SPA = OXM_TLV_BASIC 22 4"
| "oxm_tlv OFB_ARP_TPA = OXM_TLV_BASIC 23 4"
| "oxm_tlv OFB_ARP_SHA = OXM_TLV_BASIC 24 6"
| "oxm_tlv OFB_ARP_THA = OXM_TLV_BASIC 25 6"
| "oxm_tlv OFB_IPV6_SRC = OXM_TLV_BASIC 26 16"
| "oxm_tlv OFB_IPV6_DST = OXM_TLV_BASIC 27 16"
| "oxm_tlv OFB_IPV6_FLABEL = OXM_TLV_BASIC 28 4"
| "oxm_tlv OFB_ICMPV6_TYPE = OXM_TLV_BASIC 29 1"
| "oxm_tlv OFB_ICMPV6_CODE = OXM_TLV_BASIC 30 1"
| "oxm_tlv OFB_IPV6_ND_TARGET = OXM_TLV_BASIC 31 16"
| "oxm_tlv OFB_IPV6_ND_SLL = OXM_TLV_BASIC 32 6"
| "oxm_tlv OFB_IPV6_ND_TLL = OXM_TLV_BASIC 33 6"
| "oxm_tlv OFB_MPLS_LABEL = OXM_TLV_BASIC 34 4"
| "oxm_tlv OFB_MPLS_TC = OXM_TLV_BASIC 35 1"
| "oxm_tlv OFB_MPLS_BOS = OXM_TLV_BASIC 36 1"
| "oxm_tlv OFB_PBB_ISID = OXM_TLV_BASIC 37 3"
| "oxm_tlv OFB_TUNNEL_ID = OXM_TLV_BASIC 38 8"
| "oxm_tlv OFB_IPV6_EXTHDR = OXM_TLV_BASIC 39 4"
| "oxm_tlv OFX_NW_SRC = OXM_TLV_EXPR 0 4"
| "oxm_tlv OFX_NW_DST = OXM_TLV_EXPR 1 4"
| "oxm_tlv OFX_NW_PROTO = OXM_TLV_EXPR 2 1"
| "oxm_tlv OFX_NW_TOS = OXM_TLV_EXPR 3 1"
| "oxm_tlv OFX_TP_SRC = OXM_TLV_EXPR 4 2"
| "oxm_tlv OFX_TP_DST = OXM_TLV_EXPR 5 2"

text \<open>The enumerators with the suffix \<open>_MASK\<close>.\<close>

fun oxm_tlv_mask :: "oxm_field \<Rightarrow> u32 option" where
  "oxm_tlv_mask OFB_METADATA = Some (OXM_TLV_BASIC 2 16 OR HAS_MASK_FLAG)"
| "oxm_tlv_mask OFB_ETH_DST = Some (OXM_TLV_BASIC 3 12 OR HAS_MASK_FLAG)"
| "oxm_tlv_mask OFB_ETH_SRC = Some (OXM_TLV_BASIC 4 12 OR HAS_MASK_FLAG)"
| "oxm_tlv_mask OFB_VLAN_VID = Some (OXM_TLV_BASIC 6 4 OR HAS_MASK_FLAG)"
| "oxm_tlv_mask OFB_IPV4_SRC = Some (OXM_TLV_BASIC 11 8 OR HAS_MASK_FLAG)"
| "oxm_tlv_mask OFB_IPV4_DST = Some (OXM_TLV_BASIC 12 8 OR HAS_MASK_FLAG)"
| "oxm_tlv_mask OFB_ARP_SPA = Some (OXM_TLV_BASIC 22 8 OR HAS_MASK_FLAG)"
| "oxm_tlv_mask OFB_ARP_TPA = Some (OXM_TLV_BASIC 23 8 OR HAS_MASK_FLAG)"
| "oxm_tlv_mask OFB_ARP_SHA = Some (OXM_TLV_BASIC 24 12 OR HAS_MASK_FLAG)"
| "oxm_tlv_mask OFB_ARP_THA = Some (OXM_TLV_BASIC 25 12 OR HAS_MASK_FLAG)"
| "oxm_tlv_mask OFB_IPV6_SRC = Some (OXM_TLV_BASIC 26 32 OR HAS_MASK_FLAG)"
| "oxm_tlv_mask OFB_IPV6_DST = Some (OXM_TLV_BASIC 27 32 OR HAS_MASK_FLAG)"
| "oxm_tlv_mask OFB_IPV6_FLABEL = Some (OXM_TLV_BASIC 28 8 OR HAS_MASK_FLAG)"
| "oxm_tlv_mask OFB_PBB_ISID = Some (OXM_TLV_BASIC 37 6 OR HAS_MASK_FLAG)"
| "oxm_tlv_mask OFB_TUNNEL_ID = Some (OXM_TLV_BASIC 38 16 OR HAS_MASK_FLAG)"
| "oxm_tlv_mask OFB_IPV6_EXTHDR = Some (OXM_TLV_BASIC 39 8 OR HAS_MASK_FLAG)"
| "oxm_tlv_mask OFX_NW_SRC = Some (OXM_TLV_EXPR 0 8 OR HAS_MASK_FLAG)"
| "oxm_tlv_mask OFX_NW_DST = Some (OXM_TLV_EXPR 1 8 OR HAS_MASK_FLAG)"
| "oxm_tlv_mask _ = None"

definition ofb_fields :: "oxm_field list" where
  "ofb_fields =
     [OFB_IN_PORT, OFB_IN_PHY_PORT, OFB_METADATA, OFB_ETH_DST, OFB_ETH_SRC, OFB_ETH_TYPE,
      OFB_VLAN_VID, OFB_VLAN_PCP, OFB_IP_DSCP, OFB_IP_ECN, OFB_IP_PROTO, OFB_IPV4_SRC,
      OFB_IPV4_DST, OFB_TCP_SRC, OFB_TCP_DST, OFB_UDP_SRC, OFB_UDP_DST, OFB_SCTP_SRC,
      OFB_SCTP_DST, OFB_ICMPV4_TYPE, OFB_ICMPV4_CODE, OFB_ARP_OP, OFB_ARP_SPA, OFB_ARP_TPA,
      OFB_ARP_SHA, OFB_ARP_THA, OFB_IPV6_SRC, OFB_IPV6_DST, OFB_IPV6_FLABEL, OFB_ICMPV6_TYPE,
      OFB_ICMPV6_CODE, OFB_IPV6_ND_TARGET, OFB_IPV6_ND_SLL, OFB_IPV6_ND_TLL, OFB_MPLS_LABEL,
      OFB_MPLS_TC, OFB_MPLS_BOS, OFB_PBB_ISID, OFB_TUNNEL_ID, OFB_IPV6_EXTHDR]"

definition ofx_fields :: "oxm_field list" where
  "ofx_fields = [OFX_NW_SRC, OFX_NW_DST, OFX_NW_PROTO, OFX_NW_TOS, OFX_TP_SRC, OFX_TP_DST]"

definition ROFL_EXP_ID :: u32 where "ROFL_EXP_ID = 0xa1a2a3a4"

text \<open>The macros \<open>OXM_ROFL_OFB_TYPE\<close>, \<open>OXM_ROFL_OFX_TYPE\<close> and \<open>OXM_EXPR_OFX_TYPE\<close>: keys of the map.\<close>

definition OXM_ROFL_TYPE :: "u64 \<Rightarrow> u64" where
  "OXM_ROFL_TYPE x = x AND 0x00000000fffffe00"

definition OXM_ROFL_CLASS :: "u64 \<Rightarrow> u64" where
  "OXM_ROFL_CLASS x = x AND 0x00000000ffff0000"

definition OXM_ROFL_OFB_TYPE :: "u32 \<Rightarrow> u64" where
  "OXM_ROFL_OFB_TYPE x = push_bit 32 0 OR OXM_ROFL_TYPE (ucast x)"

definition OXM_EXPR_OFX_TYPE :: "u32 \<Rightarrow> u32 \<Rightarrow> u64" where
  "OXM_EXPR_OFX_TYPE w x = push_bit 32 (ucast w) OR OXM_ROFL_TYPE (ucast x)"

definition oxm_key :: "oxm_field \<Rightarrow> u64" where
  "oxm_key f =
     (if f \<in> set ofx_fields then OXM_EXPR_OFX_TYPE ROFL_EXP_ID (oxm_tlv f) else OXM_ROFL_OFB_TYPE (oxm_tlv f))"

section \<open>Elements of any class\<close>

datatype coxmatch =
    Coxmatch_8 "u8 oxm"
  | Coxmatch_16 "u16 oxm"
  | Coxmatch_24 "u32 oxm"
  | Coxmatch_32 "u32 oxm"
  | Coxmatch_48 "u64 oxm"
  | Coxmatch_64 "u64 oxm"
  | Coxmatch_128 "byte list oxm"
  | Coxmatch_exp oxm_exp

text \<open>The virtual methods.\<close>

primrec coxmatch_id :: "coxmatch \<Rightarrow> u32" where
  "coxmatch_id (Coxmatch_8 m) = oxm_id m"
| "coxmatch_id (Coxmatch_16 m) = oxm_id m"
| "coxmatch_id (Coxmatch_24 m) = oxm_id m"
| "coxmatch_id (Coxmatch_32 m) = oxm_id m"
| "coxmatch_id (Coxmatch_48 m) = oxm_id m"
| "coxmatch_id (Coxmatch_64 m) = oxm_id m"
| "coxmatch_id (Coxmatch_128 m) = oxm_id m"
| "coxmatch_id (Coxmatch_exp m) = oxm_id m"

primrec coxmatch_length :: "coxmatch \<Rightarrow> nat result" where
  "coxmatch_length (Coxmatch_8 m) = Inr (coxmatch_8_length m)"
| "coxmatch_length (Coxmatch_16 m) = Inr (coxmatch_16_length m)"
| "coxmatch_length (Coxmatch_24 m) = Inr (coxmatch_24_length m)"
| "coxmatch_length (Coxmatch_32 m) = Inr (coxmatch_32_length m)"
| "coxmatch_length (Coxmatch_48 m) = Inr (coxmatch_48_length m)"
| "coxmatch_length (Coxmatch_64 m) = Inr (coxmatch_64_length m)"
| "coxmatch_length (Coxmatch_128 m) = Inr (coxmatch_128_length m)"
| "coxmatch_length (Coxmatch_exp m) = exp_length m"

primrec coxmatch_pack :: "nat \<Rightarrow> coxmatch \<Rightarrow> coxmatch \<times> byte list result" where
  "coxmatch_pack n (Coxmatch_8 m) = map_prod Coxmatch_8 id (coxmatch_8_pack n m)"
| "coxmatch_pack n (Coxmatch_16 m) = map_prod Coxmatch_16 id (coxmatch_16_pack n m)"
| "coxmatch_pack n (Coxmatch_24 m) = map_prod Coxmatch_24 id (coxmatch_24_pack n m)"
| "coxmatch_pack n (Coxmatch_32 m) = map_prod Coxmatch_32 id (coxmatch_32_pack n m)"
| "coxmatch_pack n (Coxmatch_48 m) = map_prod Coxmatch_48 id (coxmatch_48_pack n m)"
| "coxmatch_pack n (Coxmatch_64 m) = map_prod Coxmatch_64 id (coxmatch_64_pack n m)"
| "coxmatch_pack n (Coxmatch_128 m) = map_prod Coxmatch_128 id (coxmatch_128_pack n m)"
| "coxmatch_pack n (Coxmatch_exp m) = (Coxmatch_exp m, exp_pack n m)"

primrec coxmatch_unpack :: "byte list \<Rightarrow> coxmatch \<Rightarrow> coxmatch outcome" where
  "coxmatch_unpack buf (Coxmatch_8 m) = map_prod Coxmatch_8 id (coxmatch_8_unpack buf m)"
| "coxmatch_unpack buf (Coxmatch_16 m) = map_prod Coxmatch_16 id (coxmatch_16_unpack buf m)"
| "coxmatch_unpack buf (Coxmatch_24 m) = map_prod Coxmatch_24 id (coxmatch_24_unpack buf m)"
| "coxmatch_unpack buf (Coxmatch_32 m) = map_prod Coxmatch_32 id (coxmatch_32_unpack buf m)"
| "coxmatch_unpack buf (Coxmatch_48 m) = map_prod Coxmatch_48 id (coxmatch_48_unpack buf m)"
| "coxmatch_unpack buf (Coxmatch_64 m) = map_prod Coxmatch_64 id (coxmatch_64_unpack buf m)"
| "coxmatch_unpack buf (Coxmatch_128 m) = map_prod Coxmatch_128 id (coxmatch_128_unpack buf m)"
| "coxmatch_unpack buf (Coxmatch_exp m) = map_prod Coxmatch_exp id (exp_unpack buf m)"

text \<open>\<open>operator==\<close> and \<open>operator!=\<close> are not virtual; the base class compares the header words only.\<close>

definition coxmatch_eq :: "coxmatch \<Rightarrow> coxmatch \<Rightarrow> bool" where
  "coxmatch_eq a b \<longleftrightarrow> coxmatch_id a = coxmatch_id b"

text \<open>The base classes of the element classes, with the default constructor of the element class.\<close>

fun oxm_default :: "oxm_field \<Rightarrow> coxmatch" where
  "oxm_default OFB_IN_PORT = Coxmatch_32 (oxm_new 0xffffffff (oxm_tlv OFB_IN_PORT) 0)"
| "oxm_default OFB_IN_PHY_PORT = Coxmatch_32 (oxm_new 0xffffffff (oxm_tlv OFB_IN_PHY_PORT) 0)"
| "oxm_default OFB_METADATA = Coxmatch_64 (oxm_new 0xffffffffffffffff (oxm_tlv OFB_METADATA) 0)"
| "oxm_default OFB_ETH_DST = Coxmatch_48 (oxm_new 0xffffffffffff (oxm_tlv OFB_ETH_DST) 0)"
| "oxm_default OFB_ETH_SRC = Coxmatch_48 (oxm_new 0xffffffffffff (oxm_tlv OFB_ETH_SRC) 0)"
| "oxm_default OFB_ETH_TYPE = Coxmatch_16 (oxm_new 0xffff (oxm_tlv OFB_ETH_TYPE) 0)"
| "oxm_default OFB_VLAN_VID = Coxmatch_16 (oxm_new 0xffff (oxm_tlv OFB_VLAN_VID) 0)"
| "oxm_default OFB_VLAN_PCP = Coxmatch_8 (oxm_new 0xff (oxm_tlv OFB_VLAN_PCP) 0)"
| "oxm_default OFB_IP_DSCP = Coxmatch_8 (oxm_new 0xff (oxm_tlv OFB_IP_DSCP) 0)"
| "oxm_default OFB_IP_ECN = Coxmatch_8 (oxm_new 0xff (oxm_tlv OFB_IP_ECN) 0)"
| "oxm_default OFB_IP_PROTO = Coxmatch_8 (oxm_new 0xff (oxm_tlv OFB_IP_PROTO) 0)"
| "oxm_default OFB_IPV4_SRC = Coxmatch_32 (oxm_new 0xffffffff (oxm_tlv OFB_IPV4_SRC) 0)"
| "oxm_default OFB_IPV4_DST = Coxmatch_32 (oxm_new 0xffffffff (oxm_tlv OFB_IPV4_DST) 0)"
| "oxm_default OFB_TCP_SRC = Coxmatch_16 (oxm_new 0xffff (oxm_tlv OFB_TCP_SRC) 0)"
| "oxm_default OFB_TCP_DST = Coxmatch_16 (oxm_new 0xffff (oxm_tlv OFB_TCP_DST) 0)"
| "oxm_default OFB_UDP_SRC = Coxmatch_16 (oxm_new 0xffff (oxm_tlv OFB_UDP_SRC) 0)"
| "oxm_default OFB_UDP_DST = Coxmatch_16 (oxm_new 0xffff (oxm_tlv OFB_UDP_DST) 0)"
| "oxm_default OFB_SCTP_SRC = Coxmatch_16 (oxm_new 0xffff (oxm_tlv OFB_SCTP_SRC) 0)"
| "oxm_default OFB_SCTP_DST = Coxmatch_16 (oxm_new 0xffff (oxm_tlv OFB_SCTP_DST) 0)"
| "oxm_default OFB_ICMPV4_TYPE = Coxmatch_8 (oxm_new 0xff (oxm_tlv OFB_ICMPV4_TYPE) 0)"
| "oxm_default OFB_ICMPV4_CODE = Coxmatch_8 (oxm_new 0xff (oxm_tlv OFB_ICMPV4_CODE) 0)"
| "oxm_default OFB_ARP_OP = Coxmatch_16 (oxm_new 0xffff (oxm_tlv OFB_ARP_OP) 0)"
| "oxm_default OFB_ARP_SPA = Coxmatch_32 (oxm_new 0xffffffff (oxm_tlv OFB_ARP_SPA) 0)"
| "oxm_default OFB_ARP_TPA = Coxmatch_32 (oxm_new 0xffffffff (oxm_tlv OFB_ARP_TPA) 0)"
| "oxm_default OFB_ARP_SHA = Coxmatch_48 (oxm_new 0xffffffffffff (oxm_tlv OFB_ARP_SHA) 0)"
| "oxm_default OFB_ARP_THA = Coxmatch_48 (oxm_new 0xffffffffffff (oxm_tlv OFB_ARP_THA) 0)"
| "oxm_default OFB_IPV6_SRC = Coxmatch_128 (oxm_new (replicate 16 0xff) (oxm_tlv OFB_IPV6_SRC) (replicate 16 0))"
| "oxm_default OFB_IPV6_DST = Coxmatch_128 (oxm_new (replicate 16 0xff) (oxm_tlv OFB_IPV6_DST) (replicate 16 0))"
| "oxm_default OFB_IPV6_FLABEL = Coxmatch_32 (oxm_new 0xffffffff (oxm_tlv OFB_IPV6_FLABEL) 0)"
| "oxm_default OFB_ICMPV6_TYPE = Coxmatch_8 (oxm_new 0xff (oxm_tlv OFB_ICMPV6_TYPE) 0)"
| "oxm_default OFB_ICMPV6_CODE = Coxmatch_8 (oxm_new 0xff (oxm_tlv OFB_ICMPV6_CODE) 0)"
| "oxm_default OFB_IPV6_ND_TARGET = Coxmatch_128 (oxm_new (replicate 16 0xff) (oxm_tlv OFB_IPV6_ND_TARGET) (replicate 16 0))"
| "oxm_default OFB_IPV6_ND_SLL = Coxmatch_48 (oxm_new 0xffffffffffff (oxm_tlv OFB_IPV6_ND_SLL) 0)"
| "oxm_default OFB_IPV6_ND_TLL = Coxmatch_48 (oxm_new 0xffffffffffff (oxm_tlv OFB_IPV6_ND_TLL) 0)"
| "oxm_default OFB_MPLS_LABEL = Coxmatch_32 (oxm_new 0xffffffff (oxm_tlv OFB_MPLS_LABEL) 0)"
| "oxm_default OFB_MPLS_TC = Coxmatch_8 (oxm_new 0xff (oxm_tlv OFB_MPLS_TC) 0)"
| "oxm_default OFB_MPLS_BOS = Coxmatch_8 (oxm_new 0xff (oxm_tlv OFB_MPLS_BOS) 0)"
| "oxm_default OFB_PBB_ISID = Coxmatch_24 (oxm_new 0xffffff (oxm_tlv OFB_PBB_ISID) 0)"
| "oxm_default OFB_TUNNEL_ID = Coxmatch_64 (oxm_new 0xffffffffffffffff (oxm_tlv OFB_TUNNEL_ID) 0)"
| "oxm_default OFB_IPV6_EXTHDR = Coxmatch_16 (oxm_new 0xffff (oxm_tlv OFB_IPV6_EXTHDR) 0)"
| "oxm_default f = Coxmatch_exp (exp_new (oxm_tlv f) ROFL_EXP_ID)"

text \<open>The constructors with a value, and with a value and a mask.\<close>

definition ofb8_new :: "oxm_field \<Rightarrow> u8 \<Rightarrow> coxmatch" where
  "ofb8_new f value = Coxmatch_8 (oxm_new 0xff (oxm_tlv f) value)"

definition ofb16_new :: "oxm_field \<Rightarrow> u16 \<Rightarrow> coxmatch" where
  "ofb16_new f value = Coxmatch_16 (oxm_new 0xffff (oxm_tlv f) value)"

definition ofb16_new_masked :: "oxm_field \<Rightarrow> u16 \<Rightarrow> u16 \<Rightarrow> coxmatch" where
  "ofb16_new_masked f value m = Coxmatch_16 (oxm_new_masked (the (oxm_tlv_mask f)) value m)"

definition ofb32_new :: "oxm_field \<Rightarrow> u32 \<Rightarrow> coxmatch" where
  "ofb32_new f value = Coxmatch_32 (oxm_new 0xffffffff (oxm_tlv f) value)"

definition ofb32_new_masked :: "oxm_field \<Rightarrow> u32 \<Rightarrow> u32 \<Rightarrow> coxmatch" where
  "ofb32_new_masked f value m = Coxmatch_32 (oxm_new_masked (the (oxm_tlv_mask f)) value m)"

definition ofb48_new :: "oxm_field \<Rightarrow> byte list \<Rightarrow> coxmatch" where
  "ofb48_new f lladdr = Coxmatch_48 (oxm_new 0xffffffffffff (oxm_tlv f) (be_word (take 6 lladdr)))"

definition ofx_new :: "oxm_field \<Rightarrow> byte list \<Rightarrow> coxmatch" where
  "ofx_new f value = Coxmatch_exp (exp_set_value value (exp_new (oxm_tlv f) ROFL_EXP_ID))"

definition ofx_new_masked :: "oxm_field \<Rightarrow> u32 \<Rightarrow> u32 \<Rightarrow> coxmatch" where
  "ofx_new_masked f value m =
     Coxmatch_exp (exp_set_mask (be_bytes 4 m) (exp_set_value (be_bytes 4 value)
       (exp_new (the (oxm_tlv_mask f)) ROFL_EXP_ID)))"

text \<open>
  The object that \<open>add_ofb_...()\<close> and \<open>add_ofx_...()\<close> create from their default arguments: zero; for
  the two experimental addresses the mask is an argument too, and zero.
\<close>

fun oxm_added :: "oxm_field \<Rightarrow> coxmatch" where
  "oxm_added OFX_NW_SRC = ofx_new_masked OFX_NW_SRC 0 0"
| "oxm_added OFX_NW_DST = ofx_new_masked OFX_NW_DST 0 0"
| "oxm_added OFX_NW_PROTO = ofx_new OFX_NW_PROTO (be_bytes 1 (0 :: u8))"
| "oxm_added OFX_NW_TOS = ofx_new OFX_NW_TOS (be_bytes 1 (0 :: u8))"
| "oxm_added OFX_TP_SRC = ofx_new OFX_TP_SRC (be_bytes 2 (0 :: u16))"
| "oxm_added OFX_TP_DST = ofx_new OFX_TP_DST (be_bytes 2 (0 :: u16))"
| "oxm_added f = oxm_default f"

section \<open>The container\<close>

datatype oxm_cls = Cls oxm_field | Cls_exp | Cls_packet_register

type_synonym coxmatches = "(u64 \<times> oxm_cls \<times> coxmatch) list"

definition coxmatches_clear :: "coxmatches \<Rightarrow> coxmatches" where
  "coxmatches_clear ms = []"

definition get_ids :: "coxmatches \<Rightarrow> u64 list" where
  "get_ids ms = map fst ms"

definition add_oxm :: "oxm_field \<Rightarrow> coxmatch \<Rightarrow> coxmatches \<Rightarrow> coxmatches" where
  "add_oxm f m ms = map_put (oxm_key f) (Cls f, m) ms"

definition get_oxm :: "oxm_field \<Rightarrow> coxmatches \<Rightarrow> coxmatch result" where
  "get_oxm f ms =
     (case map_of ms (oxm_key f) of
        None \<Rightarrow> Inl EOxmInval
      | Some (c, m) \<Rightarrow> if c = Cls f then Inr m else Inl EBadCast)"

definition set_oxm :: "oxm_field \<Rightarrow> coxmatches \<Rightarrow> coxmatches \<times> coxmatch result" where
  "set_oxm f ms =
     (let ms' = (if map_of ms (oxm_key f) = None then map_put (oxm_key f) (Cls f, oxm_default f) ms else ms)
      in (ms', get_oxm f ms'))"

definition drop_oxm :: "oxm_field \<Rightarrow> coxmatches \<Rightarrow> coxmatches \<times> bool" where
  "drop_oxm f ms =
     (if map_of ms (oxm_key f) = None then (ms, False) else (map_erase (oxm_key f) ms, True))"

definition has_oxm :: "oxm_field \<Rightarrow> coxmatches \<Rightarrow> bool" where
  "has_oxm f ms \<longleftrightarrow> map_of ms (oxm_key f) \<noteq> None"

text \<open>Experimenter elements that have no class of their own.\<close>

definition add_exp_match :: "u32 \<Rightarrow> u32 \<Rightarrow> oxm_exp \<Rightarrow> coxmatches \<Rightarrow> coxmatches" where
  "add_exp_match exp i m ms = map_put (OXM_EXPR_OFX_TYPE exp i) (Cls_exp, Coxmatch_exp m) ms"

definition get_exp_match :: "u32 \<Rightarrow> u32 \<Rightarrow> coxmatches \<Rightarrow> oxm_exp result" where
  "get_exp_match exp i ms =
     (case map_of ms (OXM_EXPR_OFX_TYPE exp i) of
        None \<Rightarrow> Inl EOxmInval
      | Some (_, Coxmatch_exp m) \<Rightarrow> Inr m
      | Some _ \<Rightarrow> Inl EBadCast)"

definition set_exp_match :: "u32 \<Rightarrow> u32 \<Rightarrow> coxmatches \<Rightarrow> coxmatches \<times> oxm_exp result" where
  "set_exp_match exp i ms =
     (let ms' = (if map_of ms (OXM_EXPR_OFX_TYPE exp i) = None then add_exp_match exp i (exp_new i exp) ms else ms)
      in (ms', get_exp_match exp i ms'))"

definition drop_exp_match :: "u32 \<Rightarrow> u32 \<Rightarrow> coxmatches \<Rightarrow> coxmatches \<times> bool" where
  "drop_exp_match exp i ms =
     (if map_of ms (OXM_EXPR_OFX_TYPE exp i) = None then (ms, False)
      else (map_erase (OXM_EXPR_OFX_TYPE exp i) ms, True))"

definition has_exp_match :: "u32 \<Rightarrow> u32 \<Rightarrow> coxmatches \<Rightarrow> bool" where
  "has_exp_match exp i ms \<longleftrightarrow> map_of ms (OXM_EXPR_OFX_TYPE exp i) \<noteq> None"

text \<open>Packet registers (EXT-244).\<close>

definition OXM_TLV_PKTREG :: "u8 \<Rightarrow> u32" where
  "OXM_TLV_PKTREG n = push_bit 16 0x8001 OR push_bit 9 (ucast n) OR 8"

definition OXM_TLV_PKTREG_MASK :: "u8 \<Rightarrow> u32" where
  "OXM_TLV_PKTREG_MASK n = push_bit 16 0x8001 OR push_bit 9 (ucast n) OR HAS_MASK_FLAG OR 16"

definition add_packet_register :: "u8 \<Rightarrow> u64 \<Rightarrow> coxmatches \<Rightarrow> coxmatches" where
  "add_packet_register n value ms =
     map_put (OXM_ROFL_OFB_TYPE (OXM_TLV_PKTREG n))
       (Cls_packet_register, Coxmatch_64 (oxm_new 0xffffffffffffffff (OXM_TLV_PKTREG n) value)) ms"

definition add_packet_register_masked :: "u8 \<Rightarrow> u64 \<Rightarrow> u64 \<Rightarrow> coxmatches \<Rightarrow> coxmatches" where
  "add_packet_register_masked n value m ms =
     map_put (OXM_ROFL_OFB_TYPE (OXM_TLV_PKTREG_MASK n))
       (Cls_packet_register, Coxmatch_64 (oxm_new_masked (OXM_TLV_PKTREG_MASK n) value m)) ms"

definition get_packet_register :: "u8 \<Rightarrow> coxmatches \<Rightarrow> coxmatch result" where
  "get_packet_register n ms =
     (case map_of ms (OXM_ROFL_OFB_TYPE (OXM_TLV_PKTREG_MASK n)) of
        None \<Rightarrow> Inl EOxmInval
      | Some (c, m) \<Rightarrow> if c = Cls_packet_register then Inr m else Inl EBadCast)"

definition set_packet_register :: "u8 \<Rightarrow> coxmatches \<Rightarrow> coxmatches \<times> coxmatch result" where
  "set_packet_register n ms =
     (let ms' = (if map_of ms (OXM_ROFL_OFB_TYPE (OXM_TLV_PKTREG_MASK n)) = None
                 then map_put (OXM_ROFL_OFB_TYPE (OXM_TLV_PKTREG_MASK n))
                        (Cls_packet_register, Coxmatch_64 (oxm_new 0xffffffffffffffff (OXM_TLV_PKTREG n) 0)) ms
                 else ms)
      in (ms', get_packet_register n ms'))"

definition drop_packet_register :: "u8 \<Rightarrow> coxmatches \<Rightarrow> coxmatches \<times> bool" where
  "drop_packet_register n ms =
     (if map_of ms (OXM_ROFL_OFB_TYPE (OXM_TLV_PKTREG_MASK n)) = None then (ms, False)
      else (map_erase (OXM_ROFL_OFB_TYPE (OXM_TLV_PKTREG_MASK n)) ms, True))"

definition has_packet_register :: "u8 \<Rightarrow> coxmatches \<Rightarrow> bool" where
  "has_packet_register n ms \<longleftrightarrow> map_of ms (OXM_ROFL_OFB_TYPE (OXM_TLV_PKTREG_MASK n)) \<noteq> None"

section \<open>Comparison\<close>

definition coxmatches_eq :: "coxmatches \<Rightarrow> coxmatches \<Rightarrow> bool" where
  "coxmatches_eq ms oxms \<longleftrightarrow>
     length ms = length oxms \<and>
     list_all (\<lambda>(k, c, m). case map_of oxms k of None \<Rightarrow> False | Some (_, m') \<Rightarrow> coxmatch_eq m m') ms"

text \<open>The key that \<open>contains\<close> and \<open>is_part_of\<close> look for.\<close>

definition shifted_key :: "coxmatch \<Rightarrow> u64" where
  "shifted_key m = push_bit 32 (0xfffffe00 AND ucast (coxmatch_id m)) OR 0"

text \<open>A look at \<open>end()\<close> or through a missing pointer is \<open>ENullPointer\<close>.\<close>

fun contains_all :: "coxmatches \<Rightarrow> coxmatches \<Rightarrow> bool result" where
  "contains_all [] oxms = Inr True"
| "contains_all ((k, c, lmatch) # ms) oxms =
     (if map_of oxms (shifted_key lmatch) = None then Inr False
      else case map_of oxms k of
        None \<Rightarrow> Inl ENullPointer
      | Some (_, rmatch) \<Rightarrow> if \<not> coxmatch_eq lmatch rmatch then Inr False else contains_all ms oxms)"

definition coxmatches_contains :: "coxmatches \<Rightarrow> bool \<Rightarrow> coxmatches \<Rightarrow> bool result" where
  "coxmatches_contains oxms strict ms =
     (if strict \<and> length ms \<noteq> length oxms then Inr False
      else if \<not> strict \<and> length oxms < length ms then Inr False
      else contains_all ms oxms)"

text \<open>The counters are \<open>uint16_t\<close> and come from the caller.\<close>

type_synonym hits = "bool \<times> u16 \<times> u16 \<times> u16"

fun part_of_loop :: "coxmatches \<Rightarrow> hits \<Rightarrow> coxmatches \<Rightarrow> hits result" where
  "part_of_loop [] h ms = Inr h"
| "part_of_loop ((k, c, rmatch) # oxms) (result, exact, wildcard, missed) ms =
     (if map_of ms (shifted_key rmatch) = None then part_of_loop oxms (result, exact, wildcard + 1, missed) ms
      else case map_of ms k of
        None \<Rightarrow> Inl ENullPointer
      | Some (_, m) \<Rightarrow>
          if \<not> coxmatch_eq m rmatch then part_of_loop oxms (False, exact, wildcard, missed + 1) ms
          else part_of_loop oxms (result, exact + 1, wildcard, missed) ms)"

definition is_part_of :: "coxmatches \<Rightarrow> u16 \<Rightarrow> u16 \<Rightarrow> u16 \<Rightarrow> coxmatches \<Rightarrow> hits result" where
  "is_part_of oxms exact wildcard missed ms = part_of_loop oxms (True, exact, wildcard, missed) ms"

section \<open>Packing, unpacking, copying\<close>

fun coxmatches_length :: "coxmatches \<Rightarrow> nat result" where
  "coxmatches_length [] = Inr 0"
| "coxmatches_length ((k, c, m) # ms) =
     (case coxmatch_length m of
        Inl e \<Rightarrow> Inl e
      | Inr n \<Rightarrow> (case coxmatches_length ms of Inl e \<Rightarrow> Inl e | Inr n' \<Rightarrow> Inr (n + n')))"

text \<open>The loop of \<open>pack\<close>: every element has the next \<open>length()\<close> bytes of the buffer to write to.\<close>

fun pack_matches :: "byte list \<Rightarrow> coxmatches \<Rightarrow> coxmatches \<times> byte list result" where
  "pack_matches buf [] = ([], Inr buf)"
| "pack_matches buf ((k, c, m) # ms) =
     (case coxmatch_length m of
        Inl e \<Rightarrow> ((k, c, m) # ms, Inl e)
      | Inr n \<Rightarrow>
          (case coxmatch_pack n m of
             (m', Inl e) \<Rightarrow> ((k, c, m') # ms, Inl e)
           | (m', Inr bytes) \<Rightarrow>
               (case pack_matches (drop n buf) ms of
                  (ms', Inl e) \<Rightarrow> ((k, c, m') # ms', Inl e)
                | (ms', Inr rest) \<Rightarrow>
                    ((k, c, m') # ms', Inr (bytes @ drop (length bytes) (take n buf) @ rest)))))"

definition coxmatches_pack :: "byte list \<Rightarrow> coxmatches \<Rightarrow> coxmatches \<times> byte list result" where
  "coxmatches_pack buf ms =
     (case coxmatches_length ms of
        Inl e \<Rightarrow> (ms, Inl e)
      | Inr n \<Rightarrow> if length buf < n then (ms, Inl EBadMatchBadLen) else pack_matches buf ms)"

text \<open>The classes that \<open>switch (oxm_type)\<close> knows.\<close>

definition oxm_of_key :: "oxm_field list \<Rightarrow> u64 \<Rightarrow> oxm_field option" where
  "oxm_of_key fs key = find (\<lambda>f. oxm_key f = key) fs"

definition unpack_into :: "u64 \<Rightarrow> oxm_cls \<Rightarrow> coxmatch \<Rightarrow> byte list \<Rightarrow> coxmatches \<Rightarrow> coxmatches outcome" where
  "unpack_into key c m0 buf ms =
     (case coxmatch_unpack buf m0 of (m, e) \<Rightarrow> (map_put key (c, m) ms, e))"

text \<open>The body of the loop of \<open>unpack\<close>: the element at the front of the buffer.\<close>

definition unpack_match :: "byte list \<Rightarrow> coxmatches \<Rightarrow> coxmatches outcome" where
  "unpack_match buf ms =
     (let cls = de16 (buf ! 0) (buf ! 1); i = de32 (buf ! 0) (buf ! 1) (buf ! 2) (buf ! 3)
      in if cls = 0x8000 then
           (case oxm_of_key ofb_fields (OXM_ROFL_TYPE (ucast i)) of
              Some f \<Rightarrow> unpack_into (oxm_key f) (Cls f) (oxm_added f) buf ms
            | None \<Rightarrow> (ms, None))
         else if cls = 0xffff then
           (if length buf < 8 then (ms, Some EOxmBadLen)
            else (let exp = de32 (buf ! 4) (buf ! 5) (buf ! 6) (buf ! 7)
                  in case oxm_of_key ofx_fields (OXM_EXPR_OFX_TYPE exp i) of
                       Some f \<Rightarrow> unpack_into (oxm_key f) (Cls f) (oxm_added f) buf ms
                     | None \<Rightarrow> unpack_into (OXM_EXPR_OFX_TYPE exp i) Cls_exp (Coxmatch_exp (exp_new i exp)) buf ms))
         else (ms, None))"

function unpack_matches :: "byte list \<Rightarrow> coxmatches \<Rightarrow> coxmatches outcome" where
  "unpack_matches buf ms =
     (if length buf < 4 then (ms, None)
      else case unpack_match buf ms of
        (ms', Some e) \<Rightarrow> (ms', Some e)
      | (ms', None) \<Rightarrow>
          if 4 + unat (buf ! 3) \<le> length buf then unpack_matches (drop (4 + unat (buf ! 3)) buf) ms' else (ms', None))"
  by pat_completeness auto

termination unpack_matches
  by (relation "measure (\<lambda>(buf, ms). length buf)") auto

declare unpack_matches.simps [simp del]

definition coxmatches_unpack :: "byte list \<Rightarrow> coxmatches \<Rightarrow> coxmatches outcome" where
  "coxmatches_unpack buf ms = unpack_matches buf []"

text \<open>
  \<open>copy_matches\<close> asks the source for every element under its class.  An assignment copies header,
  value and mask; the class is that of the new object.
\<close>

fun copy_ids :: "u64 list \<Rightarrow> coxmatches \<Rightarrow> coxmatches \<Rightarrow> coxmatches outcome" where
  "copy_ids [] oxms ms = (ms, None)"
| "copy_ids (key # ks) oxms ms =
     (case oxm_of_key (ofb_fields @ ofx_fields) key of
        Some f \<Rightarrow>
          (case get_oxm f oxms of
             Inl e \<Rightarrow> (ms, Some e)
           | Inr m \<Rightarrow> copy_ids ks oxms (add_oxm f m ms))
      | None \<Rightarrow>
          if OXM_ROFL_CLASS key = push_bit 16 0xffff then
            (let exp = ucast (drop_bit 32 key); i = ucast (key AND 0x00000000fffffe00)
             in case get_exp_match exp i oxms of
                  Inl e \<Rightarrow> (ms, Some e)
                | Inr m \<Rightarrow> copy_ids ks oxms (add_exp_match exp i m ms))
          else copy_ids ks oxms ms)"

definition copy_matches :: "coxmatches \<Rightarrow> coxmatches \<Rightarrow> coxmatches outcome" where
  "copy_matches oxms ms = copy_ids (get_ids oxms) oxms (coxmatches_clear ms)"

definition coxmatches_assign :: "coxmatches \<Rightarrow> coxmatches \<Rightarrow> coxmatches outcome" where
  "coxmatches_assign oxms ms = copy_matches oxms (coxmatches_clear ms)"

section \<open>Keys and types of the fields\<close>

lemma all_fields: "f \<in> set (ofb_fields @ ofx_fields)"
  by (cases f) (simp_all add: ofb_fields_def ofx_fields_def)

lemmas oxm_key_eval = oxm_key_def ofx_fields_def OXM_ROFL_OFB_TYPE_def OXM_EXPR_OFX_TYPE_def OXM_ROFL_TYPE_def
  OXM_TLV_BASIC_def OXM_TLV_EXPR_def ROFL_EXP_ID_def

lemma oxm_key_values:
  "oxm_key OFB_IN_PORT = 0x80000000"
  "oxm_key OFB_IN_PHY_PORT = 0x80000200"
  "oxm_key OFB_METADATA = 0x80000400"
  "oxm_key OFB_ETH_DST = 0x80000600"
  "oxm_key OFB_ETH_SRC = 0x80000800"
  "oxm_key OFB_ETH_TYPE = 0x80000a00"
  "oxm_key OFB_VLAN_VID = 0x80000c00"
  "oxm_key OFB_VLAN_PCP = 0x80000e00"
  "oxm_key OFB_IP_DSCP = 0x80001000"
  "oxm_key OFB_IP_ECN = 0x80001200"
  "oxm_key OFB_IP_PROTO = 0x80001400"
  "oxm_key OFB_IPV4_SRC = 0x80001600"
  "oxm_key OFB_IPV4_DST = 0x80001800"
  "oxm_key OFB_TCP_SRC = 0x80001a00"
  "oxm_key OFB_TCP_DST = 0x80001c00"
  "oxm_key OFB_UDP_SRC = 0x80001e00"
  "oxm_key OFB_UDP_DST = 0x80002000"
  "oxm_key OFB_SCTP_SRC = 0x80002200"
  "oxm_key OFB_SCTP_DST = 0x80002400"
  "oxm_key OFB_ICMPV4_TYPE = 0x80002600"
  "oxm_key OFB_ICMPV4_CODE = 0x80002800"
  "oxm_key OFB_ARP_OP = 0x80002a00"
  "oxm_key OFB_ARP_SPA = 0x80002c00"
  "oxm_key OFB_ARP_TPA = 0x80002e00"
  "oxm_key OFB_ARP_SHA = 0x80003000"
  "oxm_key OFB_ARP_THA = 0x80003200"
  "oxm_key OFB_IPV6_SRC = 0x80003400"
  "oxm_key OFB_IPV6_DST = 0x80003600"
  "oxm_key OFB_IPV6_FLABEL = 0x80003800"
  "oxm_key OFB_ICMPV6_TYPE = 0x80003a00"
  "oxm_key OFB_ICMPV6_CODE = 0x80003c00"
  "oxm_key OFB_IPV6_ND_TARGET = 0x80003e00"
  "oxm_key OFB_IPV6_ND_SLL = 0x80004000"
  "oxm_key OFB_IPV6_ND_TLL = 0x80004200"
  "oxm_key OFB_MPLS_LABEL = 0x80004400"
  "oxm_key OFB_MPLS_TC = 0x80004600"
  "oxm_key OFB_MPLS_BOS = 0x80004800"
  "oxm_key OFB_PBB_ISID = 0x80004a00"
  "oxm_key OFB_TUNNEL_ID = 0x80004c00"
  "oxm_key OFB_IPV6_EXTHDR = 0x80004e00"
  "oxm_key OFX_NW_SRC = 0xa1a2a3a4ffff0000"
  "oxm_key OFX_NW_DST = 0xa1a2a3a4ffff0200"
  "oxm_key OFX_NW_PROTO = 0xa1a2a3a4ffff0400"
  "oxm_key OFX_NW_TOS = 0xa1a2a3a4ffff0600"
  "oxm_key OFX_TP_SRC = 0xa1a2a3a4ffff0800"
  "oxm_key OFX_TP_DST = 0xa1a2a3a4ffff0a00"
  by (simp_all add: oxm_key_eval)

lemma keys_sorted: "sorted_wrt (<) (map oxm_key (ofb_fields @ ofx_fields))"
  by (simp add: ofb_fields_def ofx_fields_def oxm_key_values sorted_wrt2_simps del: sorted_wrt.simps)

lemma oxm_key_inj: "oxm_key f = oxm_key g \<longleftrightarrow> f = g"
proof -
  have "distinct (map oxm_key (ofb_fields @ ofx_fields))"
    using keys_sorted strict_sorted_iff by blast
  then have "inj_on oxm_key (set (ofb_fields @ ofx_fields))"
    by (simp only: distinct_map)
  then show ?thesis
    using all_fields by (auto dest: inj_onD)
qed

lemma oxm_of_key_field: "f \<in> set fs \<Longrightarrow> oxm_of_key fs (oxm_key f) = Some f"
  by (induction fs) (auto simp: oxm_of_key_def oxm_key_inj)

lemma oxm_of_key_None: "oxm_of_key fs key = None \<longleftrightarrow> key \<notin> oxm_key ` set fs"
  by (auto simp: oxm_of_key_def find_None_iff)

definition is_ofx :: "oxm_field \<Rightarrow> bool" where
  "is_ofx f \<longleftrightarrow> f \<in> set ofx_fields"

lemma ofb_or_ofx: "\<not> is_ofx f \<Longrightarrow> f \<in> set ofb_fields" "is_ofx f \<Longrightarrow> f \<in> set ofx_fields"
  using all_fields [of f] by (auto simp: is_ofx_def)

lemma rofl_type_ucast: "OXM_ROFL_TYPE (ucast (i :: u32)) = ucast (get_oxm_type i)"
proof -
  have m: "(0x00000000fffffe00 :: u64) = mask 32 AND NOT (mask 9)"
    by (simp add: mask_eq_exp_minus_1)
  show ?thesis
    unfolding OXM_ROFL_TYPE_def oxm_header_defs m
    by (rule bit_word_eqI) (auto simp: bit_simps dest: bit_imp_le_length)
qed

lemma oxm_key_ofb: "\<not> is_ofx f \<Longrightarrow> oxm_key f = ucast (get_oxm_type (oxm_tlv f))"
  by (simp add: oxm_key_def is_ofx_def OXM_ROFL_OFB_TYPE_def rofl_type_ucast)

lemma oxm_key_ofx: "is_ofx f \<Longrightarrow> oxm_key f = OXM_EXPR_OFX_TYPE ROFL_EXP_ID (oxm_tlv f)"
  by (simp add: oxm_key_def is_ofx_def)

lemma expr_type_cong: "get_oxm_type i = get_oxm_type j \<Longrightarrow> OXM_EXPR_OFX_TYPE w i = OXM_EXPR_OFX_TYPE w j"
  by (simp add: OXM_EXPR_OFX_TYPE_def rofl_type_ucast)

lemma oxm_class_field: "get_oxm_class (oxm_tlv f) = (if is_ofx f then 0xffff else 0x8000)"
  by (cases f) (simp_all add: is_ofx_def ofx_fields_def get_oxm_class_def OXM_TLV_BASIC_def OXM_TLV_EXPR_def)

lemma de16_class: "de16 a b = get_oxm_class (de32 a b c d)"
  unfolding oxm_header_defs de16_def de32_def
  by (rule bit_word_eqI) (auto simp: bit_simps dest: bit_imp_le_length)

end
