(* ===== verification/Coxmatches_Wire.thy ===== *)
theory Coxmatches_Wire
  imports Coxmatches
begin

text \<open>
  What lists of match fields promise: packing and unpacking are inverse to each other, also when
  padding follows; the comparison operations look at header words only, or at the wrong keys.
\<close>

section \<open>One element\<close>

primrec coxmatch_ok :: "coxmatch \<Rightarrow> bool" where
  "coxmatch_ok (Coxmatch_8 m) \<longleftrightarrow> True"
| "coxmatch_ok (Coxmatch_16 m) \<longleftrightarrow> True"
| "coxmatch_ok (Coxmatch_24 m) \<longleftrightarrow>
     take_bit 24 (oxm_value m) = oxm_value m \<and> (get_oxm_hasmask (oxm_id m) \<longrightarrow> take_bit 24 (oxm_mask m) = oxm_mask m)"
| "coxmatch_ok (Coxmatch_32 m) \<longleftrightarrow> True"
| "coxmatch_ok (Coxmatch_48 m) \<longleftrightarrow>
     take_bit 48 (oxm_value m) = oxm_value m \<and> (get_oxm_hasmask (oxm_id m) \<longrightarrow> take_bit 48 (oxm_mask m) = oxm_mask m)"
| "coxmatch_ok (Coxmatch_64 m) \<longleftrightarrow> True"
| "coxmatch_ok (Coxmatch_128 m) \<longleftrightarrow> length (oxm_value m) = 16 \<and> (get_oxm_hasmask (oxm_id m) \<longrightarrow> length (oxm_mask m) = 16)"
| "coxmatch_ok (Coxmatch_exp m) \<longleftrightarrow> exp_ok m"

text \<open>What a fresh object \<open>m0\<close> holds after unpacking what \<open>m\<close> was packed to.\<close>

fun coxmatch_canon :: "coxmatch \<Rightarrow> coxmatch \<Rightarrow> coxmatch option" where
  "coxmatch_canon (Coxmatch_8 m0) (Coxmatch_8 m) = Some (Coxmatch_8 (oxm_canon 1 (\<lambda>_. 0xff) (oxm_mask m0) m))"
| "coxmatch_canon (Coxmatch_16 m0) (Coxmatch_16 m) = Some (Coxmatch_16 (oxm_canon 2 (\<lambda>_. 0xffff) (oxm_mask m0) m))"
| "coxmatch_canon (Coxmatch_24 m0) (Coxmatch_24 m) = Some (Coxmatch_24 (oxm_canon 3 (\<lambda>_. 0xffffff) (oxm_mask m0) m))"
| "coxmatch_canon (Coxmatch_32 m0) (Coxmatch_32 m) = Some (Coxmatch_32 (oxm_canon 4 (\<lambda>_. 0xffffffff) (oxm_mask m0) m))"
| "coxmatch_canon (Coxmatch_48 m0) (Coxmatch_48 m) =
     Some (Coxmatch_48 (oxm_canon 6 (\<lambda>_. 0xffffffffffffffff) (oxm_mask m0) m))"
| "coxmatch_canon (Coxmatch_64 m0) (Coxmatch_64 m) =
     Some (Coxmatch_64 (oxm_canon 8 (\<lambda>_. 0xffffffffffffffff) (oxm_mask m0) m))"
| "coxmatch_canon (Coxmatch_128 m0) (Coxmatch_128 m) = Some (Coxmatch_128 (oxm_canon 16 (\<lambda>k. k) (oxm_mask m0) m))"
| "coxmatch_canon (Coxmatch_exp m0) (Coxmatch_exp m) =
     Some (Coxmatch_exp (m\<lparr>oxm_mask := (if get_oxm_hasmask (oxm_id m) then oxm_mask m
                                        else replicate (length (oxm_mask m0)) 0)\<rparr>))"
| "coxmatch_canon _ _ = None"

lemma map_prod_id_eq: "map_prod f id p = (x, y) \<longleftrightarrow> (\<exists>a. p = (a, y) \<and> x = f a)"
  by (cases p) auto

lemma coxmatch_unpack_pack:
  assumes "coxmatch_ok m" "coxmatch_canon m0 m = Some mc" "coxmatch_pack buflen m = (m', Inr bytes)"
  shows "coxmatch_unpack (bytes @ rest) m0 = (mc, None)"
  using assms
  by (cases "(m0, m)" rule: coxmatch_canon.cases)
    (auto simp del: One_nat_def simp: coxmatch_class_defs map_prod_id_eq exp_unpack_pack
      intro: oxm8.unpack_pack oxm16.unpack_pack oxm24.unpack_pack oxm32.unpack_pack oxm48.unpack_pack oxm64.unpack_pack
      oxm128.unpack_pack)

lemma coxmatch_pack_header:
  assumes "coxmatch_pack buflen m = (m', Inr bytes)" "coxmatch_ok m"
  shows "take 4 bytes = be32 (coxmatch_id m') \<and> get_oxm_type (coxmatch_id m') = get_oxm_type (coxmatch_id m) \<and>
    unat (bytes ! 3) + 4 = length bytes \<and> coxmatch_length m = Inr (length bytes)"
proof (cases "\<exists>e. m = Coxmatch_exp e")
  case True
  then obtain e where e: "m = Coxmatch_exp e" ..
  with assms have "exp_ok e" "exp_pack buflen e = Inr bytes" "m' = m"
    by auto
  then show ?thesis
    using exp_unpack_pack(2,3) [of e buflen bytes] e
    by (auto simp: exp_pack_def exp_length_def split: if_splits)
next
  case False
  then show ?thesis
    using assms
    by (cases m) (auto simp del: One_nat_def simp: coxmatch_class_defs map_prod_id_eq
        dest: oxm8.pack_facts oxm16.pack_facts oxm24.pack_facts oxm32.pack_facts oxm48.pack_facts oxm64.pack_facts
          oxm128.pack_facts)
qed

lemma coxmatch_pack_total:
  assumes "coxmatch_length m = Inr n" "n \<le> buflen"
  shows "\<exists>m' bytes. coxmatch_pack buflen m = (m', Inr bytes)"
  using assms
  by (cases m) (auto simp: coxmatch_class_defs oxm_pack_def exp_pack_def Let_def)

lemma coxmatch_length_ok: "coxmatch_ok m \<Longrightarrow> \<exists>n. coxmatch_length m = Inr n"
  by (cases m) (auto simp: exp_ok_def exp_length_def)

section \<open>A list of elements\<close>

text \<open>
  An entry as the accessors leave it: its key belongs to its class, and its header has the type of
  the class.  Packet registers are left out: \<open>unpack\<close> does not know their class.
\<close>

fun entry_ok :: "u64 \<times> oxm_cls \<times> coxmatch \<Rightarrow> bool" where
  "entry_ok (k, Cls f, m) \<longleftrightarrow>
     k = oxm_key f \<and> coxmatch_ok m \<and> coxmatch_canon (oxm_added f) m \<noteq> None \<and>
     get_oxm_type (coxmatch_id m) = get_oxm_type (oxm_tlv f) \<and>
     (case m of Coxmatch_exp e \<Rightarrow> oxm_exp_id e = ROFL_EXP_ID | _ \<Rightarrow> True)"
| "entry_ok (k, Cls_exp, Coxmatch_exp e) \<longleftrightarrow>
     k = OXM_EXPR_OFX_TYPE (oxm_exp_id e) (oxm_id e) \<and> exp_ok e \<and> get_oxm_class (oxm_id e) = 0xffff \<and>
     k \<notin> oxm_key ` set ofx_fields"
| "entry_ok _ \<longleftrightarrow> False"

fun fresh_match :: "oxm_cls \<Rightarrow> coxmatch \<Rightarrow> coxmatch" where
  "fresh_match (Cls f) m = oxm_added f"
| "fresh_match _ (Coxmatch_exp e) = Coxmatch_exp (exp_new (oxm_id e) (oxm_exp_id e))"
| "fresh_match _ m = m"

fun canon_entry :: "u64 \<times> oxm_cls \<times> coxmatch \<Rightarrow> u64 \<times> oxm_cls \<times> coxmatch" where
  "canon_entry (k, c, m) = (k, c, the (coxmatch_canon (fresh_match c m) m))"

lemma fst_canon_entry [simp]: "fst (canon_entry e) = fst e"
  by (cases e) simp

lemma canon_exp: "is_ofx f \<Longrightarrow> coxmatch_canon (oxm_added f) m \<noteq> None \<Longrightarrow> \<exists>e. m = Coxmatch_exp e"
  by (cases f; cases m) (simp_all add: is_ofx_def ofx_fields_def ofx_new_def ofx_new_masked_def)

lemma header_bytes:
  assumes "take 4 bytes = be32 i"
  shows "de32 ((bytes @ tail) ! 0) ((bytes @ tail) ! 1) ((bytes @ tail) ! 2) ((bytes @ tail) ! 3) = i"
    "de16 ((bytes @ tail) ! 0) ((bytes @ tail) ! 1) = get_oxm_class i"
proof -
  have "length (take 4 bytes) = 4"
    by (simp add: assms)
  then have "4 \<le> length bytes"
    by simp
  then have "take 4 (bytes @ tail) = be32 i"
    using assms by simp
  then have "(bytes @ tail) ! j = be32 i ! j" if "j < 4" for j
    using that by (metis nth_take)
  then show "de32 ((bytes @ tail) ! 0) ((bytes @ tail) ! 1) ((bytes @ tail) ! 2) ((bytes @ tail) ! 3) = i"
    by (simp add: be32_def)
  then show "de16 ((bytes @ tail) ! 0) ((bytes @ tail) ! 1) = get_oxm_class i"
    by (metis de16_class)
qed

lemma exp_pack_header:
  assumes "exp_pack buflen e = Inr bytes"
  shows "8 \<le> length bytes"
    "de32 ((bytes @ tail) ! 4) ((bytes @ tail) ! 5) ((bytes @ tail) ! 6) ((bytes @ tail) ! 7) = oxm_exp_id e"
  using assms by (auto simp: exp_pack_def be32_def split: sum.splits if_splits)

lemma unpack_entry:
  assumes ok: "entry_ok (k, c, m)" and pack: "coxmatch_pack buflen m = (m', Inr bytes)"
  shows "unpack_match (bytes @ tail) ms = (map_put k (c, the (coxmatch_canon (fresh_match c m) m)) ms, None)"
proof -
  have okm: "coxmatch_ok m"
    using ok by (cases c; cases m) auto
  note H = coxmatch_pack_header [OF pack okm]
  have ty: "get_oxm_type (coxmatch_id m') = get_oxm_type (coxmatch_id m)"
    using H by simp
  have hdr: "de32 ((bytes @ tail) ! 0) ((bytes @ tail) ! 1) ((bytes @ tail) ! 2) ((bytes @ tail) ! 3) = coxmatch_id m'"
    "de16 ((bytes @ tail) ! 0) ((bytes @ tail) ! 1) = get_oxm_class (coxmatch_id m')"
    using H header_bytes by blast+
  have cls: "get_oxm_class (coxmatch_id m') = get_oxm_class (coxmatch_id m)"
    by (metis ty oxm_class_of_type)
  have un: "coxmatch_unpack (bytes @ tail) m0 = (the (coxmatch_canon m0 m), None)" if "coxmatch_canon m0 m \<noteq> None" for m0
    using that coxmatch_unpack_pack [OF okm _ pack] by auto
  show ?thesis
  proof (cases c)
    case (Cls f)
    have canon: "coxmatch_canon (oxm_added f) m \<noteq> None"
      and tyf: "get_oxm_type (coxmatch_id m) = get_oxm_type (oxm_tlv f)" and k: "k = oxm_key f"
      using ok Cls by simp_all
    have clsf: "get_oxm_class (coxmatch_id m') = (if is_ofx f then 0xffff else 0x8000)"
      by (metis cls tyf oxm_class_of_type oxm_class_field)
    show ?thesis
    proof (cases "is_ofx f")
      case False
      have "OXM_ROFL_TYPE (ucast (coxmatch_id m')) = oxm_key f"
        using False ty tyf by (simp add: rofl_type_ucast oxm_key_ofb)
      then show ?thesis
        using False un [OF canon] Cls k ofb_or_ofx(1) [OF False]
        by (simp del: One_nat_def add: unpack_match_def Let_def hdr clsf oxm_of_key_field unpack_into_def)
    next
      case True
      obtain e where e: "m = Coxmatch_exp e" "oxm_exp_id e = ROFL_EXP_ID"
        using canon_exp [OF True canon] ok Cls by auto
      with pack have pe: "exp_pack buflen e = Inr bytes"
        by auto
      have "OXM_EXPR_OFX_TYPE ROFL_EXP_ID (coxmatch_id m') = oxm_key f"
        using ty tyf expr_type_cong oxm_key_ofx [OF True] by metis
      then show ?thesis
        using True un [OF canon] Cls k ofb_or_ofx(2) [OF True] exp_pack_header [OF pe] e
        by (simp del: One_nat_def add: unpack_match_def Let_def hdr clsf oxm_of_key_field unpack_into_def)
    qed
  next
    case Cls_exp
    obtain e where e: "m = Coxmatch_exp e"
      using ok Cls_exp by (cases m) auto
    have k: "k = OXM_EXPR_OFX_TYPE (oxm_exp_id e) (oxm_id e)" "get_oxm_class (coxmatch_id m') = 0xffff"
      "oxm_of_key ofx_fields k = None" "m' = m"
      using ok Cls_exp e cls pack by (auto simp: oxm_of_key_None)
    from e pack have pe: "exp_pack buflen e = Inr bytes"
      by auto
    show ?thesis
      using k un [of "Coxmatch_exp (exp_new (oxm_id e) (oxm_exp_id e))"] exp_pack_header [OF pe] e Cls_exp
      by (simp del: One_nat_def add: unpack_match_def Let_def hdr unpack_into_def)
  next
    case Cls_packet_register
    then show ?thesis
      using ok by simp
  qed
qed

lemma map_wf_middle:
  "map_wf (acc @ (k, v) # ms) \<Longrightarrow> map_put k w acc = acc @ [(k, w)]"
  by (rule map_put_above) (auto simp: map_wf_def sorted_wrt_append)

lemma map_wf_keys: "map_wf (xs :: ('k::linorder \<times> 'v) list) \<Longrightarrow> map fst ys = map fst xs \<Longrightarrow> map_wf (ys :: ('k \<times> 'w) list)"
  by (simp add: map_wf_def)

lemma pack_unpack_matches:
  assumes "list_all entry_ok ms" "map_wf (acc @ ms)" "coxmatches_length ms = Inr n" "n \<le> length buf"
  shows "\<exists>ms' out. pack_matches buf ms = (ms', Inr (out @ drop n buf)) \<and> length out = n \<and>
    (\<forall>tail. unpack_matches (out @ tail) acc = unpack_matches tail (acc @ map canon_entry ms))"
  using assms
proof (induction ms arbitrary: acc n buf)
  case Nil
  then show ?case by simp
next
  case (Cons e ms)
  obtain k c m where e: "e = (k, c, m)"
    by (cases e) auto
  obtain l n' where l: "coxmatch_length m = Inr l" "coxmatches_length ms = Inr n'" "n = l + n'"
    using Cons.prems(3) e by (auto split: sum.splits)
  have ok: "entry_ok (k, c, m)"
    using Cons.prems(1) e by simp
  then have okm: "coxmatch_ok m"
    by (cases c; cases m) auto
  obtain m' bytes where pack: "coxmatch_pack l m = (m', Inr bytes)"
    using coxmatch_pack_total [OF l(1)] by blast
  have lb: "length bytes = l" "unat (bytes ! 3) + 4 = l" "take 4 bytes = be32 (coxmatch_id m')"
    using coxmatch_pack_header [OF pack okm] l(1) by auto
  have put: "map_put k w acc = acc @ [(k, w)]" for w
    using map_wf_middle Cons.prems(2) e by simp
  have wf: "map_wf ((acc @ [canon_entry e]) @ ms)"
    by (rule map_wf_keys [OF Cons.prems(2)]) simp
  obtain ms' out where IH: "pack_matches (drop l buf) ms = (ms', Inr (out @ drop n' (drop l buf)))" "length out = n'"
    "\<And>tail. unpack_matches (out @ tail) (acc @ [canon_entry e]) = unpack_matches tail ((acc @ [canon_entry e]) @ map canon_entry ms)"
  proof -
    have "list_all entry_ok ms" "n' \<le> length (drop l buf)"
      using Cons.prems(1,4) l(3) by auto
    from Cons.IH [OF this(1) wf l(2) this(2)] show ?thesis
      using that by blast
  qed
  have "pack_matches buf (e # ms) = ((k, c, m') # ms', Inr ((bytes @ out) @ drop n buf))"
    using l pack lb(1) IH(1) Cons.prems(4) by (simp add: e add.commute)
  moreover have "unpack_matches ((bytes @ out) @ tail) acc = unpack_matches tail (acc @ map canon_entry (e # ms))" for tail
  proof -
    have "\<not> length (bytes @ out @ tail) < 4" "4 + unat ((bytes @ out @ tail) ! 3) = l"
      using lb by (auto simp: nth_append)
    then show ?thesis
      using IH(3) [of tail] lb(1) unpack_entry [OF ok pack, of "out @ tail" acc] put
      by (subst unpack_matches.simps) (simp add: e)
  qed
  ultimately show ?case
    using lb(1) IH(2) l(3) by (intro exI [of _ "(k, c, m') # ms'"] exI [of _ "bytes @ out"]) simp
qed

text \<open>Padding: fewer than eight zero bytes hold at most one element, of class zero.\<close>

lemma unpack_padding:
  assumes "p < 8"
  shows "unpack_matches (replicate p 0) ms = (ms, None)"
proof (cases "p < 4")
  case True
  then show ?thesis by (simp add: unpack_matches.simps)
next
  case False
  have "unpack_match (replicate p 0) ms = (ms, None)"
    using False by (simp add: unpack_match_def de16_def)
  then show ?thesis
    using False assms by (subst unpack_matches.simps, subst unpack_matches.simps) auto
qed

section \<open>Copying\<close>

text \<open>Entries that \<open>copy_matches\<close> knows, and packet registers.\<close>

fun copy_ok :: "u64 \<times> oxm_cls \<times> coxmatch \<Rightarrow> bool" where
  "copy_ok (k, Cls f, m) \<longleftrightarrow> k = oxm_key f"
| "copy_ok (k, Cls_exp, Coxmatch_exp e) \<longleftrightarrow>
     k = OXM_EXPR_OFX_TYPE (oxm_exp_id e) (oxm_id e) \<and> get_oxm_class (oxm_id e) = 0xffff \<and> k \<notin> range oxm_key"
| "copy_ok (k, Cls_packet_register, m) \<longleftrightarrow> (\<exists>n. k = OXM_ROFL_OFB_TYPE (OXM_TLV_PKTREG n))"
| "copy_ok _ \<longleftrightarrow> False"

lemma oxm_of_key_all: "oxm_of_key (ofb_fields @ ofx_fields) (oxm_key f) = Some f"
  by (rule oxm_of_key_field) (rule all_fields)

lemma oxm_of_key_all_None: "key \<notin> range oxm_key \<Longrightarrow> oxm_of_key (ofb_fields @ ofx_fields) key = None"
  unfolding oxm_of_key_None by auto

lemma expr_type_parts:
  "ucast (drop_bit 32 (OXM_EXPR_OFX_TYPE w i)) = w"
  "get_oxm_type (ucast (OXM_EXPR_OFX_TYPE w i AND 0x00000000fffffe00)) = get_oxm_type i"
  "OXM_ROFL_CLASS (OXM_EXPR_OFX_TYPE w i) = push_bit 16 (ucast (get_oxm_class i))"
proof -
  have m: "(0x00000000fffffe00 :: u64) = mask 32 AND NOT (mask 9)" "(0x00000000ffff0000 :: u64) = mask 32 AND NOT (mask 16)"
    by (simp_all add: mask_eq_exp_minus_1)
  note defs = OXM_EXPR_OFX_TYPE_def OXM_ROFL_CLASS_def rofl_type_ucast oxm_header_defs m
  show "ucast (drop_bit 32 (OXM_EXPR_OFX_TYPE w i)) = w"
    unfolding defs by (rule bit_word_eqI) (auto simp: bit_simps dest: bit_imp_le_length)
  show "get_oxm_type (ucast (OXM_EXPR_OFX_TYPE w i AND 0x00000000fffffe00)) = get_oxm_type i"
    unfolding defs by (rule bit_word_eqI) (auto simp: bit_simps dest: bit_imp_le_length)
  show "OXM_ROFL_CLASS (OXM_EXPR_OFX_TYPE w i) = push_bit 16 (ucast (get_oxm_class i))"
    unfolding defs by (rule bit_word_eqI) (auto simp: bit_simps dest: bit_imp_le_length)
qed

lemma pktreg_class: "get_oxm_class (OXM_TLV_PKTREG n) = 0x8001"
proof -
  have "drop_bit 7 (ucast n :: u32) = of_bool (bit n 7)"
  proof (rule bit_word_eqI)
    fix m
    show "bit (drop_bit 7 (ucast n :: u32)) m = bit (of_bool (bit n 7) :: u32) m"
      using bit_imp_le_length [of n "7 + m"] by (cases "m = 0") (auto simp: bit_simps bit_of_bool_iff)
  qed
  moreover have "get_oxm_class (OXM_TLV_PKTREG n) = ucast ((0x8001 :: u32) OR drop_bit 7 (ucast n))"
  proof -
    have "drop_bit 16 (OXM_TLV_PKTREG n AND NOT (mask 16)) = (0x8001 :: u32) OR drop_bit 7 (ucast n)"
    proof -
      have high: "drop_bit 16 (x AND NOT (mask 16)) = drop_bit 16 x" for x :: u32
        by (rule bit_word_eqI) (auto simp: bit_simps dest: bit_imp_le_length)
      have "drop_bit 16 (push_bit 9 (ucast n :: u32)) = drop_bit 7 (ucast n)"
        by (rule bit_word_eqI) (auto simp: bit_simps dest: bit_imp_le_length)
      then have "drop_bit 16 (OXM_TLV_PKTREG n) = (0x8001 :: u32) OR drop_bit 7 (ucast n)"
        by (simp add: OXM_TLV_PKTREG_def drop_bit_or)
      then show ?thesis
        by (simp only: high)
    qed
    then show ?thesis
      by (simp add: oxm_header_defs)
  qed
  ultimately show ?thesis
    by auto
qed

lemma ofb_type_expr: "OXM_ROFL_OFB_TYPE i = OXM_EXPR_OFX_TYPE 0 i"
  by (simp add: OXM_ROFL_OFB_TYPE_def OXM_EXPR_OFX_TYPE_def)

lemma oxm_key_class: "OXM_ROFL_CLASS (oxm_key f) = (if is_ofx f then 0xffff0000 else 0x80000000)"
proof -
  have "oxm_key f = OXM_EXPR_OFX_TYPE (if is_ofx f then ROFL_EXP_ID else 0) (oxm_tlv f)"
    by (simp add: oxm_key_def is_ofx_def ofb_type_expr)
  then show ?thesis
    by (simp add: expr_type_parts(3) oxm_class_field)
qed

lemma pktreg_key: "OXM_ROFL_OFB_TYPE (OXM_TLV_PKTREG n) \<notin> range oxm_key"
    "OXM_ROFL_CLASS (OXM_ROFL_OFB_TYPE (OXM_TLV_PKTREG n)) = 0x80010000"
proof -
  show *: "OXM_ROFL_CLASS (OXM_ROFL_OFB_TYPE (OXM_TLV_PKTREG n)) = 0x80010000"
    by (simp add: ofb_type_expr expr_type_parts(3) pktreg_class)
  show "OXM_ROFL_OFB_TYPE (OXM_TLV_PKTREG n) \<notin> range oxm_key"
  proof
    assume "OXM_ROFL_OFB_TYPE (OXM_TLV_PKTREG n) \<in> range oxm_key"
    then obtain f where "OXM_ROFL_OFB_TYPE (OXM_TLV_PKTREG n) = oxm_key f"
      by auto
    with * oxm_key_class [of f] show False
      by (simp split: if_splits)
  qed
qed

definition known_entries :: "coxmatches \<Rightarrow> coxmatches" where
  "known_entries ms = filter (\<lambda>(k, c, m). c \<noteq> Cls_packet_register) ms"

lemma copy_ids_spec:
  assumes "list_all copy_ok ms" "set ms \<subseteq> set oxms" "map_wf oxms" "map_wf (acc @ ms)"
  shows "copy_ids (map fst ms) oxms acc = (acc @ known_entries ms, None)"
  using assms
proof (induction ms arbitrary: acc)
  case Nil
  then show ?case by (simp add: known_entries_def)
next
  case (Cons e ms)
  obtain k c m where e: "e = (k, c, m)"
    by (cases e) auto
  have look: "map_of oxms k = Some (c, m)"
    using Cons.prems(2,3) e map_wf_distinct by (intro map_of_is_SomeI) auto
  have put: "map_put k w acc = acc @ [(k, w)]" for w
    using map_wf_middle Cons.prems(4) e by simp
  have IH: "copy_ids (map fst ms) oxms (acc @ [e]) = (acc @ e # known_entries ms, None)"
    using Cons.IH [of "acc @ [e]"] Cons.prems by simp
  show ?case
  proof (cases c)
    case (Cls f)
    then have "k = oxm_key f"
      using Cons.prems(1) e by simp
    with Cls look put IH show ?thesis
      by (simp add: e oxm_of_key_all get_oxm_def add_oxm_def known_entries_def)
  next
    case Cls_exp
    obtain x where x: "m = Coxmatch_exp x"
      using Cons.prems(1) e Cls_exp by (cases m) auto
    have k: "k = OXM_EXPR_OFX_TYPE (oxm_exp_id x) (oxm_id x)" "get_oxm_class (oxm_id x) = 0xffff" "k \<notin> range oxm_key"
      using Cons.prems(1) unfolding e Cls_exp x by auto
    have parts: "ucast (drop_bit 32 k) = oxm_exp_id x" "OXM_ROFL_CLASS k = push_bit 16 0xffff"
      "OXM_EXPR_OFX_TYPE (oxm_exp_id x) (ucast (k AND 0x00000000fffffe00)) = k"
      using k(2) by (simp_all add: k(1) expr_type_parts(1,3)) (rule expr_type_cong, rule expr_type_parts(2))
    show ?thesis
      using Cls_exp look put IH parts oxm_of_key_all_None [OF k(3)]
      by (simp add: e x Let_def get_exp_match_def add_exp_match_def known_entries_def)
  next
    case Cls_packet_register
    then obtain n where k: "k = OXM_ROFL_OFB_TYPE (OXM_TLV_PKTREG n)"
      using Cons.prems(1) e by auto
    have "map_wf (acc @ ms)"
      using Cons.prems(4) by (simp add: map_wf_def sorted_wrt_append)
    then have "copy_ids (map fst ms) oxms acc = (acc @ known_entries ms, None)"
      using Cons.IH [of acc] Cons.prems by simp
    then show ?thesis
      using Cls_packet_register pktreg_key [of n] oxm_of_key_all_None
      by (simp add: e k known_entries_def)
  qed
qed

section \<open>What an element says\<close>

text \<open>Type, mask flag, value and mask of an element, without the length field and without a mask that is not used.\<close>

definition oxm_data :: "('v \<Rightarrow> byte list) \<Rightarrow> ('v, 'x) oxm_scheme \<Rightarrow> u32 \<times> bool \<times> byte list \<times> byte list" where
  "oxm_data enc m =
     (get_oxm_type (oxm_id m), get_oxm_hasmask (oxm_id m), enc (oxm_value m),
      if get_oxm_hasmask (oxm_id m) then enc (oxm_mask m) else [])"

primrec coxmatch_data :: "coxmatch \<Rightarrow> u32 \<times> bool \<times> byte list \<times> byte list" where
  "coxmatch_data (Coxmatch_8 m) = oxm_data (be_bytes 1) m"
| "coxmatch_data (Coxmatch_16 m) = oxm_data (be_bytes 2) m"
| "coxmatch_data (Coxmatch_24 m) = oxm_data (be_bytes 3) m"
| "coxmatch_data (Coxmatch_32 m) = oxm_data (be_bytes 4) m"
| "coxmatch_data (Coxmatch_48 m) = oxm_data (be_bytes 6) m"
| "coxmatch_data (Coxmatch_64 m) = oxm_data (be_bytes 8) m"
| "coxmatch_data (Coxmatch_128 m) = oxm_data (\<lambda>v. v) m"
| "coxmatch_data (Coxmatch_exp m) = oxm_data (\<lambda>v. v) m"

definition entry_data :: "u64 \<times> oxm_cls \<times> coxmatch \<Rightarrow> u64 \<times> oxm_cls \<times> u32 \<times> bool \<times> byte list \<times> byte list" where
  "entry_data e = (case e of (k, c, m) \<Rightarrow> (k, c, coxmatch_data m))"

lemma oxm_data_canon: "oxm_data enc (oxm_canon n nomask m0 m) = oxm_data enc m"
  by (simp add: oxm_data_def oxm_canon_def Let_def)

lemma oxm_data_mask: "oxm_data enc (m\<lparr>oxm_mask := (if get_oxm_hasmask (oxm_id m) then oxm_mask m else k)\<rparr>) = oxm_data enc m"
  by (simp add: oxm_data_def)

lemma coxmatch_data_canon: "coxmatch_canon m0 m = Some mc \<Longrightarrow> coxmatch_data mc = coxmatch_data m"
  by (cases "(m0, m)" rule: coxmatch_canon.cases) (auto simp del: if_split simp: oxm_data_canon oxm_data_mask)

lemma entry_ok_canon: "entry_ok (k, c, m) \<Longrightarrow> \<exists>mc. coxmatch_canon (fresh_match c m) m = Some mc"
  by (cases c; cases m) auto

lemma entry_data_canon: "entry_ok e \<Longrightarrow> entry_data (canon_entry e) = entry_data e"
  using entry_ok_canon coxmatch_data_canon by (cases e) (force simp: entry_data_def)

lemma entries_length: "list_all entry_ok ms \<Longrightarrow> \<exists>n. coxmatches_length ms = Inr n"
proof (induction ms)
  case Nil
  then show ?case by simp
next
  case (Cons e ms)
  obtain k c m where e: "e = (k, c, m)"
    by (cases e) auto
  have "coxmatch_ok m"
    using Cons.prems e by (cases c; cases m) auto
  then obtain n n' where "coxmatch_length m = Inr n" "coxmatches_length ms = Inr n'"
    using Cons coxmatch_length_ok by fastforce
  then show ?case
    by (simp add: e)
qed

section \<open>The promises\<close>

lemma coxmatches_roundtrip_exact:
  assumes "list_all entry_ok ms" "map_wf ms"
  shows "\<exists>n. coxmatches_length ms = Inr n \<and>
    (\<forall>buf p old. n \<le> length buf \<longrightarrow> p < 8 \<longrightarrow>
      (\<exists>ms1 out ms2. coxmatches_pack buf ms = (ms1, Inr (out @ drop n buf)) \<and> length out = n \<and>
         coxmatches_unpack (out @ replicate p 0) old = (ms2, None) \<and> map entry_data ms2 = map entry_data ms))"
proof -
  obtain n where n: "coxmatches_length ms = Inr n"
    using entries_length [OF assms(1)] by blast
  have data: "map entry_data (map canon_entry ms) = map entry_data ms"
    using assms(1) entry_data_canon by (auto simp: list_all_iff)
  have "\<exists>ms1 out ms2. coxmatches_pack buf ms = (ms1, Inr (out @ drop n buf)) \<and> length out = n \<and>
      coxmatches_unpack (out @ replicate p 0) old = (ms2, None) \<and> map entry_data ms2 = map entry_data ms"
    if "n \<le> length buf" "p < 8" for buf p and old :: coxmatches
  proof -
    have "map_wf ([] @ ms)"
      using assms(2) by simp
    from pack_unpack_matches [OF assms(1) this n that(1)]
    obtain ms1 out where "pack_matches buf ms = (ms1, Inr (out @ drop n buf))" "length out = n"
      "\<forall>tail. unpack_matches (out @ tail) [] = unpack_matches tail ([] @ map canon_entry ms)"
      by blast
    then show ?thesis
      using n that unpack_padding [OF that(2)] data
      by (intro exI [of _ ms1] exI [of _ out] exI [of _ "map canon_entry ms"])
        (simp add: coxmatches_pack_def coxmatches_unpack_def)
  qed
  with n show ?thesis
    by auto
qed

text \<open>
  C14: round trip of match fields.  A list whose entries fit their classes has a length, is packed to
  that many bytes of any buffer that is long enough, and leaves the rest of the buffer alone; unpacking
  the bytes, followed by padding of up to seven zero bytes, replaces whatever the list held by entries
  of the same keys, classes, types, values and masks.
\<close>

theorem coxmatches_roundtrip:
  assumes "list_all entry_ok ms" "map_wf ms"
  shows "\<exists>n. coxmatches_length ms = Inr n \<and>
    (\<forall>buf p old. n \<le> length buf \<longrightarrow> p < 8 \<longrightarrow>
      (\<exists>ms1 out ms2. coxmatches_pack buf ms = (ms1, Inr (out @ drop n buf)) \<and> length out = n \<and>
         coxmatches_unpack (out @ replicate p 0) old = (ms2, None) \<and> map entry_data ms2 = map entry_data ms))"
  using assms by (rule coxmatches_roundtrip_exact)

definition oxms_example :: coxmatches where
  "oxms_example =
     [(0x80000000, Cls OFB_IN_PORT, ofb32_new OFB_IN_PORT 7),
      (0x80000a00, Cls OFB_ETH_TYPE, ofb16_new OFB_ETH_TYPE 0x800),
      (0x80001600, Cls OFB_IPV4_SRC, ofb32_new_masked OFB_IPV4_SRC 0x0a000000 0xff000000)]"

lemmas oxm_new_defs = ofb8_new_def ofb16_new_def ofb16_new_masked_def ofb32_new_def ofb32_new_masked_def ofb48_new_def
  oxm_new_def oxm_new_masked_def

lemma oxms_example_ok: "list_all entry_ok oxms_example" "map_wf oxms_example"
  by (simp_all add: oxms_example_def oxm_key_values oxm_new_defs map_wf_def HAS_MASK_FLAG_def OXM_TLV_BASIC_def
      get_oxm_type_def set_oxm_hasmask_def)

theorem coxmatches_roundtrip_witness:
  "list_all entry_ok oxms_example \<and> map_wf oxms_example \<and>
   (\<exists>n. coxmatches_length oxms_example = Inr n \<and>
     (\<forall>buf p old. n \<le> length buf \<longrightarrow> p < 8 \<longrightarrow>
       (\<exists>ms1 out ms2. coxmatches_pack buf oxms_example = (ms1, Inr (out @ drop n buf)) \<and> length out = n \<and>
          coxmatches_unpack (out @ replicate p 0) old = (ms2, None) \<and>
          map entry_data ms2 = map entry_data oxms_example)))"
  using oxms_example_ok coxmatches_roundtrip [OF oxms_example_ok] by blast

text \<open>
  Copying match lists.  Assignment copies every element that has a class of its own and every
  experimenter element, with header, value and mask, and nothing else: packet registers get lost.
\<close>

theorem copy_loses_packet_registers:
  assumes "list_all copy_ok ms" "map_wf ms"
  shows "coxmatches_assign ms old = (known_entries ms, None)"
  using copy_ids_spec [OF assms(1) subset_refl assms(2), of "[]"] assms(2)
  by (simp add: coxmatches_assign_def copy_matches_def get_ids_def coxmatches_clear_def)

theorem copy_loses_packet_registers_example:
  "coxmatches_assign [(0x80000000, Cls OFB_IN_PORT, ofb32_new OFB_IN_PORT 7),
       (OXM_ROFL_OFB_TYPE (OXM_TLV_PKTREG 3), Cls_packet_register, Coxmatch_64 (oxm_new 0 (OXM_TLV_PKTREG 3) 9))] [] =
     ([(0x80000000, Cls OFB_IN_PORT, ofb32_new OFB_IN_PORT 7)], None)"
proof -
  have "OXM_ROFL_OFB_TYPE (OXM_TLV_PKTREG 3) = 0x80010600"
    by (simp add: OXM_ROFL_OFB_TYPE_def OXM_ROFL_TYPE_def OXM_TLV_PKTREG_def)
  then show ?thesis
    by (subst copy_loses_packet_registers) (auto simp: oxm_key_values map_wf_def known_entries_def)
qed

lemma coxmatches_eq_exact:
  assumes "map_wf ms" "map_wf oxms"
  shows "coxmatches_eq ms oxms \<longleftrightarrow>
    map (\<lambda>(k, c, m). (k, coxmatch_id m)) ms = map (\<lambda>(k, c, m). (k, coxmatch_id m)) oxms"
proof -
  let ?f = "\<lambda>(k, c, m). (k, coxmatch_id m)"
  have wf: "map_wf (map ?f xs)" if "map_wf xs" for xs :: coxmatches
    using that by (rule map_wf_keys) (auto simp: case_prod_beta)
  have look: "map_of (map ?f xs) k = map_option (\<lambda>(c, m). coxmatch_id m) (map_of xs k)" for xs :: coxmatches and k
    by (induction xs) auto
  show ?thesis
  proof
    assume eq: "coxmatches_eq ms oxms"
    have sub: "map_of (map ?f oxms) k = Some (coxmatch_id m)" if "(k, c, m) \<in> set ms" for k c m
      using eq that by (fastforce simp: coxmatches_eq_def list_all_iff coxmatch_eq_def look split: option.splits)
    have "set (map fst ms) \<subseteq> set (map fst oxms)"
    proof
      fix k
      assume "k \<in> set (map fst ms)"
      then obtain c m where "(k, c, m) \<in> set ms"
        by auto
      from sub [OF this] have "map_of oxms k \<noteq> None"
        by (auto simp: look)
      then show "k \<in> set (map fst oxms)"
        by (simp add: map_of_eq_None_iff)
    qed
    moreover have "card (set (map fst ms)) = card (set (map fst oxms))"
      using eq assms by (simp add: coxmatches_eq_def distinct_card map_wf_distinct del: set_map)
    ultimately have keys: "set (map fst ms) = set (map fst oxms)"
      by (meson List.finite_set card_subset_eq)
    have "map_of (map ?f ms) = map_of (map ?f oxms)"
    proof
      fix k
      show "map_of (map ?f ms) k = map_of (map ?f oxms) k"
      proof (cases "map_of ms k")
        case None
        with keys have "map_of oxms k = None"
          by (simp add: map_of_eq_None_iff)
        with None show ?thesis by (simp add: look)
      next
        case (Some p)
        obtain c m where p: "p = (c, m)"
          by (cases p)
        with Some have "map_of (map ?f oxms) k = Some (coxmatch_id m)"
          by (intro sub [of k c m]) (simp add: map_of_SomeD)
        with Some p show ?thesis
          by (auto simp: look)
      qed
    qed
    with wf assms show "map ?f ms = map ?f oxms"
      by (metis map_wf_ext)
  next
    assume eq: "map ?f ms = map ?f oxms"
    have "map_of oxms k = Some (c', m') \<Longrightarrow> coxmatch_id m = coxmatch_id m'" "map_of oxms k \<noteq> None"
      if "(k, c, m) \<in> set ms" for k c m c' m'
    proof -
      have "map_of ms k = Some (c, m)"
        using that map_wf_distinct [OF assms(1)] by (simp add: map_of_is_SomeI)
      then have "map_of (map ?f oxms) k = Some (coxmatch_id m)"
        by (simp add: look flip: eq)
      then show "map_of oxms k = Some (c', m') \<Longrightarrow> coxmatch_id m = coxmatch_id m'" "map_of oxms k \<noteq> None"
        by (auto simp: look)
    qed
    then show "coxmatches_eq ms oxms"
      using arg_cong [OF eq, of length]
      by (fastforce simp: coxmatches_eq_def list_all_iff coxmatch_eq_def split: option.splits)
  qed
qed

text \<open>
  Comparison of match lists.  Two lists are equal for \<open>operator==\<close> exactly when they have the same
  keys and the same header words: values and masks take no part.
\<close>

theorem coxmatches_eq_headers:
  assumes "map_wf ms" "map_wf oxms"
  shows "coxmatches_eq ms oxms \<longleftrightarrow>
    map (\<lambda>(k, c, m). (k, coxmatch_id m)) ms = map (\<lambda>(k, c, m). (k, coxmatch_id m)) oxms"
  using assms by (rule coxmatches_eq_exact)

theorem coxmatches_eq_headers_example:
  "coxmatches_eq [(0x80000000, Cls OFB_IN_PORT, ofb32_new OFB_IN_PORT 7)]
     [(0x80000000, Cls OFB_IN_PORT, ofb32_new OFB_IN_PORT 8)]"
  by (subst coxmatches_eq_headers) (simp_all add: map_wf_def oxm_new_defs)

lemma entry_key_class: "entry_ok (k, c, m) \<Longrightarrow> OXM_ROFL_CLASS k \<noteq> 0"
  by (cases c; cases m) (auto simp: oxm_key_class expr_type_parts(3))

lemma shifted_key_class: "OXM_ROFL_CLASS (shifted_key m) = 0"
proof -
  have m: "(0x00000000ffff0000 :: u64) = mask 32 AND NOT (mask 16)"
    by (simp add: mask_eq_exp_minus_1)
  show ?thesis
    unfolding OXM_ROFL_CLASS_def shifted_key_def m by (rule bit_word_eqI) (auto simp: bit_simps)
qed

lemma shifted_key_absent: "list_all entry_ok ms \<Longrightarrow> map_of ms (shifted_key m) = None"
  by (cases "map_of ms (shifted_key m)")
    (auto dest!: map_of_SomeD bspec entry_key_class simp: list_all_iff shifted_key_class)

lemma part_of_all_wild:
  assumes "list_all entry_ok ms"
  shows "part_of_loop oxms (r, exact, wildcard, missed) ms = Inr (r, exact, wildcard + word_of_nat (length oxms), missed)"
proof (induction oxms arbitrary: wildcard)
  case (Cons e oxms)
  then show ?case
    using shifted_key_absent [OF assms] by (cases e) (simp add: add.assoc)
qed simp

text \<open>
  The subset tests look for keys that do not exist.  \<open>contains\<close> and \<open>is_part_of\<close> shift the header
  word by 32 bits before they look it up, while the map holds it unshifted.  So a list of well-formed
  entries contains the empty list only, and a list is part of it with every field counted as a wildcard.
\<close>

theorem contains_only_empty:
  assumes "list_all entry_ok oxms" "list_all entry_ok ms"
  shows "coxmatches_contains oxms strict ms = Inr (ms = [] \<and> (strict \<longrightarrow> oxms = [])) \<and>
    is_part_of oxms exact wildcard missed ms = Inr (True, exact, wildcard + word_of_nat (length oxms), missed)"
  using shifted_key_absent [OF assms(1)] part_of_all_wild [OF assms(2)]
  by (cases ms) (auto simp: coxmatches_contains_def is_part_of_def)

theorem contains_only_empty_example:
  "coxmatches_contains oxms_example False oxms_example = Inr False \<and>
   is_part_of oxms_example 0 0 0 oxms_example = Inr (True, 0, 3, 0)"
proof -
  note ok = oxms_example_ok(1) oxms_example_ok(1)
  show ?thesis
    using contains_only_empty [OF ok, of False 0 0 0]
    by (simp add: oxms_example_def)
qed

text \<open>
  An OpenFlow 1.0 network address without a mask.  It is packed to twelve bytes with the flag
  cleared; unpacking them accepts it, but keeps the zero mask of the fresh object: the address stays,
  the masked address is 0.0.0.0, and the element claims a length of sixteen bytes.
\<close>

theorem unmasked_nw_address:
  "\<exists>bytes m. coxmatch_pack 12 (ofx_new OFX_NW_SRC (be_bytes 4 v)) = (ofx_new OFX_NW_SRC (be_bytes 4 v), Inr bytes) \<and>
     length bytes = 12 \<and>
     unpack_match bytes ms = (map_put (oxm_key OFX_NW_SRC) (Cls OFX_NW_SRC, Coxmatch_exp m) ms, None) \<and>
     \<not> get_oxm_hasmask (oxm_id m) \<and> exp_get_value 4 m = Inr (v :: u32) \<and> exp_get_mask 4 m = (0 :: u32) \<and>
     exp_length m = Inr 16"
proof -
  let ?e = "exp_set_value (be_bytes 4 v) (exp_new (oxm_tlv OFX_NW_SRC) ROFL_EXP_ID)"
  have e: "oxm_id ?e = 0xffff0008" "oxm_value ?e = be_bytes 4 v" "oxm_mask ?e = []" "oxm_exp_id ?e = ROFL_EXP_ID"
    by (simp_all add: exp_set_value_def exp_adjust_oxm_length_def exp_new_def OXM_TLV_EXPR_def get_oxm_hasmask_def
        set_oxm_length_def)
  have ok: "entry_ok (oxm_key OFX_NW_SRC, Cls OFX_NW_SRC, ofx_new OFX_NW_SRC (be_bytes 4 v))"
    using e by (simp add: ofx_new_def ofx_new_masked_def exp_ok_def get_oxm_hasmask_def get_oxm_length_def
        get_oxm_type_def OXM_TLV_EXPR_def)
  obtain bytes where b: "coxmatch_pack 12 (ofx_new OFX_NW_SRC (be_bytes 4 v)) = (ofx_new OFX_NW_SRC (be_bytes 4 v), Inr bytes)"
    "length bytes = 12"
    using e by (simp add: ofx_new_def exp_pack_def exp_length_def get_oxm_hasmask_def)
  define m where "m = ?e\<lparr>oxm_mask := replicate 4 0\<rparr>"
  have canon: "the (coxmatch_canon (oxm_added OFX_NW_SRC) (ofx_new OFX_NW_SRC (be_bytes 4 v))) = Coxmatch_exp m"
    using e by (simp add: ofx_new_def ofx_new_masked_def m_def get_oxm_hasmask_def exp_set_mask_def exp_set_value_def
        exp_adjust_oxm_length_def)
  have "unpack_match bytes ms = (map_put (oxm_key OFX_NW_SRC) (Cls OFX_NW_SRC, Coxmatch_exp m) ms, None)"
    using unpack_entry [OF ok b(1), of "[]" ms] canon by (simp del: oxm_added.simps)
  moreover have "be_word (replicate 4 0) = (0 :: u32)"
    by (simp add: be_word_def eval_nat_numeral)
  ultimately show ?thesis
    using e b by (intro exI [of _ bytes] exI [of _ m])
      (simp add: m_def get_oxm_hasmask_def exp_get_value_def exp_get_mask_def exp_length_def)
qed

end
