(* ===== verification/Cofmatch.thy ===== *)
theory Cofmatch
  imports Coxmatches_Wire
begin

text \<open>
  Flow matches (\<open>openflow/cofmatch.h\<close>, \<open>cofmatch.cc\<close>): a list of match fields with the two wire formats,
  the fixed structure of OpenFlow 1.0 and the padded list of OpenFlow 1.2 and 1.3, and the check of
  prerequisites between fields.
\<close>

section \<open>Values of elements\<close>

text \<open>
  The getters of the class that an accessor of the list returns.  An accessor only returns elements
  of its class, so that the last equations are never reached.
\<close>

fun get_u8value :: "coxmatch \<Rightarrow> u8 result" where
  "get_u8value (Coxmatch_8 m) = Inr (oxm_value m)"
| "get_u8value (Coxmatch_exp m) = exp_get_value 1 m"
| "get_u8value _ = Inl EBadCast"

fun get_u16value :: "coxmatch \<Rightarrow> u16 result" where
  "get_u16value (Coxmatch_16 m) = Inr (oxm_value m)"
| "get_u16value (Coxmatch_exp m) = exp_get_value 2 m"
| "get_u16value _ = Inl EBadCast"

fun get_u32value :: "coxmatch \<Rightarrow> u32 result" where
  "get_u32value (Coxmatch_32 m) = Inr (oxm_value m)"
| "get_u32value (Coxmatch_exp m) = exp_get_value 4 m"
| "get_u32value _ = Inl EBadCast"

fun get_u32mask :: "coxmatch \<Rightarrow> u32 result" where
  "get_u32mask (Coxmatch_32 m) = Inr (oxm_mask m)"
| "get_u32mask (Coxmatch_exp m) = Inr (exp_get_mask 4 m)"
| "get_u32mask _ = Inl EBadCast"

fun get_u48value_as_lladdr :: "coxmatch \<Rightarrow> byte list result" where
  "get_u48value_as_lladdr (Coxmatch_48 m) = Inr (be_bytes 6 (oxm_value m))"
| "get_u48value_as_lladdr _ = Inl EBadCast"

section \<open>The object\<close>

record cofmatch =
  of_version :: u8
  matches :: coxmatches
  match_type :: u16

definition cofmatch_new :: "u8 \<Rightarrow> u16 \<Rightarrow> cofmatch" where
  "cofmatch_new version ty = \<lparr>of_version = version, matches = [], match_type = ty\<rparr>"

definition OFPMT_OXM :: u16 where "OFPMT_OXM = 1"

text \<open>The assignment; an exception of \<open>coxmatches\<close> leaves the type as it was.\<close>

definition cofmatch_assign :: "cofmatch \<Rightarrow> cofmatch \<Rightarrow> cofmatch outcome" where
  "cofmatch_assign match m =
     (let m1 = m\<lparr>of_version := of_version match\<rparr>
      in case coxmatches_assign (matches match) (matches m1) of
           (ms, Some e) \<Rightarrow> (m1\<lparr>matches := ms\<rparr>, Some e)
         | (ms, None) \<Rightarrow> (m1\<lparr>matches := ms, match_type := match_type match\<rparr>, None))"

definition cofmatch_eq :: "cofmatch \<Rightarrow> cofmatch \<Rightarrow> bool" where
  "cofmatch_eq m match \<longleftrightarrow>
     of_version m = of_version match \<and> coxmatches_eq (matches m) (matches match) \<and> match_type m = match_type match"

definition cofmatch_contains :: "cofmatch \<Rightarrow> bool \<Rightarrow> cofmatch \<Rightarrow> bool result" where
  "cofmatch_contains match strict m = coxmatches_contains (matches match) strict (matches m)"

definition cofmatch_clear :: "cofmatch \<Rightarrow> cofmatch" where
  "cofmatch_clear m = m\<lparr>matches := coxmatches_clear (matches m)\<rparr>"

text \<open>Setters of the \<open>old API\<close>, one per kind of constructor.\<close>

definition set_in_port :: "u32 \<Rightarrow> cofmatch \<Rightarrow> cofmatch" where
  "set_in_port in_port m = m\<lparr>matches := add_oxm OFB_IN_PORT (ofb32_new OFB_IN_PORT in_port) (matches m)\<rparr>"

definition set_eth_type :: "u16 \<Rightarrow> cofmatch \<Rightarrow> cofmatch" where
  "set_eth_type dl_type m = m\<lparr>matches := add_oxm OFB_ETH_TYPE (ofb16_new OFB_ETH_TYPE dl_type) (matches m)\<rparr>"

definition set_vlan_pcp :: "u8 \<Rightarrow> cofmatch \<Rightarrow> cofmatch" where
  "set_vlan_pcp pcp m = m\<lparr>matches := add_oxm OFB_VLAN_PCP (ofb8_new OFB_VLAN_PCP pcp) (matches m)\<rparr>"

definition set_nw_src :: "u32 \<Rightarrow> cofmatch \<Rightarrow> cofmatch" where
  "set_nw_src src m = m\<lparr>matches := add_oxm OFX_NW_SRC (ofx_new_masked OFX_NW_SRC src 0) (matches m)\<rparr>"

definition set_nw_src_masked :: "u32 \<Rightarrow> u32 \<Rightarrow> cofmatch \<Rightarrow> cofmatch" where
  "set_nw_src_masked src k m = m\<lparr>matches := add_oxm OFX_NW_SRC (ofx_new_masked OFX_NW_SRC src k) (matches m)\<rparr>"

definition set_nw_proto :: "u8 \<Rightarrow> cofmatch \<Rightarrow> cofmatch" where
  "set_nw_proto proto m = m\<lparr>matches := add_oxm OFX_NW_PROTO (ofx_new OFX_NW_PROTO (be_bytes 1 proto)) (matches m)\<rparr>"

section \<open>The wire format of OpenFlow 1.0\<close>

record ofp10_match =
  wildcards :: u32
  in_port :: u16
  dl_src :: "byte list"
  dl_dst :: "byte list"
  dl_vlan :: u16
  dl_vlan_pcp :: u8
  dl_type :: u16
  nw_tos :: u8
  nw_proto :: u8
  nw_src :: u32
  nw_dst :: u32
  tp_src :: u16
  tp_dst :: u16

definition ofp10_match_zero :: ofp10_match where
  "ofp10_match_zero =
     \<lparr>wildcards = 0, in_port = 0, dl_src = replicate 6 0, dl_dst = replicate 6 0, dl_vlan = 0, dl_vlan_pcp = 0,
      dl_type = 0, nw_tos = 0, nw_proto = 0, nw_src = 0, nw_dst = 0, tp_src = 0, tp_dst = 0\<rparr>"

definition ofp10_match_bytes :: "ofp10_match \<Rightarrow> byte list" where
  "ofp10_match_bytes m =
     be32 (wildcards m) @ be16 (in_port m) @ dl_src m @ dl_dst m @ be16 (dl_vlan m) @ [dl_vlan_pcp m, 0] @
     be16 (dl_type m) @ [nw_tos m, nw_proto m, 0, 0] @ be32 (nw_src m) @ be32 (nw_dst m) @ be16 (tp_src m) @
     be16 (tp_dst m)"

definition ofp10_match_of :: "byte list \<Rightarrow> ofp10_match" where
  "ofp10_match_of b =
     \<lparr>wildcards = de32 (b ! 0) (b ! 1) (b ! 2) (b ! 3), in_port = de16 (b ! 4) (b ! 5),
      dl_src = take 6 (drop 6 b), dl_dst = take 6 (drop 12 b), dl_vlan = de16 (b ! 18) (b ! 19),
      dl_vlan_pcp = b ! 20, dl_type = de16 (b ! 22) (b ! 23), nw_tos = b ! 24, nw_proto = b ! 25,
      nw_src = de32 (b ! 28) (b ! 29) (b ! 30) (b ! 31), nw_dst = de32 (b ! 32) (b ! 33) (b ! 34) (b ! 35),
      tp_src = de16 (b ! 36) (b ! 37), tp_dst = de16 (b ! 38) (b ! 39)\<rparr>"

text \<open>\<open>enum ofp_flow_wildcards\<close>.\<close>

definition OFPFW_IN_PORT :: u32 where "OFPFW_IN_PORT = push_bit 0 1"
definition OFPFW_DL_VLAN :: u32 where "OFPFW_DL_VLAN = push_bit 1 1"
definition OFPFW_DL_SRC :: u32 where "OFPFW_DL_SRC = push_bit 2 1"
definition OFPFW_DL_DST :: u32 where "OFPFW_DL_DST = push_bit 3 1"
definition OFPFW_DL_TYPE :: u32 where "OFPFW_DL_TYPE = push_bit 4 1"
definition OFPFW_NW_PROTO :: u32 where "OFPFW_NW_PROTO = push_bit 5 1"
definition OFPFW_TP_SRC :: u32 where "OFPFW_TP_SRC = push_bit 6 1"
definition OFPFW_TP_DST :: u32 where "OFPFW_TP_DST = push_bit 7 1"
definition OFPFW_NW_SRC_SHIFT :: nat where "OFPFW_NW_SRC_SHIFT = 8"
definition OFPFW_NW_SRC_MASK :: u32 where "OFPFW_NW_SRC_MASK = push_bit 8 (push_bit 6 1 - 1)"
definition OFPFW_NW_SRC_ALL :: u32 where "OFPFW_NW_SRC_ALL = push_bit 8 32"
definition OFPFW_NW_DST_SHIFT :: nat where "OFPFW_NW_DST_SHIFT = 14"
definition OFPFW_NW_DST_MASK :: u32 where "OFPFW_NW_DST_MASK = push_bit 14 (push_bit 6 1 - 1)"
definition OFPFW_NW_DST_ALL :: u32 where "OFPFW_NW_DST_ALL = push_bit 14 32"
definition OFPFW_DL_VLAN_PCP :: u32 where "OFPFW_DL_VLAN_PCP = push_bit 20 1"
definition OFPFW_NW_TOS :: u32 where "OFPFW_NW_TOS = push_bit 21 1"

text \<open>
  A field of \<open>pack_of10\<close>: copied when the list has it, wildcarded otherwise.  (\<open>wildcards\<close> is a local
  variable of the code, stored at the end; the buffer after an exception is not modelled.)
\<close>

definition put_field ::
  "oxm_field \<Rightarrow> (coxmatch \<Rightarrow> 'v result) \<Rightarrow> ('v \<Rightarrow> ofp10_match \<Rightarrow> ofp10_match) \<Rightarrow> u32 \<Rightarrow> coxmatches \<Rightarrow>
   ofp10_match \<Rightarrow> ofp10_match result"
where
  "put_field f get put flag ms m =
     (if has_oxm f ms then rbind (get_oxm f ms) (\<lambda>x. rbind (get x) (\<lambda>v. Inr (put v m)))
      else Inr (m\<lparr>wildcards := wildcards m OR flag\<rparr>))"

text \<open>\<open>std::bitset<32>::count\<close>.\<close>

definition bit_count :: "u32 \<Rightarrow> nat" where
  "bit_count w = length (filter (bit w) [0..<32])"

definition put_nw ::
  "oxm_field \<Rightarrow> (u32 \<Rightarrow> ofp10_match \<Rightarrow> ofp10_match) \<Rightarrow> nat \<Rightarrow> u32 \<Rightarrow> u32 \<Rightarrow> coxmatches \<Rightarrow> ofp10_match \<Rightarrow> ofp10_match result"
where
  "put_nw f put shift field_mask all ms m =
     (if has_oxm f ms then
        rbind (get_oxm f ms) (\<lambda>x. rbind (get_u32value x) (\<lambda>v.
          if get_oxm_hasmask (coxmatch_id x)
          then rbind (get_u32mask x) (\<lambda>k.
            Inr (put v m\<lparr>wildcards := wildcards m OR (push_bit shift (word_of_nat (32 - bit_count k)) AND field_mask)\<rparr>))
          else Inr (put v m)))
      else Inr (m\<lparr>wildcards := wildcards m OR all\<rparr>))"

definition of10_steps :: "coxmatches \<Rightarrow> (ofp10_match \<Rightarrow> ofp10_match result) list" where
  "of10_steps ms =
     [put_field OFB_IN_PORT get_u32value (\<lambda>v m. m\<lparr>in_port := ucast (v AND 0x0000ffff)\<rparr>) OFPFW_IN_PORT ms,
      put_field OFB_ETH_SRC get_u48value_as_lladdr (\<lambda>v m. m\<lparr>dl_src := v\<rparr>) OFPFW_DL_SRC ms,
      put_field OFB_ETH_DST get_u48value_as_lladdr (\<lambda>v m. m\<lparr>dl_dst := v\<rparr>) OFPFW_DL_DST ms,
      put_field OFB_VLAN_VID get_u16value (\<lambda>v m. m\<lparr>dl_vlan := v\<rparr>) OFPFW_DL_VLAN ms,
      put_field OFB_VLAN_PCP get_u8value (\<lambda>v m. m\<lparr>dl_vlan_pcp := v\<rparr>) OFPFW_DL_VLAN_PCP ms,
      put_field OFB_ETH_TYPE get_u16value (\<lambda>v m. m\<lparr>dl_type := v\<rparr>) OFPFW_DL_TYPE ms,
      put_field OFX_NW_TOS get_u8value (\<lambda>v m. m\<lparr>nw_tos := v\<rparr>) OFPFW_NW_TOS ms,
      put_field OFX_NW_PROTO get_u8value (\<lambda>v m. m\<lparr>nw_proto := v\<rparr>) OFPFW_NW_PROTO ms,
      put_nw OFX_NW_SRC (\<lambda>v m. m\<lparr>nw_src := v\<rparr>) OFPFW_NW_SRC_SHIFT OFPFW_NW_SRC_MASK OFPFW_NW_SRC_ALL ms,
      put_nw OFX_NW_DST (\<lambda>v m. m\<lparr>nw_dst := v\<rparr>) OFPFW_NW_DST_SHIFT OFPFW_NW_DST_MASK OFPFW_NW_DST_ALL ms,
      put_field OFX_TP_SRC get_u16value (\<lambda>v m. m\<lparr>tp_src := v\<rparr>) OFPFW_TP_SRC ms,
      put_field OFX_TP_DST get_u16value (\<lambda>v m. m\<lparr>tp_dst := v\<rparr>) OFPFW_TP_DST ms]"

text \<open>\<open>memset\<close> clears the whole buffer, not only the structure.\<close>

definition pack_of10 :: "byte list \<Rightarrow> coxmatches \<Rightarrow> byte list result" where
  "pack_of10 buf ms =
     (if length buf < 40 then Inl EInvalid
      else rbind (run_steps (of10_steps ms) ofp10_match_zero)
             (\<lambda>m. Inr (ofp10_match_bytes m @ replicate (length buf - 40) 0)))"

definition add_unless :: "bool \<Rightarrow> oxm_field \<Rightarrow> coxmatch \<Rightarrow> coxmatches \<Rightarrow> coxmatches" where
  "add_unless wild f m ms = (if wild then ms else add_oxm f m ms)"

text \<open>The number of wildcarded bits of an address, and the mask made of it.\<close>

definition num_of_bits :: "u32 \<Rightarrow> nat \<Rightarrow> u32 \<Rightarrow> u64" where
  "num_of_bits field_mask shift w =
     (let n = ucast (drop_bit shift (w AND field_mask)) in if 32 < n then 32 else n)"

definition prefix_mask :: "u64 \<Rightarrow> u32" where
  "prefix_mask n = ucast (NOT (push_bit (unat n) (1 :: u64) - 1))"

definition add_nw :: "oxm_field \<Rightarrow> u32 \<Rightarrow> nat \<Rightarrow> u32 \<Rightarrow> u32 \<Rightarrow> coxmatches \<Rightarrow> coxmatches" where
  "add_nw f field_mask shift w addr ms =
     (let n = num_of_bits field_mask shift w
      in if n \<le> 32 then add_oxm f (ofx_new_masked f addr (prefix_mask n)) ms else ms)"

definition unpack_of10_match :: "ofp10_match \<Rightarrow> coxmatches" where
  "unpack_of10_match m =
     (let wild = (\<lambda>flag. wildcards m AND flag \<noteq> 0);
          ms1 = add_unless (wild OFPFW_IN_PORT) OFB_IN_PORT (ofb32_new OFB_IN_PORT (ucast (in_port m))) [];
          ms2 = add_unless (wild OFPFW_DL_SRC) OFB_ETH_SRC (ofb48_new OFB_ETH_SRC (dl_src m)) ms1;
          ms3 = add_unless (wild OFPFW_DL_DST) OFB_ETH_DST (ofb48_new OFB_ETH_DST (dl_dst m)) ms2;
          ms4 = add_unless (wild OFPFW_DL_VLAN) OFB_VLAN_VID (ofb16_new OFB_VLAN_VID (dl_vlan m)) ms3;
          ms5 = add_unless (wild OFPFW_DL_VLAN_PCP \<or> dl_vlan m = 0xffff) OFB_VLAN_PCP
                  (ofb8_new OFB_VLAN_PCP (dl_vlan_pcp m)) ms4
      in if wild OFPFW_DL_TYPE then ms5
         else (let ms6 = add_oxm OFB_ETH_TYPE (ofb16_new OFB_ETH_TYPE (dl_type m)) ms5
               in if dl_type m = 0x0806 \<or> dl_type m = 0x0800
                  then (let ms7 = add_nw OFX_NW_SRC OFPFW_NW_SRC_MASK OFPFW_NW_SRC_SHIFT (wildcards m) (nw_src m) ms6;
                            ms8 = add_nw OFX_NW_DST OFPFW_NW_DST_MASK OFPFW_NW_DST_SHIFT (wildcards m) (nw_dst m) ms7;
                            ms9 = (if dl_type m = 0x0800
                                   then (let ms9a = add_unless (wild OFPFW_NW_TOS) OFX_NW_TOS
                                                      (ofx_new OFX_NW_TOS (be_bytes 1 (nw_tos m))) ms8
                                         in if wild OFPFW_NW_PROTO then ms9a
                                            else (let ms9b = add_oxm OFX_NW_PROTO
                                                               (ofx_new OFX_NW_PROTO (be_bytes 1 (nw_proto m))) ms9a
                                                  in if nw_proto m = 6 \<or> nw_proto m = 17 \<or> nw_proto m = 1
                                                     then (let ms9c = add_unless (wild OFPFW_TP_SRC) OFX_TP_SRC
                                                                        (ofx_new OFX_TP_SRC (be_bytes 2 (tp_src m))) ms9b
                                                           in add_unless (wild OFPFW_TP_DST) OFX_TP_DST
                                                                (ofx_new OFX_TP_DST (be_bytes 2 (tp_dst m))) ms9c)
                                                     else ms9b))
                                   else ms8)
                        in if dl_type m = 0x0806
                           then add_unless (wild OFPFW_NW_PROTO) OFB_ARP_OP (ofb16_new OFB_ARP_OP (ucast (nw_proto m))) ms9
                           else ms9)
                  else ms6))"

definition unpack_of10 :: "byte list \<Rightarrow> coxmatches outcome" where
  "unpack_of10 buf =
     (if length buf < 40 then ([], Some EBadMatchBadLen) else (unpack_of10_match (ofp10_match_of buf), None))"

section \<open>The wire format of OpenFlow 1.2 and 1.3, and the dispatch\<close>

definition cofmatch_length :: "cofmatch \<Rightarrow> nat result" where
  "cofmatch_length m =
     (if of_version m = 1 then Inr 40
      else if of_version m = 3 \<or> of_version m = 4 then
        rbind (coxmatches_length (matches m)) (\<lambda>n.
          let total = 2 * 2 + n; pad = total mod 8 in Inr (if pad \<noteq> 0 then total + (8 - pad) else total))
      else Inl EBadVersion)"

text \<open>The length field counts the header and the elements; the padding bytes stay as they are.\<close>

definition pack_of13 :: "byte list \<Rightarrow> cofmatch \<Rightarrow> cofmatch \<times> byte list result" where
  "pack_of13 buf m =
     (case cofmatch_length m of
        Inl e \<Rightarrow> (m, Inl e)
      | Inr len \<Rightarrow>
          if length buf < len then (m, Inl EInvalid)
          else (case coxmatches_length (matches m) of
                  Inl e \<Rightarrow> (m, Inl e)
                | Inr n \<Rightarrow>
                    (case coxmatches_pack (take n (drop 4 buf)) (matches m) of
                       (ms, Inl e) \<Rightarrow> (m\<lparr>matches := ms\<rparr>, Inl e)
                     | (ms, Inr oxm_bytes) \<Rightarrow>
                         (m\<lparr>matches := ms\<rparr>,
                          Inr (be16 (match_type m) @ be16 (word_of_nat (2 * 2 + n)) @ oxm_bytes @ drop (4 + n) buf)))))"

definition unpack_of13 :: "byte list \<Rightarrow> cofmatch \<Rightarrow> cofmatch outcome" where
  "unpack_of13 buf m =
     (let m1 = m\<lparr>matches := coxmatches_clear (matches m)\<rparr>
      in if length buf < 2 * 2 then (m1, Some EBadMatchBadLen)
         else (let m2 = m1\<lparr>match_type := de16 (buf ! 0) (buf ! 1)\<rparr>
               in if match_type m2 \<noteq> OFPMT_OXM then (m2, Some EBadMatchBadType)
                  else if length buf - 2 * 2 > 0 then
                    (case coxmatches_unpack (drop 4 buf) (matches m2) of (ms, e) \<Rightarrow> (m2\<lparr>matches := ms\<rparr>, e))
                  else (m2, None)))"

definition cofmatch_pack :: "byte list \<Rightarrow> cofmatch \<Rightarrow> cofmatch \<times> byte list result" where
  "cofmatch_pack buf m =
     (if of_version m = 1 then (m, pack_of10 buf (matches m))
      else if of_version m = 3 \<or> of_version m = 4 then pack_of13 buf m
      else (m, Inl EBadVersion))"

definition cofmatch_unpack :: "byte list \<Rightarrow> cofmatch \<Rightarrow> cofmatch outcome" where
  "cofmatch_unpack buf m =
     (if of_version m = 1 then (case unpack_of10 buf of (ms, e) \<Rightarrow> (m\<lparr>matches := ms\<rparr>, e))
      else if of_version m = 3 \<or> of_version m = 4 then unpack_of13 buf m
      else (m, Some EBadVersion))"

section \<open>Prerequisites\<close>

text \<open>\<open>not has(f) || get(f).get_value() != t\<close>, negated.\<close>

definition value_in :: "oxm_field \<Rightarrow> (coxmatch \<Rightarrow> 'v result) \<Rightarrow> 'v list \<Rightarrow> coxmatches \<Rightarrow> bool result" where
  "value_in f get ts ms =
     (if \<not> has_oxm f ms then Inr False
      else rbind (get_oxm f ms) (\<lambda>x. rbind (get x) (\<lambda>v. Inr (v \<in> set ts))))"

definition OFPVID_NONE :: u16 where "OFPVID_NONE = 0x0000"

text \<open>The checks in their order: a field, and what must hold when the list has it.\<close>

definition prerequisites :: "(oxm_field \<times> (coxmatches \<Rightarrow> bool result)) list" where
  "prerequisites =
     (let eth = value_in OFB_ETH_TYPE get_u16value;
          proto = value_in OFB_IP_PROTO get_u8value;
          icmp6 = value_in OFB_ICMPV6_TYPE get_u8value
      in [(OFB_IN_PHY_PORT, \<lambda>ms. Inr (has_oxm OFB_IN_PORT ms)),
          (OFB_VLAN_PCP, \<lambda>ms. rbind (get_oxm OFB_VLAN_VID ms) (\<lambda>x. rbind (get_u16value x) (\<lambda>v. Inr (v \<noteq> OFPVID_NONE)))),
          (OFB_IP_DSCP, eth [0x0800, 0x86dd]),
          (OFB_IP_ECN, eth [0x0800, 0x86dd]),
          (OFB_IP_PROTO, eth [0x0800, 0x86dd]),
          (OFB_IPV4_SRC, eth [0x0800]),
          (OFB_IPV4_DST, eth [0x0800]),
          (OFB_TCP_SRC, proto [6]),
          (OFB_TCP_DST, proto [6]),
          (OFB_UDP_SRC, proto [17]),
          (OFB_UDP_DST, proto [17]),
          (OFB_SCTP_SRC, proto [132]),
          (OFB_SCTP_DST, proto [132]),
          (OFB_ICMPV4_TYPE, proto [1]),
          (OFB_ICMPV4_CODE, proto [1]),
          (OFB_ARP_OP, eth [0x0806]),
          (OFB_ARP_SPA, eth [0x0806]),
          (OFB_ARP_TPA, eth [0x0806]),
          (OFB_ARP_SHA, eth [0x0806]),
          (OFB_ARP_THA, eth [0x0806]),
          (OFB_IPV6_SRC, eth [0x86dd]),
          (OFB_IPV6_DST, eth [0x86dd]),
          (OFB_IPV6_FLABEL, eth [0x86dd]),
          (OFB_ICMPV6_TYPE, proto [58]),
          (OFB_ICMPV6_CODE, proto [58]),
          (OFB_IPV6_ND_TARGET, icmp6 [135, 136]),
          (OFB_IPV6_ND_SLL, icmp6 [135]),
          (OFB_IPV6_ND_TLL, icmp6 [136]),
          (OFB_MPLS_LABEL, eth [0x8847, 0x8848]),
          (OFB_MPLS_TC, eth [0x8847, 0x8848]),
          (OFB_MPLS_BOS, eth [0x8847, 0x8848]),
          (OFB_PBB_ISID, eth [0x88e7]),
          (OFB_IPV6_EXTHDR, eth [0x86dd])])"

fun check_each :: "coxmatches \<Rightarrow> (oxm_field \<times> (coxmatches \<Rightarrow> bool result)) list \<Rightarrow> rofl_exn option" where
  "check_each ms [] = None"
| "check_each ms ((f, cond) # cs) =
     (if \<not> has_oxm f ms then check_each ms cs
      else case cond ms of
        Inl e \<Rightarrow> Some e
      | Inr ok \<Rightarrow> if ok then check_each ms cs else Some EBadMatchBadPrereq)"

definition check_prerequisites :: "cofmatch \<Rightarrow> rofl_exn option" where
  "check_prerequisites m =
     (if of_version m = 3 \<or> of_version m = 4 then check_each (matches m) prerequisites else None)"

end
