(* ===== verification/Cofmatch_Wire.thy ===== *)
theory Cofmatch_Wire
  imports Cofmatch
begin

text \<open>
  What flow matches promise: the OpenFlow 1.0 structure carries the fields an abstract view lists,
  up to the fields the specification tells a receiver to ignore; OpenFlow 1.2 and 1.3 matches travel
  unchanged, padded to eight bytes; a match that passes the check of prerequisites is layered.
\<close>

section \<open>Fields of a list\<close>

lemma wf_add_oxm [sorted_intros, simp]: "map_wf ms \<Longrightarrow> map_wf (add_oxm f m ms)"
  by (simp add: add_oxm_def map_wf_put)

lemma has_add_oxm [container_simps]: "map_wf ms \<Longrightarrow> has_oxm g (add_oxm f m ms) \<longleftrightarrow> f = g \<or> has_oxm g ms"
  by (simp add: has_oxm_def add_oxm_def container_simps oxm_key_inj)

lemma get_add_oxm [container_simps]:
  "map_wf ms \<Longrightarrow> get_oxm g (add_oxm f m ms) = (if f = g then Inr m else get_oxm g ms)"
  by (simp add: get_oxm_def add_oxm_def container_simps oxm_key_inj)

lemma get_oxm_absent: "\<not> has_oxm f ms \<Longrightarrow> get_oxm f ms = Inl EOxmInval"
  by (simp add: has_oxm_def get_oxm_def del: not_Some_eq not_None_eq)

text \<open>The value of a field, if the list has it and it can be read.\<close>

definition oxm_view :: "oxm_field \<Rightarrow> (coxmatch \<Rightarrow> 'v result) \<Rightarrow> coxmatches \<Rightarrow> 'v option" where
  "oxm_view f get ms = (case rbind (get_oxm f ms) get of Inl e \<Rightarrow> None | Inr v \<Rightarrow> Some v)"

definition oxm_readable :: "oxm_field \<Rightarrow> (coxmatch \<Rightarrow> 'v result) \<Rightarrow> coxmatches \<Rightarrow> bool" where
  "oxm_readable f get ms \<longleftrightarrow> has_oxm f ms = (oxm_view f get ms \<noteq> None)"

lemma oxm_view_Nil [simp]: "oxm_view f get [] = None"
  by (simp add: oxm_view_def get_oxm_def)

lemma oxm_view_add [container_simps]:
  "map_wf ms \<Longrightarrow> oxm_view g get (add_oxm f m ms) =
     (if f = g then (case get m of Inl e \<Rightarrow> None | Inr v \<Rightarrow> Some v) else oxm_view g get ms)"
  by (simp add: oxm_view_def container_simps)

lemma oxm_view_SomeD: "oxm_view f get ms = Some v \<Longrightarrow> \<exists>x. has_oxm f ms \<and> get_oxm f ms = Inr x \<and> get x = Inr v"
  by (cases "has_oxm f ms") (auto simp: oxm_view_def rbind_Inr_iff get_oxm_absent split: sum.splits)

lemma put_field_view:
  assumes "oxm_readable f get ms"
  shows "put_field f get put flag ms m =
    Inr (case oxm_view f get ms of None \<Rightarrow> m\<lparr>wildcards := wildcards m OR flag\<rparr> | Some v \<Rightarrow> put v m)"
  using assms
  by (cases "oxm_view f get ms") (auto simp: put_field_def oxm_readable_def dest!: oxm_view_SomeD)

text \<open>A network address is its value and the number of its significant bits.\<close>

definition get_nw :: "coxmatch \<Rightarrow> (u32 \<times> nat) result" where
  "get_nw x = rbind (get_u32value x) (\<lambda>v.
     if get_oxm_hasmask (coxmatch_id x) then rbind (get_u32mask x) (\<lambda>k. Inr (v, bit_count k)) else Inr (v, 32))"

lemma bit_count_le: "bit_count w \<le> 32"
  using length_filter_le [of "bit w" "[0..<32]"] by (simp add: bit_count_def)

lemma get_nw_le: "get_nw x = Inr (v, n) \<Longrightarrow> n \<le> 32"
  by (auto simp: get_nw_def rbind_Inr_iff bit_count_le split: if_splits)

definition nw_wild :: "nat \<Rightarrow> u32 \<Rightarrow> u32 \<Rightarrow> (u32 \<times> nat) option \<Rightarrow> u32" where
  "nw_wild shift field_mask all v =
     (case v of None \<Rightarrow> all | Some (a, n) \<Rightarrow> push_bit shift (word_of_nat (32 - n)) AND field_mask)"

lemma put_nw_view:
  assumes "oxm_readable f get_nw ms" "\<And>v k. put v (m\<lparr>wildcards := k\<rparr>) = (put v m)\<lparr>wildcards := k\<rparr>"
    "\<And>v. wildcards (put v m) = wildcards m"
  shows "put_nw f put shift field_mask all ms m =
    Inr ((case oxm_view f get_nw ms of None \<Rightarrow> m | Some (v, n) \<Rightarrow> put v m)
           \<lparr>wildcards := wildcards m OR nw_wild shift field_mask all (oxm_view f get_nw ms)\<rparr>)"
proof (cases "oxm_view f get_nw ms")
  case None
  then show ?thesis
    using assms by (simp add: put_nw_def oxm_readable_def nw_wild_def)
next
  case (Some p)
  then obtain x where x: "has_oxm f ms" "get_oxm f ms = Inr x" "get_nw x = Inr p"
    by (blast dest: oxm_view_SomeD)
  have "put v m = put v m\<lparr>wildcards := wildcards m\<rparr>" for v
    using assms(3) by simp
  then show ?thesis
    using x Some assms(2) by (auto simp: put_nw_def nw_wild_def get_nw_def rbind_Inr_iff split: if_splits)
qed

section \<open>The abstract view of an OpenFlow 1.0 match\<close>

record of10_view =
  v_in_port :: "u16 option"
  v_dl_src :: "byte list option"
  v_dl_dst :: "byte list option"
  v_dl_vlan :: "u16 option"
  v_dl_vlan_pcp :: "u8 option"
  v_dl_type :: "u16 option"
  v_nw_tos :: "u8 option"
  v_nw_proto :: "u8 option"
  v_nw_src :: "(u32 \<times> nat) option"
  v_nw_dst :: "(u32 \<times> nat) option"
  v_tp_src :: "u16 option"
  v_tp_dst :: "u16 option"
  v_arp_op :: "u16 option"

definition of10_view_of :: "coxmatches \<Rightarrow> of10_view" where
  "of10_view_of ms =
     \<lparr>v_in_port = map_option ucast (oxm_view OFB_IN_PORT get_u32value ms),
      v_dl_src = oxm_view OFB_ETH_SRC get_u48value_as_lladdr ms,
      v_dl_dst = oxm_view OFB_ETH_DST get_u48value_as_lladdr ms,
      v_dl_vlan = oxm_view OFB_VLAN_VID get_u16value ms,
      v_dl_vlan_pcp = oxm_view OFB_VLAN_PCP get_u8value ms,
      v_dl_type = oxm_view OFB_ETH_TYPE get_u16value ms,
      v_nw_tos = oxm_view OFX_NW_TOS get_u8value ms,
      v_nw_proto = oxm_view OFX_NW_PROTO get_u8value ms,
      v_nw_src = oxm_view OFX_NW_SRC get_nw ms,
      v_nw_dst = oxm_view OFX_NW_DST get_nw ms,
      v_tp_src = oxm_view OFX_TP_SRC get_u16value ms,
      v_tp_dst = oxm_view OFX_TP_DST get_u16value ms,
      v_arp_op = oxm_view OFB_ARP_OP get_u16value ms\<rparr>"

definition of10_readable :: "coxmatches \<Rightarrow> bool" where
  "of10_readable ms \<longleftrightarrow>
     oxm_readable OFB_IN_PORT get_u32value ms \<and> oxm_readable OFB_ETH_SRC get_u48value_as_lladdr ms \<and>
     oxm_readable OFB_ETH_DST get_u48value_as_lladdr ms \<and> oxm_readable OFB_VLAN_VID get_u16value ms \<and>
     oxm_readable OFB_VLAN_PCP get_u8value ms \<and> oxm_readable OFB_ETH_TYPE get_u16value ms \<and>
     oxm_readable OFX_NW_TOS get_u8value ms \<and> oxm_readable OFX_NW_PROTO get_u8value ms \<and>
     oxm_readable OFX_NW_SRC get_nw ms \<and> oxm_readable OFX_NW_DST get_nw ms \<and>
     oxm_readable OFX_TP_SRC get_u16value ms \<and> oxm_readable OFX_TP_DST get_u16value ms"

definition wild_if :: "u32 \<Rightarrow> 'a option \<Rightarrow> u32" where
  "wild_if flag v = (case v of None \<Rightarrow> flag | Some _ \<Rightarrow> 0)"

definition wildcards_of :: "of10_view \<Rightarrow> u32" where
  "wildcards_of v =
     wild_if OFPFW_IN_PORT (v_in_port v) OR wild_if OFPFW_DL_SRC (v_dl_src v) OR wild_if OFPFW_DL_DST (v_dl_dst v) OR
     wild_if OFPFW_DL_VLAN (v_dl_vlan v) OR wild_if OFPFW_DL_VLAN_PCP (v_dl_vlan_pcp v) OR
     wild_if OFPFW_DL_TYPE (v_dl_type v) OR wild_if OFPFW_NW_TOS (v_nw_tos v) OR wild_if OFPFW_NW_PROTO (v_nw_proto v) OR
     nw_wild OFPFW_NW_SRC_SHIFT OFPFW_NW_SRC_MASK OFPFW_NW_SRC_ALL (v_nw_src v) OR
     nw_wild OFPFW_NW_DST_SHIFT OFPFW_NW_DST_MASK OFPFW_NW_DST_ALL (v_nw_dst v) OR
     wild_if OFPFW_TP_SRC (v_tp_src v) OR wild_if OFPFW_TP_DST (v_tp_dst v)"

definition or_else :: "'a option \<Rightarrow> 'a \<Rightarrow> 'a" where
  "or_else v d = (case v of None \<Rightarrow> d | Some x \<Rightarrow> x)"

lemma or_else_simps [simp]: "or_else (Some x) d = x" "or_else None d = d"
  by (simp_all add: or_else_def)

definition ofp10_match_for :: "of10_view \<Rightarrow> ofp10_match" where
  "ofp10_match_for v =
     \<lparr>wildcards = wildcards_of v, in_port = or_else (v_in_port v) 0,
      dl_src = or_else (v_dl_src v) (replicate 6 0), dl_dst = or_else (v_dl_dst v) (replicate 6 0),
      dl_vlan = or_else (v_dl_vlan v) 0, dl_vlan_pcp = or_else (v_dl_vlan_pcp v) 0,
      dl_type = or_else (v_dl_type v) 0, nw_tos = or_else (v_nw_tos v) 0, nw_proto = or_else (v_nw_proto v) 0,
      nw_src = or_else (map_option fst (v_nw_src v)) 0, nw_dst = or_else (map_option fst (v_nw_dst v)) 0,
      tp_src = or_else (v_tp_src v) 0, tp_dst = or_else (v_tp_dst v) 0\<rparr>"

lemma steps_view:
  assumes "of10_readable ms"
  shows "run_steps (of10_steps ms) ofp10_match_zero = Inr (ofp10_match_for (of10_view_of ms))"
proof -
  let ?v = "of10_view_of ms"
  note R = assms [unfolded of10_readable_def]
  have lo: "ucast (x AND 0x0000ffff) = (ucast x :: u16)" for x :: u32
  proof -
    have "(0x0000ffff :: u32) = mask 16"
      by (simp add: mask_eq_exp_minus_1)
    show ?thesis
      unfolding \<open>0x0000ffff = mask 16\<close> by (rule bit_word_eqI) (auto simp: bit_simps)
  qed
  have s: 
    "\<And>m. put_field OFB_IN_PORT get_u32value (\<lambda>v m. m\<lparr>in_port := ucast (v AND 0x0000ffff)\<rparr>) OFPFW_IN_PORT ms m =
       Inr (m\<lparr>wildcards := wildcards m OR wild_if OFPFW_IN_PORT (v_in_port ?v), in_port := or_else (v_in_port ?v) (in_port m)\<rparr>)"
    "\<And>m. put_field OFB_ETH_SRC get_u48value_as_lladdr (\<lambda>v m. m\<lparr>dl_src := v\<rparr>) OFPFW_DL_SRC ms m =
       Inr (m\<lparr>wildcards := wildcards m OR wild_if OFPFW_DL_SRC (v_dl_src ?v), dl_src := or_else (v_dl_src ?v) (dl_src m)\<rparr>)"
    "\<And>m. put_field OFB_ETH_DST get_u48value_as_lladdr (\<lambda>v m. m\<lparr>dl_dst := v\<rparr>) OFPFW_DL_DST ms m =
       Inr (m\<lparr>wildcards := wildcards m OR wild_if OFPFW_DL_DST (v_dl_dst ?v), dl_dst := or_else (v_dl_dst ?v) (dl_dst m)\<rparr>)"
    "\<And>m. put_field OFB_VLAN_VID get_u16value (\<lambda>v m. m\<lparr>dl_vlan := v\<rparr>) OFPFW_DL_VLAN ms m =
       Inr (m\<lparr>wildcards := wildcards m OR wild_if OFPFW_DL_VLAN (v_dl_vlan ?v), dl_vlan := or_else (v_dl_vlan ?v) (dl_vlan m)\<rparr>)"
    "\<And>m. put_field OFB_VLAN_PCP get_u8value (\<lambda>v m. m\<lparr>dl_vlan_pcp := v\<rparr>) OFPFW_DL_VLAN_PCP ms m =
       Inr (m\<lparr>wildcards := wildcards m OR wild_if OFPFW_DL_VLAN_PCP (v_dl_vlan_pcp ?v),
              dl_vlan_pcp := or_else (v_dl_vlan_pcp ?v) (dl_vlan_pcp m)\<rparr>)"
    "\<And>m. put_field OFB_ETH_TYPE get_u16value (\<lambda>v m. m\<lparr>dl_type := v\<rparr>) OFPFW_DL_TYPE ms m =
       Inr (m\<lparr>wildcards := wildcards m OR wild_if OFPFW_DL_TYPE (v_dl_type ?v), dl_type := or_else (v_dl_type ?v) (dl_type m)\<rparr>)"
    "\<And>m. put_field OFX_NW_TOS get_u8value (\<lambda>v m. m\<lparr>nw_tos := v\<rparr>) OFPFW_NW_TOS ms m =
       Inr (m\<lparr>wildcards := wildcards m OR wild_if OFPFW_NW_TOS (v_nw_tos ?v), nw_tos := or_else (v_nw_tos ?v) (nw_tos m)\<rparr>)"
    "\<And>m. put_field OFX_NW_PROTO get_u8value (\<lambda>v m. m\<lparr>nw_proto := v\<rparr>) OFPFW_NW_PROTO ms m =
       Inr (m\<lparr>wildcards := wildcards m OR wild_if OFPFW_NW_PROTO (v_nw_proto ?v), nw_proto := or_else (v_nw_proto ?v) (nw_proto m)\<rparr>)"
    "\<And>m. put_field OFX_TP_SRC get_u16value (\<lambda>v m. m\<lparr>tp_src := v\<rparr>) OFPFW_TP_SRC ms m =
       Inr (m\<lparr>wildcards := wildcards m OR wild_if OFPFW_TP_SRC (v_tp_src ?v), tp_src := or_else (v_tp_src ?v) (tp_src m)\<rparr>)"
    "\<And>m. put_field OFX_TP_DST get_u16value (\<lambda>v m. m\<lparr>tp_dst := v\<rparr>) OFPFW_TP_DST ms m =
       Inr (m\<lparr>wildcards := wildcards m OR wild_if OFPFW_TP_DST (v_tp_dst ?v), tp_dst := or_else (v_tp_dst ?v) (tp_dst m)\<rparr>)"
    using R by (auto simp: put_field_view of10_view_of_def wild_if_def or_else_def lo split: option.split)
  have n:
    "\<And>m. put_nw OFX_NW_SRC (\<lambda>v m. m\<lparr>nw_src := v\<rparr>) OFPFW_NW_SRC_SHIFT OFPFW_NW_SRC_MASK OFPFW_NW_SRC_ALL ms m =
       Inr (m\<lparr>wildcards := wildcards m OR nw_wild OFPFW_NW_SRC_SHIFT OFPFW_NW_SRC_MASK OFPFW_NW_SRC_ALL (v_nw_src ?v),
              nw_src := or_else (map_option fst (v_nw_src ?v)) (nw_src m)\<rparr>)"
    "\<And>m. put_nw OFX_NW_DST (\<lambda>v m. m\<lparr>nw_dst := v\<rparr>) OFPFW_NW_DST_SHIFT OFPFW_NW_DST_MASK OFPFW_NW_DST_ALL ms m =
       Inr (m\<lparr>wildcards := wildcards m OR nw_wild OFPFW_NW_DST_SHIFT OFPFW_NW_DST_MASK OFPFW_NW_DST_ALL (v_nw_dst ?v),
              nw_dst := or_else (map_option fst (v_nw_dst ?v)) (nw_dst m)\<rparr>)"
    using R by (auto simp: put_nw_view of10_view_of_def or_else_def split: option.split)
  show ?thesis
    by (simp add: of10_steps_def s n ofp10_match_for_def ofp10_match_zero_def wildcards_of_def or.assoc)
qed

text \<open>Reading the structure back.\<close>

lemma ofp10_match_bytes_length [simp]:
  "length (dl_src m) = 6 \<Longrightarrow> length (dl_dst m) = 6 \<Longrightarrow> length (ofp10_match_bytes m) = 40"
  by (simp add: ofp10_match_bytes_def)

lemma ofp10_match_of_bytes:
  assumes "length (dl_src m) = 6" "length (dl_dst m) = 6"
  shows "ofp10_match_of (ofp10_match_bytes m @ rest) = m"
proof -
  obtain s0 s1 s2 s3 s4 s5 where s: "dl_src m = [s0, s1, s2, s3, s4, s5]"
    using assms(1) by (auto simp: eval_nat_numeral length_Suc_conv)
  obtain d0 d1 d2 d3 d4 d5 where d: "dl_dst m = [d0, d1, d2, d3, d4, d5]"
    using assms(2) by (auto simp: eval_nat_numeral length_Suc_conv)
  show ?thesis
    using s d by (intro ofp10_match.equality) (simp_all add: ofp10_match_of_def ofp10_match_bytes_def be16_def be32_def)
qed

lemma wild_if_and: "wild_if f v AND g = wild_if (f AND g) v"
  by (cases v) (simp_all add: wild_if_def)

lemma nw_wild_and: "nw_wild shift field_mask all v AND g = nw_wild shift (field_mask AND g) (all AND g) v"
  by (cases v) (simp_all add: nw_wild_def and.assoc split: prod.split)

lemma wild_zero [simp]: "wild_if 0 v = 0" "nw_wild shift 0 0 w = 0"
  by (simp_all add: wild_if_def nw_wild_def split: option.split)

lemma wild_if_iff: "f \<noteq> 0 \<Longrightarrow> wild_if f v = 0 \<longleftrightarrow> v \<noteq> None"
  by (cases v) (simp_all add: wild_if_def)

lemmas flag_defs = OFPFW_IN_PORT_def OFPFW_DL_VLAN_def OFPFW_DL_SRC_def OFPFW_DL_DST_def OFPFW_DL_TYPE_def
  OFPFW_NW_PROTO_def OFPFW_TP_SRC_def OFPFW_TP_DST_def OFPFW_NW_SRC_SHIFT_def OFPFW_NW_SRC_MASK_def
  OFPFW_NW_SRC_ALL_def OFPFW_NW_DST_SHIFT_def OFPFW_NW_DST_MASK_def OFPFW_NW_DST_ALL_def OFPFW_DL_VLAN_PCP_def
  OFPFW_NW_TOS_def

lemmas wild_eval = wildcards_of_def bit.conj_disj_distrib2 wild_if_and nw_wild_and

lemma wild_flags:
  "wildcards_of v AND OFPFW_IN_PORT = 0 \<longleftrightarrow> v_in_port v \<noteq> None"
  "wildcards_of v AND OFPFW_DL_SRC = 0 \<longleftrightarrow> v_dl_src v \<noteq> None"
  "wildcards_of v AND OFPFW_DL_DST = 0 \<longleftrightarrow> v_dl_dst v \<noteq> None"
  "wildcards_of v AND OFPFW_DL_VLAN = 0 \<longleftrightarrow> v_dl_vlan v \<noteq> None"
  "wildcards_of v AND OFPFW_DL_VLAN_PCP = 0 \<longleftrightarrow> v_dl_vlan_pcp v \<noteq> None"
  "wildcards_of v AND OFPFW_DL_TYPE = 0 \<longleftrightarrow> v_dl_type v \<noteq> None"
  "wildcards_of v AND OFPFW_NW_TOS = 0 \<longleftrightarrow> v_nw_tos v \<noteq> None"
  "wildcards_of v AND OFPFW_NW_PROTO = 0 \<longleftrightarrow> v_nw_proto v \<noteq> None"
  "wildcards_of v AND OFPFW_TP_SRC = 0 \<longleftrightarrow> v_tp_src v \<noteq> None"
  "wildcards_of v AND OFPFW_TP_DST = 0 \<longleftrightarrow> v_tp_dst v \<noteq> None"
  by (simp_all add: wild_eval flag_defs wild_if_iff del: not_None_eq)

text \<open>The significant bits of an address.\<close>

lemma nw_bits_field:
  assumes "k \<le> 32"
  shows "ucast (drop_bit 8 (push_bit 8 (word_of_nat k :: u32)) AND 63) = (word_of_nat k :: u64)"
    "ucast (drop_bit 14 (push_bit 14 (word_of_nat k :: u32)) AND 63) = (word_of_nat k :: u64)"
proof -
  have "\<forall>k \<in> set [0..<33]. ucast (drop_bit 8 (push_bit 8 (word_of_nat k :: u32)) AND 63) = (word_of_nat k :: u64) \<and>
      ucast (drop_bit 14 (push_bit 14 (word_of_nat k :: u32)) AND 63) = (word_of_nat k :: u64)"
    by (simp add: upt_rec)
  then show "ucast (drop_bit 8 (push_bit 8 (word_of_nat k :: u32)) AND 63) = (word_of_nat k :: u64)"
    "ucast (drop_bit 14 (push_bit 14 (word_of_nat k :: u32)) AND 63) = (word_of_nat k :: u64)"
    using assms by auto
qed

definition wild_bits :: "(u32 \<times> nat) option \<Rightarrow> nat" where
  "wild_bits v = (case v of None \<Rightarrow> 32 | Some (a, n) \<Rightarrow> 32 - n)"

lemma wild_bits_le: "wild_bits v \<le> 32"
  by (simp add: wild_bits_def split: option.split)

lemma num_of_bits_eq:
  "num_of_bits OFPFW_NW_SRC_MASK OFPFW_NW_SRC_SHIFT (wildcards_of v) = word_of_nat (wild_bits (v_nw_src v))"
  "num_of_bits OFPFW_NW_DST_MASK OFPFW_NW_DST_SHIFT (wildcards_of v) = word_of_nat (wild_bits (v_nw_dst v))"
proof -
  have le: "\<not> 32 < (word_of_nat (32 - n) :: u64)" for n
    by (simp add: not_less word_le_nat_alt unat_of_nat)
  show "num_of_bits OFPFW_NW_SRC_MASK OFPFW_NW_SRC_SHIFT (wildcards_of v) = word_of_nat (wild_bits (v_nw_src v))"
    by (simp add: num_of_bits_def wild_eval flag_defs)
      (auto simp: nw_wild_def wild_bits_def nw_bits_field le Let_def split: option.split)
  show "num_of_bits OFPFW_NW_DST_MASK OFPFW_NW_DST_SHIFT (wildcards_of v) = word_of_nat (wild_bits (v_nw_dst v))"
    by (simp add: num_of_bits_def wild_eval flag_defs)
      (auto simp: nw_wild_def wild_bits_def nw_bits_field le Let_def split: option.split)
qed

lemma bit_count_prefix:
  assumes "k \<le> 32"
  shows "bit_count (prefix_mask (word_of_nat k)) = 32 - k"
proof -
  have u: "unat (word_of_nat k :: u64) = k"
    using assms by (simp add: unat_of_nat)
  have "bit (prefix_mask (word_of_nat k)) n \<longleftrightarrow> k \<le> n" if "n < 32" for n
    using that by (simp add: prefix_mask_def u bit_simps push_bit_of_1 flip: mask_eq_exp_minus_1) auto
  then have "filter (bit (prefix_mask (word_of_nat k))) [0..<32] = filter (\<lambda>n. k \<le> n) [0..<32]"
    by (intro filter_cong) auto
  also have "\<dots> = [k..<32]"
  proof -
    have "[0..<32] = [0..<k] @ [k..<32]"
      using assms upt_add_eq_append [of 0 k "32 - k"] by simp
    then show ?thesis
      by (simp add: filter_empty_conv)
  qed
  finally show ?thesis
    by (simp add: bit_count_def)
qed

section \<open>Fields after unpacking an OpenFlow 1.0 match\<close>

lemma be_bytes_Suc: "be_bytes (Suc n) w \<noteq> []"
  using length_be_bytes [of "Suc n" w] by (metis list.size(3) nat.distinct(1))

lemma be_word_single: "be_word [c] = c"
  by (simp add: be_word_def)

lemma oxm_new_simps [simp]:
  "get_u32value (ofb32_new f a) = Inr a" "get_u16value (ofb16_new f b) = Inr b" "get_u8value (ofb8_new f c) = Inr c"
  "length bs = 6 \<Longrightarrow> get_u48value_as_lladdr (ofb48_new f bs) = Inr bs"
  "get_u8value (ofx_new f (be_bytes 1 c)) = Inr c" "get_u8value (ofx_new f [c]) = Inr c" "get_u16value (ofx_new f (be_bytes 2 b)) = Inr b"
proof -
  show "get_u48value_as_lladdr (ofb48_new f bs) = Inr bs" if "length bs = 6"
    using be_bytes_be_word [of bs, where 'a = 64] that by (simp add: ofb48_new_def oxm_new_def)
qed (simp_all add: ofb32_new_def ofb16_new_def ofb8_new_def oxm_new_def ofx_new_def exp_set_value_def
      exp_adjust_oxm_length_def exp_new_def exp_get_value_def be_bytes_Suc be_word_single del: be_bytes.simps)

lemma get_nw_new [simp]: "get_nw (ofx_new_masked f a k) = Inr (a, bit_count k)"
  by (simp add: get_nw_def ofx_new_masked_def exp_set_value_def exp_set_mask_def exp_adjust_oxm_length_def exp_new_def
      exp_get_value_def exp_get_mask_def)

lemma wf_if [simp]: "map_wf (if b then ms else ms') \<longleftrightarrow> (if b then map_wf ms else map_wf ms')"
  by simp

lemma add_unless_simps [simp]:
  "map_wf ms \<Longrightarrow> map_wf (add_unless w f m ms)"
  "map_wf ms \<Longrightarrow> oxm_view g get (add_unless w f m ms) =
     (if f = g \<and> \<not> w then (case get m of Inl e \<Rightarrow> None | Inr v \<Rightarrow> Some v) else oxm_view g get ms)"
  by (simp_all add: add_unless_def container_simps)

lemma add_nw_for:
  "add_nw f OFPFW_NW_SRC_MASK OFPFW_NW_SRC_SHIFT (wildcards_of v) a ms =
     add_oxm f (ofx_new_masked f a (prefix_mask (word_of_nat (wild_bits (v_nw_src v))))) ms"
  "add_nw f OFPFW_NW_DST_MASK OFPFW_NW_DST_SHIFT (wildcards_of v) a ms =
     add_oxm f (ofx_new_masked f a (prefix_mask (word_of_nat (wild_bits (v_nw_dst v))))) ms"
  using wild_bits_le [of "v_nw_src v"] wild_bits_le [of "v_nw_dst v"]
  by (simp_all add: add_nw_def Let_def num_of_bits_eq word_le_nat_alt unat_of_nat)

definition nw_sent :: "(u32 \<times> nat) option \<Rightarrow> u32 \<times> nat" where
  "nw_sent v = or_else v (0, 0)"

lemma nw_sent_bits:
  "nw_sent None = (0, 0)" "nw_sent (Some p) = p"
  "bit_count (prefix_mask (word_of_nat (wild_bits None))) = 0"
  "n \<le> 32 \<Longrightarrow> bit_count (prefix_mask (word_of_nat (wild_bits (Some (a, n))))) = n"
  using bit_count_prefix [OF wild_bits_le, of None] bit_count_prefix [OF wild_bits_le, of "Some (a, n)"]
  by (simp_all add: nw_sent_def wild_bits_def)

text \<open>
  What a receiver makes of a view: the fields that the specification has it ignore are dropped, the
  addresses of an IPv4 or ARP match are always there, an ARP opcode is read from \<open>nw_proto\<close>.
\<close>

definition of10_received :: "of10_view \<Rightarrow> of10_view" where
  "of10_received v =
     (let ip = (v_dl_type v = Some 0x0800); arp = (v_dl_type v = Some 0x0806);
          l4 = (ip \<and> v_nw_proto v \<in> {Some 6, Some 17, Some 1})
      in v\<lparr>v_dl_vlan_pcp := (if v_dl_vlan v = Some 0xffff then None else v_dl_vlan_pcp v),
           v_nw_tos := (if ip then v_nw_tos v else None),
           v_nw_proto := (if ip then v_nw_proto v else None),
           v_nw_src := (if ip \<or> arp then Some (nw_sent (v_nw_src v)) else None),
           v_nw_dst := (if ip \<or> arp then Some (nw_sent (v_nw_dst v)) else None),
           v_tp_src := (if l4 then v_tp_src v else None),
           v_tp_dst := (if l4 then v_tp_dst v else None),
           v_arp_op := (if arp then map_option ucast (v_nw_proto v) else None)\<rparr>)"

definition of10_view_ok :: "of10_view \<Rightarrow> bool" where
  "of10_view_ok v \<longleftrightarrow>
     (\<forall>b. v_dl_src v = Some b \<longrightarrow> length b = 6) \<and> (\<forall>b. v_dl_dst v = Some b \<longrightarrow> length b = 6) \<and>
     (\<forall>a n. v_nw_src v = Some (a, n) \<longrightarrow> n \<le> 32) \<and> (\<forall>a n. v_nw_dst v = Some (a, n) \<longrightarrow> n \<le> 32)"

lemma of10_view_of_ok: "of10_view_ok (of10_view_of ms)"
proof -
  have 6: "length b = 6" if "get_u48value_as_lladdr x = Inr b" for x b
    using that by (cases x) auto
  show ?thesis
    by (auto simp: of10_view_ok_def of10_view_of_def dest!: oxm_view_SomeD dest: get_nw_le 6)
qed

lemma view_if: "oxm_view f get (if b then ms else ms') = (if b then oxm_view f get ms else oxm_view f get ms')"
  by simp

lemma unpack_of10_view:
  assumes "of10_view_ok v"
  shows "of10_view_of (unpack_of10_match (ofp10_match_for v)) = of10_received v"
proof -
  note A = assms [unfolded of10_view_ok_def]
  have L: "length (or_else (v_dl_src v) (replicate 6 0)) = 6" "length (or_else (v_dl_dst v) (replicate 6 0)) = 6"
    using A by (auto simp: or_else_def split: option.split)
  have P: "v_nw_src v = Some (a, n) \<Longrightarrow> n \<le> 32" "v_nw_dst v = Some (a, n) \<Longrightarrow> n \<le> 32" for a n
    using A by simp_all
  have D: "v_dl_src v = Some b \<Longrightarrow> length b = 6" "v_dl_dst v = Some b \<Longrightarrow> length b = 6" for b
    using A by simp_all
  have U: "ucast (ucast x :: u32) = x" for x :: u16
    by (rule bit_word_eqI) (auto simp: bit_simps)
  note S = D U of10_view_of_def unpack_of10_match_def ofp10_match_for_def Let_def view_if add_nw_for
    container_simps wild_flags L P nw_sent_bits of10_received_def
  consider "v_dl_type v = None" | "v_dl_type v = Some 0x0806" | "v_dl_type v = Some 0x0800"
    | t where "v_dl_type v = Some t" "t \<noteq> 0x0806" "t \<noteq> 0x0800"
    by (cases "v_dl_type v") auto
  then show ?thesis
  proof cases
    case 3
    then show ?thesis
      by (intro of10_view.equality) (auto simp: S or_else_def split: option.splits)
  qed (intro of10_view.equality; auto simp: S or_else_def split: option.splits)+
qed

section \<open>The promises for OpenFlow 1.0\<close>

lemma of10_roundtrip_exact:
  assumes "of10_readable ms" "40 \<le> length buf"
  shows "pack_of10 buf ms = Inr (ofp10_match_bytes (ofp10_match_for (of10_view_of ms)) @ replicate (length buf - 40) 0)"
    and "unpack_of10 (ofp10_match_bytes (ofp10_match_for (of10_view_of ms)) @ rest) =
      (unpack_of10_match (ofp10_match_for (of10_view_of ms)), None)"
proof -
  show "pack_of10 buf ms = Inr (ofp10_match_bytes (ofp10_match_for (of10_view_of ms)) @ replicate (length buf - 40) 0)"
    using assms by (simp add: pack_of10_def steps_view)
  have "length (dl_src (ofp10_match_for (of10_view_of ms))) = 6" "length (dl_dst (ofp10_match_for (of10_view_of ms))) = 6"
    using of10_view_of_ok [of ms] by (auto simp: of10_view_ok_def ofp10_match_for_def or_else_def split: option.split)
  then show "unpack_of10 (ofp10_match_bytes (ofp10_match_for (of10_view_of ms)) @ rest) =
      (unpack_of10_match (ofp10_match_for (of10_view_of ms)), None)"
    by (simp add: unpack_of10_def ofp10_match_of_bytes)
qed

text \<open>What has been unpacked can be packed again.\<close>

lemma readable_Nil [simp]: "oxm_readable f get []"
  by (simp add: oxm_readable_def has_oxm_def)

lemma readable_add [container_simps]:
  "map_wf ms \<Longrightarrow> oxm_readable g get (add_oxm f m ms) \<longleftrightarrow> (if f = g then \<exists>v. get m = Inr v else oxm_readable g get ms)"
  by (auto simp: oxm_readable_def container_simps split: sum.splits)

lemma readable_add_unless [simp]:
  "map_wf ms \<Longrightarrow> oxm_readable g get (add_unless w f m ms) \<longleftrightarrow>
     (if f = g \<and> \<not> w then \<exists>v. get m = Inr v else oxm_readable g get ms)"
  by (simp add: add_unless_def container_simps)

lemma readable_if: "oxm_readable f get (if b then ms else ms') \<longleftrightarrow> (if b then oxm_readable f get ms else oxm_readable f get ms')"
  by simp

lemma unpack_of10_readable:
  assumes "of10_view_ok v"
  shows "of10_readable (unpack_of10_match (ofp10_match_for v))"
proof -
  have L: "length (or_else (v_dl_src v) (replicate 6 0)) = 6" "length (or_else (v_dl_dst v) (replicate 6 0)) = 6"
    using assms by (auto simp: of10_view_ok_def or_else_def split: option.split)
  show ?thesis
    by (simp add: of10_readable_def unpack_of10_match_def ofp10_match_for_def Let_def readable_if add_nw_for
        container_simps L)
qed

lemma of10_roundtrip_view:
  assumes "of_version m = 1" "of_version m0 = 1" "of10_readable (matches m)" "40 \<le> length buf"
  shows "\<exists>out m'. cofmatch_pack buf m = (m, Inr out) \<and> length out = length buf \<and>
    drop 40 out = replicate (length buf - 40) 0 \<and> cofmatch_unpack out m0 = (m', None) \<and>
    of_version m' = 1 \<and> of10_readable (matches m') \<and>
    of10_view_of (matches m') = of10_received (of10_view_of (matches m))"
proof -
  let ?v = "of10_view_of (matches m)"
  have "length (ofp10_match_bytes (ofp10_match_for ?v)) = 40"
    using of10_view_of_ok [of "matches m"]
    by (auto simp: of10_view_ok_def ofp10_match_for_def or_else_def split: option.split)
  then show ?thesis
    using assms of10_roundtrip_exact [OF assms(3,4)] unpack_of10_view [OF of10_view_of_ok, of "matches m"]
      unpack_of10_readable [OF of10_view_of_ok, of "matches m"]
    by (simp add: cofmatch_pack_def cofmatch_unpack_def)
qed

text \<open>
  C24: an OpenFlow 1.0 match travels as its view.  A match of version 1 whose fields can be read is
  packed to forty bytes, the rest of the buffer is zeroed; unpacking the buffer gives a match of which
  the view is what the specification lets a receiver see: protocol fields without their Ethertype or
  protocol are dropped, addresses keep their value and the number of significant bits, an ARP match
  turns \<open>nw_proto\<close> into the ARP opcode.
\<close>

theorem of10_roundtrip:
  assumes "of_version m = 1" "of_version m0 = 1" "of10_readable (matches m)" "40 \<le> length buf"
  shows "\<exists>out m'. cofmatch_pack buf m = (m, Inr out) \<and> length out = length buf \<and>
    drop 40 out = replicate (length buf - 40) 0 \<and> cofmatch_unpack out m0 = (m', None) \<and>
    of10_view_of (matches m') = of10_received (of10_view_of (matches m))"
  using of10_roundtrip_view [OF assms] by blast

definition tcp_match :: cofmatch where
  "tcp_match = set_nw_proto 6 (set_nw_src_masked 0x0a000000 0xff000000 (set_eth_type 0x0800 (set_in_port 5 (cofmatch_new 1 1))))"

lemma tcp_match_fields: "matches tcp_match =
    [(0x80000000, Cls OFB_IN_PORT, ofb32_new OFB_IN_PORT 5),
     (0x80000a00, Cls OFB_ETH_TYPE, ofb16_new OFB_ETH_TYPE 0x0800),
     (0xa1a2a3a4ffff0000, Cls OFX_NW_SRC, ofx_new_masked OFX_NW_SRC 0x0a000000 0xff000000),
     (0xa1a2a3a4ffff0400, Cls OFX_NW_PROTO, ofx_new OFX_NW_PROTO [6])]"
  by (simp add: tcp_match_def set_nw_proto_def set_nw_src_masked_def set_eth_type_def set_in_port_def cofmatch_new_def
      add_oxm_def oxm_key_values)

lemma tcp_match_readable: "of10_readable (matches tcp_match)"
  by (simp add: tcp_match_fields of10_readable_def oxm_readable_def has_oxm_def oxm_view_def get_oxm_def oxm_key_values)

theorem of10_roundtrip_witness:
  "\<exists>out m'. cofmatch_pack (replicate 48 9) tcp_match = (tcp_match, Inr out) \<and> length out = 48 \<and>
    drop 40 out = replicate 8 0 \<and> cofmatch_unpack out (cofmatch_new 1 1) = (m', None) \<and>
    of10_view_of (matches m') = of10_received (of10_view_of (matches tcp_match))"
proof -
  have v: "of_version tcp_match = 1" "of_version (cofmatch_new 1 1) = 1" "40 \<le> length (replicate 48 (9 :: byte))"
    by (simp_all add: tcp_match_def cofmatch_new_def set_nw_proto_def set_nw_src_masked_def set_eth_type_def set_in_port_def)
  show ?thesis
    using of10_roundtrip [OF v(1,2) tcp_match_readable v(3)] by simp
qed

text \<open>
  An address set without a mask matches everything.  \<open>set_nw_src(addr)\<close> leaves an address that is
  packed with all its bits wildcarded, whatever the address.
\<close>

theorem set_nw_src_matches_all:
  assumes "map_wf (matches m)" "of10_readable (matches (set_nw_src src m))" "40 \<le> length buf"
  shows "\<exists>out. pack_of10 buf (matches (set_nw_src src m)) = Inr out \<and> nw_src (ofp10_match_of out) = src \<and>
    wildcards (ofp10_match_of out) AND OFPFW_NW_SRC_MASK = OFPFW_NW_SRC_ALL"
proof -
  let ?v = "of10_view_of (matches (set_nw_src src m))"
  have v: "v_nw_src ?v = Some (src, 0)"
    using assms(1) by (simp add: of10_view_of_def set_nw_src_def container_simps bit_count_def)
  have "length (dl_src (ofp10_match_for ?v)) = 6" "length (dl_dst (ofp10_match_for ?v)) = 6"
    using of10_view_of_ok [of "matches (set_nw_src src m)"]
    by (auto simp: of10_view_ok_def ofp10_match_for_def or_else_def split: option.split)
  moreover have "wildcards_of ?v AND OFPFW_NW_SRC_MASK = OFPFW_NW_SRC_ALL"
    by (simp add: wild_eval flag_defs v) (simp add: nw_wild_def)
  ultimately show ?thesis
    using of10_roundtrip_exact(1) [OF assms(2,3)]
    by (simp add: ofp10_match_of_bytes) (simp add: ofp10_match_for_def v)
qed

theorem set_nw_src_matches_all_example:
  "\<exists>out. pack_of10 (replicate 40 0) (matches (set_nw_src 0x0a000001 (set_eth_type 0x0800 (cofmatch_new 1 1)))) = Inr out \<and>
     nw_src (ofp10_match_of out) = 0x0a000001 \<and> wildcards (ofp10_match_of out) AND OFPFW_NW_SRC_MASK = OFPFW_NW_SRC_ALL"
  by (rule set_nw_src_matches_all)
    (simp_all add: set_nw_src_def set_eth_type_def cofmatch_new_def of10_readable_def container_simps)

text \<open>
  The ARP opcode does not survive OpenFlow 1.0.  It is unpacked into a field of its own that
  \<open>pack\<close> does not look at: a received ARP match that is sent on has lost its opcode.
\<close>

theorem arp_opcode_lost:
  assumes "of_version m = 1" "of10_readable (matches m)" "40 \<le> length buf"
    and "v_dl_type (of10_view_of (matches m)) = Some 0x0806" "v_nw_proto (of10_view_of (matches m)) = Some opcode"
  shows "\<exists>out m1 out2 m2. cofmatch_pack buf m = (m, Inr out) \<and> cofmatch_unpack out m = (m1, None) \<and>
    v_arp_op (of10_view_of (matches m1)) = Some (ucast opcode) \<and>
    cofmatch_pack buf m1 = (m1, Inr out2) \<and> cofmatch_unpack out2 m1 = (m2, None) \<and>
    v_arp_op (of10_view_of (matches m2)) = None"
proof -
  obtain out m1 where 1: "cofmatch_pack buf m = (m, Inr out)" "cofmatch_unpack out m = (m1, None)" "of_version m1 = 1"
    "of10_readable (matches m1)" "of10_view_of (matches m1) = of10_received (of10_view_of (matches m))"
    using of10_roundtrip_view [OF assms(1) assms(1-3)] by blast
  obtain out2 m2 where 2: "cofmatch_pack buf m1 = (m1, Inr out2)" "cofmatch_unpack out2 m1 = (m2, None)"
    "of10_view_of (matches m2) = of10_received (of10_view_of (matches m1))"
    using of10_roundtrip_view [OF 1(3) 1(3) 1(4) assms(3)] by blast
  show ?thesis
    using 1 2 assms(4,5) by (auto simp: of10_received_def Let_def)
qed

definition arp_match :: cofmatch where
  "arp_match = set_nw_proto 1 (set_eth_type 0x0806 (cofmatch_new 1 1))"

theorem arp_opcode_lost_example:
  "\<exists>out m1 out2 m2. cofmatch_pack (replicate 40 0) arp_match = (arp_match, Inr out) \<and>
    cofmatch_unpack out arp_match = (m1, None) \<and> v_arp_op (of10_view_of (matches m1)) = Some 1 \<and>
    cofmatch_pack (replicate 40 0) m1 = (m1, Inr out2) \<and> cofmatch_unpack out2 m1 = (m2, None) \<and>
    v_arp_op (of10_view_of (matches m2)) = None"
  using arp_opcode_lost [of arp_match "replicate 40 0" 1]
  by (simp add: arp_match_def set_nw_proto_def set_eth_type_def cofmatch_new_def of10_readable_def of10_view_of_def
      container_simps del: One_nat_def)

section \<open>The promises for OpenFlow 1.2 and 1.3\<close>

lemma cofmatch_length_of13:
  assumes "of_version m = 3 \<or> of_version m = 4" "coxmatches_length (matches m) = Inr n"
  obtains p where "cofmatch_length m = Inr (4 + n + p)" "p < 8" "8 dvd 4 + n + p"
proof -
  define p where "p = (if (4 + n) mod 8 = 0 then 0 else 8 - (4 + n) mod 8)"
  have "cofmatch_length m = Inr (4 + n + p)"
    using assms by (auto simp: cofmatch_length_def p_def Let_def)
  moreover have "p < 8" "8 dvd 4 + n + p"
    unfolding p_def by presburger+
  ultimately show ?thesis
    by (rule that)
qed

text \<open>
  C36: an OpenFlow 1.2 or 1.3 match travels unchanged.  A match of well-formed fields has a length that
  is a multiple of eight, is packed into a zeroed buffer of that length, and unpacked from it with the
  same keys, classes, types, values and masks: the padding is not taken for a field.
\<close>

theorem of13_roundtrip:
  assumes "of_version m \<in> {3, 4}" "of_version m0 \<in> {3, 4}" "match_type m = OFPMT_OXM"
    and "list_all entry_ok (matches m)" "map_wf (matches m)"
  shows "\<exists>len m1 out m2. cofmatch_length m = Inr len \<and> 8 dvd len \<and>
    cofmatch_pack (replicate len 0) m = (m1, Inr out) \<and> length out = len \<and>
    cofmatch_unpack out m0 = (m2, None) \<and> map entry_data (matches m2) = map entry_data (matches m)"
proof -
  obtain n where n: "coxmatches_length (matches m) = Inr n"
    and rt: "\<And>buf p old. n \<le> length buf \<Longrightarrow> p < 8 \<Longrightarrow>
      \<exists>ms1 out ms2. coxmatches_pack buf (matches m) = (ms1, Inr (out @ drop n buf)) \<and> length out = n \<and>
        coxmatches_unpack (out @ replicate p 0) old = (ms2, None) \<and> map entry_data ms2 = map entry_data (matches m)"
    using coxmatches_roundtrip_exact [OF assms(4,5)] by blast
  have v: "of_version m = 3 \<or> of_version m = 4" "of_version m0 = 3 \<or> of_version m0 = 4"
    using assms(1,2) by auto
  obtain p where p: "cofmatch_length m = Inr (4 + n + p)" "p < 8" "8 dvd 4 + n + p"
    by (rule cofmatch_length_of13 [OF v(1) n])
  obtain ms1 out ms2 where r: "coxmatches_pack (replicate n 0) (matches m) = (ms1, Inr out)" "length out = n"
    "coxmatches_unpack (out @ replicate p 0) [] = (ms2, None)" "map entry_data ms2 = map entry_data (matches m)"
    using rt [of "replicate n 0" p "[]"] p(2) by auto
  let ?out = "be16 (match_type m) @ be16 (word_of_nat (2 * 2 + n)) @ out @ replicate p 0"
  have "cofmatch_pack (replicate (4 + n + p) 0) m = (m\<lparr>matches := ms1\<rparr>, Inr ?out)"
    using v(1) p n r(1) by (auto simp: cofmatch_pack_def pack_of13_def min_def)
  moreover have "unpack_of13 ?out m0 = (m0\<lparr>matches := ms2, match_type := OFPMT_OXM\<rparr>, None)"
  proof -
    have "drop 4 ?out = out @ replicate p 0" "de16 (?out ! 0) (?out ! 1) = match_type m"
      by (simp_all add: be16_def)
    moreover have "ms2 = []" if "out @ replicate p 0 = []"
      using r(3) unfolding that by (simp add: coxmatches_unpack_def unpack_matches.simps)
    ultimately show ?thesis
      using r(2,3) assms(3) by (auto simp: unpack_of13_def Let_def coxmatches_clear_def)
  qed
  ultimately show ?thesis
    using v(2) p r(2,4) by (intro exI [of _ "4 + n + p"] exI [of _ "m\<lparr>matches := ms1\<rparr>"] exI [of _ ?out]
        exI [of _ "m0\<lparr>matches := ms2, match_type := OFPMT_OXM\<rparr>"]) (auto simp: cofmatch_unpack_def)
qed

theorem of13_roundtrip_witness:
  "\<exists>len m1 out m2. cofmatch_length \<lparr>of_version = 4, matches = oxms_example, match_type = OFPMT_OXM\<rparr> = Inr len \<and> 8 dvd len \<and>
    cofmatch_pack (replicate len 0) \<lparr>of_version = 4, matches = oxms_example, match_type = OFPMT_OXM\<rparr> = (m1, Inr out) \<and>
    length out = len \<and> cofmatch_unpack out (cofmatch_new 4 0) = (m2, None) \<and>
    map entry_data (matches m2) = map entry_data oxms_example"
  using of13_roundtrip [of "\<lparr>of_version = 4, matches = oxms_example, match_type = OFPMT_OXM\<rparr>" "cofmatch_new 4 0"]
    oxms_example_ok by (simp add: cofmatch_new_def)

end
