(* ===== verification/Cofmatch_Check.thy ===== *)
theory Cofmatch_Check
  imports Cofmatch_Wire
begin

text \<open>The check of prerequisites of a flow match: what passes is layered, what fails throws.\<close>

lemma has_Nil [simp]: "\<not> has_oxm f []"
  by (simp add: has_oxm_def)

lemma check_each_None:
  "check_each ms cs = None \<longleftrightarrow> (\<forall>(f, cond) \<in> set cs. has_oxm f ms \<longrightarrow> cond ms = Inr True)"
  by (induction ms cs rule: check_each.induct) (auto split: sum.splits)

lemma value_in_True:
  "value_in f get ts ms = Inr True \<longleftrightarrow> (\<exists>v \<in> set ts. oxm_view f get ms = Some v)"
proof (cases "has_oxm f ms")
  case True
  then show ?thesis
    by (cases "rbind (get_oxm f ms) get") (auto simp: value_in_def oxm_view_def rbind_def split: sum.splits)
next
  case False
  then show ?thesis
    by (auto simp: value_in_def dest: oxm_view_SomeD)
qed

lemma value_in_has: "value_in f get ts ms = Inr True \<Longrightarrow> has_oxm f ms"
  by (auto simp: value_in_def split: if_splits)

text \<open>The protocol number of a transport field, and the fields of ARP.\<close>

fun transport_of :: "oxm_field \<Rightarrow> u8 option" where
  "transport_of OFB_TCP_SRC = Some 6" | "transport_of OFB_TCP_DST = Some 6"
| "transport_of OFB_UDP_SRC = Some 17" | "transport_of OFB_UDP_DST = Some 17"
| "transport_of OFB_SCTP_SRC = Some 132" | "transport_of OFB_SCTP_DST = Some 132"
| "transport_of OFB_ICMPV4_TYPE = Some 1" | "transport_of OFB_ICMPV4_CODE = Some 1"
| "transport_of OFB_ICMPV6_TYPE = Some 58" | "transport_of OFB_ICMPV6_CODE = Some 58"
| "transport_of OFB_IPV6_ND_TARGET = Some 58" | "transport_of OFB_IPV6_ND_SLL = Some 58"
| "transport_of OFB_IPV6_ND_TLL = Some 58"
| "transport_of _ = None"

definition arp_fields :: "oxm_field set" where
  "arp_fields = {OFB_ARP_OP, OFB_ARP_SPA, OFB_ARP_TPA, OFB_ARP_SHA, OFB_ARP_THA}"

lemma accepted_rule:
  assumes "check_each ms prerequisites = None" "has_oxm f ms" "(f, cond) \<in> set prerequisites"
  shows "cond ms = Inr True"
  using assms by (auto simp: check_each_None)

text \<open>Rows of the table.\<close>

lemma prerequisites_rows:
  "(OFB_IP_PROTO, value_in OFB_ETH_TYPE get_u16value [0x0800, 0x86dd]) \<in> set prerequisites"
  "(OFB_IPV6_ND_TARGET, value_in OFB_ICMPV6_TYPE get_u8value [135, 136]) \<in> set prerequisites"
  "(OFB_IPV6_ND_SLL, value_in OFB_ICMPV6_TYPE get_u8value [135]) \<in> set prerequisites"
  "(OFB_IPV6_ND_TLL, value_in OFB_ICMPV6_TYPE get_u8value [136]) \<in> set prerequisites"
  "(OFB_ICMPV6_TYPE, value_in OFB_IP_PROTO get_u8value [58]) \<in> set prerequisites"
  by (simp_all add: prerequisites_def Let_def)

lemma prerequisites_arp: "g \<in> arp_fields \<Longrightarrow> (g, value_in OFB_ETH_TYPE get_u16value [0x0806]) \<in> set prerequisites"
  unfolding arp_fields_def by (elim insertE emptyE) (simp_all add: prerequisites_def Let_def)

lemma prerequisites_transport:
  assumes "transport_of f = Some p"
  shows "(f, value_in OFB_IP_PROTO get_u8value [p]) \<in> set prerequisites \<or>
    p = 58 \<and> (\<exists>ts. (f, value_in OFB_ICMPV6_TYPE get_u8value ts) \<in> set prerequisites)"
proof (cases "f \<in> {OFB_IPV6_ND_TARGET, OFB_IPV6_ND_SLL, OFB_IPV6_ND_TLL}")
  case True
  then show ?thesis
    using assms prerequisites_rows by (elim insertE emptyE) auto
next
  case False
  then show ?thesis
    using assms by (cases f) (simp_all add: prerequisites_def Let_def)
qed

lemma accepted_ip_proto:
  assumes "check_each ms prerequisites = None" "has_oxm OFB_IP_PROTO ms"
  shows "\<exists>t \<in> {0x0800, 0x86dd}. oxm_view OFB_ETH_TYPE get_u16value ms = Some t"
  using accepted_rule [OF assms prerequisites_rows(1)] unfolding value_in_True by simp

lemma accepted_transport:
  assumes "check_each ms prerequisites = None" "has_oxm f ms" "transport_of f = Some p"
  shows "oxm_view OFB_IP_PROTO get_u8value ms = Some p \<and> has_oxm OFB_IP_PROTO ms"
proof -
  have direct: ?thesis
    if "(g, value_in OFB_IP_PROTO get_u8value [p]) \<in> set prerequisites" "has_oxm g ms" for g
  proof -
    have "value_in OFB_IP_PROTO get_u8value [p] ms = Inr True"
      by (rule accepted_rule [OF assms(1) that(2) that(1)])
    then show ?thesis
      using value_in_has [of OFB_IP_PROTO get_u8value "[p]" ms] by (simp add: value_in_True)
  qed
  show ?thesis
    using prerequisites_transport [OF assms(3)]
  proof (elim disjE conjE exE)
    fix ts
    assume p: "p = 58" and row: "(f, value_in OFB_ICMPV6_TYPE get_u8value ts) \<in> set prerequisites"
    have "has_oxm OFB_ICMPV6_TYPE ms"
      by (rule value_in_has [OF accepted_rule [OF assms(1,2) row]])
    with p show ?thesis
      using prerequisites_rows(5) by (intro direct [of OFB_ICMPV6_TYPE]) simp_all
  qed (rule direct [OF _ assms(2)])
qed

text \<open>
  C17: a match that passes the check is layered.  A transport field comes with the protocol number
  it belongs to (neighbour discovery included, through the ICMPv6 type), the protocol number with an
  IP Ethertype, and there is no ARP field next to it.
\<close>

theorem accepted_match_layers:
  assumes "of_version m \<in> {3, 4}" "check_prerequisites m = None"
    and "has_oxm f (matches m)" "transport_of f = Some p"
  shows "oxm_view OFB_IP_PROTO get_u8value (matches m) = Some p \<and>
    oxm_view OFB_ETH_TYPE get_u16value (matches m) \<in> {Some 0x0800, Some 0x86dd} \<and>
    (\<forall>g \<in> arp_fields. \<not> has_oxm g (matches m))"
proof -
  let ?ms = "matches m"
  have ok: "check_each ?ms prerequisites = None"
    using assms(1,2) by (auto simp: check_prerequisites_def Let_def)
  note proto = accepted_transport [OF ok assms(3,4)]
  then obtain t where t: "t \<in> {0x0800, 0x86dd}" "oxm_view OFB_ETH_TYPE get_u16value ?ms = Some t"
    using accepted_ip_proto [OF ok] by blast
  have "\<not> has_oxm g ?ms" if "g \<in> arp_fields" for g
  proof
    assume "has_oxm g ?ms"
    then have "value_in OFB_ETH_TYPE get_u16value [0x0806] ?ms = Inr True"
      using accepted_rule [OF ok _ prerequisites_arp [OF that]] by blast
    with t show False
      unfolding value_in_True by auto
  qed
  with proto t show ?thesis
    by auto
qed

definition udp_match :: cofmatch where
  "udp_match =
     \<lparr>of_version = 4,
      matches = add_oxm OFB_UDP_DST (ofb16_new OFB_UDP_DST 53) (add_oxm OFB_IP_PROTO (ofb8_new OFB_IP_PROTO 17)
                  (add_oxm OFB_ETH_TYPE (ofb16_new OFB_ETH_TYPE 0x0800) [])),
      match_type = OFPMT_OXM\<rparr>"

lemma udp_match_fields: "has_oxm f (matches udp_match) \<longleftrightarrow> f \<in> {OFB_UDP_DST, OFB_IP_PROTO, OFB_ETH_TYPE}"
  by (auto simp: udp_match_def container_simps)

lemma udp_match_accepted: "check_prerequisites udp_match = None"
proof -
  have "value_in OFB_ETH_TYPE get_u16value [0x0800, 0x86dd] (matches udp_match) = Inr True"
    "value_in OFB_IP_PROTO get_u8value [17] (matches udp_match) = Inr True"
    by (simp_all add: value_in_True udp_match_def container_simps)
  then show ?thesis
    by (auto simp: check_prerequisites_def check_each_None udp_match_fields prerequisites_def Let_def)
qed

theorem accepted_match_layers_witness:
  "oxm_view OFB_IP_PROTO get_u8value (matches udp_match) = Some 17 \<and>
   oxm_view OFB_ETH_TYPE get_u16value (matches udp_match) \<in> {Some 0x0800, Some 0x86dd} \<and>
   \<not> (\<exists>g \<in> arp_fields. has_oxm g (matches udp_match))"
  using accepted_match_layers [of udp_match OFB_UDP_DST]
  by (simp add: udp_match_accepted udp_match_fields) (simp add: udp_match_def)

text \<open>
  The check throws what it should not.  For a VLAN priority without a VLAN id it asks for an element
  that is not there: the caller gets \<open>eOxmInval\<close>, not \<open>eBadMatchBadPrereq\<close>, and no error message is sent.
\<close>

theorem vlan_pcp_without_vid:
  assumes "of_version m \<in> {3, 4}" "has_oxm OFB_VLAN_PCP (matches m)" "\<not> has_oxm OFB_VLAN_VID (matches m)"
    and "has_oxm OFB_IN_PHY_PORT (matches m) \<Longrightarrow> has_oxm OFB_IN_PORT (matches m)"
  shows "check_prerequisites m = Some EOxmInval"
  using assms by (auto simp: check_prerequisites_def prerequisites_def Let_def get_oxm_absent)

theorem vlan_pcp_without_vid_example:
  "check_prerequisites (set_vlan_pcp 3 (cofmatch_new 4 1)) = Some EOxmInval"
  by (rule vlan_pcp_without_vid) (simp_all add: set_vlan_pcp_def cofmatch_new_def container_simps)

end
