(* ===== verification/Crofctl_Errors.thy ===== *)
theory Crofctl_Errors
  imports Rofl_Prelude
begin

text \<open>
  Exceptions of request handlers and the OpenFlow error messages they become
  (\<open>openflow/openflow_rofl_exceptions.h\<close>, \<open>openflow/messages/cofmsg_error.h\<close>, the catch clauses of
  \<open>crofctl::handle_recv\<close> in \<open>crofctl.cc\<close>).

  Every exception class of OpenFlow belongs to a family with a base class; a family is a data type
  with the source's class names.  The error class that answers an exception is a constructor call: it
  gives type and code of the message, or it throws when the protocol version does not have the error.
\<close>

datatype error_msg = Err (err_type: u16) (err_code: u16)

type_synonym error_ctor = "error_msg result option"

definition any_version :: "error_msg \<Rightarrow> u8 \<Rightarrow> error_ctor" where
  "any_version m version = Some (Inr m)"

definition from_version :: "u8 \<Rightarrow> error_msg \<Rightarrow> u8 \<Rightarrow> error_ctor" where
  "from_version first m version = Some (if version < first then Inl EBadVersion else Inr m)"

definition by_version :: "error_msg \<Rightarrow> error_msg \<Rightarrow> u8 \<Rightarrow> error_ctor" where
  "by_version m10 m12 version = Some (Inr (if version = 1 then m10 else m12))"

definition no_class :: "u8 \<Rightarrow> error_ctor" where
  "no_class version = None"

section \<open>The families\<close>

datatype bad_request_exn =
      eBadRequestBadVersion | eBadRequestBadType | eBadRequestBadStat | eBadRequestBadExperimenter
  | eBadRequestBadExpType | eBadRequestEperm | eBadRequestBadLen | eBadRequestBufferEmpty
  | eBadRequestBufferUnknown | eBadRequestBadTableId | eBadRequestIsSlave | eBadRequestBadPort
  | eBadRequestBadPacket | eBadRequestMultipartBufferOverflow | eBadRequestBase

fun bad_request_error :: "bad_request_exn \<Rightarrow> u8 \<Rightarrow> error_ctor" where
  "bad_request_error eBadRequestBadVersion = any_version (Err 1 0)"
| "bad_request_error eBadRequestBadType = any_version (Err 1 1)"
| "bad_request_error eBadRequestBadStat = any_version (Err 1 2)"
| "bad_request_error eBadRequestBadExperimenter = any_version (Err 1 3)"
| "bad_request_error eBadRequestBadExpType = any_version (Err 1 4)"
| "bad_request_error eBadRequestEperm = any_version (Err 1 5)"
| "bad_request_error eBadRequestBadLen = any_version (Err 1 6)"
| "bad_request_error eBadRequestBufferEmpty = any_version (Err 1 7)"
| "bad_request_error eBadRequestBufferUnknown = any_version (Err 1 8)"
| "bad_request_error eBadRequestBadTableId = any_version (Err 1 9)"
| "bad_request_error eBadRequestIsSlave = any_version (Err 1 10)"
| "bad_request_error eBadRequestBadPort = any_version (Err 1 11)"
| "bad_request_error eBadRequestBadPacket = any_version (Err 1 12)"
| "bad_request_error eBadRequestMultipartBufferOverflow = any_version (Err 1 13)"
| "bad_request_error eBadRequestBase = no_class"

datatype switch_config_exn =
      eSwitchConfigBadFlags | eSwitchConfigBadLen | eSwitchConfigEPerm | eSwitchConfigBase

fun switch_config_error :: "switch_config_exn \<Rightarrow> u8 \<Rightarrow> error_ctor" where
  "switch_config_error eSwitchConfigBadFlags = from_version 3 (Err 10 0)"
| "switch_config_error eSwitchConfigBadLen = from_version 3 (Err 10 1)"
| "switch_config_error eSwitchConfigEPerm = from_version 3 (Err 10 2)"
| "switch_config_error eSwitchConfigBase = no_class"

datatype flow_mod_exn =
      eFlowModUnknown | eFlowModTableFull | eFlowModBadTableId | eFlowModOverlap | eFlowModEperm
  | eFlowModBadTimeout | eFlowModBadCommand | eFlowModBadFlags | eFlowModBase

fun flow_mod_error :: "flow_mod_exn \<Rightarrow> u8 \<Rightarrow> error_ctor" where
  "flow_mod_error eFlowModUnknown = from_version 3 (Err 5 0)"
| "flow_mod_error eFlowModTableFull = by_version (Err 3 0) (Err 5 1)"
| "flow_mod_error eFlowModBadTableId = from_version 3 (Err 5 2)"
| "flow_mod_error eFlowModOverlap = by_version (Err 3 1) (Err 5 3)"
| "flow_mod_error eFlowModEperm = by_version (Err 3 2) (Err 5 4)"
| "flow_mod_error eFlowModBadTimeout = by_version (Err 3 3) (Err 5 5)"
| "flow_mod_error eFlowModBadCommand = by_version (Err 3 4) (Err 5 6)"
| "flow_mod_error eFlowModBadFlags = from_version 4 (Err 5 7)"
| "flow_mod_error eFlowModBase = no_class"

datatype group_mod_exn =
      eGroupModExists | eGroupModInvalGroup | eGroupModWeightUnsupported | eGroupModOutOfGroups
  | eGroupModOutOfBuckets | eGroupModChainingUnsupported | eGroupModWatchUnsupported | eGroupModLoop
  | eGroupModUnknownGroup | eGroupModChainedGroup | eGroupModBadType | eGroupModBadCommand | eGroupModBadBucket
  | eGroupModBadWatch | eGroupModEperm | eGroupModBase

fun group_mod_error :: "group_mod_exn \<Rightarrow> u8 \<Rightarrow> error_ctor" where
  "group_mod_error eGroupModExists = from_version 3 (Err 6 0)"
| "group_mod_error eGroupModInvalGroup = from_version 3 (Err 6 1)"
| "group_mod_error eGroupModWeightUnsupported = from_version 3 (Err 6 2)"
| "group_mod_error eGroupModOutOfGroups = from_version 3 (Err 6 3)"
| "group_mod_error eGroupModOutOfBuckets = from_version 3 (Err 6 4)"
| "group_mod_error eGroupModChainingUnsupported = from_version 3 (Err 6 5)"
| "group_mod_error eGroupModWatchUnsupported = from_version 3 (Err 6 6)"
| "group_mod_error eGroupModLoop = from_version 3 (Err 6 7)"
| "group_mod_error eGroupModUnknownGroup = from_version 3 (Err 6 8)"
| "group_mod_error eGroupModChainedGroup = from_version 3 (Err 6 9)"
| "group_mod_error eGroupModBadType = from_version 3 (Err 6 10)"
| "group_mod_error eGroupModBadCommand = from_version 3 (Err 6 11)"
| "group_mod_error eGroupModBadBucket = from_version 3 (Err 6 12)"
| "group_mod_error eGroupModBadWatch = from_version 3 (Err 6 13)"
| "group_mod_error eGroupModEperm = from_version 3 (Err 6 14)"
| "group_mod_error eGroupModBase = no_class"

datatype port_mod_exn =
      ePortModBadPort | ePortModBadHwAddr | ePortModBadConfig | ePortModBadAdvertise | ePortModEperm
  | ePortModBase

fun port_mod_error :: "port_mod_exn \<Rightarrow> u8 \<Rightarrow> error_ctor" where
  "port_mod_error ePortModBadPort = from_version 3 (Err 7 0)"
| "port_mod_error ePortModBadHwAddr = from_version 3 (Err 7 1)"
| "port_mod_error ePortModBadConfig = from_version 3 (Err 7 2)"
| "port_mod_error ePortModBadAdvertise = from_version 3 (Err 7 3)"
| "port_mod_error ePortModEperm = from_version 3 (Err 7 4)"
| "port_mod_error ePortModBase = no_class"

datatype table_mod_exn =
      eTableModBadTable | eTableModBadConfig | eTableModEperm | eTableModBase

fun table_mod_error :: "table_mod_exn \<Rightarrow> u8 \<Rightarrow> error_ctor" where
  "table_mod_error eTableModBadTable = from_version 3 (Err 8 0)"
| "table_mod_error eTableModBadConfig = from_version 3 (Err 8 1)"
| "table_mod_error eTableModEperm = from_version 3 (Err 8 2)"
| "table_mod_error eTableModBase = no_class"

datatype bad_action_exn =
      eBadActionBadType | eBadActionBadLen | eBadActionBadExperimenter | eBadActionBadExperimenterType
  | eBadActionBadOutPort | eBadActionBadArgument | eBadActionEperm | eBadActionTooMany | eBadActionBadQueue
  | eBadActionBadOutGroup | eBadActionMatchInconsistent | eBadActionUnsupportedOrder | eBadActionBadTag
  | eBadActionBadSetType | eBadActionBadSetLen | eBadActionBadSetArgument | eBadActionBase

fun bad_action_error :: "bad_action_exn \<Rightarrow> u8 \<Rightarrow> error_ctor" where
  "bad_action_error eBadActionBadType = any_version (Err 2 0)"
| "bad_action_error eBadActionBadLen = any_version (Err 2 1)"
| "bad_action_error eBadActionBadExperimenter = any_version (Err 2 2)"
| "bad_action_error eBadActionBadExperimenterType = any_version (Err 2 3)"
| "bad_action_error eBadActionBadOutPort = any_version (Err 2 4)"
| "bad_action_error eBadActionBadArgument = any_version (Err 2 5)"
| "bad_action_error eBadActionEperm = any_version (Err 2 6)"
| "bad_action_error eBadActionTooMany = any_version (Err 2 7)"
| "bad_action_error eBadActionBadQueue = any_version (Err 2 8)"
| "bad_action_error eBadActionBadOutGroup = from_version 3 (Err 2 9)"
| "bad_action_error eBadActionMatchInconsistent = from_version 3 (Err 2 10)"
| "bad_action_error eBadActionUnsupportedOrder = from_version 3 (Err 2 11)"
| "bad_action_error eBadActionBadTag = from_version 3 (Err 2 12)"
| "bad_action_error eBadActionBadSetType = from_version 4 (Err 2 13)"
| "bad_action_error eBadActionBadSetLen = from_version 4 (Err 2 14)"
| "bad_action_error eBadActionBadSetArgument = from_version 4 (Err 2 15)"
| "bad_action_error eBadActionBase = no_class"

datatype bad_inst_exn =
      eBadInstUnknownInst | eBadInstUnsupInst | eBadInstBadTableId | eBadInstUnsupMetadata
  | eBadInstUnsupMetadataMask | eBadInstBadExperimenter | eBadInstBadExpType | eBadInstBadLen | eBadInstEperm
  | eBadInstBase

fun bad_inst_error :: "bad_inst_exn \<Rightarrow> u8 \<Rightarrow> error_ctor" where
  "bad_inst_error eBadInstUnknownInst = from_version 3 (Err 3 0)"
| "bad_inst_error eBadInstUnsupInst = from_version 3 (Err 3 1)"
| "bad_inst_error eBadInstBadTableId = from_version 3 (Err 3 2)"
| "bad_inst_error eBadInstUnsupMetadata = from_version 3 (Err 3 3)"
| "bad_inst_error eBadInstUnsupMetadataMask = from_version 3 (Err 3 4)"
| "bad_inst_error eBadInstBadExperimenter = from_version 3 (Err 3 5)"
| "bad_inst_error eBadInstBadExpType = from_version 4 (Err 3 6)"
| "bad_inst_error eBadInstBadLen = from_version 4 (Err 3 7)"
| "bad_inst_error eBadInstEperm = from_version 4 (Err 3 8)"
| "bad_inst_error eBadInstBase = no_class"

datatype bad_match_exn =
      eBadMatchBadType | eBadMatchBadLen | eBadMatchBadTag | eBadMatchBadDlAddrMask | eBadMatchBadNwAddrMask
  | eBadMatchBadWildcards | eBadMatchBadField | eBadMatchBadValue | eBadMatchBadMask | eBadMatchBadPrereq
  | eBadMatchDupField | eBadMatchEperm | eBadMatchBase

fun bad_match_error :: "bad_match_exn \<Rightarrow> u8 \<Rightarrow> error_ctor" where
  "bad_match_error eBadMatchBadType = from_version 3 (Err 4 0)"
| "bad_match_error eBadMatchBadLen = from_version 3 (Err 4 1)"
| "bad_match_error eBadMatchBadTag = from_version 3 (Err 4 2)"
| "bad_match_error eBadMatchBadDlAddrMask = from_version 3 (Err 4 3)"
| "bad_match_error eBadMatchBadNwAddrMask = from_version 3 (Err 4 4)"
| "bad_match_error eBadMatchBadWildcards = from_version 3 (Err 4 5)"
| "bad_match_error eBadMatchBadField = from_version 3 (Err 4 6)"
| "bad_match_error eBadMatchBadValue = from_version 3 (Err 4 7)"
| "bad_match_error eBadMatchBadMask = from_version 3 (Err 4 8)"
| "bad_match_error eBadMatchBadPrereq = from_version 3 (Err 4 9)"
| "bad_match_error eBadMatchDupField = from_version 3 (Err 4 10)"
| "bad_match_error eBadMatchEperm = from_version 3 (Err 4 11)"
| "bad_match_error eBadMatchBase = no_class"

datatype role_request_exn =
      eRoleRequestStale | eRoleRequestUnsupported | eRoleRequestBadRole | eRoleRequestBase

fun role_request_error :: "role_request_exn \<Rightarrow> u8 \<Rightarrow> error_ctor" where
  "role_request_error eRoleRequestStale = from_version 3 (Err 11 0)"
| "role_request_error eRoleRequestUnsupported = from_version 3 (Err 11 1)"
| "role_request_error eRoleRequestBadRole = from_version 3 (Err 11 2)"
| "role_request_error eRoleRequestBase = no_class"

datatype meter_mod_exn =
      eMeterModUnknown | eMeterModMeterExists | eMeterModInvalidMeter | eMeterModUnknownMeter
  | eMeterModBadCommand | eMeterModBadFlags | eMeterModBadRate | eMeterModBadBurst | eMeterModBadBand
  | eMeterModBadBandValue | eMeterModOutOfMeters | eMeterModOutOfBands | eMeterModBase

fun meter_mod_error :: "meter_mod_exn \<Rightarrow> u8 \<Rightarrow> error_ctor" where
  "meter_mod_error eMeterModUnknown = from_version 4 (Err 12 0)"
| "meter_mod_error eMeterModMeterExists = from_version 4 (Err 12 1)"
| "meter_mod_error eMeterModInvalidMeter = from_version 4 (Err 12 2)"
| "meter_mod_error eMeterModUnknownMeter = from_version 4 (Err 12 3)"
| "meter_mod_error eMeterModBadCommand = from_version 4 (Err 12 4)"
| "meter_mod_error eMeterModBadFlags = from_version 4 (Err 12 5)"
| "meter_mod_error eMeterModBadRate = from_version 4 (Err 12 6)"
| "meter_mod_error eMeterModBadBurst = from_version 4 (Err 12 7)"
| "meter_mod_error eMeterModBadBand = from_version 4 (Err 12 8)"
| "meter_mod_error eMeterModBadBandValue = from_version 4 (Err 12 9)"
| "meter_mod_error eMeterModOutOfMeters = from_version 4 (Err 12 10)"
| "meter_mod_error eMeterModOutOfBands = from_version 4 (Err 12 11)"
| "meter_mod_error eMeterModBase = no_class"


section \<open>All exceptions\<close>

text \<open>
  \<open>eRoflOther\<close> stands for every other exception derived from \<open>std::runtime_error\<close>, \<open>eForeign\<close> for
  exceptions of other classes, which no clause catches.
\<close>

datatype ctl_exn =
    BadRequest bad_request_exn
  | SwitchConfig switch_config_exn
  | FlowMod flow_mod_exn
  | GroupMod group_mod_exn
  | PortMod port_mod_exn
  | TableMod table_mod_exn
  | BadAction bad_action_exn
  | BadInst bad_inst_exn
  | BadMatch bad_match_exn
  | RoleRequest role_request_exn
  | MeterMod meter_mod_exn
  | eBadVersion
  | eRofCtlNotFound
  | eRoflOther
  | eForeign

text \<open>What the clause for an exception constructs, if anything.\<close>

primrec ctl_error :: "ctl_exn \<Rightarrow> u8 \<Rightarrow> error_ctor" where
  "ctl_error (BadRequest e) = bad_request_error e"
| "ctl_error (SwitchConfig e) = switch_config_error e"
| "ctl_error (FlowMod e) = flow_mod_error e"
| "ctl_error (GroupMod e) = group_mod_error e"
| "ctl_error (PortMod e) = port_mod_error e"
| "ctl_error (TableMod e) = table_mod_error e"
| "ctl_error (BadAction e) = bad_action_error e"
| "ctl_error (BadInst e) = bad_inst_error e"
| "ctl_error (BadMatch e) = bad_match_error e"
| "ctl_error (RoleRequest e) = role_request_error e"
| "ctl_error (MeterMod e) = meter_mod_error e"
| "ctl_error eBadVersion = any_version (Err 1 0)"
| "ctl_error eRofCtlNotFound = no_class"
| "ctl_error eRoflOther = no_class"
| "ctl_error eForeign = no_class"

text \<open>The exceptions of the match and action code, as the clauses of \<open>handle_recv\<close> see them.\<close>

fun ctl_exn_of :: "rofl_exn \<Rightarrow> ctl_exn" where
  "ctl_exn_of EBadVersion = eBadVersion"
| "ctl_exn_of EBadRequestBadLen = BadRequest eBadRequestBadLen"
| "ctl_exn_of EBadRequestBadType = BadRequest eBadRequestBadType"
| "ctl_exn_of EBadRequestBadStat = BadRequest eBadRequestBadStat"
| "ctl_exn_of EBadRequestBadVersion = BadRequest eBadRequestBadVersion"
| "ctl_exn_of EBadRequestIsSlave = BadRequest eBadRequestIsSlave"
| "ctl_exn_of EBadMatchBadLen = BadMatch eBadMatchBadLen"
| "ctl_exn_of EBadMatchBadType = BadMatch eBadMatchBadType"
| "ctl_exn_of EBadMatchBadPrereq = BadMatch eBadMatchBadPrereq"
| "ctl_exn_of EBadActionBadLen = BadAction eBadActionBadLen"
| "ctl_exn_of EBadActionBadOutPort = BadAction eBadActionBadOutPort"
| "ctl_exn_of EBadInstBadTableId = BadInst eBadInstBadTableId"
| "ctl_exn_of ERoleRequestBadRole = RoleRequest eRoleRequestBadRole"
| "ctl_exn_of ERoleRequestStale = RoleRequest eRoleRequestStale"
| "ctl_exn_of EBadCast = eForeign"
| "ctl_exn_of _ = eRoflOther"

section \<open>The error code names the exception\<close>

lemmas error_ctor_defs = any_version_def from_version_def by_version_def no_class_def

lemma family_err_type:
  "bad_request_error e_bad_request v = Some (Inr m) \<Longrightarrow> err_type m = 1"
  "switch_config_error e_switch_config v = Some (Inr m) \<Longrightarrow> err_type m = 10"
  "flow_mod_error e_flow_mod v = Some (Inr m) \<Longrightarrow> err_type m = (if v = 1 then 3 else 5)"
  "group_mod_error e_group_mod v = Some (Inr m) \<Longrightarrow> err_type m = 6"
  "port_mod_error e_port_mod v = Some (Inr m) \<Longrightarrow> err_type m = 7"
  "table_mod_error e_table_mod v = Some (Inr m) \<Longrightarrow> err_type m = 8"
  "bad_action_error e_bad_action v = Some (Inr m) \<Longrightarrow> err_type m = 2"
  "bad_inst_error e_bad_inst v = Some (Inr m) \<Longrightarrow> err_type m = 3 \<and> v \<noteq> 1"
  "bad_match_error e_bad_match v = Some (Inr m) \<Longrightarrow> err_type m = 4"
  "role_request_error e_role_request v = Some (Inr m) \<Longrightarrow> err_type m = 11"
  "meter_mod_error e_meter_mod v = Some (Inr m) \<Longrightarrow> err_type m = 12"
proof -
  show "bad_request_error e_bad_request v = Some (Inr m) \<Longrightarrow> err_type m = 1"
    by (cases e_bad_request) (auto simp: error_ctor_defs split: if_splits)
  show "switch_config_error e_switch_config v = Some (Inr m) \<Longrightarrow> err_type m = 10"
    by (cases e_switch_config) (auto simp: error_ctor_defs split: if_splits)
  show "flow_mod_error e_flow_mod v = Some (Inr m) \<Longrightarrow> err_type m = (if v = 1 then 3 else 5)"
    by (cases e_flow_mod) (auto simp: error_ctor_defs split: if_splits)
  show "group_mod_error e_group_mod v = Some (Inr m) \<Longrightarrow> err_type m = 6"
    by (cases e_group_mod) (auto simp: error_ctor_defs split: if_splits)
  show "port_mod_error e_port_mod v = Some (Inr m) \<Longrightarrow> err_type m = 7"
    by (cases e_port_mod) (auto simp: error_ctor_defs split: if_splits)
  show "table_mod_error e_table_mod v = Some (Inr m) \<Longrightarrow> err_type m = 8"
    by (cases e_table_mod) (auto simp: error_ctor_defs split: if_splits)
  show "bad_action_error e_bad_action v = Some (Inr m) \<Longrightarrow> err_type m = 2"
    by (cases e_bad_action) (auto simp: error_ctor_defs split: if_splits)
  show "bad_inst_error e_bad_inst v = Some (Inr m) \<Longrightarrow> err_type m = 3 \<and> v \<noteq> 1"
    by (cases e_bad_inst) (auto simp: error_ctor_defs split: if_splits)
  show "bad_match_error e_bad_match v = Some (Inr m) \<Longrightarrow> err_type m = 4"
    by (cases e_bad_match) (auto simp: error_ctor_defs split: if_splits)
  show "role_request_error e_role_request v = Some (Inr m) \<Longrightarrow> err_type m = 11"
    by (cases e_role_request) (auto simp: error_ctor_defs split: if_splits)
  show "meter_mod_error e_meter_mod v = Some (Inr m) \<Longrightarrow> err_type m = 12"
    by (cases e_meter_mod) (auto simp: error_ctor_defs split: if_splits)
qed

lemma family_inj:
  "bad_request_error e_bad_request v = Some (Inr m) \<Longrightarrow> bad_request_error d_bad_request v = Some (Inr m) \<Longrightarrow> e_bad_request = d_bad_request"
  "switch_config_error e_switch_config v = Some (Inr m) \<Longrightarrow> switch_config_error d_switch_config v = Some (Inr m) \<Longrightarrow> e_switch_config = d_switch_config"
  "flow_mod_error e_flow_mod v = Some (Inr m) \<Longrightarrow> flow_mod_error d_flow_mod v = Some (Inr m) \<Longrightarrow> e_flow_mod = d_flow_mod"
  "group_mod_error e_group_mod v = Some (Inr m) \<Longrightarrow> group_mod_error d_group_mod v = Some (Inr m) \<Longrightarrow> e_group_mod = d_group_mod"
  "port_mod_error e_port_mod v = Some (Inr m) \<Longrightarrow> port_mod_error d_port_mod v = Some (Inr m) \<Longrightarrow> e_port_mod = d_port_mod"
  "table_mod_error e_table_mod v = Some (Inr m) \<Longrightarrow> table_mod_error d_table_mod v = Some (Inr m) \<Longrightarrow> e_table_mod = d_table_mod"
  "bad_action_error e_bad_action v = Some (Inr m) \<Longrightarrow> bad_action_error d_bad_action v = Some (Inr m) \<Longrightarrow> e_bad_action = d_bad_action"
  "bad_inst_error e_bad_inst v = Some (Inr m) \<Longrightarrow> bad_inst_error d_bad_inst v = Some (Inr m) \<Longrightarrow> e_bad_inst = d_bad_inst"
  "bad_match_error e_bad_match v = Some (Inr m) \<Longrightarrow> bad_match_error d_bad_match v = Some (Inr m) \<Longrightarrow> e_bad_match = d_bad_match"
  "role_request_error e_role_request v = Some (Inr m) \<Longrightarrow> role_request_error d_role_request v = Some (Inr m) \<Longrightarrow> e_role_request = d_role_request"
  "meter_mod_error e_meter_mod v = Some (Inr m) \<Longrightarrow> meter_mod_error d_meter_mod v = Some (Inr m) \<Longrightarrow> e_meter_mod = d_meter_mod"
proof -
  show "bad_request_error e_bad_request v = Some (Inr m) \<Longrightarrow> bad_request_error d_bad_request v = Some (Inr m) \<Longrightarrow> e_bad_request = d_bad_request"
    by (cases e_bad_request; cases d_bad_request; auto simp: error_ctor_defs split: if_splits)
  show "switch_config_error e_switch_config v = Some (Inr m) \<Longrightarrow> switch_config_error d_switch_config v = Some (Inr m) \<Longrightarrow> e_switch_config = d_switch_config"
    by (cases e_switch_config; cases d_switch_config; auto simp: error_ctor_defs split: if_splits)
  show "flow_mod_error e_flow_mod v = Some (Inr m) \<Longrightarrow> flow_mod_error d_flow_mod v = Some (Inr m) \<Longrightarrow> e_flow_mod = d_flow_mod"
    by (cases e_flow_mod; cases d_flow_mod; auto simp: error_ctor_defs split: if_splits)
  show "group_mod_error e_group_mod v = Some (Inr m) \<Longrightarrow> group_mod_error d_group_mod v = Some (Inr m) \<Longrightarrow> e_group_mod = d_group_mod"
    by (cases e_group_mod; cases d_group_mod; auto simp: error_ctor_defs split: if_splits)
  show "port_mod_error e_port_mod v = Some (Inr m) \<Longrightarrow> port_mod_error d_port_mod v = Some (Inr m) \<Longrightarrow> e_port_mod = d_port_mod"
    by (cases e_port_mod; cases d_port_mod; auto simp: error_ctor_defs split: if_splits)
  show "table_mod_error e_table_mod v = Some (Inr m) \<Longrightarrow> table_mod_error d_table_mod v = Some (Inr m) \<Longrightarrow> e_table_mod = d_table_mod"
    by (cases e_table_mod; cases d_table_mod; auto simp: error_ctor_defs split: if_splits)
  show "bad_action_error e_bad_action v = Some (Inr m) \<Longrightarrow> bad_action_error d_bad_action v = Some (Inr m) \<Longrightarrow> e_bad_action = d_bad_action"
    by (cases e_bad_action; cases d_bad_action; auto simp: error_ctor_defs split: if_splits)
  show "bad_inst_error e_bad_inst v = Some (Inr m) \<Longrightarrow> bad_inst_error d_bad_inst v = Some (Inr m) \<Longrightarrow> e_bad_inst = d_bad_inst"
    by (cases e_bad_inst; cases d_bad_inst; auto simp: error_ctor_defs split: if_splits)
  show "bad_match_error e_bad_match v = Some (Inr m) \<Longrightarrow> bad_match_error d_bad_match v = Some (Inr m) \<Longrightarrow> e_bad_match = d_bad_match"
    by (cases e_bad_match; cases d_bad_match; auto simp: error_ctor_defs split: if_splits)
  show "role_request_error e_role_request v = Some (Inr m) \<Longrightarrow> role_request_error d_role_request v = Some (Inr m) \<Longrightarrow> e_role_request = d_role_request"
    by (cases e_role_request; cases d_role_request; auto simp: error_ctor_defs split: if_splits)
  show "meter_mod_error e_meter_mod v = Some (Inr m) \<Longrightarrow> meter_mod_error d_meter_mod v = Some (Inr m) \<Longrightarrow> e_meter_mod = d_meter_mod"
    by (cases e_meter_mod; cases d_meter_mod; auto simp: error_ctor_defs split: if_splits)
qed

text \<open>The error type of a family, as OpenFlow 1.2 and later number them.\<close>

primrec ctl_family :: "ctl_exn \<Rightarrow> u16" where
  "ctl_family (BadRequest e) = 1" | "ctl_family (SwitchConfig e) = 10" | "ctl_family (FlowMod e) = 5"
| "ctl_family (GroupMod e) = 6" | "ctl_family (PortMod e) = 7" | "ctl_family (TableMod e) = 8"
| "ctl_family (BadAction e) = 2" | "ctl_family (BadInst e) = 3" | "ctl_family (BadMatch e) = 4"
| "ctl_family (RoleRequest e) = 11" | "ctl_family (MeterMod e) = 12" | "ctl_family eBadVersion = 1"
| "ctl_family eRofCtlNotFound = 0" | "ctl_family eRoflOther = 0" | "ctl_family eForeign = 0"

lemma ctl_error_family:
  assumes "ctl_error e v = Some (Inr m)"
  shows "err_type m = (if v = 1 \<and> ctl_family e = 5 then 3 else ctl_family e)" "ctl_family e = 3 \<Longrightarrow> v \<noteq> 1"
    "ctl_family e \<noteq> 0"
  using assms by (cases e; auto simp: any_version_def no_class_def dest!: family_err_type split: if_splits)+

lemma bad_version_code: "bad_request_error d v = Some (Inr (Err 1 0)) \<Longrightarrow> d = eBadRequestBadVersion"
  by (cases d) (auto simp: error_ctor_defs)

text \<open>
  The error message says which exception was thrown.  Within one protocol version, two exceptions
  are answered with the same type and code only if both say that the version is bad.
\<close>

theorem error_reply_inj:
  assumes "ctl_error e v = Some (Inr m)" "ctl_error e' v = Some (Inr m)"
  shows "e = e' \<or> {e, e'} = {eBadVersion, BadRequest eBadRequestBadVersion}"
proof -
  have same: "ctl_family e = ctl_family e'" "ctl_family e \<noteq> 0"
    using ctl_error_family [OF assms(1)] ctl_error_family [OF assms(2)] by (auto split: if_splits)
  show ?thesis
  proof (cases "ctl_family e = 1")
    case True
    then show ?thesis
      using same assms
      by (cases e; simp; cases e'; simp) (auto simp: any_version_def dest: family_inj(1) bad_version_code)
  next
    case False
    have "e = e'"
      by (insert same False assms, cases e; cases e'; simp; (rule family_inj; assumption)?)
    then show ?thesis ..
  qed
qed

theorem error_reply_inj_example:
  "\<not> (\<exists>m. ctl_error (FlowMod eFlowModOverlap) 1 = Some (Inr m) \<and> ctl_error (FlowMod eFlowModEperm) 1 = Some (Inr m)) \<and>
   ctl_error (FlowMod eFlowModOverlap) 1 = Some (Inr (Err 3 1))"
  using error_reply_inj [of "FlowMod eFlowModOverlap" 1 _ "FlowMod eFlowModEperm"] by (auto simp: by_version_def)

end
