(* ===== verification/Crofctl.thy ===== *)
theory Crofctl
  imports Crofctl_Errors
begin

text \<open>
  The peer of a datapath (\<open>crofctl.h\<close>, \<open>crofctl.cc\<close>): role, asynchronous configuration and the handler of
  received messages.  The channel, the application's callbacks and the environment's answer to a role
  request are parameters; what a method does to the outside is a list of effects.
\<close>

section \<open>The object\<close>

record async_config =
  packet_in_mask_master :: u32
  packet_in_mask_slave :: u32
  port_status_mask_master :: u32
  port_status_mask_slave :: u32
  flow_removed_mask_master :: u32
  flow_removed_mask_slave :: u32

definition OFPCR_ROLE_NOCHANGE :: u32 where "OFPCR_ROLE_NOCHANGE = 0"
definition OFPCR_ROLE_EQUAL :: u32 where "OFPCR_ROLE_EQUAL = 1"
definition OFPCR_ROLE_MASTER :: u32 where "OFPCR_ROLE_MASTER = 2"
definition OFPCR_ROLE_SLAVE :: u32 where "OFPCR_ROLE_SLAVE = 3"

lemmas role_defs = OFPCR_ROLE_NOCHANGE_def OFPCR_ROLE_EQUAL_def OFPCR_ROLE_MASTER_def OFPCR_ROLE_SLAVE_def

text \<open>\<open>chan_version\<close> and \<open>established\<close> are what the channel answers, \<open>attached\<close> says that \<open>env\<close> is a live environment.\<close>

record crofctl =
  attached :: bool
  deleting :: bool
  ctlid :: u64
  chan_version :: u8
  established :: bool
  xid_last :: u32
  async_template :: async_config
  async_cfg :: async_config
  role :: u32
  generation_id :: u64

definition async_default :: async_config where
  "async_default =
     \<lparr>packet_in_mask_master = push_bit 0 1 OR push_bit 1 1 OR push_bit 2 1, packet_in_mask_slave = 0,
      port_status_mask_master = push_bit 0 1 OR push_bit 1 1 OR push_bit 2 1,
      port_status_mask_slave = push_bit 0 1 OR push_bit 1 1 OR push_bit 2 1,
      flow_removed_mask_master = push_bit 0 1 OR push_bit 1 1 OR push_bit 2 1 OR push_bit 3 1,
      flow_removed_mask_slave = 0\<rparr>"

definition crofctl_new :: "u64 \<Rightarrow> u32 \<Rightarrow> crofctl" where
  "crofctl_new cid random_xid =
     \<lparr>attached = True, deleting = False, ctlid = cid, chan_version = 0, established = False, xid_last = random_xid,
      async_template = async_default, async_cfg = async_default, role = OFPCR_ROLE_EQUAL, generation_id = - 1\<rparr>"

definition is_valid_role :: "u32 \<Rightarrow> bool" where
  "is_valid_role r \<longleftrightarrow> r \<in> {OFPCR_ROLE_EQUAL, OFPCR_ROLE_MASTER, OFPCR_ROLE_SLAVE, OFPCR_ROLE_NOCHANGE}"

definition is_slave :: "crofctl \<Rightarrow> bool" where
  "is_slave c \<longleftrightarrow> (chan_version c = 3 \<or> chan_version c = 4) \<and> role c = OFPCR_ROLE_SLAVE"

definition check_role :: "crofctl \<Rightarrow> ctl_exn option" where
  "check_role c = (if is_slave c then Some (BadRequest eBadRequestIsSlave) else None)"

text \<open>The notifications of the channel; a new channel and a closed one start in role equal.\<close>

definition ctl_handle_established :: "u8 \<Rightarrow> crofctl \<Rightarrow> crofctl" where
  "ctl_handle_established version c =
     (if deleting c then c else if version = 3 \<or> version = 4 then c\<lparr>role := OFPCR_ROLE_EQUAL\<rparr> else c)"

definition ctl_handle_closed :: "crofctl \<Rightarrow> crofctl" where
  "ctl_handle_closed c =
     (if deleting c then c else if chan_version c = 3 \<or> chan_version c = 4 then c\<lparr>role := OFPCR_ROLE_EQUAL\<rparr> else c)"

section \<open>Asynchronous messages\<close>

text \<open>\<open>1 << reason\<close>; reasons of 32 and more, which the code shifts out of the \<open>int\<close>, give an empty mask.\<close>

definition role_ignores :: "(async_config \<Rightarrow> u32) \<Rightarrow> (async_config \<Rightarrow> u32) \<Rightarrow> u8 \<Rightarrow> crofctl \<Rightarrow> bool" where
  "role_ignores master slave reason c \<longleftrightarrow>
     (if role c = OFPCR_ROLE_EQUAL \<or> role c = OFPCR_ROLE_MASTER then master (async_cfg c) AND push_bit (unat reason) 1 = 0
      else if role c = OFPCR_ROLE_SLAVE then slave (async_cfg c) AND push_bit (unat reason) 1 = 0
      else False)"

definition packet_in_ignored :: "u8 \<Rightarrow> crofctl \<Rightarrow> bool" where
  "packet_in_ignored reason c \<longleftrightarrow>
     (if chan_version c = 3 then is_slave c
      else if chan_version c = 4 then role_ignores packet_in_mask_master packet_in_mask_slave reason c
      else False)"

definition flow_removed_ignored :: "u8 \<Rightarrow> crofctl \<Rightarrow> bool" where
  "flow_removed_ignored reason c \<longleftrightarrow>
     (if chan_version c = 3 then is_slave c
      else if chan_version c = 4 then role_ignores flow_removed_mask_master flow_removed_mask_slave reason c
      else False)"

definition port_status_ignored :: "u8 \<Rightarrow> crofctl \<Rightarrow> bool" where
  "port_status_ignored reason c \<longleftrightarrow>
     (if chan_version c = 4 then role_ignores port_status_mask_master port_status_mask_slave reason c else False)"

text \<open>
  The send methods: \<open>None\<close> stands for \<open>MSG_IGNORED\<close>, \<open>Some xid\<close> for a message handed to the channel.  The
  transaction id is counted before the channel can refuse the message.
\<close>

definition ctl_send :: "bool \<Rightarrow> crofctl \<Rightarrow> crofctl \<times> u32 option" where
  "ctl_send ignored c = (if ignored then (c, None) else (c\<lparr>xid_last := xid_last c + 1\<rparr>, Some (xid_last c + 1)))"

definition ctl_send_packet_in :: "u8 \<Rightarrow> crofctl \<Rightarrow> crofctl \<times> u32 option" where
  "ctl_send_packet_in reason c = ctl_send (packet_in_ignored reason c) c"

definition ctl_send_flow_removed :: "u8 \<Rightarrow> crofctl \<Rightarrow> crofctl \<times> u32 option" where
  "ctl_send_flow_removed reason c = ctl_send (flow_removed_ignored reason c) c"

definition ctl_send_port_status :: "u8 \<Rightarrow> crofctl \<Rightarrow> crofctl \<times> u32 option" where
  "ctl_send_port_status reason c = ctl_send (port_status_ignored reason c) c"

section \<open>Received messages\<close>

text \<open>The virtual methods of \<open>crofctl_env\<close>.\<close>

datatype ctl_call =
    Handle_experimenter_message | Handle_error_message | Handle_features_request | Handle_get_config_request
  | Handle_set_config | Handle_packet_out | Handle_flow_mod | Handle_group_mod | Handle_port_mod | Handle_table_mod
  | Handle_desc_stats_request | Handle_flow_stats_request | Handle_aggregate_stats_request | Handle_table_stats_request
  | Handle_port_stats_request | Handle_queue_stats_request | Handle_group_stats_request
  | Handle_group_desc_stats_request | Handle_group_features_stats_request | Handle_meter_stats_request
  | Handle_meter_config_stats_request | Handle_meter_features_stats_request | Handle_table_features_stats_request
  | Handle_port_desc_stats_request | Handle_experimenter_stats_request | Handle_barrier_request
  | Handle_queue_get_config_request | Handle_role_request | Handle_set_async_config | Handle_meter_mod

text \<open>
  What \<open>handle_recv\<close> does for a type of message: call a method, after the check of the role, after the
  check of prerequisites, or after both; look at the statistics type; or one of the three cases that
  change the object.
\<close>

datatype ctl_action =
    Pass ctl_call | Guarded ctl_call | Checked ctl_call | Guarded_checked ctl_call
  | Stats "(u16 \<times> ctl_call) list" | Role_request | Get_async | Set_async

definition ctl10_types :: "(u8 \<times> ctl_action) list" where
  "ctl10_types =
     [(4, Pass Handle_experimenter_message),
      (1, Pass Handle_error_message),
      (5, Pass Handle_features_request),
      (7, Pass Handle_get_config_request),
      (9, Pass Handle_set_config),
      (13, Pass Handle_packet_out),
      (14, Checked Handle_flow_mod),
      (15, Pass Handle_port_mod),
      (16, Stats
        [(0, Handle_desc_stats_request), (1, Handle_flow_stats_request), (2, Handle_aggregate_stats_request),
         (3, Handle_table_stats_request), (4, Handle_port_stats_request), (5, Handle_queue_stats_request),
         (0xffff, Handle_experimenter_stats_request)]),
      (18, Pass Handle_barrier_request),
      (20, Pass Handle_queue_get_config_request)]"

definition ctl12_types :: "(u8 \<times> ctl_action) list" where
  "ctl12_types =
     [(4, Pass Handle_experimenter_message),
      (1, Pass Handle_error_message),
      (5, Pass Handle_features_request),
      (7, Guarded Handle_get_config_request),
      (9, Guarded Handle_set_config),
      (13, Guarded Handle_packet_out),
      (14, Guarded_checked Handle_flow_mod),
      (15, Guarded_checked Handle_group_mod),
      (16, Guarded Handle_port_mod),
      (17, Guarded Handle_table_mod),
      (18, Stats
        [(0, Handle_desc_stats_request), (1, Handle_flow_stats_request), (2, Handle_aggregate_stats_request),
         (3, Handle_table_stats_request), (4, Handle_port_stats_request), (5, Handle_queue_stats_request),
         (6, Handle_group_stats_request), (7, Handle_group_desc_stats_request),
         (8, Handle_group_features_stats_request), (0xffff, Handle_experimenter_stats_request)]),
      (20, Pass Handle_barrier_request),
      (22, Pass Handle_queue_get_config_request),
      (24, Role_request)]"

definition ctl13_types :: "(u8 \<times> ctl_action) list" where
  "ctl13_types =
     [(4, Pass Handle_experimenter_message),
      (1, Pass Handle_error_message),
      (5, Pass Handle_features_request),
      (7, Guarded Handle_get_config_request),
      (9, Guarded Handle_set_config),
      (13, Guarded Handle_packet_out),
      (14, Guarded_checked Handle_flow_mod),
      (15, Guarded_checked Handle_group_mod),
      (16, Guarded Handle_port_mod),
      (17, Guarded Handle_table_mod),
      (18, Stats
        [(0, Handle_desc_stats_request), (1, Handle_flow_stats_request), (2, Handle_aggregate_stats_request),
         (3, Handle_table_stats_request), (4, Handle_port_stats_request), (5, Handle_queue_stats_request),
         (6, Handle_group_stats_request), (7, Handle_group_desc_stats_request),
         (8, Handle_group_features_stats_request), (9, Handle_meter_stats_request),
         (10, Handle_meter_config_stats_request), (11, Handle_meter_features_stats_request),
         (12, Handle_table_features_stats_request), (13, Handle_port_desc_stats_request),
         (0xffff, Handle_experimenter_stats_request)]),
      (20, Pass Handle_barrier_request),
      (22, Pass Handle_queue_get_config_request),
      (24, Role_request),
      (26, Get_async),
      (28, Set_async),
      (29, Guarded Handle_meter_mod)]"

text \<open>
  A message, as far as \<open>handle_recv\<close> looks at it: \<open>msg_check\<close> is what its \<open>check_prerequisites\<close>
  throws, the last three fields are the contents of role requests and asynchronous configurations.
\<close>

record ctl_msg =
  msg_version :: u8
  msg_type :: u8
  msg_stats_type :: u16
  msg_xid :: u32
  msg_check :: "ctl_exn option"
  msg_role :: u32
  msg_generation_id :: u64
  msg_async :: async_config

definition ctl_action_of :: "ctl_msg \<Rightarrow> ctl_action option" where
  "ctl_action_of msg =
     (if msg_version msg = 1 then map_of ctl10_types (msg_type msg)
      else if msg_version msg = 3 then map_of ctl12_types (msg_type msg)
      else if msg_version msg = 4 then map_of ctl13_types (msg_type msg)
      else None)"

datatype ctl_effect =
    Call ctl_call
  | Send_error u32 error_msg
  | Send_role_reply u32 u32 u64
  | Send_get_async_reply u32 async_config

text \<open>
  The surroundings: the environment's answer to a role request (which may change this object, since
  the environment holds all peers), the application's methods, and whether the channel takes messages.
\<close>

record 's ctl_env =
  env_ctl :: "'s \<Rightarrow> crofctl"
  env_set_ctl :: "crofctl \<Rightarrow> 's \<Rightarrow> 's"
  env_role_request :: "u32 \<Rightarrow> u64 \<Rightarrow> 's \<Rightarrow> 's \<times> ctl_exn option"
  env_app :: "ctl_call \<Rightarrow> ctl_exn option"
  env_send_ok :: bool

type_synonym 's ctl_run = "'s \<times> ctl_effect list \<times> ctl_exn option"

text \<open>\<open>call_env\<close> throws when the environment is gone.\<close>

definition ctl_call_env :: "('s, 'x) ctl_env_scheme \<Rightarrow> ctl_call \<Rightarrow> 's \<Rightarrow> 's ctl_run" where
  "ctl_call_env E h s =
     (if \<not> attached (env_ctl E s) then (s, [], Some eRofCtlNotFound) else (s, [Call h], env_app E h))"

definition ctl_guard :: "ctl_exn option \<Rightarrow> 's ctl_run \<Rightarrow> 's \<Rightarrow> 's ctl_run" where
  "ctl_guard check run s = (case check of Some e \<Rightarrow> (s, [], Some e) | None \<Rightarrow> run)"

text \<open>\<open>throw\<close> ends the sequence; the effects so far stay.\<close>

definition ctl_then :: "'s ctl_run \<Rightarrow> ('s \<Rightarrow> 's ctl_run) \<Rightarrow> 's ctl_run" where
  "ctl_then r f =
     (case r of
        (s, es, Some e) \<Rightarrow> (s, es, Some e)
      | (s, es, None) \<Rightarrow> (case f s of (s', es', e) \<Rightarrow> (s', es @ es', e)))"

definition ctl_send_reply :: "('s, 'x) ctl_env_scheme \<Rightarrow> ctl_effect \<Rightarrow> 's \<Rightarrow> 's ctl_run" where
  "ctl_send_reply E eff s = (if env_send_ok E then (s, [eff], None) else (s, [], Some eRoflOther))"

definition ctl_role_request :: "('s, 'x) ctl_env_scheme \<Rightarrow> ctl_msg \<Rightarrow> 's \<Rightarrow> 's ctl_run" where
  "ctl_role_request E msg s =
     (if \<not> is_valid_role (msg_role msg) then (s, [], Some (RoleRequest eRoleRequestBadRole))
      else if \<not> attached (env_ctl E s) then (s, [], Some eRofCtlNotFound)
      else (case env_role_request E (msg_role msg) (msg_generation_id msg) s of
              (s1, Some e) \<Rightarrow> (s1, [], Some e)
            | (s1, None) \<Rightarrow>
                ctl_then (ctl_call_env E Handle_role_request s1)
                  (\<lambda>s2. ctl_send_reply E
                     (Send_role_reply (msg_xid msg) (role (env_ctl E s2)) (generation_id (env_ctl E s2))) s2)))"

fun ctl_handle :: "('s, 'x) ctl_env_scheme \<Rightarrow> ctl_msg \<Rightarrow> ctl_action \<Rightarrow> 's \<Rightarrow> 's ctl_run" where
  "ctl_handle E msg (Pass h) s = ctl_call_env E h s"
| "ctl_handle E msg (Guarded h) s = ctl_guard (check_role (env_ctl E s)) (ctl_call_env E h s) s"
| "ctl_handle E msg (Checked h) s = ctl_guard (msg_check msg) (ctl_call_env E h s) s"
| "ctl_handle E msg (Guarded_checked h) s =
     ctl_guard (check_role (env_ctl E s)) (ctl_guard (msg_check msg) (ctl_call_env E h s) s) s"
| "ctl_handle E msg (Stats ts) s =
     (case map_of ts (msg_stats_type msg) of None \<Rightarrow> (s, [], None) | Some h \<Rightarrow> ctl_call_env E h s)"
| "ctl_handle E msg Role_request s = ctl_role_request E msg s"
| "ctl_handle E msg Get_async s = ctl_send_reply E (Send_get_async_reply (msg_xid msg) (async_cfg (env_ctl E s))) s"
| "ctl_handle E msg Set_async s =
     (let s1 = env_set_ctl E ((env_ctl E s)\<lparr>async_cfg := msg_async msg\<rparr>) s in ctl_call_env E Handle_set_async_config s1)"

text \<open>
  The catch clauses: the error message sent, and whether an exception leaves \<open>handle_recv\<close> (then the
  message is not deleted either).
\<close>

definition ctl_catch :: "u8 \<Rightarrow> bool \<Rightarrow> u32 \<Rightarrow> ctl_exn \<Rightarrow> ctl_effect list \<times> bool" where
  "ctl_catch version send_ok xid e =
     (if e = eForeign then ([], True)
      else case ctl_error e version of
        None \<Rightarrow> ([], False)
      | Some (Inl _) \<Rightarrow> ([], True)
      | Some (Inr m) \<Rightarrow> if send_ok then ([Send_error xid m], False) else ([], True))"

definition ctl_handle_recv :: "('s, 'x) ctl_env_scheme \<Rightarrow> ctl_msg \<Rightarrow> 's \<Rightarrow> 's \<times> ctl_effect list \<times> bool" where
  "ctl_handle_recv E msg s =
     (if deleting (env_ctl E s) then (s, [], False)
      else case ctl_action_of msg of
        None \<Rightarrow> (s, [], False)
      | Some act \<Rightarrow>
          (case ctl_handle E msg act s of
             (s1, es, None) \<Rightarrow> (s1, es, False)
           | (s1, es, Some e) \<Rightarrow>
               (case ctl_catch (chan_version (env_ctl E s1)) (env_send_ok E) (msg_xid msg) e of
                  (es', escaped) \<Rightarrow> (s1, es @ es', escaped))))"

end
