(* ===== verification/Crofbase.thy ===== *)
theory Crofbase
  imports Crofctl
begin

text \<open>
  The controllers of a datapath (\<open>crofbase.h\<close>, \<open>crofbase.cc\<close>): the container of peers, the election of
  the master controller, asynchronous messages to all peers, and the composition with
  \<open>crofctl::handle_recv\<close>.
\<close>

section \<open>The peers\<close>

record crofbase =
  base_deleting :: bool
  rofctls :: "(u64 \<times> crofctl) list"
  rofctls_deletion :: "crofctl list"
  destroy_timer :: bool
  generation_is_defined :: bool
  cached_generation_id :: u64

definition crofbase_new :: crofbase where
  "crofbase_new =
     \<lparr>base_deleting = False, rofctls = [], rofctls_deletion = [], destroy_timer = False,
      generation_is_defined = False, cached_generation_id = - 1\<rparr>"

text \<open>\<open>uint64_t id = 0; while (find(id) != end()) id++;\<close>\<close>

function first_free :: "u64 \<Rightarrow> (u64 \<times> crofctl) list \<Rightarrow> u64 \<Rightarrow> u64" where
  "first_free fuel ctls i =
     (if fuel = 0 \<or> map_of ctls i = None then i else first_free (fuel - 1) ctls (i + 1))"
  by pat_completeness auto

termination first_free
  by (relation "measure (\<lambda>(fuel, ctls, i). unat fuel)") (auto simp: unat_minus_one unat_gt_0)

declare first_free.simps [simp del]

definition base_put_ctl :: "u64 \<Rightarrow> u32 \<Rightarrow> crofbase \<Rightarrow> crofbase" where
  "base_put_ctl i random_xid b = b\<lparr>rofctls := map_put i (crofctl_new i random_xid) (rofctls b)\<rparr>"

definition add_ctl :: "u32 \<Rightarrow> crofbase \<Rightarrow> crofbase \<times> u64" where
  "add_ctl random_xid b = (let i = first_free (- 1) (rofctls b) 0 in (base_put_ctl i random_xid b, i))"

definition add_ctl_id :: "u64 \<Rightarrow> u32 \<Rightarrow> crofbase \<Rightarrow> crofbase" where
  "add_ctl_id i random_xid b = base_put_ctl i random_xid b"

definition set_ctl :: "u64 \<Rightarrow> bool \<Rightarrow> u32 \<Rightarrow> crofbase \<Rightarrow> crofbase outcome" where
  "set_ctl i raise random_xid b =
     (if map_of (rofctls b) i \<noteq> None then (b, None)
      else if raise then (b, Some ERofBaseNotFound)
      else (base_put_ctl i random_xid b, None))"

definition get_ctl :: "u64 \<Rightarrow> crofbase \<Rightarrow> crofctl result" where
  "get_ctl i b = (case map_of (rofctls b) i of None \<Rightarrow> Inl ERofBaseNotFound | Some c \<Rightarrow> Inr c)"

definition has_ctl :: "u64 \<Rightarrow> crofbase \<Rightarrow> bool" where
  "has_ctl i b \<longleftrightarrow> map_of (rofctls b) i \<noteq> None"

text \<open>A dropped peer loses its environment and waits for the timer to be deleted.\<close>

definition drop_ctl :: "u64 \<Rightarrow> crofbase \<Rightarrow> crofbase \<times> bool" where
  "drop_ctl i b =
     (if base_deleting b then (b, True)
      else case map_of (rofctls b) i of
        None \<Rightarrow> (b, False)
      | Some c \<Rightarrow>
          (b\<lparr>rofctls := map_erase i (rofctls b), rofctls_deletion := c\<lparr>attached := False\<rparr> # rofctls_deletion b,
             destroy_timer := True\<rparr>, True))"

definition drop_ctls :: "crofbase \<Rightarrow> crofbase" where
  "drop_ctls b =
     (if base_deleting b then b
      else b\<lparr>rofctls := [], rofctls_deletion := map (\<lambda>(i, c). c\<lparr>attached := False\<rparr>) (rofctls b) @ rofctls_deletion b,
             destroy_timer := True\<rparr>)"

definition base_timeout_rofctl_destroy :: "crofbase \<Rightarrow> crofbase" where
  "base_timeout_rofctl_destroy b = (if base_deleting b then b else b\<lparr>rofctls_deletion := [], destroy_timer := False\<rparr>)"

text \<open>A controller whose main connection was accepted is dropped when its channel closes.\<close>

definition base_handle_ctl_closed :: "u64 \<Rightarrow> bool \<Rightarrow> crofbase \<Rightarrow> crofbase" where
  "base_handle_ctl_closed i passive b =
     (if base_deleting b then b else if passive then fst (drop_ctl i b) else b)"

section \<open>The election of the master\<close>

definition base_upd :: "u64 \<Rightarrow> (crofctl \<Rightarrow> crofctl) \<Rightarrow> crofbase \<Rightarrow> crofbase" where
  "base_upd i f b = b\<lparr>rofctls := map (\<lambda>(k, c). (k, if k = i then f c else c)) (rofctls b)\<rparr>"

text \<open>\<open>cofrole::distance\<close>; the signed difference wraps.\<close>

definition role_distance :: "u64 \<Rightarrow> u64 \<Rightarrow> int" where
  "role_distance rcvd_gen_id cached_gen_id = sint (rcvd_gen_id - cached_gen_id)"

definition demote_masters :: "u64 \<Rightarrow> (u64 \<times> crofctl) list \<Rightarrow> (u64 \<times> crofctl) list" where
  "demote_masters i ctls =
     map (\<lambda>(k, c). (k, if k \<noteq> i \<and> role c = OFPCR_ROLE_MASTER then c\<lparr>role := OFPCR_ROLE_SLAVE\<rparr> else c)) ctls"

definition take_role :: "u32 \<Rightarrow> crofctl \<Rightarrow> crofctl" where
  "take_role r c = c\<lparr>async_cfg := async_template c, role := r\<rparr>"

definition role_request_rcvd :: "u64 \<Rightarrow> u32 \<Rightarrow> u64 \<Rightarrow> crofbase \<Rightarrow> crofbase \<times> ctl_exn option" where
  "role_request_rcvd i r rcvd_generation_id b =
     (let stale = (generation_is_defined b \<and> role_distance rcvd_generation_id (cached_generation_id b) < 0)
      in if stale \<and> (r = OFPCR_ROLE_MASTER \<or> r = OFPCR_ROLE_SLAVE)
         then (b, Some (RoleRequest eRoleRequestStale))
         else (let b1 = (if stale then b
                         else b\<lparr>cached_generation_id := rcvd_generation_id, generation_is_defined := True\<rparr>);
                   b2 = base_upd i (\<lambda>c. c\<lparr>generation_id := cached_generation_id b1\<rparr>) b1
               in (if r = OFPCR_ROLE_MASTER
                   then base_upd i (take_role OFPCR_ROLE_MASTER) (b2\<lparr>rofctls := demote_masters i (rofctls b2)\<rparr>)
                   else if r = OFPCR_ROLE_SLAVE then base_upd i (take_role OFPCR_ROLE_SLAVE) b2
                   else if r = OFPCR_ROLE_EQUAL then base_upd i (take_role OFPCR_ROLE_EQUAL) b2
                   else b2, None)))"

text \<open>The environment of the peer \<open>i\<close>; a peer that has been dropped is not attached.\<close>

definition base_ctl :: "u64 \<Rightarrow> crofbase \<Rightarrow> crofctl" where
  "base_ctl i b = (case map_of (rofctls b) i of None \<Rightarrow> (crofctl_new i 0)\<lparr>attached := False\<rparr> | Some c \<Rightarrow> c)"

definition base_env :: "(ctl_call \<Rightarrow> ctl_exn option) \<Rightarrow> bool \<Rightarrow> u64 \<Rightarrow> crofbase ctl_env" where
  "base_env app send_ok i =
     \<lparr>env_ctl = base_ctl i, env_set_ctl = (\<lambda>c. base_upd i (\<lambda>_. c)), env_role_request = role_request_rcvd i,
      env_app = app, env_send_ok = send_ok\<rparr>"

definition base_handle_recv ::
  "(ctl_call \<Rightarrow> ctl_exn option) \<Rightarrow> bool \<Rightarrow> u64 \<Rightarrow> ctl_msg \<Rightarrow> crofbase \<Rightarrow> crofbase \<times> ctl_effect list \<times> bool"
where
  "base_handle_recv app send_ok i msg b = ctl_handle_recv (base_env app send_ok i) msg b"

section \<open>Messages to all peers\<close>

text \<open>
  The loop of \<open>send_packet_in_message\<close>, \<open>send_flow_removed_message\<close> and \<open>send_port_status_message\<close>.
  \<open>refuses\<close> says which channels throw instead of taking a message: the exception ends the loop.
\<close>

fun send_all ::
  "(crofctl \<Rightarrow> crofctl \<times> u32 option) \<Rightarrow> (u64 \<Rightarrow> bool) \<Rightarrow> (u64 \<times> crofctl) list \<Rightarrow> bool \<Rightarrow>
   (u64 \<times> crofctl) list \<times> (u64 \<times> u32) list \<times> bool \<times> rofl_exn option"
where
  "send_all send refuses [] sent_out = ([], [], sent_out, None)"
| "send_all send refuses ((i, c) # ctls) sent_out =
     (if \<not> established c
      then (case send_all send refuses ctls sent_out of (ctls', out, s, e) \<Rightarrow> ((i, c) # ctls', out, s, e))
      else case send c of
        (c', None) \<Rightarrow> (case send_all send refuses ctls True of (ctls', out, s, e) \<Rightarrow> ((i, c') # ctls', out, s, e))
      | (c', Some xid) \<Rightarrow>
          if refuses i then ((i, c') # ctls, [], sent_out, Some ERofConnNotConnected)
          else (case send_all send refuses ctls True of (ctls', out, s, e) \<Rightarrow> ((i, c') # ctls', (i, xid) # out, s, e)))"

definition base_send ::
  "(crofctl \<Rightarrow> crofctl \<times> u32 option) \<Rightarrow> (u64 \<Rightarrow> bool) \<Rightarrow> crofbase \<Rightarrow> crofbase \<times> (u64 \<times> u32) list \<times> rofl_exn option"
where
  "base_send send refuses b =
     (case send_all send refuses (rofctls b) False of
        (ctls, out, sent_out, e) \<Rightarrow>
          (b\<lparr>rofctls := ctls\<rparr>, out, if e \<noteq> None then e else if sent_out then None else Some ERofBaseNotConnected))"

definition base_send_packet_in :: "u8 \<Rightarrow> (u64 \<Rightarrow> bool) \<Rightarrow> crofbase \<Rightarrow> crofbase \<times> (u64 \<times> u32) list \<times> rofl_exn option" where
  "base_send_packet_in reason = base_send (ctl_send_packet_in reason)"

definition base_send_flow_removed :: "u8 \<Rightarrow> (u64 \<Rightarrow> bool) \<Rightarrow> crofbase \<Rightarrow> crofbase \<times> (u64 \<times> u32) list \<times> rofl_exn option" where
  "base_send_flow_removed reason = base_send (ctl_send_flow_removed reason)"

definition base_send_port_status :: "u8 \<Rightarrow> (u64 \<Rightarrow> bool) \<Rightarrow> crofbase \<Rightarrow> crofbase \<times> (u64 \<times> u32) list \<times> rofl_exn option" where
  "base_send_port_status reason = base_send (ctl_send_port_status reason)"

section \<open>Steps\<close>

text \<open>
  Everything that happens to the peers: connections come and go, messages arrive from any peer with any
  application behind the callbacks, messages are sent to all.  The roles change by the peers' requests
  only: an application that writes a role itself through the public \<open>crofctl::set_role()\<close> is outside these
  steps (it can make a second master).
\<close>

inductive base_step :: "crofbase \<Rightarrow> crofbase \<Rightarrow> bool" where
  Recv: "base_step b (fst (base_handle_recv app send_ok i msg b))"
| Chan_established: "base_step b (base_upd i (ctl_handle_established version) (base_upd i (\<lambda>c. c\<lparr>chan_version := version, established := True\<rparr>) b))"
| Chan_closed: "base_step b (base_handle_ctl_closed i passive (base_upd i (\<lambda>c. ctl_handle_closed c\<lparr>established := False\<rparr>) b))"
| Add: "base_step b (fst (add_ctl random_xid b))"
| Add_id: "base_step b (add_ctl_id i random_xid b)"
| Set: "base_step b (fst (set_ctl i raise random_xid b))"
| Drop: "base_step b (fst (drop_ctl i b))"
| Drop_all: "base_step b (drop_ctls b)"
| Timeout: "base_step b (base_timeout_rofctl_destroy b)"
| Send_packet_in: "base_step b (fst (base_send_packet_in reason refuses b))"
| Send_flow_removed: "base_step b (fst (base_send_flow_removed reason refuses b))"
| Send_port_status: "base_step b (fst (base_send_port_status reason refuses b))"

inductive base_reachable :: "crofbase \<Rightarrow> bool" where
  Init: "base_reachable crofbase_new"
| Step: "base_reachable b \<Longrightarrow> base_step b b' \<Longrightarrow> base_reachable b'"

inductive_cases base_stepE [elim!]: "base_step b b'"

end
