(* ===== verification/Crofctl_Answers.thy ===== *)
theory Crofctl_Answers
  imports Crofctl
begin

text \<open>
  What a peer answers: the check of the role, errors of the application, and the invariants of the
  surroundings that survive \<open>handle_recv\<close> (the locale \<open>ctl_surroundings\<close>).
\<close>

section \<open>Surroundings with an invariant\<close>

locale ctl_surroundings =
  fixes E :: "'s ctl_env" and I :: "'s \<Rightarrow> bool"
  assumes role_request_inv: "I s \<Longrightarrow> I (fst (env_role_request E r g s))"
    and set_async_inv: "I s \<Longrightarrow> I (env_set_ctl E ((env_ctl E s)\<lparr>async_cfg := a\<rparr>) s)"
begin

lemma call_env_state [simp]: "fst (ctl_call_env E h s) = s"
  by (simp add: ctl_call_env_def)

lemma send_reply_state [simp]: "fst (ctl_send_reply E eff s) = s"
  by (simp add: ctl_send_reply_def)

lemma guard_state [simp]: "fst run = s \<Longrightarrow> fst (ctl_guard check run s) = s"
  by (simp add: ctl_guard_def split: option.split)

lemma then_inv: "I (fst r) \<Longrightarrow> (\<And>s'. I s' \<Longrightarrow> I (fst (f s'))) \<Longrightarrow> I (fst (ctl_then r f))"
  by (cases r) (auto simp: ctl_then_def split: option.splits prod.splits, metis fst_conv)

lemma ctl_role_request_inv: "I s \<Longrightarrow> I (fst (ctl_role_request E msg s))"
  using role_request_inv [of s "msg_role msg" "msg_generation_id msg"]
  by (auto simp: ctl_role_request_def split: prod.splits option.splits intro!: then_inv)

lemma ctl_handle_inv: "I s \<Longrightarrow> I (fst (ctl_handle E msg act s))"
  by (cases act) (auto simp: ctl_role_request_inv set_async_inv Let_def split: option.splits)

lemma handle_recv_inv: "I s \<Longrightarrow> I (fst (ctl_handle_recv E msg s))"
  using ctl_handle_inv [of s msg "the (ctl_action_of msg)"]
  by (auto simp: ctl_handle_recv_def split: option.splits prod.splits)

end

section \<open>The check of the role\<close>

text \<open>The requests that change the switch, by version.\<close>

definition modifying_type :: "u8 \<Rightarrow> u8 \<Rightarrow> bool" where
  "modifying_type version t \<longleftrightarrow>
     (version = 3 \<or> version = 4) \<and> (t \<in> {7, 9, 13, 14, 15, 16, 17} \<or> version = 4 \<and> t = 29)"

lemma modifying_guarded:
  assumes "modifying_type (msg_version msg) (msg_type msg)"
  shows "\<exists>h. ctl_action_of msg \<in> {Some (Guarded h), Some (Guarded_checked h)}"
  using assms unfolding modifying_type_def ctl_action_of_def ctl12_types_def ctl13_types_def by auto

text \<open>
  C15: a controller in the role of a slave cannot change the switch.  Any of its requests to do so is
  answered with the error \<open>IS_SLAVE\<close>; the application is not called and nothing is changed.
\<close>

theorem slave_denied:
  assumes "is_slave (env_ctl E s)" "\<not> deleting (env_ctl E s)" "env_send_ok E"
    and "modifying_type (msg_version msg) (msg_type msg)"
  shows "ctl_handle_recv E msg s = (s, [Send_error (msg_xid msg) (Err 1 10)], False)"
  using modifying_guarded [OF assms(4)] assms(1,2,3)
  by (auto simp: ctl_handle_recv_def ctl_guard_def check_role_def ctl_catch_def error_ctor_defs)

definition lone_env :: "(ctl_call \<Rightarrow> ctl_exn option) \<Rightarrow> crofctl ctl_env" where
  "lone_env app =
     \<lparr>env_ctl = id, env_set_ctl = (\<lambda>c _. c), env_role_request = (\<lambda>r g c. (c\<lparr>role := r\<rparr>, None)), env_app = app,
      env_send_ok = True\<rparr>"

definition some_msg :: "u8 \<Rightarrow> u8 \<Rightarrow> ctl_msg" where
  "some_msg version t =
     \<lparr>msg_version = version, msg_type = t, msg_stats_type = 0, msg_xid = 77, msg_check = None, msg_role = 2,
      msg_generation_id = 5, msg_async = async_default\<rparr>"

theorem slave_denied_witness:
  "ctl_handle_recv (lone_env (\<lambda>_. None)) (some_msg 4 29) ((crofctl_new 1 0)\<lparr>chan_version := 4, role := OFPCR_ROLE_SLAVE\<rparr>) =
     ((crofctl_new 1 0)\<lparr>chan_version := 4, role := OFPCR_ROLE_SLAVE\<rparr>, [Send_error 77 (Err 1 10)], False)"
  by (subst slave_denied)
    (simp_all add: lone_env_def some_msg_def crofctl_new_def is_slave_def modifying_type_def)

section \<open>Errors of the application\<close>

text \<open>Exceptions without a protocol error: the base classes of the families, and all others.\<close>

definition no_protocol_error :: "ctl_exn set" where
  "no_protocol_error =
     {BadRequest eBadRequestBase, SwitchConfig eSwitchConfigBase, FlowMod eFlowModBase, GroupMod eGroupModBase,
      PortMod ePortModBase, TableMod eTableModBase, BadAction eBadActionBase, BadInst eBadInstBase,
      BadMatch eBadMatchBase, RoleRequest eRoleRequestBase, MeterMod eMeterModBase,
      eRofCtlNotFound, eRoflOther, eForeign}"


lemma ctl_error_none: "e \<in> no_protocol_error \<Longrightarrow> ctl_error e v = None"
  by (auto simp: no_protocol_error_def no_class_def)

lemma ctl_error_of13: "e \<notin> no_protocol_error \<Longrightarrow> \<exists>m. ctl_error e 4 = Some (Inr m)"
proof (cases e)
  case (BadRequest x)
  then show "e \<notin> no_protocol_error \<Longrightarrow> ?thesis" by (cases x) (auto simp: error_ctor_defs no_protocol_error_def)
next
  case (SwitchConfig x)
  then show "e \<notin> no_protocol_error \<Longrightarrow> ?thesis" by (cases x) (auto simp: error_ctor_defs no_protocol_error_def)
next
  case (FlowMod x)
  then show "e \<notin> no_protocol_error \<Longrightarrow> ?thesis" by (cases x) (auto simp: error_ctor_defs no_protocol_error_def)
next
  case (GroupMod x)
  then show "e \<notin> no_protocol_error \<Longrightarrow> ?thesis" by (cases x) (auto simp: error_ctor_defs no_protocol_error_def)
next
  case (PortMod x)
  then show "e \<notin> no_protocol_error \<Longrightarrow> ?thesis" by (cases x) (auto simp: error_ctor_defs no_protocol_error_def)
next
  case (TableMod x)
  then show "e \<notin> no_protocol_error \<Longrightarrow> ?thesis" by (cases x) (auto simp: error_ctor_defs no_protocol_error_def)
next
  case (BadAction x)
  then show "e \<notin> no_protocol_error \<Longrightarrow> ?thesis" by (cases x) (auto simp: error_ctor_defs no_protocol_error_def)
next
  case (BadInst x)
  then show "e \<notin> no_protocol_error \<Longrightarrow> ?thesis" by (cases x) (auto simp: error_ctor_defs no_protocol_error_def)
next
  case (BadMatch x)
  then show "e \<notin> no_protocol_error \<Longrightarrow> ?thesis" by (cases x) (auto simp: error_ctor_defs no_protocol_error_def)
next
  case (RoleRequest x)
  then show "e \<notin> no_protocol_error \<Longrightarrow> ?thesis" by (cases x) (auto simp: error_ctor_defs no_protocol_error_def)
next
  case (MeterMod x)
  then show "e \<notin> no_protocol_error \<Longrightarrow> ?thesis" by (cases x) (auto simp: error_ctor_defs no_protocol_error_def)
qed (simp_all add: error_ctor_defs no_protocol_error_def)

lemma handle_recv_app_throws:
  assumes "attached (env_ctl E s)" "\<not> deleting (env_ctl E s)" "ctl_action_of msg = Some (Pass h)" "env_app E h = Some e"
  shows "ctl_handle_recv E msg s =
    (case ctl_catch (chan_version (env_ctl E s)) (env_send_ok E) (msg_xid msg) e of (es, escaped) \<Rightarrow> (s, Call h # es, escaped))"
  using assms by (simp add: ctl_handle_recv_def ctl_call_env_def split: prod.split)

text \<open>
  Whatever kind of message it is, at most one method of the application is called, and what it throws is
  what the handling ends with.
\<close>

lemma ctl_handle_app_throws:
  assumes "ctl_handle E msg act s = (s1, es, r)" "Call h \<in> set es" "env_app E h = Some e"
  shows "es = [Call h] \<and> r = Some e"
  using assms
  by (cases act) (auto simp: ctl_call_env_def ctl_guard_def ctl_role_request_def ctl_send_reply_def ctl_then_def Let_def
      split: if_splits option.splits prod.splits)

lemma ctl_catch_no_call: "ctl_catch v ok xid e = (es, b) \<Longrightarrow> Call h \<notin> set es"
  by (auto simp: ctl_catch_def split: if_splits option.splits sum.splits)

lemma handle_recv_any_app_throws:
  assumes "ctl_handle_recv E msg s = (s1, es, escaped)" "Call h \<in> set es" "env_app E h = Some e"
  shows "\<exists>es'. es = Call h # es' \<and> ctl_catch (chan_version (env_ctl E s1)) (env_send_ok E) (msg_xid msg) e = (es', escaped)"
proof -
  obtain act where act: "ctl_action_of msg = Some act"
    using assms(1,2) by (cases "ctl_action_of msg") (auto simp: ctl_handle_recv_def split: if_splits)
  obtain s2 es2 r where r: "ctl_handle E msg act s = (s2, es2, r)"
    by (metis prod_cases3)
  have "Call h \<in> set es2"
    using assms(1,2) act r by (auto simp: ctl_handle_recv_def dest: ctl_catch_no_call split: if_splits option.splits prod.splits)
  from ctl_handle_app_throws [OF r(1) this assms(3)] show ?thesis
    using assms(1,2) act r by (auto simp: ctl_handle_recv_def split: if_splits prod.splits)
qed

text \<open>
  C25: on a channel of OpenFlow 1.3 that takes messages, every error of the application reaches the
  controller.  Whatever the message is (a request that is passed on, one that is guarded by the role or
  by prerequisites, a statistics, role or asynchronous configuration request), when its handling calls a
  method of the application and that method throws an exception with a protocol error, the effects are
  that call and exactly one error message, of the exception's family and with the request's transaction;
  the exceptions without a protocol error (\<open>no_protocol_error\<close>) end the handling silently, and only one
  of a foreign class leaves \<open>handle_recv\<close>.  Errors that the library raises before it calls the
  application are not the subject here.
\<close>

theorem of13_errors_answered:
  assumes "ctl_handle_recv E msg s = (s1, es, escaped)" "Call h \<in> set es" "env_app E h = Some e"
    and "chan_version (env_ctl E s1) = 4" "env_send_ok E"
  shows "if e \<in> no_protocol_error then es = [Call h] \<and> escaped = (e = eForeign)
    else \<not> escaped \<and> (\<exists>m. es = [Call h, Send_error (msg_xid msg) m] \<and> err_type m = ctl_family e)"
proof -
  obtain es' where es: "es = Call h # es'" "ctl_catch 4 True (msg_xid msg) e = (es', escaped)"
    using handle_recv_any_app_throws [OF assms(1,2,3)] assms(4,5) by auto
  show ?thesis
  proof (cases "e \<in> no_protocol_error")
    case True
    then show ?thesis
      using es ctl_error_none [OF True] by (auto simp: ctl_catch_def split: if_splits)
  next
    case False
    then obtain m where m: "ctl_error e 4 = Some (Inr m)"
      using ctl_error_of13 by blast
    moreover have "e \<noteq> eForeign"
      using False by (auto simp: no_protocol_error_def)
    ultimately show ?thesis
      using False es ctl_error_family(1) [OF m] by (auto simp: ctl_catch_def)
  qed
qed

definition of13_peer :: crofctl where
  "of13_peer = (crofctl_new 1 0)\<lparr>chan_version := 4\<rparr>"

text \<open>A flow modification, guarded by the role and by its prerequisites, whose handler throws.\<close>

lemma of13_flow_mod_run:
  "ctl_handle_recv (lone_env (\<lambda>_. Some (FlowMod eFlowModTableFull))) (some_msg 4 14) of13_peer =
     (of13_peer, [Call Handle_flow_mod, Send_error 77 (Err 5 1)], False)"
  by (simp add: ctl_handle_recv_def lone_env_def some_msg_def of13_peer_def crofctl_new_def ctl_action_of_def
      ctl13_types_def ctl_guard_def check_role_def is_slave_def ctl_call_env_def ctl_catch_def error_ctor_defs role_defs)

theorem of13_errors_answered_witness:
  "FlowMod eFlowModTableFull \<notin> no_protocol_error \<and>
   (\<exists>m. [Call Handle_flow_mod, Send_error 77 (Err 5 1)] = [Call Handle_flow_mod, Send_error 77 m] \<and> err_type m = 5)"
  using of13_errors_answered [OF of13_flow_mod_run, of Handle_flow_mod "FlowMod eFlowModTableFull"]
  by (simp add: lone_env_def some_msg_def of13_peer_def crofctl_new_def no_protocol_error_def)

text \<open>The families without an OpenFlow 1.0 error message in the library; OpenFlow 1.0 itself has errors for \<open>PortMod\<close>.\<close>

primrec refused_of10 :: "ctl_exn \<Rightarrow> bool" where
  "refused_of10 (BadRequest e) = False" | "refused_of10 (SwitchConfig e) = True" | "refused_of10 (FlowMod e) = False"
| "refused_of10 (GroupMod e) = True" | "refused_of10 (PortMod e) = True" | "refused_of10 (TableMod e) = True"
| "refused_of10 (BadAction e) = False" | "refused_of10 (BadInst e) = True" | "refused_of10 (BadMatch e) = True"
| "refused_of10 (RoleRequest e) = True" | "refused_of10 (MeterMod e) = True" | "refused_of10 eBadVersion = False"
| "refused_of10 eRofCtlNotFound = False" | "refused_of10 eRoflOther = False" | "refused_of10 eForeign = False"

lemma ctl_error_of10:
  assumes "refused_of10 e" "e \<notin> no_protocol_error"
  shows "ctl_error e 1 = Some (Inl EBadVersion)"
proof (cases e)
  case (SwitchConfig x)
  with assms show ?thesis by (cases x) (auto simp: error_ctor_defs no_protocol_error_def)
next
  case (GroupMod x)
  with assms show ?thesis by (cases x) (auto simp: error_ctor_defs no_protocol_error_def)
next
  case (PortMod x)
  with assms show ?thesis by (cases x) (auto simp: error_ctor_defs no_protocol_error_def)
next
  case (TableMod x)
  with assms show ?thesis by (cases x) (auto simp: error_ctor_defs no_protocol_error_def)
next
  case (BadInst x)
  with assms show ?thesis by (cases x) (auto simp: error_ctor_defs no_protocol_error_def)
next
  case (BadMatch x)
  with assms show ?thesis by (cases x) (auto simp: error_ctor_defs no_protocol_error_def)
next
  case (RoleRequest x)
  with assms show ?thesis by (cases x) (auto simp: error_ctor_defs no_protocol_error_def)
next
  case (MeterMod x)
  with assms show ?thesis by (cases x) (auto simp: error_ctor_defs no_protocol_error_def)
qed (use assms in simp_all)

text \<open>
  With OpenFlow 1.0, errors of most families are lost, a refused port modification among them.
  The catch clause constructs an error message that refuses its version: no error is sent, the
  exception leaves \<open>handle_recv\<close>, and the message is not deleted.
\<close>

theorem of10_errors_lost:
  assumes "attached (env_ctl E s)" "\<not> deleting (env_ctl E s)" "chan_version (env_ctl E s) = 1"
    and "ctl_action_of msg = Some (Pass h)" "env_app E h = Some e"
    and "refused_of10 e" "e \<notin> no_protocol_error"
  shows "ctl_handle_recv E msg s = (s, [Call h], True)"
  using handle_recv_app_throws [OF assms(1,2,4,5)] ctl_error_of10 [OF assms(6,7)] assms(3)
  by (simp add: ctl_catch_def split: if_splits)

theorem of10_errors_lost_example:
  "ctl_handle_recv (lone_env (\<lambda>_. Some (PortMod ePortModBadPort))) (some_msg 1 15) ((crofctl_new 1 0)\<lparr>chan_version := 1\<rparr>) =
     ((crofctl_new 1 0)\<lparr>chan_version := 1\<rparr>, [Call Handle_port_mod], True)"
  by (rule of10_errors_lost [where e = "PortMod ePortModBadPort"])
    (simp_all add: lone_env_def some_msg_def crofctl_new_def ctl_action_of_def ctl10_types_def no_protocol_error_def)

end
