(* ===== verification/Crofbase_Roles.thy ===== *)
theory Crofbase_Roles
  imports Crofbase Crofctl_Answers
begin

text \<open>
  The peers of a datapath together: there is at most one master, role requests are ordered by their
  generation, messages to all peers, identifiers of new peers.
\<close>

section \<open>The invariant\<close>

definition valid_peers :: "(u64 \<times> crofctl) list \<Rightarrow> bool" where
  "valid_peers ctls \<longleftrightarrow>
     map_wf ctls \<and>
     (\<forall>k c. map_of ctls k = Some c \<longrightarrow>
        ctlid c = k \<and> attached c \<and> role c \<in> {OFPCR_ROLE_EQUAL, OFPCR_ROLE_MASTER, OFPCR_ROLE_SLAVE}) \<and>
     (\<forall>k c k' c'. map_of ctls k = Some c \<longrightarrow> map_of ctls k' = Some c' \<longrightarrow>
        role c = OFPCR_ROLE_MASTER \<longrightarrow> role c' = OFPCR_ROLE_MASTER \<longrightarrow> k = k')"

definition base_wf :: "crofbase \<Rightarrow> bool" where
  "base_wf b \<longleftrightarrow> valid_peers (rofctls b)"

lemma valid_peersI:
  assumes "map_wf ctls"
    and "\<And>k c. map_of ctls k = Some c \<Longrightarrow>
      ctlid c = k \<and> attached c \<and> role c \<in> {OFPCR_ROLE_EQUAL, OFPCR_ROLE_MASTER, OFPCR_ROLE_SLAVE}"
    and "\<And>k c k' c'. map_of ctls k = Some c \<Longrightarrow> map_of ctls k' = Some c' \<Longrightarrow>
      role c = OFPCR_ROLE_MASTER \<Longrightarrow> role c' = OFPCR_ROLE_MASTER \<Longrightarrow> k = k'"
  shows "valid_peers ctls"
  using assms unfolding valid_peers_def by blast

lemma valid_peersD:
  assumes "valid_peers ctls" "map_of ctls k = Some c"
  shows "ctlid c = k" "attached c" "role c \<in> {OFPCR_ROLE_EQUAL, OFPCR_ROLE_MASTER, OFPCR_ROLE_SLAVE}"
  using assms unfolding valid_peers_def by blast+

lemma valid_peers_one:
  "valid_peers ctls \<Longrightarrow> map_of ctls k = Some c \<Longrightarrow> map_of ctls k' = Some c' \<Longrightarrow> role c = OFPCR_ROLE_MASTER \<Longrightarrow>
   role c' = OFPCR_ROLE_MASTER \<Longrightarrow> k = k'"
  unfolding valid_peers_def by blast

lemma valid_peers_wf: "valid_peers ctls \<Longrightarrow> map_wf ctls"
  by (simp add: valid_peers_def)

section \<open>Updates of all peers\<close>

definition each_peer :: "(u64 \<Rightarrow> crofctl \<Rightarrow> crofctl) \<Rightarrow> (u64 \<times> crofctl) list \<Rightarrow> (u64 \<times> crofctl) list" where
  "each_peer f ctls = map (\<lambda>(k, c). (k, f k c)) ctls"

lemma each_peer_lookup: "map_of (each_peer f ctls) k = map_option (f k) (map_of ctls k)"
  by (induction ctls) (auto simp: each_peer_def)

lemma each_peer_wf: "map_wf (each_peer f ctls) = map_wf ctls"
proof -
  have "map fst (each_peer f ctls) = map fst ctls"
    by (induction ctls) (auto simp: each_peer_def)
  then show ?thesis
    by (simp add: map_wf_def)
qed

text \<open>An update of the peers keeps the invariant if it makes no new master and keeps identity and attachment.\<close>

lemma valid_peers_each:
  assumes valid: "valid_peers ctls"
    and ids: "\<And>k c. map_of ctls k = Some c \<Longrightarrow> ctlid (f k c) = ctlid c \<and> attached (f k c) = attached c"
    and roles: "\<And>k c. map_of ctls k = Some c \<Longrightarrow> role (f k c) \<in> {role c, OFPCR_ROLE_EQUAL, OFPCR_ROLE_SLAVE}"
  shows "valid_peers (each_peer f ctls)"
proof (rule valid_peersI)
  have master: "role c = OFPCR_ROLE_MASTER" if "map_of ctls k = Some c" "role (f k c) = OFPCR_ROLE_MASTER" for k c
    using roles [OF that(1)] that(2) by (auto simp: role_defs)
  show "k = k'" if "map_of (each_peer f ctls) k = Some c" "map_of (each_peer f ctls) k' = Some c'"
    "role c = OFPCR_ROLE_MASTER" "role c' = OFPCR_ROLE_MASTER" for k c k' c'
    using that master valid_peers_one [OF valid] by (auto simp: each_peer_lookup)
  show "ctlid c = k \<and> attached c \<and> role c \<in> {OFPCR_ROLE_EQUAL, OFPCR_ROLE_MASTER, OFPCR_ROLE_SLAVE}"
    if peer: "map_of (each_peer f ctls) k = Some c" for k c
  proof -
    obtain d where d: "map_of ctls k = Some d" "c = f k d"
      using peer by (auto simp: each_peer_lookup)
    show ?thesis
      using valid_peersD [OF valid d(1)] ids [OF d(1)] roles [OF d(1)] d(2) by auto
  qed
qed (simp add: each_peer_wf valid_peers_wf [OF valid])

text \<open>After the demotion of the others, the caller may become master.\<close>

lemma valid_peers_elect:
  assumes valid: "valid_peers ctls"
    and caller: "\<And>c. ctlid (f i c) = ctlid c \<and> attached (f i c) = attached c \<and> role (f i c) = OFPCR_ROLE_MASTER"
    and others: "\<And>k c. k \<noteq> i \<Longrightarrow> f k c = (if role c = OFPCR_ROLE_MASTER then c\<lparr>role := OFPCR_ROLE_SLAVE\<rparr> else c)"
  shows "valid_peers (each_peer f ctls)"
proof (rule valid_peersI)
  have master: "k = i" if "role (f k c) = OFPCR_ROLE_MASTER" for k c
    using others [of k c] that by (cases "k = i") (auto simp: role_defs split: if_splits)
  show "k = k'" if "map_of (each_peer f ctls) k = Some c" "map_of (each_peer f ctls) k' = Some c'"
    "role c = OFPCR_ROLE_MASTER" "role c' = OFPCR_ROLE_MASTER" for k c k' c'
    using that master by (auto simp: each_peer_lookup)
  show "ctlid c = k \<and> attached c \<and> role c \<in> {OFPCR_ROLE_EQUAL, OFPCR_ROLE_MASTER, OFPCR_ROLE_SLAVE}"
    if peer: "map_of (each_peer f ctls) k = Some c" for k c
  proof -
    obtain d where d: "map_of ctls k = Some d" "c = f k d"
      using peer by (auto simp: each_peer_lookup)
    show ?thesis
      using valid_peersD [OF valid d(1)] caller [of d] others [of k d] d(2) by (cases "k = i") auto
  qed
qed (simp add: each_peer_wf valid_peers_wf [OF valid])

lemma rofctls_upd: "rofctls (base_upd i f b) = each_peer (\<lambda>k c. if k = i then f c else c) (rofctls b)"
  by (simp add: base_upd_def each_peer_def)

lemma demote_each:
  "demote_masters i ctls =
     each_peer (\<lambda>k c. if k \<noteq> i \<and> role c = OFPCR_ROLE_MASTER then c\<lparr>role := OFPCR_ROLE_SLAVE\<rparr> else c) ctls"
  by (simp add: demote_masters_def each_peer_def)

lemma lookup_upd: "map_of (rofctls (base_upd i f b)) k = (if k = i then map_option f else id) (map_of (rofctls b) k)"
  by (simp add: rofctls_upd each_peer_lookup option.map_id0 flip: id_def)

lemma each_peer_each: "each_peer f (each_peer g ctls) = each_peer (\<lambda>k c. f k (g k c)) ctls"
  by (simp add: each_peer_def comp_def case_prod_unfold)

lemma base_wf_upd:
  assumes "base_wf b"
    and "\<And>c. map_of (rofctls b) i = Some c \<Longrightarrow> ctlid (f c) = ctlid c \<and> attached (f c) = attached c"
    and "\<And>c. map_of (rofctls b) i = Some c \<Longrightarrow> role (f c) \<in> {role c, OFPCR_ROLE_EQUAL, OFPCR_ROLE_SLAVE}"
  shows "base_wf (base_upd i f b)"
  using assms unfolding base_wf_def rofctls_upd by (intro valid_peers_each) auto

section \<open>Operations keep the invariant\<close>

definition stale_request :: "u64 \<Rightarrow> crofbase \<Rightarrow> bool" where
  "stale_request g b \<longleftrightarrow> generation_is_defined b \<and> role_distance g (cached_generation_id b) < 0"

text \<open>What a granted request makes of the peer \<open>k\<close>.\<close>

definition grant :: "u64 \<Rightarrow> u32 \<Rightarrow> u64 \<Rightarrow> u64 \<Rightarrow> crofctl \<Rightarrow> crofctl" where
  "grant i r gid k c =
     (if k = i then (if r \<in> {OFPCR_ROLE_MASTER, OFPCR_ROLE_SLAVE, OFPCR_ROLE_EQUAL}
                     then take_role r (c\<lparr>generation_id := gid\<rparr>) else c\<lparr>generation_id := gid\<rparr>)
      else if r = OFPCR_ROLE_MASTER \<and> role c = OFPCR_ROLE_MASTER then c\<lparr>role := OFPCR_ROLE_SLAVE\<rparr>
      else c)"

lemma upd_each: "base_upd i f b = b\<lparr>rofctls := each_peer (\<lambda>k c. if k = i then f c else c) (rofctls b)\<rparr>"
  by (simp add: base_upd_def each_peer_def)

lemma granted:
  "(let b2 = base_upd i (\<lambda>c. c\<lparr>generation_id := gid\<rparr>) b
    in if r = OFPCR_ROLE_MASTER
       then base_upd i (take_role OFPCR_ROLE_MASTER) (b2\<lparr>rofctls := demote_masters i (rofctls b2)\<rparr>)
       else if r = OFPCR_ROLE_SLAVE then base_upd i (take_role OFPCR_ROLE_SLAVE) b2
       else if r = OFPCR_ROLE_EQUAL then base_upd i (take_role OFPCR_ROLE_EQUAL) b2
       else b2) = b\<lparr>rofctls := each_peer (grant i r gid) (rofctls b)\<rparr>"
proof -
  have ext: "each_peer f (rofctls b) = each_peer g (rofctls b)" if "\<And>k c. f k c = g k c" for f g
    using that by (simp add: each_peer_def)
  consider "r = OFPCR_ROLE_MASTER" | "r = OFPCR_ROLE_SLAVE" | "r = OFPCR_ROLE_EQUAL"
    | "r \<notin> {OFPCR_ROLE_MASTER, OFPCR_ROLE_SLAVE, OFPCR_ROLE_EQUAL}"
    by blast
  then show ?thesis
    by cases (simp_all add: Let_def upd_each demote_each each_peer_each role_defs,
      (rule arg_cong [where f = "\<lambda>x. b\<lparr>rofctls := x\<rparr>"], rule ext, simp add: grant_def role_defs)+)
qed

lemma role_request_rcvd_eq:
  "role_request_rcvd i r g b =
     (if stale_request g b \<and> r \<in> {OFPCR_ROLE_MASTER, OFPCR_ROLE_SLAVE} then (b, Some (RoleRequest eRoleRequestStale))
      else let gid = (if stale_request g b then cached_generation_id b else g)
           in (b\<lparr>rofctls := each_peer (grant i r gid) (rofctls b), generation_is_defined := True,
                 cached_generation_id := gid\<rparr>, None))"
proof (cases "stale_request g b")
  case True
  then have b: "b\<lparr>rofctls := x, generation_is_defined := True\<rparr> = b\<lparr>rofctls := x\<rparr>" for x
    by (cases b) (simp add: stale_request_def)
  show ?thesis
    using True granted [of i "cached_generation_id b" b r] b
    by (auto simp: role_request_rcvd_def stale_request_def Let_def)
next
  case False
  then show ?thesis
    using granted [of i g "b\<lparr>cached_generation_id := g, generation_is_defined := True\<rparr>" r]
    by (auto simp add: role_request_rcvd_def stale_request_def Let_def)
qed

lemma grant_identity: "ctlid (grant i r gid k c) = ctlid c" "attached (grant i r gid k c) = attached c"
  by (simp_all add: grant_def take_role_def)

lemma grant_role:
  "role (grant i r gid k c) =
     (if k = i then (if r \<in> {OFPCR_ROLE_MASTER, OFPCR_ROLE_SLAVE, OFPCR_ROLE_EQUAL} then r else role c)
      else if r = OFPCR_ROLE_MASTER \<and> role c = OFPCR_ROLE_MASTER then OFPCR_ROLE_SLAVE else role c)"
  by (simp add: grant_def take_role_def)

lemma valid_peers_grant:
  assumes "valid_peers ctls"
  shows "valid_peers (each_peer (grant i r gid) ctls)"
proof (cases "r = OFPCR_ROLE_MASTER")
  case True
  show ?thesis
    by (rule valid_peers_elect [OF assms, where i = i])
      (simp_all add: grant_identity grant_role True, simp add: grant_def True)
next
  case False
  show ?thesis
    by (rule valid_peers_each [OF assms]) (simp_all add: grant_identity grant_role False)
qed

lemma base_wf_role_request:
  assumes "base_wf b"
  shows "base_wf (fst (role_request_rcvd i r g b))"
  using assms by (simp add: role_request_rcvd_eq Let_def base_wf_def valid_peers_grant)

interpretation peer: ctl_surroundings "base_env app send_ok i" base_wf for app send_ok i
proof
  show "base_wf (fst (env_role_request (base_env app send_ok i) r g b))" if "base_wf b" for b r g
    using base_wf_role_request [OF that] by (simp add: base_env_def)
  show "base_wf (env_set_ctl (base_env app send_ok i) ((env_ctl (base_env app send_ok i) b)\<lparr>async_cfg := a\<rparr>) b)"
    if "base_wf b" for b a
    by (auto simp: base_env_def base_ctl_def intro!: base_wf_upd [OF that])
qed

text \<open>Peers may go, and new ones come in role equal.\<close>

lemma valid_peers_change:
  assumes valid: "valid_peers ctls" and wf: "map_wf ctls'"
    and peers: "\<And>k c. map_of ctls' k = Some c \<Longrightarrow>
      map_of ctls k = Some c \<or> ctlid c = k \<and> attached c \<and> role c = OFPCR_ROLE_EQUAL"
  shows "valid_peers ctls'"
proof (rule valid_peersI [OF wf])
  show "ctlid c = k \<and> attached c \<and> role c \<in> {OFPCR_ROLE_EQUAL, OFPCR_ROLE_MASTER, OFPCR_ROLE_SLAVE}"
    if "map_of ctls' k = Some c" for k c
    using peers [OF that] valid_peersD [OF valid] by blast
  have "map_of ctls k = Some c" if "map_of ctls' k = Some c" "role c = OFPCR_ROLE_MASTER" for k c
    using peers [OF that(1)] that(2) by (auto simp: role_defs)
  then show "k = k'" if "map_of ctls' k = Some c" "map_of ctls' k' = Some c'" "role c = OFPCR_ROLE_MASTER"
    "role c' = OFPCR_ROLE_MASTER" for k c k' c'
    using that valid_peers_one [OF valid] by blast
qed

lemma base_wf_put: "base_wf b \<Longrightarrow> base_wf (base_put_ctl i x b)"
  unfolding base_wf_def base_put_ctl_def
  by (auto intro!: valid_peers_change [of "rofctls b"] intro: sorted_intros valid_peers_wf
      simp: crofctl_new_def map_of_put valid_peers_wf split: if_splits)

lemma base_wf_drop: "base_wf b \<Longrightarrow> base_wf (fst (drop_ctl i b))"
  unfolding base_wf_def drop_ctl_def
  by (auto intro!: valid_peers_change [of "rofctls b"] intro: sorted_intros valid_peers_wf
      simp: map_of_erase split: if_splits option.splits)

lemma base_wf_no_peers: "rofctls b = [] \<Longrightarrow> base_wf b"
  by (simp add: base_wf_def valid_peers_def)

lemma base_wf_cong: "rofctls b' = rofctls b \<Longrightarrow> base_wf b' = base_wf b"
  by (simp add: base_wf_def)

lemma base_wf_handle_recv: "base_wf b \<Longrightarrow> base_wf (fst (base_handle_recv app send_ok i msg b))"
  unfolding base_handle_recv_def by (rule peer.handle_recv_inv)

lemma handle_established_same:
  "ctlid (ctl_handle_established version c) = ctlid c" "attached (ctl_handle_established version c) = attached c"
  "role (ctl_handle_established version c) \<in> {role c, OFPCR_ROLE_EQUAL}"
  by (simp_all add: ctl_handle_established_def)

lemma handle_closed_same:
  "ctlid (ctl_handle_closed c) = ctlid c" "attached (ctl_handle_closed c) = attached c"
  "role (ctl_handle_closed c) \<in> {role c, OFPCR_ROLE_EQUAL}"
  by (simp_all add: ctl_handle_closed_def)

text \<open>Sending counts transaction ids, in the peers up to the first that refuses.\<close>

lemma ctl_send_state: "fst (ctl_send ignored c) = c \<or> fst (ctl_send ignored c) = c\<lparr>xid_last := xid_last c + 1\<rparr>"
  by (simp add: ctl_send_def)

lemma send_all_peerwise:
  "list_all2 (\<lambda>(k, c) (k', c'). k = k' \<and> (c' = c \<or> c' = fst (send c))) ctls (fst (send_all send refuses ctls s))"
proof (induction send refuses ctls s rule: send_all.induct)
  case (2 send refuses i c ctls s)
  obtain c1 r where "send c = (c1, r)"
    by fastforce
  then show ?case
    using 2 by (cases r) (auto simp: list_all2_refl split: prod.split)
qed simp

lemma peerwise_keys: "list_all2 (\<lambda>(k, c) (k', c'). k = k' \<and> R c c') xs ys \<Longrightarrow> map fst ys = map fst xs"
  by (induction rule: list_all2_induct) auto

lemma peerwise_lookup:
  "list_all2 (\<lambda>(k, c) (k', c'). k = k' \<and> R c c') xs ys \<Longrightarrow> map_of ys k = Some c' \<Longrightarrow> \<exists>c. map_of xs k = Some c \<and> R c c'"
  by (induction rule: list_all2_induct) (auto split: if_splits)

lemma base_wf_send:
  assumes "base_wf b"
    and "\<And>c. ctlid (fst (send c)) = ctlid c \<and> attached (fst (send c)) = attached c \<and> role (fst (send c)) = role c"
  shows "base_wf (fst (base_send send refuses b))"
proof -
  let ?ctls = "fst (send_all send refuses (rofctls b) False)"
  have valid: "valid_peers (rofctls b)"
    using assms(1) by (simp add: base_wf_def)
  have peers: "\<exists>c. map_of (rofctls b) k = Some c \<and> ctlid c' = ctlid c \<and> attached c' = attached c \<and> role c' = role c"
    if "map_of ?ctls k = Some c'" for k c'
    using peerwise_lookup [OF send_all_peerwise that] assms(2) by metis
  have "valid_peers ?ctls"
  proof (rule valid_peersI)
    show "map_wf ?ctls"
      using valid_peers_wf [OF valid] by (simp add: map_wf_def peerwise_keys [OF send_all_peerwise])
    show "ctlid c = k \<and> attached c \<and> role c \<in> {OFPCR_ROLE_EQUAL, OFPCR_ROLE_MASTER, OFPCR_ROLE_SLAVE}"
      if "map_of ?ctls k = Some c" for k c
      using peers [OF that] valid_peersD [OF valid] by fastforce
    show "k = k'" if "map_of ?ctls k = Some c" "map_of ?ctls k' = Some c'" "role c = OFPCR_ROLE_MASTER"
      "role c' = OFPCR_ROLE_MASTER" for k c k' c'
      using peers [OF that(1)] peers [OF that(2)] that(3,4) valid_peers_one [OF valid] by fastforce
  qed
  then show ?thesis
    by (cases "send_all send refuses (rofctls b) False") (auto simp: base_send_def base_wf_def)
qed

lemma base_wf_step: "base_step b b' \<Longrightarrow> base_wf b \<Longrightarrow> base_wf b'"
proof (induction rule: base_step.induct)
  case (Chan_established b i version)
  have "base_wf (base_upd i (\<lambda>c. c\<lparr>chan_version := version, established := True\<rparr>) b)"
    by (rule base_wf_upd [OF Chan_established]) simp_all
  then show ?case
    by (rule base_wf_upd) (use handle_established_same in blast)+
next
  case (Chan_closed b i p)
  have "base_wf (base_upd i (\<lambda>c. ctl_handle_closed c\<lparr>established := False\<rparr>) b)"
    by (rule base_wf_upd [OF Chan_closed]) (simp_all add: ctl_handle_closed_def)
  then show ?case
    by (simp add: base_handle_ctl_closed_def base_wf_drop)
next
  case (Send_packet_in b reason refuses)
  then show ?case
    unfolding base_send_packet_in_def by (rule base_wf_send) (simp add: ctl_send_packet_in_def ctl_send_def)
next
  case (Send_flow_removed b reason refuses)
  then show ?case
    unfolding base_send_flow_removed_def by (rule base_wf_send) (simp add: ctl_send_flow_removed_def ctl_send_def)
next
  case (Send_port_status b reason refuses)
  then show ?case
    unfolding base_send_port_status_def by (rule base_wf_send) (simp add: ctl_send_port_status_def ctl_send_def)
qed (auto simp: add_ctl_def add_ctl_id_def set_ctl_def base_wf_handle_recv base_wf_put base_wf_drop drop_ctls_def
    base_timeout_rofctl_destroy_def base_wf_no_peers Let_def cong: base_wf_cong)

lemma reachable_base_wf: "base_reachable b \<Longrightarrow> base_wf b"
  by (induction rule: base_reachable.induct) (simp add: base_wf_no_peers crofbase_new_def, rule base_wf_step)

text \<open>
  C1: at most one controller is master.  In every reachable state of a datapath, whatever its
  controllers send and however they come and go, two peers that are both master are the same peer.
\<close>

theorem one_master:
  assumes "base_reachable b" "map_of (rofctls b) i = Some c" "map_of (rofctls b) j = Some d"
    and "role c = OFPCR_ROLE_MASTER" "role d = OFPCR_ROLE_MASTER"
  shows "i = j"
  using reachable_base_wf [OF assms(1)] valid_peers_one assms by (auto simp: base_wf_def)


text \<open>Two controllers of OpenFlow 1.3, which ask for the role of the master one after the other.\<close>

definition role_msg :: "u32 \<Rightarrow> u64 \<Rightarrow> ctl_msg" where
  "role_msg r g =
     \<lparr>msg_version = 4, msg_type = 24, msg_stats_type = 0, msg_xid = 9, msg_check = None, msg_role = r,
      msg_generation_id = g, msg_async = async_default\<rparr>"

definition connect :: "u64 \<Rightarrow> crofbase \<Rightarrow> crofbase" where
  "connect i b =
     base_upd i (ctl_handle_established 4)
       (base_upd i (\<lambda>c. c\<lparr>chan_version := 4, established := True\<rparr>) (add_ctl_id i 0 b))"

definition two_controllers :: crofbase where
  "two_controllers = connect 1 (connect 0 crofbase_new)"

definition ask_role :: "u64 \<Rightarrow> u32 \<Rightarrow> u64 \<Rightarrow> crofbase \<Rightarrow> crofbase" where
  "ask_role i r g b = fst (base_handle_recv (\<lambda>_. None) True i (role_msg r g) b)"

lemma connect_reachable: "base_reachable b \<Longrightarrow> base_reachable (connect i b)"
  unfolding connect_def by (drule base_reachable.Step [OF _ Add_id]) (rule base_reachable.Step [OF _ Chan_established])

lemma two_controllers_reachable: "base_reachable two_controllers"
  unfolding two_controllers_def by (intro connect_reachable base_reachable.Init)

lemma ask_role_reachable: "base_reachable b \<Longrightarrow> base_reachable (ask_role i r g b)"
  unfolding ask_role_def by (rule base_reachable.Step [OF _ Recv])

lemma two_controllers_lookup:
  "map_of (rofctls two_controllers) k =
     (if k = 0 \<or> k = 1 then Some ((crofctl_new k 0)\<lparr>chan_version := 4, established := True\<rparr>) else None)"
  by (auto simp: two_controllers_def connect_def lookup_upd add_ctl_id_def base_put_ctl_def crofbase_new_def
      crofctl_new_def ctl_handle_established_def base_upd_def)

lemma two_controllers_generation: "generation_is_defined two_controllers = False"
  by (simp add: two_controllers_def connect_def base_upd_def add_ctl_id_def base_put_ctl_def crofbase_new_def)

section \<open>Role requests\<close>

text \<open>A valid role request, from reception to the reply.\<close>

lemma base_role_request:
  assumes "map_of (rofctls b) i = Some c" "attached c" "\<not> deleting c" "chan_version c \<in> {3, 4}"
    and "msg_version msg \<in> {3, 4}" "msg_type msg = 24" "is_valid_role (msg_role msg)"
    and "app Handle_role_request = None"
  shows "base_handle_recv app True i msg b =
    (case role_request_rcvd i (msg_role msg) (msg_generation_id msg) b of
       (b1, Some e) \<Rightarrow> (b1, [Send_error (msg_xid msg) (Err 11 0)], False)
     | (b1, None) \<Rightarrow>
         (b1, [Call Handle_role_request,
               Send_role_reply (msg_xid msg)
                 (role (grant i (msg_role msg) (cached_generation_id b1) i c)) (cached_generation_id b1)], False))"
proof -
  have act: "ctl_action_of msg = Some Role_request"
    using assms(5,6) by (auto simp: ctl_action_of_def ctl12_types_def ctl13_types_def)
  have ctl: "env_ctl (base_env app True i) b = c"
    using assms(1) by (simp add: base_env_def base_ctl_def)
  have new: "env_ctl (base_env app True i) (b\<lparr>rofctls := each_peer (grant i r gid) (rofctls b),
      generation_is_defined := True, cached_generation_id := gid\<rparr>) = grant i r gid i c" for r gid
    using assms(1) by (simp add: base_env_def base_ctl_def each_peer_lookup)
  have gid: "generation_id (grant i r gid i c) = gid" for r gid
    by (simp add: grant_def take_role_def)
  have req: "env_role_request (base_env app True i) = role_request_rcvd i" "env_app (base_env app True i) = app"
    "env_send_ok (base_env app True i)"
    by (simp_all add: base_env_def)
  show ?thesis
    using assms act ctl
    by (auto simp: base_handle_recv_def ctl_handle_recv_def ctl_role_request_def req role_request_rcvd_eq Let_def
        ctl_then_def ctl_call_env_def ctl_send_reply_def ctl_catch_def error_ctor_defs new gid grant_identity)
qed

text \<open>
  C23: a request for the role of the master.  With an outdated generation it is refused and nothing
  changes; otherwise the asking peer is master with that generation and the asynchronous configuration
  of the template, a former master is a slave, no other peer changes, and the reply says so.
\<close>

theorem master_request:
  assumes "map_of (rofctls b) i = Some c" "attached c" "\<not> deleting c" "chan_version c \<in> {3, 4}"
    and "msg_version msg \<in> {3, 4}" "msg_type msg = 24" "msg_role msg = OFPCR_ROLE_MASTER"
    and "app Handle_role_request = None"
  shows "if stale_request (msg_generation_id msg) b
    then base_handle_recv app True i msg b = (b, [Send_error (msg_xid msg) (Err 11 0)], False)
    else \<exists>b'. base_handle_recv app True i msg b =
        (b', [Call Handle_role_request, Send_role_reply (msg_xid msg) OFPCR_ROLE_MASTER (msg_generation_id msg)], False) \<and>
      cached_generation_id b' = msg_generation_id msg \<and> generation_is_defined b' \<and>
      map_of (rofctls b') i =
        Some (c\<lparr>async_cfg := async_template c, role := OFPCR_ROLE_MASTER, generation_id := msg_generation_id msg\<rparr>) \<and>
      (\<forall>j. j = i \<or> map_of (rofctls b') j = map_option (\<lambda>d.
         if role d = OFPCR_ROLE_MASTER then d\<lparr>role := OFPCR_ROLE_SLAVE\<rparr> else d) (map_of (rofctls b) j))"
proof -
  have "is_valid_role (msg_role msg)"
    by (simp add: is_valid_role_def assms(7))
  note run = base_role_request [of b i c msg app, OF assms(1-6) this assms(8)]
  show ?thesis
    unfolding run using assms(1)
    by (auto simp: role_request_rcvd_eq Let_def assms(7) each_peer_lookup grant_def take_role_def
        intro!: option.map_cong0)
qed

theorem master_request_witness:
  "base_handle_recv (\<lambda>_. None) True 0 (role_msg 2 3) (two_controllers\<lparr>generation_is_defined := True, cached_generation_id := 4\<rparr>) =
     (two_controllers\<lparr>generation_is_defined := True, cached_generation_id := 4\<rparr>, [Send_error 9 (Err 11 0)], False)"
  using master_request [of "two_controllers\<lparr>generation_is_defined := True, cached_generation_id := 4\<rparr>" 0
      "(crofctl_new 0 0)\<lparr>chan_version := 4, established := True\<rparr>" "role_msg 2 3" "\<lambda>_. None"]
  by (simp add: two_controllers_lookup role_msg_def crofctl_new_def OFPCR_ROLE_MASTER_def stale_request_def
      role_distance_def)

theorem one_master_witness:
  "\<not> (\<exists>c. map_of (rofctls (ask_role 1 2 6 (ask_role 0 2 5 two_controllers))) 0 = Some c \<and> role c = OFPCR_ROLE_MASTER)"
proof
  let ?b = "ask_role 0 2 5 two_controllers"
  let ?b' = "ask_role 1 2 6 ?b"
  assume "\<exists>c. map_of (rofctls ?b') 0 = Some c \<and> role c = OFPCR_ROLE_MASTER"
  then obtain c where c: "map_of (rofctls ?b') 0 = Some c" "role c = OFPCR_ROLE_MASTER"
    by blast
  note defs = two_controllers_generation
  have valid: "is_valid_role 2"
    by (simp add: is_valid_role_def OFPCR_ROLE_MASTER_def)
  have step: "map_of (rofctls (ask_role i 2 g b)) k = map_option (grant i 2 g k) (map_of (rofctls b) k)"
    "cached_generation_id (ask_role i 2 g b) = g"
    if "map_of (rofctls b) i = Some d" "attached d" "\<not> deleting d" "chan_version d = 4" "\<not> stale_request g b"
    for i g b k d
    using that base_role_request [of b i d "role_msg 2 g" "\<lambda>_. None"]
    by (simp_all add: ask_role_def role_msg_def valid role_request_rcvd_eq Let_def each_peer_lookup)
  have b0: "map_of (rofctls two_controllers) 0 = Some ((crofctl_new 0 0)\<lparr>chan_version := 4, established := True\<rparr>)"
    by (simp add: two_controllers_lookup)
  have "map_of (rofctls ?b) 1 = Some ((crofctl_new 1 0)\<lparr>chan_version := 4, established := True\<rparr>)"
    and "cached_generation_id ?b = 5"
    using step [OF b0, of 5] by (simp_all add: crofctl_new_def stale_request_def defs two_controllers_lookup grant_def
        role_defs)
  then obtain d where d: "map_of (rofctls ?b') 1 = Some d" "role d = OFPCR_ROLE_MASTER"
    using step(1) [of ?b 1 _ 6 1]
    by (simp add: crofctl_new_def stale_request_def role_distance_def grant_def take_role_def OFPCR_ROLE_MASTER_def)
  have "(0::u64) = 1"
    by (rule one_master [OF ask_role_reachable [OF ask_role_reachable [OF two_controllers_reachable]] c(1) d(1) c(2) d(2)])
  then show False
    by simp
qed

text \<open>
  Requests for no special role outdate the master's.  A valid request for the role equal, or for no
  change, makes its generation the reference: a later request for the role of the master is refused when
  its generation is older than that, whatever masters and slaves have announced before.
\<close>

theorem equal_request_outdates:
  assumes "map_of (rofctls b) i = Some c" "attached c" "\<not> deleting c" "chan_version c \<in> {3, 4}"
    and "map_of (rofctls b) j = Some d" "attached d" "\<not> deleting d" "chan_version d \<in> {3, 4}"
    and "msg_version m1 \<in> {3, 4}" "msg_type m1 = 24" "msg_role m1 \<in> {OFPCR_ROLE_NOCHANGE, OFPCR_ROLE_EQUAL}"
    and "msg_version m2 \<in> {3, 4}" "msg_type m2 = 24" "msg_role m2 = OFPCR_ROLE_MASTER"
    and "app Handle_role_request = None" "\<not> stale_request (msg_generation_id m1) b"
    and "role_distance (msg_generation_id m2) (msg_generation_id m1) < 0"
  shows "let b1 = fst (base_handle_recv app True i m1 b)
    in base_handle_recv app True j m2 b1 = (b1, [Send_error (msg_xid m2) (Err 11 0)], False)"
proof -
  let ?g = "msg_generation_id m1"
  let ?b1 = "b\<lparr>rofctls := each_peer (grant i (msg_role m1) ?g) (rofctls b), generation_is_defined := True,
    cached_generation_id := ?g\<rparr>"
  have valid: "is_valid_role (msg_role m1)" "is_valid_role (msg_role m2)"
    using assms(11,14) by (auto simp: is_valid_role_def)
  have b1: "fst (base_handle_recv app True i m1 b) = ?b1"
    using base_role_request [of b i c m1 app, OF assms(1-4,9,10) valid(1) assms(15)] assms(11,16)
    by (auto simp: role_request_rcvd_eq Let_def)
  have peer: "map_of (rofctls ?b1) j = Some (grant i (msg_role m1) ?g j d)"
    by (simp add: each_peer_lookup assms(5))
  have same: "attached (grant i r g j d) = attached d" "deleting (grant i r g j d) = deleting d"
    "chan_version (grant i r g j d) = chan_version d" for r g
    by (simp_all add: grant_def take_role_def)
  have "stale_request (msg_generation_id m2) ?b1"
    using assms(17) by (simp add: stale_request_def)
  then show ?thesis
    unfolding b1 Let_def
    using base_role_request [of ?b1 j _ m2 app, OF peer _ _ _ assms(12,13) valid(2) assms(15)] assms(6,7,8,14)
    by (simp add: same role_request_rcvd_eq)
qed

theorem equal_request_outdates_example:
  "snd (base_handle_recv (\<lambda>_. None) True 1 (role_msg 2 5) (ask_role 0 1 9 two_controllers)) =
     ([Send_error 9 (Err 11 0)], False)"
  using equal_request_outdates [of two_controllers 0 "(crofctl_new 0 0)\<lparr>chan_version := 4, established := True\<rparr>" 1
      "(crofctl_new 1 0)\<lparr>chan_version := 4, established := True\<rparr>" "role_msg 1 9" "role_msg 2 5" "\<lambda>_. None"]
  by (simp add: two_controllers_lookup two_controllers_generation role_msg_def crofctl_new_def role_defs
      stale_request_def role_distance_def ask_role_def Let_def)


section \<open>Messages to all peers\<close>

text \<open>Who is meant: the established peers whose role and configuration let the message pass, with its transaction id.\<close>

definition addressees :: "(crofctl \<Rightarrow> bool) \<Rightarrow> (u64 \<times> crofctl) list \<Rightarrow> (u64 \<times> u32) list" where
  "addressees ignored ctls = [(i, xid_last c + 1). (i, c) \<leftarrow> ctls, established c, \<not> ignored c]"

lemma addressees_simps [simp]:
  "addressees ignored [] = []"
  "addressees ignored ((i, c) # ctls) =
     (if established c \<and> \<not> ignored c then (i, xid_last c + 1) # addressees ignored ctls else addressees ignored ctls)"
  by (simp_all add: addressees_def)

lemma send_all_spec:
  "snd (send_all (\<lambda>c. ctl_send (ignored c) c) refuses ctls s) =
     (takeWhile (\<lambda>(i, xid). \<not> refuses i) (addressees ignored ctls),
      s \<or> list_ex (\<lambda>(i, c). established c)
            (takeWhile (\<lambda>(i, c). \<not> (established c \<and> \<not> ignored c \<and> refuses i)) ctls),
      if list_ex (\<lambda>(i, xid). refuses i) (addressees ignored ctls) then Some ERofConnNotConnected else None)"
proof (induction ctls arbitrary: s)
  case (Cons a ctls)
  obtain i c where "a = (i, c)"
    by fastforce
  then show ?case
    using Cons.IH by (cases "established c"; cases "ignored c"; cases "refuses i") (simp_all add: ctl_send_def case_prod_beta')
qed simp

lemma no_refusal_all:
  "\<not> list_ex (\<lambda>(i, xid). refuses i) (addressees ignored ctls) \<Longrightarrow>
   takeWhile (\<lambda>(i, c). \<not> (established c \<and> \<not> ignored c \<and> refuses i)) ctls = ctls"
  by (induction ctls) (auto split: if_splits)

lemma base_send_spec:
  "snd (base_send (\<lambda>c. ctl_send (ignored c) c) refuses b) =
     (takeWhile (\<lambda>(i, xid). \<not> refuses i) (addressees ignored (rofctls b)),
      if list_ex (\<lambda>(i, xid). refuses i) (addressees ignored (rofctls b)) then Some ERofConnNotConnected
      else if list_ex (\<lambda>(i, c). established c) (rofctls b) then None
      else Some ERofBaseNotConnected)"
proof -
  obtain ctls out s e where r: "send_all (\<lambda>c. ctl_send (ignored c) c) refuses (rofctls b) False = (ctls, out, s, e)"
    using prod_cases4 by blast
  show ?thesis
  proof (cases "list_ex (\<lambda>(i, xid). refuses i) (addressees ignored (rofctls b))")
    case True
    then show ?thesis
      using send_all_spec [of ignored refuses "rofctls b" False] by (simp add: base_send_def r)
  next
    case False
    then show ?thesis
      using send_all_spec [of ignored refuses "rofctls b" False]
      unfolding no_refusal_all [OF False] by (simp add: base_send_def r)
  qed
qed

text \<open>
  C39: who receives an asynchronous message.  Exactly the addressees up to the first whose channel refuses
  the message: that one's exception ends the loop, and the peers behind it receive nothing.  Without a
  refusal the call fails only if no peer is established.
\<close>

theorem broadcast_stops_at_refusal:
  "(send, ignored) \<in> {(base_send_packet_in reason, packet_in_ignored reason),
      (base_send_flow_removed reason, flow_removed_ignored reason), (base_send_port_status reason, port_status_ignored reason)} \<Longrightarrow>
   snd (send refuses b) =
     (takeWhile (\<lambda>(i, xid). \<not> refuses i) (addressees ignored (rofctls b)),
      if list_ex (\<lambda>(i, xid). refuses i) (addressees ignored (rofctls b)) then Some ERofConnNotConnected
      else if list_ex (\<lambda>(i, c). established c) (rofctls b) then None
      else Some ERofBaseNotConnected)"
  using base_send_spec
  by (auto simp: base_send_packet_in_def base_send_flow_removed_def base_send_port_status_def
      ctl_send_packet_in_def [abs_def] ctl_send_flow_removed_def [abs_def] ctl_send_port_status_def [abs_def])

theorem broadcast_stops_at_refusal_witness:
  "snd (base_send_port_status 0 (\<lambda>i. i = 0) two_controllers) = ([], Some ERofConnNotConnected)"
proof -
  have "rofctls two_controllers = [(0, (crofctl_new 0 0)\<lparr>chan_version := 4, established := True\<rparr>),
      (1, (crofctl_new 1 0)\<lparr>chan_version := 4, established := True\<rparr>)]"
    by (simp add: two_controllers_def connect_def add_ctl_id_def base_put_ctl_def crofbase_new_def
        crofctl_new_def ctl_handle_established_def base_upd_def)
  then show ?thesis
    using broadcast_stops_at_refusal [of "base_send_port_status 0" "port_status_ignored 0" 0 "\<lambda>i. i = 0" two_controllers]
    by (simp add: crofctl_new_def port_status_ignored_def role_ignores_def role_defs async_default_def)
qed

section \<open>Identifiers of new peers\<close>

lemma first_free_least:
  assumes "unat i + unat fuel = 2 ^ 64 - 1" "\<forall>j < i. map_of ctls j \<noteq> None" "map_of ctls k = None"
  shows "map_of ctls (first_free fuel ctls i) = None \<and> (\<forall>j < first_free fuel ctls i. map_of ctls j \<noteq> None)"
  using assms
proof (induction fuel ctls i rule: first_free.induct)
  case (1 fuel ctls i)
  show ?case
  proof (cases "fuel = 0 \<or> map_of ctls i = None")
    case True
    have "map_of ctls i = None"
    proof (rule ccontr)
      assume taken: "map_of ctls i \<noteq> None"
      then have "unat i = 2 ^ 64 - 1"
        using True 1(2) by auto
      moreover have "unat k < 2 ^ 64"
        by (rule order_less_le_trans [OF unsigned_less]) simp
      ultimately have "k \<le> i"
        by (simp add: word_le_nat_alt)
      then show False
        using 1(3,4) taken by (auto simp: order_le_less)
    qed
    then show ?thesis
      using 1(3) True by (subst (1 2) first_free.simps) simp
  next
    case False
    have next_i: "unat (i + 1) = Suc (unat i)"
      using False 1(2) unat_gt_0 [of fuel] by (simp add: unat_word_ariths(1))
    have "map_of ctls j \<noteq> None" if "j < i + 1" for j
    proof (cases "j = i")
      case True
      then show ?thesis using False by simp
    next
      case neq: False
      then have "j < i"
        using that next_i by (simp add: word_less_nat_alt less_Suc_eq word_unat_eq_iff)
      then show ?thesis using 1(3) by blast
    qed
    moreover have "unat (i + 1) + unat (fuel - 1) = 2 ^ 64 - 1"
      using False 1(2) next_i unat_gt_0 [of fuel] by (simp add: unat_minus_one)
    moreover have "first_free fuel ctls i = first_free (fuel - 1) ctls (i + 1)"
      using False first_free.simps [of fuel ctls i] by (metis (full_types))
    ultimately show ?thesis
      using 1(1) [OF False] 1(4) by metis
  qed
qed


text \<open>
  A new peer gets the least free identifier.  Unless all of them are taken, \<open>add_ctl\<close> returns an
  identifier no peer has, smaller ones are all in use, the new peer can be found under it in role equal,
  and the other peers stay.
\<close>

theorem add_ctl_least_free:
  assumes "base_reachable b" "map_of (rofctls b) k = None"
  shows "let (b', i) = add_ctl random_xid b
    in map_of (rofctls b) i = None \<and> (\<forall>j < i. map_of (rofctls b) j \<noteq> None) \<and>
       map_of (rofctls b') = (map_of (rofctls b))(i \<mapsto> crofctl_new i random_xid) \<and> base_reachable b'"
proof -
  let ?i = "first_free (- 1) (rofctls b) 0"
  have "map_of (rofctls b) ?i = None \<and> (\<forall>j < ?i. map_of (rofctls b) j \<noteq> None)"
    by (rule first_free_least [OF _ _ assms(2)]) (simp_all add: unsigned_minus_1_eq_mask mask_eq_exp_minus_1)
  moreover have "map_wf (rofctls b)"
    using reachable_base_wf [OF assms(1)] by (simp add: base_wf_def valid_peers_wf)
  moreover have "base_reachable (fst (add_ctl random_xid b))"
    by (rule base_reachable.Step [OF assms(1) Add])
  ultimately show ?thesis
    by (simp add: add_ctl_def base_put_ctl_def Let_def map_of_put)
qed

theorem add_ctl_least_free_example:
  "map_of (rofctls two_controllers) (snd (add_ctl 0 two_controllers)) = None"
  using add_ctl_least_free [OF two_controllers_reachable, of 2 0] by (simp add: two_controllers_lookup Let_def case_prod_beta)

end
