(* ===== verification/Cofaction.thy ===== *)
theory Cofaction
  imports Cofhello Coxmatches_Wire
begin

text \<open>
  Actions (\<open>cofaction.h\<close>, \<open>cofaction.cc\<close>): the base class, its 29 derived classes with their wire
  formats, and what packing and unpacking an action keep.  A buffer is a byte list whose length is
  \<open>buflen\<close>; \<open>pack\<close> returns the buffer with the bytes it writes, \<open>unpack\<close> the object as it is left.
\<close>

section \<open>Bytes of a buffer\<close>

definition bytes_at :: "nat \<Rightarrow> nat \<Rightarrow> byte list \<Rightarrow> byte list" where
  "bytes_at i n buf = take n (drop i buf)"

definition put_at :: "nat \<Rightarrow> byte list \<Rightarrow> byte list \<Rightarrow> byte list" where
  "put_at i bs buf = take i buf @ bs @ drop (i + length bs) buf"

lemma length_put_at [simp]: "i + length bs \<le> length buf \<Longrightarrow> length (put_at i bs buf) = length buf"
  by (simp add: put_at_def)

lemma length_bytes_at [simp]: "i + n \<le> length buf \<Longrightarrow> length (bytes_at i n buf) = n"
  by (simp add: bytes_at_def)

lemma bytes_at_put_same [simp]: "i + length bs \<le> length buf \<Longrightarrow> n = length bs \<Longrightarrow> bytes_at i n (put_at i bs buf) = bs"
  by (simp add: bytes_at_def put_at_def)

lemma bytes_at_put_other [simp]:
  "j + length bs \<le> length buf \<Longrightarrow> i + n \<le> j \<or> j + length bs \<le> i \<Longrightarrow> bytes_at i n (put_at j bs buf) = bytes_at i n buf"
  by (auto simp: bytes_at_def put_at_def drop_take min_def not_le)

section \<open>The set-field element\<close>

text \<open>\<open>cofaction_set_field\<close> has a member for every class of elements and remembers which one is in use.\<close>

datatype oxm_set_field_type =
    OXM_TYPE_UNKNOWN | OXM_TYPE_8 | OXM_TYPE_16 | OXM_TYPE_24 | OXM_TYPE_32 | OXM_TYPE_48 | OXM_TYPE_64 | OXM_TYPE_128 | OXM_TYPE_EXP

record set_field =
  sf_type :: oxm_set_field_type
  sf_oxm :: u32
  sf_oxm_8 :: "u8 oxm"
  sf_oxm_16 :: "u16 oxm"
  sf_oxm_24 :: "u32 oxm"
  sf_oxm_32 :: "u32 oxm"
  sf_oxm_48 :: "u64 oxm"
  sf_oxm_64 :: "u64 oxm"
  sf_oxm_128 :: "byte list oxm"
  sf_oxm_exp :: oxm_exp

definition set_field_new :: set_field where
  "set_field_new =
     \<lparr>sf_type = OXM_TYPE_UNKNOWN, sf_oxm = 0,
      sf_oxm_8 = oxm_new 0xff 0 0, sf_oxm_16 = oxm_new 0xffff 0 0,
      sf_oxm_24 = oxm_new 0xffffff 0 0, sf_oxm_32 = oxm_new 0xffffffff 0 0,
      sf_oxm_48 = oxm_new 0xffffffffffff 0 0, sf_oxm_64 = oxm_new 0xffffffffffffffff 0 0,
      sf_oxm_128 = oxm_new (replicate 16 0xff) 0 (replicate 16 0), sf_oxm_exp = exp_new 0 0\<rparr>"

text \<open>The member of a type, and storing a member.\<close>

fun sf_member :: "oxm_set_field_type \<Rightarrow> set_field \<Rightarrow> coxmatch option" where
  "sf_member OXM_TYPE_UNKNOWN sf = None"
| "sf_member OXM_TYPE_8 sf = Some (Coxmatch_8 (sf_oxm_8 sf))"
| "sf_member OXM_TYPE_16 sf = Some (Coxmatch_16 (sf_oxm_16 sf))"
| "sf_member OXM_TYPE_24 sf = Some (Coxmatch_24 (sf_oxm_24 sf))"
| "sf_member OXM_TYPE_32 sf = Some (Coxmatch_32 (sf_oxm_32 sf))"
| "sf_member OXM_TYPE_48 sf = Some (Coxmatch_48 (sf_oxm_48 sf))"
| "sf_member OXM_TYPE_64 sf = Some (Coxmatch_64 (sf_oxm_64 sf))"
| "sf_member OXM_TYPE_128 sf = Some (Coxmatch_128 (sf_oxm_128 sf))"
| "sf_member OXM_TYPE_EXP sf = Some (Coxmatch_exp (sf_oxm_exp sf))"

fun sf_store :: "oxm_set_field_type \<Rightarrow> coxmatch \<Rightarrow> set_field \<Rightarrow> set_field" where
  "sf_store OXM_TYPE_8 (Coxmatch_8 m) sf = sf\<lparr>sf_type := OXM_TYPE_8, sf_oxm_8 := m\<rparr>"
| "sf_store OXM_TYPE_16 (Coxmatch_16 m) sf = sf\<lparr>sf_type := OXM_TYPE_16, sf_oxm_16 := m\<rparr>"
| "sf_store OXM_TYPE_24 (Coxmatch_24 m) sf = sf\<lparr>sf_type := OXM_TYPE_24, sf_oxm_24 := m\<rparr>"
| "sf_store OXM_TYPE_32 (Coxmatch_32 m) sf = sf\<lparr>sf_type := OXM_TYPE_32, sf_oxm_32 := m\<rparr>"
| "sf_store OXM_TYPE_48 (Coxmatch_48 m) sf = sf\<lparr>sf_type := OXM_TYPE_48, sf_oxm_48 := m\<rparr>"
| "sf_store OXM_TYPE_64 (Coxmatch_64 m) sf = sf\<lparr>sf_type := OXM_TYPE_64, sf_oxm_64 := m\<rparr>"
| "sf_store OXM_TYPE_128 (Coxmatch_128 m) sf = sf\<lparr>sf_type := OXM_TYPE_128, sf_oxm_128 := m\<rparr>"
| "sf_store OXM_TYPE_EXP (Coxmatch_exp m) sf = sf\<lparr>sf_type := OXM_TYPE_EXP, sf_oxm_exp := m\<rparr>"
| "sf_store _ _ sf = sf"

section \<open>Classes of actions\<close>

text \<open>The data members of every class; the class of an object is its constructor.\<close>

datatype action_body =
    Act_output u32 u16
  | Act_set_vlan_vid u16
  | Act_set_vlan_pcp u8
  | Act_strip_vlan
  | Act_set_dl_src "byte list"
  | Act_set_dl_dst "byte list"
  | Act_set_nw_src u32
  | Act_set_nw_dst u32
  | Act_set_nw_tos u8
  | Act_set_tp_src u16
  | Act_set_tp_dst u16
  | Act_enqueue u16 u32
  | Act_vendor u32 "byte list"
  | Act_copy_ttl_out
  | Act_copy_ttl_in
  | Act_set_mpls_ttl u8
  | Act_dec_mpls_ttl
  | Act_push_vlan u16
  | Act_pop_vlan
  | Act_push_mpls u16
  | Act_pop_mpls u16
  | Act_set_queue u32
  | Act_group u32
  | Act_set_nw_ttl u8
  | Act_dec_nw_ttl
  | Act_set_field set_field
  | Act_experimenter u32 "byte list"
  | Act_push_pbb u16
  | Act_pop_pbb

datatype action_class =
    C_output | C_set_vlan_vid | C_set_vlan_pcp | C_strip_vlan | C_set_dl_src | C_set_dl_dst | C_set_nw_src | C_set_nw_dst | C_set_nw_tos
  | C_set_tp_src | C_set_tp_dst | C_enqueue | C_vendor | C_copy_ttl_out | C_copy_ttl_in | C_set_mpls_ttl | C_dec_mpls_ttl
  | C_push_vlan | C_pop_vlan | C_push_mpls | C_pop_mpls | C_set_queue | C_group | C_set_nw_ttl | C_dec_nw_ttl | C_set_field | C_experimenter | C_push_pbb | C_pop_pbb

primrec body_class :: "action_body \<Rightarrow> action_class" where
  "body_class (Act_output port max_len) = C_output"
| "body_class (Act_set_vlan_vid vid) = C_set_vlan_vid"
| "body_class (Act_set_vlan_pcp pcp) = C_set_vlan_pcp"
| "body_class Act_strip_vlan = C_strip_vlan"
| "body_class (Act_set_dl_src mac) = C_set_dl_src"
| "body_class (Act_set_dl_dst mac) = C_set_dl_dst"
| "body_class (Act_set_nw_src addr) = C_set_nw_src"
| "body_class (Act_set_nw_dst addr) = C_set_nw_dst"
| "body_class (Act_set_nw_tos tos) = C_set_nw_tos"
| "body_class (Act_set_tp_src port) = C_set_tp_src"
| "body_class (Act_set_tp_dst port) = C_set_tp_dst"
| "body_class (Act_enqueue port queue) = C_enqueue"
| "body_class (Act_vendor exp_id body) = C_vendor"
| "body_class Act_copy_ttl_out = C_copy_ttl_out"
| "body_class Act_copy_ttl_in = C_copy_ttl_in"
| "body_class (Act_set_mpls_ttl ttl) = C_set_mpls_ttl"
| "body_class Act_dec_mpls_ttl = C_dec_mpls_ttl"
| "body_class (Act_push_vlan ethertype) = C_push_vlan"
| "body_class Act_pop_vlan = C_pop_vlan"
| "body_class (Act_push_mpls ethertype) = C_push_mpls"
| "body_class (Act_pop_mpls ethertype) = C_pop_mpls"
| "body_class (Act_set_queue queue) = C_set_queue"
| "body_class (Act_group g) = C_group"
| "body_class (Act_set_nw_ttl ttl) = C_set_nw_ttl"
| "body_class Act_dec_nw_ttl = C_dec_nw_ttl"
| "body_class (Act_set_field sf) = C_set_field"
| "body_class (Act_experimenter exp_id body) = C_experimenter"
| "body_class (Act_push_pbb ethertype) = C_push_pbb"
| "body_class Act_pop_pbb = C_pop_pbb"

text \<open>\<open>enum ofp_action_type\<close>; OpenFlow 1.0 has codes of its own for two classes.\<close>

primrec class_type :: "action_class \<Rightarrow> u16" where
  "class_type C_output = 0"
| "class_type C_set_vlan_vid = 1"
| "class_type C_set_vlan_pcp = 2"
| "class_type C_strip_vlan = 3"
| "class_type C_set_dl_src = 4"
| "class_type C_set_dl_dst = 5"
| "class_type C_set_nw_src = 6"
| "class_type C_set_nw_dst = 7"
| "class_type C_set_nw_tos = 8"
| "class_type C_set_tp_src = 9"
| "class_type C_set_tp_dst = 10"
| "class_type C_enqueue = 11"
| "class_type C_vendor = 0xffff"
| "class_type C_copy_ttl_out = 11"
| "class_type C_copy_ttl_in = 12"
| "class_type C_set_mpls_ttl = 15"
| "class_type C_dec_mpls_ttl = 16"
| "class_type C_push_vlan = 17"
| "class_type C_pop_vlan = 18"
| "class_type C_push_mpls = 19"
| "class_type C_pop_mpls = 20"
| "class_type C_set_queue = 21"
| "class_type C_group = 22"
| "class_type C_set_nw_ttl = 23"
| "class_type C_dec_nw_ttl = 24"
| "class_type C_set_field = 25"
| "class_type C_experimenter = 0xffff"
| "class_type C_push_pbb = 26"
| "class_type C_pop_pbb = 27"

text \<open>The members as the constructors leave them when only the version is given.\<close>

primrec class_default :: "action_class \<Rightarrow> action_body" where
  "class_default C_output = Act_output 0 128"
| "class_default C_set_vlan_vid = Act_set_vlan_vid 0"
| "class_default C_set_vlan_pcp = Act_set_vlan_pcp 0"
| "class_default C_strip_vlan = Act_strip_vlan"
| "class_default C_set_dl_src = Act_set_dl_src (replicate 6 0)"
| "class_default C_set_dl_dst = Act_set_dl_dst (replicate 6 0)"
| "class_default C_set_nw_src = Act_set_nw_src 0"
| "class_default C_set_nw_dst = Act_set_nw_dst 0"
| "class_default C_set_nw_tos = Act_set_nw_tos 0"
| "class_default C_set_tp_src = Act_set_tp_src 0"
| "class_default C_set_tp_dst = Act_set_tp_dst 0"
| "class_default C_enqueue = Act_enqueue 0 0"
| "class_default C_vendor = Act_vendor 0 []"
| "class_default C_copy_ttl_out = Act_copy_ttl_out"
| "class_default C_copy_ttl_in = Act_copy_ttl_in"
| "class_default C_set_mpls_ttl = Act_set_mpls_ttl 0"
| "class_default C_dec_mpls_ttl = Act_dec_mpls_ttl"
| "class_default C_push_vlan = Act_push_vlan 0"
| "class_default C_pop_vlan = Act_pop_vlan"
| "class_default C_push_mpls = Act_push_mpls 0"
| "class_default C_pop_mpls = Act_pop_mpls 0"
| "class_default C_set_queue = Act_set_queue 0"
| "class_default C_group = Act_group 0"
| "class_default C_set_nw_ttl = Act_set_nw_ttl 0"
| "class_default C_dec_nw_ttl = Act_dec_nw_ttl"
| "class_default C_set_field = Act_set_field set_field_new"
| "class_default C_experimenter = Act_experimenter 0 []"
| "class_default C_push_pbb = Act_push_pbb 0"
| "class_default C_pop_pbb = Act_pop_pbb"

record cofaction =
  act_version :: u8
  act_type :: u16
  act_len :: u16
  act_body :: action_body

definition new_action :: "action_class \<Rightarrow> u8 \<Rightarrow> cofaction" where
  "new_action c v = \<lparr>act_version = v, act_type = class_type c, act_len = 4, act_body = class_default c\<rparr>"

section \<open>The base class\<close>

definition cofaction_length :: "u8 \<Rightarrow> nat result" where
  "cofaction_length v = (if v \<in> {1, 3, 4} then Inr 4 else Inl EBadVersion)"

text \<open>\<open>len\<close> is what the virtual \<open>length()\<close> returns; the derived classes pass the header's size for \<open>buflen\<close>.\<close>

definition cofaction_pack :: "nat \<Rightarrow> cofaction \<Rightarrow> byte list \<Rightarrow> cofaction \<times> byte list result" where
  "cofaction_pack len a buf =
     (let a1 = a\<lparr>act_len := word_of_nat len\<rparr>
      in (a1, rbind (cofaction_length (act_version a1))
                (\<lambda>_. Inr (put_at 2 (be_bytes 2 (act_len a1)) (put_at 0 (be_bytes 2 (act_type a1)) buf)))))"

definition cofaction_unpack :: "byte list \<Rightarrow> cofaction \<Rightarrow> cofaction outcome" where
  "cofaction_unpack buf a =
     (case cofaction_length (act_version a) of
        Inl e \<Rightarrow> (a, Some e)
      | Inr _ \<Rightarrow>
          let a1 = a\<lparr>act_type := be_word (bytes_at 0 2 buf), act_len := be_word (bytes_at 2 2 buf)\<rparr>
          in (a1, if act_len a1 < 4 then Some EBadActionBadLen else None))"

text \<open>
  What \<open>pack\<close> and \<open>unpack\<close> of the derived classes have in common: nothing happens for an empty
  buffer, the buffer has to hold \<open>length()\<close> bytes, the base class is called first.
\<close>

fun put_fields :: "(nat \<times> byte list) list \<Rightarrow> byte list \<Rightarrow> byte list" where
  "put_fields [] buf = buf"
| "put_fields ((i, bs) # fs) buf = put_fields fs (put_at i bs buf)"

definition pack_action ::
  "(u8 \<Rightarrow> nat result) \<Rightarrow> (nat \<times> byte list) list \<Rightarrow> cofaction \<Rightarrow> byte list \<Rightarrow> cofaction \<times> byte list result"
where
  "pack_action len fs a buf =
     (if buf = [] then (a, Inr buf)
      else case len (act_version a) of
        Inl e \<Rightarrow> (a, Inl e)
      | Inr n \<Rightarrow>
          if length buf < n then (a, Inl EInvalid)
          else map_prod id (map_sum id (put_fields fs)) (cofaction_pack n a buf))"

definition unpack_action ::
  "(u8 \<Rightarrow> nat result) \<Rightarrow> (byte list \<Rightarrow> action_body) \<Rightarrow> byte list \<Rightarrow> cofaction \<Rightarrow> cofaction outcome"
where
  "unpack_action len read buf a =
     (if buf = [] then (a, None)
      else case len (act_version a) of
        Inl e \<Rightarrow> (a, Some e)
      | Inr n \<Rightarrow>
          if length buf < n then (a, Some EInvalid)
          else case cofaction_unpack buf a of
            (a1, Some e) \<Rightarrow> (a1, Some e)
          | (a1, None) \<Rightarrow> (a1\<lparr>act_body := read buf\<rparr>, None))"

text \<open>The \<open>switch\<close> on the version.\<close>

definition of10_size :: "nat \<Rightarrow> u8 \<Rightarrow> nat result" where
  "of10_size n v = (if v = 1 then Inr n else Inl EBadVersion)"

definition of12_size :: "nat \<Rightarrow> u8 \<Rightarrow> nat result" where
  "of12_size n v = (if v \<in> {3, 4} then Inr n else Inl EBadVersion)"

section \<open>Output\<close>

definition cofaction_output_check_prerequisites :: "u32 \<Rightarrow> u8 \<Rightarrow> rofl_exn option" where
  "cofaction_output_check_prerequisites port v =
     (if v = 1 \<and> port = 0 \<or> v \<in> {3, 4} \<and> (port = 0xffffffff \<or> port = 0) then Some EBadActionBadOutPort else None)"

definition cofaction_output_length :: "u8 \<Rightarrow> nat result" where
  "cofaction_output_length v = (if v = 1 then Inr 8 else if v \<in> {3, 4} then Inr 16 else Inl EBadVersion)"

definition cofaction_output_pack :: "u32 \<Rightarrow> u16 \<Rightarrow> cofaction \<Rightarrow> byte list \<Rightarrow> cofaction \<times> byte list result" where
  "cofaction_output_pack port max_len a =
     pack_action cofaction_output_length
       (if act_version a = 1 then [(4, be_bytes 2 (ucast port :: u16)), (6, be_bytes 2 max_len)]
        else [(4, be_bytes 4 port), (8, be_bytes 2 max_len)]) a"

definition cofaction_output_unpack :: "byte list \<Rightarrow> cofaction \<Rightarrow> cofaction outcome" where
  "cofaction_output_unpack buf a =
     unpack_action cofaction_output_length
       (\<lambda>buf. if act_version a = 1
              then Act_output (ucast (be_word (bytes_at 4 2 buf) :: u16)) (be_word (bytes_at 6 2 buf))
              else Act_output (be_word (bytes_at 4 4 buf)) (be_word (bytes_at 8 2 buf))) buf a"

section \<open>Classes with members of fixed size\<close>

definition cofaction_set_vlan_vid_length :: "u8 \<Rightarrow> nat result" where
  "cofaction_set_vlan_vid_length = of10_size 8"

definition cofaction_set_vlan_vid_pack :: "u16 \<Rightarrow> cofaction \<Rightarrow> byte list \<Rightarrow> cofaction \<times> byte list result" where
  "cofaction_set_vlan_vid_pack vid = pack_action cofaction_set_vlan_vid_length [(4, be_bytes 2 vid)]"

definition cofaction_set_vlan_vid_unpack :: "byte list \<Rightarrow> cofaction \<Rightarrow> cofaction outcome" where
  "cofaction_set_vlan_vid_unpack = unpack_action cofaction_set_vlan_vid_length (\<lambda>buf. Act_set_vlan_vid (be_word (bytes_at 4 2 buf)))"

definition cofaction_set_vlan_pcp_length :: "u8 \<Rightarrow> nat result" where
  "cofaction_set_vlan_pcp_length = of10_size 8"

definition cofaction_set_vlan_pcp_pack :: "u8 \<Rightarrow> cofaction \<Rightarrow> byte list \<Rightarrow> cofaction \<times> byte list result" where
  "cofaction_set_vlan_pcp_pack pcp = pack_action cofaction_set_vlan_pcp_length [(4, be_bytes 1 pcp)]"

definition cofaction_set_vlan_pcp_unpack :: "byte list \<Rightarrow> cofaction \<Rightarrow> cofaction outcome" where
  "cofaction_set_vlan_pcp_unpack = unpack_action cofaction_set_vlan_pcp_length (\<lambda>buf. Act_set_vlan_pcp (be_word (bytes_at 4 1 buf)))"

definition cofaction_strip_vlan_length :: "u8 \<Rightarrow> nat result" where
  "cofaction_strip_vlan_length = of10_size 8"

definition cofaction_strip_vlan_pack :: "cofaction \<Rightarrow> byte list \<Rightarrow> cofaction \<times> byte list result" where
  "cofaction_strip_vlan_pack = pack_action cofaction_strip_vlan_length []"

definition cofaction_strip_vlan_unpack :: "byte list \<Rightarrow> cofaction \<Rightarrow> cofaction outcome" where
  "cofaction_strip_vlan_unpack = unpack_action cofaction_strip_vlan_length (\<lambda>buf. Act_strip_vlan)"

definition cofaction_set_dl_src_length :: "u8 \<Rightarrow> nat result" where
  "cofaction_set_dl_src_length = of10_size 16"

definition cofaction_set_dl_src_pack :: "byte list \<Rightarrow> cofaction \<Rightarrow> byte list \<Rightarrow> cofaction \<times> byte list result" where
  "cofaction_set_dl_src_pack mac = pack_action cofaction_set_dl_src_length [(4, mac)]"

definition cofaction_set_dl_src_unpack :: "byte list \<Rightarrow> cofaction \<Rightarrow> cofaction outcome" where
  "cofaction_set_dl_src_unpack = unpack_action cofaction_set_dl_src_length (\<lambda>buf. Act_set_dl_src (bytes_at 4 6 buf))"

definition cofaction_set_dl_dst_length :: "u8 \<Rightarrow> nat result" where
  "cofaction_set_dl_dst_length = of10_size 16"

definition cofaction_set_dl_dst_pack :: "byte list \<Rightarrow> cofaction \<Rightarrow> byte list \<Rightarrow> cofaction \<times> byte list result" where
  "cofaction_set_dl_dst_pack mac = pack_action cofaction_set_dl_dst_length [(4, mac)]"

definition cofaction_set_dl_dst_unpack :: "byte list \<Rightarrow> cofaction \<Rightarrow> cofaction outcome" where
  "cofaction_set_dl_dst_unpack = unpack_action cofaction_set_dl_dst_length (\<lambda>buf. Act_set_dl_dst (bytes_at 4 6 buf))"

definition cofaction_set_nw_src_length :: "u8 \<Rightarrow> nat result" where
  "cofaction_set_nw_src_length = of10_size 8"

definition cofaction_set_nw_src_pack :: "u32 \<Rightarrow> cofaction \<Rightarrow> byte list \<Rightarrow> cofaction \<times> byte list result" where
  "cofaction_set_nw_src_pack addr = pack_action cofaction_set_nw_src_length [(4, be_bytes 4 addr)]"

definition cofaction_set_nw_src_unpack :: "byte list \<Rightarrow> cofaction \<Rightarrow> cofaction outcome" where
  "cofaction_set_nw_src_unpack = unpack_action cofaction_set_nw_src_length (\<lambda>buf. Act_set_nw_src (be_word (bytes_at 4 4 buf)))"

definition cofaction_set_nw_dst_length :: "u8 \<Rightarrow> nat result" where
  "cofaction_set_nw_dst_length = of10_size 8"

definition cofaction_set_nw_dst_pack :: "u32 \<Rightarrow> cofaction \<Rightarrow> byte list \<Rightarrow> cofaction \<times> byte list result" where
  "cofaction_set_nw_dst_pack addr = pack_action cofaction_set_nw_dst_length [(4, be_bytes 4 addr)]"

definition cofaction_set_nw_dst_unpack :: "byte list \<Rightarrow> cofaction \<Rightarrow> cofaction outcome" where
  "cofaction_set_nw_dst_unpack = unpack_action cofaction_set_nw_dst_length (\<lambda>buf. Act_set_nw_dst (be_word (bytes_at 4 4 buf)))"

definition cofaction_set_nw_tos_length :: "u8 \<Rightarrow> nat result" where
  "cofaction_set_nw_tos_length = of10_size 8"

definition cofaction_set_nw_tos_pack :: "u8 \<Rightarrow> cofaction \<Rightarrow> byte list \<Rightarrow> cofaction \<times> byte list result" where
  "cofaction_set_nw_tos_pack tos = pack_action cofaction_set_nw_tos_length [(4, be_bytes 1 tos)]"

definition cofaction_set_nw_tos_unpack :: "byte list \<Rightarrow> cofaction \<Rightarrow> cofaction outcome" where
  "cofaction_set_nw_tos_unpack = unpack_action cofaction_set_nw_tos_length (\<lambda>buf. Act_set_nw_tos (be_word (bytes_at 4 1 buf)))"

definition cofaction_set_tp_src_length :: "u8 \<Rightarrow> nat result" where
  "cofaction_set_tp_src_length = of10_size 8"

definition cofaction_set_tp_src_pack :: "u16 \<Rightarrow> cofaction \<Rightarrow> byte list \<Rightarrow> cofaction \<times> byte list result" where
  "cofaction_set_tp_src_pack port = pack_action cofaction_set_tp_src_length [(4, be_bytes 2 port)]"

definition cofaction_set_tp_src_unpack :: "byte list \<Rightarrow> cofaction \<Rightarrow> cofaction outcome" where
  "cofaction_set_tp_src_unpack = unpack_action cofaction_set_tp_src_length (\<lambda>buf. Act_set_tp_src (be_word (bytes_at 4 2 buf)))"

definition cofaction_set_tp_dst_length :: "u8 \<Rightarrow> nat result" where
  "cofaction_set_tp_dst_length = of10_size 8"

definition cofaction_set_tp_dst_pack :: "u16 \<Rightarrow> cofaction \<Rightarrow> byte list \<Rightarrow> cofaction \<times> byte list result" where
  "cofaction_set_tp_dst_pack port = pack_action cofaction_set_tp_dst_length [(4, be_bytes 2 port)]"

definition cofaction_set_tp_dst_unpack :: "byte list \<Rightarrow> cofaction \<Rightarrow> cofaction outcome" where
  "cofaction_set_tp_dst_unpack = unpack_action cofaction_set_tp_dst_length (\<lambda>buf. Act_set_tp_dst (be_word (bytes_at 4 2 buf)))"

definition cofaction_enqueue_length :: "u8 \<Rightarrow> nat result" where
  "cofaction_enqueue_length = of10_size 16"

definition cofaction_enqueue_pack :: "u16 \<Rightarrow> u32 \<Rightarrow> cofaction \<Rightarrow> byte list \<Rightarrow> cofaction \<times> byte list result" where
  "cofaction_enqueue_pack port queue = pack_action cofaction_enqueue_length [(4, be_bytes 2 port), (12, be_bytes 4 queue)]"

definition cofaction_enqueue_unpack :: "byte list \<Rightarrow> cofaction \<Rightarrow> cofaction outcome" where
  "cofaction_enqueue_unpack = unpack_action cofaction_enqueue_length (\<lambda>buf. Act_enqueue (be_word (bytes_at 4 2 buf)) (be_word (bytes_at 12 4 buf)))"

definition cofaction_copy_ttl_out_length :: "u8 \<Rightarrow> nat result" where
  "cofaction_copy_ttl_out_length = of12_size 8"

definition cofaction_copy_ttl_out_pack :: "cofaction \<Rightarrow> byte list \<Rightarrow> cofaction \<times> byte list result" where
  "cofaction_copy_ttl_out_pack = pack_action cofaction_copy_ttl_out_length []"

definition cofaction_copy_ttl_out_unpack :: "byte list \<Rightarrow> cofaction \<Rightarrow> cofaction outcome" where
  "cofaction_copy_ttl_out_unpack = unpack_action cofaction_copy_ttl_out_length (\<lambda>buf. Act_copy_ttl_out)"

definition cofaction_copy_ttl_in_length :: "u8 \<Rightarrow> nat result" where
  "cofaction_copy_ttl_in_length = of12_size 8"

definition cofaction_copy_ttl_in_pack :: "cofaction \<Rightarrow> byte list \<Rightarrow> cofaction \<times> byte list result" where
  "cofaction_copy_ttl_in_pack = pack_action cofaction_copy_ttl_in_length []"

definition cofaction_copy_ttl_in_unpack :: "byte list \<Rightarrow> cofaction \<Rightarrow> cofaction outcome" where
  "cofaction_copy_ttl_in_unpack = unpack_action cofaction_copy_ttl_in_length (\<lambda>buf. Act_copy_ttl_in)"

definition cofaction_set_mpls_ttl_length :: "u8 \<Rightarrow> nat result" where
  "cofaction_set_mpls_ttl_length = of12_size 8"

definition cofaction_set_mpls_ttl_pack :: "u8 \<Rightarrow> cofaction \<Rightarrow> byte list \<Rightarrow> cofaction \<times> byte list result" where
  "cofaction_set_mpls_ttl_pack ttl = pack_action cofaction_set_mpls_ttl_length [(4, be_bytes 1 ttl)]"

definition cofaction_set_mpls_ttl_unpack :: "byte list \<Rightarrow> cofaction \<Rightarrow> cofaction outcome" where
  "cofaction_set_mpls_ttl_unpack = unpack_action cofaction_set_mpls_ttl_length (\<lambda>buf. Act_set_mpls_ttl (be_word (bytes_at 4 1 buf)))"

definition cofaction_dec_mpls_ttl_length :: "u8 \<Rightarrow> nat result" where
  "cofaction_dec_mpls_ttl_length = of12_size 8"

definition cofaction_dec_mpls_ttl_pack :: "cofaction \<Rightarrow> byte list \<Rightarrow> cofaction \<times> byte list result" where
  "cofaction_dec_mpls_ttl_pack = pack_action cofaction_dec_mpls_ttl_length []"

definition cofaction_dec_mpls_ttl_unpack :: "byte list \<Rightarrow> cofaction \<Rightarrow> cofaction outcome" where
  "cofaction_dec_mpls_ttl_unpack = unpack_action cofaction_dec_mpls_ttl_length (\<lambda>buf. Act_dec_mpls_ttl)"

definition cofaction_push_vlan_length :: "u8 \<Rightarrow> nat result" where
  "cofaction_push_vlan_length = of12_size 8"

definition cofaction_push_vlan_pack :: "u16 \<Rightarrow> cofaction \<Rightarrow> byte list \<Rightarrow> cofaction \<times> byte list result" where
  "cofaction_push_vlan_pack ethertype = pack_action cofaction_push_vlan_length [(4, be_bytes 2 ethertype)]"

definition cofaction_push_vlan_unpack :: "byte list \<Rightarrow> cofaction \<Rightarrow> cofaction outcome" where
  "cofaction_push_vlan_unpack = unpack_action cofaction_push_vlan_length (\<lambda>buf. Act_push_vlan (be_word (bytes_at 4 2 buf)))"

definition cofaction_pop_vlan_length :: "u8 \<Rightarrow> nat result" where
  "cofaction_pop_vlan_length = of12_size 8"

definition cofaction_pop_vlan_pack :: "cofaction \<Rightarrow> byte list \<Rightarrow> cofaction \<times> byte list result" where
  "cofaction_pop_vlan_pack = pack_action cofaction_pop_vlan_length []"

definition cofaction_pop_vlan_unpack :: "byte list \<Rightarrow> cofaction \<Rightarrow> cofaction outcome" where
  "cofaction_pop_vlan_unpack = unpack_action cofaction_pop_vlan_length (\<lambda>buf. Act_pop_vlan)"

definition cofaction_push_mpls_length :: "u8 \<Rightarrow> nat result" where
  "cofaction_push_mpls_length = of12_size 8"

definition cofaction_push_mpls_pack :: "u16 \<Rightarrow> cofaction \<Rightarrow> byte list \<Rightarrow> cofaction \<times> byte list result" where
  "cofaction_push_mpls_pack ethertype = pack_action cofaction_push_mpls_length [(4, be_bytes 2 ethertype)]"

definition cofaction_push_mpls_unpack :: "byte list \<Rightarrow> cofaction \<Rightarrow> cofaction outcome" where
  "cofaction_push_mpls_unpack = unpack_action cofaction_push_mpls_length (\<lambda>buf. Act_push_mpls (be_word (bytes_at 4 2 buf)))"

definition cofaction_pop_mpls_length :: "u8 \<Rightarrow> nat result" where
  "cofaction_pop_mpls_length = of12_size 8"

definition cofaction_pop_mpls_pack :: "u16 \<Rightarrow> cofaction \<Rightarrow> byte list \<Rightarrow> cofaction \<times> byte list result" where
  "cofaction_pop_mpls_pack ethertype = pack_action cofaction_pop_mpls_length [(4, be_bytes 2 ethertype)]"

definition cofaction_pop_mpls_unpack :: "byte list \<Rightarrow> cofaction \<Rightarrow> cofaction outcome" where
  "cofaction_pop_mpls_unpack = unpack_action cofaction_pop_mpls_length (\<lambda>buf. Act_pop_mpls (be_word (bytes_at 4 2 buf)))"

definition cofaction_set_queue_length :: "u8 \<Rightarrow> nat result" where
  "cofaction_set_queue_length = of12_size 8"

definition cofaction_set_queue_pack :: "u32 \<Rightarrow> cofaction \<Rightarrow> byte list \<Rightarrow> cofaction \<times> byte list result" where
  "cofaction_set_queue_pack queue = pack_action cofaction_set_queue_length [(4, be_bytes 4 queue)]"

definition cofaction_set_queue_unpack :: "byte list \<Rightarrow> cofaction \<Rightarrow> cofaction outcome" where
  "cofaction_set_queue_unpack = unpack_action cofaction_set_queue_length (\<lambda>buf. Act_set_queue (be_word (bytes_at 4 4 buf)))"

definition cofaction_group_length :: "u8 \<Rightarrow> nat result" where
  "cofaction_group_length = of12_size 8"

definition cofaction_group_pack :: "u32 \<Rightarrow> cofaction \<Rightarrow> byte list \<Rightarrow> cofaction \<times> byte list result" where
  "cofaction_group_pack g = pack_action cofaction_group_length [(4, be_bytes 4 g)]"

definition cofaction_group_unpack :: "byte list \<Rightarrow> cofaction \<Rightarrow> cofaction outcome" where
  "cofaction_group_unpack = unpack_action cofaction_group_length (\<lambda>buf. Act_group (be_word (bytes_at 4 4 buf)))"

definition cofaction_set_nw_ttl_length :: "u8 \<Rightarrow> nat result" where
  "cofaction_set_nw_ttl_length = of12_size 8"

definition cofaction_set_nw_ttl_pack :: "u8 \<Rightarrow> cofaction \<Rightarrow> byte list \<Rightarrow> cofaction \<times> byte list result" where
  "cofaction_set_nw_ttl_pack ttl = pack_action cofaction_set_nw_ttl_length [(4, be_bytes 1 ttl)]"

definition cofaction_set_nw_ttl_unpack :: "byte list \<Rightarrow> cofaction \<Rightarrow> cofaction outcome" where
  "cofaction_set_nw_ttl_unpack = unpack_action cofaction_set_nw_ttl_length (\<lambda>buf. Act_set_nw_ttl (be_word (bytes_at 4 1 buf)))"

definition cofaction_dec_nw_ttl_length :: "u8 \<Rightarrow> nat result" where
  "cofaction_dec_nw_ttl_length = of12_size 8"

definition cofaction_dec_nw_ttl_pack :: "cofaction \<Rightarrow> byte list \<Rightarrow> cofaction \<times> byte list result" where
  "cofaction_dec_nw_ttl_pack = pack_action cofaction_dec_nw_ttl_length []"

definition cofaction_dec_nw_ttl_unpack :: "byte list \<Rightarrow> cofaction \<Rightarrow> cofaction outcome" where
  "cofaction_dec_nw_ttl_unpack = unpack_action cofaction_dec_nw_ttl_length (\<lambda>buf. Act_dec_nw_ttl)"

definition cofaction_push_pbb_length :: "u8 \<Rightarrow> nat result" where
  "cofaction_push_pbb_length = of12_size 8"

definition cofaction_push_pbb_pack :: "u16 \<Rightarrow> cofaction \<Rightarrow> byte list \<Rightarrow> cofaction \<times> byte list result" where
  "cofaction_push_pbb_pack ethertype = pack_action cofaction_push_pbb_length [(4, be_bytes 2 ethertype)]"

definition cofaction_push_pbb_unpack :: "byte list \<Rightarrow> cofaction \<Rightarrow> cofaction outcome" where
  "cofaction_push_pbb_unpack = unpack_action cofaction_push_pbb_length (\<lambda>buf. Act_push_pbb (be_word (bytes_at 4 2 buf)))"

definition cofaction_pop_pbb_length :: "u8 \<Rightarrow> nat result" where
  "cofaction_pop_pbb_length = of12_size 8"

definition cofaction_pop_pbb_pack :: "cofaction \<Rightarrow> byte list \<Rightarrow> cofaction \<times> byte list result" where
  "cofaction_pop_pbb_pack = pack_action cofaction_pop_pbb_length []"

definition cofaction_pop_pbb_unpack :: "byte list \<Rightarrow> cofaction \<Rightarrow> cofaction outcome" where
  "cofaction_pop_pbb_unpack = unpack_action cofaction_pop_pbb_length (\<lambda>buf. Act_pop_pbb)"

section \<open>Vendor and experimenter\<close>

definition cofaction_vendor_length :: "byte list \<Rightarrow> u8 \<Rightarrow> nat result" where
  "cofaction_vendor_length body = of10_size (pad8 (8 + length body))"

definition cofaction_vendor_pack :: "u32 \<Rightarrow> byte list \<Rightarrow> cofaction \<Rightarrow> byte list \<Rightarrow> cofaction \<times> byte list result" where
  "cofaction_vendor_pack exp_id body = pack_action (cofaction_vendor_length body) [(4, be_bytes 4 exp_id), (8, body)]"

text \<open>The length field says how much is copied: nothing relates it to the length of the buffer.\<close>

definition cofaction_vendor_unpack :: "u32 \<Rightarrow> byte list \<Rightarrow> cofaction \<Rightarrow> cofaction outcome" where
  "cofaction_vendor_unpack exp_id buf a =
     (if buf = [] then (a, None)
      else case unpack_action (cofaction_vendor_length []) (\<lambda>buf. Act_vendor (be_word (bytes_at 4 4 buf)) [])
                  buf (a\<lparr>act_body := Act_vendor exp_id []\<rparr>) of
        (a1, Some e) \<Rightarrow> (a1, Some e)
      | (a1, None) \<Rightarrow>
          if unat (act_len a1) \<le> 8 then (a1, None)
          else if length buf < unat (act_len a1) then (a1, Some EOutOfBoundsRead)
          else (a1\<lparr>act_body := Act_vendor (be_word (bytes_at 4 4 buf)) (bytes_at 8 (unat (act_len a1) - 8) buf)\<rparr>, None))"

definition cofaction_experimenter_length :: "byte list \<Rightarrow> u8 \<Rightarrow> nat result" where
  "cofaction_experimenter_length body = of12_size (pad8 (8 + length body))"

definition cofaction_experimenter_pack :: "u32 \<Rightarrow> byte list \<Rightarrow> cofaction \<Rightarrow> byte list \<Rightarrow> cofaction \<times> byte list result" where
  "cofaction_experimenter_pack exp_id body =
     pack_action (cofaction_experimenter_length body) [(4, be_bytes 4 exp_id), (8, body)]"

definition cofaction_experimenter_unpack :: "u32 \<Rightarrow> byte list \<Rightarrow> cofaction \<Rightarrow> cofaction outcome" where
  "cofaction_experimenter_unpack exp_id buf a =
     (if buf = [] then (a, None)
      else case unpack_action (cofaction_experimenter_length []) (\<lambda>buf. Act_experimenter (be_word (bytes_at 4 4 buf)) [])
                  buf (a\<lparr>act_body := Act_experimenter exp_id []\<rparr>) of
        (a1, Some e) \<Rightarrow> (a1, Some e)
      | (a1, None) \<Rightarrow>
          if length buf < unat (act_len a1) then (a1, Some EBadActionBadLen)
          else if unat (act_len a1) \<le> 8 then (a1, None)
          else (a1\<lparr>act_body := Act_experimenter (be_word (bytes_at 4 4 buf)) (bytes_at 8 (unat (act_len a1) - 8) buf)\<rparr>, None))"

section \<open>Set field\<close>

definition cofaction_set_field_length :: "set_field \<Rightarrow> u8 \<Rightarrow> nat result" where
  "cofaction_set_field_length sf v =
     rbind (of12_size 4 v)
       (\<lambda>n. case sf_member (sf_type sf) sf of
               None \<Rightarrow> Inr (pad8 n)
             | Some m \<Rightarrow> rbind (coxmatch_length m) (\<lambda>l. Inr (pad8 (n + l))))"

definition cofaction_set_field_pack :: "set_field \<Rightarrow> cofaction \<Rightarrow> byte list \<Rightarrow> cofaction \<times> byte list result" where
  "cofaction_set_field_pack sf a buf =
     (case pack_action (cofaction_set_field_length sf) [] a buf of
        (a1, Inl e) \<Rightarrow> (a1, Inl e)
      | (a1, Inr out) \<Rightarrow>
          if buf = [] then (a1, Inr out)
          else (case sf_member (sf_type sf) sf of
              None \<Rightarrow> (a1, Inr (put_at 4 (be_bytes 4 (sf_oxm sf)) out))
            | Some m \<Rightarrow>
                (case coxmatch_length m of
                   Inl e \<Rightarrow> (a1, Inl e)
                 | Inr l \<Rightarrow>
                     (case coxmatch_pack l m of
                        (m', Inl e) \<Rightarrow> (a1\<lparr>act_body := Act_set_field (sf_store (sf_type sf) m' sf)\<rparr>, Inl e)
                      | (m', Inr bytes) \<Rightarrow>
                          (a1\<lparr>act_body := Act_set_field (sf_store (sf_type sf) m' sf)\<rparr>, Inr (put_at 4 bytes out))))))"

text \<open>The two \<open>switch\<close> statements on the class and the length of the element.\<close>

definition set_field_masked :: "(nat \<times> oxm_set_field_type) list" where
  "set_field_masked =
     [(0, OXM_TYPE_UNKNOWN), (2, OXM_TYPE_8), (4, OXM_TYPE_16), (6, OXM_TYPE_24), (8, OXM_TYPE_32),
      (12, OXM_TYPE_48), (16, OXM_TYPE_64), (32, OXM_TYPE_128)]"

definition set_field_unmasked :: "(nat \<times> oxm_set_field_type) list" where
  "set_field_unmasked =
     [(0, OXM_TYPE_UNKNOWN), (1, OXM_TYPE_8), (2, OXM_TYPE_16), (3, OXM_TYPE_24), (4, OXM_TYPE_32),
      (6, OXM_TYPE_48), (8, OXM_TYPE_64), (16, OXM_TYPE_128)]"

definition select_oxm_type :: "u32 \<Rightarrow> oxm_set_field_type option" where
  "select_oxm_type i =
     (if get_oxm_class i \<in> {0x8000, 0x8001}
      then map_of (if get_oxm_hasmask i then set_field_masked else set_field_unmasked) (unat (get_oxm_length i))
      else if get_oxm_class i = 0xffff then Some OXM_TYPE_EXP
      else None)"

definition cofaction_set_field_unpack :: "set_field \<Rightarrow> byte list \<Rightarrow> cofaction \<Rightarrow> cofaction outcome" where
  "cofaction_set_field_unpack sf buf a =
     (if buf = [] then (a, None)
      else case unpack_action (cofaction_set_field_length sf) (\<lambda>_. act_body a) buf a of
        (a1, Some e) \<Rightarrow> (a1, Some e)
      | (a1, None) \<Rightarrow>
          if length buf < unat (act_len a1) then (a1, Some EBadActionBadLen)
          else (let i = be_word (bytes_at 4 4 buf) :: u32; oxm_len = 4 + unat (get_oxm_length i)
                in if unat (act_len a1) - 4 < oxm_len then (a1, Some EBadActionBadLen)
                   else case select_oxm_type i of
                     None \<Rightarrow> (a1, None)
                   | Some t \<Rightarrow>
                       (case sf_member t sf of
                          None \<Rightarrow> (a1\<lparr>act_body := Act_set_field (sf\<lparr>sf_type := t, sf_oxm := i\<rparr>)\<rparr>, None)
                        | Some m \<Rightarrow>
                            (case coxmatch_unpack (bytes_at 4 oxm_len buf) m of
                               (m', e) \<Rightarrow> (a1\<lparr>act_body := Act_set_field (sf_store t m' sf)\<rparr>, e)))))"

section \<open>The virtual methods\<close>

definition action_length :: "cofaction \<Rightarrow> nat result" where
  "action_length a =
     (case act_body a of
        Act_output port max_len \<Rightarrow> cofaction_output_length (act_version a)
      | Act_set_vlan_vid vid \<Rightarrow> cofaction_set_vlan_vid_length (act_version a)
      | Act_set_vlan_pcp pcp \<Rightarrow> cofaction_set_vlan_pcp_length (act_version a)
      | Act_strip_vlan \<Rightarrow> cofaction_strip_vlan_length (act_version a)
      | Act_set_dl_src mac \<Rightarrow> cofaction_set_dl_src_length (act_version a)
      | Act_set_dl_dst mac \<Rightarrow> cofaction_set_dl_dst_length (act_version a)
      | Act_set_nw_src addr \<Rightarrow> cofaction_set_nw_src_length (act_version a)
      | Act_set_nw_dst addr \<Rightarrow> cofaction_set_nw_dst_length (act_version a)
      | Act_set_nw_tos tos \<Rightarrow> cofaction_set_nw_tos_length (act_version a)
      | Act_set_tp_src port \<Rightarrow> cofaction_set_tp_src_length (act_version a)
      | Act_set_tp_dst port \<Rightarrow> cofaction_set_tp_dst_length (act_version a)
      | Act_enqueue port queue \<Rightarrow> cofaction_enqueue_length (act_version a)
      | Act_vendor exp_id body \<Rightarrow> cofaction_vendor_length body (act_version a)
      | Act_copy_ttl_out \<Rightarrow> cofaction_copy_ttl_out_length (act_version a)
      | Act_copy_ttl_in \<Rightarrow> cofaction_copy_ttl_in_length (act_version a)
      | Act_set_mpls_ttl ttl \<Rightarrow> cofaction_set_mpls_ttl_length (act_version a)
      | Act_dec_mpls_ttl \<Rightarrow> cofaction_dec_mpls_ttl_length (act_version a)
      | Act_push_vlan ethertype \<Rightarrow> cofaction_push_vlan_length (act_version a)
      | Act_pop_vlan \<Rightarrow> cofaction_pop_vlan_length (act_version a)
      | Act_push_mpls ethertype \<Rightarrow> cofaction_push_mpls_length (act_version a)
      | Act_pop_mpls ethertype \<Rightarrow> cofaction_pop_mpls_length (act_version a)
      | Act_set_queue queue \<Rightarrow> cofaction_set_queue_length (act_version a)
      | Act_group g \<Rightarrow> cofaction_group_length (act_version a)
      | Act_set_nw_ttl ttl \<Rightarrow> cofaction_set_nw_ttl_length (act_version a)
      | Act_dec_nw_ttl \<Rightarrow> cofaction_dec_nw_ttl_length (act_version a)
      | Act_set_field sf \<Rightarrow> cofaction_set_field_length sf (act_version a)
      | Act_experimenter exp_id body \<Rightarrow> cofaction_experimenter_length body (act_version a)
      | Act_push_pbb ethertype \<Rightarrow> cofaction_push_pbb_length (act_version a)
      | Act_pop_pbb \<Rightarrow> cofaction_pop_pbb_length (act_version a))"

definition action_pack :: "cofaction \<Rightarrow> byte list \<Rightarrow> cofaction \<times> byte list result" where
  "action_pack a buf =
     (case act_body a of
        Act_output port max_len \<Rightarrow> cofaction_output_pack port max_len a buf
      | Act_set_vlan_vid vid \<Rightarrow> cofaction_set_vlan_vid_pack vid a buf
      | Act_set_vlan_pcp pcp \<Rightarrow> cofaction_set_vlan_pcp_pack pcp a buf
      | Act_strip_vlan \<Rightarrow> cofaction_strip_vlan_pack a buf
      | Act_set_dl_src mac \<Rightarrow> cofaction_set_dl_src_pack mac a buf
      | Act_set_dl_dst mac \<Rightarrow> cofaction_set_dl_dst_pack mac a buf
      | Act_set_nw_src addr \<Rightarrow> cofaction_set_nw_src_pack addr a buf
      | Act_set_nw_dst addr \<Rightarrow> cofaction_set_nw_dst_pack addr a buf
      | Act_set_nw_tos tos \<Rightarrow> cofaction_set_nw_tos_pack tos a buf
      | Act_set_tp_src port \<Rightarrow> cofaction_set_tp_src_pack port a buf
      | Act_set_tp_dst port \<Rightarrow> cofaction_set_tp_dst_pack port a buf
      | Act_enqueue port queue \<Rightarrow> cofaction_enqueue_pack port queue a buf
      | Act_vendor exp_id body \<Rightarrow> cofaction_vendor_pack exp_id body a buf
      | Act_copy_ttl_out \<Rightarrow> cofaction_copy_ttl_out_pack a buf
      | Act_copy_ttl_in \<Rightarrow> cofaction_copy_ttl_in_pack a buf
      | Act_set_mpls_ttl ttl \<Rightarrow> cofaction_set_mpls_ttl_pack ttl a buf
      | Act_dec_mpls_ttl \<Rightarrow> cofaction_dec_mpls_ttl_pack a buf
      | Act_push_vlan ethertype \<Rightarrow> cofaction_push_vlan_pack ethertype a buf
      | Act_pop_vlan \<Rightarrow> cofaction_pop_vlan_pack a buf
      | Act_push_mpls ethertype \<Rightarrow> cofaction_push_mpls_pack ethertype a buf
      | Act_pop_mpls ethertype \<Rightarrow> cofaction_pop_mpls_pack ethertype a buf
      | Act_set_queue queue \<Rightarrow> cofaction_set_queue_pack queue a buf
      | Act_group g \<Rightarrow> cofaction_group_pack g a buf
      | Act_set_nw_ttl ttl \<Rightarrow> cofaction_set_nw_ttl_pack ttl a buf
      | Act_dec_nw_ttl \<Rightarrow> cofaction_dec_nw_ttl_pack a buf
      | Act_set_field sf \<Rightarrow> cofaction_set_field_pack sf a buf
      | Act_experimenter exp_id body \<Rightarrow> cofaction_experimenter_pack exp_id body a buf
      | Act_push_pbb ethertype \<Rightarrow> cofaction_push_pbb_pack ethertype a buf
      | Act_pop_pbb \<Rightarrow> cofaction_pop_pbb_pack a buf)"

definition action_unpack :: "byte list \<Rightarrow> cofaction \<Rightarrow> cofaction outcome" where
  "action_unpack buf a =
     (case act_body a of
        Act_output port max_len \<Rightarrow> cofaction_output_unpack buf a
      | Act_set_vlan_vid vid \<Rightarrow> cofaction_set_vlan_vid_unpack buf a
      | Act_set_vlan_pcp pcp \<Rightarrow> cofaction_set_vlan_pcp_unpack buf a
      | Act_strip_vlan \<Rightarrow> cofaction_strip_vlan_unpack buf a
      | Act_set_dl_src mac \<Rightarrow> cofaction_set_dl_src_unpack buf a
      | Act_set_dl_dst mac \<Rightarrow> cofaction_set_dl_dst_unpack buf a
      | Act_set_nw_src addr \<Rightarrow> cofaction_set_nw_src_unpack buf a
      | Act_set_nw_dst addr \<Rightarrow> cofaction_set_nw_dst_unpack buf a
      | Act_set_nw_tos tos \<Rightarrow> cofaction_set_nw_tos_unpack buf a
      | Act_set_tp_src port \<Rightarrow> cofaction_set_tp_src_unpack buf a
      | Act_set_tp_dst port \<Rightarrow> cofaction_set_tp_dst_unpack buf a
      | Act_enqueue port queue \<Rightarrow> cofaction_enqueue_unpack buf a
      | Act_vendor exp_id body \<Rightarrow> cofaction_vendor_unpack exp_id buf a
      | Act_copy_ttl_out \<Rightarrow> cofaction_copy_ttl_out_unpack buf a
      | Act_copy_ttl_in \<Rightarrow> cofaction_copy_ttl_in_unpack buf a
      | Act_set_mpls_ttl ttl \<Rightarrow> cofaction_set_mpls_ttl_unpack buf a
      | Act_dec_mpls_ttl \<Rightarrow> cofaction_dec_mpls_ttl_unpack buf a
      | Act_push_vlan ethertype \<Rightarrow> cofaction_push_vlan_unpack buf a
      | Act_pop_vlan \<Rightarrow> cofaction_pop_vlan_unpack buf a
      | Act_push_mpls ethertype \<Rightarrow> cofaction_push_mpls_unpack buf a
      | Act_pop_mpls ethertype \<Rightarrow> cofaction_pop_mpls_unpack buf a
      | Act_set_queue queue \<Rightarrow> cofaction_set_queue_unpack buf a
      | Act_group g \<Rightarrow> cofaction_group_unpack buf a
      | Act_set_nw_ttl ttl \<Rightarrow> cofaction_set_nw_ttl_unpack buf a
      | Act_dec_nw_ttl \<Rightarrow> cofaction_dec_nw_ttl_unpack buf a
      | Act_set_field sf \<Rightarrow> cofaction_set_field_unpack sf buf a
      | Act_experimenter exp_id body \<Rightarrow> cofaction_experimenter_unpack exp_id buf a
      | Act_push_pbb ethertype \<Rightarrow> cofaction_push_pbb_unpack buf a
      | Act_pop_pbb \<Rightarrow> cofaction_pop_pbb_unpack buf a)"

text \<open>Only output actions look at their members.\<close>

definition action_check_prerequisites :: "cofaction \<Rightarrow> rofl_exn option" where
  "action_check_prerequisites a =
     (case act_body a of
        Act_output port max_len \<Rightarrow> cofaction_output_check_prerequisites port (act_version a)
      | _ \<Rightarrow> None)"

lemmas fixed_action_defs =
  cofaction_output_length_def cofaction_output_pack_def cofaction_output_unpack_def
  cofaction_set_vlan_vid_length_def cofaction_set_vlan_vid_pack_def cofaction_set_vlan_vid_unpack_def
  cofaction_set_vlan_pcp_length_def cofaction_set_vlan_pcp_pack_def cofaction_set_vlan_pcp_unpack_def
  cofaction_strip_vlan_length_def cofaction_strip_vlan_pack_def cofaction_strip_vlan_unpack_def
  cofaction_set_dl_src_length_def cofaction_set_dl_src_pack_def cofaction_set_dl_src_unpack_def
  cofaction_set_dl_dst_length_def cofaction_set_dl_dst_pack_def cofaction_set_dl_dst_unpack_def
  cofaction_set_nw_src_length_def cofaction_set_nw_src_pack_def cofaction_set_nw_src_unpack_def
  cofaction_set_nw_dst_length_def cofaction_set_nw_dst_pack_def cofaction_set_nw_dst_unpack_def
  cofaction_set_nw_tos_length_def cofaction_set_nw_tos_pack_def cofaction_set_nw_tos_unpack_def
  cofaction_set_tp_src_length_def cofaction_set_tp_src_pack_def cofaction_set_tp_src_unpack_def
  cofaction_set_tp_dst_length_def cofaction_set_tp_dst_pack_def cofaction_set_tp_dst_unpack_def
  cofaction_enqueue_length_def cofaction_enqueue_pack_def cofaction_enqueue_unpack_def
  cofaction_copy_ttl_out_length_def cofaction_copy_ttl_out_pack_def cofaction_copy_ttl_out_unpack_def
  cofaction_copy_ttl_in_length_def cofaction_copy_ttl_in_pack_def cofaction_copy_ttl_in_unpack_def
  cofaction_set_mpls_ttl_length_def cofaction_set_mpls_ttl_pack_def cofaction_set_mpls_ttl_unpack_def
  cofaction_dec_mpls_ttl_length_def cofaction_dec_mpls_ttl_pack_def cofaction_dec_mpls_ttl_unpack_def
  cofaction_push_vlan_length_def cofaction_push_vlan_pack_def cofaction_push_vlan_unpack_def
  cofaction_pop_vlan_length_def cofaction_pop_vlan_pack_def cofaction_pop_vlan_unpack_def
  cofaction_push_mpls_length_def cofaction_push_mpls_pack_def cofaction_push_mpls_unpack_def
  cofaction_pop_mpls_length_def cofaction_pop_mpls_pack_def cofaction_pop_mpls_unpack_def
  cofaction_set_queue_length_def cofaction_set_queue_pack_def cofaction_set_queue_unpack_def
  cofaction_group_length_def cofaction_group_pack_def cofaction_group_unpack_def
  cofaction_set_nw_ttl_length_def cofaction_set_nw_ttl_pack_def cofaction_set_nw_ttl_unpack_def
  cofaction_dec_nw_ttl_length_def cofaction_dec_nw_ttl_pack_def cofaction_dec_nw_ttl_unpack_def
  cofaction_push_pbb_length_def cofaction_push_pbb_pack_def cofaction_push_pbb_unpack_def
  cofaction_pop_pbb_length_def cofaction_pop_pbb_pack_def cofaction_pop_pbb_unpack_def

end
