(* ===== verification/Cpacket.thy ===== *)
theory Cpacket
  imports Cofaction
begin

text \<open>
  Memory areas and packets (\<open>cmemory.h\<close>, \<open>cmemory.cc\<close>, \<open>cpacket.h\<close>).  A memory area is the list of its
  bytes.  A packet is a memory area with room before and behind the frame: tags are pushed into the room before
  it.  The frame starts at \<open>head\<close> and ends \<open>tail\<close> bytes before the end of the area.

  An access outside of the area is undefined in C++; here it is \<open>EOutOfBoundsRead\<close> or \<open>EOutOfBoundsWrite\<close>.
  Sizes are \<open>size_t\<close> with 64 bits; where the code subtracts them the wrap-around is written out, and sums of
  the sizes of existing objects stay below \<open>2 ^ 64\<close>.
\<close>

section \<open>Memory areas\<close>

definition mem_resize :: "nat \<Rightarrow> byte list \<Rightarrow> byte list" where
  "mem_resize len m = (if len \<le> length m then take len m else m @ replicate (len - length m) 0)"

definition mem_index :: "nat \<Rightarrow> byte list \<Rightarrow> byte result" where
  "mem_index i m = (if length m \<le> i then Inl EOutOfRange else Inr (m ! i))"

text \<open>\<open>memcmp\<close>: bytes are compared as unsigned numbers.\<close>

fun memcmp :: "byte list \<Rightarrow> byte list \<Rightarrow> int" where
  "memcmp (a # as) (b # bs) = (if a < b then -1 else if b < a then 1 else memcmp as bs)"
| "memcmp _ _ = 0"

definition mem_less :: "byte list \<Rightarrow> byte list \<Rightarrow> bool" where
  "mem_less m m' =
     (if length m < length m' then True else if length m' < length m then False else memcmp m m' < 0)"

definition mem_greater :: "byte list \<Rightarrow> byte list \<Rightarrow> bool" where
  "mem_greater m m' =
     (if length m' < length m then True else if length m < length m' then False else 0 < memcmp m m')"

definition mem_eq :: "byte list \<Rightarrow> byte list \<Rightarrow> bool" where
  "mem_eq m m' \<longleftrightarrow> length m = length m' \<and> memcmp m m' = 0"

definition mem_and :: "byte list \<Rightarrow> byte list \<Rightarrow> byte list result" where
  "mem_and m m' = (if length m \<noteq> length m' then Inl EInvalid else Inr (map2 (AND) m m'))"

text \<open>\<open>operator+=\<close> with another object; \<open>operator+\<close> appends to a copy.\<close>

definition mem_append :: "byte list \<Rightarrow> byte list \<Rightarrow> byte list" where
  "mem_append m m' = put_at (length m) m' (mem_resize (length m + length m') m)"

text \<open>\<open>m += m\<close>: the length is read again after the area has grown, and the copy writes behind it.\<close>

definition mem_append_self :: "byte list \<Rightarrow> byte list result" where
  "mem_append_self m =
     (let m1 = mem_resize (length m + length m) m
      in if length m1 < length m + length m1 then Inl EOutOfBoundsWrite else Inr (put_at (length m) m1 m1))"

definition mem_clear :: "byte list \<Rightarrow> byte list" where
  "mem_clear m = replicate (length m) 0"

definition mem_assign :: "byte list \<Rightarrow> byte list \<Rightarrow> byte list" where
  "mem_assign buf m = put_at 0 buf (mem_clear (mem_resize (length buf) m))"

definition mem_insert :: "nat \<Rightarrow> nat \<Rightarrow> byte list \<Rightarrow> byte list result" where
  "mem_insert offset len m =
     (if length m < offset then Inl EOutOfRange
      else if m = [] then Inr (replicate len 0)
      else Inr (take offset m @ replicate len 0 @ drop offset m))"

text \<open>The functions that take a pointer; it is given by its distance from the start of the area.\<close>

definition mem_insert_ptr :: "int \<Rightarrow> nat \<Rightarrow> byte list \<Rightarrow> byte list result" where
  "mem_insert_ptr p len m = (if \<not> (0 \<le> p \<and> p < int (length m)) then Inl EOutOfRange else mem_insert (nat p) len m)"

text \<open>An offset behind the end makes \<open>len\<close> wrap around, and \<open>memset\<close> clears the rest of the address space.\<close>

definition mem_remove :: "nat \<Rightarrow> nat \<Rightarrow> byte list \<Rightarrow> byte list result" where
  "mem_remove offset len m =
     (if length m < offset then Inl EOutOfBoundsWrite
      else let len = (if offset + len > length m then length m - offset else len)
           in Inr (take offset m @ drop (offset + len) m))"

definition mem_remove_ptr :: "int \<Rightarrow> nat \<Rightarrow> byte list \<Rightarrow> byte list result" where
  "mem_remove_ptr p len m =
     (if \<not> (0 \<le> p \<and> p < int (length m)) then Inl EOutOfRange
      else if \<not> (0 \<le> p + int len \<and> p + int len < int (length m)) then Inl EOutOfRange
      else mem_remove (nat p) len m)"

fun find_from :: "byte \<Rightarrow> nat \<Rightarrow> byte list \<Rightarrow> nat result" where
  "find_from v i [] = Inl EMemNotFound"
| "find_from v i (b # bs) = (if b = v then Inr i else find_from v (Suc i) bs)"

definition mem_find_first_of :: "byte \<Rightarrow> nat \<Rightarrow> byte list \<Rightarrow> nat result" where
  "mem_find_first_of v start m = find_from v start (drop start m)"

text \<open>\<open>pack\<close>: the bytes of the caller's buffer afterwards.\<close>

definition mem_pack :: "byte list \<Rightarrow> byte list \<Rightarrow> byte list result" where
  "mem_pack buf m = (if length buf < length m then Inl EInvalid else Inr (put_at 0 m buf))"

section \<open>Packets\<close>

record cpacket =
  pk_mem :: "byte list"
  pk_head :: nat
  pk_tail :: nat
  pk_ihead :: nat
  pk_itail :: nat

definition cpacket_new :: cpacket where
  "cpacket_new = \<lparr>pk_mem = [], pk_head = 0, pk_tail = 0, pk_ihead = 0, pk_itail = 0\<rparr>"

definition cpacket_sized :: "nat \<Rightarrow> nat \<Rightarrow> nat \<Rightarrow> cpacket" where
  "cpacket_sized len head tail =
     \<lparr>pk_mem = replicate (head + len + tail) 0, pk_head = head, pk_tail = tail, pk_ihead = head, pk_itail = tail\<rparr>"

definition cpacket_of :: "byte list \<Rightarrow> nat \<Rightarrow> nat \<Rightarrow> cpacket" where
  "cpacket_of buf head tail =
     (let p = cpacket_sized (length buf) head tail in p\<lparr>pk_mem := put_at head buf (pk_mem p)\<rparr>)"

definition cpacket_clear :: "cpacket \<Rightarrow> cpacket" where
  "cpacket_clear p = p\<lparr>pk_mem := mem_clear (pk_mem p), pk_head := pk_ihead p, pk_tail := pk_itail p\<rparr>"

text \<open>\<open>length()\<close> is a difference of sizes; the frame are the bytes that \<open>soframe()\<close> and \<open>length()\<close> name.\<close>

definition cpacket_length :: "cpacket \<Rightarrow> nat" where
  "cpacket_length p = size_sub (length (pk_mem p)) (pk_head p + pk_tail p)"

definition cpacket_empty :: "cpacket \<Rightarrow> bool" where
  "cpacket_empty p \<longleftrightarrow> cpacket_length p = 0"

definition cpacket_frame :: "cpacket \<Rightarrow> byte list result" where
  "cpacket_frame p =
     (if length (pk_mem p) < pk_head p + cpacket_length p then Inl EOutOfBoundsRead
      else Inr (bytes_at (pk_head p) (cpacket_length p) (pk_mem p)))"

definition cpacket_index :: "nat \<Rightarrow> cpacket \<Rightarrow> byte result" where
  "cpacket_index i p =
     (if cpacket_length p \<le> i then Inl EPacketOutOfRange else mem_index (pk_head p + i) (pk_mem p))"

definition cpacket_eq :: "cpacket \<Rightarrow> cpacket \<Rightarrow> bool result" where
  "cpacket_eq p p' =
     (if cpacket_length p \<noteq> cpacket_length p' then Inr False
      else rbind (cpacket_frame p) (\<lambda>a. rbind (cpacket_frame p') (\<lambda>b. Inr (memcmp a b = 0))))"

definition cpacket_eq_mem :: "cpacket \<Rightarrow> byte list \<Rightarrow> bool result" where
  "cpacket_eq_mem p m =
     (if cpacket_length p \<noteq> length m then Inr False else rbind (cpacket_frame p) (\<lambda>a. Inr (memcmp a m = 0)))"

definition cpacket_plus :: "cpacket \<Rightarrow> cpacket \<Rightarrow> cpacket result" where
  "cpacket_plus p p' =
     rbind (cpacket_frame p) (\<lambda>a. rbind (cpacket_frame p') (\<lambda>b.
       let q = cpacket_sized (length a + length b) 64 256
       in Inr (q\<lparr>pk_mem := put_at (64 + length a) b (put_at 64 a (pk_mem q))\<rparr>)))"

text \<open>\<open>operator+=\<close>: the area is resized to the two lengths, without the room before and behind the frame.\<close>

definition cpacket_append :: "cpacket \<Rightarrow> cpacket \<Rightarrow> cpacket result" where
  "cpacket_append p p' =
     rbind (cpacket_frame p') (\<lambda>b.
       let offset = cpacket_length p; m = mem_resize (offset + length b) (pk_mem p)
       in if b = [] then Inr (p\<lparr>pk_mem := m\<rparr>)
          else if length m < pk_head p + offset + length b then Inl EOutOfBoundsWrite
          else Inr (p\<lparr>pk_mem := put_at (pk_head p + offset) b m\<rparr>))"

definition cpacket_assign :: "byte list \<Rightarrow> cpacket \<Rightarrow> cpacket" where
  "cpacket_assign buf p =
     p\<lparr>pk_head := pk_ihead p, pk_tail := pk_itail p,
       pk_mem := put_at (pk_ihead p) buf (mem_clear (mem_resize (pk_ihead p + length buf + pk_itail p) (pk_mem p)))\<rparr>"

definition cpacket_resize :: "nat \<Rightarrow> cpacket \<Rightarrow> cpacket" where
  "cpacket_resize len p = p\<lparr>pk_mem := mem_resize (pk_head p + len + pk_tail p) (pk_mem p)\<rparr>"

text \<open>\<open>pack\<close> copies as many bytes as the buffer holds, not as many as the frame has.\<close>

definition cpacket_pack :: "nat \<Rightarrow> cpacket \<Rightarrow> byte list result" where
  "cpacket_pack buflen p =
     (if buflen < cpacket_length p then Inl EPacketInval
      else if length (pk_mem p) < pk_head p + buflen then Inl EOutOfBoundsRead
      else Inr (bytes_at (pk_head p) buflen (pk_mem p)))"

definition cpacket_unpack :: "byte list \<Rightarrow> cpacket \<Rightarrow> cpacket" where
  "cpacket_unpack buf p =
     p\<lparr>pk_mem := put_at (pk_head p) buf (mem_resize (pk_head p + length buf + pk_tail p) (pk_mem p))\<rparr>"

definition cpacket_tag_insert :: "nat \<Rightarrow> cpacket \<Rightarrow> cpacket result" where
  "cpacket_tag_insert len p =
     (if pk_head p < len then Inl EPacketInval else Inr (p\<lparr>pk_head := pk_head p - len\<rparr>))"

definition cpacket_tag_remove :: "nat \<Rightarrow> cpacket \<Rightarrow> cpacket result" where
  "cpacket_tag_remove len p =
     (if length (pk_mem p) < len + pk_head p then Inl EPacketInval else Inr (p\<lparr>pk_head := pk_head p + len\<rparr>))"

text \<open>
  \<open>push\<close>: when there is not enough room before the frame the area grows at its end, and the bytes are
  written before its start.  \<open>offset\<close> is not checked.
\<close>

definition cpacket_push :: "nat \<Rightarrow> nat \<Rightarrow> cpacket \<Rightarrow> cpacket result" where
  "cpacket_push offset nbytes p =
     (if pk_head p < nbytes then Inl EOutOfBoundsWrite
      else if length (pk_mem p) < pk_head p + offset then Inl EOutOfBoundsRead
      else let head = pk_head p - nbytes;
               m = put_at head (bytes_at (pk_head p) offset (pk_mem p)) (pk_mem p)
           in Inr (p\<lparr>pk_mem := put_at (head + offset) (replicate nbytes 0) m, pk_head := head\<rparr>))"

definition cpacket_pop :: "nat \<Rightarrow> nat \<Rightarrow> cpacket \<Rightarrow> cpacket result" where
  "cpacket_pop offset nbytes p =
     (if length (pk_mem p) < pk_head p + offset + nbytes then Inl EPacketOutOfRange
      else let m = put_at (pk_head p + nbytes) (bytes_at (pk_head p) offset (pk_mem p)) (pk_mem p)
           in Inr (p\<lparr>pk_mem := put_at (pk_head p) (replicate nbytes 0) m, pk_head := pk_head p + nbytes\<rparr>))"

section \<open>What a packet promises\<close>

text \<open>A frame with room before it, as its clients see it: a list of bytes.\<close>

locale framed =
  fixes frame :: "'p \<Rightarrow> byte list"
    and invar :: "'p \<Rightarrow> bool"
    and room :: "'p \<Rightarrow> nat"
    and fits :: "nat \<Rightarrow> 'p \<Rightarrow> bool"
    and load :: "byte list \<Rightarrow> 'p \<Rightarrow> 'p"
    and push :: "nat \<Rightarrow> nat \<Rightarrow> 'p \<Rightarrow> 'p result"
    and pop :: "nat \<Rightarrow> nat \<Rightarrow> 'p \<Rightarrow> 'p result"
    and send :: "nat \<Rightarrow> 'p \<Rightarrow> byte list result"
  assumes load: "fits (length bs) p \<Longrightarrow> invar (load bs p) \<and> frame (load bs p) = bs \<and> room (load bs p) = room p"
    and push: "invar p \<Longrightarrow> offset \<le> length (frame p) \<Longrightarrow> n \<le> room p \<Longrightarrow>
      \<exists>p'. push offset n p = Inr p' \<and> invar p' \<and> room p' = room p - n \<and>
        frame p' = take offset (frame p) @ replicate n 0 @ drop offset (frame p)"
    and pop: "invar p \<Longrightarrow> offset + n \<le> length (frame p) \<Longrightarrow>
      \<exists>p'. pop offset n p = Inr p' \<and> invar p' \<and> room p' = room p + n \<and>
        frame p' = take offset (frame p) @ drop (offset + n) (frame p)"
    and send: "invar p \<Longrightarrow> send (length (frame p)) p = Inr (frame p)"
begin

lemma pop_push:
  assumes "invar p" "offset \<le> length (frame p)" "n \<le> room p"
  shows "\<exists>p' p''. push offset n p = Inr p' \<and> pop offset n p' = Inr p'' \<and> invar p'' \<and> frame p'' = frame p \<and> room p'' = room p"
proof -
  obtain p' where p': "push offset n p = Inr p'" "invar p'" "room p' = room p - n"
    "frame p' = take offset (frame p) @ replicate n 0 @ drop offset (frame p)"
    using push [OF assms] by blast
  have "offset + n \<le> length (frame p')"
    using p'(4) assms(2) by simp
  then obtain p'' where "pop offset n p' = Inr p''" "invar p''" "room p'' = room p' + n"
    "frame p'' = take offset (frame p') @ drop (offset + n) (frame p')"
    using pop [OF p'(2)] by blast
  then show ?thesis
    using p' assms(2,3) by (intro exI [of _ p'] exI [of _ p'']) simp
qed

lemma send_load: "fits (length bs) p \<Longrightarrow> send (length bs) (load bs p) = Inr bs"
  using load [of bs p] send [of "load bs p"] by simp

end

definition cpacket_wf :: "cpacket \<Rightarrow> bool" where
  "cpacket_wf p \<longleftrightarrow>
     pk_head p + pk_tail p \<le> length (pk_mem p) \<and> length (pk_mem p) < 2 ^ 64"

definition cpacket_fits :: "nat \<Rightarrow> cpacket \<Rightarrow> bool" where
  "cpacket_fits n p \<longleftrightarrow> pk_head p + n + pk_tail p < 2 ^ 64"

definition cpacket_bytes :: "cpacket \<Rightarrow> byte list" where
  "cpacket_bytes p = bytes_at (pk_head p) (length (pk_mem p) - pk_head p - pk_tail p) (pk_mem p)"

lemma split_drop: "drop h m = bytes_at h k m @ drop (h + k) m"
  by (metis append_take_drop_id bytes_at_def drop_drop add.commute)

lemma split_bytes: "m = take h m @ bytes_at h k m @ drop (h + k) m"
  by (simp flip: split_drop)

lemma length_mem_resize [simp]: "length (mem_resize n m) = n"
  by (simp add: mem_resize_def)

lemma length_mem_clear [simp]: "length (mem_clear m) = length m"
  by (simp add: mem_clear_def)

lemma cpacket_wf_length: "cpacket_wf p \<Longrightarrow> cpacket_length p = length (cpacket_bytes p)"
  by (simp add: cpacket_wf_def cpacket_length_def size_sub_le cpacket_bytes_def)

lemma cpacket_wf_frame: "cpacket_wf p \<Longrightarrow> cpacket_frame p = Inr (cpacket_bytes p)"
  by (auto simp: cpacket_frame_def cpacket_wf_length cpacket_bytes_def cpacket_wf_def bytes_at_def)

lemma length_cpacket_bytes: "cpacket_wf p \<Longrightarrow> length (cpacket_bytes p) = length (pk_mem p) - pk_head p - pk_tail p"
  by (simp add: cpacket_wf_def cpacket_bytes_def)

lemma cpacket_load:
  assumes "cpacket_fits (length bs) p"
  shows "cpacket_wf (cpacket_unpack bs p)" "cpacket_bytes (cpacket_unpack bs p) = bs"
    "pk_head (cpacket_unpack bs p) = pk_head p" "pk_tail (cpacket_unpack bs p) = pk_tail p"
  using assms by (simp_all add: cpacket_fits_def cpacket_wf_def cpacket_unpack_def cpacket_bytes_def)

lemma cpacket_push_frame:
  assumes "cpacket_wf p" "offset \<le> length (cpacket_bytes p)" "n \<le> pk_head p"
  shows "\<exists>p'. cpacket_push offset n p = Inr p' \<and> cpacket_wf p' \<and> pk_head p' = pk_head p - n \<and> pk_tail p' = pk_tail p \<and>
    cpacket_bytes p' = take offset (cpacket_bytes p) @ replicate n 0 @ drop offset (cpacket_bytes p)"
proof -
  let ?m = "pk_mem p" and ?h = "pk_head p" and ?t = "pk_tail p"
  have wf: "?h + ?t \<le> length ?m" "length ?m < 2 ^ 64"
    and off: "?h + offset + ?t \<le> length ?m"
    using assms by (auto simp: cpacket_wf_def cpacket_bytes_def)
  define pre where "pre = take (?h - n) ?m"
  define gap where "gap = bytes_at (?h - n) n ?m"
  define body where "body = bytes_at ?h offset ?m"
  define rest where "rest = drop (?h + offset) ?m"
  have "?m = take ?h ?m @ body @ rest"
    using split_bytes [of ?m ?h offset] by (simp add: body_def rest_def)
  moreover have "take ?h ?m = pre @ gap"
    using assms(3) by (simp add: pre_def gap_def bytes_at_def) (metis take_add le_add_diff_inverse2)
  ultimately have m: "?m = pre @ gap @ body @ rest"
    by simp
  have len: "length pre = ?h - n" "length gap = n" "length body = offset" "?t \<le> length rest"
    using wf off assms(3) by (simp_all add: pre_def gap_def body_def rest_def)
  have "put_at (?h - n + offset) (replicate n 0) (put_at (?h - n) body ?m) = pre @ body @ replicate n 0 @ rest"
    using len assms(3) by (subst m) (simp add: put_at_def drop_append)
  then have push: "cpacket_push offset n p = Inr (p\<lparr>pk_mem := pre @ body @ replicate n 0 @ rest, pk_head := ?h - n\<rparr>)"
    using assms(3) off by (simp add: cpacket_push_def Let_def body_def)
  have old: "cpacket_bytes p = body @ take (length rest - ?t) rest"
    using len assms(3) by (simp add: cpacket_bytes_def bytes_at_def m [THEN arg_cong [of _ _ length]]) (subst m, simp)
  have "cpacket_bytes (p\<lparr>pk_mem := pre @ body @ replicate n 0 @ rest, pk_head := ?h - n\<rparr>) =
      body @ replicate n 0 @ take (length rest - ?t) rest"
    using len assms(3) by (simp add: cpacket_bytes_def bytes_at_def)
  moreover have "length (pre @ body @ replicate n 0 @ rest) = length ?m"
    using len by (subst m) simp
  ultimately show ?thesis
    using push old len wf assms(3) by (auto simp: cpacket_wf_def)
qed

lemma cpacket_pop_frame:
  assumes "cpacket_wf p" "offset + n \<le> length (cpacket_bytes p)"
  shows "\<exists>p'. cpacket_pop offset n p = Inr p' \<and> cpacket_wf p' \<and> pk_head p' = pk_head p + n \<and> pk_tail p' = pk_tail p \<and>
    cpacket_bytes p' = take offset (cpacket_bytes p) @ drop (offset + n) (cpacket_bytes p)"
proof -
  let ?m = "pk_mem p" and ?h = "pk_head p" and ?t = "pk_tail p"
  have wf: "?h + ?t \<le> length ?m" "length ?m < 2 ^ 64"
    and off: "?h + offset + n + ?t \<le> length ?m"
    using assms by (auto simp: cpacket_wf_def cpacket_bytes_def)
  define pre where "pre = take ?h ?m"
  define body where "body = bytes_at ?h offset ?m"
  define gap where "gap = bytes_at (?h + offset) n ?m"
  define rest where "rest = drop (?h + offset + n) ?m"
  have m: "?m = pre @ body @ gap @ rest"
    using split_bytes [of ?m ?h offset] split_drop [of "?h + offset" ?m n]
    by (simp add: pre_def body_def gap_def rest_def)
  have len: "length pre = ?h" "length body = offset" "length gap = n" "?t \<le> length rest"
    using wf off by (simp_all add: pre_def gap_def body_def rest_def)
  have shift: "put_at (?h + n) body ?m = pre @ take n (body @ gap) @ body @ rest"
    using len by (subst m) (simp add: put_at_def)
  have "put_at ?h (replicate n 0) (put_at (?h + n) body ?m) = pre @ replicate n 0 @ body @ rest"
    unfolding shift using len by (simp add: put_at_def)
  then have pop: "cpacket_pop offset n p = Inr (p\<lparr>pk_mem := pre @ replicate n 0 @ body @ rest, pk_head := ?h + n\<rparr>)"
    using off by (simp add: cpacket_pop_def Let_def body_def)
  have old: "cpacket_bytes p = body @ gap @ take (length rest - ?t) rest"
    using len by (simp add: cpacket_bytes_def bytes_at_def m [THEN arg_cong [of _ _ length]]) (subst m, simp)
  have "cpacket_bytes (p\<lparr>pk_mem := pre @ replicate n 0 @ body @ rest, pk_head := ?h + n\<rparr>) =
      body @ take (length rest - ?t) rest"
    using len by (simp add: cpacket_bytes_def bytes_at_def)
  moreover have "length (pre @ replicate n 0 @ body @ rest) = length ?m"
    using len by (subst m) simp
  ultimately show ?thesis
    using pop old len wf by (auto simp: cpacket_wf_def)
qed

lemma cpacket_send:
  assumes "cpacket_wf p"
  shows "cpacket_pack (length (cpacket_bytes p)) p = Inr (cpacket_bytes p)"
  using assms cpacket_wf_length [OF assms] by (auto simp: cpacket_pack_def cpacket_bytes_def cpacket_wf_def)

interpretation packet: framed cpacket_bytes cpacket_wf pk_head cpacket_fits cpacket_unpack cpacket_push cpacket_pop cpacket_pack
  by unfold_locales (use cpacket_load cpacket_push_frame cpacket_pop_frame cpacket_send in \<open>blast | simp\<close>)+

lemma cpacket_of_wf:
  assumes "h + length bs + t < 2 ^ 64"
  shows "cpacket_wf (cpacket_of bs h t)" "cpacket_bytes (cpacket_of bs h t) = bs"
    "pk_head (cpacket_of bs h t) = h" "pk_tail (cpacket_of bs h t) = t"
  using assms by (simp_all add: cpacket_of_def cpacket_sized_def cpacket_wf_def cpacket_bytes_def Let_def)

text \<open>
  Only the end of the area is checked when a tag is removed: a tag that reaches into the room behind the frame
  makes the length wrap around.
\<close>

lemma tag_remove_wraps:
  assumes "cpacket_wf p" "length (cpacket_bytes p) < len" "len \<le> length (cpacket_bytes p) + pk_tail p"
  shows "\<exists>p'. cpacket_tag_remove len p = Inr p' \<and> cpacket_length p' = 2 ^ 64 - (len - length (cpacket_bytes p)) \<and>
    cpacket_frame p' = Inl EOutOfBoundsRead"
proof -
  let ?p = "p\<lparr>pk_head := pk_head p + len\<rparr>" and ?n = "length (cpacket_bytes p)"
  have wf: "pk_head p + pk_tail p \<le> length (pk_mem p)" "length (pk_mem p) < 2 ^ 64"
    "length (pk_mem p) = pk_head p + ?n + pk_tail p"
    using assms(1) by (auto simp: cpacket_wf_def cpacket_bytes_def)
  have "cpacket_length ?p = 2 ^ 64 - (len - ?n)"
    using size_sub_wraps [of "length (pk_mem p)" "pk_head p + len + pk_tail p"] wf assms(2,3)
    by (simp add: cpacket_length_def)
  then show ?thesis
    using wf assms(2,3) by (simp add: cpacket_tag_remove_def cpacket_frame_def)
qed

section \<open>Properties\<close>

text \<open>
  C37: a packet is a list of bytes to which tags can be added: pushing moves the first \<open>offset\<close> bytes of the
  frame forward and opens a gap of zeros behind them, and popping the same bytes gives the frame back, as long as
  the room before the frame suffices.
\<close>

theorem packet_push_pop:
  assumes "cpacket_wf p" "offset \<le> length (cpacket_bytes p)" "n \<le> pk_head p"
  shows "\<exists>p' p''. cpacket_push offset n p = Inr p' \<and>
    cpacket_bytes p' = take offset (cpacket_bytes p) @ replicate n 0 @ drop offset (cpacket_bytes p) \<and>
    cpacket_pop offset n p' = Inr p'' \<and> cpacket_bytes p'' = cpacket_bytes p \<and> pk_head p'' = pk_head p"
  using packet.push [OF assms] packet.pop_push [OF assms] by auto

definition packet_example :: cpacket where
  "packet_example = cpacket_of [1, 2, 3] 64 256"

lemma packet_example_facts:
  "cpacket_wf packet_example" "cpacket_bytes packet_example = [1, 2, 3]" "pk_head packet_example = 64"
  unfolding packet_example_def by (rule cpacket_of_wf; simp)+

theorem packet_push_pop_witness:
  "\<exists>p' p''. cpacket_push 2 4 packet_example = Inr p' \<and> cpacket_bytes p' = [1, 2, 0, 0, 0, 0, 3] \<and>
    cpacket_pop 2 4 p' = Inr p'' \<and> cpacket_bytes p'' = [1, 2, 3]"
proof -
  have "replicate 4 (0 :: byte) = [0, 0, 0, 0]"
    by (simp add: eval_nat_numeral)
  then show ?thesis
    using packet_push_pop [OF packet_example_facts(1), of 2 4] by (auto simp: packet_example_facts)
qed

text \<open>
  C28: the sum of two packets holds their frames one after the other, but \<open>+=\<close> writes behind the memory of a
  packet that has room before its frame, as every packet made from a buffer has.
\<close>

theorem packet_append_overflows:
  assumes "cpacket_wf p" "cpacket_wf p'" "length (cpacket_bytes p) + length (cpacket_bytes p') < 2 ^ 63"
    and "0 < pk_head p" "cpacket_bytes p' \<noteq> []"
  shows "cpacket_append p p' = Inl EOutOfBoundsWrite \<and>
    (\<exists>q. cpacket_plus p p' = Inr q \<and> cpacket_bytes q = cpacket_bytes p @ cpacket_bytes p')"
proof
  let ?a = "cpacket_bytes p" and ?b = "cpacket_bytes p'"
  note frames = cpacket_wf_frame [OF assms(1)] cpacket_wf_frame [OF assms(2)] cpacket_wf_length [OF assms(1)]
  show "cpacket_append p p' = Inl EOutOfBoundsWrite"
    using assms(4,5) by (simp add: cpacket_append_def frames Let_def)
  let ?q = "cpacket_sized (length ?a + length ?b) 64 256"
  have m: "pk_mem ?q = replicate 64 0 @ replicate (length ?a) 0 @ replicate (length ?b) 0 @ replicate 256 0"
    by (simp add: cpacket_sized_def add.assoc flip: replicate_add)
  have "put_at (64 + length ?a) ?b (put_at 64 ?a (pk_mem ?q)) = replicate 64 0 @ ?a @ ?b @ replicate 256 0"
    unfolding m by (simp add: put_at_def)
  then have "cpacket_plus p p' = Inr (?q\<lparr>pk_mem := replicate 64 0 @ ?a @ ?b @ replicate 256 0\<rparr>)"
    by (simp add: cpacket_plus_def frames Let_def)
  then show "\<exists>q. cpacket_plus p p' = Inr q \<and> cpacket_bytes q = ?a @ ?b"
    by (simp add: cpacket_bytes_def bytes_at_def cpacket_sized_def)
qed

theorem packet_append_overflows_witness:
  "cpacket_append packet_example packet_example = Inl EOutOfBoundsWrite"
  using packet_append_overflows [OF packet_example_facts(1) packet_example_facts(1)] by (simp add: packet_example_facts)

end
