(* ===== verification/Cofaction_Wire.thy ===== *)
theory Cofaction_Wire
  imports Cofaction
begin

text \<open>
  What the wire format of an action keeps: the bytes that \<open>pack\<close> writes give the same object back,
  padding of a vendor or experimenter body included.
\<close>

section \<open>What all classes share\<close>

definition action_header :: "cofaction \<Rightarrow> nat \<Rightarrow> byte list \<Rightarrow> byte list" where
  "action_header a n buf = put_at 2 (be_bytes 2 (word_of_nat n :: u16)) (put_at 0 (be_bytes 2 (act_type a)) buf)"

lemma length_action_header [simp]: "4 \<le> length buf \<Longrightarrow> length (action_header a n buf) = length buf"
  by (simp add: action_header_def)

lemma action_header_bytes [simp]:
  assumes "4 \<le> length buf"
  shows "bytes_at 0 2 (action_header a n buf) = be_bytes 2 (act_type a)"
    "bytes_at 2 2 (action_header a n buf) = be_bytes 2 (word_of_nat n :: u16)"
    "4 \<le> i \<Longrightarrow> bytes_at i k (action_header a n buf) = bytes_at i k buf"
  using assms by (simp_all add: action_header_def)

lemma pack_action_ok:
  assumes "len (act_version a) = Inr n" "length buf = n" "0 < n" "act_version a \<in> {1, 3, 4}"
  shows "pack_action len fs a buf = (a\<lparr>act_len := word_of_nat n\<rparr>, Inr (put_fields fs (action_header a n buf)))"
  using assms by (auto simp: pack_action_def cofaction_pack_def cofaction_length_def action_header_def Let_def)

lemma unpack_action_ok:
  assumes "len (act_version a) = Inr n" "n \<le> length buf" "0 < length buf" "act_version a \<in> {1, 3, 4}"
    and "bytes_at 0 2 buf = be_bytes 2 t" "bytes_at 2 2 buf = be_bytes 2 l" "4 \<le> l"
  shows "unpack_action len rd buf a = (a\<lparr>act_type := t, act_len := l, act_body := rd buf\<rparr>, None)"
  using assms by (auto simp: unpack_action_def cofaction_unpack_def cofaction_length_def Let_def not_less)

lemma pad8_at_least: "0 < n \<Longrightarrow> 8 \<le> pad8 n"
  using pad8_dvd [of n] pad8_ge [of n] dvd_imp_le by force

lemma action_length_bound:
  assumes "action_length a = Inr n"
  shows "8 \<le> n" "act_version a \<in> {1, 3, 4}"
proof -
  have "8 \<le> n \<and> act_version a \<in> {1, 3, 4}"
    using assms
    by (cases "act_body a")
      (auto simp: action_length_def fixed_action_defs of10_size_def of12_size_def pad8_at_least
        cofaction_vendor_length_def cofaction_experimenter_length_def cofaction_set_field_length_def rbind_Inr_iff
        split: if_splits option.splits)
  then show "8 \<le> n" "act_version a \<in> {1, 3, 4}"
    by auto
qed

section \<open>Set field\<close>

text \<open>The member in use can be sent, and its class is one that \<open>unpack\<close> looks for.\<close>

definition set_field_ok :: "set_field \<Rightarrow> bool" where
  "set_field_ok sf \<longleftrightarrow>
     (case sf_member (sf_type sf) sf of
        None \<Rightarrow> False
      | Some m \<Rightarrow> coxmatch_ok m \<and>
          get_oxm_class (coxmatch_id m) \<in> (if sf_type sf = OXM_TYPE_EXP then {0xffff} else {0x8000, 0x8001}))"

definition set_field_received :: "set_field \<Rightarrow> set_field" where
  "set_field_received sf =
     sf_store (sf_type sf)
       (the (coxmatch_canon (the (sf_member (sf_type sf) set_field_new)) (the (sf_member (sf_type sf) sf)))) set_field_new"

lemma set_field_pack_type:
  assumes "sf_member t sf = Some m" "coxmatch_ok m" "coxmatch_pack l m = (m', Inr bytes)"
    and "get_oxm_class (coxmatch_id m) \<in> (if t = OXM_TYPE_EXP then {0xffff} else {0x8000, 0x8001})"
  shows "select_oxm_type (coxmatch_id m') = Some t"
  using assms
  by (cases t)
    (auto simp del: One_nat_def simp: select_oxm_type_def set_field_masked_def set_field_unmasked_def coxmatch_class_defs oxm_pack_def
      adjust_oxm_length_def Let_def map_prod_id_eq oxm_class_of_type [of "set_oxm_length _ _"] oxm_class_of_type [of "oxm_id _"])

lemma bytes_at_put_prefix: "i + length bs \<le> length buf \<Longrightarrow> k \<le> length bs \<Longrightarrow> bytes_at i k (put_at i bs buf) = take k bs"
  by (simp add: bytes_at_def put_at_def)

lemma be32_be_bytes: "be32 w = be_bytes 4 w"
  by (simp add: be32_def eval_nat_numeral drop_bit_drop_bit)

lemma be_word_be32: "be_word (be32 w) = (w :: u32)"
  by (simp add: be32_be_bytes)

lemma be32_last: "be32 w ! 3 = ucast w"
  by (simp add: be32_def)

lemma set_field_new_member: "sf_member t sf = Some m \<Longrightarrow> \<exists>m0 mc. sf_member t set_field_new = Some m0 \<and> coxmatch_canon m0 m = Some mc"
  by (cases t) auto

text \<open>The bytes of an element that was packed, wherever they stand.\<close>

lemma packed_element:
  assumes "coxmatch_ok m" "coxmatch_length m = Inr l" "coxmatch_pack l m = (m', Inr bytes)"
    and "i + l \<le> length buf" "i = 4"
  shows "length bytes = l" "4 \<le> l" "bytes_at i l (put_at i bytes buf) = bytes"
    "be_word (bytes_at i 4 (put_at i bytes buf)) = coxmatch_id m'" "4 + unat (get_oxm_length (coxmatch_id m')) = l"
proof -
  note hdr = coxmatch_pack_header [OF assms(3,1)]
  then have four: "take 4 bytes = be32 (coxmatch_id m')"
    by blast
  show l: "length bytes = l"
    using hdr assms(2) by simp
  show "4 \<le> l"
    using arg_cong [OF four, of length] l by simp
  then show "bytes_at i l (put_at i bytes buf) = bytes" "be_word (bytes_at i 4 (put_at i bytes buf)) = coxmatch_id m'"
    using l assms(4) by (simp_all add: bytes_at_put_prefix four be_word_be32)
  have "bytes ! 3 = ucast (coxmatch_id m')"
    using arg_cong [OF four, of "\<lambda>b. b ! 3"] by (simp add: be32_last)
  then show "4 + unat (get_oxm_length (coxmatch_id m')) = l"
    using hdr l by (simp add: oxm_length_ucast)
qed

lemma set_field_unpacked:
  assumes v: "v \<in> {3, 4}" and out: "8 \<le> length out" "length out < 2 ^ 16"
    and hdr: "bytes_at 0 2 out = be_bytes 2 t" "bytes_at 2 2 out = be_bytes 2 (word_of_nat (length out) :: u16)"
    and i: "be_word (bytes_at 4 4 out) = i" "4 + unat (get_oxm_length i) = l" "4 + l \<le> length out"
    and ty: "select_oxm_type i = Some ty" "sf_member ty set_field_new = Some m0"
    and un: "coxmatch_unpack (bytes_at 4 l out) m0 = (mc, None)"
  shows "action_unpack out (new_action C_set_field v) =
    (\<lparr>act_version = v, act_type = t, act_len = word_of_nat (length out),
      act_body = Act_set_field (sf_store ty mc set_field_new)\<rparr>, None)"
proof -
  have n: "unat (word_of_nat (length out) :: u16) = length out"
    using out(2) by (simp add: unat_of_nat_u16)
  then have "4 \<le> (word_of_nat (length out) :: u16)"
    using out(1) by (simp add: word_le_nat_alt)
  moreover have "cofaction_set_field_length set_field_new v = Inr 8"
    using v by (auto simp: cofaction_set_field_length_def of12_size_def set_field_new_def pad8_def)
  moreover have "out \<noteq> []"
    using out(1) by auto
  ultimately have "unpack_action (cofaction_set_field_length set_field_new) (\<lambda>_. Act_set_field set_field_new) out (new_action C_set_field v) =
      (\<lparr>act_version = v, act_type = t, act_len = word_of_nat (length out), act_body = Act_set_field set_field_new\<rparr>, None)"
    using unpack_action_ok [of "cofaction_set_field_length set_field_new" "new_action C_set_field v" 8 out t "word_of_nat (length out)"]
      out hdr v by (auto simp: new_action_def)
  moreover have "act_body (new_action C_set_field v) = Act_set_field set_field_new"
    by (simp add: new_action_def)
  ultimately show ?thesis
    using n i ty un \<open>out \<noteq> []\<close> by (simp add: action_unpack_def cofaction_set_field_unpack_def Let_def)
qed

lemma set_field_roundtrip:
  assumes body: "act_body a = Act_set_field sf" and ok: "set_field_ok sf"
    and n: "action_length a = Inr n" "n < 2 ^ 16" "length buf = n"
  shows "\<exists>a1 out. action_pack a buf = (a1, Inr out) \<and> length out = n \<and>
    action_unpack out (new_action C_set_field (act_version a)) =
      (\<lparr>act_version = act_version a, act_type = act_type a, act_len = word_of_nat n,
        act_body = Act_set_field (set_field_received sf)\<rparr>, None)"
proof -
  let ?t = "sf_type sf"
  obtain m where m: "sf_member ?t sf = Some m" "coxmatch_ok m"
    and cls: "get_oxm_class (coxmatch_id m) \<in> (if ?t = OXM_TYPE_EXP then {0xffff} else {0x8000, 0x8001})"
    using ok by (auto simp: set_field_ok_def split: option.splits)
  have v: "act_version a \<in> {3, 4}" and len: "cofaction_set_field_length sf (act_version a) = Inr n"
    using n(1) body by (auto simp: action_length_def cofaction_set_field_length_def of12_size_def split: if_splits)
  obtain l where l: "coxmatch_length m = Inr l" "n = pad8 (4 + l)"
    using len m(1) v by (auto simp: cofaction_set_field_length_def of12_size_def rbind_Inr_iff)
  obtain m' bytes where pack: "coxmatch_pack l m = (m', Inr bytes)"
    using coxmatch_pack_total [OF l(1)] by blast
  obtain m0 mc where m0: "sf_member ?t set_field_new = Some m0" "coxmatch_canon m0 m = Some mc"
    using set_field_new_member [OF m(1)] by blast
  have n8: "8 \<le> n"
    by (rule action_length_bound(1) [OF n(1)])
  let ?h = "action_header a n buf"
  have room: "4 + l \<le> length ?h"
    using pad8_ge [of "4 + l"] l(2) n(3) n8 by simp
  note el = packed_element [OF m(2) l(1) pack room refl]
  have packed: "\<exists>a1. action_pack a buf = (a1, Inr (put_at 4 bytes ?h))"
    using body m(1) l(1) pack n8 n(3) v len
    by (auto simp: action_pack_def cofaction_set_field_pack_def pack_action_ok)
  have "action_unpack (put_at 4 bytes ?h) (new_action C_set_field (act_version a)) =
      (\<lparr>act_version = act_version a, act_type = act_type a, act_len = word_of_nat (length (put_at 4 bytes ?h)),
        act_body = Act_set_field (sf_store ?t mc set_field_new)\<rparr>, None)"
    using room n n8 el coxmatch_unpack_pack [OF m(2) m0(2) pack, of "[]"]
    by (intro set_field_unpacked [OF v _ _ _ _ el(4,5) _ set_field_pack_type [OF m(1,2) pack cls] m0(1)]) simp_all
  then show ?thesis
    using packed room n(3) n8 el(1) m0 m(1) by (auto simp: set_field_received_def)
qed

section \<open>Any class\<close>

text \<open>
  The members fit their fields: the port number of OpenFlow 1.0 has 16 bits.
\<close>

fun body_ok :: "u8 \<Rightarrow> action_body \<Rightarrow> bool" where
  "body_ok v (Act_output port max_len) \<longleftrightarrow> (v = 1 \<longrightarrow> unat port < 2 ^ 16)"
| "body_ok v (Act_set_dl_src mac) \<longleftrightarrow> length mac = 6"
| "body_ok v (Act_set_dl_dst mac) \<longleftrightarrow> length mac = 6"
| "body_ok v (Act_set_field sf) \<longleftrightarrow> set_field_ok sf"
| "body_ok v _ \<longleftrightarrow> True"

text \<open>
  What the receiver gets.  The padding of a vendor body is part of the body on the other side, and it is
  not written: it has what was in the buffer before.
\<close>

fun received_body :: "byte list \<Rightarrow> action_body \<Rightarrow> action_body" where
  "received_body buf (Act_vendor exp_id body) = Act_vendor exp_id (body @ drop (8 + length body) buf)"
| "received_body buf (Act_experimenter exp_id body) = Act_experimenter exp_id (body @ drop (8 + length body) buf)"
| "received_body buf (Act_set_field sf) = Act_set_field (set_field_received sf)"
| "received_body buf b = b"

definition received_action :: "byte list \<Rightarrow> cofaction \<Rightarrow> cofaction" where
  "received_action buf a =
     \<lparr>act_version = act_version a, act_type = act_type a, act_len = word_of_nat (length buf), act_body = received_body buf (act_body a)\<rparr>"

lemma ucast_port: "unat (port :: u32) < 2 ^ 16 \<Longrightarrow> ucast (ucast port :: u16) = port"
  by (simp add: word_unat_eq_iff unsigned_ucast_eq unsigned_take_bit_eq take_bit_nat_eq_self)

lemma unpack_action_sized:
  assumes "len (act_version a) = Inr n" "n \<le> length buf" "0 < n" "act_version a \<in> {1, 3, 4}" "4 \<le> (be_word (bytes_at 2 2 buf) :: u16)"
  shows "unpack_action len rd buf a =
    (a\<lparr>act_type := be_word (bytes_at 0 2 buf), act_len := be_word (bytes_at 2 2 buf), act_body := rd buf\<rparr>, None)"
proof -
  have "buf \<noteq> []"
    using assms(2,3) by auto
  with assms show ?thesis
    by (auto simp: unpack_action_def cofaction_unpack_def cofaction_length_def Let_def not_less)
qed

text \<open>A body behind the header, padded to a multiple of eight.\<close>

lemma drop_put_at [simp]:
  "i + length bs \<le> k \<Longrightarrow> i + length bs \<le> length buf \<Longrightarrow> drop k (put_at i bs buf) = drop k buf"
  by (simp add: put_at_def)

lemma drop_action_header [simp]: "4 \<le> k \<Longrightarrow> 4 \<le> length buf \<Longrightarrow> drop k (action_header a n buf) = drop k buf"
  by (simp add: action_header_def)

lemma put_at_Nil [simp]: "i + length bs \<le> length buf \<Longrightarrow> put_at i bs buf = [] \<longleftrightarrow> buf = []"
  by (metis length_0_conv length_put_at)

lemma action_header_Nil [simp]: "4 \<le> length buf \<Longrightarrow> action_header a n buf \<noteq> []"
  by (metis length_action_header list.size(3) not_numeral_le_zero)

lemma bytes_at_put_padded:
  "8 + length body \<le> length buf \<Longrightarrow> k = length buf - 8 \<Longrightarrow> bytes_at 8 k (put_at 8 body buf) = body @ drop (8 + length body) buf"
  by (simp add: bytes_at_def put_at_def)

lemmas body_classes = cofaction_vendor_length_def cofaction_vendor_pack_def cofaction_vendor_unpack_def
  cofaction_experimenter_length_def cofaction_experimenter_pack_def cofaction_experimenter_unpack_def

lemma body_roundtrip:
  assumes n: "action_length a = Inr n" "n < 2 ^ 16" "length buf = n"
    and body: "act_body a \<in> {Act_vendor i body, Act_experimenter i body}"
    and l: "4 \<le> (word_of_nat n :: u16)" "unat (word_of_nat n :: u16) = n"
  shows "\<exists>a1 out. action_pack a buf = (a1, Inr out) \<and> length out = n \<and>
    action_unpack out (new_action (body_class (act_body a)) (act_version a)) = (received_action buf a, None)"
proof -
  have pad: "n = pad8 (8 + length body)"
    using n(1) body by (auto simp: action_length_def body_classes of10_size_def of12_size_def split: if_splits)
  have bound: "8 + length body \<le> n" "8 \<le> n" "0 < n" "n \<le> 8 \<longleftrightarrow> body = []"
    using pad pad8_ge [of "8 + length body"] by (auto simp: pad8_def)
  have "buf \<noteq> []" "pad8 8 = 8"
    using bound(3) n(3) by (auto simp: pad8_def)
  moreover have "pack_action len [(4, be_bytes 4 i), (8, body)] a buf =
      (a\<lparr>act_len := word_of_nat n\<rparr>, Inr (put_at 8 body (put_at 4 (be_bytes 4 i) (action_header a n buf))))"
    if "len (act_version a) = Inr n" for len
    using pack_action_ok [of len a n buf] that n(3) bound(3) action_length_bound(2) [OF n(1)] by simp
  ultimately show ?thesis
    using n body l bound pad
    by (elim insertE emptyE)
      (auto simp: action_length_def action_pack_def action_unpack_def body_classes of10_size_def of12_size_def
        unpack_action_sized new_action_def received_action_def bytes_at_put_padded split: if_splits)
qed

text \<open>The classes with members of fixed size.\<close>

lemma fixed_roundtrip:
  assumes n: "action_length a = Inr n" "n < 2 ^ 16" "length buf = n"
    and ok: "body_ok (act_version a) (act_body a)"
    and l: "4 \<le> (word_of_nat n :: u16)" "unat (word_of_nat n :: u16) = n"
    and other: "body_class (act_body a) \<notin> {C_vendor, C_experimenter, C_set_field}"
  shows "\<exists>a1 out. action_pack a buf = (a1, Inr out) \<and> length out = n \<and>
    action_unpack out (new_action (body_class (act_body a)) (act_version a)) = (received_action buf a, None)"
  using n ok l other action_length_bound [OF n(1)]
  by (cases "act_body a")
    (simp_all del: One_nat_def add: action_length_def action_pack_def action_unpack_def fixed_action_defs of10_size_def of12_size_def
      pack_action_ok unpack_action_sized new_action_def received_action_def ucast_port split: if_splits)

lemma action_wire_roundtrip:
  assumes n: "action_length a = Inr n" "n < 2 ^ 16" "length buf = n" and ok: "body_ok (act_version a) (act_body a)"
  shows "\<exists>a1 out. action_pack a buf = (a1, Inr out) \<and> length out = n \<and>
    action_unpack out (new_action (body_class (act_body a)) (act_version a)) = (received_action buf a, None)"
proof -
  have l: "unat (word_of_nat n :: u16) = n" "4 \<le> (word_of_nat n :: u16)"
    using n(2) action_length_bound(1) [OF n(1)] by (simp_all add: unat_of_nat_u16 word_le_nat_alt)
  consider sf where "act_body a = Act_set_field sf"
    | i body where "act_body a \<in> {Act_vendor i body, Act_experimenter i body}"
    | "body_class (act_body a) \<notin> {C_vendor, C_experimenter, C_set_field}"
    by (cases "act_body a") auto
  then show ?thesis
  proof cases
    case 1
    then show ?thesis
      using set_field_roundtrip [OF 1 _ n] ok n(3) by (simp add: received_action_def)
  next
    case 2
    then show ?thesis
      by (rule body_roundtrip [OF n _ l(2,1)])
  next
    case 3
    then show ?thesis
      by (rule fixed_roundtrip [OF n ok l(2,1)])
  qed
qed

end
