(* ===== verification/Cofactions.thy ===== *)
theory Cofactions
  imports Cofaction_Wire
begin

text \<open>
  Lists of actions (\<open>cofactions.h\<close>, \<open>cofactions.cc\<close>): two maps, one from indices to action objects and
  one from indices to type codes.  The accessors of the 29 classes differ in the class, its type code and
  the versions that know it; here the class is an argument.
\<close>

section \<open>State\<close>

record cofactions =
  cas_version :: u8
  cas_actions :: "(u32 \<times> cofaction) list"
  cas_index :: "(u32 \<times> u32) list"

definition cofactions_new :: "u8 \<Rightarrow> cofactions" where
  "cofactions_new v = \<lparr>cas_version = v, cas_actions = [], cas_index = []\<rparr>"

definition cofactions_clear :: "cofactions \<Rightarrow> cofactions" where
  "cofactions_clear s = s\<lparr>cas_actions := [], cas_index := []\<rparr>"

definition cofactions_set_version :: "u8 \<Rightarrow> cofactions \<Rightarrow> cofactions" where
  "cofactions_set_version v s =
     s\<lparr>cas_version := v, cas_actions := map (\<lambda>(i, a). (i, a\<lparr>act_version := v\<rparr>)) (cas_actions s)\<rparr>"

definition type_code :: "action_class \<Rightarrow> u32" where
  "type_code c = ucast (class_type c)"

text \<open>The check of the version in \<open>add_action_\<close> and \<open>set_action_\<close>; the one for output has none.\<close>

definition of10_classes :: "action_class set" where
  "of10_classes = {C_set_vlan_vid, C_set_vlan_pcp, C_strip_vlan, C_set_dl_src, C_set_dl_dst, C_set_nw_src, C_set_nw_dst,
     C_set_nw_tos, C_set_tp_src, C_set_tp_dst, C_enqueue, C_vendor}"

definition version_allows :: "action_class \<Rightarrow> u8 \<Rightarrow> bool" where
  "version_allows c v \<longleftrightarrow>
     (if c = C_output then True
      else if c \<in> of10_classes then v = 1
      else if c \<in> {C_push_pbb, C_pop_pbb} then 4 \<le> v
      else 3 \<le> v)"

section \<open>Accessors\<close>

definition put_action :: "u32 \<Rightarrow> cofaction \<Rightarrow> cofactions \<Rightarrow> cofactions" where
  "put_action i a s = s\<lparr>cas_actions := map_put i a (cas_actions s)\<rparr>"

text \<open>\<open>add_action_\<close> and \<open>set_action_\<close> return a reference to the object: the caller changes it there.\<close>

definition add_action :: "action_class \<Rightarrow> u32 \<Rightarrow> cofactions \<Rightarrow> cofactions \<times> cofaction result" where
  "add_action c i s =
     (if \<not> version_allows c (cas_version s) then (s, Inl EBadVersion)
      else let a = new_action c (cas_version s)
           in ((put_action i a s)\<lparr>cas_index := map_put i (type_code c) (cas_index s)\<rparr>, Inr a))"

definition cast_action :: "action_class \<Rightarrow> cofaction \<Rightarrow> cofaction result" where
  "cast_action c a = (if body_class (act_body a) = c then Inr a else Inl EBadCast)"

definition set_action :: "action_class \<Rightarrow> u32 \<Rightarrow> cofactions \<Rightarrow> cofactions \<times> cofaction result" where
  "set_action c i s =
     (if \<not> version_allows c (cas_version s) then (s, Inl EBadVersion)
      else case map_of (cas_index s) i of
        None \<Rightarrow> let a = new_action c (cas_version s)
                in ((put_action i a s)\<lparr>cas_index := map_put i (type_code c) (cas_index s)\<rparr>, Inr a)
      | Some t \<Rightarrow>
          (case map_of (cas_actions s) i of
             None \<Rightarrow> (s, Inl ENullPointer)
           | Some a \<Rightarrow>
               if c = C_output \<and> act_type a \<noteq> class_type c then (s, Inl EInvalid) else (s, cast_action c a)))"

definition get_action :: "action_class \<Rightarrow> u32 \<Rightarrow> cofactions \<Rightarrow> cofaction result" where
  "get_action c i s =
     (case map_of (cas_index s) i of
        None \<Rightarrow> Inl EActionNotFound
      | Some t \<Rightarrow>
          if t \<noteq> type_code c then Inl EActionNotFound
          else (case map_of (cas_actions s) i of None \<Rightarrow> Inl EOutOfRange | Some a \<Rightarrow> cast_action c a))"

definition drop_action :: "u32 \<Rightarrow> cofactions \<Rightarrow> cofactions" where
  "drop_action i s =
     (if map_of (cas_index s) i = None then s
      else s\<lparr>cas_actions := map_erase i (cas_actions s), cas_index := map_erase i (cas_index s)\<rparr>)"

text \<open>The comparison uses \<open>operator[]\<close>: an index that is not there is entered, with type code zero.\<close>

definition drop_action_of :: "action_class \<Rightarrow> u32 \<Rightarrow> cofactions \<Rightarrow> cofactions outcome" where
  "drop_action_of c i s =
     (let s1 = (case map_of (cas_index s) i of None \<Rightarrow> s\<lparr>cas_index := map_put i 0 (cas_index s)\<rparr> | Some _ \<Rightarrow> s)
      in if the (map_of (cas_index s1) i) \<noteq> type_code c then (s1, Some EActionInvalType) else (drop_action i s1, None))"

definition has_action :: "u32 \<Rightarrow> cofactions \<Rightarrow> bool" where
  "has_action i s \<longleftrightarrow> map_of (cas_index s) i \<noteq> None"

definition has_action_of :: "action_class \<Rightarrow> u32 \<Rightarrow> cofactions \<Rightarrow> bool" where
  "has_action_of c i s \<longleftrightarrow> map_of (cas_index s) i = Some (type_code c)"

text \<open>\<open>operator==\<close>: the comparison is commented out.\<close>

definition cofactions_eq :: "cofactions \<Rightarrow> cofactions \<Rightarrow> bool" where
  "cofactions_eq s s' \<longleftrightarrow> True"

section \<open>Queries\<close>

definition count_action_type :: "u16 \<Rightarrow> cofactions \<Rightarrow> nat" where
  "count_action_type t s = length (filter (\<lambda>(i, a). act_type a = t) (cas_actions s))"

text \<open>The ports of the output actions; an object of another class with that type code is passed over.\<close>

definition output_port :: "cofaction \<Rightarrow> u32 option" where
  "output_port a =
     (if act_type a \<noteq> class_type C_output then None
      else case act_body a of Act_output port max_len \<Rightarrow> Some port | _ \<Rightarrow> None)"

definition count_action_output :: "u32 \<Rightarrow> cofactions \<Rightarrow> nat" where
  "count_action_output port s =
     length (filter (\<lambda>(i, a). case output_port a of None \<Rightarrow> False | Some p \<Rightarrow> port = 0 \<or> p = port) (cas_actions s))"

definition actions_output_ports :: "cofactions \<Rightarrow> u32 list" where
  "actions_output_ports s = List.map_filter (\<lambda>(i, a). output_port a) (cas_actions s)"

fun check_each_action :: "(u32 \<times> cofaction) list \<Rightarrow> rofl_exn option" where
  "check_each_action [] = None"
| "check_each_action ((i, a) # as) =
     (case action_check_prerequisites a of Some e \<Rightarrow> Some e | None \<Rightarrow> check_each_action as)"

definition cofactions_check_prerequisites :: "cofactions \<Rightarrow> rofl_exn option" where
  "cofactions_check_prerequisites s = check_each_action (cas_actions s)"

section \<open>Wire format\<close>

fun actions_length :: "(u32 \<times> cofaction) list \<Rightarrow> nat result" where
  "actions_length [] = Inr 0"
| "actions_length ((i, a) # as) = rbind (action_length a) (\<lambda>n. rbind (actions_length as) (\<lambda>m. Inr (n + m)))"

definition cofactions_length :: "cofactions \<Rightarrow> nat result" where
  "cofactions_length s = actions_length (cas_actions s)"

text \<open>Every action gets the next \<open>length()\<close> bytes of the buffer.\<close>

fun pack_actions :: "byte list \<Rightarrow> (u32 \<times> cofaction) list \<Rightarrow> (u32 \<times> cofaction) list \<times> byte list result" where
  "pack_actions buf [] = ([], Inr buf)"
| "pack_actions buf ((i, a) # as) =
     (case action_length a of
        Inl e \<Rightarrow> ((i, a) # as, Inl e)
      | Inr n \<Rightarrow>
          (case action_pack a (take n buf) of
             (a', Inl e) \<Rightarrow> ((i, a') # as, Inl e)
           | (a', Inr bytes) \<Rightarrow>
               (case pack_actions (drop n buf) as of
                  (as', Inl e) \<Rightarrow> ((i, a') # as', Inl e)
                | (as', Inr rest) \<Rightarrow> ((i, a') # as', Inr (bytes @ rest)))))"

definition cofactions_pack :: "byte list \<Rightarrow> cofactions \<Rightarrow> cofactions \<times> byte list result" where
  "cofactions_pack buf s =
     (if buf = [] then (s, Inr buf)
      else case cofactions_length s of
        Inl e \<Rightarrow> (s, Inl e)
      | Inr n \<Rightarrow>
          if length buf < n then (s, Inl EInvalid)
          else (case pack_actions buf (cas_actions s) of (as, r) \<Rightarrow> (s\<lparr>cas_actions := as\<rparr>, r)))"

text \<open>The \<open>switch\<close> on the type code.\<close>

definition wire_class :: "u8 \<Rightarrow> u16 \<Rightarrow> action_class option" where
  "wire_class v t =
     (if t = 11 then Some (if v = 1 then C_enqueue else C_copy_ttl_out)
      else if t = 0xffff then Some (if v = 1 then C_vendor else C_experimenter)
      else find (\<lambda>c. class_type c = t)
        [C_output, C_set_vlan_vid, C_set_vlan_pcp, C_strip_vlan, C_set_dl_src, C_set_dl_dst, C_set_nw_src, C_set_nw_dst,
         C_set_nw_tos, C_set_tp_src, C_set_tp_dst, C_copy_ttl_in, C_set_mpls_ttl, C_dec_mpls_ttl, C_push_vlan, C_pop_vlan,
         C_push_mpls, C_pop_mpls, C_set_queue, C_group, C_set_nw_ttl, C_dec_nw_ttl, C_set_field, C_push_pbb, C_pop_pbb])"

text \<open>\<open>add_action_\<dots>(index++).unpack(buf, len)\<close>; an unknown type is reported and passed over.\<close>

definition unpack_one_action :: "byte list \<Rightarrow> u32 \<Rightarrow> cofactions \<Rightarrow> (u32 \<times> cofactions) outcome" where
  "unpack_one_action buf i s =
     (case wire_class (cas_version s) (be_word (bytes_at 0 2 buf)) of
        None \<Rightarrow> ((i, s), None)
      | Some c \<Rightarrow>
          (case add_action c i s of
             (s1, Inl e) \<Rightarrow> ((i + 1, s1), Some e)
           | (s1, Inr a) \<Rightarrow> (case action_unpack buf a of (a', e) \<Rightarrow> ((i + 1, put_action i a' s1), e))))"

function unpack_actions :: "byte list \<Rightarrow> u32 \<Rightarrow> cofactions \<Rightarrow> cofactions outcome" where
  "unpack_actions buf i s =
     (if length buf < 8 then (s, None)
      else let len = unat (be_word (bytes_at 2 2 buf) :: u16)
           in if len < 8 then (s, None)
              else if length buf < len then (s, Some EBadActionBadLen)
              else (case unpack_one_action (take len buf) i s of
                  ((_, s1), Some e) \<Rightarrow> (s1, Some e)
                | ((j, s1), None) \<Rightarrow> unpack_actions (drop len buf) j s1))"
  by pat_completeness auto

termination unpack_actions
  by (relation "measure (\<lambda>(buf, i, s). length buf)") auto

declare unpack_actions.simps [simp del]

definition cofactions_unpack :: "byte list \<Rightarrow> cofactions \<Rightarrow> cofactions outcome" where
  "cofactions_unpack buf s =
     (if buf = [] then (s, None)
      else if length buf < 8 then (cofactions_clear s, Some EInvalid)
      else unpack_actions buf 0 (cofactions_clear s))"

section \<open>Assignment\<close>

text \<open>\<open>operator=\<close> looks up every entry of the index of the other list by the class of its type code.\<close>

fun copy_actions :: "(u32 \<times> u32) list \<Rightarrow> cofactions \<Rightarrow> cofactions \<Rightarrow> cofactions outcome" where
  "copy_actions [] src s = (s, None)"
| "copy_actions ((i, t) # rest) src s =
     (case (if t < 0x10000 then wire_class (cas_version s) (ucast t) else None) of
        None \<Rightarrow> copy_actions rest src s
      | Some c \<Rightarrow>
          (case get_action c i src of
             Inl e \<Rightarrow> (s, Some e)
           | Inr a \<Rightarrow>
               (case add_action c i s of
                  (s1, Inl e) \<Rightarrow> (s1, Some e)
                | (s1, Inr _) \<Rightarrow> copy_actions rest src (put_action i a s1))))"

definition cofactions_assign :: "cofactions \<Rightarrow> cofactions \<Rightarrow> cofactions outcome" where
  "cofactions_assign dst src =
     copy_actions (cas_index src) src (cofactions_clear (dst\<lparr>cas_version := cas_version src\<rparr>))"

end
