(* ===== verification/Cofactions_Laws.thy ===== *)
theory Cofactions_Laws
  imports Cofactions
begin

text \<open>
  What lists of actions promise: the two maps agree, whatever the bytes are that a list was read from; a
  list that is packed comes back action by action; a copy equals its source.  Dropping an action that is
  not there breaks the agreement.
\<close>

section \<open>Unpacking one action\<close>

lemma unpack_action_facts:
  assumes "unpack_action len rd buf a = (a', e)"
  shows "act_version a' = act_version a"
    and "act_type a' \<in> {act_type a, be_word (bytes_at 0 2 buf)}"
    and "act_body a' \<in> {act_body a, rd buf}"
    and "e \<in> {None, Some EInvalid, Some EBadVersion, Some EBadActionBadLen} \<union> (case len (act_version a) of Inl x \<Rightarrow> {Some x} | Inr n \<Rightarrow> {})"
    and "buf \<noteq> [] \<Longrightarrow> e = None \<Longrightarrow> act_type a' = be_word (bytes_at 0 2 buf) \<and> act_len a' = be_word (bytes_at 2 2 buf)"
  using assms by (auto simp: unpack_action_def cofaction_unpack_def cofaction_length_def Let_def split: if_splits sum.splits)

lemma coxmatch_unpack_errors: "snd (coxmatch_unpack buf m) \<in> {None, Some EOxmBadLen, Some ESysCall}"
  by (cases m) (auto simp: coxmatch_class_defs oxm_unpack_def coxmatch_header_unpack_def exp_unpack_def Let_def
      split: prod.splits option.splits if_splits)

definition unpack_errors :: "rofl_exn set" where
  "unpack_errors = {EInvalid, EBadVersion, EBadActionBadLen, EOxmBadLen, ESysCall}"

lemma unpack_errors_mem [simp]: "EInvalid \<in> unpack_errors" "EBadVersion \<in> unpack_errors" "EBadActionBadLen \<in> unpack_errors"
  "EOutOfBoundsRead \<notin> unpack_errors"
  by (simp_all add: unpack_errors_def)

text \<open>How an object, its outcome and the bytes it was read from are related.\<close>

definition unpacked :: "byte list \<Rightarrow> cofaction \<Rightarrow> cofaction outcome \<Rightarrow> bool" where
  "unpacked buf a r \<longleftrightarrow>
     (let a' = fst r
      in act_version a' = act_version a \<and> body_class (act_body a') = body_class (act_body a) \<and>
         act_type a' \<in> {act_type a, be_word (bytes_at 0 2 buf)} \<and>
         (case snd r of
            None \<Rightarrow> buf \<noteq> [] \<longrightarrow> act_type a' = be_word (bytes_at 0 2 buf) \<and> act_len a' = be_word (bytes_at 2 2 buf)
          | Some e \<Rightarrow> unat (be_word (bytes_at 2 2 buf) :: u16) \<le> length buf \<longrightarrow> e \<in> unpack_errors))"

lemma unpacked_class:
  assumes "\<And>x. body_class (rd x) = body_class (act_body a)" "\<And>e. len (act_version a) = Inl e \<Longrightarrow> e \<in> unpack_errors"
  shows "unpacked buf a (unpack_action len rd buf a)"
  using unpack_action_facts [of len rd buf a] assms
  by (cases "unpack_action len rd buf a") (fastforce simp: unpacked_def Let_def unpack_errors_def split: option.splits sum.splits)

lemma size_errors: "of10_size n v = Inl e \<Longrightarrow> e \<in> unpack_errors" "of12_size n v = Inl e \<Longrightarrow> e \<in> unpack_errors"
  "cofaction_output_length v = Inl e \<Longrightarrow> e \<in> unpack_errors"
  by (auto simp: of10_size_def of12_size_def cofaction_output_length_def unpack_errors_def split: if_splits)

lemma unpacked_fixed:
  assumes "body_class (act_body a) \<notin> {C_vendor, C_experimenter, C_set_field}"
  shows "unpacked buf a (action_unpack buf a)"
proof (cases "act_body a")
  case (Act_output port max_len)
  then show ?thesis
    by (auto simp: action_unpack_def cofaction_output_unpack_def intro!: unpacked_class dest: size_errors(3))
qed (use assms in \<open>simp_all del: One_nat_def add: action_unpack_def fixed_action_defs unpacked_class size_errors\<close>)

lemma unpacked_trans:
  assumes "unpacked buf a (a1, None)" "buf \<noteq> []"
    and "act_version a2 = act_version a1" "act_type a2 = act_type a1" "act_len a2 = act_len a1"
    and "body_class (act_body a2) = body_class (act_body a1)"
    and "\<And>x. e = Some x \<Longrightarrow> unat (be_word (bytes_at 2 2 buf) :: u16) \<le> length buf \<Longrightarrow> x \<in> unpack_errors"
  shows "unpacked buf a (a2, e)"
  using assms by (auto simp: unpacked_def Let_def split: option.splits)

lemma unpacked_same [simp]: "unpacked [] a (a, None)"
  by (simp add: unpacked_def Let_def)

lemma unpacked_vendor:
  assumes "act_body a = Act_vendor i body"
  shows "unpacked buf a (action_unpack buf a)"
proof -
  let ?r = "unpack_action (cofaction_vendor_length []) (\<lambda>buf. Act_vendor (be_word (bytes_at 4 4 buf)) []) buf (a\<lparr>act_body := Act_vendor i []\<rparr>)"
  have "unpacked buf (a\<lparr>act_body := Act_vendor i []\<rparr>) ?r"
    by (rule unpacked_class) (simp_all add: cofaction_vendor_length_def size_errors)
  then have r: "unpacked buf a ?r"
    using assms by (simp add: unpacked_def Let_def)
  obtain a1 e where a1: "?r = (a1, e)"
    by (cases ?r)
  show ?thesis
  proof (cases "buf = []")
    case True
    then show ?thesis
      using assms by (simp add: action_unpack_def cofaction_vendor_unpack_def)
  next
    case False
    have "unat (act_len a1) = unat (be_word (bytes_at 2 2 buf) :: u16) \<and> body_class (act_body a1) = C_vendor" if "e = None"
      using r a1 that False assms by (auto simp: unpacked_def Let_def)
    then show ?thesis
      using r a1 assms False
      by (auto simp: action_unpack_def cofaction_vendor_unpack_def split: option.split intro!: unpacked_trans [of buf a a1])
  qed
qed

lemma unpacked_experimenter:
  assumes "act_body a = Act_experimenter i body"
  shows "unpacked buf a (action_unpack buf a)"
proof -
  let ?r = "unpack_action (cofaction_experimenter_length []) (\<lambda>buf. Act_experimenter (be_word (bytes_at 4 4 buf)) []) buf
    (a\<lparr>act_body := Act_experimenter i []\<rparr>)"
  have "unpacked buf (a\<lparr>act_body := Act_experimenter i []\<rparr>) ?r"
    by (rule unpacked_class) (simp_all add: cofaction_experimenter_length_def size_errors)
  then have r: "unpacked buf a ?r"
    using assms by (simp add: unpacked_def Let_def)
  obtain a1 e where a1: "?r = (a1, e)"
    by (cases ?r)
  show ?thesis
  proof (cases "buf = []")
    case True
    then show ?thesis
      using assms by (simp add: action_unpack_def cofaction_experimenter_unpack_def)
  next
    case False
    have "body_class (act_body a1) = C_experimenter"
      using r a1 assms by (auto simp: unpacked_def Let_def)
    then show ?thesis
      using r a1 assms False
      by (auto simp: action_unpack_def cofaction_experimenter_unpack_def split: option.split
          intro!: unpacked_trans [of buf a a1])
  qed
qed

lemma unpacked_set_field:
  assumes "act_body a = Act_set_field sf" "\<And>e. cofaction_set_field_length sf (act_version a) = Inl e \<Longrightarrow> e \<in> unpack_errors"
  shows "unpacked buf a (action_unpack buf a)"
proof -
  let ?r = "unpack_action (cofaction_set_field_length sf) (\<lambda>_. act_body a) buf a"
  have r: "unpacked buf a ?r"
    using assms(2) by (intro unpacked_class) simp_all
  obtain a1 e where a1: "?r = (a1, e)"
    by (cases ?r)
  have body: "act_body a1 = Act_set_field sf"
    using unpack_action_facts(3) [OF a1] assms(1) by simp
  have err: "e' \<in> unpack_errors" if "coxmatch_unpack b m = (m', Some e')" for b m m' e'
    using coxmatch_unpack_errors [of b m] that by (auto simp: unpack_errors_def)
  show ?thesis
  proof (cases "buf = []")
    case True
    then show ?thesis
      using assms by (simp add: action_unpack_def cofaction_set_field_unpack_def)
  next
    case False
    then show ?thesis
      using r a1 assms(1) body
      by (auto simp: action_unpack_def cofaction_set_field_unpack_def Let_def
          split: option.split prod.split intro!: unpacked_trans [of buf a a1] dest: err)
  qed
qed

lemma unpacked_new: "unpacked buf (new_action c v) (action_unpack buf (new_action c v))"
proof -
  let ?a = "new_action c v"
  consider sf where "act_body ?a = Act_set_field sf" "sf = set_field_new"
    | i body where "act_body ?a \<in> {Act_vendor i body, Act_experimenter i body}"
    | "body_class (act_body ?a) \<notin> {C_vendor, C_experimenter, C_set_field}"
    by (cases "act_body ?a"; cases c) (auto simp: new_action_def)
  then show ?thesis
  proof cases
    case 1
    then show ?thesis
      by (intro unpacked_set_field [OF 1(1)])
        (auto simp: cofaction_set_field_length_def of12_size_def set_field_new_def rbind_def split: if_splits)
  qed (auto intro: unpacked_vendor unpacked_experimenter unpacked_fixed)
qed

section \<open>The two maps agree\<close>

definition action_wf :: "u8 \<Rightarrow> cofaction \<Rightarrow> bool" where
  "action_wf v a \<longleftrightarrow>
     act_version a = v \<and> version_allows (body_class (act_body a)) v \<and> act_type a = class_type (body_class (act_body a))"

definition cofactions_wf :: "cofactions \<Rightarrow> bool" where
  "cofactions_wf s \<longleftrightarrow>
     map_wf (cas_actions s) \<and> (\<forall>(i, a) \<in> set (cas_actions s). action_wf (cas_version s) a) \<and>
     cas_index s = map (\<lambda>(i, a). (i, ucast (act_type a))) (cas_actions s)"

lemma map_put_map: "map (\<lambda>(i, a). (i, f a)) (map_put k v m) = map_put k (f v) (map (\<lambda>(i, a). (i, f a)) m)"
  by (induction m) auto

lemma map_erase_map: "map (\<lambda>(i, a). (i, f a)) (map_erase k m) = map_erase k (map (\<lambda>(i, a). (i, f a)) m)"
  by (induction m) (auto simp: map_erase_def)

lemma set_map_put_subset: "set (map_put k v m) \<subseteq> insert (k, v) (set m)"
proof (induction m)
  case (Cons x m)
  then show ?case by (cases x) auto
qed simp

lemma set_map_erase: "set (map_erase k m) \<subseteq> set m"
  by (auto simp: map_erase_def)

lemma body_class_default [simp]: "body_class (class_default c) = c"
  by (cases c) auto

lemma new_action_wf: "version_allows c v \<Longrightarrow> action_wf v (new_action c v)"
  by (simp add: action_wf_def new_action_def)

lemma cofactions_wf_empty [simp]: "cofactions_wf (cofactions_new v)" "cofactions_wf (cofactions_clear s)"
  by (simp_all add: cofactions_wf_def cofactions_new_def cofactions_clear_def)

text \<open>Storing an object under an index, with its type code.\<close>

definition enter_action :: "u32 \<Rightarrow> cofaction \<Rightarrow> cofactions \<Rightarrow> cofactions" where
  "enter_action i a s = (put_action i a s)\<lparr>cas_index := map_put i (ucast (act_type a)) (cas_index s)\<rparr>"

lemma enter_action_version [simp]: "cas_version (enter_action i a s) = cas_version s"
  by (simp add: enter_action_def put_action_def)

lemma enter_action_wf: "cofactions_wf s \<Longrightarrow> action_wf (cas_version s) a \<Longrightarrow> cofactions_wf (enter_action i a s)"
  using set_map_put_subset by (fastforce simp: cofactions_wf_def enter_action_def put_action_def map_put_map map_wf_put)

lemma map_put_twice: "map_put k w (map_put k v m) = map_put k w m"
  by (induction m) auto

lemma put_enter_action: "act_type a' = act_type a \<Longrightarrow> put_action i a' (enter_action i a s) = enter_action i a' s"
  by (simp add: enter_action_def put_action_def map_put_twice)

lemma add_action_enter:
  "add_action c i s =
     (if version_allows c (cas_version s)
      then (enter_action i (new_action c (cas_version s)) s, Inr (new_action c (cas_version s))) else (s, Inl EBadVersion))"
  by (simp add: add_action_def enter_action_def type_code_def new_action_def Let_def)

lemma wire_class_type: "wire_class v t = Some c \<Longrightarrow> class_type c = t"
  by (auto simp: wire_class_def find_Some_iff split: if_splits)

lemma bytes_at_take: "i + n \<le> k \<Longrightarrow> bytes_at i n (take k buf) = bytes_at i n buf"
  by (simp add: bytes_at_def drop_take)

lemma unpack_one_action_wf:
  assumes "unpack_one_action buf i s = ((j, s1), e)" "cofactions_wf s" "buf \<noteq> []"
  shows "cofactions_wf s1" "cas_version s1 = cas_version s"
    and "unat (be_word (bytes_at 2 2 buf) :: u16) \<le> length buf \<Longrightarrow> e \<in> {None} \<union> Some ` unpack_errors"
proof -
  have "cofactions_wf s1 \<and> cas_version s1 = cas_version s \<and>
    (unat (be_word (bytes_at 2 2 buf) :: u16) \<le> length buf \<longrightarrow> e \<in> {None} \<union> Some ` unpack_errors)"
  proof (cases "wire_class (cas_version s) (be_word (bytes_at 0 2 buf))")
    case (Some c)
    let ?v = "cas_version s"
    obtain a' e' where un: "action_unpack buf (new_action c ?v) = (a', e')"
      by (cases "action_unpack buf (new_action c ?v)")
    have u: "unpacked buf (new_action c ?v) (a', e')"
      using unpacked_new [of buf c ?v] un by simp
    have ty: "act_type a' = class_type c" "body_class (act_body a') = c" "act_version a' = ?v"
      using u wire_class_type [OF Some] by (auto simp: unpacked_def Let_def new_action_def)
    then have "version_allows c ?v \<Longrightarrow> action_wf ?v a'"
      by (simp add: action_wf_def)
    then show ?thesis
      using assms Some un u ty
      by (auto simp: unpack_one_action_def add_action_enter put_enter_action enter_action_wf new_action_def unpacked_def Let_def
          split: if_splits option.splits)
  qed (use assms in \<open>simp add: unpack_one_action_def\<close>)
  then show "cofactions_wf s1" "cas_version s1 = cas_version s"
    "unat (be_word (bytes_at 2 2 buf) :: u16) \<le> length buf \<Longrightarrow> e \<in> {None} \<union> Some ` unpack_errors"
    by auto
qed

lemma unpack_actions_wf:
  assumes "cofactions_wf s" "unpack_actions buf i s = (s', e)"
  shows "cofactions_wf s' \<and> e \<in> {None} \<union> Some ` unpack_errors"
  using assms
proof (induction buf i s rule: unpack_actions.induct)
  case (1 buf i s)
  let ?len = "unat (be_word (bytes_at 2 2 buf) :: u16)"
  consider "length buf < 8 \<or> ?len < 8" | "8 \<le> length buf" "8 \<le> ?len" "length buf < ?len" | "8 \<le> ?len" "?len \<le> length buf"
    by linarith
  then show ?case
  proof cases
    case 3
    obtain j s1 e1 where one: "unpack_one_action (take ?len buf) i s = ((j, s1), e1)"
      by (metis prod.collapse)
    have "take ?len buf \<noteq> []" "unat (be_word (bytes_at 2 2 (take ?len buf)) :: u16) \<le> length (take ?len buf)"
      using 3 by (auto simp: bytes_at_take)
    note wf = unpack_one_action_wf [OF one 1(2) this(1)] this(2)
    then show ?thesis
      using 1 3 one by (cases e1) (auto simp: unpack_actions.simps [of buf] Let_def)
  qed (use 1(2,3) in \<open>auto simp: unpack_actions.simps [of buf] Let_def split: if_splits\<close>)
qed

section \<open>Entering actions one after the other\<close>

fun enter_all :: "(u32 \<times> cofaction) list \<Rightarrow> cofactions \<Rightarrow> cofactions" where
  "enter_all [] s = s"
| "enter_all ((i, a) # as) s = enter_all as (enter_action i a s)"

fun indexed :: "u32 \<Rightarrow> 'a list \<Rightarrow> (u32 \<times> 'a) list" where
  "indexed i [] = []"
| "indexed i (a # as) = (i, a) # indexed (i + 1) as"

lemma map_snd_indexed [simp]: "map snd (indexed i as) = as"
  by (induction as arbitrary: i) auto

lemma enter_all_version [simp]: "cas_version (enter_all as s) = cas_version s"
  by (induction as s rule: enter_all.induct) auto

lemma enter_all_append:
  assumes "map_wf (cas_actions s @ as)" "cas_index s = map (\<lambda>(i, a). (i, ucast (act_type a))) (cas_actions s)"
  shows "enter_all as s =
    s\<lparr>cas_actions := cas_actions s @ as, cas_index := map (\<lambda>(i, a). (i, ucast (act_type a))) (cas_actions s @ as)\<rparr>"
  using assms
proof (induction as s rule: enter_all.induct)
  case (2 i a as s)
  have above: "\<forall>k \<in> fst ` set (cas_actions s). k < i"
    using 2(2) by (auto simp: map_wf_def sorted_wrt_append)
  have put: "map_put i a (cas_actions s) = cas_actions s @ [(i, a)]"
    "map_put i (ucast (act_type a) :: u32) (cas_index s) = cas_index s @ [(i, ucast (act_type a))]"
    using above by (auto intro!: map_put_above simp: 2(3) image_image case_prod_beta)
  then show ?case
    using 2 by (simp add: enter_action_def put_action_def)
qed simp

text \<open>Indices from zero: there are no more than \<open>2 ^ 32\<close>.\<close>

lemma indexed_from: "map fst (indexed (word_of_nat k) as) = map word_of_nat [k..<k + length as]"
proof (induction as arbitrary: k)
  case (Cons a as)
  have "(word_of_nat k :: u32) + 1 = word_of_nat (Suc k)"
    by (simp add: add.commute)
  moreover have "[k..<k + length (a # as)] = k # [Suc k..<Suc k + length as]"
    by (simp add: upt_conv_Cons del: upt_Suc)
  ultimately show ?case
    using Cons [of "Suc k"] by (simp del: upt_Suc of_nat_Suc)
qed simp

lemma indexed_wf:
  assumes "length as \<le> 2 ^ 32"
  shows "map_wf (indexed 0 as)"
proof -
  have "sorted_wrt (<) (map (word_of_nat :: nat \<Rightarrow> u32) [0..<length as])"
    using assms by (auto simp: sorted_wrt_map sorted_wrt_iff_nth_less word_less_nat_alt unsigned_of_nat take_bit_nat_eq_self)
  then show ?thesis
    using indexed_from [of 0 as] by (simp add: map_wf_def)
qed

lemma map_wf_length:
  assumes "map_wf (m :: ('w::len word \<times> 'v) list)"
  shows "length m \<le> 2 ^ LENGTH('w)"
proof -
  have "length m = card (set (map fst m))"
    using map_wf_distinct [OF assms] distinct_card [of "map fst m"] by simp
  also have "\<dots> \<le> card (UNIV :: 'w word set)"
    by (rule card_mono) auto
  finally show ?thesis
    by (simp add: card_word)
qed

section \<open>What is sent arrives\<close>

definition sendable :: "cofaction \<Rightarrow> bool" where
  "sendable a \<longleftrightarrow> body_ok (act_version a) (act_body a) \<and> (\<exists>n < 2 ^ 16. action_length a = Inr n)"

text \<open>Every action is received from the part of the buffer it was packed to.\<close>

fun received_actions :: "byte list \<Rightarrow> cofaction list \<Rightarrow> cofaction list" where
  "received_actions buf [] = []"
| "received_actions buf (a # as) =
     (let n = projr (action_length a) in received_action (take n buf) a # received_actions (drop n buf) as)"

lemma length_received_actions [simp]: "length (received_actions buf as) = length as"
  by (induction as arbitrary: buf) (auto simp: Let_def)

lemma received_body_class [simp]: "body_class (received_body buf b) = body_class b"
  by (cases b) auto

lemma received_action_wf [simp]: "action_wf v (received_action buf a) = action_wf v a"
  by (simp add: action_wf_def received_action_def)

lemma wire_class_of: "version_allows c v \<Longrightarrow> wire_class v (class_type c) = Some c"
  by (cases c; cases "v = 1") (auto simp: wire_class_def version_allows_def of10_classes_def word_le_nat_alt)

lemma send_one_action:
  assumes "action_wf (cas_version s) a" "sendable a" "action_length a = Inr n" "length buf = n"
  shows "\<exists>a1 out. action_pack a buf = (a1, Inr out) \<and> length out = n \<and> be_word (bytes_at 2 2 out) = (word_of_nat n :: u16) \<and>
    unpack_one_action out i s = ((i + 1, enter_action i (received_action buf a) s), None)"
proof -
  let ?c = "body_class (act_body a)" and ?v = "cas_version s"
  have n: "n < 2 ^ 16" "8 \<le> n"
    using assms(2,3) action_length_bound(1) by (auto simp: sendable_def)
  obtain a1 out where out: "action_pack a buf = (a1, Inr out)" "length out = n"
    "action_unpack out (new_action ?c (act_version a)) = (received_action buf a, None)"
    using action_wire_roundtrip [OF assms(3) n(1) assms(4)] assms(2) by (auto simp: sendable_def)
  have v: "act_version a = ?v" "version_allows ?c ?v" "act_type a = class_type ?c"
    using assms(1) by (auto simp: action_wf_def)
  have "out \<noteq> []"
    using out(2) n(2) by auto
  then have hdr: "be_word (bytes_at 0 2 out) = act_type a" "be_word (bytes_at 2 2 out) = (word_of_nat n :: u16)"
    using unpacked_new [of out ?c ?v] out(3) v(1) assms(4) by (auto simp: unpacked_def Let_def received_action_def)
  have "unpack_one_action out i s = ((i + 1, enter_action i (received_action buf a) s), None)"
    using hdr(1) v out(3)
    by (simp add: unpack_one_action_def wire_class_of add_action_enter put_enter_action received_action_def new_action_def)
  then show ?thesis
    using out(1,2) hdr(2) by blast
qed

lemma send_actions:
  assumes "list_all (\<lambda>(i, a). action_wf v a \<and> sendable a) as" "actions_length as = Inr n" "length buf = n"
  shows "\<exists>as1 out. pack_actions buf as = (as1, Inr out) \<and> length out = n \<and>
    (\<forall>i s. cas_version s = v \<longrightarrow>
       unpack_actions out i s = (enter_all (indexed i (received_actions buf (map snd as))) s, None))"
  using assms
proof (induction as arbitrary: buf n)
  case Nil
  then show ?case by (auto simp: unpack_actions.simps)
next
  case (Cons x as)
  obtain k a where x: "x = (k, a)"
    by (cases x)
  obtain l m where l: "action_length a = Inr l" "actions_length as = Inr m" "n = l + m"
    using Cons.prems(2) x by (auto simp: rbind_Inr_iff)
  have a: "action_wf v a" "sendable a" "8 \<le> l" "unat (word_of_nat l :: u16) = l"
    using Cons.prems(1) x l(1) action_length_bound(1) by (auto simp: sendable_def unat_of_nat_u16)
  obtain as1 rest where IH: "pack_actions (drop l buf) as = (as1, Inr rest)" "length rest = m"
    "\<And>i s. cas_version s = v \<Longrightarrow>
       unpack_actions rest i s = (enter_all (indexed i (received_actions (drop l buf) (map snd as))) s, None)"
    using Cons.IH [of m "drop l buf"] Cons.prems l by auto
  have len: "length (take l buf) = l"
    using Cons.prems(3) l(3) by simp
  obtain a1 out where one: "action_pack a (take l buf) = (a1, Inr out)" "length out = l"
    "be_word (bytes_at 2 2 out) = (word_of_nat l :: u16)"
    using send_one_action [OF _ a(2) l(1) len, of "cofactions_new v" 0] a(1) by (auto simp: cofactions_new_def)
  have step: "unpack_one_action out i s = ((i + 1, enter_action i (received_action (take l buf) a) s), None)"
    if "cas_version s = v" for i s
    using send_one_action [OF _ a(2) l(1) len, of s i] a(1) that one(1) by auto
  have "bytes_at 2 2 (out @ rest) = bytes_at 2 2 out"
    using one(2) a(3) by (simp add: bytes_at_def)
  then have "unpack_actions (out @ rest) i s = unpack_actions rest (i + 1) (enter_action i (received_action (take l buf) a) s)"
    if "cas_version s = v" for i s
    using one(2,3) a(3,4) step [OF that] by (simp add: unpack_actions.simps [of "out @ rest"])
  then show ?case
    using x l one(1,2) IH by (intro exI [of _ "(k, a1) # as1"] exI [of _ "out @ rest"]) (simp add: Let_def)
qed

section \<open>Copies\<close>

lemma cofactions_wf_lookup:
  assumes "cofactions_wf s"
  shows "map_of (cas_index s) i = map_option (\<lambda>a. ucast (act_type a)) (map_of (cas_actions s) i)"
  using assms by (simp add: cofactions_wf_def map_of_map)

lemma ucast_ucast_u16: "ucast (ucast (t :: u16) :: u32) = t" "ucast (t :: u16) < (0x10000 :: u32)"
proof -
  show "ucast (ucast t :: u32) = t"
    by (rule bit_word_eqI) (simp add: bit_simps)
  have "unat t < 2 ^ 16"
    using unsigned_less [of t] by simp
  then show "ucast t < (0x10000 :: u32)"
    by (simp add: word_less_nat_alt unsigned_ucast_eq take_bit_nat_eq_self)
qed

lemma copy_actions_upto:
  assumes "\<forall>(i, a) \<in> set as. action_wf (cas_version s) a \<and>
      map_of (cas_index src) i = Some (ucast (act_type a)) \<and> map_of (cas_actions src) i = Some a"
  shows "copy_actions (map (\<lambda>(i, a). (i, ucast (act_type a))) as @ rest) src s = copy_actions rest src (enter_all as s)"
  using assms
proof (induction as s rule: enter_all.induct)
  case (2 i a as s)
  let ?c = "body_class (act_body a)"
  have a: "action_wf (cas_version s) a" "map_of (cas_index src) i = Some (ucast (act_type a))" "map_of (cas_actions src) i = Some a"
    using 2(2) by auto
  then have ty: "act_type a = class_type ?c" "version_allows ?c (cas_version s)"
    by (auto simp: action_wf_def)
  then have "wire_class (cas_version s) (act_type a) = Some ?c" "get_action ?c i src = Inr a"
    using a(2,3) wire_class_of by (auto simp: get_action_def type_code_def cast_action_def)
  then show ?case
    using 2 ty by (simp add: ucast_ucast_u16 add_action_enter put_enter_action new_action_def)
qed simp

lemma copy_clear:
  assumes "cofactions_wf s"
  shows "enter_all (cas_actions s) (cofactions_clear (t\<lparr>cas_version := cas_version s\<rparr>)) = s"
  using assms by (subst enter_all_append) (simp_all add: cofactions_wf_def cofactions_clear_def)

lemma actions_wire:
  assumes "cofactions_wf s" "\<forall>(i, a) \<in> set (cas_actions s). sendable a" "cofactions_length s = Inr (length buf)"
    and "cas_actions s \<noteq> []" "cas_version s0 = cas_version s"
  shows "\<exists>s1 out s2. cofactions_pack buf s = (s1, Inr out) \<and> length out = length buf \<and>
    cofactions_unpack out s0 = (s2, None) \<and> cofactions_wf s2 \<and> cas_version s2 = cas_version s \<and>
    cas_actions s2 = indexed 0 (received_actions buf (map snd (cas_actions s)))"
proof -
  let ?as = "cas_actions s" and ?v = "cas_version s"
  let ?new = "indexed 0 (received_actions buf (map snd ?as))"
  have ok: "list_all (\<lambda>(i, a). action_wf ?v a \<and> sendable a) ?as"
    using assms(1,2) by (auto simp: cofactions_wf_def list_all_iff)
  obtain as1 out where out: "pack_actions buf ?as = (as1, Inr out)" "length out = length buf"
    "unpack_actions out 0 (cofactions_clear s0) = (enter_all ?new (cofactions_clear s0), None)"
    using send_actions [OF ok, of "length buf" buf] assms(3,5) by (auto simp: cofactions_length_def cofactions_clear_def)
  have "8 \<le> length buf"
    using assms(3,4) by (cases ?as) (fastforce simp: cofactions_length_def rbind_Inr_iff dest!: action_length_bound(1))+
  moreover have new: "cas_actions (enter_all ?new (cofactions_clear s0)) = ?new"
    using indexed_wf [of "received_actions buf (map snd ?as)"] map_wf_length [of ?as] assms(1)
    by (subst enter_all_append) (simp_all add: cofactions_wf_def cofactions_clear_def)
  ultimately have "cofactions_pack buf s = (s\<lparr>cas_actions := as1\<rparr>, Inr out)"
    "cofactions_unpack out s0 = (enter_all ?new (cofactions_clear s0), None)"
    using out assms(3) by (auto simp: cofactions_pack_def cofactions_unpack_def)
  moreover have "cofactions_wf (enter_all ?new (cofactions_clear s0))" "cas_version (enter_all ?new (cofactions_clear s0)) = ?v"
    using unpack_actions_wf [OF cofactions_wf_empty(2) out(3)] assms(5) by (auto simp: cofactions_clear_def)
  ultimately show ?thesis
    using out(2) new by blast
qed

section \<open>Properties\<close>

text \<open>
  C21: whatever bytes arrive, reading a list of actions ends, reads no byte beyond the buffer, throws only
  the exceptions of malformed actions, and leaves a list whose two maps agree and whose objects are
  actions of the negotiated version.
\<close>

theorem cofactions_unpack_safe:
  assumes "cofactions_wf s" "cofactions_unpack buf s = (s', e)"
  shows "cofactions_wf s' \<and> (\<forall>x. e = Some x \<longrightarrow> x \<in> unpack_errors) \<and> e \<noteq> Some EOutOfBoundsRead"
proof -
  have "cofactions_wf s' \<and> e \<in> {None} \<union> Some ` unpack_errors"
    using assms unpack_actions_wf [of "cofactions_clear s" buf 0 s' e]
    by (auto simp: cofactions_unpack_def split: if_splits)
  then show ?thesis
    by auto
qed

text \<open>
  C18: a list of actions arrives: every action is there, in order, as it was sent, numbered from zero.
  (Bodies of vendors and experimenters arrive with their padding.)
\<close>

theorem cofactions_roundtrip:
  assumes "cofactions_wf s" "cas_actions s \<noteq> []" "\<forall>(i, a) \<in> set (cas_actions s). sendable a"
    and "cofactions_length s = Inr (length buf)" "cas_version s0 = cas_version s"
  shows "\<exists>s1 out s2. cofactions_pack buf s = (s1, Inr out) \<and> length out = length buf \<and>
    cofactions_unpack out s0 = (s2, None) \<and> cofactions_wf s2 \<and>
    cas_actions s2 = indexed 0 (received_actions buf (map snd (cas_actions s)))"
  using actions_wire [OF assms(1,3,4,2,5)] by blast

text \<open>A copy of a list equals the list.\<close>

theorem cofactions_copy:
  assumes "cofactions_wf src"
  shows "cofactions_assign dst src = (src, None)"
proof -
  let ?s = "cofactions_clear (dst\<lparr>cas_version := cas_version src\<rparr>)"
  have all: "\<forall>(i, a) \<in> set (cas_actions src). action_wf (cas_version ?s) a \<and>
      map_of (cas_index src) i = Some (ucast (act_type a)) \<and> map_of (cas_actions src) i = Some a"
    using assms map_wf_distinct [of "cas_actions src"]
    by (auto simp: cofactions_wf_def cofactions_clear_def map_of_map map_of_is_SomeI)
  have idx: "cas_index src = map (\<lambda>(i, a). (i, ucast (act_type a))) (cas_actions src) @ []"
    using assms by (simp add: cofactions_wf_def)
  show ?thesis
    unfolding cofactions_assign_def
    by (subst idx, subst copy_actions_upto [OF all]) (simp add: copy_clear [OF assms])
qed

text \<open>A list with an output and a group action.\<close>

definition output_action :: "u32 \<Rightarrow> cofaction" where
  "output_action port = (new_action C_output 4)\<lparr>act_body := Act_output port 128\<rparr>"

definition actions_example :: cofactions where
  "actions_example = enter_all [(0, output_action 1), (1, (new_action C_group 4)\<lparr>act_body := Act_group 9\<rparr>)] (cofactions_new 4)"

lemma actions_example_wf: "cofactions_wf actions_example"
  by (simp add: actions_example_def enter_action_wf action_wf_def new_action_def version_allows_def of10_classes_def
      output_action_def cofactions_new_def [THEN arg_cong [of _ _ cas_version]])

lemma actions_example_facts:
  "cas_actions actions_example = [(0, output_action 1), (1, (new_action C_group 4)\<lparr>act_body := Act_group 9\<rparr>)]"
  "cas_version actions_example = 4" "cas_index actions_example = [(0, 0), (1, 22)]"
  by (simp_all add: actions_example_def enter_action_def put_action_def cofactions_new_def new_action_def output_action_def)

lemma actions_example_length: "cofactions_length actions_example = Inr 24"
  by (simp add: cofactions_length_def actions_example_facts action_length_def output_action_def new_action_def
      cofaction_output_length_def cofaction_group_length_def of12_size_def)

lemma actions_example_sendable: "\<forall>(i, a) \<in> set (cas_actions actions_example). sendable a"
  by (simp add: actions_example_facts sendable_def output_action_def new_action_def action_length_def
      cofaction_output_length_def cofaction_group_length_def of12_size_def)

theorem cofactions_unpack_safe_witness:
  "cofactions_wf (fst (cofactions_unpack [0, 0, 0, 16, 0, 0, 0, 1] actions_example)) \<and>
   snd (cofactions_unpack [0, 0, 0, 16, 0, 0, 0, 1] actions_example) = Some EBadActionBadLen"
  using cofactions_unpack_safe [OF actions_example_wf prod.collapse [symmetric], of "[0, 0, 0, 16, 0, 0, 0, 1]"]
  by (simp add: cofactions_unpack_def unpack_actions.simps bytes_at_def be_word_def)

theorem cofactions_roundtrip_witness:
  "\<exists>s1 out s2. cofactions_pack (replicate 24 0) actions_example = (s1, Inr out) \<and> length out = 24 \<and>
    cofactions_unpack out (cofactions_new 4) = (s2, None) \<and> map snd (cas_index s2) = [0, 22]"
proof -
  have "\<exists>s1 out s2. cofactions_pack (replicate 24 0) actions_example = (s1, Inr out) \<and> length out = length (replicate 24 (0::byte)) \<and>
    cofactions_unpack out (cofactions_new 4) = (s2, None) \<and> cofactions_wf s2 \<and>
    cas_actions s2 = indexed 0 (received_actions (replicate 24 0) (map snd (cas_actions actions_example)))"
    by (intro cofactions_roundtrip actions_example_wf actions_example_sendable) (simp_all add: actions_example_facts actions_example_length cofactions_new_def)
  then show ?thesis
    by (auto simp: cofactions_wf_def actions_example_facts received_action_def output_action_def new_action_def Let_def)
qed

theorem cofactions_copy_example: "cofactions_assign (cofactions_new 1) actions_example = (actions_example, None)"
  by (rule cofactions_copy [OF actions_example_wf])

lemma map_put_split:
  assumes "map_wf m" "map_of m i = None"
  shows "\<exists>pre post. m = pre @ post \<and> map_put i v m = pre @ (i, v) # post"
  using assms
proof (induction m)
  case (Cons x m)
  obtain k w where x: "x = (k, w)"
    by (cases x)
  then have wf: "map_wf m" "map_of m i = None" "k \<noteq> i"
    using Cons.prems by (auto simp: map_wf_Cons split: if_splits)
  show ?case
  proof (cases "i < k")
    case True
    with x show ?thesis
      by (intro exI [of _ "[]"] exI [of _ "x # m"]) simp
  next
    case False
    obtain pre post where "m = pre @ post" "map_put i v m = pre @ (i, v) # post"
      using Cons.IH wf by blast
    with x wf(3) False show ?thesis
      by (intro exI [of _ "x # pre"] exI [of _ post]) auto
  qed
qed auto

lemma absent_action_entered:
  assumes "cofactions_wf s" "\<not> has_action i s" "c \<noteq> C_output" "drop_action_of c i s = (s1, e)"
  shows "e = Some EActionInvalType \<and> has_action_of C_output i s1 \<and> get_action C_output i s1 = Inl EOutOfRange \<and>
    snd (set_action C_output i s1) = Inl ENullPointer \<and> snd (cofactions_assign dst s1) = Some EOutOfRange"
proof -
  have none: "map_of (cas_index s) i = None" "map_of (cas_actions s) i = None"
    using assms(1,2) cofactions_wf_lookup [OF assms(1), of i] by (auto simp: has_action_def)
  have wfi: "map_wf (cas_index s)"
    using assms(1) map_wf_keys [of "cas_actions s" "cas_index s"] by (simp add: cofactions_wf_def comp_def case_prod_beta)
  note put = map_of_put [OF wfi]
  have "type_code c \<noteq> 0"
    using assms(3) by (cases c) (simp_all add: type_code_def)
  then have s1: "s1 = s\<lparr>cas_index := map_put i 0 (cas_index s)\<rparr>" "e = Some EActionInvalType"
    using assms(4) none by (auto simp: drop_action_of_def Let_def put split: if_splits)
  from s1(1) have "map_of (cas_index s1) i = Some 0" "map_of (cas_actions s1) i = None"
    by (simp_all add: put none)
  then have out: "get_action C_output i s1 = Inl EOutOfRange" "has_action_of C_output i s1"
    "snd (set_action C_output i s1) = Inl ENullPointer"
    by (simp_all add: get_action_def has_action_of_def set_action_def type_code_def version_allows_def)
  let ?f = "\<lambda>(i, a). (i :: u32, ucast (act_type a) :: u32)"
  have idx: "cas_index s = map ?f (cas_actions s)" and wf: "map_wf (cas_actions s)"
    using assms(1) by (auto simp: cofactions_wf_def)
  obtain pre post where split: "cas_index s = pre @ post" "map_put i 0 (cas_index s) = pre @ (i, 0) # post"
    using map_put_split [OF wfi none(1)] by blast
  from split(1) have "map ?f (cas_actions s) = pre @ post"
    unfolding idx .
  then obtain as as' where as: "cas_actions s = as @ as'" "pre = map ?f as"
    unfolding map_eq_append_conv by blast
  let ?t = "cofactions_clear (dst\<lparr>cas_version := cas_version s1\<rparr>)"
  have "\<forall>(j, a) \<in> set as. action_wf (cas_version ?t) a \<and>
      map_of (cas_index s1) j = Some (ucast (act_type a)) \<and> map_of (cas_actions s1) j = Some a"
  proof (clarify, intro conjI)
    fix j a
    assume "(j, a) \<in> set as"
    then have mem: "(j, a) \<in> set (cas_actions s)"
      by (simp add: as)
    then have "map_of (cas_actions s) j = Some a"
      using map_wf_distinct [OF wf] by simp
    then show "map_of (cas_actions s1) j = Some a" "map_of (cas_index s1) j = Some (ucast (act_type a))"
      using s1(1) none cofactions_wf_lookup [OF assms(1), of j] by (auto simp: put)
    show "action_wf (cas_version ?t) a"
      using mem assms(1) s1(1) by (auto simp: cofactions_wf_def cofactions_clear_def)
  qed
  from copy_actions_upto [OF this, of "(i, 0) # post"]
  have "cofactions_assign dst s1 = copy_actions ((i, 0) # post) s1 (enter_all as ?t)"
    using s1(1) split(2) as(2) by (simp add: cofactions_assign_def)
  also have "snd \<dots> = Some EOutOfRange"
    using out(1) wire_class_of [of C_output "cas_version s1"] by (simp add: version_allows_def cofactions_clear_def)
  finally show ?thesis
    using s1(2) out by simp
qed

lemma map_erase_absent: "k \<notin> fst ` set m \<Longrightarrow> map_erase k m = m"
  by (auto simp: map_erase_def filter_id_conv)

lemma absent_output_dropped:
  assumes "cofactions_wf s" "\<not> has_action i s"
  shows "drop_action_of C_output i s = (s, None)"
proof -
  have none: "map_of (cas_index s) i = None" "map_of (cas_actions s) i = None"
    using assms(2) cofactions_wf_lookup [OF assms(1), of i] by (auto simp: has_action_def)
  then have keys: "i \<notin> fst ` set (cas_index s)" "i \<notin> fst ` set (cas_actions s)"
    by (auto simp: map_of_eq_None_iff)
  have wf: "map_wf (cas_index s)"
    using assms(1) map_wf_keys [of "cas_actions s" "cas_index s"] by (simp add: cofactions_wf_def comp_def case_prod_beta)
  obtain pre post where split: "cas_index s = pre @ post" "map_put i 0 (cas_index s) = pre @ (i, 0) # post"
    using map_put_split [OF wf none(1)] by blast
  have erase: "map_erase i (map_put i 0 (cas_index s)) = cas_index s" "map_erase i (cas_actions s) = cas_actions s"
    using keys map_erase_absent [of i pre] map_erase_absent [of i post] map_erase_absent [of i "cas_actions s"] split
    by (simp_all add: image_Un map_erase_def)
  let ?s = "s\<lparr>cas_index := map_put i 0 (cas_index s)\<rparr>"
  have "drop_action_of C_output i s = (drop_action i ?s, None)"
    by (simp add: drop_action_of_def none(1) Let_def type_code_def map_of_put [OF wf])
  also have "drop_action i ?s = s"
    by (simp add: drop_action_def map_of_put [OF wf] erase)
  finally show ?thesis .
qed

text \<open>
  C38: dropping an action by its class at an index where there is none.  For the class of output actions
  the call neither throws nor changes the list.  For every other class it throws and leaves an entry in the
  index without an object: the list then says that it has an output action there, but reading it fails,
  changing it goes through a null pointer, and the list cannot be copied any more.
\<close>

theorem drop_absent_action:
  assumes "cofactions_wf s" "\<not> has_action i s" "drop_action_of c i s = (s1, e)"
  shows "if c = C_output then s1 = s \<and> e = None
    else e = Some EActionInvalType \<and> has_action_of C_output i s1 \<and> get_action C_output i s1 = Inl EOutOfRange \<and>
      snd (set_action C_output i s1) = Inl ENullPointer \<and> snd (cofactions_assign dst s1) = Some EOutOfRange"
  using absent_output_dropped [OF assms(1,2)] absent_action_entered [OF assms(1,2)] assms(3) by auto

theorem drop_absent_action_witness:
  "has_action_of C_output 7 (fst (drop_action_of C_group 7 actions_example)) \<and>
   snd (cofactions_assign (cofactions_new 4) (fst (drop_action_of C_group 7 actions_example))) = Some EOutOfRange"
  using drop_absent_action [OF actions_example_wf _ prod.collapse [symmetric], of 7 C_group "cofactions_new 4"]
  by (simp add: has_action_def actions_example_facts)

end
