(* ===== verification/Cofinstruction.thy ===== *)
theory Cofinstruction
  imports Cofactions_Laws
begin

text \<open>
  Instructions of OpenFlow 1.2 and 1.3 (\<open>cofinstruction.h\<close>, \<open>cofinstruction.cc\<close>): the base class and its
  seven derived classes.  Three of them hold a list of actions.
\<close>

section \<open>Classes\<close>

datatype inst_body =
    Inst_goto_table u8
  | Inst_write_metadata u64 u64
  | Inst_write_actions cofactions
  | Inst_apply_actions cofactions
  | Inst_clear_actions cofactions
  | Inst_meter u32
  | Inst_experimenter u32 "byte list"
  | Inst_other

datatype inst_class =
    I_goto_table | I_write_metadata | I_write_actions | I_apply_actions | I_clear_actions | I_meter | I_experimenter

text \<open>\<open>enum ofp_instruction_type\<close>, and the \<open>switch\<close> over it.\<close>

primrec inst_code :: "inst_class \<Rightarrow> u16" where
  "inst_code I_goto_table = 1"
| "inst_code I_write_metadata = 2"
| "inst_code I_write_actions = 3"
| "inst_code I_apply_actions = 4"
| "inst_code I_clear_actions = 5"
| "inst_code I_meter = 6"
| "inst_code I_experimenter = 0xffff"

definition inst_class_of :: "u16 \<Rightarrow> inst_class option" where
  "inst_class_of t =
     find (\<lambda>c. inst_code c = t)
       [I_goto_table, I_write_metadata, I_write_actions, I_apply_actions, I_clear_actions, I_meter, I_experimenter]"

fun has_inst_class :: "inst_class \<Rightarrow> inst_body \<Rightarrow> bool" where
  "has_inst_class I_goto_table (Inst_goto_table t) = True"
| "has_inst_class I_write_metadata (Inst_write_metadata d k) = True"
| "has_inst_class I_write_actions (Inst_write_actions s) = True"
| "has_inst_class I_apply_actions (Inst_apply_actions s) = True"
| "has_inst_class I_clear_actions (Inst_clear_actions s) = True"
| "has_inst_class I_meter (Inst_meter i) = True"
| "has_inst_class I_experimenter (Inst_experimenter i b) = True"
| "has_inst_class _ _ = False"

record cofinstruction =
  inst_version :: u8
  inst_type :: u16
  inst_body :: inst_body

text \<open>The constructors when only the version is given: a list of actions gets that version, too.\<close>

primrec inst_default :: "inst_class \<Rightarrow> u8 \<Rightarrow> inst_body" where
  "inst_default I_goto_table v = Inst_goto_table 0"
| "inst_default I_write_metadata v = Inst_write_metadata 0 0"
| "inst_default I_write_actions v = Inst_write_actions (cofactions_new v)"
| "inst_default I_apply_actions v = Inst_apply_actions (cofactions_new v)"
| "inst_default I_clear_actions v = Inst_clear_actions (cofactions_new v)"
| "inst_default I_meter v = Inst_meter 0"
| "inst_default I_experimenter v = Inst_experimenter 0 []"

definition new_inst :: "inst_class \<Rightarrow> u8 \<Rightarrow> cofinstruction" where
  "new_inst c v = \<lparr>inst_version = v, inst_type = inst_code c, inst_body = inst_default c v\<rparr>"

section \<open>The base class\<close>

definition cofinstruction_length :: "u8 \<Rightarrow> nat result" where
  "cofinstruction_length = of12_size 4"

text \<open>\<open>len\<close> is what the virtual \<open>length()\<close> returns.\<close>

definition cofinstruction_pack :: "nat \<Rightarrow> cofinstruction \<Rightarrow> byte list \<Rightarrow> byte list result" where
  "cofinstruction_pack len a buf =
     (if buf = [] then Inr buf
      else rbind (cofinstruction_length (inst_version a))
        (\<lambda>n. if length buf < n then Inl EInvalid
             else Inr (put_at 2 (be_bytes 2 (word_of_nat len :: u16)) (put_at 0 (be_bytes 2 (inst_type a)) buf))))"

definition wire_len :: "byte list \<Rightarrow> nat" where
  "wire_len buf = unat (be_word (bytes_at 2 2 buf) :: u16)"

definition cofinstruction_unpack :: "byte list \<Rightarrow> cofinstruction \<Rightarrow> cofinstruction outcome" where
  "cofinstruction_unpack buf a =
     (if buf = [] then (a, None)
      else case cofinstruction_length (inst_version a) of
        Inl e \<Rightarrow> (a, Some e)
      | Inr n \<Rightarrow>
          if length buf < n then (a, Some EInvalid)
          else (a\<lparr>inst_type := be_word (bytes_at 0 2 buf)\<rparr>, if wire_len buf < n then Some EInvalid else None))"

text \<open>What the derived classes with members of fixed size have in common.\<close>

definition pack_inst ::
  "(u8 \<Rightarrow> nat result) \<Rightarrow> (nat \<times> byte list) list \<Rightarrow> cofinstruction \<Rightarrow> byte list \<Rightarrow> cofinstruction \<times> byte list result"
where
  "pack_inst len fs a buf =
     (a, if buf = [] then Inr buf
         else rbind (len (inst_version a))
           (\<lambda>n. if length buf < n then Inl EInvalid else rbind (cofinstruction_pack n a buf) (\<lambda>out. Inr (put_fields fs out))))"

definition unpack_inst ::
  "(u8 \<Rightarrow> nat result) \<Rightarrow> (byte list \<Rightarrow> inst_body) \<Rightarrow> byte list \<Rightarrow> cofinstruction \<Rightarrow> cofinstruction outcome"
where
  "unpack_inst len rd buf a =
     (if buf = [] then (a, None)
      else case len (inst_version a) of
        Inl e \<Rightarrow> (a, Some e)
      | Inr n \<Rightarrow>
          if length buf < n then (a, Some EInvalid)
          else case cofinstruction_unpack buf a of
            (a1, Some e) \<Rightarrow> (a1, Some e)
          | (a1, None) \<Rightarrow> if wire_len buf < n then (a1, Some EInvalid) else (a1\<lparr>inst_body := rd buf\<rparr>, None))"

section \<open>Write, apply and clear actions\<close>

definition cofinstruction_actions_length :: "cofactions \<Rightarrow> u8 \<Rightarrow> nat result" where
  "cofinstruction_actions_length s v = rbind (of12_size 8 v) (\<lambda>n. rbind (cofactions_length s) (\<lambda>m. Inr (n + m)))"

text \<open>\<open>mk\<close> is the class of the object.\<close>

definition cofinstruction_actions_pack ::
  "(cofactions \<Rightarrow> inst_body) \<Rightarrow> cofactions \<Rightarrow> cofinstruction \<Rightarrow> byte list \<Rightarrow> cofinstruction \<times> byte list result"
where
  "cofinstruction_actions_pack mk s a buf =
     (case pack_inst (cofinstruction_actions_length s) [] a buf of
        (a1, Inl e) \<Rightarrow> (a1, Inl e)
      | (a1, Inr out) \<Rightarrow>
          if buf = [] then (a1, Inr out)
          else (case cofactions_length s of
              Inl e \<Rightarrow> (a1, Inl e)
            | Inr m \<Rightarrow>
                (case cofactions_pack (bytes_at 8 m out) s of
                   (s1, Inl e) \<Rightarrow> (a1\<lparr>inst_body := mk s1\<rparr>, Inl e)
                 | (s1, Inr bytes) \<Rightarrow> (a1\<lparr>inst_body := mk s1\<rparr>, Inr (put_at 8 bytes out)))))"

text \<open>The actions get the bytes that the length field announces.\<close>

definition cofinstruction_actions_unpack ::
  "(cofactions \<Rightarrow> inst_body) \<Rightarrow> cofactions \<Rightarrow> byte list \<Rightarrow> cofinstruction \<Rightarrow> cofinstruction outcome"
where
  "cofinstruction_actions_unpack mk s buf a =
     (if buf = [] then (a, None)
      else let s0 = cofactions_clear s
           in case unpack_inst (cofinstruction_actions_length s0) (\<lambda>_. mk s0) buf (a\<lparr>inst_body := mk s0\<rparr>) of
                (a1, Some e) \<Rightarrow> (a1, Some e)
              | (a1, None) \<Rightarrow>
                  if length buf < wire_len buf then (a1, Some EOutOfBoundsRead)
                  else (case cofactions_unpack (bytes_at 8 (wire_len buf - 8) buf) s0 of
                          (s1, e) \<Rightarrow> (a1\<lparr>inst_body := mk s1\<rparr>, e)))"

section \<open>The other classes\<close>

definition cofinstruction_goto_table_length :: "u8 \<Rightarrow> nat result" where
  "cofinstruction_goto_table_length = of12_size 8"

definition cofinstruction_goto_table_pack :: "u8 \<Rightarrow> cofinstruction \<Rightarrow> byte list \<Rightarrow> cofinstruction \<times> byte list result" where
  "cofinstruction_goto_table_pack table = pack_inst cofinstruction_goto_table_length [(4, be_bytes 1 table)]"

text \<open>Here the size of the buffer is checked before the version.\<close>

definition cofinstruction_goto_table_unpack :: "byte list \<Rightarrow> cofinstruction \<Rightarrow> cofinstruction outcome" where
  "cofinstruction_goto_table_unpack buf a =
     (if buf \<noteq> [] \<and> length buf < 8 then (a, Some EInvalid)
      else unpack_inst cofinstruction_goto_table_length (\<lambda>buf. Inst_goto_table (be_word (bytes_at 4 1 buf))) buf a)"

definition cofinstruction_goto_table_check_prerequisites :: "u8 \<Rightarrow> u8 \<Rightarrow> rofl_exn option" where
  "cofinstruction_goto_table_check_prerequisites table v =
     (if v \<in> {3, 4} \<and> table = 0xff then Some EBadInstBadTableId else None)"

definition cofinstruction_write_metadata_length :: "u8 \<Rightarrow> nat result" where
  "cofinstruction_write_metadata_length = of12_size 24"

definition cofinstruction_write_metadata_pack ::
  "u64 \<Rightarrow> u64 \<Rightarrow> cofinstruction \<Rightarrow> byte list \<Rightarrow> cofinstruction \<times> byte list result"
where
  "cofinstruction_write_metadata_pack d k =
     pack_inst cofinstruction_write_metadata_length [(8, be_bytes 8 d), (16, be_bytes 8 k)]"

definition cofinstruction_write_metadata_unpack :: "byte list \<Rightarrow> cofinstruction \<Rightarrow> cofinstruction outcome" where
  "cofinstruction_write_metadata_unpack =
     unpack_inst cofinstruction_write_metadata_length
       (\<lambda>buf. Inst_write_metadata (be_word (bytes_at 8 8 buf)) (be_word (bytes_at 16 8 buf)))"

definition cofinstruction_meter_length :: "u8 \<Rightarrow> nat result" where
  "cofinstruction_meter_length v = (if v = 4 then Inr 8 else Inl EBadVersion)"

definition cofinstruction_meter_pack :: "u32 \<Rightarrow> cofinstruction \<Rightarrow> byte list \<Rightarrow> cofinstruction \<times> byte list result" where
  "cofinstruction_meter_pack i = pack_inst cofinstruction_meter_length [(4, be_bytes 4 i)]"

definition cofinstruction_meter_unpack :: "byte list \<Rightarrow> cofinstruction \<Rightarrow> cofinstruction outcome" where
  "cofinstruction_meter_unpack = unpack_inst cofinstruction_meter_length (\<lambda>buf. Inst_meter (be_word (bytes_at 4 4 buf)))"

definition cofinstruction_experimenter_length :: "byte list \<Rightarrow> u8 \<Rightarrow> nat result" where
  "cofinstruction_experimenter_length body = of12_size (8 + length body)"

definition cofinstruction_experimenter_pack ::
  "u32 \<Rightarrow> byte list \<Rightarrow> cofinstruction \<Rightarrow> byte list \<Rightarrow> cofinstruction \<times> byte list result"
where
  "cofinstruction_experimenter_pack i body =
     pack_inst (cofinstruction_experimenter_length body) [(4, be_bytes 4 i), (8, body)]"

text \<open>\<open>exp_body.clear()\<close> fills the body with zeros and keeps its size.\<close>

definition cofinstruction_experimenter_unpack ::
  "u32 \<Rightarrow> byte list \<Rightarrow> byte list \<Rightarrow> cofinstruction \<Rightarrow> cofinstruction outcome"
where
  "cofinstruction_experimenter_unpack i body buf a =
     (if buf = [] then (a, None)
      else let zeros = replicate (length body) 0
           in case unpack_inst (cofinstruction_experimenter_length zeros) (\<lambda>buf. Inst_experimenter (be_word (bytes_at 4 4 buf)) zeros)
                     buf (a\<lparr>inst_body := Inst_experimenter i zeros\<rparr>) of
                (a1, Some e) \<Rightarrow> (a1, Some e)
              | (a1, None) \<Rightarrow>
                  if length buf < wire_len buf then (a1, Some EOutOfBoundsRead)
                  else (a1\<lparr>inst_body := Inst_experimenter (be_word (bytes_at 4 4 buf)) (bytes_at 8 (wire_len buf - 8) buf)\<rparr>, None))"

section \<open>The virtual methods\<close>

definition inst_length :: "cofinstruction \<Rightarrow> nat result" where
  "inst_length a =
     (case inst_body a of
        Inst_goto_table t \<Rightarrow> cofinstruction_goto_table_length (inst_version a)
      | Inst_write_metadata d k \<Rightarrow> cofinstruction_write_metadata_length (inst_version a)
      | Inst_write_actions s \<Rightarrow> cofinstruction_actions_length s (inst_version a)
      | Inst_apply_actions s \<Rightarrow> cofinstruction_actions_length s (inst_version a)
      | Inst_clear_actions s \<Rightarrow> cofinstruction_actions_length s (inst_version a)
      | Inst_meter i \<Rightarrow> cofinstruction_meter_length (inst_version a)
      | Inst_experimenter i b \<Rightarrow> cofinstruction_experimenter_length b (inst_version a)
      | Inst_other \<Rightarrow> cofinstruction_length (inst_version a))"

definition inst_pack :: "cofinstruction \<Rightarrow> byte list \<Rightarrow> cofinstruction \<times> byte list result" where
  "inst_pack a buf =
     (case inst_body a of
        Inst_goto_table t \<Rightarrow> cofinstruction_goto_table_pack t a buf
      | Inst_write_metadata d k \<Rightarrow> cofinstruction_write_metadata_pack d k a buf
      | Inst_write_actions s \<Rightarrow> cofinstruction_actions_pack Inst_write_actions s a buf
      | Inst_apply_actions s \<Rightarrow> cofinstruction_actions_pack Inst_apply_actions s a buf
      | Inst_clear_actions s \<Rightarrow> cofinstruction_actions_pack Inst_clear_actions s a buf
      | Inst_meter i \<Rightarrow> cofinstruction_meter_pack i a buf
      | Inst_experimenter i b \<Rightarrow> cofinstruction_experimenter_pack i b a buf
      | Inst_other \<Rightarrow> (a, cofinstruction_pack 4 a buf))"

definition inst_unpack :: "byte list \<Rightarrow> cofinstruction \<Rightarrow> cofinstruction outcome" where
  "inst_unpack buf a =
     (case inst_body a of
        Inst_goto_table t \<Rightarrow> cofinstruction_goto_table_unpack buf a
      | Inst_write_metadata d k \<Rightarrow> cofinstruction_write_metadata_unpack buf a
      | Inst_write_actions s \<Rightarrow> cofinstruction_actions_unpack Inst_write_actions s buf a
      | Inst_apply_actions s \<Rightarrow> cofinstruction_actions_unpack Inst_apply_actions s buf a
      | Inst_clear_actions s \<Rightarrow> cofinstruction_actions_unpack Inst_clear_actions s buf a
      | Inst_meter i \<Rightarrow> cofinstruction_meter_unpack buf a
      | Inst_experimenter i b \<Rightarrow> cofinstruction_experimenter_unpack i b buf a
      | Inst_other \<Rightarrow> cofinstruction_unpack buf a)"

definition inst_check_prerequisites :: "cofinstruction \<Rightarrow> rofl_exn option" where
  "inst_check_prerequisites a =
     (case inst_body a of
        Inst_goto_table t \<Rightarrow> cofinstruction_goto_table_check_prerequisites t (inst_version a)
      | Inst_write_actions s \<Rightarrow> cofactions_check_prerequisites s
      | Inst_apply_actions s \<Rightarrow> cofactions_check_prerequisites s
      | Inst_clear_actions s \<Rightarrow> cofactions_check_prerequisites s
      | _ \<Rightarrow> None)"

text \<open>\<open>set_version\<close> and \<open>operator==\<close> of the base class: neither is virtual.\<close>

definition inst_eq :: "cofinstruction \<Rightarrow> cofinstruction \<Rightarrow> bool" where
  "inst_eq a b \<longleftrightarrow> inst_version a = inst_version b \<and> inst_type a = inst_type b"

lemmas fixed_inst_defs = cofinstruction_goto_table_length_def cofinstruction_goto_table_pack_def cofinstruction_goto_table_unpack_def
  cofinstruction_write_metadata_length_def cofinstruction_write_metadata_pack_def cofinstruction_write_metadata_unpack_def
  cofinstruction_meter_length_def cofinstruction_meter_pack_def cofinstruction_meter_unpack_def
  cofinstruction_experimenter_length_def cofinstruction_experimenter_pack_def cofinstruction_experimenter_unpack_def

section \<open>What the wire format keeps\<close>

definition inst_header :: "cofinstruction \<Rightarrow> nat \<Rightarrow> byte list \<Rightarrow> byte list" where
  "inst_header a n buf = put_at 2 (be_bytes 2 (word_of_nat n :: u16)) (put_at 0 (be_bytes 2 (inst_type a)) buf)"

lemma inst_header_facts [simp]:
  assumes "4 \<le> length buf"
  shows "length (inst_header a n buf) = length buf" "inst_header a n buf \<noteq> []"
    "bytes_at 0 2 (inst_header a n buf) = be_bytes 2 (inst_type a)"
    "bytes_at 2 2 (inst_header a n buf) = be_bytes 2 (word_of_nat n :: u16)"
    "4 \<le> i \<Longrightarrow> bytes_at i k (inst_header a n buf) = bytes_at i k buf"
    "4 \<le> k \<Longrightarrow> drop k (inst_header a n buf) = drop k buf"
proof -
  show "inst_header a n buf \<noteq> []"
    using assms length_put_at by (auto simp: inst_header_def)
qed (use assms in \<open>simp_all add: inst_header_def\<close>)

lemma pack_inst_ok:
  assumes "len (inst_version a) = Inr n" "length buf = n" "4 \<le> n" "inst_version a \<in> {3, 4}"
  shows "pack_inst len fs a buf = (a, Inr (put_fields fs (inst_header a n buf)))"
proof -
  have "buf \<noteq> []"
    using assms(2,3) by auto
  with assms show ?thesis
    by (auto simp: pack_inst_def cofinstruction_pack_def cofinstruction_length_def of12_size_def inst_header_def)
qed

lemma unpack_inst_ok:
  assumes "len (inst_version a) = Inr n" "n \<le> length buf" "n \<le> wire_len buf" "4 \<le> n" "inst_version a \<in> {3, 4}"
  shows "unpack_inst len rd buf a = (a\<lparr>inst_type := be_word (bytes_at 0 2 buf), inst_body := rd buf\<rparr>, None)"
proof -
  have "buf \<noteq> []"
    using assms(2,4) by auto
  with assms show ?thesis
    by (auto simp: unpack_inst_def cofinstruction_unpack_def cofinstruction_length_def of12_size_def not_less)
qed

text \<open>An action that arrives is as long as the one that was sent.\<close>

lemma canon_length:
  assumes "coxmatch_ok m" "coxmatch_canon m0 m = Some mc" "sf_member t set_field_new = Some m0"
  shows "coxmatch_length mc = coxmatch_length m"
  using assms
  by (cases t; cases "(m0, m)" rule: coxmatch_canon.cases)
    (auto simp: set_field_new_def coxmatch_class_defs oxm_length_def oxm_canon_def adjust_oxm_length_def Let_def exp_length_def exp_ok_def
      exp_new_def)

lemma received_length:
  assumes "action_length a = Inr n" "length buf = n" "body_ok (act_version a) (act_body a)"
  shows "action_length (received_action buf a) = Inr n"
proof (cases "act_body a")
  case (Act_set_field sf)
  then obtain m where m: "sf_member (sf_type sf) sf = Some m" "coxmatch_ok m"
    using assms(3) by (auto simp: set_field_ok_def split: option.splits)
  obtain m0 mc where m0: "sf_member (sf_type sf) set_field_new = Some m0" "coxmatch_canon m0 m = Some mc"
    using set_field_new_member [OF m(1)] by blast
  have "sf_type (set_field_received sf) = sf_type sf" "sf_member (sf_type sf) (set_field_received sf) = Some mc"
    using m m0 by (cases "sf_type sf"; cases "(m0, m)" rule: coxmatch_canon.cases; auto simp: set_field_received_def)+
  then show ?thesis
    using assms(1) Act_set_field m canon_length [OF m(2) m0(2,1)]
    by (simp add: received_action_def action_length_def cofaction_set_field_length_def)
next
  case (Act_vendor i body)
  then show ?thesis
    using assms pad8_ge [of "8 + length body"] pad8_dvd [of "8 + length body"]
    by (auto simp: received_action_def action_length_def cofaction_vendor_length_def of10_size_def pad8_def split: if_splits)
next
  case (Act_experimenter i body)
  then show ?thesis
    using assms pad8_ge [of "8 + length body"] pad8_dvd [of "8 + length body"]
    by (auto simp: received_action_def action_length_def cofaction_experimenter_length_def of12_size_def pad8_def split: if_splits)
qed (use assms in \<open>simp_all add: received_action_def action_length_def fixed_action_defs\<close>)

lemma received_actions_length:
  assumes "list_all (\<lambda>(i, a). sendable a) as" "actions_length as = Inr n" "length buf = n"
  shows "actions_length (indexed k (received_actions buf (map snd as))) = Inr n"
  using assms
proof (induction as arbitrary: n buf k)
  case (Cons x as)
  obtain l m where l: "action_length (snd x) = Inr l" "actions_length as = Inr m" "n = l + m"
    using Cons.prems(2) by (cases x) (auto simp: rbind_Inr_iff)
  then show ?case
    using Cons.prems(1,3) Cons.IH [of m "drop l buf" "k + 1"] received_length [OF l(1), of "take l buf"]
    by (auto simp: Let_def sendable_def case_prod_beta)
qed simp

section \<open>An instruction is received as it was sent\<close>

fun inst_actions :: "inst_body \<Rightarrow> cofactions option" where
  "inst_actions (Inst_write_actions s) = Some s"
| "inst_actions (Inst_apply_actions s) = Some s"
| "inst_actions (Inst_clear_actions s) = Some s"
| "inst_actions _ = None"

definition actions_sendable :: "u8 \<Rightarrow> cofactions \<Rightarrow> bool" where
  "actions_sendable v s \<longleftrightarrow> cofactions_wf s \<and> cas_version s = v \<and> (\<forall>(i, a) \<in> set (cas_actions s). sendable a)"

definition inst_sendable :: "u8 \<Rightarrow> u16 \<Rightarrow> cofinstruction \<Rightarrow> bool" where
  "inst_sendable v t a \<longleftrightarrow>
     inst_version a = v \<and> inst_type a = t \<and>
     (\<exists>c. inst_code c = t \<and> has_inst_class c (inst_body a)) \<and>
     (\<forall>s. inst_actions (inst_body a) = Some s \<longrightarrow> actions_sendable v s) \<and>
     (\<exists>n < 2 ^ 16. inst_length a = Inr n)"

definition received_list :: "byte list \<Rightarrow> cofactions \<Rightarrow> cofactions" where
  "received_list buf s =
     enter_all (indexed 0 (received_actions buf (map snd (cas_actions s)))) (cofactions_new (cas_version s))"

fun received_inst_body :: "byte list \<Rightarrow> inst_body \<Rightarrow> inst_body" where
  "received_inst_body buf (Inst_write_actions s) = Inst_write_actions (received_list (drop 8 buf) s)"
| "received_inst_body buf (Inst_apply_actions s) = Inst_apply_actions (received_list (drop 8 buf) s)"
| "received_inst_body buf (Inst_clear_actions s) = Inst_clear_actions (received_list (drop 8 buf) s)"
| "received_inst_body buf b = b"

definition received_inst :: "byte list \<Rightarrow> cofinstruction \<Rightarrow> cofinstruction" where
  "received_inst buf a = a\<lparr>inst_body := received_inst_body buf (inst_body a)\<rparr>"

lemma received_list_facts:
  assumes "cofactions_wf s"
  shows "cas_actions (received_list buf s) = indexed 0 (received_actions buf (map snd (cas_actions s)))"
    "cas_version (received_list buf s) = cas_version s"
  using indexed_wf [of "received_actions buf (map snd (cas_actions s))"] map_wf_length [of "cas_actions s"] assms
  by (simp_all add: received_list_def enter_all_append cofactions_wf_def cofactions_new_def)

text \<open>A list of actions inside an instruction, which may be empty.\<close>

lemma send_list:
  assumes "actions_sendable v s" "cofactions_length s = Inr m" "length buf = m"
  shows "\<exists>s1 out. cofactions_pack buf s = (s1, Inr out) \<and> length out = m \<and>
    cofactions_unpack out (cofactions_new v) = (received_list buf s, None)"
proof -
  have ok: "list_all (\<lambda>(i, a). action_wf v a \<and> sendable a) (cas_actions s)" "cas_version s = v"
    using assms(1) by (auto simp: actions_sendable_def cofactions_wf_def list_all_iff)
  obtain as1 out where out: "pack_actions buf (cas_actions s) = (as1, Inr out)" "length out = m"
    "\<And>i t. cas_version t = v \<Longrightarrow>
       unpack_actions out i t = (enter_all (indexed i (received_actions buf (map snd (cas_actions s)))) t, None)"
    using send_actions [OF ok(1), of m buf] assms(2,3) by (auto simp: cofactions_length_def)
  show ?thesis
  proof (cases "cas_actions s")
    case Nil
    then show ?thesis
      using assms(2,3) ok(2) by (auto simp: cofactions_pack_def cofactions_length_def cofactions_unpack_def received_list_def)
  next
    case (Cons x as)
    then have "8 \<le> m"
      using assms(2) by (cases x) (fastforce simp: cofactions_length_def rbind_Inr_iff dest!: action_length_bound(1))
    then show ?thesis
      using out assms(2,3) ok(2)
      by (auto simp: cofactions_pack_def cofactions_unpack_def received_list_def cofactions_clear_def cofactions_new_def)
  qed
qed

lemma inst_length_bound:
  assumes "inst_length a = Inr n"
  shows "inst_version a \<in> {3, 4} \<and> 4 \<le> n" "inst_body a \<noteq> Inst_other \<Longrightarrow> 8 \<le> n"
  using assms
  by (auto simp: inst_length_def fixed_inst_defs cofinstruction_actions_length_def cofinstruction_length_def of12_size_def rbind_Inr_iff
      split: inst_body.splits if_splits)

text \<open>What \<open>pack\<close> has to write for \<open>unpack\<close> to give the object back.\<close>

definition sends_inst :: "byte list \<Rightarrow> cofinstruction \<Rightarrow> inst_class \<Rightarrow> byte list \<Rightarrow> bool" where
  "sends_inst buf a c out \<longleftrightarrow>
     (\<exists>a1. inst_pack a buf = (a1, Inr out)) \<and> length out = length buf \<and> wire_len out = length buf \<and>
     be_word (bytes_at 0 2 out) = inst_type a \<and>
     inst_unpack out (new_inst c (inst_version a)) = (received_inst buf a, None) \<and>
     inst_length (received_inst buf a) = Inr (length buf)"

lemma be_word_byte [simp]: "be_word [b] = (b :: byte)"
  by (simp add: be_word_def)

lemma fixed_inst_roundtrip:
  assumes "inst_length a = Inr (length buf)" "length buf < 2 ^ 16" "inst_type a = inst_code c" "has_inst_class c (inst_body a)"
    and "inst_actions (inst_body a) = None"
  shows "\<exists>out. sends_inst buf a c out"
proof -
  note bound = inst_length_bound(1) [OF assms(1)]
  have n: "unat (word_of_nat (length buf) :: u16) = length buf"
    using assms(2) by (simp add: unat_of_nat_u16)
  show ?thesis
    using assms bound n
    by (cases "inst_body a"; cases c)
      (auto simp: sends_inst_def inst_length_def inst_pack_def inst_unpack_def fixed_inst_defs of12_size_def
        new_inst_def pack_inst_ok unpack_inst_ok wire_len_def received_inst_def bytes_at_put_padded split: if_splits)
qed

lemma actions_inst_roundtrip:
  assumes n: "inst_length a = Inr (length buf)" "length buf < 2 ^ 16"
    and body: "inst_body a = mk s" "(mk, c) \<in> {(Inst_write_actions, I_write_actions), (Inst_apply_actions, I_apply_actions), (Inst_clear_actions, I_clear_actions)}"
    and ok: "inst_type a = inst_code c" "actions_sendable (inst_version a) s"
  shows "\<exists>out. sends_inst buf a c out"
proof -
  let ?v = "inst_version a"
  have v: "?v \<in> {3, 4}"
    using inst_length_bound(1) [OF n(1)] by blast
  obtain m where "cofactions_length s = Inr m" "8 + m = length buf"
    using n(1) body v by (auto simp: inst_length_def cofinstruction_actions_length_def of12_size_def rbind_Inr_iff)
  then have m: "cofactions_length s = Inr m" "length buf = 8 + m"
    by simp_all
  have n16: "unat (word_of_nat (8 + m) :: u16) = 8 + m"
    using n(2) m(2) by (simp add: unat_of_nat_u16)
  obtain s1 bytes where list: "cofactions_pack (drop 8 buf) s = (s1, Inr bytes)" "length bytes = m"
    "cofactions_unpack bytes (cofactions_new ?v) = (received_list (drop 8 buf) s, None)"
    using send_list [OF ok(2) m(1), of "drop 8 buf"] m(2) by auto
  let ?h = "inst_header a (8 + m) buf" and ?out = "put_at 8 bytes (inst_header a (8 + m) buf)"
  have len: "cofinstruction_actions_length s ?v = Inr (8 + m)" "cofinstruction_actions_length (cofactions_new ?v) ?v = Inr 8"
    using v m(1) by (auto simp: cofinstruction_actions_length_def of12_size_def cofactions_length_def cofactions_new_def)
  have sub: "bytes_at 8 m ?h = drop 8 buf"
    using m(2) by (simp add: bytes_at_def)
  have "\<exists>a1. inst_pack a buf = (a1, Inr ?out)"
    using body m list(1) sub pack_inst_ok [of "cofinstruction_actions_length s", OF len(1) m(2) _ v]
    by (auto simp: inst_pack_def cofinstruction_actions_pack_def)
  moreover have out: "length ?out = 8 + m" "?out \<noteq> []" "wire_len ?out = 8 + m" "be_word (bytes_at 0 2 ?out) = inst_type a"
    "bytes_at 8 m ?out = bytes"
    using m(2) list(2) n16 by (simp_all add: wire_len_def)
  moreover have "inst_unpack ?out (new_inst c ?v) = (received_inst buf a, None)"
    using body ok v out list(3) len(2) unpack_inst_ok [of "cofinstruction_actions_length (cofactions_new ?v)" _ 8 ?out]
    by (auto simp: inst_unpack_def cofinstruction_actions_unpack_def new_inst_def received_inst_def cofactions_clear_def cofactions_new_def)
  moreover have "cofactions_length (received_list (drop 8 buf) s) = Inr m"
    using ok(2) m received_actions_length [of "cas_actions s" m "drop 8 buf" 0]
    by (simp add: cofactions_length_def received_list_facts actions_sendable_def list_all_iff)
  then have "inst_length (received_inst buf a) = Inr (8 + m)"
    using body v by (auto simp: received_inst_def inst_length_def cofinstruction_actions_length_def of12_size_def)
  ultimately show ?thesis
    using m(2) by (auto simp: sends_inst_def)
qed

lemma inst_wire_roundtrip:
  assumes "inst_sendable v t a" "inst_length a = Inr (length buf)"
  shows "\<exists>c out. inst_code c = t \<and> sends_inst buf a c out"
proof -
  obtain c where c: "inst_code c = t" "has_inst_class c (inst_body a)" and a: "inst_version a = v" "inst_type a = t"
    and small: "length buf < 2 ^ 16"
    using assms by (auto simp: inst_sendable_def)
  have "\<exists>out. sends_inst buf a c out"
  proof (cases "inst_actions (inst_body a)")
    case None
    then show ?thesis
      using fixed_inst_roundtrip [OF assms(2) small _ c(2)] a c(1) by simp
  next
    case (Some s)
    then have "actions_sendable (inst_version a) s"
      using assms(1) a by (auto simp: inst_sendable_def)
    moreover from Some c(2) obtain mk where "inst_body a = mk s"
      "(mk, c) \<in> {(Inst_write_actions, I_write_actions), (Inst_apply_actions, I_apply_actions), (Inst_clear_actions, I_clear_actions)}"
      by (cases "inst_body a"; cases c) auto
    ultimately show ?thesis
      using actions_inst_roundtrip [OF assms(2) small] a c(1) by simp
  qed
  then show ?thesis
    using c(1) by blast
qed

end
