(* ===== verification/Cofinstructions.thy ===== *)
theory Cofinstructions
  imports Cofinstruction
begin

text \<open>
  Sets of instructions (\<open>cofinstructions.h\<close>, \<open>cofinstructions.cc\<close>): a map from type codes to instruction
  objects.  The accessors of the seven classes are the same but for the class, which is an argument here.
  The loop of \<open>unpack\<close> does not always end: a call that does not return has the value \<open>None\<close>.
\<close>

section \<open>State\<close>

record cofinstructions =
  ins_version :: u8
  instmap :: "(u16 \<times> cofinstruction) list"

definition cofinstructions_new :: "u8 \<Rightarrow> cofinstructions" where
  "cofinstructions_new v = \<lparr>ins_version = v, instmap = []\<rparr>"

definition cofinstructions_clear :: "cofinstructions \<Rightarrow> cofinstructions" where
  "cofinstructions_clear s = s\<lparr>instmap := []\<rparr>"

text \<open>\<open>set_version\<close> of an instruction does not reach the list of actions in it.\<close>

definition cofinstructions_set_version :: "u8 \<Rightarrow> cofinstructions \<Rightarrow> cofinstructions" where
  "cofinstructions_set_version v s =
     s\<lparr>ins_version := v, instmap := map (\<lambda>(t, a). (t, a\<lparr>inst_version := v\<rparr>)) (instmap s)\<rparr>"

section \<open>Accessors\<close>

definition put_inst :: "u16 \<Rightarrow> cofinstruction \<Rightarrow> cofinstructions \<Rightarrow> cofinstructions" where
  "put_inst t a s = s\<lparr>instmap := map_put t a (instmap s)\<rparr>"

definition add_inst_of :: "inst_class \<Rightarrow> cofinstructions \<Rightarrow> cofinstructions \<times> cofinstruction" where
  "add_inst_of c s = (let a = new_inst c (ins_version s) in (put_inst (inst_code c) a s, a))"

text \<open>\<open>*dynamic_cast<\<dots>>(p)\<close>: an object of another class gives a null pointer.\<close>

definition cast_inst :: "inst_class \<Rightarrow> cofinstruction \<Rightarrow> cofinstruction result" where
  "cast_inst c a = (if has_inst_class c (inst_body a) then Inr a else Inl ENullPointer)"

definition set_inst_of :: "inst_class \<Rightarrow> cofinstructions \<Rightarrow> cofinstructions \<times> cofinstruction result" where
  "set_inst_of c s =
     (case map_of (instmap s) (inst_code c) of
        None \<Rightarrow> (case add_inst_of c s of (s1, a) \<Rightarrow> (s1, Inr a))
      | Some a \<Rightarrow> (s, cast_inst c a))"

definition get_inst_of :: "inst_class \<Rightarrow> cofinstructions \<Rightarrow> cofinstruction result" where
  "get_inst_of c s =
     (case map_of (instmap s) (inst_code c) of None \<Rightarrow> Inl EInstructionsNotFound | Some a \<Rightarrow> cast_inst c a)"

definition drop_inst :: "u16 \<Rightarrow> cofinstructions \<Rightarrow> cofinstructions" where
  "drop_inst t s = (if map_of (instmap s) t = None then s else s\<lparr>instmap := map_erase t (instmap s)\<rparr>)"

definition drop_inst_of :: "inst_class \<Rightarrow> cofinstructions \<Rightarrow> cofinstructions" where
  "drop_inst_of c = drop_inst (inst_code c)"

definition has_inst :: "u16 \<Rightarrow> cofinstructions \<Rightarrow> bool" where
  "has_inst t s \<longleftrightarrow> map_of (instmap s) t \<noteq> None"

definition has_inst_of :: "inst_class \<Rightarrow> cofinstructions \<Rightarrow> bool" where
  "has_inst_of c = has_inst (inst_code c)"

text \<open>The accessors by type code; an unknown code gives an object of the base class.\<close>

definition other_inst :: "u16 \<Rightarrow> u8 \<Rightarrow> cofinstruction" where
  "other_inst t v = \<lparr>inst_version = v, inst_type = t, inst_body = Inst_other\<rparr>"

definition add_inst :: "u16 \<Rightarrow> cofinstructions \<Rightarrow> cofinstructions \<times> cofinstruction" where
  "add_inst t s =
     (case inst_class_of t of
        Some c \<Rightarrow> add_inst_of c s
      | None \<Rightarrow> let a = other_inst t (ins_version s) in (put_inst t a s, a))"

definition set_inst :: "u16 \<Rightarrow> cofinstructions \<Rightarrow> cofinstructions \<times> cofinstruction result" where
  "set_inst t s =
     (case inst_class_of t of
        Some c \<Rightarrow> set_inst_of c s
      | None \<Rightarrow>
          (case map_of (instmap s) t of
             None \<Rightarrow> let a = other_inst t (ins_version s) in (put_inst t a s, Inr a)
           | Some a \<Rightarrow> (s, Inr a)))"

definition get_inst :: "u16 \<Rightarrow> cofinstructions \<Rightarrow> cofinstruction result" where
  "get_inst t s = (case map_of (instmap s) t of None \<Rightarrow> Inl EInstructionsNotFound | Some a \<Rightarrow> Inr a)"

section \<open>Comparison, assignment, prerequisites\<close>

text \<open>\<open>operator==\<close> compares sizes, then looks up every type of the other set with \<open>at\<close>, which may throw.\<close>

fun insts_eq_loop :: "(u16 \<times> cofinstruction) list \<Rightarrow> (u16 \<times> cofinstruction) list \<Rightarrow> bool result" where
  "insts_eq_loop m [] = Inr True"
| "insts_eq_loop m ((t, b) # bs) =
     (case map_of m t of
        None \<Rightarrow> Inl EOutOfRange
      | Some a \<Rightarrow> if inst_eq a b then insts_eq_loop m bs else Inr False)"

definition cofinstructions_eq :: "cofinstructions \<Rightarrow> cofinstructions \<Rightarrow> bool result" where
  "cofinstructions_eq s s' =
     (if length (instmap s) \<noteq> length (instmap s') then Inr False else insts_eq_loop (instmap s) (instmap s'))"

text \<open>\<open>add_inst_\<dots>() = instructions.get_inst_\<dots>()\<close>; the list of actions is copied by its own assignment.\<close>

definition inst_assign :: "inst_class \<Rightarrow> cofinstruction \<Rightarrow> cofinstruction \<Rightarrow> cofinstruction outcome" where
  "inst_assign c dst src =
     (let copied = (\<lambda>mk d s. case cofactions_assign d s of (d1, e) \<Rightarrow> (src\<lparr>inst_body := mk d1\<rparr>, e))
      in case (inst_body dst, inst_body src) of
           (Inst_write_actions d, Inst_write_actions s) \<Rightarrow> copied Inst_write_actions d s
         | (Inst_apply_actions d, Inst_apply_actions s) \<Rightarrow> copied Inst_apply_actions d s
         | (Inst_clear_actions d, Inst_clear_actions s) \<Rightarrow> copied Inst_clear_actions d s
         | _ \<Rightarrow> (src, None))"

text \<open>\<open>new cofinstruction(*(it->second))\<close> copies the base class only.\<close>

definition sliced_inst :: "cofinstruction \<Rightarrow> cofinstruction" where
  "sliced_inst a = a\<lparr>inst_body := Inst_other\<rparr>"

fun copy_insts :: "(u16 \<times> cofinstruction) list \<Rightarrow> cofinstructions \<Rightarrow> cofinstructions \<Rightarrow> cofinstructions outcome" where
  "copy_insts [] src s = (s, None)"
| "copy_insts ((t, b) # bs) src s =
     (case inst_class_of t of
        None \<Rightarrow> copy_insts bs src (put_inst t (sliced_inst b) s)
      | Some c \<Rightarrow>
          (case get_inst_of c src of
             Inl e \<Rightarrow> (s, Some e)
           | Inr x \<Rightarrow>
               (case add_inst_of c s of
                  (s1, a) \<Rightarrow>
                    (case inst_assign c a x of
                       (a1, Some e) \<Rightarrow>
                         if e = EOutOfRange then copy_insts bs src (put_inst t (sliced_inst b) s1)
                         else (put_inst t a1 s1, Some e)
                     | (a1, None) \<Rightarrow> copy_insts bs src (put_inst t a1 s1)))))"

definition cofinstructions_assign :: "cofinstructions \<Rightarrow> cofinstructions \<Rightarrow> cofinstructions outcome" where
  "cofinstructions_assign dst src =
     copy_insts (instmap src) src ((cofinstructions_clear dst)\<lparr>ins_version := ins_version src\<rparr>)"

fun check_each_inst :: "(u16 \<times> cofinstruction) list \<Rightarrow> rofl_exn option" where
  "check_each_inst [] = None"
| "check_each_inst ((t, a) # as) =
     (case inst_check_prerequisites a of Some e \<Rightarrow> Some e | None \<Rightarrow> check_each_inst as)"

definition cofinstructions_check_prerequisites :: "cofinstructions \<Rightarrow> rofl_exn option" where
  "cofinstructions_check_prerequisites s = check_each_inst (instmap s)"

section \<open>Wire format\<close>

fun insts_length :: "(u16 \<times> cofinstruction) list \<Rightarrow> nat result" where
  "insts_length [] = Inr 0"
| "insts_length ((t, a) # as) = rbind (inst_length a) (\<lambda>n. rbind (insts_length as) (\<lambda>m. Inr (n + m)))"

definition cofinstructions_length :: "cofinstructions \<Rightarrow> nat result" where
  "cofinstructions_length s = insts_length (instmap s)"

fun pack_insts :: "byte list \<Rightarrow> (u16 \<times> cofinstruction) list \<Rightarrow> (u16 \<times> cofinstruction) list \<times> byte list result" where
  "pack_insts buf [] = ([], Inr buf)"
| "pack_insts buf ((t, a) # as) =
     (case inst_length a of
        Inl e \<Rightarrow> ((t, a) # as, Inl e)
      | Inr n \<Rightarrow>
          (case inst_pack a (take n buf) of
             (a1, Inl e) \<Rightarrow> ((t, a1) # as, Inl e)
           | (a1, Inr bytes) \<Rightarrow>
               (case pack_insts (drop n buf) as of
                  (as1, Inl e) \<Rightarrow> ((t, a1) # as1, Inl e)
                | (as1, Inr rest) \<Rightarrow> ((t, a1) # as1, Inr (bytes @ rest)))))"

definition cofinstructions_pack :: "byte list \<Rightarrow> cofinstructions \<Rightarrow> cofinstructions \<times> byte list result" where
  "cofinstructions_pack buf s =
     (case cofinstructions_length s of
        Inl e \<Rightarrow> (s, Inl e)
      | Inr n \<Rightarrow>
          if length buf < n then (s, Inl EInstructionsInval)
          else (case pack_insts buf (instmap s) of (as, r) \<Rightarrow> (s\<lparr>instmap := as\<rparr>, r)))"

text \<open>
  One turn of the loop of \<open>unpack\<close>: \<open>Inl\<close> when the function ends, \<open>Inr\<close> what the next turn starts with.
  \<open>mem\<close> is the memory from \<open>buf\<close> on, \<open>buflen\<close> what the code takes for the rest of the buffer.  The header is
  read whenever \<open>buflen\<close> is positive.  The code advances by the length of the object it built, not by the length
  field: when the object is longer than what is left, the unsigned \<open>buflen\<close> wraps around and the loop goes on
  through the memory behind the buffer.  For an unknown type nothing advances.  Where the memory ends, the
  result is \<open>EOutOfBoundsRead\<close>.
\<close>

definition inst_turn ::
  "nat \<Rightarrow> byte list \<Rightarrow> cofinstructions \<Rightarrow> cofinstructions outcome + (nat \<times> byte list \<times> cofinstructions)" where
  "inst_turn buflen mem s =
     (if buflen = 0 then Inl (s, None)
      else if length mem < 4 then Inl (s, Some EOutOfBoundsRead)
      else if wire_len mem < 4 then Inl (s, None)
      else if buflen < wire_len mem then Inl (s, Some EInstructionsBadLen)
      else case inst_class_of (be_word (bytes_at 0 2 mem)) of
        None \<Rightarrow> Inr (buflen, mem, s)
      | Some c \<Rightarrow>
          (case add_inst_of c s of
             (s1, a) \<Rightarrow>
               if length mem < wire_len mem then Inl (s1, Some EOutOfBoundsRead)
               else (case inst_unpack (take (wire_len mem) mem) a of
                  (a1, Some e) \<Rightarrow> Inl (put_inst (inst_code c) a1 s1, Some e)
                | (a1, None) \<Rightarrow>
                    let s2 = put_inst (inst_code c) a1 s1
                    in case inst_length a1 of
                         Inl e \<Rightarrow> Inl (s2, Some e)
                       | Inr n \<Rightarrow> Inr (size_sub buflen n, drop n mem, s2))))"

partial_function (option) inst_loop :: "nat \<Rightarrow> byte list \<Rightarrow> cofinstructions \<Rightarrow> cofinstructions outcome option" where
  "inst_loop buflen mem s =
     (case inst_turn buflen mem s of Inl r \<Rightarrow> Some r | Inr x \<Rightarrow> inst_loop (fst x) (fst (snd x)) (snd (snd x)))"

definition cofinstructions_unpack :: "nat \<Rightarrow> byte list \<Rightarrow> cofinstructions \<Rightarrow> cofinstructions outcome option" where
  "cofinstructions_unpack buflen mem s =
     (let s0 = cofinstructions_clear s in if buflen < 4 then Some (s0, None) else inst_loop buflen mem s0)"

end
