(* ===== verification/Cofflowmod.thy ===== *)
theory Cofflowmod
  imports Cofinstructions Cofmatch Cofmsg
begin

text \<open>
  Flow modifications (\<open>openflow/cofflowmod.h/.cc\<close>) and the message that carries one
  (\<open>openflow/messages/cofmsg_flow_mod.h/.cc\<close>): data members, copy, length, wire format, prerequisites.
\<close>

section \<open>The object\<close>

record cofflowmod =
  fm_version :: u8
  fm_match :: cofmatch
  fm_actions :: cofactions
  fm_instructions :: cofinstructions
  fm_command :: u8
  fm_table_id :: u8
  fm_idle_timeout :: u16
  fm_hard_timeout :: u16
  fm_cookie :: u64
  fm_cookie_mask :: u64
  fm_priority :: u16
  fm_buffer_id :: u32
  fm_out_port :: u32
  fm_out_group :: u32
  fm_flags :: u16

definition cofflowmod_new :: "u8 \<Rightarrow> cofflowmod" where
  "cofflowmod_new v =
     \<lparr>fm_version = v, fm_match = cofmatch_new v OFPMT_OXM, fm_actions = cofactions_new v,
      fm_instructions = cofinstructions_new v, fm_command = 0, fm_table_id = 0, fm_idle_timeout = 0,
      fm_hard_timeout = 0, fm_cookie = 0, fm_cookie_mask = 0, fm_priority = 0, fm_buffer_id = 0xffffffff,
      fm_out_port = 0xffffffff, fm_out_group = 0xffffffff, fm_flags = 0\<rparr>"

text \<open>The assignment copies member by member; when one throws, the members behind it stay as they were.\<close>

definition cofflowmod_assign :: "cofflowmod \<Rightarrow> cofflowmod \<Rightarrow> cofflowmod outcome" where
  "cofflowmod_assign dst src =
     (let d0 = dst\<lparr>fm_version := fm_version src\<rparr>
      in case cofmatch_assign (fm_match src) (fm_match d0) of
        (m, Some e) \<Rightarrow> (d0\<lparr>fm_match := m\<rparr>, Some e)
      | (m, None) \<Rightarrow>
          (case cofactions_assign (fm_actions d0) (fm_actions src) of
             (as, Some e) \<Rightarrow> (d0\<lparr>fm_match := m, fm_actions := as\<rparr>, Some e)
           | (as, None) \<Rightarrow>
               (case cofinstructions_assign (fm_instructions d0) (fm_instructions src) of
                  (is, Some e) \<Rightarrow> (d0\<lparr>fm_match := m, fm_actions := as, fm_instructions := is\<rparr>, Some e)
                | (is, None) \<Rightarrow> (src\<lparr>fm_match := m, fm_actions := as, fm_instructions := is\<rparr>, None))))"

definition cofflowmod_clear :: "cofflowmod \<Rightarrow> cofflowmod" where
  "cofflowmod_clear fm =
     fm\<lparr>fm_match := cofmatch_clear (fm_match fm), fm_actions := cofactions_clear (fm_actions fm),
        fm_instructions := cofinstructions_clear (fm_instructions fm)\<rparr>"

definition cofmatch_set_version :: "u8 \<Rightarrow> cofmatch \<Rightarrow> cofmatch" where
  "cofmatch_set_version v m = m\<lparr>of_version := v\<rparr>"

definition cofflowmod_set_version :: "u8 \<Rightarrow> cofflowmod \<Rightarrow> cofflowmod" where
  "cofflowmod_set_version v fm =
     fm\<lparr>fm_version := v, fm_match := cofmatch_set_version v (fm_match fm),
        fm_actions := cofactions_set_version v (fm_actions fm),
        fm_instructions := cofinstructions_set_version v (fm_instructions fm)\<rparr>"

definition cofflowmod_check_prerequisites :: "cofflowmod \<Rightarrow> rofl_exn option" where
  "cofflowmod_check_prerequisites fm =
     (case check_prerequisites (fm_match fm) of
        Some e \<Rightarrow> Some e
      | None \<Rightarrow>
          if fm_version fm = 1 then cofactions_check_prerequisites (fm_actions fm)
          else if fm_version fm = 3 \<or> fm_version fm = 4 then cofinstructions_check_prerequisites (fm_instructions fm)
          else Some EBadVersion)"

section \<open>The wire format\<close>

definition cofflowmod_length :: "cofflowmod \<Rightarrow> nat result" where
  "cofflowmod_length fm =
     (if fm_version fm = 1 then rbind (cofactions_length (fm_actions fm)) (\<lambda>n. Inr (64 + n))
      else if fm_version fm = 3 \<or> fm_version fm = 4 then
        rbind (cofmatch_length (fm_match fm)) (\<lambda>k.
          rbind (cofinstructions_length (fm_instructions fm)) (\<lambda>j. Inr (40 + k + j)))
      else Inl EBadVersion)"

text \<open>The members of \<open>struct ofp10_flow_mod\<close> and \<open>struct ofp13_flow_mod\<close>, with their offsets.\<close>

definition fields_of10 :: "cofflowmod \<Rightarrow> (nat \<times> byte list) list" where
  "fields_of10 fm =
     [(40, be_bytes 8 (fm_cookie fm)), (48, be_bytes 2 (ucast (fm_command fm) :: u16)),
      (50, be_bytes 2 (fm_idle_timeout fm)), (52, be_bytes 2 (fm_hard_timeout fm)), (54, be_bytes 2 (fm_priority fm)),
      (56, be_bytes 4 (fm_buffer_id fm)), (60, be_bytes 2 (ucast (fm_out_port fm) :: u16)), (62, be_bytes 2 (fm_flags fm))]"

definition fields_of13 :: "cofflowmod \<Rightarrow> (nat \<times> byte list) list" where
  "fields_of13 fm =
     [(0, be_bytes 8 (fm_cookie fm)), (8, be_bytes 8 (fm_cookie_mask fm)), (16, be_bytes 1 (fm_table_id fm)),
      (17, be_bytes 1 (fm_command fm)), (18, be_bytes 2 (fm_idle_timeout fm)), (20, be_bytes 2 (fm_hard_timeout fm)),
      (22, be_bytes 2 (fm_priority fm)), (24, be_bytes 4 (fm_buffer_id fm)), (28, be_bytes 4 (fm_out_port fm)),
      (32, be_bytes 4 (fm_out_group fm)), (36, be_bytes 2 (fm_flags fm))]"

definition read_of10 :: "byte list \<Rightarrow> cofflowmod \<Rightarrow> cofflowmod" where
  "read_of10 buf fm =
     fm\<lparr>fm_cookie := be_word (bytes_at 40 8 buf), fm_command := ucast (be_word (bytes_at 48 2 buf) AND 0x00ff :: u16),
        fm_idle_timeout := be_word (bytes_at 50 2 buf), fm_hard_timeout := be_word (bytes_at 52 2 buf),
        fm_priority := be_word (bytes_at 54 2 buf), fm_buffer_id := be_word (bytes_at 56 4 buf),
        fm_out_port := ucast (be_word (bytes_at 60 2 buf) :: u16), fm_flags := be_word (bytes_at 62 2 buf)\<rparr>"

definition read_of13 :: "byte list \<Rightarrow> cofflowmod \<Rightarrow> cofflowmod" where
  "read_of13 buf fm =
     fm\<lparr>fm_cookie := be_word (bytes_at 0 8 buf), fm_cookie_mask := be_word (bytes_at 8 8 buf),
        fm_table_id := be_word (bytes_at 16 1 buf), fm_command := be_word (bytes_at 17 1 buf),
        fm_idle_timeout := be_word (bytes_at 18 2 buf), fm_hard_timeout := be_word (bytes_at 20 2 buf),
        fm_priority := be_word (bytes_at 22 2 buf), fm_buffer_id := be_word (bytes_at 24 4 buf),
        fm_out_port := be_word (bytes_at 28 4 buf), fm_out_group := be_word (bytes_at 32 4 buf),
        fm_flags := be_word (bytes_at 36 2 buf)\<rparr>"

definition pack_flowmod10 :: "byte list \<Rightarrow> cofflowmod \<Rightarrow> cofflowmod \<times> byte list result" where
  "pack_flowmod10 buf fm =
     (case cofmatch_pack (bytes_at 0 40 buf) (fm_match fm) of
        (m, Inl e) \<Rightarrow> (fm\<lparr>fm_match := m\<rparr>, Inl e)
      | (m, Inr bytes) \<Rightarrow>
          let fm1 = fm\<lparr>fm_match := m\<rparr>; out = put_fields (fields_of10 fm) (put_at 0 bytes buf)
          in case cofactions_length (fm_actions fm) of
               Inl e \<Rightarrow> (fm1, Inl e)
             | Inr n \<Rightarrow>
                 (case cofactions_pack (bytes_at 64 n out) (fm_actions fm) of
                    (as, Inl e) \<Rightarrow> (fm1\<lparr>fm_actions := as\<rparr>, Inl e)
                  | (as, Inr acts) \<Rightarrow> (fm1\<lparr>fm_actions := as\<rparr>, Inr (put_at 64 acts out))))"

definition pack_flowmod13 :: "byte list \<Rightarrow> cofflowmod \<Rightarrow> cofflowmod \<times> byte list result" where
  "pack_flowmod13 buf fm =
     (let out = put_fields (fields_of13 fm) buf
      in case cofmatch_length (fm_match fm) of
           Inl e \<Rightarrow> (fm, Inl e)
         | Inr k \<Rightarrow>
             (case cofmatch_pack (bytes_at 40 k out) (fm_match fm) of
                (m, Inl e) \<Rightarrow> (fm\<lparr>fm_match := m\<rparr>, Inl e)
              | (m, Inr bytes) \<Rightarrow>
                  let fm1 = fm\<lparr>fm_match := m\<rparr>; out1 = put_at 40 bytes out
                  in case rbind (cofmatch_length m) (\<lambda>k. rbind (cofinstructions_length (fm_instructions fm)) (\<lambda>j. Inr (k, j))) of
                       Inl e \<Rightarrow> (fm1, Inl e)
                     | Inr (k, j) \<Rightarrow>
                         (case cofinstructions_pack (bytes_at (40 + k) j out1) (fm_instructions fm) of
                            (is, Inl e) \<Rightarrow> (fm1\<lparr>fm_instructions := is\<rparr>, Inl e)
                          | (is, Inr insts) \<Rightarrow> (fm1\<lparr>fm_instructions := is\<rparr>, Inr (put_at (40 + k) insts out1)))))"

definition cofflowmod_pack :: "byte list \<Rightarrow> cofflowmod \<Rightarrow> cofflowmod \<times> byte list result" where
  "cofflowmod_pack buf fm =
     (if buf = [] then (fm, Inr buf)
      else case cofflowmod_length fm of
        Inl e \<Rightarrow> (fm, Inl e)
      | Inr n \<Rightarrow>
          if length buf < n then (fm, Inl EInvalid)
          else if fm_version fm = 1 then pack_flowmod10 buf fm else pack_flowmod13 buf fm)"

text \<open>
  \<open>mem\<close> is the memory from the buffer on, the buffer is its first \<open>buflen\<close> bytes.  The length of the match is
  taken from the message and not compared with \<open>buflen\<close>: \<open>cofmatch::unpack\<close> is given whatever lies behind the
  buffer.  Where the memory ends, the result is \<open>EOutOfBoundsRead\<close>.  \<open>instructionslen\<close> is unsigned: where the
  match object is longer than what is left it wraps around, and the instructions are read from the memory behind
  the buffer.  \<open>None\<close>: the function does not return.
\<close>

definition unpack_flowmod10 :: "nat \<Rightarrow> byte list \<Rightarrow> cofflowmod \<Rightarrow> cofflowmod outcome" where
  "unpack_flowmod10 buflen mem fm =
     (if buflen < 64 then (fm, Some EInvalid)
      else case cofmatch_unpack (bytes_at 0 40 mem) (fm_match fm) of
        (m, Some e) \<Rightarrow> (fm\<lparr>fm_match := m\<rparr>, Some e)
      | (m, None) \<Rightarrow>
          let fm1 = read_of10 mem (fm\<lparr>fm_match := m\<rparr>)
          in if 64 < buflen
             then (case cofactions_unpack (bytes_at 64 (buflen - 64) mem) (fm_actions fm1) of
                     (as, e) \<Rightarrow> (fm1\<lparr>fm_actions := as\<rparr>, e))
             else (fm1, None))"

definition unpack_flowmod13 :: "nat \<Rightarrow> byte list \<Rightarrow> cofflowmod \<Rightarrow> cofflowmod outcome option" where
  "unpack_flowmod13 buflen mem fm =
     (if buflen < 40 then Some (fm, Some EInvalid)
      else let fm1 = read_of13 mem fm; matchlen = unat (be_word (bytes_at 42 2 mem) :: u16)
           in if buflen - 40 < 8 then Some (fm1, Some EInvalid)
              else if length mem < 40 + matchlen then Some (fm1, Some EOutOfBoundsRead)
              else case cofmatch_unpack (bytes_at 40 matchlen mem) (fm_match fm1) of
                (m, Some e) \<Rightarrow> Some (fm1\<lparr>fm_match := m\<rparr>, Some e)
              | (m, None) \<Rightarrow>
                  let fm2 = fm1\<lparr>fm_match := m\<rparr>
                  in case cofmatch_length m of
                       Inl e \<Rightarrow> Some (fm2, Some e)
                     | Inr k \<Rightarrow>
                         let instructionslen = size_sub (buflen - 40) k
                         in if instructionslen = 0 then Some (fm2, None)
                            else map_option (\<lambda>(is, e). (fm2\<lparr>fm_instructions := is\<rparr>, e))
                              (cofinstructions_unpack instructionslen (drop (40 + k) mem) (fm_instructions fm2)))"

definition cofflowmod_unpack :: "nat \<Rightarrow> byte list \<Rightarrow> cofflowmod \<Rightarrow> cofflowmod outcome option" where
  "cofflowmod_unpack buflen mem fm =
     (if buflen = 0 then Some (fm, None)
      else let fm0 = cofflowmod_clear fm
           in if fm_version fm = 1 then Some (unpack_flowmod10 buflen mem fm0)
              else if fm_version fm = 3 \<or> fm_version fm = 4 then unpack_flowmod13 buflen mem fm0
              else Some (fm0, Some EBadVersion))"

section \<open>The message\<close>

record 'e cofmsg_flow_mod =
  fmm_msg :: "'e cofmsg"
  fmm_flowmod :: cofflowmod

definition OFPT_FLOW_MOD :: u8 where "OFPT_FLOW_MOD = 14"

definition cofmsg_flow_mod_new :: "nat \<Rightarrow> u8 \<Rightarrow> u32 \<Rightarrow> cofflowmod \<Rightarrow> 'e cofmsg_flow_mod result" where
  "cofmsg_flow_mod_new addr v xid fm =
     (case cofflowmod_assign (cofflowmod_new 0) fm of
        (_, Some e) \<Rightarrow> Inl e
      | (fm1, None) \<Rightarrow>
          Inr \<lparr>fmm_msg = cofmsg_new addr Cofmsg_flow_mod v OFPT_FLOW_MOD xid, fmm_flowmod = cofflowmod_set_version v fm1\<rparr>)"

definition cofmsg_flow_mod_check_prerequisites :: "'e cofmsg_flow_mod \<Rightarrow> rofl_exn option" where
  "cofmsg_flow_mod_check_prerequisites m = cofflowmod_check_prerequisites (fmm_flowmod m)"

definition cofmsg_flow_mod_length :: "'e cofmsg_flow_mod \<Rightarrow> nat result" where
  "cofmsg_flow_mod_length m = rbind (cofflowmod_length (fmm_flowmod m)) (\<lambda>n. Inr (8 + n))"

text \<open>
  The buffer is compared with the length field of the header, which has 16 bits.  When the message is longer
  than that, \<open>cofflowmod::pack\<close> is given more bytes than the buffer has; the model then says \<open>EOutOfBoundsRead\<close>.
\<close>

definition cofmsg_flow_mod_pack :: "byte list \<Rightarrow> 'e cofmsg_flow_mod \<Rightarrow> 'e cofmsg_flow_mod \<times> byte list result" where
  "cofmsg_flow_mod_pack buf m =
     (case cofflowmod_length (fmm_flowmod m) of
        Inl e \<Rightarrow> (m, Inl e)
      | Inr n \<Rightarrow>
          (case cofmsg_pack (8 + n) (fmm_msg m) buf of
             Inl e \<Rightarrow> (m\<lparr>fmm_msg := (fmm_msg m)\<lparr>msg_len := word_of_nat (8 + n)\<rparr>\<rparr>, Inl e)
           | Inr (hdr, out) \<Rightarrow>
               let m1 = m\<lparr>fmm_msg := hdr\<rparr>
               in if buf = [] then (m1, Inr out)
                  else if length buf < unat (msg_len hdr) then (m1, Inl EInvalid)
                  else if length buf < 8 + n then (m1, Inl EOutOfBoundsRead)
                  else (case cofflowmod_pack (bytes_at 8 n out) (fmm_flowmod m) of
                          (fm, Inl e) \<Rightarrow> (m1\<lparr>fmm_flowmod := fm\<rparr>, Inl e)
                        | (fm, Inr bytes) \<Rightarrow> (m1\<lparr>fmm_flowmod := fm\<rparr>, Inr (put_at 8 bytes out)))))"

definition cofmsg_flow_mod_unpack :: "nat \<Rightarrow> byte list \<Rightarrow> 'e cofmsg_flow_mod \<Rightarrow> 'e cofmsg_flow_mod outcome option" where
  "cofmsg_flow_mod_unpack buflen mem m =
     (case cofmsg_unpack (take buflen mem) (fmm_msg m) of
        Inl e \<Rightarrow> Some (m, Some e)
      | Inr hdr \<Rightarrow>
          let m1 = \<lparr>fmm_msg = hdr, fmm_flowmod = cofflowmod_clear (cofflowmod_set_version (msg_version hdr) (fmm_flowmod m))\<rparr>
          in if buflen = 0 then Some (m1, None)
             else case cofmsg_flow_mod_length m1 of
               Inl e \<Rightarrow> Some (m1, Some e)
             | Inr n \<Rightarrow>
                 if buflen < n then Some (m1, Some EBadRequestBadLen)
                 else if msg_type hdr \<noteq> OFPT_FLOW_MOD then Some (m1, Some EBadRequestBadType)
                 else map_option (\<lambda>(fm, e).
                   let m2 = m1\<lparr>fmm_flowmod := fm\<rparr>
                   in case e of
                        Some e \<Rightarrow> (m2, Some e)
                      | None \<Rightarrow>
                          (case cofmsg_flow_mod_length m2 of
                             Inl e \<Rightarrow> (m2, Some e)
                           | Inr n \<Rightarrow> (m2, if unat (msg_len hdr) < n then Some EBadRequestBadLen else None)))
                   (cofflowmod_unpack (buflen - 8) (drop 8 mem) (fmm_flowmod m1)))"

end
