(* ===== verification/Cofinstructions_Laws.thy ===== *)
theory Cofinstructions_Laws
  imports Cofinstructions
begin

text \<open>
  When reading a set of instructions ends, what a set that is sent arrives as, and how the actions inside
  an instruction lead the parser astray.
\<close>

section \<open>One turn of the parser\<close>

text \<open>The next instruction has an unknown type and a plausible length.\<close>

definition unknown_at :: "nat \<Rightarrow> byte list \<Rightarrow> bool" where
  "unknown_at buflen mem \<longleftrightarrow>
     4 \<le> length mem \<and> 4 \<le> wire_len mem \<and> wire_len mem \<le> buflen \<and> inst_class_of (be_word (bytes_at 0 2 mem)) = None"

definition unknown_head :: "byte list \<Rightarrow> bool" where
  "unknown_head buf \<longleftrightarrow> unknown_at (length buf) buf"

lemma unknown_head_at: "unknown_head buf \<Longrightarrow> unknown_at (length buf) (buf @ beyond)"
  by (auto simp: unknown_head_def unknown_at_def wire_len_def bytes_at_def)

lemma turn_unknown: "unknown_at buflen mem \<Longrightarrow> inst_turn buflen mem s = Inr (buflen, mem, s)"
  by (auto simp: unknown_at_def inst_turn_def)

lemma turn_known:
  assumes "inst_turn buflen mem s = Inr (buflen', mem', s')" "\<not> unknown_at buflen mem"
  shows "length mem' < length mem"
  using assms inst_length_bound(1)
  by (fastforce simp: inst_turn_def unknown_at_def Let_def split: if_splits option.splits prod.splits sum.splits)

section \<open>When the parser ends\<close>

type_synonym inst_state = "nat \<times> byte list \<times> cofinstructions"

definition inst_step :: "inst_state \<Rightarrow> inst_state \<Rightarrow> bool" where
  "inst_step x y \<longleftrightarrow> inst_turn (fst x) (fst (snd x)) (snd (snd x)) = Inr y"

abbreviation inst_run :: "inst_state \<Rightarrow> cofinstructions outcome option" where
  "inst_run x \<equiv> inst_loop (fst x) (fst (snd x)) (snd (snd x))"

lemma loop_step: "inst_step x y \<Longrightarrow> inst_run x = inst_run y"
  by (subst inst_loop.simps) (simp add: inst_step_def)

lemma loop_steps: "rtranclp inst_step x y \<Longrightarrow> inst_run x = inst_run y"
  by (induction rule: rtranclp_induct) (simp_all add: loop_step)

lemma loop_unknown: "unknown_at buflen mem \<Longrightarrow> inst_loop buflen mem s = None"
proof (rule ccontr)
  assume head: "unknown_at buflen mem" and "inst_loop buflen mem s \<noteq> None"
  then obtain r where ret: "inst_loop buflen mem s = Some r"
    by blast
  have "\<not> unknown_at buflen mem"
  proof (rule inst_loop.raw_induct [where P = "\<lambda>buflen mem s r. \<not> unknown_at buflen mem", OF _ ret])
    fix f buflen mem s r
    assume "\<And>buflen mem s r. f buflen mem s = Some r \<Longrightarrow> \<not> unknown_at buflen mem"
      and "(case inst_turn buflen mem s of Inl r \<Rightarrow> Some r | Inr x \<Rightarrow> f (fst x) (fst (snd x)) (snd (snd x))) = Some r"
    then show "\<not> unknown_at buflen mem"
      using turn_unknown [of buflen mem s] by (cases r) auto
  qed
  with head show False by blast
qed

lemma loop_returns:
  assumes "\<And>y. rtranclp inst_step (buflen, mem, s) y \<Longrightarrow> \<not> unknown_at (fst y) (fst (snd y))"
  shows "inst_loop buflen mem s \<noteq> None"
  using assms
proof (induction "length mem" arbitrary: buflen mem s rule: less_induct)
  case less
  show ?case
  proof (cases "inst_turn buflen mem s")
    case (Inl r)
    then show ?thesis
      by (subst inst_loop.simps) simp
  next
    case (Inr x)
    obtain buflen' mem' s' where x: "x = (buflen', mem', s')"
      by (cases x)
    have "length mem' < length mem"
      using turn_known Inr x less.prems [of "(buflen, mem, s)"] by auto
    moreover have step: "inst_step (buflen, mem, s) (buflen', mem', s')"
      using Inr x by (simp add: inst_step_def)
    ultimately have "inst_loop buflen' mem' s' \<noteq> None"
      using less.hyps less.prems converse_rtranclp_into_rtranclp [of inst_step, OF step] by blast
    then show ?thesis
      using loop_step [OF step] by simp
  qed
qed

section \<open>A set that is sent\<close>

definition insts_ok :: "cofinstructions \<Rightarrow> bool" where
  "insts_ok s \<longleftrightarrow> map_wf (instmap s) \<and> (\<forall>(t, a) \<in> set (instmap s). inst_sendable (ins_version s) t a)"

fun received_insts :: "byte list \<Rightarrow> (u16 \<times> cofinstruction) list \<Rightarrow> (u16 \<times> cofinstruction) list" where
  "received_insts buf [] = []"
| "received_insts buf ((t, a) # as) =
     (let n = projr (inst_length a) in (t, received_inst (take n buf) a) # received_insts (drop n buf) as)"

lemma received_insts_keys [simp]: "map fst (received_insts buf as) = map fst as"
  by (induction buf as rule: received_insts.induct) (simp_all add: Let_def)

fun enter_insts :: "(u16 \<times> cofinstruction) list \<Rightarrow> cofinstructions \<Rightarrow> cofinstructions" where
  "enter_insts [] s = s"
| "enter_insts ((t, a) # as) s = enter_insts as (put_inst t a s)"

lemma put_inst_version [simp]: "ins_version (put_inst t a s) = ins_version s"
  by (simp add: put_inst_def)

lemma put_inst_twice [simp]: "put_inst t b (put_inst t a s) = put_inst t b s"
  by (simp add: put_inst_def map_put_twice)

lemma enter_insts_append:
  "map_wf (instmap s @ as) \<Longrightarrow> enter_insts as s = s\<lparr>instmap := instmap s @ as\<rparr>"
proof (induction as s rule: enter_insts.induct)
  case (2 t a as s)
  have "\<forall>k \<in> fst ` set (instmap s). k < t"
    using 2(2) by (auto simp: map_wf_def sorted_wrt_append)
  then have "map_put t a (instmap s) = instmap s @ [(t, a)]"
    by (rule map_put_above)
  then show ?case
    using 2 by (simp add: put_inst_def)
qed simp

lemma inst_class_of_code [simp]: "inst_class_of (inst_code c) = Some c"
  by (cases c) (simp_all add: inst_class_of_def)

lemma turn_sent:
  assumes "sends_inst buf a c out" "ins_version s = inst_version a" "inst_type a = inst_code c" "4 \<le> length buf"
    and "length buf + n < 2 ^ 64"
  shows "inst_turn (length buf + n) (out @ rest) s = Inr (n, rest, put_inst (inst_code c) (received_inst buf a) s)"
proof -
  have "wire_len (out @ rest) = length out" "be_word (bytes_at 0 2 (out @ rest)) = inst_code c" "4 \<le> length out"
    using assms(1,3,4) by (auto simp: sends_inst_def wire_len_def bytes_at_def)
  then show ?thesis
    using assms(1,2,5) size_sub_le [of "length buf" "length buf + n"]
    by (auto simp: inst_turn_def sends_inst_def add_inst_of_def Let_def)
qed

lemma send_insts:
  assumes "\<forall>(t, a) \<in> set as. inst_sendable v t a" "insts_length as = Inr n" "length buf = n" "n < 2 ^ 64"
  shows "\<exists>as1 out. pack_insts buf as = (as1, Inr out) \<and> length out = n \<and>
    (\<forall>s beyond. ins_version s = v \<longrightarrow> inst_loop n (out @ beyond) s = Some (enter_insts (received_insts buf as) s, None))"
  using assms
proof (induction as arbitrary: buf n)
  case Nil
  then show ?case by (auto simp: inst_loop.simps inst_turn_def)
next
  case (Cons x as)
  obtain t a where x: "x = (t, a)"
    by (cases x)
  obtain l m where l: "inst_length a = Inr l" "insts_length as = Inr m" "n = l + m"
    using Cons.prems(2) x by (auto simp: rbind_Inr_iff)
  have a: "inst_sendable v t a" "inst_version a = v" "inst_type a = t" "4 \<le> l" "length (take l buf) = l"
    using Cons.prems(1,3) x l inst_length_bound(1) [OF l(1)] by (auto simp: inst_sendable_def)
  obtain c out where c: "inst_code c = t" and out: "sends_inst (take l buf) a c out"
    using inst_wire_roundtrip [OF a(1), of "take l buf"] a(5) l(1) by auto
  obtain as1 rest where IH: "pack_insts (drop l buf) as = (as1, Inr rest)" "length rest = m"
    "\<And>s beyond. ins_version s = v \<Longrightarrow> inst_loop m (rest @ beyond) s = Some (enter_insts (received_insts (drop l buf) as) s, None)"
    using Cons.IH [of m "drop l buf"] Cons.prems l by auto
  obtain a1 where one: "inst_pack a (take l buf) = (a1, Inr out)" "length out = l"
    using out a(5) by (auto simp: sends_inst_def)
  have "inst_loop n (out @ rest @ beyond) s = inst_loop m (rest @ beyond) (put_inst t (received_inst (take l buf) a) s)"
    if "ins_version s = v" for s beyond
    using turn_sent [OF out, of s m "rest @ beyond"] that a c l(3) Cons.prems(4) by (subst inst_loop.simps) simp
  then show ?case
    using x l one IH by (intro exI [of _ "(t, a1) # as1"] exI [of _ "out @ rest"]) (simp add: Let_def)
qed

text \<open>The length of a set stays far below the range of \<open>size_t\<close>: there are \<open>2 ^ 16\<close> types.\<close>

lemma insts_length_small:
  "\<forall>(t, a) \<in> set as. inst_sendable v t a \<Longrightarrow> insts_length as = Inr n \<Longrightarrow> n \<le> length as * 2 ^ 16"
proof (induction as arbitrary: n)
  case (Cons x as)
  then show ?case
    by (cases x) (fastforce simp: rbind_Inr_iff inst_sendable_def)
qed simp

lemma insts_ok_small:
  assumes "insts_ok s" "cofinstructions_length s = Inr n"
  shows "n < 2 ^ 64"
proof -
  have "n \<le> length (instmap s) * 2 ^ 16"
    using insts_length_small [of "instmap s" "ins_version s" n] assms by (simp add: insts_ok_def cofinstructions_length_def)
  also have "length (instmap s) \<le> 2 ^ 16"
    using map_wf_length [of "instmap s"] assms(1) by (simp add: insts_ok_def)
  finally show ?thesis
    by simp
qed

lemma insts_wire:
  assumes "insts_ok s" "cofinstructions_length s = Inr (length buf)" "ins_version s0 = ins_version s"
  shows "\<exists>s1 out s2. cofinstructions_pack buf s = (s1, Inr out) \<and> length out = length buf \<and>
    (\<forall>beyond. cofinstructions_unpack (length out) (out @ beyond) s0 = Some (s2, None)) \<and>
    instmap s2 = received_insts buf (instmap s)"
proof -
  have all: "\<forall>(t, a) \<in> set (instmap s). inst_sendable (ins_version s) t a"
    using assms(1) by (simp add: insts_ok_def)
  obtain as1 out where out: "pack_insts buf (instmap s) = (as1, Inr out)" "length out = length buf"
    "\<And>beyond. inst_loop (length buf) (out @ beyond) (cofinstructions_clear s0) = Some (enter_insts (received_insts buf (instmap s)) (cofinstructions_clear s0), None)"
    using send_insts [OF all, of "length buf" buf] insts_ok_small [OF assms(1,2)] assms(2,3) by (auto simp: cofinstructions_length_def cofinstructions_clear_def)
  have "map_wf (received_insts buf (instmap s))"
    by (rule map_wf_keys [of "instmap s"]) (use assms(1) in \<open>simp_all add: insts_ok_def\<close>)
  then have new: "instmap (enter_insts (received_insts buf (instmap s)) (cofinstructions_clear s0)) = received_insts buf (instmap s)"
    by (subst enter_insts_append) (simp_all add: cofinstructions_clear_def)
  have "instmap s = [] \<or> 4 \<le> length buf"
  proof (cases "instmap s")
    case (Cons x as)
    then obtain n m where "inst_length (snd x) = Inr n" "n + m = length buf"
      using assms(2) by (cases x) (auto simp: cofinstructions_length_def rbind_Inr_iff)
    then show ?thesis
      using inst_length_bound(1) by fastforce
  qed simp
  then have "cofinstructions_unpack (length out) (out @ beyond) s0 = Some (enter_insts (received_insts buf (instmap s)) (cofinstructions_clear s0), None)" for beyond
    using out(2,3) by (auto simp: cofinstructions_unpack_def Let_def)
  then show ?thesis
    using out assms(2) new by (auto simp: cofinstructions_pack_def)
qed

section \<open>Actions inside an instruction\<close>

lemma bytes_at_append [simp]:
  "length xs \<le> i \<Longrightarrow> bytes_at i n (xs @ ys) = bytes_at (i - length xs) n ys"
  "i = 0 \<Longrightarrow> n = length xs \<Longrightarrow> bytes_at i n (xs @ ys) = xs"
  by (simp_all add: bytes_at_def)

text \<open>An apply-actions instruction around some bytes.\<close>

definition apply_actions_bytes :: "byte list \<Rightarrow> byte list" where
  "apply_actions_bytes acts =
     be_bytes 2 (4 :: u16) @ be_bytes 2 (word_of_nat (8 + length acts) :: u16) @ replicate 4 0 @ acts"

definition action_bytes :: "u16 \<Rightarrow> u32 \<Rightarrow> byte list \<Rightarrow> byte list" where
  "action_bytes t x tail = be_bytes 2 t @ be_bytes 2 (word_of_nat (8 + length tail) :: u16) @ be_bytes 4 x @ tail"

lemma length_apply_actions_bytes [simp]: "length (apply_actions_bytes acts) = 8 + length acts"
  by (simp add: apply_actions_bytes_def)

lemma length_action_bytes [simp]: "length (action_bytes t x tail) = 8 + length tail"
  by (simp add: action_bytes_def)

lemma bytes_not_Nil [simp]: "apply_actions_bytes acts \<noteq> []" "action_bytes t x tail \<noteq> []"
  using length_apply_actions_bytes [of acts] length_action_bytes [of t x tail] by fastforce+

lemma apply_actions_header:
  assumes "8 + length acts < 2 ^ 16"
  shows "wire_len (apply_actions_bytes acts @ rest) = 8 + length acts"
    "bytes_at 0 2 (apply_actions_bytes acts @ rest) = be_bytes 2 (4 :: u16)"
    "take (8 + length acts) (apply_actions_bytes acts @ rest) = apply_actions_bytes acts"
    "bytes_at 8 (length acts) (apply_actions_bytes acts) = acts"
  using assms
  by (simp_all add: apply_actions_bytes_def wire_len_def unat_of_nat_u16) (simp add: bytes_at_def)

lemma turn_apply_actions:
  assumes v: "ins_version s \<in> {3, 4}" and small: "8 + length acts < 2 ^ 16"
    and un: "cofactions_unpack acts (cofactions_new (ins_version s)) = (l, None)" "cofactions_length l = Inr m"
    and n: "8 + length acts \<le> n"
  shows "inst_turn n (apply_actions_bytes acts @ rest) s =
    Inr (size_sub n (8 + m), drop m (acts @ rest),
      put_inst 4 \<lparr>inst_version = ins_version s, inst_type = 4, inst_body = Inst_apply_actions l\<rparr> s)"
proof -
  let ?v = "ins_version s" and ?b = "apply_actions_bytes acts"
  note hdr = apply_actions_header [OF small]
  have len: "cofinstruction_actions_length (cofactions_new ?v) ?v = Inr 8" "cofinstruction_actions_length l ?v = Inr (8 + m)"
    using v un(2) by (auto simp: cofinstruction_actions_length_def of12_size_def cofactions_length_def cofactions_new_def)
  have "inst_unpack ?b (new_inst I_apply_actions ?v) =
      (\<lparr>inst_version = ?v, inst_type = 4, inst_body = Inst_apply_actions l\<rparr>, None)"
    using hdr(1,2) [of "[]"] hdr(4) v un(1) len(1) unpack_inst_ok [of "cofinstruction_actions_length (cofactions_new ?v)" _ 8 ?b]
    by (auto simp: inst_unpack_def cofinstruction_actions_unpack_def new_inst_def cofactions_clear_def cofactions_new_def)
  moreover have "inst_length \<lparr>inst_version = ?v, inst_type = 4, inst_body = Inst_apply_actions l\<rparr> = Inr (8 + m)"
    by (simp add: inst_length_def len(2))
  moreover have "inst_class_of (4 :: u16) = Some I_apply_actions"
    by (simp add: inst_class_of_def)
  moreover have "drop (8 + m) (?b @ rest) = drop m (acts @ rest)"
    by (simp add: apply_actions_bytes_def)
  ultimately show ?thesis
    using hdr(1-3) [of rest] n by (simp add: inst_turn_def add_inst_of_def Let_def)
qed

lemma unpack_single_action:
  assumes "wire_class v t = Some c" "version_allows c v" "8 + length tail < 2 ^ 16"
    and "action_unpack (action_bytes t x tail) (new_action c v) = (a, None)"
  shows "cofactions_unpack (action_bytes t x tail) (cofactions_new v) = (enter_action 0 a (cofactions_new v), None)"
proof -
  let ?b = "action_bytes t x tail"
  have "bytes_at 0 2 ?b = be_bytes 2 t" "be_word (bytes_at 2 2 ?b) = (word_of_nat (8 + length tail) :: u16)"
    by (simp_all add: action_bytes_def)
  then have hdr: "bytes_at 0 2 ?b = be_bytes 2 t" "be_word (bytes_at 2 2 ?b) = (word_of_nat (8 + length tail) :: u16)" "?b \<noteq> []"
    by simp_all
  have ty: "act_type a = act_type (new_action c v)"
    using unpacked_new [of ?b c v] assms(4) hdr wire_class_type [OF assms(1)] by (simp add: unpacked_def Let_def new_action_def)
  have one: "unpack_one_action ?b 0 (cofactions_new v) = ((1, enter_action 0 a (cofactions_new v)), None)"
    using assms(1,2,4) hdr(1) ty by (simp add: unpack_one_action_def add_action_enter put_enter_action cofactions_new_def)
  have "unpack_actions ?b 0 (cofactions_new v) = (enter_action 0 a (cofactions_new v), None)"
    using one unat_of_nat_u16 [OF assms(3) hdr(2)] by (simp add: unpack_actions.simps [of ?b] unpack_actions.simps [of "[]"])
  then show ?thesis
    using hdr(3) by (simp add: cofactions_unpack_def cofactions_clear_def cofactions_new_def)
qed

text \<open>An experimenter action whose body is not padded: its object is \<open>k\<close> bytes longer.\<close>

lemma turn_unaligned:
  assumes v: "ins_version s \<in> {3, 4}" and un: "\<not> 8 dvd length body" and small: "16 + length body < 2 ^ 16"
    and k: "k = pad8 (length body) - length body"
  shows "\<exists>s1. inst_turn (16 + length body) (apply_actions_bytes (action_bytes 0xffff i body) @ beyond) s =
    Inr (2 ^ 64 - k, drop k beyond, s1)"
proof -
  let ?v = "ins_version s" and ?b = "action_bytes 0xffff i body"
  let ?a = "\<lparr>act_version = ?v, act_type = 0xffff, act_len = word_of_nat (8 + length body), act_body = Act_experimenter i body\<rparr>"
  have n: "unat (word_of_nat (8 + length body) :: u16) = 8 + length body"
    using small by (simp add: unat_of_nat_u16)
  have "body \<noteq> []"
    using un by auto
  moreover have "bytes_at 0 2 ?b = be_bytes 2 (0xffff :: u16)" "bytes_at 2 2 ?b = be_bytes 2 (word_of_nat (8 + length body) :: u16)"
    "bytes_at 4 4 ?b = be_bytes 4 i" "bytes_at 8 (length body) ?b = body" "4 \<le> (word_of_nat (8 + length body) :: u16)"
    using n by (simp_all add: action_bytes_def word_le_nat_alt) (simp add: bytes_at_def)
  ultimately have "action_unpack ?b (new_action C_experimenter ?v) = (?a, None)"
    using v n
    by (auto simp: action_unpack_def new_action_def cofaction_experimenter_unpack_def cofaction_experimenter_length_def of12_size_def
        unpack_action_sized pad8_def simp del: of_nat_add)
  moreover have "wire_class ?v 0xffff = Some C_experimenter" "version_allows C_experimenter ?v"
    using v by (auto simp: wire_class_def version_allows_def of10_classes_def)
  ultimately have act: "cofactions_unpack ?b (cofactions_new ?v) = (enter_action 0 ?a (cofactions_new ?v), None)"
    using small by (intro unpack_single_action) simp_all
  have pad: "pad8 (8 + length body) = 8 + length body + k" "0 < k" "k < 8"
    using un k by (auto simp: pad8_def dvd_eq_mod_eq_0)
  have "cofactions_length (enter_action 0 ?a (cofactions_new ?v)) = Inr (8 + length body + k)"
    using v pad(1)
    by (auto simp: cofactions_length_def enter_action_def put_action_def cofactions_new_def action_length_def
        cofaction_experimenter_length_def of12_size_def)
  moreover have "8 + length ?b < 2 ^ 16" "8 + length ?b \<le> 16 + length body"
    using small by simp_all
  moreover have "size_sub (16 + length body) (8 + (8 + length body + k)) = 2 ^ 64 - k"
    using size_sub_wraps [of "16 + length body" "8 + (8 + length body + k)"] pad(2,3) by simp
  moreover have "drop (8 + length body + k) (?b @ beyond) = drop k beyond"
    by simp
  ultimately show ?thesis
    using turn_apply_actions [OF v _ act, of "8 + length body + k" "16 + length body" beyond] by metis
qed

section \<open>Properties\<close>

text \<open>
  Reading a set of instructions never returns when an instruction of unknown type, with a plausible
  length, is at the front: the loop reports it and stays where it is.  One message hangs the thread.
\<close>

theorem unknown_instruction_hangs:
  assumes "unknown_head buf"
  shows "cofinstructions_unpack (length buf) (buf @ beyond) s = None"
  using unknown_head_at [OF assms] assms loop_unknown
  by (auto simp: cofinstructions_unpack_def unknown_head_def unknown_at_def)

theorem unknown_instruction_hangs_example: "cofinstructions_unpack 8 [0, 7, 0, 8, 0, 0, 0, 0] (cofinstructions_new 4) = None"
proof -
  let ?b = "[0, 7, 0, 8, 0, 0, 0, 0] :: byte list"
  have head: "unknown_head ?b"
    by (simp add: unknown_head_def unknown_at_def wire_len_def bytes_at_def be_word_def inst_class_of_def)
  have len: "length ?b = 8"
    by simp
  show ?thesis
    using unknown_instruction_hangs [OF head, of "[]", unfolded len append_Nil2] .
qed

text \<open>
  C19: and that is the only way: reading returns, with a result or an exception, exactly when no turn of the
  loop meets an instruction of unknown type.  The turns include those in the memory behind the buffer, where
  the loop goes on after \<open>buflen\<close> has wrapped around; a read beyond the memory given counts as an exception
  (\<open>EOutOfBoundsRead\<close>).
\<close>

theorem instruction_parser_ends:
  "cofinstructions_unpack buflen mem s = None \<longleftrightarrow>
     (\<exists>buflen' mem' s'. rtranclp inst_step (buflen, mem, cofinstructions_clear s) (buflen', mem', s') \<and> unknown_at buflen' mem')"
proof
  assume none: "cofinstructions_unpack buflen mem s = None"
  then have "inst_loop buflen mem (cofinstructions_clear s) = None"
    by (auto simp: cofinstructions_unpack_def Let_def split: if_splits)
  then obtain y where "rtranclp inst_step (buflen, mem, cofinstructions_clear s) y" "unknown_at (fst y) (fst (snd y))"
    using loop_returns by blast
  then show "\<exists>buflen' mem' s'. rtranclp inst_step (buflen, mem, cofinstructions_clear s) (buflen', mem', s') \<and> unknown_at buflen' mem'"
    by (cases y) auto
next
  assume "\<exists>buflen' mem' s'. rtranclp inst_step (buflen, mem, cofinstructions_clear s) (buflen', mem', s') \<and> unknown_at buflen' mem'"
  then obtain buflen' mem' s' where steps: "rtranclp inst_step (buflen, mem, cofinstructions_clear s) (buflen', mem', s')"
    and head: "unknown_at buflen' mem'"
    by blast
  have none: "inst_loop buflen mem (cofinstructions_clear s) = None"
    using loop_steps [OF steps] loop_unknown [OF head] by simp
  have "4 \<le> buflen"
  proof (rule ccontr)
    assume "\<not> 4 \<le> buflen"
    then have "inst_loop buflen mem (cofinstructions_clear s) \<noteq> None"
      by (subst inst_loop.simps) (simp add: inst_turn_def)
    with none show False by blast
  qed
  with none show "cofinstructions_unpack buflen mem s = None"
    by (simp add: cofinstructions_unpack_def)
qed

text \<open>
  What lies behind the message then decides whether the parser returns: an instruction of unknown type there
  stops the thread.
\<close>

lemma overrun_hyps:
  "ins_version (cofinstructions_clear (cofinstructions_new 4)) \<in> {3, 4}" "ins_version (cofinstructions_new 4) \<in> {3, 4}"
  "\<not> 8 dvd length [1 :: byte]" "16 + length [1 :: byte] < 2 ^ 16" "7 = pad8 (length [1 :: byte]) - length [1 :: byte]"
  "16 + length [1 :: byte] = 17" "drop 7 (replicate 7 0 @ xs) = xs"
  by (simp_all add: cofinstructions_new_def cofinstructions_clear_def pad8_def)

theorem instruction_parser_ends_witness:
  "cofinstructions_unpack 17 (apply_actions_bytes (action_bytes 0xffff 5 [1]) @ replicate 7 0 @ [0, 9, 0, 8]) (cofinstructions_new 4) = None"
proof -
  obtain s1 where "inst_turn 17 (apply_actions_bytes (action_bytes 0xffff 5 [1]) @ replicate 7 0 @ [0, 9, 0, 8])
      (cofinstructions_clear (cofinstructions_new 4)) = Inr (2 ^ 64 - 7, [0, 9, 0, 8], s1)"
    using turn_unaligned [OF overrun_hyps(1,3-5), of 5 "replicate 7 0 @ [0, 9, 0, 8]", unfolded overrun_hyps(6,7)] by blast
  then have "inst_step (17, apply_actions_bytes (action_bytes 0xffff 5 [1]) @ replicate 7 0 @ [0, 9, 0, 8],
      cofinstructions_clear (cofinstructions_new 4)) (2 ^ 64 - 7, [0, 9, 0, 8], s1)"
    by (simp add: inst_step_def)
  moreover have "unknown_at (2 ^ 64 - 7) [0, 9, 0, 8]"
    by (simp add: unknown_at_def wire_len_def bytes_at_def be_word_def inst_class_of_def)
  ultimately show ?thesis
    unfolding instruction_parser_ends by blast
qed

text \<open>
  C13: a set of instructions arrives as it was sent: the same instructions, with the same members, and with
  the actions of their lists in the same order, whatever lies in memory behind the message.
\<close>

theorem cofinstructions_roundtrip:
  assumes "insts_ok s" "cofinstructions_length s = Inr (length buf)" "ins_version s0 = ins_version s"
  shows "\<exists>s1 out s2. cofinstructions_pack buf s = (s1, Inr out) \<and> length out = length buf \<and>
    (\<forall>beyond. cofinstructions_unpack (length out) (out @ beyond) s0 = Some (s2, None)) \<and>
    instmap s2 = received_insts buf (instmap s)"
  using assms by (rule insts_wire)

definition insts_example :: cofinstructions where
  "insts_example =
     (cofinstructions_new 4)\<lparr>instmap :=
       [(1, \<lparr>inst_version = 4, inst_type = 1, inst_body = Inst_goto_table 5\<rparr>),
        (4, \<lparr>inst_version = 4, inst_type = 4, inst_body = Inst_apply_actions actions_example\<rparr>)]\<rparr>"

lemma insts_example_facts:
  "ins_version insts_example = 4" "cofinstructions_length insts_example = Inr 40"
  "map fst (instmap insts_example) = [1, 4]"
  using actions_example_length
  by (simp_all add: insts_example_def cofinstructions_new_def cofinstructions_length_def inst_length_def
      cofinstruction_goto_table_length_def cofinstruction_actions_length_def of12_size_def)

lemma insts_example_ok: "insts_ok insts_example"
proof -
  have "\<exists>c. inst_code c = 1 \<and> has_inst_class c (Inst_goto_table 5)"
    by (rule exI [of _ I_goto_table]) simp
  moreover have "\<exists>c. inst_code c = 4 \<and> has_inst_class c (Inst_apply_actions actions_example)"
    by (rule exI [of _ I_apply_actions]) simp
  ultimately show ?thesis
    using actions_example_length actions_example_wf actions_example_sendable
    by (simp add: insts_ok_def insts_example_def cofinstructions_new_def map_wf_def inst_sendable_def actions_sendable_def
        actions_example_facts(2) inst_length_def cofinstruction_goto_table_length_def cofinstruction_actions_length_def of12_size_def)
qed

theorem cofinstructions_roundtrip_witness:
  "\<exists>s1 out s2. cofinstructions_pack (replicate 40 0) insts_example = (s1, Inr out) \<and> length out = 40 \<and>
    cofinstructions_unpack 40 (out @ [9, 9]) (cofinstructions_new 4) = Some (s2, None) \<and> map fst (instmap s2) = [1, 4]"
  using cofinstructions_roundtrip [OF insts_example_ok, of "replicate 40 0" "cofinstructions_new 4"]
  by (fastforce simp: insts_example_facts cofinstructions_new_def)

text \<open>
  C27: an action longer than its class is read as far as its class goes; the parser of the instructions
  then continues inside the action: what the sender put behind the members of a group action is taken for
  the next instruction.
\<close>

theorem action_tail_is_instruction:
  assumes "ins_version s \<in> {3, 4}" "16 + length tail < 2 ^ 16" "16 + length tail \<le> n" "n < 2 ^ 64"
  shows "\<exists>l. inst_turn n (apply_actions_bytes (action_bytes 22 g tail) @ rest) s =
    Inr (n - 16, tail @ rest, put_inst 4 \<lparr>inst_version = ins_version s, inst_type = 4, inst_body = Inst_apply_actions l\<rparr> s)"
proof -
  let ?v = "ins_version s" and ?b = "action_bytes 22 g tail"
  let ?a = "\<lparr>act_version = ?v, act_type = 22, act_len = word_of_nat (8 + length tail), act_body = Act_group g\<rparr>"
  have n: "unat (word_of_nat (8 + length tail) :: u16) = 8 + length tail"
    using assms(2) by (simp add: unat_of_nat_u16)
  have "bytes_at 0 2 ?b = be_bytes 2 (22 :: u16)" "bytes_at 2 2 ?b = be_bytes 2 (word_of_nat (8 + length tail) :: u16)"
    "bytes_at 4 4 ?b = be_bytes 4 g" "4 \<le> (word_of_nat (8 + length tail) :: u16)"
    using n by (simp_all add: action_bytes_def word_le_nat_alt)
  then have "action_unpack ?b (new_action C_group ?v) = (?a, None)"
    using assms(1)
    by (auto simp: action_unpack_def new_action_def cofaction_group_unpack_def cofaction_group_length_def of12_size_def unpack_action_sized)
  moreover have "wire_class ?v 22 = Some C_group" "version_allows C_group ?v"
    using assms(1) by (auto simp: wire_class_def version_allows_def of10_classes_def)
  ultimately have "cofactions_unpack ?b (cofactions_new ?v) = (enter_action 0 ?a (cofactions_new ?v), None)"
    using assms(2) by (intro unpack_single_action) simp_all
  moreover have "cofactions_length (enter_action 0 ?a (cofactions_new ?v)) = Inr 8"
    using assms(1)
    by (auto simp: cofactions_length_def enter_action_def put_action_def cofactions_new_def action_length_def cofaction_group_length_def of12_size_def)
  ultimately show ?thesis
    using turn_apply_actions [OF assms(1), of ?b _ 8 n rest] size_sub_le [of 16 n] assms(2-4)
    by (auto simp: action_bytes_def)
qed

text \<open>A group action of sixteen bytes hides an instruction that goes to table 7.\<close>

theorem action_tail_is_instruction_witness:
  "\<exists>l. inst_turn 24 (apply_actions_bytes (action_bytes 22 9 [0, 1, 0, 8, 7, 0, 0, 0])) (cofinstructions_new 4) =
    Inr (8, [0, 1, 0, 8, 7, 0, 0, 0],
      put_inst 4 \<lparr>inst_version = 4, inst_type = 4, inst_body = Inst_apply_actions l\<rparr> (cofinstructions_new 4))"
  using action_tail_is_instruction [of "cofinstructions_new 4" "[0, 1, 0, 8, 7, 0, 0, 0]" 24 9 "[]"]
  by (simp add: cofinstructions_new_def)

text \<open>
  C26: an experimenter action whose body is not a multiple of eight bytes is longer as an object than it was
  on the wire.  When it ends the buffer, the parser steps over the end of the buffer by the \<open>k\<close> bytes of padding
  that were never sent, the remaining length wraps around to almost \<open>2 ^ 64\<close>, and the next turn reads the memory
  behind the message; if that is not readable the function ends with a read out of bounds.
\<close>

theorem unaligned_action_overruns:
  assumes "ins_version s \<in> {3, 4}" "\<not> 8 dvd length body" "16 + length body < 2 ^ 16"
    and "k = pad8 (length body) - length body"
  shows "0 < k \<and> k < 8 \<and>
    (\<exists>s1. inst_turn (16 + length body) (apply_actions_bytes (action_bytes 0xffff i body) @ beyond) s =
        Inr (2 ^ 64 - k, drop k beyond, s1)) \<and>
    (length beyond < k + 4 \<longrightarrow>
      (\<exists>s1. cofinstructions_unpack (16 + length body) (apply_actions_bytes (action_bytes 0xffff i body) @ beyond) s =
        Some (s1, Some EOutOfBoundsRead)))"
proof (intro conjI impI)
  show k: "0 < k" "k < 8"
    using assms(2,4) by (auto simp: pad8_def dvd_eq_mod_eq_0)
  show "\<exists>s1. inst_turn (16 + length body) (apply_actions_bytes (action_bytes 0xffff i body) @ beyond) s =
      Inr (2 ^ 64 - k, drop k beyond, s1)"
    using assms by (rule turn_unaligned)
  assume short: "length beyond < k + 4"
  have "ins_version (cofinstructions_clear s) \<in> {3, 4}"
    using assms(1) by (simp add: cofinstructions_clear_def)
  from turn_unaligned [OF this assms(2-4)] obtain s1 where
    "inst_turn (16 + length body) (apply_actions_bytes (action_bytes 0xffff i body) @ beyond) (cofinstructions_clear s) =
      Inr (2 ^ 64 - k, drop k beyond, s1)"
    by blast
  moreover have "inst_turn (2 ^ 64 - k) (drop k beyond) s1 = Inl (s1, Some EOutOfBoundsRead)"
    using short k(2) by (simp add: inst_turn_def)
  ultimately show "\<exists>s1. cofinstructions_unpack (16 + length body) (apply_actions_bytes (action_bytes 0xffff i body) @ beyond) s =
      Some (s1, Some EOutOfBoundsRead)"
    by (simp add: cofinstructions_unpack_def inst_loop.simps)
qed

theorem unaligned_action_overruns_witness:
  "\<exists>s1. inst_turn 17 (apply_actions_bytes (action_bytes 0xffff 5 [1]) @ replicate 7 0 @ [0, 1, 0, 8]) (cofinstructions_new 4) =
    Inr (2 ^ 64 - 7, [0, 1, 0, 8], s1)"
  using unaligned_action_overruns [OF overrun_hyps(2-5), of 5 "replicate 7 0 @ [0, 1, 0, 8]", unfolded overrun_hyps(6,7)]
  by blast

end
