(* ===== verification/Cofflowmod_Laws.thy ===== *)
theory Cofflowmod_Laws
  imports Cofflowmod Cofmatch_Wire Cofinstructions_Laws
begin

text \<open>
  A flow modification that is sent arrives; what the length of the match, and an unknown instruction, do to a
  receiver.
\<close>

section \<open>The length of a match that is sent\<close>

text \<open>An experimenter element without a mask may come back with the mask of the class.\<close>

fun keeps_length :: "u64 \<times> oxm_cls \<times> coxmatch \<Rightarrow> bool" where
  "keeps_length (k, c, Coxmatch_exp e) \<longleftrightarrow> get_oxm_hasmask (oxm_id e)"
| "keeps_length _ \<longleftrightarrow> True"

lemma coxmatch_length_packed: "coxmatch_pack n m = (m', Inr bytes) \<Longrightarrow> coxmatch_length m' = coxmatch_length m"
  by (cases m) (auto simp: coxmatch_class_defs oxm_pack_def oxm_length_def adjust_oxm_length_def map_prod_id_eq Let_def split: if_splits)

lemma coxmatch_length_canon:
  assumes "entry_ok (k, c, m)" "keeps_length (k, c, m)"
  shows "coxmatch_length (the (coxmatch_canon (fresh_match c m) m)) = coxmatch_length m"
proof -
  obtain m0 mc where "fresh_match c m = m0" "coxmatch_canon m0 m = Some mc"
    using entry_ok_canon [OF assms(1)] by blast
  then show ?thesis
    using assms(2)
    by (cases "(m0, m)" rule: coxmatch_canon.cases)
      (auto simp: coxmatch_class_defs oxm_length_def oxm_canon_def adjust_oxm_length_def exp_length_def Let_def)
qed

lemma coxmatches_length_canon:
  "list_all entry_ok ms \<Longrightarrow> list_all keeps_length ms \<Longrightarrow> coxmatches_length (map canon_entry ms) = coxmatches_length ms"
proof (induction ms)
  case (Cons e ms)
  then show ?case
    using coxmatch_length_canon by (cases e) (auto split: sum.split)
qed simp

lemma pack_matches_length: "pack_matches buf ms = (ms', Inr out) \<Longrightarrow> coxmatches_length ms' = coxmatches_length ms"
proof (induction ms arbitrary: buf ms' out)
  case (Cons e ms)
  obtain k c m where e: "e = (k, c, m)"
    by (cases e)
  from Cons.prems obtain n m1 bytes ms1 out1 where
    "coxmatch_pack n m = (m1, Inr bytes)" "pack_matches (drop n buf) ms = (ms1, Inr out1)" "ms' = (k, c, m1) # ms1"
    by (auto simp: e split: sum.splits prod.splits)
  then show ?case
    by (auto simp: e Cons.IH coxmatch_length_packed split: sum.split)
qed simp

lemma matches_wire:
  assumes "list_all entry_ok ms" "list_all keeps_length ms" "map_wf ms" "coxmatches_length ms = Inr (length buf)"
  shows "\<exists>ms1 out. coxmatches_pack buf ms = (ms1, Inr out) \<and> length out = length buf \<and>
    coxmatches_length ms1 = Inr (length buf) \<and> (\<forall>old. coxmatches_unpack out old = (map canon_entry ms, None))"
proof -
  have "map_wf ([] @ ms)"
    using assms(3) by simp
  from pack_unpack_matches [OF assms(1) this assms(4) order_refl]
  obtain ms1 out where out: "pack_matches buf ms = (ms1, Inr out)" "length out = length buf"
    "\<forall>tail. unpack_matches (out @ tail) [] = unpack_matches tail (map canon_entry ms)"
    by auto
  have "unpack_matches out [] = (map canon_entry ms, None)"
    using out(3) [rule_format, of "[]"] by (simp add: unpack_matches.simps [of "[]"])
  then show ?thesis
    using out assms(4) pack_matches_length [OF out(1)] by (simp add: coxmatches_pack_def coxmatches_unpack_def)
qed

section \<open>A match that is sent\<close>

definition match_ok :: "cofmatch \<Rightarrow> bool" where
  "match_ok m \<longleftrightarrow>
     of_version m \<in> {3, 4} \<and> match_type m = OFPMT_OXM \<and> map_wf (matches m) \<and>
     list_all entry_ok (matches m) \<and> list_all keeps_length (matches m)"

definition match_len :: "byte list \<Rightarrow> nat" where
  "match_len buf = unat (be_word (bytes_at 2 2 buf) :: u16)"

lemma be16_be_bytes: "be16 w = be_bytes 2 w"
  by (simp add: be16_def eval_nat_numeral)

lemma match_wire:
  assumes "match_ok m" "cofmatch_length m = Inr (length buf)" "length buf < 2 ^ 16"
  shows "\<exists>m1 out. cofmatch_pack buf m = (m1, Inr out) \<and> length out = length buf \<and> cofmatch_length m1 = Inr (length buf) \<and>
    8 \<le> length buf \<and> match_len out \<le> length buf \<and>
    (\<forall>m0. of_version m0 = of_version m \<longrightarrow>
      (\<exists>m2. cofmatch_unpack (take (match_len out) out) m0 = (m2, None) \<and> of_version m2 = of_version m \<and>
        cofmatch_length m2 = Inr (length buf) \<and> map entry_data (matches m2) = map entry_data (matches m)))"
proof -
  let ?ms = "matches m"
  have ok: "of_version m = 3 \<or> of_version m = 4" "match_type m = OFPMT_OXM" "map_wf ?ms"
    "list_all entry_ok ?ms" "list_all keeps_length ?ms"
    using assms(1) by (auto simp: match_ok_def)
  obtain n where n: "coxmatches_length ?ms = Inr n"
    using entries_length [OF ok(4)] by blast
  obtain p where p: "cofmatch_length m = Inr (4 + n + p)" "8 dvd 4 + n + p"
    by (rule cofmatch_length_of13 [OF ok(1) n])
  let ?buf = "take n (drop 4 buf)"
  have len: "length buf = 4 + n + p" "n = length ?buf"
    using assms(2) p by auto
  obtain ms1 oxms where w: "coxmatches_pack ?buf ?ms = (ms1, Inr oxms)" "length oxms = n" "coxmatches_length ms1 = Inr n"
    "\<And>old. coxmatches_unpack oxms old = (map canon_entry ?ms, None)"
    using matches_wire [OF ok(4,5,3), of ?buf] n len(2) by auto
  let ?out = "be16 OFPMT_OXM @ be16 (word_of_nat (4 + n)) @ oxms @ drop (4 + n) buf"
  have same_length: "cofmatch_length m' = Inr (length buf)"
    if "of_version m' = of_version m" "coxmatches_length (matches m') = Inr n" for m'
  proof -
    have "cofmatch_length m' = cofmatch_length m"
      unfolding cofmatch_length_def using that n by simp
    then show ?thesis
      using assms(2) by simp
  qed
  have "cofmatch_pack buf m = (m\<lparr>matches := ms1\<rparr>, Inr ?out)"
    using ok(1,2) p(1) n w(1) len by (auto simp: cofmatch_pack_def pack_of13_def)
  moreover have "match_len ?out = 4 + n"
    using assms(3) len by (simp add: match_len_def bytes_at_def be16_be_bytes unat_of_nat_u16)
  moreover have "8 \<le> length buf"
    using p(2) len by (simp add: dvd_imp_le)
  moreover have "cofmatch_unpack (take (4 + n) ?out) m0 = (m0\<lparr>matches := map canon_entry ?ms, match_type := OFPMT_OXM\<rparr>, None)"
    if "of_version m0 = of_version m" for m0
  proof -
    have t: "take (4 + n) ?out = be16 OFPMT_OXM @ be16 (word_of_nat (4 + n)) @ oxms"
      using w(2) by simp
    have "oxms = [] \<Longrightarrow> ?ms = []"
      using w(4) [of "[]"] by (simp add: coxmatches_unpack_def unpack_matches.simps)
    then show ?thesis
      unfolding t using that ok(1) w(4)
      by (auto simp: cofmatch_unpack_def unpack_of13_def coxmatches_clear_def be16_def Let_def)
  qed
  moreover have "map entry_data (map canon_entry ?ms) = map entry_data ?ms"
    using ok(4) entry_data_canon by (auto simp: list_all_iff)
  ultimately show ?thesis
    using len w(2,3) same_length coxmatches_length_canon [OF ok(4,5)] n
    by (intro exI [of _ "m\<lparr>matches := ms1\<rparr>"] exI [of _ ?out]) auto
qed

section \<open>A flow modification that is sent\<close>

definition flowmod_ok :: "cofflowmod \<Rightarrow> bool" where
  "flowmod_ok fm \<longleftrightarrow>
     fm_version fm \<in> {3, 4} \<and> of_version (fm_match fm) = fm_version fm \<and> match_ok (fm_match fm) \<and>
     ins_version (fm_instructions fm) = fm_version fm \<and> insts_ok (fm_instructions fm)"

definition flowmod_fields ::
  "cofflowmod \<Rightarrow> u64 \<times> u64 \<times> u8 \<times> u8 \<times> u16 \<times> u16 \<times> u16 \<times> u32 \<times> u32 \<times> u32 \<times> u16"
where
  "flowmod_fields fm =
     (fm_cookie fm, fm_cookie_mask fm, fm_table_id fm, fm_command fm, fm_idle_timeout fm, fm_hard_timeout fm,
      fm_priority fm, fm_buffer_id fm, fm_out_port fm, fm_out_group fm, fm_flags fm)"

definition flowmod_header :: "cofflowmod \<Rightarrow> byte list \<Rightarrow> byte list" where
  "flowmod_header fm buf = take 40 (put_fields (fields_of13 fm) buf)"

lemma length_put_fields [simp]:
  "\<forall>(i, bs) \<in> set fs. i + length bs \<le> length buf \<Longrightarrow> length (put_fields fs buf) = length buf"
  by (induction fs buf rule: put_fields.induct) auto

lemma drop_behind_put: "i + length bs \<le> n \<Longrightarrow> n \<le> length buf \<Longrightarrow> drop n (put_at i bs buf) = drop n buf"
  by (simp add: put_at_def)

lemma drop_put_fields:
  "\<forall>(i, bs) \<in> set fs. i + length bs \<le> n \<Longrightarrow> n \<le> length buf \<Longrightarrow> drop n (put_fields fs buf) = drop n buf"
proof (induction fs buf rule: put_fields.induct)
  case (2 i bs fs buf)
  then show ?case
    by (simp add: drop_behind_put)
qed simp

lemma flowmod_header_facts:
  assumes "40 \<le> length buf"
  shows "length (flowmod_header fm buf) = 40" "put_fields (fields_of13 fm) buf = flowmod_header fm buf @ drop 40 buf"
proof -
  have f: "\<forall>(i, bs) \<in> set (fields_of13 fm). i + length bs \<le> 40"
    by (simp add: fields_of13_def)
  then have "\<forall>(i, bs) \<in> set (fields_of13 fm). i + length bs \<le> length buf"
    using assms by fastforce
  then show "length (flowmod_header fm buf) = 40" "put_fields (fields_of13 fm) buf = flowmod_header fm buf @ drop 40 buf"
    using assms drop_put_fields [OF f] append_take_drop_id [of 40 "put_fields (fields_of13 fm) buf"]
    by (simp_all add: flowmod_header_def)
qed

lemma bytes_at_prefix: "i + n \<le> k \<Longrightarrow> k \<le> length buf \<Longrightarrow> bytes_at i n (take k buf @ rest) = bytes_at i n buf"
  by (simp add: bytes_at_def take_drop [symmetric] drop_take)

lemma bytes_at_before_fields:
  "\<forall>(j, bs) \<in> set fs. i + n \<le> j \<and> j + length bs \<le> length buf \<Longrightarrow> bytes_at i n (put_fields fs buf) = bytes_at i n buf"
  by (induction fs buf rule: put_fields.induct) auto

text \<open>Fields that do not overlap can be read back.\<close>

lemma bytes_at_field:
  assumes "sorted_wrt (\<lambda>x y. fst x + length (snd x) \<le> fst y) fs" "\<forall>(j, b) \<in> set fs. j + length b \<le> length buf"
    and "(i, bs) \<in> set fs" "n = length bs"
  shows "bytes_at i n (put_fields fs buf) = bs"
  using assms
proof (induction fs buf rule: put_fields.induct)
  case (2 j b fs buf)
  show ?case
  proof (cases "(i, bs) = (j, b)")
    case True
    moreover have "bytes_at i n (put_fields fs (put_at j b buf)) = bytes_at i n (put_at j b buf)"
      using 2 True by (intro bytes_at_before_fields) auto
    ultimately show ?thesis
      using 2 by simp
  qed (use 2 in auto)
qed simp

lemma read_fields:
  assumes "40 \<le> length buf"
  shows "flowmod_fields (read_of13 (put_fields (fields_of13 fm) buf) fm0) = flowmod_fields fm"
proof -
  let ?b = "put_fields (fields_of13 fm) buf"
  have at: "bytes_at i n ?b = bs" if "(i, bs) \<in> set (fields_of13 fm)" "n = length bs" for i n bs
    using assms that by (intro bytes_at_field) (auto simp: fields_of13_def)
  have
    "bytes_at 0 8 ?b = be_bytes 8 (fm_cookie fm)" "bytes_at 8 8 ?b = be_bytes 8 (fm_cookie_mask fm)"
    "bytes_at 16 1 ?b = be_bytes 1 (fm_table_id fm)" "bytes_at 17 1 ?b = be_bytes 1 (fm_command fm)"
    "bytes_at 18 2 ?b = be_bytes 2 (fm_idle_timeout fm)" "bytes_at 20 2 ?b = be_bytes 2 (fm_hard_timeout fm)"
    "bytes_at 22 2 ?b = be_bytes 2 (fm_priority fm)" "bytes_at 24 4 ?b = be_bytes 4 (fm_buffer_id fm)"
    "bytes_at 28 4 ?b = be_bytes 4 (fm_out_port fm)" "bytes_at 32 4 ?b = be_bytes 4 (fm_out_group fm)"
    "bytes_at 36 2 ?b = be_bytes 2 (fm_flags fm)"
    by (rule at; simp add: fields_of13_def)+
  then show ?thesis
    by (simp add: flowmod_fields_def read_of13_def del: One_nat_def)
qed

lemma read_header:
  assumes "40 \<le> length buf"
  shows "flowmod_fields (read_of13 (flowmod_header fm buf @ rest) fm0) = flowmod_fields fm"
proof -
  have "40 \<le> length (put_fields (fields_of13 fm) buf)"
    using flowmod_header_facts [OF assms] assms by simp
  then have "read_of13 (flowmod_header fm buf @ rest) fm0 = read_of13 (put_fields (fields_of13 fm) buf) fm0"
    by (simp add: flowmod_header_def read_of13_def bytes_at_prefix)
  then show ?thesis
    using read_fields [OF assms] by simp
qed

lemma received_insts_length:
  assumes "\<forall>(t, a) \<in> set as. inst_sendable v t a" "insts_length as = Inr (length buf)"
  shows "insts_length (received_insts buf as) = Inr (length buf)"
  using assms
proof (induction as arbitrary: buf)
  case (Cons x as)
  obtain t a where x: "x = (t, a)"
    by (cases x)
  obtain l m where l: "inst_length a = Inr l" "insts_length as = Inr m" "l + m = length buf"
    using Cons.prems(2) x by (auto simp: rbind_Inr_iff)
  have "inst_length a = Inr (length (take l buf))"
    using l by simp
  then obtain c out where "sends_inst (take l buf) a c out"
    using inst_wire_roundtrip [of v t a "take l buf"] Cons.prems(1) x by auto
  then have "inst_length (received_inst (take l buf) a) = Inr l"
    using l(3) by (simp add: sends_inst_def)
  then show ?case
    using x l Cons.IH [of "drop l buf"] Cons.prems(1) by (simp add: Let_def)
qed simp

lemma bytes_at_layout:
  assumes "length h = i" "length b = n"
  shows "bytes_at i n (h @ b @ rest) = b"
  using assms by (simp add: bytes_at_def)

lemma put_at_layout:
  assumes "length h = i" "length b = length b'"
  shows "put_at i b (h @ b' @ rest) = h @ b @ rest"
  using assms by (simp add: put_at_def)

lemma flowmod_packs:
  assumes "flowmod_ok fm" "cofflowmod_length fm = Inr (length buf)" "length buf < 2 ^ 16"
  shows "\<exists>fm1 k m1 mb is1 ib.
    cofflowmod_pack buf fm = (fm1, Inr (flowmod_header fm buf @ mb @ ib)) \<and>
    cofmatch_pack (bytes_at 40 k buf) (fm_match fm) = (m1, Inr mb) \<and> length mb = k \<and>
    cofmatch_length (fm_match fm) = Inr k \<and> 40 + k \<le> length buf \<and>
    cofinstructions_pack (drop (40 + k) buf) (fm_instructions fm) = (is1, Inr ib) \<and> length ib = length buf - 40 - k \<and>
    cofinstructions_length (fm_instructions fm) = Inr (length buf - 40 - k)"
proof -
  let ?m = "fm_match fm" and ?is = "fm_instructions fm" and ?h = "flowmod_header fm buf"
  have v: "fm_version fm = 3 \<or> fm_version fm = 4" and m: "match_ok ?m" and i: "insts_ok ?is"
    using assms(1) by (auto simp: flowmod_ok_def)
  then obtain k j where k: "cofmatch_length ?m = Inr k" "cofinstructions_length ?is = Inr j" "40 + k + j = length buf"
    using assms(2) by (auto simp: cofflowmod_length_def rbind_Inr_iff)
  let ?mbuf = "bytes_at 40 k buf" and ?ibuf = "drop (40 + k) buf"
  have h: "length ?h = 40" "put_fields (fields_of13 fm) buf = ?h @ ?mbuf @ ?ibuf"
    using flowmod_header_facts [of buf fm] k(3) append_take_drop_id [of k "drop 40 buf"] by (simp_all add: bytes_at_def add.commute)
  have mlen: "length ?mbuf = k" "length ?ibuf = j"
    using k(3) by simp_all
  obtain m1 mb where mb: "cofmatch_pack ?mbuf ?m = (m1, Inr mb)" "length mb = k" "cofmatch_length m1 = Inr k"
    using match_wire [OF m, of ?mbuf] k assms(3) mlen(1) by auto
  obtain is1 ib where ib: "cofinstructions_pack ?ibuf ?is = (is1, Inr ib)" "length ib = j"
    using insts_wire [OF i, of ?ibuf ?is] k(2) mlen(2) by auto
  have "pack_flowmod13 buf fm = (fm\<lparr>fm_match := m1, fm_instructions := is1\<rparr>, Inr (?h @ mb @ ib))"
    using h mlen mb ib k(1,2) put_at_layout [of ?h 40 mb ?mbuf ?ibuf] bytes_at_layout [of ?h 40 ?mbuf k ?ibuf]
      bytes_at_layout [of "?h @ mb" "40 + k" ?ibuf j "[]"] put_at_layout [of "?h @ mb" "40 + k" ib ?ibuf "[]"]
    by (simp add: pack_flowmod13_def Let_def)
  moreover have "buf \<noteq> []"
    using k(3) by auto
  ultimately have "cofflowmod_pack buf fm = (fm\<lparr>fm_match := m1, fm_instructions := is1\<rparr>, Inr (?h @ mb @ ib))"
    using v assms(2) by (auto simp: cofflowmod_pack_def)
  then show ?thesis
    using k mb ib mlen by (intro exI [of _ "fm\<lparr>fm_match := m1, fm_instructions := is1\<rparr>"] exI [of _ k] exI [of _ m1] exI [of _ mb] exI [of _ is1] exI [of _ ib]) auto
qed

lemma flowmod_wire:
  assumes "flowmod_ok fm" "cofflowmod_length fm = Inr (length buf)" "length buf < 2 ^ 16"
    and "fm_version fm0 = fm_version fm" "of_version (fm_match fm0) = fm_version fm" "ins_version (fm_instructions fm0) = fm_version fm"
  shows "\<exists>fm1 out fm2 k.
    cofflowmod_pack buf fm = (fm1, Inr out) \<and> length out = length buf \<and> cofmatch_length (fm_match fm) = Inr k \<and>
    cofflowmod_unpack (length buf) (out @ beyond) fm0 = Some (fm2, None) \<and> fm_version fm2 = fm_version fm \<and>
    flowmod_fields fm2 = flowmod_fields fm \<and> cofflowmod_length fm2 = Inr (length buf) \<and>
    map entry_data (matches (fm_match fm2)) = map entry_data (matches (fm_match fm)) \<and>
    instmap (fm_instructions fm2) = received_insts (drop (40 + k) buf) (instmap (fm_instructions fm))"
proof -
  let ?m = "fm_match fm" and ?is = "fm_instructions fm" and ?h = "flowmod_header fm buf" and ?v = "fm_version fm"
  have v: "?v = 3 \<or> ?v = 4" and m: "match_ok ?m" "of_version ?m = ?v" and i: "insts_ok ?is" "ins_version ?is = ?v"
    using assms(1) by (auto simp: flowmod_ok_def)
  obtain fm1 k m1 mb is1 ib where out: "cofflowmod_pack buf fm = (fm1, Inr (?h @ mb @ ib))"
    and mb: "cofmatch_pack (bytes_at 40 k buf) ?m = (m1, Inr mb)" "length mb = k"
    and k: "cofmatch_length ?m = Inr k" "40 + k \<le> length buf"
    and ib: "cofinstructions_pack (drop (40 + k) buf) ?is = (is1, Inr ib)" "length ib = length buf - 40 - k"
      "cofinstructions_length ?is = Inr (length buf - 40 - k)"
    using flowmod_packs [OF assms(1-3)] by blast
  let ?mem = "?h @ mb @ ib @ beyond" and ?f0 = "cofflowmod_clear fm0"
  let ?f1 = "read_of13 ?mem ?f0"
  have h: "length ?h = 40"
    using flowmod_header_facts(1) k(2) by simp
  have f1: "of_version (fm_match ?f1) = ?v" "ins_version (fm_instructions ?f1) = ?v" "fm_version ?f1 = ?v"
    using assms(4-6) by (simp_all add: read_of13_def cofflowmod_clear_def cofmatch_clear_def cofinstructions_clear_def)
  obtain m2 where m2: "cofmatch_unpack (take (match_len mb) mb) (fm_match ?f1) = (m2, None)" "of_version m2 = ?v"
    "cofmatch_length m2 = Inr k" "map entry_data (matches m2) = map entry_data (matches ?m)" "8 \<le> k" "match_len mb \<le> k"
    using match_wire [OF m(1), of "bytes_at 40 k buf"] k assms(3) mb f1(1) m(2) by auto
  obtain is2 where is2: "cofinstructions_unpack (length ib) (ib @ beyond) (fm_instructions ?f1) = Some (is2, None)"
    "instmap is2 = received_insts (drop (40 + k) buf) (instmap ?is)"
    using insts_wire [OF i(1), of "drop (40 + k) buf" "fm_instructions ?f1"] ib k(2) f1(2) i(2) by auto
  let ?f2 = "?f1\<lparr>fm_match := m2\<rparr>"
  define fm2 where "fm2 = (if ib = [] then ?f2 else ?f2\<lparr>fm_instructions := is2\<rparr>)"
  have at: "unat (be_word (bytes_at 42 2 ?mem) :: u16) = match_len mb" "bytes_at 40 (match_len mb) ?mem = take (match_len mb) mb"
    "drop (40 + k) ?mem = ib @ beyond"
    using h mb(2) ib(2) m2(5,6) by (simp_all add: match_len_def bytes_at_def)
  have small: "\<not> length ?mem < 40 + match_len mb" "\<not> length buf < 40 + k" "\<not> length buf < 40" "\<not> length buf - 40 < 8"
    "size_sub (length buf - 40) k = length ib"
    using h mb(2) m2(5,6) k(2) ib(2) assms(3) size_sub_le [of k "length buf - 40"] by auto
  have "unpack_flowmod13 (length buf) ?mem ?f0 = Some (fm2, None)"
    unfolding unpack_flowmod13_def Let_def at(1) using small at(2,3) m2 is2(1) by (simp add: fm2_def)
  then have "cofflowmod_unpack (length buf) (?h @ mb @ ib @ beyond) fm0 = Some (fm2, None)"
    using v assms(4) small(3) by (auto simp: cofflowmod_unpack_def)
  moreover have insts: "instmap (fm_instructions fm2) = received_insts (drop (40 + k) buf) (instmap ?is)"
    using is2 by (auto simp: fm2_def cofinstructions_unpack_def read_of13_def cofflowmod_clear_def cofinstructions_clear_def)
  moreover have "cofflowmod_length fm2 = Inr (length buf)"
  proof -
    have "insts_length (instmap ?is) = Inr (length (drop (40 + k) buf))"
      using ib(3) by (simp add: cofinstructions_length_def)
    then have "cofinstructions_length (fm_instructions fm2) = Inr (length buf - 40 - k)"
      unfolding cofinstructions_length_def insts using i received_insts_length [of "instmap ?is" ?v] by (simp add: insts_ok_def)
    then show ?thesis
      using v f1(3) m2(3) k(2) by (auto simp: cofflowmod_length_def fm2_def)
  qed
  moreover have "flowmod_fields fm2 = flowmod_fields fm"
  proof -
    have "flowmod_fields fm2 = flowmod_fields ?f1"
      by (simp add: flowmod_fields_def fm2_def)
    then show ?thesis
      using read_header k(2) by simp
  qed
  moreover have "fm_version fm2 = ?v" "map entry_data (matches (fm_match fm2)) = map entry_data (matches ?m)"
    using f1(3) m2(4) by (simp_all add: fm2_def read_of13_def)
  moreover have "length (?h @ mb @ ib) = length buf"
    using h mb(2) ib(2) k(2) by simp
  ultimately show ?thesis
    using out k(1) unfolding append_assoc [symmetric] by blast
qed

section \<open>The message around it\<close>

definition received_header :: "u8 \<Rightarrow> nat \<Rightarrow> u32 \<Rightarrow> 'e cofmsg_flow_mod \<Rightarrow> 'e cofmsg" where
  "received_header v n xid m =
     (fmm_msg m)\<lparr>msg_version := v, msg_type := OFPT_FLOW_MOD, msg_len := word_of_nat n, msg_xid := xid\<rparr>"

definition emptied :: "u8 \<Rightarrow> 'e cofmsg_flow_mod \<Rightarrow> cofflowmod" where
  "emptied v m = cofflowmod_clear (cofflowmod_set_version v (fmm_flowmod m))"

lemma emptied_facts:
  assumes "v \<in> {3, 4}"
  shows "fm_version (emptied v m) = v" "of_version (fm_match (emptied v m)) = v" "matches (fm_match (emptied v m)) = []"
    "ins_version (fm_instructions (emptied v m)) = v" "cofflowmod_length (emptied v m) = Inr 48"
  using assms
  by (auto simp: emptied_def cofflowmod_clear_def cofflowmod_set_version_def cofmatch_clear_def cofmatch_set_version_def
      coxmatches_clear_def cofinstructions_clear_def cofinstructions_set_version_def cofflowmod_length_def cofmatch_length_def
      cofinstructions_length_def Let_def)

lemma length_ofp_header_bytes: "length (ofp_header_bytes v t l x) = 8"
  by (simp add: ofp_header_bytes_def)

lemma flow_mod_header_unpack:
  assumes "8 \<le> n" "n < 2 ^ 16" "n \<le> 8 + length body"
  shows "cofmsg_unpack (take n (ofp_header_bytes v t (word_of_nat n) xid @ body)) msg =
    Inr (msg\<lparr>msg_version := v, msg_type := t, msg_len := word_of_nat n, msg_xid := xid\<rparr>)"
proof -
  have "take n (ofp_header_bytes v t (word_of_nat n) xid @ body) = ofp_header_bytes v t (word_of_nat n) xid @ take (n - 8) body"
    using assms(1) by (simp add: length_ofp_header_bytes)
  then show ?thesis
    using assms by (simp add: cofmsg_unpack_def ofp_header_bytes_def be16_def be32_def unat_of_nat_u16 del: of_nat_add)
qed

lemma flow_mod_unpack_body:
  assumes "v \<in> {3, 4}" "56 \<le> n" "n < 2 ^ 16" "n \<le> 8 + length body"
  shows "cofmsg_flow_mod_unpack n (ofp_header_bytes v OFPT_FLOW_MOD (word_of_nat n) xid @ body) m =
    map_option (\<lambda>(fm, e).
        (\<lparr>fmm_msg = received_header v n xid m, fmm_flowmod = fm\<rparr>,
         case e of
           Some e \<Rightarrow> Some e
         | None \<Rightarrow> (case cofflowmod_length fm of Inl e \<Rightarrow> Some e | Inr k \<Rightarrow> if n < 8 + k then Some EBadRequestBadLen else None)))
      (cofflowmod_unpack (n - 8) body (emptied v m))"
proof -
  have hdr: "cofmsg_unpack (take n (ofp_header_bytes v OFPT_FLOW_MOD (word_of_nat n) xid @ body)) (fmm_msg m) =
      Inr (received_header v n xid m)"
    unfolding received_header_def using assms(2-4) by (intro flow_mod_header_unpack) simp_all
  have n: "unat (msg_len (received_header v n xid m)) = n" "msg_version (received_header v n xid m) = v"
    "msg_type (received_header v n xid m) = OFPT_FLOW_MOD"
    using assms(3) by (simp_all add: received_header_def unat_of_nat_u16)
  have body: "drop 8 (ofp_header_bytes v OFPT_FLOW_MOD (word_of_nat n) xid @ body) = body"
    by (simp add: ofp_header_bytes_def)
  have "cofmsg_flow_mod_length \<lparr>fmm_msg = received_header v n xid m, fmm_flowmod = emptied v m\<rparr> = Inr 56"
    using emptied_facts(5) [OF assms(1), of m] by (simp add: cofmsg_flow_mod_length_def)
  then show ?thesis
    unfolding cofmsg_flow_mod_unpack_def hdr body
    using n assms(2)
    by (auto simp: Let_def emptied_def [symmetric] cofmsg_flow_mod_length_def intro!: arg_cong2 [of _ _ _ _ map_option] ext
        split: prod.split option.split sum.split)
qed

definition flow_mod_ok :: "'e cofmsg_flow_mod \<Rightarrow> bool" where
  "flow_mod_ok m \<longleftrightarrow>
     msg_type (fmm_msg m) = OFPT_FLOW_MOD \<and> msg_version (fmm_msg m) = fm_version (fmm_flowmod m) \<and>
     flowmod_ok (fmm_flowmod m)"

lemma match_length_8: "match_ok m \<Longrightarrow> cofmatch_length m = Inr k \<Longrightarrow> 8 \<le> k"
proof -
  assume m: "match_ok m" "cofmatch_length m = Inr k"
  then have v: "of_version m = 3 \<or> of_version m = 4"
    by (auto simp: match_ok_def)
  obtain n where n: "coxmatches_length (matches m) = Inr n"
    using m(1) entries_length by (auto simp: match_ok_def)
  obtain p where "cofmatch_length m = Inr (4 + n + p)" "8 dvd 4 + n + p"
    by (rule cofmatch_length_of13 [OF v n])
  then show "8 \<le> k"
    using m(2) by (simp add: dvd_imp_le)
qed

definition empty_match :: "byte list" where
  "empty_match = [0, 1, 0, 4, 0, 0, 0, 0]"

definition in_port_header :: "byte list" where
  "in_port_header = [0x80, 0, 0, 4]"

definition overlong_match :: "byte list \<Rightarrow> byte list" where
  "overlong_match port = [0, 1, 0, 20] @ in_port_header @ port @ in_port_header"

lemma unpack_in_port:
  assumes "length port = 4"
  shows "\<exists>x. unpack_match (in_port_header @ port @ tail) ms = (map_put 0x80000000 (Cls OFB_IN_PORT, Coxmatch_32 x) ms, None) \<and>
    oxm_value x = be_word port \<and> \<not> get_oxm_hasmask (oxm_id x)"
proof -
  let ?m = "ofb32_new OFB_IN_PORT (be_word port)"
  have port: "be_bytes 4 (be_word port :: u32) = port"
    using be_bytes_be_word [of port, where 'a = 32] assms by simp
  have ok: "entry_ok (0x80000000, Cls OFB_IN_PORT, ?m)"
    by (simp add: oxm_key_values oxm_new_defs)
  have pack: "coxmatch_pack 8 ?m = (?m, Inr ((in_port_header @ port)))"
    using port by (simp add: oxm_new_defs coxmatch_class_defs oxm_pack_def oxm_length_def adjust_oxm_length_def in_port_header_def Let_def
        get_oxm_hasmask_def set_oxm_length_def OXM_TLV_BASIC_def be32_def)
  let ?x = "oxm_canon 4 (\<lambda>_. 0xffffffff) 0xffffffff (oxm_new 0xffffffff (oxm_tlv OFB_IN_PORT) (be_word port))"
  have "unpack_match (in_port_header @ port @ tail) ms = (map_put 0x80000000 (Cls OFB_IN_PORT, Coxmatch_32 ?x) ms, None)"
    using unpack_entry [OF ok pack, of tail ms] by (simp add: oxm_new_defs)
  moreover have "oxm_value ?x = be_word port \<and> \<not> get_oxm_hasmask (oxm_id ?x)"
    by (simp add: oxm_canon_def adjust_oxm_length_def set_oxm_length_def get_oxm_hasmask_def OXM_TLV_BASIC_def Let_def oxm_new_def)
  ultimately show ?thesis
    by blast
qed

lemma unpack_in_port_step:
  assumes "length port = 4"
  shows "\<exists>x. unpack_matches (in_port_header @ port @ tail) ms =
      unpack_matches tail (map_put 0x80000000 (Cls OFB_IN_PORT, Coxmatch_32 x) ms) \<and>
    oxm_value x = be_word port \<and> \<not> get_oxm_hasmask (oxm_id x)"
proof -
  obtain x where "unpack_match (in_port_header @ port @ tail) ms = (map_put 0x80000000 (Cls OFB_IN_PORT, Coxmatch_32 x) ms, None)"
    "oxm_value x = be_word port" "\<not> get_oxm_hasmask (oxm_id x)"
    using unpack_in_port [OF assms] by blast
  moreover have "length (in_port_header @ port @ tail) = 8 + length tail" "(in_port_header @ port @ tail) ! 3 = 4"
    "drop 8 (in_port_header @ port @ tail) = tail"
    using assms by (simp_all add: in_port_header_def)
  ultimately show ?thesis
    by (subst unpack_matches.simps) auto
qed

lemma unpack_in_ports:
  assumes "length port = 4" "length secret = 4"
  shows "\<exists>x. coxmatches_unpack (in_port_header @ port @ in_port_header @ secret) ms =
      ([(0x80000000, Cls OFB_IN_PORT, Coxmatch_32 x)], None) \<and>
    oxm_value x = be_word secret \<and> \<not> get_oxm_hasmask (oxm_id x)"
proof -
  obtain x y where "unpack_matches (in_port_header @ port @ in_port_header @ secret) [] =
      unpack_matches (in_port_header @ secret) (map_put 0x80000000 (Cls OFB_IN_PORT, Coxmatch_32 x) [])"
    "unpack_matches (in_port_header @ secret) (map_put 0x80000000 (Cls OFB_IN_PORT, Coxmatch_32 x) []) =
      unpack_matches [] (map_put 0x80000000 (Cls OFB_IN_PORT, Coxmatch_32 y) (map_put 0x80000000 (Cls OFB_IN_PORT, Coxmatch_32 x) []))"
    "oxm_value y = be_word secret" "\<not> get_oxm_hasmask (oxm_id y)"
    using unpack_in_port_step [OF assms(1), of "in_port_header @ secret" "[]"] unpack_in_port_step [OF assms(2), of "[]"]
    by (metis append_Nil2)
  then show ?thesis
    by (simp add: coxmatches_unpack_def unpack_matches.simps [of "[]"])
qed

section \<open>Properties\<close>

text \<open>
  C7: a flow modification of OpenFlow 1.2 or 1.3 arrives as it was sent: transaction, members, match and
  instructions, whatever the receiving object held and whatever lies behind the message in memory.
\<close>

theorem flow_mod_roundtrip:
  assumes "flow_mod_ok m" "cofmsg_flow_mod_length m = Inr (length buf)" "length buf < 2 ^ 16"
  shows "\<exists>m1 out m2 k.
    cofmsg_flow_mod_pack buf m = (m1, Inr out) \<and> length out = length buf \<and>
    cofmsg_flow_mod_unpack (length buf) (out @ beyond) m0 = Some (m2, None) \<and>
    msg_version (fmm_msg m2) = msg_version (fmm_msg m) \<and> msg_xid (fmm_msg m2) = msg_xid (fmm_msg m) \<and>
    flowmod_fields (fmm_flowmod m2) = flowmod_fields (fmm_flowmod m) \<and>
    map entry_data (matches (fm_match (fmm_flowmod m2))) = map entry_data (matches (fm_match (fmm_flowmod m))) \<and>
    cofmatch_length (fm_match (fmm_flowmod m)) = Inr k \<and>
    instmap (fm_instructions (fmm_flowmod m2)) =
      received_insts (replicate (length buf - 48 - k) 0) (instmap (fm_instructions (fmm_flowmod m)))"
proof -
  let ?fm = "fmm_flowmod m" and ?v = "msg_version (fmm_msg m)" and ?x = "msg_xid (fmm_msg m)"
  have ok: "flowmod_ok ?fm" "fm_version ?fm = ?v" "msg_type (fmm_msg m) = OFPT_FLOW_MOD" and v: "?v \<in> {3, 4}"
    using assms(1) by (auto simp: flow_mod_ok_def flowmod_ok_def)
  obtain n where n: "cofflowmod_length ?fm = Inr n" "8 + n = length buf"
    using assms(2) by (auto simp: cofmsg_flow_mod_length_def rbind_Inr_iff)
  let ?body = "replicate n (0 :: byte)" and ?h = "ofp_header_bytes ?v OFPT_FLOW_MOD (word_of_nat (8 + n)) ?x"
  obtain fm1 out fm2 k where w: "cofflowmod_pack ?body ?fm = (fm1, Inr out)" "length out = n"
    "cofmatch_length (fm_match ?fm) = Inr k"
    "cofflowmod_unpack n (out @ beyond) (emptied ?v m0) = Some (fm2, None)"
    "flowmod_fields fm2 = flowmod_fields ?fm" "cofflowmod_length fm2 = Inr n"
    "map entry_data (matches (fm_match fm2)) = map entry_data (matches (fm_match ?fm))"
    "instmap (fm_instructions fm2) = received_insts (drop (40 + k) ?body) (instmap (fm_instructions ?fm))"
    using flowmod_wire [OF ok(1), of ?body "emptied ?v m0" beyond] n assms(3) emptied_facts [OF v, of m0] ok(2) by auto
  have "48 \<le> n"
    using ok(1) n(1) w(3) match_length_8 [OF _ w(3)] by (auto simp: flowmod_ok_def cofflowmod_length_def rbind_Inr_iff)
  have "unat (word_of_nat (8 + n) :: u16) = 8 + n" "buf \<noteq> []" "8 \<le> length buf" "length buf - 8 = n"
    using n(2) assms(3) unat_of_nat_u16 [of "8 + n"] by auto
  then obtain m1 where pk: "cofmsg_flow_mod_pack buf m = (m1, Inr (?h @ out))"
    using n w(1,2) ok(3)
    by (auto simp: cofmsg_flow_mod_pack_def cofmsg_pack_def Let_def bytes_at_def put_at_def length_ofp_header_bytes simp del: of_nat_add)
  have small: "8 + n < 2 ^ 16"
    using n(2) assms(3) by simp
  have "cofmsg_flow_mod_unpack (8 + n) (?h @ out @ beyond) m0 =
      Some (\<lparr>fmm_msg = received_header ?v (8 + n) ?x m0, fmm_flowmod = fm2\<rparr>, None)"
    using flow_mod_unpack_body [OF v, of "8 + n" "out @ beyond" ?x m0] \<open>48 \<le> n\<close> w(2,4,6) small by simp
  then have un: "cofmsg_flow_mod_unpack (length buf) (?h @ out @ beyond) m0 =
      Some (\<lparr>fmm_msg = received_header ?v (8 + n) ?x m0, fmm_flowmod = fm2\<rparr>, None)"
    by (simp only: n(2))
  have "drop (40 + k) ?body = replicate (length buf - 48 - k) 0"
    using n(2) by simp
  moreover have "length (?h @ out) = length buf"
    using n(2) w(2) by (simp add: length_ofp_header_bytes)
  ultimately show ?thesis
    using w(3,5,7,8) un pk
    by - (rule exI [of _ m1], rule exI [of _ "?h @ out"], rule exI [of _ "\<lparr>fmm_msg = received_header ?v (8 + n) ?x m0, fmm_flowmod = fm2\<rparr>"],
      rule exI [of _ k], simp add: received_header_def)
qed

definition flow_mod_example :: "nat cofmsg_flow_mod" where
  "flow_mod_example =
     \<lparr>fmm_msg = cofmsg_new 1 Cofmsg_flow_mod 4 OFPT_FLOW_MOD 5,
      fmm_flowmod = (cofflowmod_new 4)\<lparr>fm_match := \<lparr>of_version = 4, matches = oxms_example, match_type = OFPMT_OXM\<rparr>,
        fm_instructions := insts_example, fm_priority := 7\<rparr>\<rparr>"

lemma flow_mod_example_ok: "flow_mod_ok flow_mod_example"
  using oxms_example_ok insts_example_ok
  by (simp add: flow_mod_ok_def flow_mod_example_def cofmsg_new_def flowmod_ok_def cofflowmod_new_def match_ok_def
      insts_example_facts(1)) (simp add: oxms_example_def oxm_new_defs)

lemma flow_mod_example_length: "cofmsg_flow_mod_length flow_mod_example = Inr 120"
  using insts_example_facts(2)
  by (simp add: cofmsg_flow_mod_length_def flow_mod_example_def cofflowmod_length_def cofflowmod_new_def cofmatch_length_def
      oxms_example_def coxmatch_class_defs oxm_length_def oxm_new_defs Let_def HAS_MASK_FLAG_def OXM_TLV_BASIC_def get_oxm_hasmask_def)

theorem flow_mod_roundtrip_witness:
  "\<exists>m1 out m2. cofmsg_flow_mod_pack (replicate 120 0) flow_mod_example = (m1, Inr out) \<and>
    cofmsg_flow_mod_unpack 120 (out @ [1, 2, 3]) flow_mod_example = Some (m2, None) \<and>
    flowmod_fields (fmm_flowmod m2) = flowmod_fields (fmm_flowmod flow_mod_example)"
  using flow_mod_roundtrip [OF flow_mod_example_ok, of "replicate 120 0" "[1, 2, 3]" flow_mod_example] flow_mod_example_length
  by auto

text \<open>
  C8: the length field of the match is not compared with the message.  A message of 64 bytes, with two elements
  for the input port of which the second ends behind the message, is accepted, and the input port of the flow is
  read from the four bytes of memory behind the message.
\<close>

theorem flow_mod_reads_beyond:
  assumes "v \<in> {3, 4}" "length members = 40" "length port = 4" "length secret = 4"
  shows "\<exists>m2. cofmsg_flow_mod_unpack 64
      (ofp_header_bytes v OFPT_FLOW_MOD 64 xid @ members @ overlong_match port @ secret @ beyond) m = Some (m2, None) \<and>
    rbind (get_oxm OFB_IN_PORT (matches (fm_match (fmm_flowmod m2)))) get_u32value = Inr (be_word secret)"
proof -
  let ?body = "members @ overlong_match port @ secret @ beyond"
  let ?f1 = "read_of13 ?body (cofflowmod_clear (emptied v m))"
  let ?wire = "overlong_match port @ secret"
  obtain x where x: "\<And>ms. coxmatches_unpack (in_port_header @ port @ in_port_header @ secret) ms =
      ([(0x80000000, Cls OFB_IN_PORT, Coxmatch_32 x)], None)" "oxm_value x = be_word secret" "\<not> get_oxm_hasmask (oxm_id x)"
    using unpack_in_ports [OF assms(3,4)] by (auto simp: coxmatches_unpack_def)
  let ?m2 = "(fm_match ?f1)\<lparr>matches := [(0x80000000, Cls OFB_IN_PORT, Coxmatch_32 x)], match_type := OFPMT_OXM\<rparr>"
  have f1: "of_version (fm_match ?f1) = v" "fm_version ?f1 = v" "cofinstructions_length (fm_instructions ?f1) = Inr 0"
    using emptied_facts [OF assms(1), of m]
    by (simp_all add: read_of13_def cofflowmod_clear_def cofmatch_clear_def cofinstructions_clear_def cofinstructions_length_def)
  have at: "bytes_at 42 2 ?body = [0, 20]" "bytes_at 40 20 ?body = ?wire"
    using assms(2-4) by (simp_all add: bytes_at_def overlong_match_def in_port_header_def)
  have "unpack_of13 ?wire (fm_match ?f1) = (?m2, None)"
    using x(1) assms(3,4) by (simp add: unpack_of13_def overlong_match_def Let_def de16_def OFPMT_OXM_def)
  then have "cofmatch_unpack ?wire (fm_match ?f1) = (?m2, None)"
    using assms(1) f1(1) by (auto simp: cofmatch_unpack_def)
  moreover have "cofmatch_length ?m2 = Inr 16"
    using assms(1) f1(1) x(3) by (auto simp: cofmatch_length_def coxmatch_class_defs oxm_length_def Let_def)
  moreover have "length ?body = 60 + length beyond"
    using assms(2-4) by (simp add: overlong_match_def in_port_header_def)
  ultimately have "unpack_flowmod13 56 ?body (cofflowmod_clear (emptied v m)) = Some (?f1\<lparr>fm_match := ?m2\<rparr>, None)"
    using size_sub_le [of 16 16] by (simp add: unpack_flowmod13_def at Let_def be_word_def)
  then have "cofflowmod_unpack 56 ?body (emptied v m) = Some (?f1\<lparr>fm_match := ?m2\<rparr>, None)"
    using assms(1) emptied_facts(1) [OF assms(1), of m] by (auto simp: cofflowmod_unpack_def)
  moreover have "cofflowmod_length (?f1\<lparr>fm_match := ?m2\<rparr>) = Inr 56"
    using assms(1) f1 \<open>cofmatch_length ?m2 = Inr 16\<close> by (auto simp: cofflowmod_length_def)
  moreover have "rbind (get_oxm OFB_IN_PORT (matches ?m2)) get_u32value = Inr (be_word secret)"
    using x(2) by (simp add: get_oxm_def oxm_key_values)
  ultimately show ?thesis
    using flow_mod_unpack_body [OF assms(1), of 64 ?body xid m] assms(2-4)
    by (simp add: overlong_match_def in_port_header_def)
qed

theorem flow_mod_reads_beyond_witness:
  "\<exists>m2. cofmsg_flow_mod_unpack 64
      (ofp_header_bytes 4 OFPT_FLOW_MOD 64 7 @ replicate 40 0 @ overlong_match [0, 0, 0, 1] @ [222, 173, 190, 239] @ [5]) flow_mod_example =
      Some (m2, None) \<and>
    rbind (get_oxm OFB_IN_PORT (matches (fm_match (fmm_flowmod m2)))) get_u32value = Inr (be_word [222, 173, 190, 239])"
  by (rule flow_mod_reads_beyond) simp_all

text \<open>
  C16: a single message stops the thread of a connection: a flow modification without match whose first
  instruction has a type that the library does not know is never read to the end.
\<close>

theorem flow_mod_hangs:
  assumes "v \<in> {3, 4}" "length members = 40" "unknown_head insts" "n = 56 + length insts" "n < 2 ^ 16"
  shows "cofmsg_flow_mod_unpack n
    (ofp_header_bytes v OFPT_FLOW_MOD (word_of_nat n) xid @ members @ empty_match @ insts @ beyond) m = None"
proof -
  let ?body = "members @ empty_match @ insts @ beyond"
  let ?f1 = "read_of13 ?body (cofflowmod_clear (emptied v m))"
  let ?m2 = "(fm_match ?f1)\<lparr>match_type := OFPMT_OXM\<rparr>"
  have f1: "of_version (fm_match ?f1) = v" "matches (fm_match ?f1) = []"
    using emptied_facts [OF assms(1), of m]
    by (simp_all add: read_of13_def cofflowmod_clear_def cofmatch_clear_def coxmatches_clear_def)
  have at: "bytes_at 42 2 ?body = [0, 4]" "bytes_at 40 4 ?body = [0, 1, 0, 4]" "drop 48 ?body = insts @ beyond"
    using assms(2) by (simp_all add: bytes_at_def empty_match_def)
  have "unpack_of13 [0, 1, 0, 4] (fm_match ?f1) = (?m2, None)"
    using f1(2) by (simp add: unpack_of13_def Let_def de16_def OFPMT_OXM_def coxmatches_clear_def)
  then have "cofmatch_unpack [0, 1, 0, 4] (fm_match ?f1) = (?m2, None)"
    using assms(1) f1(1) by (auto simp: cofmatch_unpack_def)
  moreover have "cofmatch_length ?m2 = Inr 8"
    using assms(1) f1 by (auto simp: cofmatch_length_def Let_def)
  moreover have "length ?body = 48 + length insts + length beyond" "insts \<noteq> []"
    using assms(2,3) by (auto simp: empty_match_def unknown_head_def unknown_at_def)
  moreover have "cofinstructions_unpack (length insts) (insts @ beyond) s = None" for s
    using unknown_instruction_hangs [OF assms(3)] .
  moreover have "size_sub (40 + length insts + 8 - 40) 8 = length insts"
    using size_sub_le [of 8 "40 + length insts + 8 - 40"] assms(4,5) by simp
  ultimately have "unpack_flowmod13 (48 + length insts) ?body (cofflowmod_clear (emptied v m)) = None"
    by (simp add: unpack_flowmod13_def at Let_def be_word_def)
  then have "cofflowmod_unpack (n - 8) ?body (emptied v m) = None"
    using assms(1,4) emptied_facts(1) [OF assms(1), of m] by (auto simp: cofflowmod_unpack_def)
  then show ?thesis
    using flow_mod_unpack_body [OF assms(1), of n ?body xid m] assms(2,4,5) by (simp add: empty_match_def)
qed

theorem flow_mod_hangs_witness:
  "cofmsg_flow_mod_unpack 64 (ofp_header_bytes 4 OFPT_FLOW_MOD (word_of_nat 64) 7 @ replicate 40 0 @ empty_match @
     [0, 7, 0, 8, 0, 0, 0, 0] @ []) flow_mod_example = None"
  by (rule flow_mod_hangs) (simp_all add: unknown_head_def unknown_at_def wire_len_def bytes_at_def be_word_def inst_class_of_def)

end
