(* ===== verification/Cofpacketout.thy ===== *)
theory Cofpacketout
  imports Cpacket Cofflowmod_Laws
begin

text \<open>
  The packet-out message (\<open>messages/cofmsg_packet_out.h\<close>, \<open>cofmsg_packet_out.cc\<close>): a packet and the actions
  to apply to it.  The message is laid out in 16 bytes (OpenFlow 1.0) or 24 bytes (later), the actions, and the
  packet.
\<close>

section \<open>The message\<close>

record 'e cofmsg_packet_out =
  po_msg :: "'e cofmsg"
  po_buffer_id :: u32
  po_in_port :: u32
  po_actions :: cofactions
  po_packet :: cpacket

definition OFPT_PACKET_OUT :: u8 where "OFPT_PACKET_OUT = 13"

definition cofmsg_packet_out_new :: "nat \<Rightarrow> u8 \<Rightarrow> u32 \<Rightarrow> u32 \<Rightarrow> u32 \<Rightarrow> cofactions \<Rightarrow> byte list \<Rightarrow> 'e cofmsg_packet_out result" where
  "cofmsg_packet_out_new addr v xid bid port actions data =
     (case cofactions_assign (cofactions_new 0) actions of
        (_, Some e) \<Rightarrow> Inl e
      | (as, None) \<Rightarrow>
          Inr \<lparr>po_msg = cofmsg_new addr Cofmsg_packet_out v OFPT_PACKET_OUT xid, po_buffer_id = bid,
               po_in_port = port, po_actions = as, po_packet = cpacket_of data 64 256\<rparr>)"

definition cofmsg_packet_out_assign :: "'e cofmsg_packet_out \<Rightarrow> 'e cofmsg_packet_out \<Rightarrow> 'e cofmsg_packet_out outcome" where
  "cofmsg_packet_out_assign dst src =
     (let dst1 = dst\<lparr>po_msg := (po_msg src)\<lparr>msg_ptr := msg_ptr (po_msg dst)\<rparr>, po_buffer_id := po_buffer_id src,
                      po_in_port := po_in_port src\<rparr>
      in case cofactions_assign (po_actions dst) (po_actions src) of
           (as, Some e) \<Rightarrow> (dst1\<lparr>po_actions := as\<rparr>, Some e)
         | (as, None) \<Rightarrow> (dst1\<lparr>po_actions := as, po_packet := po_packet src\<rparr>, None))"

definition packet_out_size :: "u8 \<Rightarrow> nat" where
  "packet_out_size v = (if v = 1 then 16 else 24)"

definition cofmsg_packet_out_length :: "'e cofmsg_packet_out \<Rightarrow> nat result" where
  "cofmsg_packet_out_length m =
     rbind (cofactions_length (po_actions m)) (\<lambda>n.
       Inr (packet_out_size (msg_version (po_msg m)) + n + cpacket_length (po_packet m)))"

definition packet_out_fields :: "nat \<Rightarrow> 'e cofmsg_packet_out \<Rightarrow> (nat \<times> byte list) list" where
  "packet_out_fields n m =
     (if msg_version (po_msg m) = 1
      then [(8, be_bytes 4 (po_buffer_id m)), (12, be_bytes 2 (po_in_port m AND 0x0000ffff)), (14, be_bytes 2 (word_of_nat n :: u16))]
      else [(8, be_bytes 4 (po_buffer_id m)), (12, be_bytes 4 (po_in_port m)), (16, be_bytes 2 (word_of_nat n :: u16))])"

text \<open>
  The buffer is compared with the length field of the header, which has 16 bits: a longer message is written
  beyond a buffer of that fixed.
\<close>

definition cofmsg_packet_out_pack :: "byte list \<Rightarrow> 'e cofmsg_packet_out \<Rightarrow> 'e cofmsg_packet_out \<times> byte list result" where
  "cofmsg_packet_out_pack buf m =
     (case rbind (cofmsg_packet_out_length m) (\<lambda>l. rbind (cofactions_length (po_actions m)) (\<lambda>n. Inr (l, n))) of
        Inl e \<Rightarrow> (m, Inl e)
      | Inr (l, n) \<Rightarrow>
          (case cofmsg_pack l (po_msg m) buf of
             Inl e \<Rightarrow> (m\<lparr>po_msg := (po_msg m)\<lparr>msg_len := word_of_nat l\<rparr>\<rparr>, Inl e)
           | Inr (hdr, out) \<Rightarrow>
               let m1 = m\<lparr>po_msg := hdr\<rparr>; fixed = packet_out_size (msg_version hdr)
               in if buf = [] then (m1, Inr out)
                  else if length buf < unat (msg_len hdr) then (m1, Inl EInvalid)
                  else if length buf < l then (m1, Inl EOutOfBoundsWrite)
                  else let out1 = put_fields (packet_out_fields n m) out
                       in case (if cas_actions (po_actions m) = [] then (po_actions m, Inr [])
                                else cofactions_pack (bytes_at fixed n out1) (po_actions m)) of
                            (as, Inl e) \<Rightarrow> (m1\<lparr>po_actions := as\<rparr>, Inl e)
                          | (as, Inr acts) \<Rightarrow>
                              let out2 = put_at fixed acts out1
                              in (m1\<lparr>po_actions := as\<rparr>,
                                  if cpacket_empty (po_packet m) then Inr out2
                                  else rbind (cofactions_length as) (\<lambda>k.
                                         rbind (cpacket_pack (cpacket_length (po_packet m)) (po_packet m))
                                           (\<lambda>bytes. Inr (put_at (fixed + k) bytes out2))))))"

text \<open>
  \<open>mem\<close> is the memory from the message on, the message is its first \<open>buflen\<close> bytes.  \<open>packet_offset\<close> has
  16 bits: for a large \<open>actions_len\<close> it wraps around, passes the comparison with the length of the message, and
  the actions are read from behind the message.  Where the memory ends, the result is \<open>EOutOfBoundsRead\<close>.
\<close>

definition unpack_packet_out :: "nat \<Rightarrow> byte list \<Rightarrow> 'e cofmsg_packet_out \<Rightarrow> 'e cofmsg_packet_out outcome" where
  "unpack_packet_out buflen mem m =
     (let v = msg_version (po_msg m); len = unat (msg_len (po_msg m)); fixed = packet_out_size v
      in if len < fixed then (m, Some EBadRequestBadLen)
         else if msg_type (po_msg m) \<noteq> OFPT_PACKET_OUT then (m, Some EBadRequestBadType)
         else let m1 = m\<lparr>po_buffer_id := be_word (bytes_at 8 4 mem),
                         po_in_port := (if v = 1 then ucast (be_word (bytes_at 12 2 mem) :: u16) else be_word (bytes_at 12 4 mem))\<rparr>;
                  actions_len = (be_word (bytes_at (if v = 1 then 14 else 16) 2 mem) :: u16);
                  packet_offset = word_of_nat fixed + actions_len
              in if len < unat packet_offset then (m1, Some EBadRequestBadLen)
                 else if length mem < fixed + unat actions_len then (m1, Some EOutOfBoundsRead)
                 else case cofactions_unpack (bytes_at fixed (unat actions_len) mem) (po_actions m1) of
                   (as, Some e) \<Rightarrow> (m1\<lparr>po_actions := as\<rparr>, Some e)
                 | (as, None) \<Rightarrow>
                     (m1\<lparr>po_actions := as,
                         po_packet := cpacket_unpack (bytes_at (unat packet_offset) (buflen - unat packet_offset) mem) (po_packet m1)\<rparr>,
                      None))"

definition cofmsg_packet_out_unpack :: "nat \<Rightarrow> byte list \<Rightarrow> 'e cofmsg_packet_out \<Rightarrow> 'e cofmsg_packet_out outcome" where
  "cofmsg_packet_out_unpack buflen mem m =
     (case cofmsg_unpack (take buflen mem) (po_msg m) of
        Inl e \<Rightarrow> (m, Some e)
      | Inr hdr \<Rightarrow>
          let m1 = m\<lparr>po_msg := hdr,
                     po_actions := cofactions_set_version (msg_version hdr) (cofactions_clear (po_actions m)),
                     po_packet := cpacket_clear (po_packet m)\<rparr>
          in if buflen = 0 then (m1, None) else unpack_packet_out buflen mem m1)"

end
