(* ===== verification/Cofgroupmod.thy ===== *)
theory Cofgroupmod
  imports Cofpacketout
begin

text \<open>
  Group modifications: buckets (\<open>cofbucket.h\<close>, \<open>cofbucket.cc\<close>), lists of buckets (\<open>cofbuckets.h\<close>,
  \<open>cofbuckets.cc\<close>), the modification (\<open>cofgroupmod.h\<close>, \<open>cofgroupmod.cc\<close>) and its message
  (\<open>messages/cofmsg_group_mod.h\<close>, \<open>cofmsg_group_mod.cc\<close>).
\<close>

section \<open>Buckets\<close>

record cofbucket =
  bk_version :: u8
  bk_packet_count :: u64
  bk_byte_count :: u64
  bk_weight :: u16
  bk_watch_port :: u32
  bk_watch_group :: u32
  bk_actions :: cofactions

definition cofbucket_new :: "u8 \<Rightarrow> cofbucket" where
  "cofbucket_new v =
     \<lparr>bk_version = v, bk_packet_count = 0, bk_byte_count = 0, bk_weight = 0, bk_watch_port = 0, bk_watch_group = 0,
      bk_actions = cofactions_new v\<rparr>"

text \<open>\<open>operator=\<close>: the actions are copied before the counters; an exception of that copy leaves the rest as it was.\<close>

definition cofbucket_assign :: "cofbucket \<Rightarrow> cofbucket \<Rightarrow> cofbucket outcome" where
  "cofbucket_assign dst src =
     (case cofactions_assign (bk_actions dst) (bk_actions src) of
        (as, Some e) \<Rightarrow> (dst\<lparr>bk_version := bk_version src, bk_actions := as\<rparr>, Some e)
      | (as, None) \<Rightarrow>
          (\<lparr>bk_version = bk_version src, bk_packet_count = bk_packet_count src, bk_byte_count = bk_byte_count src,
            bk_weight = bk_weight src, bk_watch_port = bk_watch_port src, bk_watch_group = bk_watch_group src,
            bk_actions = as\<rparr>, None))"

definition cofbucket_eq :: "cofbucket \<Rightarrow> cofbucket \<Rightarrow> bool" where
  "cofbucket_eq b b' \<longleftrightarrow>
     bk_version b = bk_version b' \<and> cofactions_eq (bk_actions b) (bk_actions b') \<and>
     bk_packet_count b = bk_packet_count b' \<and> bk_byte_count b = bk_byte_count b' \<and>
     bk_weight b = bk_weight b' \<and> bk_watch_group b = bk_watch_group b' \<and> bk_watch_port b = bk_watch_port b'"

definition cofbucket_check_prerequisites :: "cofbucket \<Rightarrow> rofl_exn option" where
  "cofbucket_check_prerequisites b = cofactions_check_prerequisites (bk_actions b)"

definition cofbucket_length :: "cofbucket \<Rightarrow> nat result" where
  "cofbucket_length b = rbind (cofactions_length (bk_actions b)) (\<lambda>n. Inr (pad8 (16 + n)))"

definition cofbucket_stats :: "cofbucket \<Rightarrow> byte list \<Rightarrow> byte list" where
  "cofbucket_stats b body = mem_append body (be_bytes 8 (bk_packet_count b) @ be_bytes 8 (bk_byte_count b))"

text \<open>The functions for OpenFlow 1.2 and 1.3 are the same.\<close>

definition bucket_fields :: "nat \<Rightarrow> cofbucket \<Rightarrow> (nat \<times> byte list) list" where
  "bucket_fields n b =
     [(0, be_bytes 2 (word_of_nat n :: u16)), (2, be_bytes 2 (bk_weight b)), (4, be_bytes 4 (bk_watch_port b)),
      (8, be_bytes 4 (bk_watch_group b))]"

definition pack_bucket :: "byte list \<Rightarrow> cofbucket \<Rightarrow> cofbucket \<times> byte list result" where
  "pack_bucket buf b =
     (case cofactions_length (bk_actions b) of
        Inl e \<Rightarrow> (b, Inl e)
      | Inr n \<Rightarrow>
          if length buf < 16 + n then (b, Inl EBucketBadLen)
          else let out = put_fields (bucket_fields (16 + n) b) buf
               in (case cofactions_pack (drop 16 out) (bk_actions b) of
                     (as, Inl e) \<Rightarrow> (b\<lparr>bk_actions := as\<rparr>, Inl e)
                   | (as, Inr acts) \<Rightarrow> (b\<lparr>bk_actions := as\<rparr>, Inr (put_at 16 acts out))))"

definition cofbucket_pack :: "byte list \<Rightarrow> cofbucket \<Rightarrow> cofbucket \<times> byte list result" where
  "cofbucket_pack buf b = (if bk_version b = 3 \<or> bk_version b = 4 then pack_bucket buf b else (b, Inl EBadVersion))"

definition unpack_bucket :: "byte list \<Rightarrow> cofbucket \<Rightarrow> cofbucket outcome" where
  "unpack_bucket buf b =
     (if length buf < 16 then (b, None)
      else let b1 = b\<lparr>bk_weight := be_word (bytes_at 2 2 buf), bk_watch_port := be_word (bytes_at 4 4 buf),
                      bk_watch_group := be_word (bytes_at 8 4 buf)\<rparr>
           in if length buf - 16 < 8 then (b1, None)
              else (case cofactions_unpack (drop 16 buf) (bk_actions b1) of (as, e) \<Rightarrow> (b1\<lparr>bk_actions := as\<rparr>, e)))"

definition cofbucket_unpack :: "byte list \<Rightarrow> cofbucket \<Rightarrow> cofbucket outcome" where
  "cofbucket_unpack buf b = (if bk_version b = 3 \<or> bk_version b = 4 then unpack_bucket buf b else (b, Some EBadVersion))"

definition cofbucket_of :: "u8 \<Rightarrow> byte list \<Rightarrow> cofbucket outcome" where
  "cofbucket_of v buf = (if buf = [] then (cofbucket_new v, None) else cofbucket_unpack buf (cofbucket_new v))"

section \<open>Lists of buckets\<close>

record cofbuckets =
  bks_version :: u8
  bks_map :: "(u32 \<times> cofbucket) list"

definition cofbuckets_new :: "u8 \<Rightarrow> cofbuckets" where
  "cofbuckets_new v = \<lparr>bks_version = v, bks_map = []\<rparr>"

definition cofbuckets_clear :: "cofbuckets \<Rightarrow> cofbuckets" where
  "cofbuckets_clear s = s\<lparr>bks_map := []\<rparr>"

fun copy_buckets :: "(u32 \<times> cofbucket) list \<Rightarrow> cofbuckets \<Rightarrow> cofbuckets outcome" where
  "copy_buckets [] s = (s, None)"
| "copy_buckets ((i, b) # bs) s =
     (let old = (case map_of (bks_map s) i of None \<Rightarrow> cofbucket_new 0 | Some b' \<Rightarrow> b')
      in case cofbucket_assign old b of
           (b', Some e) \<Rightarrow> (s\<lparr>bks_map := map_put i b' (bks_map s)\<rparr>, Some e)
         | (b', None) \<Rightarrow> copy_buckets bs (s\<lparr>bks_map := map_put i b' (bks_map s)\<rparr>))"

definition cofbuckets_assign :: "cofbuckets \<Rightarrow> cofbuckets \<Rightarrow> cofbuckets outcome" where
  "cofbuckets_assign dst src = copy_buckets (bks_map src) (cofbuckets_clear (dst\<lparr>bks_version := bks_version src\<rparr>))"

text \<open>\<open>operator==\<close> uses \<open>at()\<close>, which throws for an absent key.\<close>

fun buckets_match :: "(u32 \<times> cofbucket) list \<Rightarrow> (u32 \<times> cofbucket) list \<Rightarrow> bool result" where
  "buckets_match m [] = Inr True"
| "buckets_match m ((i, b) # bs) =
     (case map_of m i of
        None \<Rightarrow> Inl EOutOfRange
      | Some b' \<Rightarrow> if cofbucket_eq b' b then buckets_match m bs else Inr False)"

definition cofbuckets_eq :: "cofbuckets \<Rightarrow> cofbuckets \<Rightarrow> bool result" where
  "cofbuckets_eq s s' =
     (if bks_version s \<noteq> bks_version s' then Inr False
      else if length (bks_map s) \<noteq> length (bks_map s') then Inr False
      else buckets_match (bks_map s) (bks_map s'))"

text \<open>\<open>set_version\<close> does not touch the buckets.\<close>

definition cofbuckets_set_version :: "u8 \<Rightarrow> cofbuckets \<Rightarrow> cofbuckets" where
  "cofbuckets_set_version v s = s\<lparr>bks_version := v\<rparr>"

definition cofbuckets_keys :: "cofbuckets \<Rightarrow> u32 list" where
  "cofbuckets_keys s = map fst (bks_map s)"

definition add_bucket :: "u32 \<Rightarrow> cofbuckets \<Rightarrow> cofbuckets \<times> cofbucket" where
  "add_bucket i s =
     (let b = cofbucket_new (bks_version s) in (s\<lparr>bks_map := map_put i b (map_erase i (bks_map s))\<rparr>, b))"

definition set_bucket :: "u32 \<Rightarrow> cofbuckets \<Rightarrow> cofbuckets \<times> cofbucket" where
  "set_bucket i s =
     (case map_of (bks_map s) i of
        None \<Rightarrow> let b = cofbucket_new (bks_version s) in (s\<lparr>bks_map := map_put i b (bks_map s)\<rparr>, b)
      | Some b \<Rightarrow> (s, b))"

definition get_bucket :: "u32 \<Rightarrow> cofbuckets \<Rightarrow> cofbucket result" where
  "get_bucket i s = (case map_of (bks_map s) i of None \<Rightarrow> Inl EBucketsNotFound | Some b \<Rightarrow> Inr b)"

definition drop_bucket :: "u32 \<Rightarrow> cofbuckets \<Rightarrow> cofbuckets \<times> bool" where
  "drop_bucket i s =
     (if map_of (bks_map s) i = None then (s, False) else (s\<lparr>bks_map := map_erase i (bks_map s)\<rparr>, True))"

definition has_bucket :: "u32 \<Rightarrow> cofbuckets \<Rightarrow> bool" where
  "has_bucket i s \<longleftrightarrow> map_of (bks_map s) i \<noteq> None"

fun check_each_bucket :: "(u32 \<times> cofbucket) list \<Rightarrow> rofl_exn option" where
  "check_each_bucket [] = None"
| "check_each_bucket ((i, b) # bs) =
     (case cofbucket_check_prerequisites b of Some e \<Rightarrow> Some e | None \<Rightarrow> check_each_bucket bs)"

definition cofbuckets_check_prerequisites :: "cofbuckets \<Rightarrow> rofl_exn option" where
  "cofbuckets_check_prerequisites s = check_each_bucket (bks_map s)"

fun buckets_length :: "(u32 \<times> cofbucket) list \<Rightarrow> nat result" where
  "buckets_length [] = Inr 0"
| "buckets_length ((i, b) # bs) = rbind (cofbucket_length b) (\<lambda>n. rbind (buckets_length bs) (\<lambda>k. Inr (n + k)))"

definition cofbuckets_length :: "cofbuckets \<Rightarrow> nat result" where
  "cofbuckets_length s = buckets_length (bks_map s)"

text \<open>Every bucket gets the next \<open>length()\<close> bytes; the position advances by the length it has afterwards.\<close>

fun pack_buckets :: "byte list \<Rightarrow> (u32 \<times> cofbucket) list \<Rightarrow> (u32 \<times> cofbucket) list \<times> byte list result" where
  "pack_buckets buf [] = ([], Inr buf)"
| "pack_buckets buf ((i, b) # bs) =
     (case cofbucket_length b of
        Inl e \<Rightarrow> ((i, b) # bs, Inl e)
      | Inr n \<Rightarrow>
          (case cofbucket_pack (take n buf) b of
             (b', Inl e) \<Rightarrow> ((i, b') # bs, Inl e)
           | (b', Inr bytes) \<Rightarrow>
               (case cofbucket_length b' of
                  Inl e \<Rightarrow> ((i, b') # bs, Inl e)
                | Inr k \<Rightarrow>
                    (case pack_buckets (drop k (bytes @ drop n buf)) bs of
                       (bs', Inl e) \<Rightarrow> ((i, b') # bs', Inl e)
                     | (bs', Inr rest) \<Rightarrow> ((i, b') # bs', Inr (take k (bytes @ drop n buf) @ rest))))))"

definition cofbuckets_pack :: "byte list \<Rightarrow> cofbuckets \<Rightarrow> cofbuckets \<times> byte list result" where
  "cofbuckets_pack buf s =
     (if bks_version s = 3 \<or> bks_version s = 4 then
        (case cofbuckets_length s of
           Inl e \<Rightarrow> (s, Inl e)
         | Inr n \<Rightarrow>
             if length buf < n then (s, Inl EBucketsInval)
             else (case pack_buckets buf (bks_map s) of (bs, r) \<Rightarrow> (s\<lparr>bks_map := bs\<rparr>, r)))
      else (s, Inl EBadVersion))"

text \<open>
  The loop of \<open>unpack\<close>: \<open>mem\<close> is the memory from the current bucket on, \<open>buflen\<close> what is left of the buffer.
  The length of a bucket is not compared with \<open>buflen\<close>: a longer bucket makes \<open>buflen\<close> wrap around, and the
  loop goes on through the memory until it finds a length below 16.
\<close>

function unpack_buckets :: "nat \<Rightarrow> byte list \<Rightarrow> u32 \<Rightarrow> cofbuckets \<Rightarrow> cofbuckets outcome" where
  "unpack_buckets buflen mem i s =
     (if buflen = 0 then (s, None)
      else if length mem < 2 then (s, Some EOutOfBoundsRead)
      else let len = unat (be_word (bytes_at 0 2 mem) :: u16)
           in if len < 16 then (s, None)
              else let (s1, b) = add_bucket i s
                   in if length mem < len then (s1, Some EOutOfBoundsRead)
                      else (case cofbucket_unpack (take len mem) b of
                              (b', e) \<Rightarrow>
                                let s2 = s1\<lparr>bks_map := map_put i b' (bks_map s1)\<rparr>
                                in case e of
                                     Some e \<Rightarrow> (s2, Some e)
                                   | None \<Rightarrow> unpack_buckets (size_sub buflen len) (drop len mem) (i + 1) s2))"
  by pat_completeness auto

termination unpack_buckets
  by (relation "measure (\<lambda>(buflen, mem, i, s). length mem)") auto

declare unpack_buckets.simps [simp del]

definition cofbuckets_unpack :: "nat \<Rightarrow> byte list \<Rightarrow> cofbuckets \<Rightarrow> cofbuckets outcome" where
  "cofbuckets_unpack buflen mem s =
     (if bks_version s = 3 \<or> bks_version s = 4 then
        let s1 = cofbuckets_clear s in if buflen < 16 then (s1, None) else unpack_buckets buflen mem 0 s1
      else (s, Some EBadVersion))"

section \<open>The modification\<close>

record cofgroupmod =
  gm_version :: u8
  gm_command :: u16
  gm_type :: u8
  gm_group_id :: u32
  gm_buckets :: cofbuckets

definition cofgroupmod_new :: "u8 \<Rightarrow> cofgroupmod" where
  "cofgroupmod_new v =
     \<lparr>gm_version = v, gm_command = 0, gm_type = 0, gm_group_id = 0, gm_buckets = cofbuckets_new v\<rparr>"

definition cofgroupmod_assign :: "cofgroupmod \<Rightarrow> cofgroupmod \<Rightarrow> cofgroupmod outcome" where
  "cofgroupmod_assign dst src =
     (case cofbuckets_assign (gm_buckets dst) (gm_buckets src) of
        (bs, e) \<Rightarrow> (src\<lparr>gm_buckets := bs\<rparr>, e))"

definition cofgroupmod_clear :: "cofgroupmod \<Rightarrow> cofgroupmod" where
  "cofgroupmod_clear g = g\<lparr>gm_buckets := cofbuckets_clear (gm_buckets g)\<rparr>"

definition cofgroupmod_check_prerequisites :: "cofgroupmod \<Rightarrow> rofl_exn option" where
  "cofgroupmod_check_prerequisites g = cofbuckets_check_prerequisites (gm_buckets g)"

definition cofgroupmod_set_version :: "u8 \<Rightarrow> cofgroupmod \<Rightarrow> cofgroupmod" where
  "cofgroupmod_set_version v g = g\<lparr>gm_version := v, gm_buckets := cofbuckets_set_version v (gm_buckets g)\<rparr>"

definition cofgroupmod_length :: "cofgroupmod \<Rightarrow> nat result" where
  "cofgroupmod_length g =
     (if gm_version g = 3 \<or> gm_version g = 4 then rbind (cofbuckets_length (gm_buckets g)) (\<lambda>n. Inr (8 + n))
      else Inl EBadVersion)"

definition groupmod_fields :: "cofgroupmod \<Rightarrow> (nat \<times> byte list) list" where
  "groupmod_fields g = [(0, be_bytes 2 (gm_command g)), (2, be_bytes 1 (gm_type g)), (4, be_bytes 4 (gm_group_id g))]"

definition cofgroupmod_pack :: "byte list \<Rightarrow> cofgroupmod \<Rightarrow> cofgroupmod \<times> byte list result" where
  "cofgroupmod_pack buf g =
     (if buf = [] then (g, Inr buf)
      else case cofgroupmod_length g of
        Inl e \<Rightarrow> (g, Inl e)
      | Inr n \<Rightarrow>
          if length buf < n then (g, Inl EInvalid)
          else let out = put_fields (groupmod_fields g) buf
               in (case cofbuckets_pack (drop 8 out) (gm_buckets g) of
                     (bs, Inl e) \<Rightarrow> (g\<lparr>gm_buckets := bs\<rparr>, Inl e)
                   | (bs, Inr bytes) \<Rightarrow> (g\<lparr>gm_buckets := bs\<rparr>, Inr (put_at 8 bytes out))))"

definition cofgroupmod_unpack :: "nat \<Rightarrow> byte list \<Rightarrow> cofgroupmod \<Rightarrow> cofgroupmod outcome" where
  "cofgroupmod_unpack buflen mem g =
     (let g1 = g\<lparr>gm_buckets := cofbuckets_clear (cofbuckets_set_version (gm_version g) (gm_buckets g))\<rparr>
      in if buflen = 0 then (g1, None)
         else case cofgroupmod_length g1 of
           Inl e \<Rightarrow> (g1, Some e)
         | Inr n \<Rightarrow>
             if buflen < n then (g1, Some EInvalid)
             else let g2 = g1\<lparr>gm_command := be_word (bytes_at 0 2 mem), gm_type := be_word (bytes_at 2 1 mem),
                              gm_group_id := be_word (bytes_at 4 4 mem)\<rparr>
                  in if buflen \<le> 8 then (g2, None)
                     else (case cofbuckets_unpack (buflen - 8) (drop 8 mem) (gm_buckets g2) of
                             (bs, e) \<Rightarrow> (g2\<lparr>gm_buckets := bs\<rparr>, e)))"

section \<open>The message\<close>

record 'e cofmsg_group_mod =
  gmm_msg :: "'e cofmsg"
  gmm_groupmod :: cofgroupmod

definition OFPT_GROUP_MOD :: u8 where "OFPT_GROUP_MOD = 15"

definition cofmsg_group_mod_new :: "nat \<Rightarrow> u8 \<Rightarrow> u32 \<Rightarrow> cofgroupmod \<Rightarrow> 'e cofmsg_group_mod result" where
  "cofmsg_group_mod_new addr v xid g =
     (case cofgroupmod_assign (cofgroupmod_new 0) g of
        (_, Some e) \<Rightarrow> Inl e
      | (g1, None) \<Rightarrow>
          Inr \<lparr>gmm_msg = cofmsg_new addr Cofmsg_group_mod v OFPT_GROUP_MOD xid, gmm_groupmod = cofgroupmod_set_version v g1\<rparr>)"

definition cofmsg_group_mod_assign :: "'e cofmsg_group_mod \<Rightarrow> 'e cofmsg_group_mod \<Rightarrow> 'e cofmsg_group_mod outcome" where
  "cofmsg_group_mod_assign dst src =
     (case cofgroupmod_assign (gmm_groupmod dst) (gmm_groupmod src) of
        (g, e) \<Rightarrow> (\<lparr>gmm_msg = (gmm_msg src)\<lparr>msg_ptr := msg_ptr (gmm_msg dst)\<rparr>, gmm_groupmod = g\<rparr>, e))"

definition cofmsg_group_mod_check_prerequisites :: "'e cofmsg_group_mod \<Rightarrow> rofl_exn option" where
  "cofmsg_group_mod_check_prerequisites m = cofgroupmod_check_prerequisites (gmm_groupmod m)"

definition cofmsg_group_mod_set_version :: "u8 \<Rightarrow> 'e cofmsg_group_mod \<Rightarrow> 'e cofmsg_group_mod" where
  "cofmsg_group_mod_set_version v m =
     m\<lparr>gmm_msg := (gmm_msg m)\<lparr>msg_version := v\<rparr>, gmm_groupmod := cofgroupmod_set_version v (gmm_groupmod m)\<rparr>"

definition cofmsg_group_mod_length :: "'e cofmsg_group_mod \<Rightarrow> nat result" where
  "cofmsg_group_mod_length m = rbind (cofgroupmod_length (gmm_groupmod m)) (\<lambda>n. Inr (8 + n))"

definition cofmsg_group_mod_pack :: "byte list \<Rightarrow> 'e cofmsg_group_mod \<Rightarrow> 'e cofmsg_group_mod \<times> byte list result" where
  "cofmsg_group_mod_pack buf m =
     (case cofgroupmod_length (gmm_groupmod m) of
        Inl e \<Rightarrow> (m, Inl e)
      | Inr n \<Rightarrow>
          (case cofmsg_pack (8 + n) (gmm_msg m) buf of
             Inl e \<Rightarrow> (m\<lparr>gmm_msg := (gmm_msg m)\<lparr>msg_len := word_of_nat (8 + n)\<rparr>\<rparr>, Inl e)
           | Inr (hdr, out) \<Rightarrow>
               let m1 = m\<lparr>gmm_msg := hdr\<rparr>
               in if buf = [] then (m1, Inr out)
                  else if length buf < 8 + n then (m1, Inl EInvalid)
                  else (case cofgroupmod_pack (bytes_at 8 n out) (gmm_groupmod m) of
                          (g, Inl e) \<Rightarrow> (m1\<lparr>gmm_groupmod := g\<rparr>, Inl e)
                        | (g, Inr bytes) \<Rightarrow> (m1\<lparr>gmm_groupmod := g\<rparr>, Inr (put_at 8 bytes out)))))"

definition cofmsg_group_mod_unpack :: "nat \<Rightarrow> byte list \<Rightarrow> 'e cofmsg_group_mod \<Rightarrow> 'e cofmsg_group_mod outcome" where
  "cofmsg_group_mod_unpack buflen mem m =
     (case cofmsg_unpack (take buflen mem) (gmm_msg m) of
        Inl e \<Rightarrow> (m, Some e)
      | Inr hdr \<Rightarrow>
          let m1 = \<lparr>gmm_msg = hdr, gmm_groupmod = cofgroupmod_clear (cofgroupmod_set_version (msg_version hdr) (gmm_groupmod m))\<rparr>
          in if buflen = 0 then (m1, None)
             else case cofmsg_group_mod_length m1 of
               Inl e \<Rightarrow> (m1, Some e)
             | Inr n \<Rightarrow>
                 if buflen < n then (m1, Some EBadRequestBadLen)
                 else if msg_type hdr \<noteq> OFPT_GROUP_MOD then (m1, Some EBadRequestBadType)
                 else let (g, e) = (if 8 < buflen then cofgroupmod_unpack (buflen - 8) (drop 8 mem) (gmm_groupmod m1)
                                    else (gmm_groupmod m1, None));
                          m2 = m1\<lparr>gmm_groupmod := g\<rparr>
                      in case e of
                           Some e \<Rightarrow> (m2, Some e)
                         | None \<Rightarrow>
                             (case cofmsg_group_mod_length m2 of
                                Inl e \<Rightarrow> (m2, Some e)
                              | Inr n \<Rightarrow> (m2, if unat (msg_len hdr) < n then Some EBadRequestBadLen else None)))"

end
