(* ===== verification/Cofpacketout_Laws.thy ===== *)
theory Cofpacketout_Laws
  imports Cofpacketout
begin

text \<open>
  A packet-out message that is sent arrives; a message whose actions have a length close to 64 kB makes the
  receiver parse the memory behind the message.
\<close>

section \<open>Packing keeps the length\<close>

lemma pack_action_keeps:
  assumes "pack_action len fs a buf = (a', r)"
  shows "act_body a' = act_body a \<and> act_version a' = act_version a"
  using assms by (auto simp: pack_action_def cofaction_pack_def Let_def split: if_splits sum.splits)

lemma sf_store_member: "sf_member t sf = Some m \<Longrightarrow> coxmatch_pack n m = (m', Inr out) \<Longrightarrow> sf_member t (sf_store t m' sf) = Some m'"
  by (cases t) (auto simp: coxmatch_class_defs map_prod_def split: prod.splits)

lemma sf_store_type: "sf_type (sf_store (sf_type sf) m sf) = sf_type sf"
  by (cases "(sf_type sf, m, sf)" rule: sf_store.cases) auto

lemma set_field_pack_length:
  assumes "cofaction_set_field_pack sf a buf = (a', Inr out)" "act_body a = Act_set_field sf"
  shows "action_length a' = action_length a"
proof -
  obtain a1 r where a1: "pack_action (cofaction_set_field_length sf) [] a buf = (a1, r)"
    by fastforce
  have keeps: "act_body a1 = Act_set_field sf" "act_version a1 = act_version a"
    using pack_action_keeps [OF a1] assms(2) by simp_all
  consider "a' = a1" | m m' bytes l where "sf_member (sf_type sf) sf = Some m" "coxmatch_pack l m = (m', Inr bytes)"
    "a' = a1\<lparr>act_body := Act_set_field (sf_store (sf_type sf) m' sf)\<rparr>"
    using assms(1) a1
    by (auto simp: cofaction_set_field_pack_def split: prod.splits sum.splits option.splits if_splits)
  then show ?thesis
  proof cases
    case 2
    then show ?thesis
      using keeps assms(2) sf_store_member [OF 2(1,2)] coxmatch_length_packed [OF 2(2)]
      by (simp add: action_length_def cofaction_set_field_length_def sf_store_type)
  qed (use keeps assms(2) in \<open>simp add: action_length_def\<close>)
qed

lemma action_pack_keeps:
  assumes "action_pack a buf = (a', Inr out)" "body_class (act_body a) \<noteq> C_set_field"
  shows "act_body a' = act_body a \<and> act_version a' = act_version a"
  by (cases "act_body a")
    (use assms in \<open>auto simp: action_pack_def fixed_action_defs body_classes split: prod.splits sum.splits if_splits
      dest!: pack_action_keeps simp del: One_nat_def\<close>)

lemma action_pack_length:
  assumes "action_pack a buf = (a', Inr out)"
  shows "action_length a' = action_length a"
proof (cases "body_class (act_body a) = C_set_field")
  case True
  then obtain sf where "act_body a = Act_set_field sf"
    by (cases "act_body a") auto
  then show ?thesis
    using assms set_field_pack_length by (simp add: action_pack_def)
next
  case False
  show ?thesis
    using action_pack_keeps [OF assms False] by (cases "act_body a") (simp_all add: action_length_def)
qed

lemma pack_actions_length:
  "pack_actions buf as = (as', Inr out) \<Longrightarrow> actions_length as' = actions_length as"
proof (induction as arbitrary: buf as' out)
  case (Cons x as)
  then show ?case
    by (cases x) (auto simp: action_pack_length split: sum.splits prod.splits)
qed simp

lemma cofactions_pack_length: "cofactions_pack buf s = (s', Inr out) \<Longrightarrow> cofactions_length s' = cofactions_length s"
  by (auto simp: cofactions_pack_def cofactions_length_def pack_actions_length split: if_splits sum.splits prod.splits)

section \<open>Actions, empty or not\<close>

definition actions_ok :: "u8 \<Rightarrow> cofactions \<Rightarrow> bool" where
  "actions_ok v s \<longleftrightarrow> cas_version s = v \<and> cofactions_wf s \<and> (\<forall>(i, a) \<in> set (cas_actions s). sendable a)"

definition pack_if_any :: "byte list \<Rightarrow> cofactions \<Rightarrow> cofactions \<times> byte list result" where
  "pack_if_any buf s = (if cas_actions s = [] then (s, Inr []) else cofactions_pack buf s)"

lemma actions_or_none:
  assumes "actions_ok v s" "cofactions_length s = Inr (length buf)"
  shows "\<exists>s1 out s2. pack_if_any buf s = (s1, Inr out) \<and>
    length out = length buf \<and> cofactions_length s1 = Inr (length buf) \<and>
    cofactions_unpack out (cofactions_new v) = (s2, None) \<and> cofactions_wf s2 \<and> cas_version s2 = v \<and>
    cas_actions s2 = indexed 0 (received_actions buf (map snd (cas_actions s)))"
proof (cases "cas_actions s = []")
  case True
  then show ?thesis
    using assms by (simp add: cofactions_length_def cofactions_unpack_def pack_if_any_def) (simp add: cofactions_new_def)
next
  case False
  then obtain s1 out s2 where w: "cofactions_pack buf s = (s1, Inr out)" "length out = length buf"
    "cofactions_unpack out (cofactions_new v) = (s2, None)" "cofactions_wf s2" "cas_version s2 = v"
    "cas_actions s2 = indexed 0 (received_actions buf (map snd (cas_actions s)))"
    using actions_wire [of s buf "cofactions_new v"] assms by (auto simp: actions_ok_def cofactions_new_def)
  then show ?thesis
    using False cofactions_pack_length [OF w(1)] assms(2) by (simp add: pack_if_any_def)
qed

section \<open>The layout of a packet-out message\<close>

definition packet_out_head :: "nat \<Rightarrow> 'e cofmsg_packet_out \<Rightarrow> byte list" where
  "packet_out_head n m =
     (if msg_version (po_msg m) = 1
      then be_bytes 4 (po_buffer_id m) @ be_bytes 2 (po_in_port m AND 0x0000ffff) @ be_bytes 2 (word_of_nat n :: u16)
      else be_bytes 4 (po_buffer_id m) @ be_bytes 4 (po_in_port m) @ be_bytes 2 (word_of_nat n :: u16) @ replicate 6 0)"

lemma length_packet_out_head: "8 + length (packet_out_head n m) = packet_out_size (msg_version (po_msg m))"
  by (simp add: packet_out_head_def packet_out_size_def)

lemma packet_out_written:
  assumes "length h = 8" "length z = packet_out_size (msg_version (po_msg m)) - 8" "z = replicate (length z) 0"
  shows "put_fields (packet_out_fields n m) (h @ z @ rest) = h @ packet_out_head n m @ rest"
proof (cases "msg_version (po_msg m) = 1")
  case True
  then have z: "z = replicate 4 0 @ replicate 2 0 @ replicate 2 0"
    using assms(2,3) by (simp add: packet_out_size_def flip: replicate_add)
  show ?thesis
    unfolding z using assms(1) True by (simp add: packet_out_fields_def packet_out_head_def put_at_def)
next
  case False
  then have z: "z = replicate 4 0 @ replicate 4 0 @ replicate 2 0 @ replicate 6 0"
    using assms(2,3) by (simp add: packet_out_size_def flip: replicate_add)
  show ?thesis
    unfolding z using assms(1) False by (simp add: packet_out_fields_def packet_out_head_def put_at_def)
qed

lemma low_mask: "(0x0000ffff :: u32) = mask 16"
  by (simp add: mask_eq_exp_minus_1)

lemma be_bytes_low: "be_bytes 2 (w AND 0x0000ffff) = be_bytes 2 (ucast (w :: u32) :: u16)"
proof -
  have "ucast (drop_bit 8 (w AND mask 16)) = (ucast (drop_bit 8 (ucast w :: u16)) :: byte)"
    "ucast (w AND mask 16) = (ucast (ucast w :: u16) :: byte)"
    by (auto intro!: bit_word_eqI simp: bit_simps)
  then show ?thesis
    unfolding low_mask by (simp add: numeral_2_eq_2)
qed

lemma ucast_low: "ucast (ucast (w :: u32) :: u16) = w AND 0x0000ffff"
  unfolding low_mask by (auto intro!: bit_word_eqI simp: bit_simps)

definition sent_port :: "'e cofmsg_packet_out \<Rightarrow> u32" where
  "sent_port m = (if msg_version (po_msg m) = 1 then po_in_port m AND 0x0000ffff else po_in_port m)"

lemma packet_out_read:
  fixes m :: "'e cofmsg_packet_out"
  assumes "length h = 8" and mem_def: "mem = h @ packet_out_head n m @ rest" and v_def: "v = msg_version (po_msg m)"
  shows "be_word (bytes_at 8 4 mem) = po_buffer_id m"
    and "(if v = 1 then ucast (be_word (bytes_at 12 2 mem) :: u16) else be_word (bytes_at 12 4 mem)) = sent_port m"
    and "be_word (bytes_at (if v = 1 then 14 else 16) 2 mem) = (word_of_nat n :: u16)"
    and "drop (packet_out_size v) mem = rest" "length mem = packet_out_size v + length rest"
proof -
  have ver: "v = 1 \<or> v \<noteq> 1"
    by blast
  then show "be_word (bytes_at 8 4 mem) = po_buffer_id m"
    using assms(1) by (elim disjE) (simp_all add: mem_def v_def packet_out_head_def bytes_at_def)
  show "(if v = 1 then ucast (be_word (bytes_at 12 2 mem) :: u16) else be_word (bytes_at 12 4 mem)) = sent_port m"
    using ver assms(1)
    by (elim disjE) (simp_all add: mem_def v_def packet_out_head_def bytes_at_def sent_port_def be_bytes_low ucast_low)
  show "be_word (bytes_at (if v = 1 then 14 else 16) 2 mem) = (word_of_nat n :: u16)"
    using ver assms(1) by (elim disjE) (simp_all add: mem_def v_def packet_out_head_def bytes_at_def)
  show "drop (packet_out_size v) mem = rest" "length mem = packet_out_size v + length rest"
    using length_packet_out_head [of n m] assms(1) by (simp_all add: mem_def v_def)
qed

definition packet_out_emptied :: "'e cofmsg \<Rightarrow> 'e cofmsg_packet_out \<Rightarrow> 'e cofmsg_packet_out" where
  "packet_out_emptied hdr m =
     m\<lparr>po_msg := hdr, po_actions := cofactions_new (msg_version hdr), po_packet := cpacket_clear (po_packet m)\<rparr>"

definition received_msg :: "u8 \<Rightarrow> u8 \<Rightarrow> nat \<Rightarrow> u32 \<Rightarrow> 'e cofmsg \<Rightarrow> 'e cofmsg" where
  "received_msg v t len xid m = m\<lparr>msg_version := v, msg_type := t, msg_len := word_of_nat len, msg_xid := xid\<rparr>"

lemma packet_out_emptied_facts:
  fixes m :: "'e cofmsg_packet_out"
  assumes m0_def: "m0 = packet_out_emptied (received_msg v t len xid hdr) m"
  shows "msg_type (po_msg m0) = t" "v = msg_version (po_msg m0)" "po_actions m0 = cofactions_new v" "po_packet m0 = cpacket_clear (po_packet m)"
    and "len < 2 ^ 16 \<Longrightarrow> unat (msg_len (po_msg m0)) = len" "msg_xid (po_msg m0) = xid"
  by (simp_all add: m0_def packet_out_emptied_def received_msg_def unat_of_nat_u16)

lemma packet_out_unpack_body:
  assumes "8 \<le> len" "len < 2 ^ 16" "len \<le> 8 + length body"
  shows "cofmsg_packet_out_unpack len (ofp_header_bytes v t (word_of_nat len) xid @ body) m =
    unpack_packet_out len (ofp_header_bytes v t (word_of_nat len) xid @ body)
      (packet_out_emptied (received_msg v t len xid (po_msg m)) m)"
  unfolding cofmsg_packet_out_unpack_def flow_mod_header_unpack [OF assms]
  using assms(1)
  by (cases "po_actions m") (simp add: Let_def packet_out_emptied_def received_msg_def cofactions_set_version_def cofactions_clear_def cofactions_new_def)

lemma unpack_packet_out_body:
  assumes "msg_type (po_msg m) = OFPT_PACKET_OUT" "v = msg_version (po_msg m)"
    and "be_word (bytes_at 8 4 mem) = bid"
    and "(if v = 1 then ucast (be_word (bytes_at 12 2 mem) :: u16) else be_word (bytes_at 12 4 mem)) = port"
    and "be_word (bytes_at (if v = 1 then 14 else 16) 2 mem) = (alen :: u16)"
    and "unat (word_of_nat (packet_out_size v) + alen) = offset" "offset \<le> unat (msg_len (po_msg m))"
    and "packet_out_size v \<le> unat (msg_len (po_msg m))" "packet_out_size v + unat alen \<le> length mem"
  shows "unpack_packet_out buflen mem m =
    (let m1 = m\<lparr>po_buffer_id := bid, po_in_port := port\<rparr>
     in case cofactions_unpack (bytes_at (packet_out_size v) (unat alen) mem) (po_actions m) of
          (as, Some e) \<Rightarrow> (m1\<lparr>po_actions := as\<rparr>, Some e)
        | (as, None) \<Rightarrow>
            (m1\<lparr>po_actions := as, po_packet := cpacket_unpack (bytes_at offset (buflen - offset) mem) (po_packet m)\<rparr>, None))"
  using assms(1,6-9) unfolding assms(3-5) [symmetric] assms(2)
  by (simp add: unpack_packet_out_def Let_def split: prod.split option.split)

lemma cpacket_clear_fits: "pk_ihead p + n + pk_itail p < 2 ^ 64 \<Longrightarrow> cpacket_fits n (cpacket_clear p)"
  by (simp add: cpacket_fits_def cpacket_clear_def)

section \<open>Properties\<close>

definition packet_out_ok :: "'e cofmsg_packet_out \<Rightarrow> bool" where
  "packet_out_ok m \<longleftrightarrow>
     msg_type (po_msg m) = OFPT_PACKET_OUT \<and> actions_ok (msg_version (po_msg m)) (po_actions m) \<and> cpacket_wf (po_packet m)"

lemma packet_out_packs:
  assumes "packet_out_ok m" "cofmsg_packet_out_length m = Inr (length buf)" "length buf < 2 ^ 16"
  shows "\<exists>m1 acts as n.
    cofmsg_packet_out_pack buf m =
      (m1, Inr (ofp_header_bytes (msg_version (po_msg m)) OFPT_PACKET_OUT (word_of_nat (length buf)) (msg_xid (po_msg m)) @
        packet_out_head n m @ acts @ cpacket_bytes (po_packet m))) \<and>
    cofactions_length (po_actions m) = Inr n \<and> length acts = n \<and>
    length buf = packet_out_size (msg_version (po_msg m)) + n + length (cpacket_bytes (po_packet m)) \<and>
    cofactions_unpack acts (cofactions_new (msg_version (po_msg m))) = (as, None) \<and>
    cas_actions as = indexed 0 (received_actions (replicate n 0) (map snd (cas_actions (po_actions m))))"
proof -
  let ?v = "msg_version (po_msg m)" and ?p = "po_packet m" and ?as = "po_actions m"
  let ?size = "packet_out_size ?v" and ?frame = "cpacket_bytes ?p"
  let ?h = "ofp_header_bytes ?v OFPT_PACKET_OUT (word_of_nat (length buf)) (msg_xid (po_msg m))"
  have ok: "msg_type (po_msg m) = OFPT_PACKET_OUT" "actions_ok ?v ?as" "cpacket_wf ?p"
    using assms(1) by (auto simp: packet_out_ok_def)
  obtain n where "cofactions_length ?as = Inr n" "?size + n + length ?frame = length buf"
    using assms(2) cpacket_wf_length [OF ok(3)] by (auto simp: cofmsg_packet_out_length_def rbind_Inr_iff)
  then have n: "cofactions_length ?as = Inr n" "length buf = ?size + n + length ?frame"
    by simp_all
  have size: "16 \<le> ?size"
    by (simp add: packet_out_size_def)
  let ?rest = "replicate n 0 @ replicate (length ?frame) 0"
  obtain s1 acts as where w: "pack_if_any (replicate n 0) ?as = (s1, Inr acts)" "length acts = n"
    "cofactions_length s1 = Inr n" "cofactions_unpack acts (cofactions_new ?v) = (as, None)"
    "cas_actions as = indexed 0 (received_actions (replicate n 0) (map snd (cas_actions ?as)))"
    using actions_or_none [OF ok(2), of "replicate n 0"] n(1) by auto
  have h: "length ?h = 8"
    by simp
  have "replicate (length buf - 8) (0 :: byte) = replicate (?size - 8) 0 @ ?rest"
    using n(2) size by (simp flip: replicate_add)
  then have out1: "put_fields (packet_out_fields n m) (?h @ replicate (length buf - 8) 0) = ?h @ packet_out_head n m @ ?rest"
    using packet_out_written [OF h, of "replicate (?size - 8) 0" m n ?rest] by simp
  have hl: "length (?h @ packet_out_head n m) = ?size"
    using length_packet_out_head [of n m] by simp
  have acts: "bytes_at ?size n (?h @ packet_out_head n m @ ?rest) = replicate n 0"
    using bytes_at_layout [of "?h @ packet_out_head n m" ?size "replicate n 0" n "replicate (length ?frame) 0"] hl by simp
  have out2: "put_at ?size acts (?h @ packet_out_head n m @ ?rest) =
      ?h @ packet_out_head n m @ acts @ replicate (length ?frame) 0"
    using put_at_layout [of "?h @ packet_out_head n m" ?size acts "replicate n 0" "replicate (length ?frame) 0"] hl w(2) by simp
  have out3: "put_at (?size + n) ?frame (?h @ packet_out_head n m @ acts @ replicate (length ?frame) 0) =
      ?h @ packet_out_head n m @ acts @ ?frame"
    using put_at_layout [of "?h @ packet_out_head n m @ acts" "?size + n" ?frame "replicate (length ?frame) 0" "[]"] hl w(2) by simp
  have "buf \<noteq> []" "\<not> length buf < 8" "unat (word_of_nat (length buf) :: u16) = length buf"
    using n(2) size unat_of_nat_u16 [OF assms(3) refl] by (auto simp del: of_nat_add)
  then have pk: "cofmsg_pack (length buf) (po_msg m) buf =
      Inr ((po_msg m)\<lparr>msg_len := word_of_nat (length buf)\<rparr>, ?h @ replicate (length buf - 8) 0)"
    using ok(1) by (simp add: cofmsg_pack_def Let_def)
  show ?thesis
    using pk w n assms(2) out1 acts out2 out3 cpacket_wf_length [OF ok(3)] cpacket_send [OF ok(3)] \<open>buf \<noteq> []\<close>
      \<open>unat (word_of_nat (length buf) :: u16) = length buf\<close>
    by (intro exI [of _ "m\<lparr>po_msg := (po_msg m)\<lparr>msg_len := word_of_nat (length buf)\<rparr>, po_actions := s1\<rparr>"] exI [of _ acts] exI [of _ as]
        exI [of _ n]) (auto simp: cofmsg_packet_out_pack_def Let_def cpacket_empty_def pack_if_any_def)
qed

text \<open>
  C12: a packet-out message arrives as it was sent: buffer, port, actions and packet, whatever the receiving
  object held and whatever lies behind the message in memory.  (OpenFlow 1.0 has ports of 16 bits.)
\<close>

theorem packet_out_roundtrip:
  assumes "packet_out_ok m" "msg_version (po_msg m) \<in> {1, 3, 4}"
    and "cofmsg_packet_out_length m = Inr (length buf)" "length buf < 2 ^ 16"
    and "pk_ihead (po_packet m0) + 2 ^ 16 + pk_itail (po_packet m0) < 2 ^ 64"
  shows "\<exists>m1 out m2 n.
    cofmsg_packet_out_pack buf m = (m1, Inr out) \<and> length out = length buf \<and>
    cofmsg_packet_out_unpack (length buf) (out @ beyond) m0 = (m2, None) \<and>
    msg_version (po_msg m2) = msg_version (po_msg m) \<and> msg_xid (po_msg m2) = msg_xid (po_msg m) \<and>
    po_buffer_id m2 = po_buffer_id m \<and> po_in_port m2 = sent_port m \<and>
    cofactions_length (po_actions m) = Inr n \<and>
    cas_actions (po_actions m2) = indexed 0 (received_actions (replicate n 0) (map snd (cas_actions (po_actions m)))) \<and>
    cpacket_bytes (po_packet m2) = cpacket_bytes (po_packet m)"
proof -
  let ?v = "msg_version (po_msg m)" and ?frame = "cpacket_bytes (po_packet m)" and ?len = "length buf"
  let ?size = "packet_out_size ?v"
  let ?h = "ofp_header_bytes ?v OFPT_PACKET_OUT (word_of_nat ?len) (msg_xid (po_msg m))"
  obtain m1 acts as n where pk: "cofmsg_packet_out_pack buf m = (m1, Inr (?h @ packet_out_head n m @ acts @ ?frame))"
    and n: "cofactions_length (po_actions m) = Inr n" "length acts = n" "?len = ?size + n + length ?frame"
    and as: "cofactions_unpack acts (cofactions_new ?v) = (as, None)"
    "cas_actions as = indexed 0 (received_actions (replicate n 0) (map snd (cas_actions (po_actions m))))"
    using packet_out_packs [OF assms(1,3,4)] by blast
  let ?mem = "?h @ packet_out_head n m @ acts @ ?frame @ beyond"
  let ?m = "packet_out_emptied (received_msg ?v OFPT_PACKET_OUT ?len (msg_xid (po_msg m)) (po_msg m0)) m0"
  have h: "length ?h = 8"
    by simp
  note rd = packet_out_read [OF h refl refl, where n = n and m = m and rest = "acts @ ?frame @ beyond"]
  have at: "bytes_at ?size n ?mem = acts" "bytes_at (?size + n) (length ?frame) ?mem = ?frame"
    using bytes_at_layout [of "?h @ packet_out_head n m" ?size acts n "?frame @ beyond"]
      bytes_at_layout [of "?h @ packet_out_head n m @ acts" "?size + n" ?frame "length ?frame" beyond]
      length_packet_out_head [of n m] n(2) by simp_all
  have size: "16 \<le> ?size" "?size + n < 2 ^ 16"
    using n(3) assms(4) by (simp_all add: packet_out_size_def)
  have len: "unat (word_of_nat ?len :: u16) = ?len" "unat (word_of_nat n :: u16) = n"
    "unat (word_of_nat ?size + word_of_nat n :: u16) = ?size + n"
    using size assms(4) by (simp_all add: unat_of_nat_u16 flip: of_nat_add)
  let ?q = "cpacket_clear (po_packet m0)"
  have fits: "cpacket_fits (length ?frame) ?q"
    using assms(4,5) n(3) by (intro cpacket_clear_fits) simp
  let ?m2 = "?m\<lparr>po_buffer_id := po_buffer_id m, po_in_port := sent_port m, po_actions := as, po_packet := cpacket_unpack ?frame ?q\<rparr>"
  note m = packet_out_emptied_facts [OF refl, where v = ?v and t = OFPT_PACKET_OUT and len = ?len and xid = "msg_xid (po_msg m)" and hdr = "po_msg m0" and m = m0]
  note un = unpack_packet_out_body [OF m(1,2) rd(1-3) len(3), of ?len] m(3,4) m(5) [OF assms(4)]
  have "unpack_packet_out ?len ?mem ?m = (?m2, None)"
    using un at as(1) len(2) rd(5) n by (simp del: of_nat_add)
  moreover have "8 \<le> ?len" "?len \<le> 8 + length (packet_out_head n m @ acts @ ?frame @ beyond)"
    using n(2,3) size length_packet_out_head [of n m] by simp_all
  ultimately have "cofmsg_packet_out_unpack ?len ?mem m0 = (?m2, None)"
    by (simp only: packet_out_unpack_body [OF _ assms(4)])
  moreover have "length (?h @ packet_out_head n m @ acts @ ?frame) = ?len"
    using n length_packet_out_head [of n m] by simp
  moreover have "cpacket_bytes (cpacket_unpack ?frame ?q) = ?frame"
    by (rule cpacket_load(2) [OF fits])
  ultimately show ?thesis
    using pk n(1) as(2) m(2,6)
    by (intro exI [of _ m1] exI [of _ "?h @ packet_out_head n m @ acts @ ?frame"] exI [of _ ?m2] exI [of _ n]) simp
qed

definition packet_out_example :: "nat cofmsg_packet_out" where
  "packet_out_example =
     \<lparr>po_msg = cofmsg_new 1 Cofmsg_packet_out 4 OFPT_PACKET_OUT 5, po_buffer_id = 0xffffffff, po_in_port = 3,
      po_actions = actions_example, po_packet = packet_example\<rparr>"

lemma packet_out_example_ok: "packet_out_ok packet_out_example"
  using actions_example_wf actions_example_sendable packet_example_facts
  by (simp add: packet_out_ok_def packet_out_example_def cofmsg_new_def actions_ok_def actions_example_facts)

lemma packet_out_example_length: "cofmsg_packet_out_length packet_out_example = Inr 51"
  using cpacket_wf_length [OF packet_example_facts(1)]
  by (simp add: cofmsg_packet_out_length_def packet_out_example_def actions_example_length packet_out_size_def cofmsg_new_def
      packet_example_facts)

theorem packet_out_roundtrip_witness:
  "\<exists>m1 out m2. cofmsg_packet_out_pack (replicate 51 0) packet_out_example = (m1, Inr out) \<and>
    cofmsg_packet_out_unpack 51 (out @ [9, 9]) packet_out_example = (m2, None) \<and>
    po_in_port m2 = 3 \<and> cpacket_bytes (po_packet m2) = [1, 2, 3]"
proof -
  have "msg_version (po_msg packet_out_example) = 4" "po_packet packet_out_example = packet_example"
    "po_in_port packet_out_example = 3"
    by (simp_all add: packet_out_example_def cofmsg_new_def)
  moreover have "pk_ihead packet_example = 64" "pk_itail packet_example = 256"
    by (simp_all add: packet_example_def cpacket_of_def cpacket_sized_def Let_def)
  ultimately show ?thesis
    using packet_out_roundtrip [OF packet_out_example_ok, of "replicate 51 0" packet_out_example "[9, 9]"]
      packet_out_example_length packet_example_facts(2)
    by (auto simp: sent_port_def)
qed

text \<open>
  C11: the offset of the packet has 16 bits.  When the length of the actions is 24 bytes or less below 64 kB the
  offset wraps around and passes the check: a message of 24 bytes, which has no room for an action, is accepted,
  with the actions that the memory behind the message happens to spell.
\<close>

theorem packet_out_reads_beyond:
  assumes "v \<in> {3, 4}" "65512 \<le> unat (alen :: u16)" "unat alen \<le> length beyond"
    and "cofactions_unpack (take (unat alen) beyond) (cofactions_new v) = (as, None)"
  shows "\<exists>m2. cofmsg_packet_out_unpack 24
      (ofp_header_bytes v OFPT_PACKET_OUT 24 xid @ be_bytes 4 (bid :: u32) @ be_bytes 4 (port :: u32) @ be_bytes 2 alen @
        replicate 6 0 @ beyond) m = (m2, None) \<and>
    po_actions m2 = as"
proof -
  let ?h = "ofp_header_bytes v OFPT_PACKET_OUT (word_of_nat 24) xid"
  define s where "s = m\<lparr>po_msg := (po_msg m)\<lparr>msg_version := v\<rparr>, po_buffer_id := bid, po_in_port := port\<rparr>"
  have s: "v = msg_version (po_msg s)" "sent_port s = port" "po_buffer_id s = bid" "v \<noteq> 1" "packet_out_size v = 24"
    using assms(1) by (auto simp: s_def sent_port_def packet_out_size_def)
  have head: "be_bytes 4 bid @ be_bytes 4 port @ be_bytes 2 alen @ replicate 6 0 @ beyond = packet_out_head (unat alen) s @ beyond"
    using s(4) by (simp add: packet_out_head_def s_def)
  have len24: "(24 :: u16) = word_of_nat 24" "(24 :: nat) < 2 ^ 16"
    by simp_all
  let ?mem = "?h @ packet_out_head (unat alen) s @ beyond"
  let ?offset = "unat (word_of_nat 24 + alen)"
  let ?m = "packet_out_emptied (received_msg v OFPT_PACKET_OUT 24 xid (po_msg m)) m"
  have offset: "?offset \<le> 24"
  proof -
    have "unat alen < 65536"
      using unsigned_less [where ?'a = nat, of alen] by simp
    then show ?thesis
      using assms(2) by (simp add: unat_word_ariths le_mod_geq)
  qed
  have h: "length ?h = 8"
    by simp
  note rd = packet_out_read [OF h refl s(1), where n = "unat alen" and rest = beyond]
  have alen: "be_word (bytes_at (if v = 1 then 14 else 16) 2 ?mem) = alen"
    using rd(3) by simp
  note m = packet_out_emptied_facts [OF refl, where v = v and t = OFPT_PACKET_OUT and len = 24 and xid = xid and hdr = "po_msg m" and m = m]
  have at: "bytes_at 24 (unat alen) ?mem = take (unat alen) beyond"
    using rd(4) s(5) by (simp add: bytes_at_def)
  have "unpack_packet_out 24 ?mem ?m =
      (?m\<lparr>po_buffer_id := bid, po_in_port := port, po_actions := as,
         po_packet := cpacket_unpack (bytes_at ?offset (24 - ?offset) ?mem) (po_packet ?m)\<rparr>, None)"
    using unpack_packet_out_body [OF m(1,2) rd(1,2) [unfolded s(2,3)] alen, of ?offset 24] offset at assms(3,4) rd(5) m(3) m(5) [OF len24(2)]
    by (simp add: s(5))
  then have "cofmsg_packet_out_unpack 24 ?mem m =
      (?m\<lparr>po_buffer_id := bid, po_in_port := port, po_actions := as,
         po_packet := cpacket_unpack (bytes_at ?offset (24 - ?offset) ?mem) (po_packet ?m)\<rparr>, None)"
    using packet_out_unpack_body [of 24 "packet_out_head (unat alen) s @ beyond" v OFPT_PACKET_OUT xid m]
      length_packet_out_head [of "unat alen" s] s(1,5) by simp
  then show ?thesis
    unfolding head len24(1) by simp
qed

lemma be_word_zeros: "be_word (replicate n 0) = 0"
  by (induction n) (simp_all add: be_word_snoc be_word_def flip: replicate_append_same)

text \<open>Memory that spells an output action.\<close>

definition stray_output :: "nat \<Rightarrow> byte list" where
  "stray_output n = [0, 0, 0, 16, 222, 173, 190, 239] @ replicate n 0"

lemma unpack_zeros: "unpack_actions (replicate n 0) i s = (s, None)"
  by (simp add: unpack_actions.simps bytes_at_def be_word_zeros Let_def)

lemma stray_output_unpacks:
  assumes "8 \<le> n"
  shows "\<exists>as. cofactions_unpack (stray_output n) (cofactions_new 4) = (as, None) \<and> actions_output_ports as = [0xdeadbeef]"
proof -
  have eight: "replicate 8 (0 :: byte) = [0, 0, 0, 0, 0, 0, 0, 0]"
    by (simp add: eval_nat_numeral)
  then have take16: "take 16 (stray_output n) = [0, 0, 0, 16, 222, 173, 190, 239, 0, 0, 0, 0, 0, 0, 0, 0]"
    "drop 16 (stray_output n) = replicate (n - 8) 0"
    using assms eight by (simp_all add: stray_output_def)
  let ?buf = "[0, 0, 0, 16, 222, 173, 190, 239, 0, 0, 0, 0, 0, 0, 0, 0]"
  let ?a = "(new_action C_output 4)\<lparr>act_len := 16, act_body := Act_output 0xdeadbeef 0\<rparr>"
  have "unpack_one_action ?buf 0 (cofactions_new 4) = ((1, enter_action 0 ?a (cofactions_new 4)), None)"
    by (simp add: unpack_one_action_def wire_class_def add_action_enter version_allows_def bytes_at_def be_word_def cofactions_new_def
        action_unpack_def new_action_def cofaction_output_unpack_def unpack_action_def cofaction_output_length_def of12_size_def
        cofaction_unpack_def cofaction_length_def Let_def put_action_def enter_action_def)
  moreover have "be_word (bytes_at 2 2 (stray_output n)) = (16 :: u16)"
    by (simp add: stray_output_def bytes_at_def be_word_def)
  moreover have "16 \<le> length (stray_output n)"
    using assms by (simp add: stray_output_def)
  ultimately have "unpack_actions (stray_output n) 0 (cofactions_new 4) = (enter_action 0 ?a (cofactions_new 4), None)"
    using take16 by (subst unpack_actions.simps) (simp add: unpack_zeros)
  moreover have "cofactions_clear (cofactions_new 4) = cofactions_new 4"
    by (simp add: cofactions_clear_def cofactions_new_def)
  moreover have "actions_output_ports (enter_action 0 ?a (cofactions_new 4)) = [0xdeadbeef]"
    by (simp add: actions_output_ports_def enter_action_def put_action_def cofactions_new_def output_port_def new_action_def
        List.map_filter_def)
  ultimately show ?thesis
    using \<open>16 \<le> length (stray_output n)\<close> by (auto simp: cofactions_unpack_def)
qed

theorem packet_out_reads_beyond_witness:
  "\<exists>m2. cofmsg_packet_out_unpack 24
      (ofp_header_bytes 4 OFPT_PACKET_OUT 24 7 @ be_bytes 4 (0xffffffff :: u32) @ be_bytes 4 (1 :: u32) @ be_bytes 2 (65512 :: u16) @
        replicate 6 0 @ stray_output 65504) packet_out_example = (m2, None) \<and>
    actions_output_ports (po_actions m2) = [0xdeadbeef]"
proof -
  obtain as where as: "cofactions_unpack (stray_output 65504) (cofactions_new 4) = (as, None)" "actions_output_ports as = [0xdeadbeef]"
    using stray_output_unpacks [of 65504] by auto
  have len: "length (stray_output 65504) = 65512" "unat (65512 :: u16) = 65512"
    by (simp_all add: stray_output_def)
  then have "cofactions_unpack (take (unat (65512 :: u16)) (stray_output 65504)) (cofactions_new 4) = (as, None)"
    using as(1) by (metis order_refl take_all)
  moreover have "4 \<in> {3, 4 :: u8}" "65512 \<le> unat (65512 :: u16)" "unat (65512 :: u16) \<le> length (stray_output 65504)"
    using len by simp_all
  ultimately show ?thesis
    using packet_out_reads_beyond [of 4 65512 "stray_output 65504" as] as(2) by metis
qed

end
