(* ===== verification/Cofgroupmod_Laws.thy ===== *)
theory Cofgroupmod_Laws
  imports Cofgroupmod Cofpacketout_Laws
begin

text \<open>
  A group modification that is sent arrives; a bucket that is longer than the message makes the parser walk
  through the memory behind it.
\<close>

section \<open>A bucket that is sent\<close>

lemma action_length_8:
  assumes "action_length a = Inr n" "act_version a \<noteq> 1"
  shows "8 dvd n"
proof -
  have "(8 :: nat) dvd 16"
    by (rule dvdI [of _ _ 2]) simp
  then show ?thesis
    using assms
    by (cases "act_body a")
      (auto simp: action_length_def fixed_action_defs body_classes cofaction_set_field_length_def of10_size_def of12_size_def
        pad8_dvd rbind_Inr_iff split: if_splits option.splits)
qed

lemma actions_length_8:
  "actions_length as = Inr n \<Longrightarrow> \<forall>(i, a) \<in> set as. act_version a \<noteq> 1 \<Longrightarrow> 8 dvd n"
proof (induction as arbitrary: n)
  case (Cons x as)
  then show ?case
    by (cases x) (auto simp: rbind_Inr_iff action_length_8 dvd_add)
qed simp

definition bucket_ok :: "u8 \<Rightarrow> cofbucket \<Rightarrow> bool" where
  "bucket_ok v b \<longleftrightarrow> v \<in> {3, 4} \<and> bk_version b = v \<and> actions_ok v (bk_actions b)"

text \<open>What the receiver gets: the members and the actions; the counters are not part of the message.\<close>

definition bucket_arrives :: "cofbucket \<Rightarrow> cofbucket \<Rightarrow> bool" where
  "bucket_arrives b b' \<longleftrightarrow>
     bk_version b' = bk_version b \<and> bk_weight b' = bk_weight b \<and> bk_watch_port b' = bk_watch_port b \<and>
     bk_watch_group b' = bk_watch_group b \<and>
     (\<exists>n. cofactions_length (bk_actions b) = Inr n \<and>
       cas_actions (bk_actions b') = indexed 0 (received_actions (replicate n 0) (map snd (cas_actions (bk_actions b)))))"

lemma pack_if_any_all: "cofactions_length s = Inr (length buf) \<Longrightarrow> pack_if_any buf s = cofactions_pack buf s"
  by (cases s) (auto simp: pack_if_any_def cofactions_pack_def cofactions_length_def)

lemma bucket_header:
  assumes "16 \<le> length buf"
  shows "put_fields (bucket_fields n b) buf =
    be_bytes 2 (word_of_nat n :: u16) @ be_bytes 2 (bk_weight b) @ be_bytes 4 (bk_watch_port b) @ be_bytes 4 (bk_watch_group b) @
      drop 12 buf"
  using assms by (simp add: bucket_fields_def put_at_def min_def)

lemma bucket_length_16:
  assumes "bucket_ok v b" "cofbucket_length b = Inr l"
  shows "\<exists>n. cofactions_length (bk_actions b) = Inr n \<and> l = 16 + n \<and> (n = 0 \<or> 8 \<le> n) \<and> (n = 0 \<longrightarrow> cas_actions (bk_actions b) = [])"
proof -
  let ?as = "bk_actions b"
  obtain n where n: "cofactions_length ?as = Inr n" "l = pad8 (16 + n)"
    using assms(2) by (auto simp: cofbucket_length_def rbind_Inr_iff)
  have "\<forall>(i, a) \<in> set (cas_actions ?as). act_version a \<noteq> 1"
    using assms(1) by (auto simp: bucket_ok_def actions_ok_def cofactions_wf_def action_wf_def)
  then have "8 dvd n"
    using actions_length_8 n(1) by (simp add: cofactions_length_def)
  then have "8 dvd 16 + n"
    by presburger
  then have "l = 16 + n"
    using n(2) by (simp add: pad8_def dvd_eq_mod_eq_0)
  moreover have "n = 0 \<longrightarrow> cas_actions ?as = []"
    using n(1) by (cases "cas_actions ?as") (fastforce simp: cofactions_length_def rbind_Inr_iff dest!: action_length_bound(1))+
  moreover have "n = 0 \<or> 8 \<le> n"
    using \<open>8 dvd n\<close> by (metis dvd_imp_le neq0_conv)
  ultimately show ?thesis
    using n(1) by blast
qed

lemma bucket_wire:
  assumes "bucket_ok v b" "cofbucket_length b = Inr l" "l < 2 ^ 16"
  shows "\<exists>b1 out b2. cofbucket_pack (replicate l 0) b = (b1, Inr out) \<and> length out = l \<and> 16 \<le> l \<and>
    cofbucket_length b1 = Inr l \<and> be_word (bytes_at 0 2 out) = (word_of_nat l :: u16) \<and>
    cofbucket_unpack out (cofbucket_new v) = (b2, None) \<and> bucket_arrives b b2 \<and> cofbucket_length b2 = Inr l"
proof -
  let ?as = "bk_actions b"
  obtain n where n: "cofactions_length ?as = Inr n" "l = 16 + n" "n = 0 \<or> 8 \<le> n" "n = 0 \<longrightarrow> cas_actions ?as = []"
    using bucket_length_16 [OF assms(1,2)] by blast
  have ok: "v = 3 \<or> v = 4" "bk_version b = v" "actions_ok v ?as"
    using assms(1) by (auto simp: bucket_ok_def)
  obtain s1 acts s2 where w: "cofactions_pack (replicate n 0) ?as = (s1, Inr acts)" "length acts = n"
    "cofactions_length s1 = Inr n" "cofactions_unpack acts (cofactions_new v) = (s2, None)"
    "cas_actions s2 = indexed 0 (received_actions (replicate n 0) (map snd (cas_actions ?as)))"
    using actions_or_none [OF ok(3), of "replicate n 0"] pack_if_any_all [of ?as "replicate n 0"] n(1) by auto
  let ?h = "be_bytes 2 (word_of_nat l :: u16) @ be_bytes 2 (bk_weight b) @ be_bytes 4 (bk_watch_port b) @
    be_bytes 4 (bk_watch_group b) @ replicate 4 0"
  have "replicate (l - 12) (0 :: byte) = replicate 4 0 @ replicate n 0"
    using n(2) by (simp flip: replicate_add)
  then have out: "put_fields (bucket_fields l b) (replicate l 0) = ?h @ replicate n 0"
    using bucket_header [of "replicate l 0" l b] n(2) by simp
  have h: "length ?h = 16"
    by simp
  have "drop 16 (?h @ replicate n 0) = replicate n 0" "put_at 16 acts (?h @ replicate n 0) = ?h @ acts"
    using w(2) by (simp_all add: put_at_def)
  then have pk: "cofbucket_pack (replicate l 0) b = (b\<lparr>bk_actions := s1\<rparr>, Inr (?h @ acts))"
    using ok(1,2) n(1,2) w(1) out by (auto simp: cofbucket_pack_def pack_bucket_def Let_def)
  let ?b1 = "(cofbucket_new v)\<lparr>bk_weight := bk_weight b, bk_watch_port := bk_watch_port b, bk_watch_group := bk_watch_group b\<rparr>"
  let ?b2 = "if n = 0 then ?b1 else ?b1\<lparr>bk_actions := s2\<rparr>"
  have at: "bytes_at 0 2 (?h @ acts) = be_bytes 2 (word_of_nat l :: u16)" "bytes_at 2 2 (?h @ acts) = be_bytes 2 (bk_weight b)"
    "bytes_at 4 4 (?h @ acts) = be_bytes 4 (bk_watch_port b)" "bytes_at 8 4 (?h @ acts) = be_bytes 4 (bk_watch_group b)"
    "drop 16 (?h @ acts) = acts" "length (?h @ acts) = 16 + n"
    using w(2) by (simp_all add: bytes_at_def)
  have un: "cofbucket_unpack (?h @ acts) (cofbucket_new v) = (?b2, None)"
    using ok(1) n(3) w(2,4) by (auto simp: cofbucket_unpack_def unpack_bucket_def at Let_def cofbucket_new_def simp del: append_assoc)
  have "actions_length (indexed 0 (received_actions (replicate n 0) (map snd (cas_actions ?as)))) = Inr n"
    using received_actions_length [of "cas_actions ?as" n "replicate n 0" 0] n(1) ok(3)
    by (auto simp: actions_ok_def cofactions_length_def list_all_iff)
  then have "cofactions_length s2 = Inr n"
    by (simp add: cofactions_length_def w(5))
  moreover have "pad8 (16 + n) = l"
    using assms(2) n(1) by (simp add: cofbucket_length_def)
  ultimately have "cofbucket_length ?b2 = Inr l" "cofbucket_length (b\<lparr>bk_actions := s1\<rparr>) = Inr l"
    using w(3) by (auto simp: cofbucket_length_def cofbucket_new_def cofactions_new_def cofactions_length_def)
  moreover have "bucket_arrives b ?b2"
    using n(1,4) w(5) ok(2) by (auto simp: bucket_arrives_def cofbucket_new_def cofactions_new_def)
  ultimately show ?thesis
    using pk un at n(2) by (intro exI [of _ "b\<lparr>bk_actions := s1\<rparr>"] exI [of _ "?h @ acts"] exI [of _ ?b2]) simp
qed

section \<open>Buckets that are sent\<close>

lemma indexed_snoc: "indexed i (as @ [a]) = indexed i as @ [(i + word_of_nat (length as), a)]"
  by (induction as arbitrary: i) (simp_all add: add.assoc)

lemma indexed_keys:
  assumes "length as < 2 ^ 32"
  shows "\<forall>k \<in> fst ` set (indexed 0 as). k < word_of_nat (length as)"
proof -
  have "map fst (indexed 0 as) = map word_of_nat [0..<length as]"
    using indexed_from [of 0 as] by simp
  then have "fst ` set (indexed 0 as) = word_of_nat ` {0..<length as}"
    by (metis list.set_map set_upt)
  then show ?thesis
    using assms by (auto simp: word_less_nat_alt unsigned_of_nat take_bit_nat_eq_self)
qed

lemma map_put_erase_above: "\<forall>k \<in> fst ` set m. k < i \<Longrightarrow> map_put i b (map_erase i m) = m @ [(i, b)]"
  by (subst map_put_above) (auto simp: map_erase_def filter_id_conv)

text \<open>One turn of the loop, for a bucket that is received.\<close>

lemma unpack_buckets_step:
  assumes "0 < buflen" "be_word (bytes_at 0 2 out) = (word_of_nat l :: u16)" "length out = l" "16 \<le> l" "l < 2 ^ 16"
    and "cofbucket_unpack out (cofbucket_new v) = (b, None)" "length ds < 2 ^ 32"
  shows "unpack_buckets buflen (out @ mem) (word_of_nat (length ds)) \<lparr>bks_version = v, bks_map = indexed 0 ds\<rparr> =
    unpack_buckets (size_sub buflen l) mem (word_of_nat (length (ds @ [b]))) \<lparr>bks_version = v, bks_map = indexed 0 (ds @ [b])\<rparr>"
proof -
  let ?i = "word_of_nat (length ds) :: u32"
  have len: "unat (be_word (bytes_at 0 2 (out @ mem)) :: u16) = l"
    using assms(2-5) by (simp add: bytes_at_def unat_of_nat_u16)
  have put: "map_put ?i c (map_erase ?i (indexed 0 ds)) = indexed 0 ds @ [(?i, c)]" for c
    by (rule map_put_erase_above [OF indexed_keys [OF assms(7)]])
  have snoc: "indexed 0 ds @ [(?i, c)] = indexed 0 (ds @ [c])" for c
    by (simp add: indexed_snoc)
  have "map_put ?i b (indexed 0 ds @ [(?i, c)]) = indexed 0 ds @ [(?i, b)]" for c
    using put [of c] put [of b] map_put_twice [of ?i b c "map_erase ?i (indexed 0 ds)"] by simp
  then show ?thesis
    using assms(1,3,4,6) len
    by (subst unpack_buckets.simps) (simp add: add_bucket_def Let_def put snoc add.commute)
qed

lemma buckets_count:
  "buckets_length bs = Inr n \<Longrightarrow> \<forall>(i, b) \<in> set bs. bucket_ok v b \<Longrightarrow> 16 * length bs \<le> n"
proof (induction bs arbitrary: n)
  case (Cons x bs)
  obtain i b where x: "x = (i, b)"
    by (cases x)
  obtain l m where "cofbucket_length b = Inr l" "buckets_length bs = Inr m" "l + m = n"
    using Cons.prems(1) x by (auto simp: rbind_Inr_iff)
  then show ?case
    using Cons.IH [of m] Cons.prems(2) x bucket_length_16 [of v b l] by auto
qed simp

lemma send_buckets:
  assumes "\<forall>(i, b) \<in> set bs. bucket_ok v b" "buckets_length bs = Inr n" "n < 2 ^ 16"
  shows "\<exists>bs1 out bs2. pack_buckets (replicate n 0) bs = (bs1, Inr out) \<and> length out = n \<and>
    list_all2 bucket_arrives (map snd bs) bs2 \<and> (\<forall>k. buckets_length (indexed k bs2) = Inr n) \<and>
    (\<forall>ds beyond. length ds + length bs < 2 ^ 32 \<longrightarrow>
      unpack_buckets n (out @ beyond) (word_of_nat (length ds)) \<lparr>bks_version = v, bks_map = indexed 0 ds\<rparr> =
        (\<lparr>bks_version = v, bks_map = indexed 0 (ds @ bs2)\<rparr>, None))"
  using assms
proof (induction bs arbitrary: n)
  case Nil
  then show ?case
    by (simp add: unpack_buckets.simps)
next
  case (Cons x bs)
  obtain i b where x: "x = (i, b)"
    by (cases x)
  obtain l m where l: "cofbucket_length b = Inr l" "buckets_length bs = Inr m" "n = l + m"
    using Cons.prems(2) x by (auto simp: rbind_Inr_iff)
  obtain b1 out b2 where one: "cofbucket_pack (replicate l 0) b = (b1, Inr out)" "length out = l" "16 \<le> l"
    "cofbucket_length b1 = Inr l" "be_word (bytes_at 0 2 out) = (word_of_nat l :: u16)"
    "cofbucket_unpack out (cofbucket_new v) = (b2, None)" "bucket_arrives b b2" "cofbucket_length b2 = Inr l"
    using bucket_wire [of v b l] l Cons.prems(1,3) x by auto
  obtain bs1 rest bs2 where IH: "pack_buckets (replicate m 0) bs = (bs1, Inr rest)" "length rest = m"
    "list_all2 bucket_arrives (map snd bs) bs2" "\<And>k. buckets_length (indexed k bs2) = Inr m"
    "\<And>ds beyond. length ds + length bs < 2 ^ 32 \<Longrightarrow>
      unpack_buckets m (rest @ beyond) (word_of_nat (length ds)) \<lparr>bks_version = v, bks_map = indexed 0 ds\<rparr> =
        (\<lparr>bks_version = v, bks_map = indexed 0 (ds @ bs2)\<rparr>, None)"
    using Cons.IH [of m] l Cons.prems(1,3) by auto
  have "pack_buckets (replicate n 0) (x # bs) = ((i, b1) # bs1, Inr (out @ rest))"
    using x l one(1,2,4) IH(1) by simp
  moreover have "unpack_buckets n ((out @ rest) @ beyond) (word_of_nat (length ds)) \<lparr>bks_version = v, bks_map = indexed 0 ds\<rparr> =
      (\<lparr>bks_version = v, bks_map = indexed 0 (ds @ b2 # bs2)\<rparr>, None)" if "length ds + length (x # bs) < 2 ^ 32" for ds beyond
  proof -
    have "size_sub n l = m"
      using l(3) Cons.prems(3) by (simp add: size_sub_le)
    then show ?thesis
      using unpack_buckets_step [of n out l v b2 ds "rest @ beyond"] one(2,3,5,6) l(3) Cons.prems(3) that IH(5) [of "ds @ [b2]" beyond]
      by (simp del: of_nat_Suc)
  qed
  moreover have "buckets_length (indexed k (b2 # bs2)) = Inr n" for k
    using l(3) one(8) IH(4) by simp
  ultimately show ?case
    using x one(2,7) IH(2,3) l(3)
    by (intro exI [of _ "(i, b1) # bs1"] exI [of _ "out @ rest"] exI [of _ "b2 # bs2"]) simp
qed

section \<open>The message\<close>

definition group_mod_ok :: "'e cofmsg_group_mod \<Rightarrow> bool" where
  "group_mod_ok m \<longleftrightarrow>
     (let g = gmm_groupmod m; v = msg_version (gmm_msg m)
      in msg_type (gmm_msg m) = OFPT_GROUP_MOD \<and> v \<in> {3, 4} \<and> gm_version g = v \<and> bks_version (gm_buckets g) = v \<and>
         (\<forall>(i, b) \<in> set (bks_map (gm_buckets g)). bucket_ok v b))"

definition groupmod_head :: "cofgroupmod \<Rightarrow> byte list" where
  "groupmod_head g = be_bytes 2 (gm_command g) @ be_bytes 1 (gm_type g) @ [0] @ be_bytes 4 (gm_group_id g)"

lemma groupmod_written: "put_fields (groupmod_fields g) (replicate (8 + n) 0) = groupmod_head g @ replicate n 0"
proof -
  have z: "replicate (8 + n) (0 :: byte) = replicate 2 0 @ replicate 1 0 @ [0] @ replicate 4 0 @ replicate n 0"
    by (simp add: eval_nat_numeral)
  show ?thesis
    unfolding z by (simp add: groupmod_fields_def groupmod_head_def put_at_def del: One_nat_def)
qed

lemma groupmod_read:
  "be_word (bytes_at 0 2 (groupmod_head g @ r)) = gm_command g" "be_word (bytes_at 2 1 (groupmod_head g @ r)) = gm_type g"
  "be_word (bytes_at 4 4 (groupmod_head g @ r)) = gm_group_id g" "drop 8 (groupmod_head g @ r) = r" "length (groupmod_head g) = 8"
  by (simp_all add: groupmod_head_def bytes_at_def del: One_nat_def be_bytes.simps)

definition groupmod_emptied :: "u8 \<Rightarrow> cofgroupmod \<Rightarrow> cofgroupmod" where
  "groupmod_emptied v g = g\<lparr>gm_version := v, gm_buckets := cofbuckets_new v\<rparr>"

lemma group_mod_unpack_body:
  assumes "v \<in> {3, 4}" "16 \<le> len" "len < 2 ^ 16" "len \<le> 8 + length body"
  shows "cofmsg_group_mod_unpack len (ofp_header_bytes v OFPT_GROUP_MOD (word_of_nat len) xid @ body) m =
    (let hdr = received_msg v OFPT_GROUP_MOD len xid (gmm_msg m);
         (g, e) = cofgroupmod_unpack (len - 8) body (groupmod_emptied v (gmm_groupmod m));
         m2 = \<lparr>gmm_msg = hdr, gmm_groupmod = g\<rparr>
     in case e of
          Some e \<Rightarrow> (m2, Some e)
        | None \<Rightarrow>
            (case cofgroupmod_length g of
               Inl e \<Rightarrow> (m2, Some e)
             | Inr n \<Rightarrow> (m2, if len < 8 + n then Some EBadRequestBadLen else None)))"
proof -
  have hdr: "cofmsg_unpack (take len (ofp_header_bytes v OFPT_GROUP_MOD (word_of_nat len) xid @ body)) (gmm_msg m) =
      Inr (received_msg v OFPT_GROUP_MOD len xid (gmm_msg m))"
    unfolding received_msg_def using assms(2-4) by (intro flow_mod_header_unpack) simp_all
  have empty: "cofgroupmod_clear (cofgroupmod_set_version v (gmm_groupmod m)) = groupmod_emptied v (gmm_groupmod m)"
    by (cases "gm_buckets (gmm_groupmod m)")
      (simp add: cofgroupmod_clear_def cofgroupmod_set_version_def groupmod_emptied_def cofbuckets_clear_def cofbuckets_set_version_def
        cofbuckets_new_def)
  have len: "cofgroupmod_length (groupmod_emptied v (gmm_groupmod m)) = Inr 8"
    using assms(1) by (auto simp: cofgroupmod_length_def groupmod_emptied_def cofbuckets_length_def cofbuckets_new_def)
  have ver: "msg_version (received_msg v OFPT_GROUP_MOD len xid (gmm_msg m)) = v"
    "msg_type (received_msg v OFPT_GROUP_MOD len xid (gmm_msg m)) = OFPT_GROUP_MOD"
    "unat (msg_len (received_msg v OFPT_GROUP_MOD len xid (gmm_msg m))) = len"
    using assms(3) by (simp_all add: received_msg_def unat_of_nat_u16)
  have body: "drop 8 (ofp_header_bytes v OFPT_GROUP_MOD (word_of_nat len) xid @ body) = body"
    by (simp add: ofp_header_bytes_def)
  show ?thesis
    unfolding cofmsg_group_mod_unpack_def hdr body
    using assms(2) by (simp add: ver empty cofmsg_group_mod_length_def len Let_def split: prod.split option.split sum.split)
qed

lemma groupmod_unpack_body:
  assumes "v \<in> {3, 4}" "8 \<le> n"
  shows "cofgroupmod_unpack n (groupmod_head g @ mem) (groupmod_emptied v g0) =
    (let g1 = \<lparr>gm_version = v, gm_command = gm_command g, gm_type = gm_type g, gm_group_id = gm_group_id g, gm_buckets = cofbuckets_new v\<rparr>
     in if n < 24 then (g1, None)
        else case unpack_buckets (n - 8) mem 0 (cofbuckets_new v) of (bs, e) \<Rightarrow> (g1\<lparr>gm_buckets := bs\<rparr>, e))"
proof -
  have clear: "cofbuckets_clear (cofbuckets_set_version v (cofbuckets_new v)) = cofbuckets_new v" "cofbuckets_clear (cofbuckets_new v) = cofbuckets_new v"
    by (simp_all add: cofbuckets_clear_def cofbuckets_set_version_def cofbuckets_new_def)
  have loop: "cofbuckets_unpack k mem (cofbuckets_new v) =
      (if k < 16 then (cofbuckets_new v, None) else unpack_buckets k mem 0 (cofbuckets_new v))" for k
    using assms(1) clear(2) by (auto simp: cofbuckets_unpack_def Let_def cofbuckets_new_def)
  have len: "gm_version h = v \<Longrightarrow> gm_buckets h = cofbuckets_new v \<Longrightarrow> cofgroupmod_length h = Inr 8" for h
    using assms(1) by (auto simp: cofgroupmod_length_def cofbuckets_length_def cofbuckets_new_def)
  have "n - 8 < 16 \<longleftrightarrow> n < 24" "n \<le> 8 \<Longrightarrow> n < 24"
    using assms(2) by linarith+
  then show ?thesis
    using assms(2)
    by (cases g0) (simp del: One_nat_def add: cofgroupmod_unpack_def groupmod_emptied_def clear len Let_def groupmod_read loop split: prod.split)
qed

section \<open>Properties\<close>

text \<open>
  C9: a group modification arrives: command, type, group and the buckets with their actions, in order and numbered
  from zero, whatever the receiving object held and whatever lies behind the message in memory.
\<close>

theorem group_mod_roundtrip:
  assumes "group_mod_ok m" "cofmsg_group_mod_length m = Inr (length buf)" "length buf < 2 ^ 16"
  shows "\<exists>m1 out m2.
    cofmsg_group_mod_pack buf m = (m1, Inr out) \<and> length out = length buf \<and>
    cofmsg_group_mod_unpack (length buf) (out @ beyond) m0 = (m2, None) \<and>
    msg_version (gmm_msg m2) = msg_version (gmm_msg m) \<and> msg_xid (gmm_msg m2) = msg_xid (gmm_msg m) \<and>
    gm_command (gmm_groupmod m2) = gm_command (gmm_groupmod m) \<and> gm_type (gmm_groupmod m2) = gm_type (gmm_groupmod m) \<and>
    gm_group_id (gmm_groupmod m2) = gm_group_id (gmm_groupmod m) \<and>
    list_all2 bucket_arrives (map snd (bks_map (gm_buckets (gmm_groupmod m)))) (map snd (bks_map (gm_buckets (gmm_groupmod m2)))) \<and>
    cofbuckets_keys (gm_buckets (gmm_groupmod m2)) = map word_of_nat [0..<length (bks_map (gm_buckets (gmm_groupmod m)))]"
proof -
  let ?g = "gmm_groupmod m" and ?v = "msg_version (gmm_msg m)" and ?x = "msg_xid (gmm_msg m)" and ?len = "length buf"
  let ?bs = "bks_map (gm_buckets ?g)" and ?h = "ofp_header_bytes ?v OFPT_GROUP_MOD (word_of_nat ?len) ?x"
  have ok: "msg_type (gmm_msg m) = OFPT_GROUP_MOD" "?v \<in> {3, 4}" "?v = 3 \<or> ?v = 4" "gm_version ?g = ?v" "bks_version (gm_buckets ?g) = ?v"
    "\<forall>(i, b) \<in> set ?bs. bucket_ok ?v b"
    using assms(1) by (auto simp: group_mod_ok_def Let_def)
  obtain n where "buckets_length ?bs = Inr n" "16 + n = ?len"
    using assms(2) by (auto simp: cofmsg_group_mod_length_def cofgroupmod_length_def cofbuckets_length_def rbind_Inr_iff split: if_splits)
  then have n: "buckets_length ?bs = Inr n" "?len = 16 + n" "n < 2 ^ 16"
    using assms(3) by simp_all
  have count: "16 * length ?bs \<le> n"
    by (rule buckets_count [OF n(1) ok(6)])
  obtain bs1 wire bs2 where w: "pack_buckets (replicate n 0) ?bs = (bs1, Inr wire)" "length wire = n"
    "list_all2 bucket_arrives (map snd ?bs) bs2" "\<And>k. buckets_length (indexed k bs2) = Inr n"
    "\<And>ds beyond. length ds + length ?bs < 2 ^ 32 \<Longrightarrow>
      unpack_buckets n (wire @ beyond) (word_of_nat (length ds)) \<lparr>bks_version = ?v, bks_map = indexed 0 ds\<rparr> =
        (\<lparr>bks_version = ?v, bks_map = indexed 0 (ds @ bs2)\<rparr>, None)"
    using send_buckets [OF ok(6) n(1,3)] by blast
  have un: "unpack_buckets n (wire @ beyond) 0 (cofbuckets_new ?v) = (\<lparr>bks_version = ?v, bks_map = indexed 0 bs2\<rparr>, None)"
    using w(5) [of "[]" beyond] count n(3) by (simp add: cofbuckets_new_def)
  let ?out = "groupmod_head ?g @ wire"
  have gm: "cofgroupmod_pack (replicate (8 + n) 0) ?g = (?g\<lparr>gm_buckets := (gm_buckets ?g)\<lparr>bks_map := bs1\<rparr>\<rparr>, Inr ?out)"
    using ok(3-5) n(1) w(1,2) groupmod_written [of ?g n] groupmod_read(4,5) [of ?g]
    by (auto simp: cofgroupmod_pack_def cofgroupmod_length_def cofbuckets_length_def cofbuckets_pack_def Let_def put_at_def)
  have len: "cofgroupmod_length ?g = Inr (8 + n)" "buf \<noteq> []" "8 + (8 + n) = ?len" "length buf - 8 = 8 + n"
    using ok(3,4) n(1,2) by (auto simp: cofgroupmod_length_def cofbuckets_length_def)
  have "bytes_at 8 (8 + n) (?h @ replicate (8 + n) 0) = replicate (8 + n) 0" "put_at 8 ?out (?h @ replicate (8 + n) 0) = ?h @ ?out"
    using w(2) groupmod_read(5) [of ?g] by (simp_all add: bytes_at_def put_at_def)
  then have pk: "\<exists>m1. cofmsg_group_mod_pack buf m = (m1, Inr (?h @ ?out))"
    unfolding cofmsg_group_mod_pack_def len(1) using gm len(2-4) ok(1) by (auto simp: cofmsg_pack_def Let_def)
  let ?g2 = "\<lparr>gm_version = ?v, gm_command = gm_command ?g, gm_type = gm_type ?g, gm_group_id = gm_group_id ?g,
      gm_buckets = \<lparr>bks_version = ?v, bks_map = indexed 0 bs2\<rparr>\<rparr>"
  have "n = 0 \<Longrightarrow> ?bs = []" "n = 0 \<or> 16 \<le> n"
    using count n(1) by (cases ?bs; simp)+
  then have "cofgroupmod_unpack (8 + n) (groupmod_head ?g @ wire @ beyond) (groupmod_emptied ?v (gmm_groupmod m0)) = (?g2, None)"
    using groupmod_unpack_body [OF ok(2), of "8 + n" ?g "wire @ beyond" "gmm_groupmod m0"] un w(3)
    by (auto simp: cofbuckets_new_def)
  moreover have "cofgroupmod_length ?g2 = Inr (8 + n)"
    using ok(3) w(4) by (auto simp: cofgroupmod_length_def cofbuckets_length_def)
  ultimately have "cofmsg_group_mod_unpack ?len (?h @ ?out @ beyond) m0 =
      (\<lparr>gmm_msg = received_msg ?v OFPT_GROUP_MOD ?len ?x (gmm_msg m0), gmm_groupmod = ?g2\<rparr>, None)"
    using group_mod_unpack_body [OF ok(2) _ assms(3), of "?out @ beyond" ?x m0] n(2) w(2) groupmod_read(5) [of ?g] len(4) by simp
  moreover have "length (?h @ ?out) = ?len"
    using n(2) w(2) groupmod_read(5) [of ?g] by simp
  moreover have "length bs2 = length ?bs"
    using list_all2_lengthD [OF w(3)] by simp
  ultimately show ?thesis
    using pk w(3) indexed_from [of 0 bs2] by (auto simp: cofbuckets_keys_def received_msg_def)
qed

definition bucket_example :: cofbucket where
  "bucket_example = (cofbucket_new 4)\<lparr>bk_weight := 10, bk_watch_port := 2, bk_actions := actions_example\<rparr>"

definition group_mod_example :: "nat cofmsg_group_mod" where
  "group_mod_example =
     \<lparr>gmm_msg = cofmsg_new 1 Cofmsg_group_mod 4 OFPT_GROUP_MOD 5,
      gmm_groupmod = (cofgroupmod_new 4)\<lparr>gm_group_id := 9, gm_buckets := \<lparr>bks_version = 4, bks_map = [(7, bucket_example)]\<rparr>\<rparr>\<rparr>"

lemma group_mod_example_ok: "group_mod_ok group_mod_example"
  using actions_example_wf actions_example_sendable
  by (simp add: group_mod_ok_def group_mod_example_def cofmsg_new_def cofgroupmod_new_def bucket_ok_def bucket_example_def cofbucket_new_def
      actions_ok_def actions_example_facts)

lemma group_mod_example_length: "cofmsg_group_mod_length group_mod_example = Inr 56"
  by (simp add: cofmsg_group_mod_length_def group_mod_example_def cofgroupmod_length_def cofgroupmod_new_def cofbuckets_length_def
      cofbucket_length_def bucket_example_def cofbucket_new_def actions_example_length pad8_def)

theorem group_mod_roundtrip_witness:
  "\<exists>m1 out m2. cofmsg_group_mod_pack (replicate 56 0) group_mod_example = (m1, Inr out) \<and>
    cofmsg_group_mod_unpack 56 (out @ [1, 2]) group_mod_example = (m2, None) \<and>
    gm_group_id (gmm_groupmod m2) = 9 \<and> cofbuckets_keys (gm_buckets (gmm_groupmod m2)) = [0]"
proof -
  have "gm_group_id (gmm_groupmod group_mod_example) = 9" "length (bks_map (gm_buckets (gmm_groupmod group_mod_example))) = 1"
    by (simp_all add: group_mod_example_def)
  then show ?thesis
    using group_mod_roundtrip [OF group_mod_example_ok, of "replicate 56 0" "[1, 2]" group_mod_example] group_mod_example_length
    by fastforce
qed

lemma unpack_buckets_stop: "unpack_buckets k ([0, 0] @ mem) i s = (s, None)"
proof -
  have "be_word [0, 0] = (0 :: u16)"
    by (simp add: be_word_def)
  then show ?thesis
    by (subst unpack_buckets.simps) (simp add: bytes_at_def)
qed

text \<open>A bucket whose length field is \<open>l\<close>, followed by an action of length zero.\<close>

definition long_bucket :: "nat \<Rightarrow> byte list" where
  "long_bucket l = be_bytes 2 (word_of_nat l :: u16) @ replicate 30 0"

lemma long_bucket_unpacks:
  assumes "v \<in> {3, 4}" "length gap = l - 32" "32 < l" "l < 2 ^ 16"
  shows "cofbucket_unpack (long_bucket l @ gap) (cofbucket_new v) = (cofbucket_new v, None)"
    and "be_word (bytes_at 0 2 (long_bucket l @ gap)) = (word_of_nat l :: u16)" "length (long_bucket l @ gap) = l"
proof -
  define b where "b = long_bucket l @ gap"
  have z: "bytes_at i n b = replicate n 0" if "2 \<le> i" "i + n \<le> 32" for i n
    using that by (simp add: b_def long_bucket_def bytes_at_def min_def)
  have rest: "drop 16 b = replicate 16 0 @ gap" and len: "length b = l"
    using assms(2,3) by (simp_all add: b_def long_bucket_def)
  have "unpack_actions (replicate 16 0 @ gap) 0 (cofactions_new v) = (cofactions_new v, None)"
    by (simp add: unpack_actions.simps bytes_at_def be_word_zeros)
  then have "cofactions_unpack (replicate 16 0 @ gap) (cofactions_new v) = (cofactions_new v, None)"
    by (simp add: cofactions_unpack_def) (simp add: cofactions_clear_def cofactions_new_def)
  then have "cofbucket_unpack b (cofbucket_new v) = (cofbucket_new v, None)"
    using assms by (auto simp: cofbucket_unpack_def unpack_bucket_def rest z len be_word_zeros cofbucket_new_def Let_def)
  then show "cofbucket_unpack (long_bucket l @ gap) (cofbucket_new v) = (cofbucket_new v, None)"
    by (simp add: b_def)
  show "be_word (bytes_at 0 2 (long_bucket l @ gap)) = (word_of_nat l :: u16)" "length (long_bucket l @ gap) = l"
    using assms(2,3) by (simp_all add: long_bucket_def bytes_at_def)
qed

text \<open>
  C10: the length of a bucket is not compared with the message.  A message of 48 bytes with one bucket that claims
  \<open>l\<close> bytes makes the count of what is left wrap around, and the parser goes on behind the message, at a
  distance that the sender chose: what lies there is taken for another bucket, and the message is accepted
  with it.
\<close>

theorem group_mod_reads_beyond:
  assumes "v \<in> {3, 4}" "32 < l" "l < 2 ^ 16" "length gap = l - 32"
    and "length weight = 2" "length port = 4" "length grp = 4" "length pad = 4"
  shows "\<exists>m2 b. cofmsg_group_mod_unpack 48
      (ofp_header_bytes v OFPT_GROUP_MOD 48 xid @ groupmod_head g @ long_bucket l @
        gap @ [0, 16] @ weight @ port @ grp @ pad @ [0, 0] @ beyond) m = (m2, None) \<and>
    get_bucket 1 (gm_buckets (gmm_groupmod m2)) = Inr b \<and>
    bk_weight b = be_word weight \<and> bk_watch_port b = be_word port \<and> bk_watch_group b = be_word grp"
proof -
  let ?stray = "[0, 16] @ weight @ port @ grp @ pad" and ?rest = "[0, 0] @ beyond"
  let ?b1 = "cofbucket_new v"
  let ?b2 = "?b1\<lparr>bk_weight := be_word weight, bk_watch_port := be_word port, bk_watch_group := be_word grp\<rparr>"
  let ?left = "2 ^ 64 - (l - 32)"
  have sizes: "size_sub 32 l = ?left" "size_sub ?left 16 = ?left - 16" "16 < ?left"
    using size_sub_wraps [of 32 l] size_sub_le [of 16 ?left] assms(2,3) by simp_all
  have new: "cofbuckets_new v = \<lparr>bks_version = v, bks_map = indexed 0 []\<rparr>"
    by (simp add: cofbuckets_new_def)
  note long = long_bucket_unpacks [OF assms(1,4,2,3)]
  have stray: "cofbucket_unpack ?stray ?b1 = (?b2, None)" "be_word (bytes_at 0 2 ?stray) = (word_of_nat 16 :: u16)" "length ?stray = 16"
    using assms(1,5-8) by (auto simp: cofbucket_unpack_def unpack_bucket_def cofbucket_new_def bytes_at_def Let_def be_word_def)
  have "unpack_buckets 32 (long_bucket l @ gap @ ?stray @ ?rest) 0 (cofbuckets_new v) =
      unpack_buckets ?left (?stray @ ?rest) 1 \<lparr>bks_version = v, bks_map = indexed 0 [?b1]\<rparr>"
    using unpack_buckets_step [of 32 "long_bucket l @ gap" l v ?b1 "[]" "?stray @ ?rest"] long assms(2,3) sizes(1) new by simp
  also have "\<dots> = unpack_buckets (?left - 16) ?rest 2 \<lparr>bks_version = v, bks_map = indexed 0 [?b1, ?b2]\<rparr>"
    using unpack_buckets_step [of ?left ?stray 16 v ?b2 "[?b1]" ?rest] stray sizes(2,3) by simp
  also have "\<dots> = (\<lparr>bks_version = v, bks_map = indexed 0 [?b1, ?b2]\<rparr>, None)"
    by (rule unpack_buckets_stop)
  finally have loop: "unpack_buckets 32 (long_bucket l @ gap @ ?stray @ ?rest) 0 (cofbuckets_new v) =
      (\<lparr>bks_version = v, bks_map = indexed 0 [?b1, ?b2]\<rparr>, None)" .
  let ?g2 = "\<lparr>gm_version = v, gm_command = gm_command g, gm_type = gm_type g, gm_group_id = gm_group_id g,
      gm_buckets = \<lparr>bks_version = v, bks_map = indexed 0 [?b1, ?b2]\<rparr>\<rparr>"
  have gm: "cofgroupmod_unpack 40 (groupmod_head g @ long_bucket l @ gap @ ?stray @ ?rest) (groupmod_emptied v (gmm_groupmod m)) = (?g2, None)"
    using groupmod_unpack_body [OF assms(1), of 40 g "long_bucket l @ gap @ ?stray @ ?rest" "gmm_groupmod m"] loop by simp
  have len: "cofgroupmod_length ?g2 = Inr 40"
    using assms(1)
    by (auto simp: cofgroupmod_length_def cofbuckets_length_def cofbucket_length_def cofbucket_new_def cofactions_new_def cofactions_length_def pad8_def)
  have "cofmsg_group_mod_unpack 48 (ofp_header_bytes v OFPT_GROUP_MOD (word_of_nat 48) xid @ groupmod_head g @ long_bucket l @ gap @ ?stray @ ?rest) m =
      (\<lparr>gmm_msg = received_msg v OFPT_GROUP_MOD 48 xid (gmm_msg m), gmm_groupmod = ?g2\<rparr>, None)"
    using group_mod_unpack_body [OF assms(1), of 48 "groupmod_head g @ long_bucket l @ gap @ ?stray @ ?rest" xid m] gm len
      groupmod_read(5) [of g] by (simp add: long_bucket_def)
  moreover have "get_bucket 1 (gm_buckets ?g2) = Inr ?b2"
    by (simp add: get_bucket_def)
  ultimately show ?thesis
    by (intro exI [of _ "\<lparr>gmm_msg = received_msg v OFPT_GROUP_MOD 48 xid (gmm_msg m), gmm_groupmod = ?g2\<rparr>"] exI [of _ ?b2]) simp
qed

theorem group_mod_reads_beyond_witness:
  "\<exists>m2 b. cofmsg_group_mod_unpack 48
      (ofp_header_bytes 4 OFPT_GROUP_MOD 48 7 @ groupmod_head (cofgroupmod_new 4) @ long_bucket 40 @
        [1, 2, 3, 4, 5, 6, 7, 8] @ [0, 16] @ [0, 1] @ [222, 173, 190, 239] @ [0, 0, 0, 2] @ [9, 9, 9, 9] @ [0, 0] @ [5]) group_mod_example =
      (m2, None) \<and>
    get_bucket 1 (gm_buckets (gmm_groupmod m2)) = Inr b \<and> bk_watch_port b = be_word [222, 173, 190, 239]"
  using group_mod_reads_beyond [of 4 40 "[1, 2, 3, 4, 5, 6, 7, 8]" "[0, 1]" "[222, 173, 190, 239]" "[0, 0, 0, 2]" "[9, 9, 9, 9]"] by force

end
