(* ===== verification/Spec2Isabelle.thy ===== *)
theory Spec2Isabelle
  imports Crofsock_Rx Multipart_Path Crofchan_Ownership Cofmatch_Check Crofbase_Roles Cofgroupmod_Laws
begin

text \<open>
  A verification development for rofl-common, the C++ library of the Revised OpenFlow Library
  (\<open>src/rofl/common\<close>).

  \<^bold>\<open>The program.\<close>  An application derives from \<open>rofl::crofbase\<close>, which holds its peers: a \<open>crofctl\<close> for every
  controller of a datapath, a \<open>crofdpt\<close> for every datapath of a controller.  A peer owns a control channel
  \<open>crofchan\<close>, which owns a main and auxiliary connections \<open>crofconn\<close>.  A connection negotiates the version of
  OpenFlow with HELLO messages, watches its peer with echo requests, keeps the requests that wait for a reply and
  the multipart messages in transit (\<open>csegment\<close>), and runs on a \<open>crofsock\<close>, which moves messages between four
  queues (\<open>crofqueue\<close>) and a TCP or TLS stream with two buffers (\<open>cbuffer\<close>).  Everything runs on the worker
  threads of a pool (\<open>cthread\<close>), which serve timers (\<open>ctimer\<close>, \<open>ctimespec\<close>), file descriptors and wake-ups.
  Messages carry flow matches (\<open>cofmatch\<close>), lists (\<open>coxmatches\<close>) of type-length-value elements (\<open>coxmatch\<close>), lists of
  actions (\<open>cofactions\<close> of \<open>cofaction\<close>) and sets of instructions (\<open>cofinstructions\<close> of \<open>cofinstruction\<close>), which may
  contain lists of actions.  A flow modification (\<open>cofflowmod\<close>) has one of each, a group modification
  (\<open>cofgroupmod\<close>) a list of buckets with actions, a packet-out message actions and a packet (\<open>cpacket\<close>).
  A lower layer calls the upper one through an environment class (\<open>crofsock_env\<close>, \<open>crofconn_env\<close>,
  \<open>crofchan_env\<close>, \<open>crofctl_env\<close>); a call to an environment that is gone throws.

  \<^bold>\<open>How it is modelled.\<close>  An object is a record with the data members of its class; a method is a function from
  the object, and the answers of what it calls, to the new object and to the list of what it did (calls of the
  operating system, calls of its environment, messages sent).  Exceptions are values: \<open>'a result\<close> is a sum with the
  exception on the left, \<open>'s outcome\<close> an object with an optional exception, since objects stay changed when a
  method throws.  Integers keep their width, so counters, lengths and masks wrap as in C++.  Containers of the standard
  library are lists: \<open>std::map\<close> in the order of its keys, \<open>std::set\<close> with a comparator in the order the comparator
  gives.  Threads and peers interleave at the granularity of one call (step relations with reachable states); locks
  appear only where a component can block itself (\<open>crofchan\<close>).

  \<^bold>\<open>Theories, bottom up.\<close>
  \<^item> \<open>Rofl_Prelude\<close>: widths, exceptions, results, ordered maps and sets, bytes, lemma collections.
  \<^item> \<open>Ctimespec\<close>: \<open>ctimespec.hpp/.cpp\<close>; arithmetic and order of time points, normalisation.
  \<^item> \<open>Cthread\<close>: \<open>cthread.hpp/.cpp\<close>, \<open>ctimer.hpp\<close>; timers, descriptors, wake-ups, one iteration of the loop, the pool.
    The timer loop, which reads the clock in every turn, handles expired timers only, and ends under a condition on
    the clock and the callbacks; \<open>drop\<close> leaves nothing behind, timers are replaced by environment and id.
  \<^item> \<open>Crofqueue\<close> (\<open>crofqueue.h\<close>), \<open>Cbuffer\<close> (\<open>cbuffer.hpp\<close>, \<open>cmemory.cc\<close>): both behave as queues.
  \<^item> \<open>Cofhello\<close>: hello elements and version bitmaps (\<open>openflow/cofhello*.cc\<close>); a bitmap is a set of versions,
    packing is inverted by unpacking, unpacking stays in the buffer when lengths are padded.
  \<^item> \<open>Cofmsg\<close>: header, multipart header, HELLO (\<open>openflow/messages/\<close>), the tables of the parsers in \<open>crofsock.cc\<close>.
  \<^item> \<open>Csegment\<close>: reassembly of multipart messages (\<open>csegment.cpp\<close>).
  \<^item> \<open>Crofsock\<close>, \<open>Crofsock_Tx\<close>, \<open>Crofsock_Rx\<close>: life cycle and back-off, transmission, reception
    (\<open>crofsock.cc\<close>).  Transmission conserves messages for every stream of answers of the operating system and after
    every number of turns, and returns if the answers are fair; framing delivers the messages of the byte stream
    however it is cut.
  \<^item> \<open>Crofconn\<close>, \<open>Crofconn_Negotiation\<close>, \<open>Crofconn_Tx\<close>, \<open>Crofconn_Rx\<close>, \<open>Crofconn_Delivery\<close>: the state machine,
    negotiation and transactions, segmentation, reception and the dispatcher (\<open>crofconn.cc\<close>), which delivers the
    reference schedule of messages that are handed on as they are.  \<open>Multipart_Path\<close> composes segmentation, dispatch and reassembly.
  \<^item> \<open>Crofchan\<close>, \<open>Crofchan_Ownership\<close>: channels (\<open>crofchan.h/.cc\<close>); every connection has one owner.
  \<^item> \<open>Coxmatch\<close>, \<open>Coxmatches\<close>, \<open>Coxmatches_Wire\<close>: elements and lists of a match (\<open>openflow/coxmatch.h\<close>,
    \<open>coxmatches.h/.cc\<close>); wire round trip, what copy and comparison do.
  \<^item> \<open>Cofmatch\<close>, \<open>Cofmatch_Wire\<close>, \<open>Cofmatch_Check\<close>: matches (\<open>openflow/cofmatch.h/.cc\<close>); an abstract view of the
    OpenFlow 1.0 structure and its round trip, the type-length-value format, the check of prerequisites.
  \<^item> \<open>Cofaction\<close>, \<open>Cofaction_Wire\<close>: the 29 classes of actions (\<open>openflow/cofaction.h/.cc\<close>); length, pack and unpack of
    every class, what an action that is sent arrives as.  \<open>Cofactions\<close>, \<open>Cofactions_Laws\<close>: lists of actions
    (\<open>cofactions.h/.cc\<close>), two maps that have to agree; the parser keeps them so for every input, dropping an absent
    action does not; round trip, copy.
  \<^item> \<open>Cofinstruction\<close>, \<open>Cofinstructions\<close>, \<open>Cofinstructions_Laws\<close>: instructions and sets of them
    (\<open>openflow/cofinstruction.h/.cc\<close>, \<open>cofinstructions.h/.cc\<close>); round trip, when the parser ends, how the lengths of
    actions lead it astray.
  \<^item> \<open>Cofflowmod\<close>, \<open>Cofflowmod_Laws\<close>: flow modifications and their message (\<open>openflow/cofflowmod.h/.cc\<close>,
    \<open>messages/cofmsg_flow_mod.h/.cc\<close>), which compose matches, actions and instructions; round trip of the whole
    message, and what a message with a wrong length of the match, or an unknown instruction, does to its receiver.
    The parser's argument is the memory from the buffer on, so that reads behind the buffer have a meaning.
  \<^item> \<open>Cpacket\<close>: memory areas and packets (\<open>cmemory.h/.cc\<close>, \<open>cpacket.h\<close>).  The locale \<open>framed\<close> is what a client
    sees, a list of bytes with room before it, and is interpreted on the operations of packets; what \<open>+=\<close> and the
    removal of tags do outside of it.
  \<^item> \<open>Cofpacketout\<close>, \<open>Cofpacketout_Laws\<close>: packet-out messages (\<open>messages/cofmsg_packet_out.h/.cc\<close>); round trip, and
    the offset of 16 bits that lets the parser read behind the message.
  \<^item> \<open>Cofgroupmod\<close>, \<open>Cofgroupmod_Laws\<close>: buckets, group modifications and their message (\<open>openflow/cofbucket.h/.cc\<close>,
    \<open>cofbuckets.h/.cc\<close>, \<open>cofgroupmod.h/.cc\<close>, \<open>messages/cofmsg_group_mod.h/.cc\<close>); round trip, and the bucket whose
    length is not compared with the message.
  \<^item> \<open>Crofctl_Errors\<close>, \<open>Crofctl\<close>, \<open>Crofctl_Answers\<close>: the peer of a datapath (\<open>crofctl.h/.cc\<close>); the error message of
    every exception, reception of every message type, roles.  The locale \<open>ctl_surroundings\<close> carries an invariant of
    the surroundings through \<open>handle_recv\<close>.
  \<^item> \<open>Crofbase\<close>, \<open>Crofbase_Roles\<close>: the controllers of a datapath (\<open>crofbase.h/.cc\<close>); one master at most, role
    requests and their generation, messages to all peers.  The locale is interpreted here.

  \<^bold>\<open>Bounds and fuel.\<close>  The loops over queues, elements and entries are structural or have a measure on what is left.
  Fuel stands where the code has a fixed number of turns: \<open>rx_turns\<close> gets the two turns of the dispatcher,
  \<open>chan_handle_closed\<close> a nesting of two (the main connection closes the auxiliary ones, which close no others),
  \<open>probe_auxid\<close> the 256 ids of a byte.  \<open>first_free\<close> gets \<open>2^64 - 1\<close> steps, after which all ids but one have been
  looked at; with every id taken the code does not return.  The loops whose end depends on their surroundings,
  \<open>tx_loop\<close> of transmission and \<open>run_timers\<close>, run for any number of turns and say whether they have finished
  (\<open>TX_running\<close>, \<open>Loop_going\<close>): the answers of \<open>send\<close> and the readings of the clock are endless streams, what is
  proved of safety holds after every number of turns, that the loops finish is proved from a named condition on the
  streams and callbacks, and \<open>zero_answers_spin\<close> and \<open>rearmed_timer_starves\<close> are runs that never finish.  \<open>inst_loop\<close>, the parser of instructions, is a partial
  function on the remaining length and the memory from the current instruction on, so that it follows the code behind
  the buffer when the length has wrapped around; it is \<open>None\<close> when the code does not return, which
  \<open>instruction_parser_ends\<close> characterises.
  \<open>alloc_limit\<close> (\<open>2^47\<close> bytes) is the size at which an allocation throws.

  \<^bold>\<open>What is not modelled.\<close>  OpenSSL and the handshakes of TLS, sockets and name resolution: their answers are
  arguments.  The application behind the callbacks: an argument, quantified over; the owner of a connection is passive
  (its callbacks return normally and do not call back into the connection), callbacks of a thread return normally, an
  application does not write a role through \<open>crofctl::set_role()\<close>, and a connection that is owned by a channel does
  not change its auxiliary identifier.  The bodies of the messages other
  than HELLO, multipart headers, flow and group modifications and packet-out messages (ports, tables, meters, queues,
  statistics); \<open>crofdpt\<close>, the mirror image of \<open>crofctl\<close>; listening sockets of \<open>crofbase\<close>; locks;
  logging and printing.  Undefined behaviour of C++ is either excluded by a hypothesis or has a definite result that the
  text at the definition names.
\<close>

end
